(* ===== verification/Bridge_Prelude.thy ===== *)
theory Bridge_Prelude
  imports Main "HOL-Library.Word"
begin

text \<open>
  Shared vocabulary of the development.

  \<^item> Names for the machine types of the Rust sources.  A \<open>uN\<close> is an \<open>N word\<close>, so that
    \<open>+\<close>, \<open>-\<close> and \<open>*\<close> wrap exactly where an unchecked machine operation would; a byte array
    or a byte vector is a list of \<open>u8\<close>; \<open>u64::MAX\<close> and \<open>u128::MAX\<close> are \<open>- 1\<close>.
  \<^item> The checked and saturating operations of the Rust integer types, with the lemmas that
    relate them to exact arithmetic on \<open>nat\<close>.
  \<^item> \<open>Result\<close> as a sum type (\<open>Inl\<close> the error, \<open>Inr\<close> the value) with the \<open>?\<close> operator as
    \<open>try_bind\<close> and \<open>Option::ok_or\<close>.
  \<^item> Big-endian reading of byte strings.

  The collection \<open>result_simps\<close> inverts a successful chain of \<open>?\<close>; the collection
  \<open>word_exact\<close> turns word guards of the form \<open>MAX - b < a\<close> into bounds on \<open>nat\<close>.
\<close>

named_theorems result_simps "inversion of successful Result chains"
named_theorems word_exact "overflow guards as bounds on natural numbers"

type_synonym u8 = "8 word"
type_synonym u16 = "16 word"
type_synonym u32 = "32 word"
type_synonym u64 = "64 word"
type_synonym u128 = "128 word"
type_synonym bytes = "u8 list"

section \<open>Checked and saturating integer operations\<close>

definition checked_add :: "'a::len word \<Rightarrow> 'a word \<Rightarrow> 'a word option" where
  "checked_add a b = (if unat a + unat b < 2 ^ LENGTH('a) then Some (a + b) else None)"

definition checked_sub :: "'a::len word \<Rightarrow> 'a word \<Rightarrow> 'a word option" where
  "checked_sub a b = (if b \<le> a then Some (a - b) else None)"

definition checked_mul :: "'a::len word \<Rightarrow> 'a word \<Rightarrow> 'a word option" where
  "checked_mul a b = (if unat a * unat b < 2 ^ LENGTH('a) then Some (a * b) else None)"

definition saturating_add :: "'a::len word \<Rightarrow> 'a word \<Rightarrow> 'a word" where
  "saturating_add a b = (if unat a + unat b < 2 ^ LENGTH('a) then a + b else - 1)"

definition saturating_sub :: "'a::len word \<Rightarrow> 'a word \<Rightarrow> 'a word" where
  "saturating_sub a b = (if b \<le> a then a - b else 0)"

definition saturating_mul :: "'a::len word \<Rightarrow> 'a word \<Rightarrow> 'a word" where
  "saturating_mul a b = (if unat a * unat b < 2 ^ LENGTH('a) then a * b else - 1)"

section \<open>Results\<close>

definition try_bind :: "'e + 'a \<Rightarrow> ('a \<Rightarrow> 'e + 'b) \<Rightarrow> 'e + 'b" where
  "try_bind r f = (case r of Inl e \<Rightarrow> Inl e | Inr x \<Rightarrow> f x)"

definition ok_or :: "'e \<Rightarrow> 'a option \<Rightarrow> 'e + 'a" where
  "ok_or e r = (case r of None \<Rightarrow> Inl e | Some x \<Rightarrow> Inr x)"

definition map_result :: "('a \<Rightarrow> 'b) \<Rightarrow> 'e + 'a \<Rightarrow> 'e + 'b" where
  "map_result f r = (case r of Inl e \<Rightarrow> Inl e | Inr x \<Rightarrow> Inr (f x))"

section \<open>Big-endian byte strings\<close>

fun be_value :: "bytes \<Rightarrow> nat" where
  "be_value [] = 0"
| "be_value (b # bs) = unat b * 256 ^ length bs + be_value bs"

fun to_be :: "nat \<Rightarrow> nat \<Rightarrow> bytes" where
  "to_be 0 v = []"
| "to_be (Suc n) v = word_of_nat (v div 256 ^ n mod 256) # to_be n v"

fun bytes_less :: "bytes \<Rightarrow> bytes \<Rightarrow> bool" where
  "bytes_less _ [] = False"
| "bytes_less [] (_ # _) = True"
| "bytes_less (a # as) (b # bs) = (a < b \<or> a = b \<and> bytes_less as bs)"

section \<open>Lemmas on words\<close>

lemma unat_bound: "unat w < 2 ^ LENGTH('a)" for w :: "'a::len word"
  by (rule unsigned_less)

lemma unat_eqD: "unat a = unat b \<Longrightarrow> a = b" for a b :: "'a::len word"
  by (rule unsigned_word_eqI)

lemma unat_neq_big: "2 ^ LENGTH('a) \<le> n \<Longrightarrow> unat w \<noteq> n" for w :: "'a::len word"
  using unat_bound [of w] by linarith

lemma unat_max_word: "unat (- 1 :: 'a::len word) = 2 ^ LENGTH('a) - 1"
  by (simp add: unsigned_minus_1_eq_mask mask_eq_exp_minus_1)

lemma unat_max_minus: "unat (- 1 - b :: 'a::len word) = 2 ^ LENGTH('a) - 1 - unat b"
  by (subst unat_sub) (simp_all add: unat_max_word)

lemma max_minus_less [word_exact]:
  "(- 1 - b < a) \<longleftrightarrow> 2 ^ LENGTH('a) \<le> unat a + unat (b :: 'a::len word)"
proof -
  have "(- 1 - b < a) \<longleftrightarrow> 2 ^ LENGTH('a) - 1 - unat b < unat a"
    by (simp add: word_less_nat_alt unat_max_minus)
  then show ?thesis
    using unat_bound [of b] by linarith
qed

lemma le_max_minus [word_exact]:
  "(a \<le> - 1 - b) \<longleftrightarrow> unat a + unat (b :: 'a::len word) < 2 ^ LENGTH('a)"
  using max_minus_less [of b a] by (simp add: linorder_not_less [symmetric])

lemma not_max_less [simp]: "\<not> (- 1 < (a :: 'a::len word))"
  by (simp add: linorder_not_less)

lemma unat_add_exact:
  "unat a + unat b < 2 ^ LENGTH('a) \<Longrightarrow> unat (a + b) = unat a + unat (b :: 'a::len word)"
  by (rule unat_add_lem [THEN iffD1])

lemma unat_mult_exact:
  "unat a * unat b < 2 ^ LENGTH('a) \<Longrightarrow> unat (a * b) = unat a * unat (b :: 'a::len word)"
  by (rule unat_mult_lem [THEN iffD1])

lemma unat_sub_exact:
  "b \<le> a \<Longrightarrow> unat (a - b) = unat a - unat (b :: 'a::len word)"
  by (simp add: unat_sub)

lemma max_minus_div_less [word_exact]:
  assumes "c \<noteq> 0"
  shows "((- 1 - f) div c < u) \<longleftrightarrow> 2 ^ LENGTH('a) \<le> unat f + unat u * unat (c :: 'a::len word)"
proof -
  have c: "0 < unat c"
    using assms by (simp add: unat_gt_0)
  have "((- 1 - f) div c < u) \<longleftrightarrow> (2 ^ LENGTH('a) - 1 - unat f) div unat c < unat u"
    by (simp add: word_less_nat_alt unat_div unat_max_minus)
  also have "\<dots> \<longleftrightarrow> 2 ^ LENGTH('a) - 1 - unat f < unat u * unat c"
    using c by (simp add: div_less_iff_less_mult)
  also have "\<dots> \<longleftrightarrow> 2 ^ LENGTH('a) \<le> unat f + unat u * unat c"
    using unat_bound [of f] by linarith
  finally show ?thesis .
qed

lemma uint_of_sum: "unat a = unat b + unat c \<Longrightarrow> uint a = uint b + uint c"
  for a b c :: "'a::len word"
  by (simp only: uint_nat of_nat_add)

lemma unat_word_of_nat:
  "k < 2 ^ LENGTH('a) \<Longrightarrow> unat (word_of_nat k :: 'a::len word) = k"
  by (simp add: unsigned_of_nat take_bit_nat_eq_self)

lemma unat_surj: "k < 2 ^ LENGTH('a) \<Longrightarrow> \<exists>v :: 'a::len word. k = unat v"
  by (metis unat_word_of_nat)

lemma unat_ucast_up:
  "LENGTH('a::len) \<le> LENGTH('b::len) \<Longrightarrow> unat (ucast (w :: 'a word) :: 'b word) = unat w"
proof -
  assume le: "LENGTH('a) \<le> LENGTH('b)"
  have "unat w < 2 ^ LENGTH('b)"
    using unat_bound [of w] power_increasing [OF le, of "2 :: nat"] by linarith
  then show ?thesis
    by (simp add: unsigned_ucast_eq take_bit_nat_eq_self)
qed

section \<open>Lemmas on the checked operations\<close>

lemma checked_add_eq_Some:
  "checked_add a b = Some c \<longleftrightarrow> unat a + unat b = unat c"
  for a b c :: "'a::len word"
proof
  assume "checked_add a b = Some c"
  then show "unat a + unat b = unat c"
    by (auto simp: checked_add_def unat_add_exact split: if_splits)
next
  assume eq: "unat a + unat b = unat c"
  then have lt: "unat a + unat b < 2 ^ LENGTH('a)"
    by simp
  then have "unat (a + b) = unat c"
    using eq by (simp add: unat_add_exact)
  then have "a + b = c"
    by (rule unat_eqD)
  then show "checked_add a b = Some c"
    using lt by (simp add: checked_add_def)
qed

lemma checked_add_eq_None:
  "checked_add a b = None \<longleftrightarrow> 2 ^ LENGTH('a) \<le> unat a + unat (b :: 'a::len word)"
  by (simp add: checked_add_def linorder_not_less)

lemma checked_sub_eq_Some:
  "checked_sub a b = Some c \<longleftrightarrow> unat a = unat b + unat c"
  for a b c :: "'a::len word"
proof
  assume "checked_sub a b = Some c"
  then show "unat a = unat b + unat c"
    by (auto simp: checked_sub_def unat_sub_exact word_le_nat_alt split: if_splits)
next
  assume eq: "unat a = unat b + unat c"
  then have le: "b \<le> a"
    by (simp add: word_le_nat_alt)
  then have "unat (a - b) = unat c"
    using eq by (simp add: unat_sub_exact)
  then have "a - b = c"
    by (rule unat_eqD)
  then show "checked_sub a b = Some c"
    using le by (simp add: checked_sub_def)
qed

lemma checked_sub_eq_None:
  "checked_sub a b = None \<longleftrightarrow> unat a < unat (b :: 'a::len word)"
  by (simp add: checked_sub_def word_le_nat_alt linorder_not_le)

lemma checked_mul_eq_None:
  "checked_mul a b = None \<longleftrightarrow> 2 ^ LENGTH('a) \<le> unat a * unat (b :: 'a::len word)"
  by (simp add: checked_mul_def linorder_not_less)

lemma checked_mul_eq_Some:
  "checked_mul a b = Some c \<longleftrightarrow> unat a * unat b = unat c"
  for a b c :: "'a::len word"
proof
  assume "checked_mul a b = Some c"
  then show "unat a * unat b = unat c"
    by (auto simp: checked_mul_def unat_mult_exact split: if_splits)
next
  assume eq: "unat a * unat b = unat c"
  then have lt: "unat a * unat b < 2 ^ LENGTH('a)"
    by simp
  then have "unat (a * b) = unat c"
    using eq by (simp add: unat_mult_exact)
  then have "a * b = c"
    by (rule unat_eqD)
  then show "checked_mul a b = Some c"
    using lt by (simp add: checked_mul_def)
qed

lemma unat_saturating_add:
  "unat (saturating_add a b) = min (2 ^ LENGTH('a) - 1) (unat a + unat (b :: 'a::len word))"
  by (auto simp: saturating_add_def unat_add_exact unat_max_word min_def)

lemma unat_saturating_sub:
  "unat (saturating_sub a b) = unat a - unat (b :: 'a::len word)"
  by (auto simp: saturating_sub_def unat_sub_exact word_le_nat_alt)

section \<open>Lemmas on results\<close>

lemma try_bind_simps [simp]:
  "try_bind (Inl e) f = Inl e"
  "try_bind (Inr x) f = f x"
  by (simp_all add: try_bind_def)

lemma try_bind_eq_Inr [result_simps]:
  "try_bind r f = Inr y \<longleftrightarrow> (\<exists>x. r = Inr x \<and> f x = Inr y)"
  by (cases r) simp_all

lemma try_bind_eq_Inl [result_simps]:
  "try_bind r f = Inl e \<longleftrightarrow> r = Inl e \<or> (\<exists>x. r = Inr x \<and> f x = Inl e)"
  by (cases r) simp_all

lemma ok_or_simps [simp]:
  "ok_or e None = Inl e"
  "ok_or e (Some x) = Inr x"
  by (simp_all add: ok_or_def)

lemma ok_or_eq_Inr [result_simps]: "ok_or e r = Inr x \<longleftrightarrow> r = Some x"
  by (cases r) simp_all

lemma ok_or_eq_Inl [result_simps]: "ok_or e r = Inl e' \<longleftrightarrow> r = None \<and> e = e'"
  by (cases r) auto

lemma map_result_simps [simp]:
  "map_result f (Inl e) = Inl e"
  "map_result f (Inr x) = Inr (f x)"
  by (simp_all add: map_result_def)

lemma map_result_eq_Inr [result_simps]: "map_result f r = Inr y \<longleftrightarrow> (\<exists>x. r = Inr x \<and> y = f x)"
  by (cases r) auto

lemma if_Inl_eq_Inr [result_simps]:
  "(if c then Inl e else r) = Inr x \<longleftrightarrow> \<not> c \<and> r = Inr x"
  by simp

section \<open>Lemmas on byte strings\<close>

lemma be_value_less: "be_value bs < 256 ^ length bs"
proof (induction bs)
  case (Cons b bs)
  have "unat b < 256"
    using unat_bound [of b] by simp
  then have "Suc (unat b) * 256 ^ length bs \<le> 256 * 256 ^ length bs"
    by (intro mult_le_mono) simp_all
  then have "unat b * 256 ^ length bs + 256 ^ length bs \<le> 256 * 256 ^ length bs"
    by simp
  then have "unat b * 256 ^ length bs + be_value bs < 256 * 256 ^ length bs"
    using Cons.IH by linarith
  then show ?case
    by simp
qed simp

lemma be_value_append:
  "be_value (as @ bs) = be_value as * 256 ^ length bs + be_value bs"
  by (induction as) (simp_all add: algebra_simps power_add)

lemma be_value_eq_iff:
  "length as = length bs \<Longrightarrow> be_value as = be_value bs \<longleftrightarrow> as = bs"
proof (induction as bs rule: list_induct2)
  case (Cons a as b bs)
  let ?w = "256 ^ length bs :: nat"
  have as: "be_value as < ?w" and bs: "be_value bs < ?w"
    using be_value_less [of as] be_value_less [of bs] Cons.hyps by simp_all
  have split: "(x * ?w + r) div ?w = x" "(x * ?w + r) mod ?w = r" if "r < ?w" for x r :: nat
    using that by simp_all
  show ?case
  proof
    assume "be_value (a # as) = be_value (b # bs)"
    then have eq: "unat a * ?w + be_value as = unat b * ?w + be_value bs"
      using Cons.hyps by simp
    then have "unat a = unat b" "be_value as = be_value bs"
      using split(1) [OF as, of "unat a"] split(1) [OF bs, of "unat b"]
        split(2) [OF as, of "unat a"] split(2) [OF bs, of "unat b"] by metis+
    then show "a # as = b # bs"
      using Cons.IH by (simp add: unat_eqD)
  qed simp
qed simp

lemma bytes_less_iff:
  "length as = length bs \<Longrightarrow> bytes_less as bs \<longleftrightarrow> be_value as < be_value bs"
proof (induction as bs rule: list_induct2)
  case (Cons a as b bs)
  let ?w = "256 ^ length bs :: nat"
  have as: "be_value as < ?w" and bs: "be_value bs < ?w"
    using be_value_less [of as] be_value_less [of bs] Cons.hyps by simp_all
  have lt: "x * ?w + r < y * ?w + s" if "x < y" "r < ?w" for x y r s :: nat
  proof -
    have "Suc x * ?w \<le> y * ?w"
      using that(1) by (intro mult_le_mono1) simp
    then show ?thesis
      using that(2) by simp
  qed
  consider "unat a < unat b" | "unat b < unat a" | "unat a = unat b"
    by linarith
  then show ?case
  proof cases
    case 1
    then show ?thesis
      using lt [OF 1 as, of "be_value bs"] Cons.hyps by (simp add: word_less_nat_alt)
  next
    case 2
    moreover have "\<not> a < b" "a \<noteq> b"
      using 2 by (auto simp: word_less_nat_alt)
    ultimately show ?thesis
      using lt [OF 2 bs, of "be_value as"] Cons.hyps by simp
  next
    case 3
    then have "a = b"
      by (rule unat_eqD)
    then show ?thesis
      using Cons by simp
  qed
qed simp

lemma length_to_be [simp]: "length (to_be n v) = n"
  by (induction n) simp_all

lemma be_value_to_be: "be_value (to_be n v) = v mod 256 ^ n"
proof (induction n)
  case (Suc n)
  have "unat (word_of_nat (v div 256 ^ n mod 256) :: u8) = v div 256 ^ n mod 256"
    by (simp add: unsigned_of_nat take_bit_eq_mod)
  then have "be_value (to_be (Suc n) v) = v div 256 ^ n mod 256 * 256 ^ n + v mod 256 ^ n"
    using Suc by simp
  also have "\<dots> = v mod (256 ^ n * 256)"
    unfolding mod_mult2_eq by (simp only: mult.commute)
  finally show ?case
    by (simp add: mult.commute)
qed simp

lemma be_value_replicate_zero: "be_value (replicate n 0) = 0"
  by (induction n) simp_all

lemma to_be_unique: "length bs = n \<Longrightarrow> to_be n (be_value bs) = bs"
  using be_value_less [of bs] by (simp add: be_value_eq_iff [symmetric] be_value_to_be)

lemma to_be_inject:
  "a < 256 ^ n \<Longrightarrow> b < 256 ^ n \<Longrightarrow> to_be n a = to_be n b \<longleftrightarrow> a = b"
  by (metis be_value_to_be mod_less)

end
