(* ===== verification/Kernel_Decisions.thy ===== *)
theory Kernel_Decisions
  imports Bridge_Prelude
begin

text \<open>
  The yes/no and multi-way decisions of \<open>bridge-core/src/kernel.rs\<close>: who may call what, which
  lifecycle step is due, when a lease outcome, a hold resolution or a funding attempt may go
  ahead.  Variants of an enumeration carry the initials of its name as a prefix.  The kernel's
  multi-way macros take the variants as arguments, and so do the polymorphic \<open>..._body\<close>
  definitions.
\<close>

section \<open>Matching and replay\<close>

definition scan_complete :: "u128 \<Rightarrow> u128 \<Rightarrow> u128 \<Rightarrow> bool \<Rightarrow> bool \<Rightarrow> bool" where
  "scan_complete next_block tip watermark archives matched =
    (archives \<and> \<not> matched \<and> tip \<le> watermark \<and> tip < next_block)"

definition evidence_matches :: "bool \<Rightarrow> bool \<Rightarrow> bool \<Rightarrow> bool \<Rightarrow> bool \<Rightarrow> bool" where
  "evidence_matches request hold transfer open_or_retry evidence =
    (request \<and> hold \<and> transfer \<and> open_or_retry \<and> evidence)"

definition replay_matches :: "bool \<Rightarrow> bool" where
  "replay_matches same_payload = same_payload"

definition refresh_owner_matches_body :: "'a option \<Rightarrow> 'a \<Rightarrow> bool" where
  "refresh_owner_matches_body current claimant =
    (case current of Some owner \<Rightarrow> owner = claimant | None \<Rightarrow> False)"

definition refresh_owner_matches :: "u64 option \<Rightarrow> u64 \<Rightarrow> bool" where
  "refresh_owner_matches current claimant = refresh_owner_matches_body current claimant"

definition canonical_probe_matches :: "u64 \<Rightarrow> u64 \<Rightarrow> bool" where
  "canonical_probe_matches receipt_block snapshot_block = (receipt_block = snapshot_block)"

definition runtime_attestation_matches :: "bool \<Rightarrow> bool \<Rightarrow> bool \<Rightarrow> bool" where
  "runtime_attestation_matches observation_present chain_id_matches runtime_hash_matches =
    (observation_present \<and> chain_id_matches \<and> runtime_hash_matches)"

section \<open>Index membership\<close>

definition withdrawal_liability_indexed :: "u8 \<Rightarrow> bool" where
  "withdrawal_liability_indexed state = (state = 0 \<or> state = 1 \<or> state = 3)"

definition reconciliation_hold_indexed :: "u8 \<Rightarrow> bool" where
  "reconciliation_hold_indexed state = (state = 0)"

definition deposit_nonterminal_indexed :: "u8 \<Rightarrow> bool" where
  "deposit_nonterminal_indexed state = (state \<noteq> 8 \<and> state \<noteq> 9 \<and> state \<noteq> 10)"

section \<open>Deposit identity, recipient and continuation\<close>

datatype DepositIdentityDecision = DID_Allow | DID_Conflict

definition deposit_identity_decision :: "bool \<Rightarrow> DepositIdentityDecision" where
  "deposit_identity_decision processed = (if processed then DID_Conflict else DID_Allow)"

definition deposit_recipient_allowed :: "bool \<Rightarrow> bool \<Rightarrow> bool \<Rightarrow> bool" where
  "deposit_recipient_allowed is_zero is_bridge is_token = (\<not> is_zero \<and> \<not> is_bridge \<and> \<not> is_token)"

datatype DepositContinuationDecision = DCD_Allow | DCD_AnonymousCaller | DCD_WrongState

definition deposit_continuation_decision_body ::
    "bool \<Rightarrow> bool \<Rightarrow> bool \<Rightarrow> 'd \<Rightarrow> 'd \<Rightarrow> 'd \<Rightarrow> 'd" where
  "deposit_continuation_decision_body authenticated authorization_phase retryable_stop
      allow anonymous wrong_state =
    (if \<not> authenticated then anonymous
     else if authorization_phase \<and> retryable_stop then allow
     else wrong_state)"

definition deposit_continuation_decision ::
    "bool \<Rightarrow> bool \<Rightarrow> bool \<Rightarrow> DepositContinuationDecision" where
  "deposit_continuation_decision authenticated authorization_phase retryable_stop =
    deposit_continuation_decision_body authenticated authorization_phase retryable_stop
      DCD_Allow DCD_AnonymousCaller DCD_WrongState"

datatype RefundRequestIdentityDecision = RRI_Allow | RRI_AnonymousCaller

definition refund_request_identity_decision :: "bool \<Rightarrow> RefundRequestIdentityDecision" where
  "refund_request_identity_decision authenticated =
    (if \<not> authenticated then RRI_AnonymousCaller else RRI_Allow)"

section \<open>Funding attempts\<close>

datatype FundingAttemptDecision =
  FAD_PromoteSuccess | FAD_PromoteAmbiguous | FAD_Release | FAD_Retain

definition funding_attempt_decision_body :: "u8 \<Rightarrow> 'd \<Rightarrow> 'd \<Rightarrow> 'd \<Rightarrow> 'd \<Rightarrow> 'd" where
  "funding_attempt_decision_body kind success ambiguous release retain =
    (if kind = 0 \<or> kind = 1 then success
     else if kind = 2 then ambiguous
     else if kind = 3 then release
     else retain)"

definition funding_attempt_decision :: "u8 \<Rightarrow> FundingAttemptDecision" where
  "funding_attempt_decision outcome_kind =
    funding_attempt_decision_body outcome_kind
      FAD_PromoteSuccess FAD_PromoteAmbiguous FAD_Release FAD_Retain"

datatype FundingReconciliationDecision = FRD_Wait | FRD_RestartFresh | FRD_Release

definition funding_reconciliation_decision_body ::
    "bool \<Rightarrow> bool \<Rightarrow> bool \<Rightarrow> 'd \<Rightarrow> 'd \<Rightarrow> 'd \<Rightarrow> 'd" where
  "funding_reconciliation_decision_body complete_absence final_scan dedup_expired
      wait restart_fresh release =
    (if \<not> complete_absence then wait
     else if \<not> final_scan then restart_fresh
     else if dedup_expired then release
     else wait)"

definition funding_reconciliation_decision ::
    "bool \<Rightarrow> bool \<Rightarrow> bool \<Rightarrow> FundingReconciliationDecision" where
  "funding_reconciliation_decision complete_absence final_scan dedup_expired =
    funding_reconciliation_decision_body complete_absence final_scan dedup_expired
      FRD_Wait FRD_RestartFresh FRD_Release"

section \<open>Holds, leases and manual claims\<close>

definition hold_retry_allowed :: "bool \<Rightarrow> bool \<Rightarrow> bool" where
  "hold_retry_allowed exact_success complete_absence = (exact_success \<or> complete_absence)"

datatype HoldResolutionDecision = HRD_Wait | HRD_ResolveSucceeded | HRD_ResolveAbsent

definition hold_resolution_decision_body :: "bool \<Rightarrow> bool \<Rightarrow> 'd \<Rightarrow> 'd \<Rightarrow> 'd \<Rightarrow> 'd" where
  "hold_resolution_decision_body exact_success complete_absence wait success absence =
    (if exact_success then success else if complete_absence then absence else wait)"

definition hold_resolution_decision :: "bool \<Rightarrow> bool \<Rightarrow> HoldResolutionDecision" where
  "hold_resolution_decision exact_success complete_absence =
    hold_resolution_decision_body exact_success complete_absence
      HRD_Wait HRD_ResolveSucceeded HRD_ResolveAbsent"

definition lease_outcome_is_current :: "u64 \<Rightarrow> u64 \<Rightarrow> bool \<Rightarrow> bool" where
  "lease_outcome_is_current active_generation outcome_generation active =
    (active \<and> active_generation = outcome_generation)"

datatype LeaseOutcomeDecision = LOD_Accept | LOD_Reject

definition lease_outcome_decision :: "u64 \<Rightarrow> u64 \<Rightarrow> bool \<Rightarrow> LeaseOutcomeDecision" where
  "lease_outcome_decision active_generation outcome_generation active =
    (if active \<and> active_generation = outcome_generation then LOD_Accept else LOD_Reject)"

datatype LeaseLaneClaimDecision = LLC_Allow | LLC_AutomaticProgressPending | LLC_Busy

definition lease_lane_claim_body ::
    "bool \<Rightarrow> bool \<Rightarrow> 'a::ord \<Rightarrow> 'a \<Rightarrow> 'd \<Rightarrow> 'd \<Rightarrow> 'd \<Rightarrow> 'd" where
  "lease_lane_claim_body target_active target_automatic active_in_lane capacity
      allow automatic_pending busy =
    (if target_active then (if target_automatic then automatic_pending else busy)
     else if capacity \<le> active_in_lane then busy
     else allow)"

definition lease_lane_claim_decision :: "bool \<Rightarrow> bool \<Rightarrow> u64 \<Rightarrow> u64 \<Rightarrow> LeaseLaneClaimDecision" where
  "lease_lane_claim_decision target_active target_automatic active_in_lane capacity =
    lease_lane_claim_body target_active target_automatic active_in_lane capacity
      LLC_Allow LLC_AutomaticProgressPending LLC_Busy"

definition manual_claim_allowed_body :: "bool \<Rightarrow> bool \<Rightarrow> bool \<Rightarrow> bool \<Rightarrow> bool \<Rightarrow> bool" where
  "manual_claim_allowed_body scheduled active stopped overdue expired =
    ((\<not> active \<or> expired) \<and> (\<not> scheduled \<or> stopped \<or> overdue \<or> expired))"

definition manual_claim_allowed :: "bool \<Rightarrow> bool \<Rightarrow> bool \<Rightarrow> bool \<Rightarrow> bool \<Rightarrow> bool" where
  "manual_claim_allowed scheduled active stopped overdue expired =
    manual_claim_allowed_body scheduled active stopped overdue expired"

datatype ManualClaimDecision = MCD_Allow | MCD_AutomaticProgressPending

definition manual_claim_decision ::
    "bool \<Rightarrow> bool \<Rightarrow> bool \<Rightarrow> bool \<Rightarrow> bool \<Rightarrow> ManualClaimDecision" where
  "manual_claim_decision scheduled active stopped overdue expired =
    (if manual_claim_allowed_body scheduled active stopped overdue expired
     then MCD_Allow else MCD_AutomaticProgressPending)"

definition automatic_retry_allowed :: "bool \<Rightarrow> u8 \<Rightarrow> u8 \<Rightarrow> bool" where
  "automatic_retry_allowed automatic_lane consecutive_failures failure_limit =
    (automatic_lane \<and> consecutive_failures < failure_limit)"

definition settlement_failure_count :: "u8 \<Rightarrow> bool \<Rightarrow> bool \<Rightarrow> bool \<Rightarrow> u8" where
  "settlement_failure_count current automatic_lane retryable_failure progress_or_deferred =
    (if progress_or_deferred then 0
     else if automatic_lane \<and> retryable_failure then saturating_add current 1
     else current)"

section \<open>Administration and payouts\<close>

definition sns_fee_payout_authorized :: "bool \<Rightarrow> bool \<Rightarrow> bool \<Rightarrow> bool \<Rightarrow> bool \<Rightarrow> bool" where
  "sns_fee_payout_authorized governance operational positive recipient identity =
    (governance \<and> operational \<and> positive \<and> recipient \<and> identity)"

definition authorized_body ::
    "'a \<Rightarrow> bool \<Rightarrow> bool \<Rightarrow> 'a \<Rightarrow> 'a \<Rightarrow> 'a \<Rightarrow> 'a \<Rightarrow> bool" where
  "authorized_body action pause governance pause_action resume_action payout_action
      rotate_action =
    ((action = pause_action \<and> pause)
     \<or> ((action = payout_action \<or> action = resume_action \<or> action = rotate_action)
        \<and> governance))"

definition administrator_authorized :: "u8 \<Rightarrow> bool \<Rightarrow> bool \<Rightarrow> bool" where
  "administrator_authorized action is_pause is_governance =
    authorized_body action is_pause is_governance 0 1 2 3"

definition fee_recipient_rotation_allowed :: "u128 \<Rightarrow> bool" where
  "fee_recipient_rotation_allowed pending_payout_debit = (pending_payout_debit = 0)"

datatype FeeRecipientRotationDecision = FRR_Allow | FRR_Unauthorized | FRR_InvalidInput | FRR_Busy

definition fee_recipient_rotation_decision_body ::
    "bool \<Rightarrow> bool \<Rightarrow> bool \<Rightarrow> bool \<Rightarrow> bool \<Rightarrow> 'd \<Rightarrow> 'd \<Rightarrow> 'd \<Rightarrow> 'd \<Rightarrow> 'd" where
  "fee_recipient_rotation_decision_body authorized anonymous role_collision valid_subaccount
      no_pending allow unauthorized invalid busy =
    (if anonymous \<or> \<not> valid_subaccount then invalid
     else if \<not> authorized then unauthorized
     else if role_collision then invalid
     else if \<not> no_pending then busy
     else allow)"

definition fee_recipient_rotation_decision ::
    "bool \<Rightarrow> bool \<Rightarrow> bool \<Rightarrow> u64 \<Rightarrow> u128 \<Rightarrow> FeeRecipientRotationDecision" where
  "fee_recipient_rotation_decision authorized anonymous role_collision subaccount_len
      pending_payout_debit =
    fee_recipient_rotation_decision_body authorized anonymous role_collision
      (subaccount_len = 0 \<or> subaccount_len = 32) (pending_payout_debit = 0)
      FRR_Allow FRR_Unauthorized FRR_InvalidInput FRR_Busy"

definition cycles_top_up_request_allowed :: "u128 \<Rightarrow> u128 \<Rightarrow> bool \<Rightarrow> bool \<Rightarrow> bool" where
  "cycles_top_up_request_allowed balance threshold in_progress authorized =
    (authorized \<and> \<not> in_progress \<and> balance \<le> threshold)"

definition confirmation_caller_authorized :: "bool \<Rightarrow> bool \<Rightarrow> bool \<Rightarrow> bool \<Rightarrow> bool" where
  "confirmation_caller_authorized non_anonymous relayer governance pause =
    (non_anonymous \<and> (relayer \<or> governance \<or> pause))"

definition confirmation_roles_distinct :: "bool \<Rightarrow> bool \<Rightarrow> bool \<Rightarrow> bool \<Rightarrow> bool" where
  "confirmation_roles_distinct relayer_is_governance relayer_is_pause governance_is_pause
      allow_staging_relayer_governance =
    (\<not> governance_is_pause \<and> \<not> relayer_is_pause
     \<and> (allow_staging_relayer_governance \<or> \<not> relayer_is_governance))"

section \<open>Lifecycle: sealing, activation, handover\<close>

definition sns_upgrade_completion_allowed :: "bool \<Rightarrow> u64 \<Rightarrow> u64 \<Rightarrow> u64 \<Rightarrow> u64 \<Rightarrow> bool" where
  "sns_upgrade_completion_allowed root_caller completed decided handover now =
    (root_caller \<and> 0 < decided \<and> decided \<le> completed \<and> handover \<le> completed \<and> completed \<le> now)"

definition sns_activation_proposal_allowed ::
    "bool \<Rightarrow> bool \<Rightarrow> bool \<Rightarrow> bool \<Rightarrow> bool \<Rightarrow> bool \<Rightarrow> bool" where
  "sns_activation_proposal_allowed activated paused predecessor_matches schedule pending_timelock
      last_was_schedule =
    (activated \<and> paused \<and> predecessor_matches \<and> (pending_timelock \<noteq> schedule)
     \<and> (schedule \<or> last_was_schedule))"

definition asset_operations_allowed :: "bool \<Rightarrow> bool" where
  "asset_operations_allowed operational_config_sealed = operational_config_sealed"

datatype AssetOperationLifecycleDecision = AOL_Allow | AOL_OperationalConfigNotSealed

definition asset_operation_lifecycle_decision :: "bool \<Rightarrow> AssetOperationLifecycleDecision" where
  "asset_operation_lifecycle_decision operational_config_sealed =
    (if asset_operations_allowed operational_config_sealed then AOL_Allow
     else AOL_OperationalConfigNotSealed)"

definition operational_config_seal_allowed :: "bool \<Rightarrow> bool \<Rightarrow> bool" where
  "operational_config_seal_allowed operational_config_sealed candidate_valid =
    (\<not> operational_config_sealed \<and> candidate_valid)"

definition operational_config_seal_caller_authorized :: "bool \<Rightarrow> bool \<Rightarrow> bool" where
  "operational_config_seal_caller_authorized is_controller lifecycle_is_bootstrap =
    (is_controller \<and> lifecycle_is_bootstrap)"

datatype OperationalConfigSealDecision = OCS_Seal | OCS_AlreadySealed | OCS_InvalidCandidate

definition operational_config_seal_decision :: "bool \<Rightarrow> bool \<Rightarrow> OperationalConfigSealDecision" where
  "operational_config_seal_decision operational_config_sealed candidate_valid =
    (if \<not> candidate_valid then OCS_InvalidCandidate
     else if \<not> operational_config_seal_allowed operational_config_sealed candidate_valid
       then OCS_AlreadySealed
     else OCS_Seal)"

definition bootstrap_pause_principal_migration_body ::
    "bool \<Rightarrow> bool \<Rightarrow> bool \<Rightarrow> bool \<Rightarrow> bool \<Rightarrow> bool \<Rightarrow> bool \<Rightarrow> 'd \<Rightarrow> 'd \<Rightarrow> 'd \<Rightarrow> 'd \<Rightarrow> 'd \<Rightarrow> 'd" where
  "bootstrap_pause_principal_migration_body sealed paused pause_is_old pause_is_new
      marker_unbound marker_is_new roles_distinct post_bootstrap already_applied fresh_install
      apply_code reject =
    (if sealed then post_bootstrap
     else if pause_is_new \<and> marker_is_new then already_applied
     else if paused \<and> pause_is_new \<and> marker_unbound \<and> roles_distinct then fresh_install
     else if paused \<and> pause_is_old \<and> marker_unbound \<and> roles_distinct then apply_code
     else reject)"

definition bootstrap_pause_principal_migration_code ::
    "bool \<Rightarrow> bool \<Rightarrow> bool \<Rightarrow> bool \<Rightarrow> bool \<Rightarrow> bool \<Rightarrow> bool \<Rightarrow> u8" where
  "bootstrap_pause_principal_migration_code sealed paused pause_is_old pause_is_new
      marker_unbound marker_is_new roles_distinct =
    bootstrap_pause_principal_migration_body sealed paused pause_is_old pause_is_new
      marker_unbound marker_is_new roles_distinct 2 1 4 0 3"

datatype BootstrapPausePrincipalMigrationDecision =
    BPM_Apply
  | BPM_AlreadyApplied
  | BPM_FreshInstallNoop
  | BPM_PostBootstrapNoop
  | BPM_Reject

definition bootstrap_pause_principal_migration_decision ::
    "bool \<Rightarrow> bool \<Rightarrow> bool \<Rightarrow> bool \<Rightarrow> bool \<Rightarrow> bool \<Rightarrow> bool
      \<Rightarrow> BootstrapPausePrincipalMigrationDecision" where
  "bootstrap_pause_principal_migration_decision sealed paused pause_is_old pause_is_new
      marker_unbound marker_is_new roles_distinct =
    (let code = bootstrap_pause_principal_migration_code sealed paused pause_is_old pause_is_new
        marker_unbound marker_is_new roles_distinct in
      if code = 0 then BPM_Apply
      else if code = 1 then BPM_AlreadyApplied
      else if code = 2 then BPM_PostBootstrapNoop
      else if code = 4 then BPM_FreshInstallNoop
      else BPM_Reject)"

definition activation_prepare_authorized_body ::
    "bool \<Rightarrow> bool \<Rightarrow> bool \<Rightarrow> bool \<Rightarrow> 'a \<Rightarrow> 'a \<Rightarrow> 'a \<Rightarrow> bool" where
  "activation_prepare_authorized_body bootstrap_controller governance sealed_paused
      bootstrap_authority_present phase schedule execute =
    (if phase \<noteq> schedule \<and> phase \<noteq> execute then False
     else if bootstrap_authority_present then bootstrap_controller \<and> sealed_paused
     else governance \<and> sealed_paused)"

definition activation_prepare_authorized :: "bool \<Rightarrow> bool \<Rightarrow> bool \<Rightarrow> bool \<Rightarrow> u8 \<Rightarrow> bool" where
  "activation_prepare_authorized is_bootstrap_controller is_governance
      lifecycle_is_operational_config_sealed bootstrap_authority_present phase =
    activation_prepare_authorized_body is_bootstrap_controller is_governance
      lifecycle_is_operational_config_sealed bootstrap_authority_present phase 0 1"

definition bootstrap_activation_authority_after_transition :: "bool \<Rightarrow> bool \<Rightarrow> bool" where
  "bootstrap_activation_authority_after_transition authority_present confirmed_execute =
    (authority_present \<and> \<not> confirmed_execute)"

definition confirmed_activation_attempt_is_unique :: "bool \<Rightarrow> bool \<Rightarrow> bool" where
  "confirmed_activation_attempt_is_unique found_match found_additional_match =
    (found_match \<and> \<not> found_additional_match)"

definition confirmed_activation_metadata_matches :: "u8 \<Rightarrow> u64 \<Rightarrow> u8 \<Rightarrow> u64 \<Rightarrow> bool" where
  "confirmed_activation_metadata_matches confirmed_generation confirmed_signed_at_ns
      artifact_generation artifact_signed_at_ns =
    (confirmed_generation = artifact_generation
     \<and> confirmed_signed_at_ns = artifact_signed_at_ns)"

definition activation_base_preflight_matches :: "bool \<Rightarrow> bool \<Rightarrow> bool \<Rightarrow> bool \<Rightarrow> bool" where
  "activation_base_preflight_matches signer_matches deposits_paused withdrawals_paused
      expected_paused =
    (signer_matches \<and> deposits_paused = expected_paused \<and> withdrawals_paused = expected_paused)"

definition activation_postcondition_matches :: "bool \<Rightarrow> bool \<Rightarrow> bool" where
  "activation_postcondition_matches deposits_paused withdrawals_paused =
    (\<not> deposits_paused \<and> \<not> withdrawals_paused)"

datatype LegacyActivationEvidenceRequirement = LAE_NotRequired | LAE_Schedule | LAE_Execute

definition legacy_activation_evidence_requirement_body ::
    "bool \<Rightarrow> bool \<Rightarrow> bool \<Rightarrow> bool \<Rightarrow> bool \<Rightarrow> bool \<Rightarrow> 'd \<Rightarrow> 'd \<Rightarrow> 'd \<Rightarrow> 'd" where
  "legacy_activation_evidence_requirement_body sealed pending controller_present
      staging_sentinel paused exact_execute none schedule execute =
    (if \<not> sealed then none
     else if pending then schedule
     else if \<not> controller_present \<or> (staging_sentinel \<and> (\<not> paused \<or> exact_execute)) then execute
     else none)"

definition legacy_activation_evidence_requirement ::
    "bool \<Rightarrow> bool \<Rightarrow> bool \<Rightarrow> bool \<Rightarrow> bool \<Rightarrow> bool \<Rightarrow> LegacyActivationEvidenceRequirement" where
  "legacy_activation_evidence_requirement operational_config_sealed pending_activation
      bootstrap_controller_present legacy_staging_controller deposits_paused
      exact_execute_evidence =
    (let code = legacy_activation_evidence_requirement_body operational_config_sealed
        pending_activation bootstrap_controller_present legacy_staging_controller
        deposits_paused exact_execute_evidence (0 :: u8) 1 2 in
      if code = 1 then LAE_Schedule else if code = 2 then LAE_Execute else LAE_NotRequired)"

section \<open>Properties of the decisions\<close>

text \<open>A payout, resume or rotation needs governance whatever else the caller is, a pause needs
  the pause role, and no other action code is accepted from anyone.\<close>

lemma administrator_roles_separated:
  "administrator_authorized action pause governance \<Longrightarrow>
    (action = 0 \<and> pause) \<or> (action \<in> {1, 2, 3} \<and> governance)"
  by (auto simp: administrator_authorized_def authorized_body_def)

text \<open>The rank of a caller's claim on a lane: whatever is returned, a slot is granted only when
  the record is idle and the lane has room.\<close>

lemma lane_claim_allow_iff:
  "lease_lane_claim_decision active automatic in_lane capacity = LLC_Allow \<longleftrightarrow>
    \<not> active \<and> in_lane < capacity"
  by (auto simp: lease_lane_claim_decision_def lease_lane_claim_body_def linorder_not_le)

lemma migration_code_agrees:
  "bootstrap_pause_principal_migration_decision sealed paused old new unbound marked roles =
    bootstrap_pause_principal_migration_body sealed paused old new unbound marked roles
      BPM_PostBootstrapNoop BPM_AlreadyApplied BPM_FreshInstallNoop BPM_Apply BPM_Reject"
  by (simp add: bootstrap_pause_principal_migration_decision_def Let_def
      bootstrap_pause_principal_migration_code_def bootstrap_pause_principal_migration_body_def)

lemma settlement_failures_bounded:
  assumes "unat current \<le> unat limit" and "automatic_retry_allowed automatic current limit"
  shows "unat (settlement_failure_count current automatic retryable progress) \<le> unat limit"
proof -
  have "unat (saturating_add current 1) \<le> unat current + 1"
    by (simp add: unat_saturating_add)
  moreover have "unat current < unat limit"
    using assms(2) by (simp add: automatic_retry_allowed_def word_less_nat_alt)
  ultimately show ?thesis
    by (simp add: settlement_failure_count_def)
qed

end
