(* ===== verification/Finality.thy ===== *)
theory Finality
  imports Bridge_Prelude
begin

text \<open>
  Finality evidence for withdrawals, from \<open>bridge-core/src/kernel.rs\<close>: agreement of at least two
  of three RPC providers on a finalized block identity, the checkpoint every agreeing pair can
  have reached, and the admission boundary on withdrawal identifiers.  A provider that did not
  answer is \<open>None\<close>; the fixed-size arrays of three answers are triples.
\<close>

record WithdrawalFinalizedIdentity =
  wfi_block_number :: u64
  wfi_block_hash :: bytes

type_synonym attestation = "WithdrawalFinalizedIdentity option"

definition withdrawal_finalized_identity_quorum_body ::
    "'a option \<Rightarrow> 'a option \<Rightarrow> 'a option \<Rightarrow> 'a option" where
  "withdrawal_finalized_identity_quorum_body first second third =
    (case (first, second, third) of
      (Some a, Some b, Some c) \<Rightarrow>
        if a = b \<or> a = c then Some a else if b = c then Some b else None
    | (Some a, Some b, None) \<Rightarrow> if a = b then Some a else None
    | (Some a, None, Some b) \<Rightarrow> if a = b then Some a else None
    | (None, Some a, Some b) \<Rightarrow> if a = b then Some a else None
    | _ \<Rightarrow> None)"

definition withdrawal_finalized_identity_quorum ::
    "attestation \<Rightarrow> attestation \<Rightarrow> attestation \<Rightarrow> attestation" where
  "withdrawal_finalized_identity_quorum first second third =
    withdrawal_finalized_identity_quorum_body first second third"

definition withdrawal_finalized_checkpoint_attestation_body ::
    "attestation \<Rightarrow> attestation \<Rightarrow> u64 \<Rightarrow> attestation" where
  "withdrawal_finalized_checkpoint_attestation_body head_id observation checkpoint =
    (case (head_id, observation) of
      (Some h, Some ob) \<Rightarrow>
        if checkpoint \<le> wfi_block_number h \<and> wfi_block_number ob = checkpoint
        then Some ob else None
    | _ \<Rightarrow> None)"

definition withdrawal_finalized_checkpoint_quorum ::
    "attestation \<times> attestation \<times> attestation \<Rightarrow> attestation \<times> attestation \<times> attestation \<Rightarrow> u64
      \<Rightarrow> attestation" where
  "withdrawal_finalized_checkpoint_quorum finalized_heads checkpoint_observations checkpoint =
    (case (finalized_heads, checkpoint_observations) of
      ((h0, h1, h2), (o0, o1, o2)) \<Rightarrow>
        withdrawal_finalized_identity_quorum
          (withdrawal_finalized_checkpoint_attestation_body h0 o0 checkpoint)
          (withdrawal_finalized_checkpoint_attestation_body h1 o1 checkpoint)
          (withdrawal_finalized_checkpoint_attestation_body h2 o2 checkpoint))"

definition withdrawal_common_checkpoint ::
    "attestation \<Rightarrow> attestation \<Rightarrow> attestation \<Rightarrow> u64 option" where
  "withdrawal_common_checkpoint first second third =
    (let heights = map wfi_block_number (List.map_filter id [first, second, third]) in
      if length heights < 2 then None
      else Some (sort heights ! (if length heights = 3 then 1 else 0)))"

definition withdrawal_id_is_admissible :: "bytes \<Rightarrow> bytes \<Rightarrow> bool" where
  "withdrawal_id_is_admissible observed minimum =
    (length minimum = 32 \<and> (\<exists>byte \<in> set minimum. byte \<noteq> 0) \<and> \<not> bytes_less observed minimum)"

text \<open>The providers that attest a value, and those whose head reached a height.\<close>

definition attesting :: "'a \<Rightarrow> 'a option list \<Rightarrow> nat" where
  "attesting x answers = length (filter (\<lambda>r. r = Some x) answers)"

definition reached :: "u64 \<Rightarrow> attestation list \<Rightarrow> nat" where
  "reached h heads = length (filter (\<lambda>r. \<exists>i. r = Some i \<and> h \<le> wfi_block_number i) heads)"

lemma quorum_body_iff:
  "withdrawal_finalized_identity_quorum_body a b c = Some x \<longleftrightarrow> 2 \<le> attesting x [a, b, c]"
  by (auto simp: withdrawal_finalized_identity_quorum_body_def attesting_def split: option.splits)

lemma checkpoint_attestation_iff:
  "withdrawal_finalized_checkpoint_attestation_body h ob checkpoint = Some x \<longleftrightarrow>
    (\<exists>i. h = Some i \<and> checkpoint \<le> wfi_block_number i) \<and> ob = Some x
    \<and> wfi_block_number x = checkpoint"
  by (auto simp: withdrawal_finalized_checkpoint_attestation_body_def split: option.splits)

lemma sort_two: "sort [x, y] = [min x y, max x y]" for x :: "'a::linorder"
  by (auto simp: min_def max_def)

lemma sort_three_middle: "sort [x, y, z] ! 1 = max (min x y) (min (max x y) z)" for x :: "'a::linorder"
  by (auto simp: min_def max_def)

lemma some_nonzero_byte: "(\<exists>b \<in> set bs. b \<noteq> 0) \<longleftrightarrow> 0 < be_value bs"
  by (induction bs) (auto simp: unat_gt_0)

text \<open>
  A finalized block identity is accepted exactly when at least two of the three providers
  attest that very identity (number and hash); a single provider, or three that disagree, can
  never make one be accepted.
\<close>

lemma identity_quorum_exact:
  "withdrawal_finalized_identity_quorum a b c = Some x \<longleftrightarrow> 2 \<le> attesting x [a, b, c]"
  by (simp add: withdrawal_finalized_identity_quorum_def quorum_body_iff)

text \<open>
  At a checkpoint, an identity is accepted exactly when two providers both answered with
  that identity at the checkpoint height and each reported a finalized head at or above it: an
  answer from a provider whose own head is behind never counts.
\<close>

lemma checkpoint_quorum_exact:
  "withdrawal_finalized_checkpoint_quorum (h0, h1, h2) (o0, o1, o2) checkpoint = Some x \<longleftrightarrow>
    wfi_block_number x = checkpoint
    \<and> 2 \<le> length (filter (\<lambda>(h, ob). ob = Some x \<and> 1 \<le> reached checkpoint [h])
        [(h0, o0), (h1, o1), (h2, o2)])"
  by (auto simp: withdrawal_finalized_checkpoint_quorum_def quorum_body_iff attesting_def
      withdrawal_finalized_identity_quorum_def checkpoint_attestation_iff reached_def
      split: if_splits)

lemma second_largest_two:
  fixes x :: "'a::linorder"
  shows "max (min x y) (min (max x y) z) = h \<longleftrightarrow>
    2 \<le> length (filter (\<lambda>v. h \<le> v) [x, y, z])
    \<and> (\<forall>h'. 2 \<le> length (filter (\<lambda>v. h' \<le> v) [x, y, z]) \<longrightarrow> h' \<le> h)"
  (is "?m = h \<longleftrightarrow> ?two h \<and> ?greatest h")
proof -
  have two: "?two v \<longleftrightarrow> v \<le> ?m" for v
    by (auto simp: min_def max_def)
  show ?thesis
    unfolding two by (auto intro: antisym)
qed

lemma smaller_of_two:
  fixes x :: "'a::linorder"
  shows "min x y = h \<longleftrightarrow>
    2 \<le> length (filter (\<lambda>v. h \<le> v) [x, y])
    \<and> (\<forall>h'. 2 \<le> length (filter (\<lambda>v. h' \<le> v) [x, y]) \<longrightarrow> h' \<le> h)"
  (is "?m = h \<longleftrightarrow> ?two h \<and> ?greatest h")
proof -
  have two: "?two v \<longleftrightarrow> v \<le> ?m" for v
    by (auto simp: min_def)
  show ?thesis
    unfolding two by (auto intro: antisym)
qed

lemma reached_heights:
  "reached h [a, b, c] =
    length (filter (\<lambda>v. h \<le> v) (map wfi_block_number (List.map_filter id [a, b, c])))"
  by (cases a; cases b; cases c) (simp_all add: reached_def map_filter_simps)

lemma reached_le: "reached h [a, b, c] \<le> length (List.map_filter id [a, b, c])"
  unfolding reached_heights by (rule order_trans [OF length_filter_le]) simp

text \<open>
  The common checkpoint is the greatest height that at least two providers' finalized heads
  have reached, and there is none exactly when fewer than two providers answered.
\<close>

lemma common_checkpoint_greatest:
  "(withdrawal_common_checkpoint a b c = Some h \<longleftrightarrow>
      2 \<le> reached h [a, b, c] \<and> (\<forall>h'. 2 \<le> reached h' [a, b, c] \<longrightarrow> h' \<le> h))
   \<and> (withdrawal_common_checkpoint a b c = None \<longleftrightarrow>
      length (List.map_filter id [a, b, c]) < 2)"
proof (cases "length (List.map_filter id [a, b, c]) < 2")
  case True
  then have "\<not> 2 \<le> reached h [a, b, c]"
    using reached_le [of h a b c] by linarith
  then show ?thesis
    using True by (simp add: withdrawal_common_checkpoint_def)
next
  case False
  then show ?thesis
    unfolding reached_heights withdrawal_common_checkpoint_def Let_def
    using sort_two [where ?'a = u64] sort_three_middle [where ?'a = u64]
      second_largest_two [where ?'a = u64] smaller_of_two [where ?'a = u64]
    by (cases a; cases b; cases c) (simp_all add: map_filter_simps del: sort_key_simps)
qed

lemma common_checkpoint_greatest_witness:
  "let p = (\<lambda>n. Some \<lparr> wfi_block_number = n, wfi_block_hash = replicate 32 7 \<rparr>) in
    2 \<le> reached 20 [p 30, p 10, p 20] \<and> withdrawal_common_checkpoint (p 30) (p 10) (p 20) = Some 20"
  using common_checkpoint_greatest
    [of "Some \<lparr> wfi_block_number = 30, wfi_block_hash = replicate 32 7 \<rparr>"
        "Some \<lparr> wfi_block_number = 10, wfi_block_hash = replicate 32 7 \<rparr>"
        "Some \<lparr> wfi_block_number = 20, wfi_block_hash = replicate 32 7 \<rparr>" 20]
  by (simp add: withdrawal_common_checkpoint_def map_filter_simps Let_def reached_def)

text \<open>
  For a 32-byte observed identifier and a 32-byte boundary, the byte-wise comparison of the
  code is the comparison of the two numbers in the contract's big-endian representation, and a
  zero boundary admits nothing.
\<close>

lemma withdrawal_id_boundary:
  assumes "length observed = 32"
  shows "withdrawal_id_is_admissible observed minimum \<longleftrightarrow>
    length minimum = 32 \<and> 0 < be_value minimum \<and> be_value minimum \<le> be_value observed"
proof (cases "length minimum = 32")
  case True
  then have "bytes_less observed minimum \<longleftrightarrow> be_value observed < be_value minimum"
    using assms by (intro bytes_less_iff) simp
  then show ?thesis
    by (simp only: withdrawal_id_is_admissible_def some_nonzero_byte linorder_not_less True)
next
  case False
  then show ?thesis
    by (simp add: withdrawal_id_is_admissible_def)
qed

lemma withdrawal_id_boundary_witness:
  "length (replicate 31 0 @ [9 :: u8]) = 32
    \<and> withdrawal_id_is_admissible (replicate 31 0 @ [9]) (replicate 31 0 @ [5])
    \<and> \<not> withdrawal_id_is_admissible (replicate 31 0 @ [4]) (replicate 31 0 @ [5])"
  using withdrawal_id_boundary [of "replicate 31 0 @ [9]" "replicate 31 0 @ [5]"]
    withdrawal_id_boundary [of "replicate 31 0 @ [4]" "replicate 31 0 @ [5]"]
  by (simp add: be_value_append be_value_replicate_zero)

end
