(* ===== verification/Kernel_Arithmetic.thy ===== *)
theory Kernel_Arithmetic
  imports Bridge_Prelude
begin

text \<open>
  The arithmetic decisions of \<open>bridge-core/src/kernel.rs\<close>: counters, cycle and fee
  requirements, settlement and admission amounts.

  The kernel writes each decision once, as an expression macro \<open>..._body!\<close> that is expanded
  both in the executable function (at a machine type, with the largest value and the constants
  as arguments) and in the specification view (at unbounded integers).  The macros are
  polymorphic definitions here, and an executable function is the macro at its machine type.
  The lemmas state each decision exactly: which value it returns over the natural numbers, and
  that it returns \<open>None\<close> precisely when that value does not fit or a guard fails.
\<close>

type_synonym i8 = "8 word"

section \<open>Counters\<close>

definition next_attempt_body :: "'a::plus \<Rightarrow> 'a \<Rightarrow> 'a \<Rightarrow> 'a option" where
  "next_attempt_body attempt mx one = (if attempt = mx then None else Some (attempt + one))"

definition next_attempt :: "u64 \<Rightarrow> u64 option" where
  "next_attempt attempt = next_attempt_body attempt (- 1) 1"

definition refresh_generation_next :: "u64 \<Rightarrow> u64 option" where
  "refresh_generation_next current = next_attempt_body current (- 1) 1"

definition lease_generation_next :: "u64 \<Rightarrow> u64 option" where
  "lease_generation_next current = next_attempt_body current (- 1) 1"

definition audit_next :: "u64 \<Rightarrow> u64 option" where
  "audit_next current = next_attempt_body current (- 1) 1"

definition counter_delta_body :: "bool \<Rightarrow> bool \<Rightarrow> 'a \<Rightarrow> 'a \<Rightarrow> 'a \<Rightarrow> 'a" where
  "counter_delta_body was is zero one minus_one =
    (if was = is then zero else if is then one else minus_one)"

definition counter_delta :: "bool \<Rightarrow> bool \<Rightarrow> i8" where
  "counter_delta was_active is_active = counter_delta_body was_active is_active 0 1 (- 1)"

definition checked_counter_transition :: "u64 \<Rightarrow> bool \<Rightarrow> bool \<Rightarrow> u64 option" where
  "checked_counter_transition current was_active is_active =
    (let delta = counter_delta was_active is_active in
      if delta = 1 then next_attempt_body current (- 1) 1
      else if delta = - 1 \<and> current = 0 then None
      else if delta = - 1 then Some (current - 1)
      else Some current)"

section \<open>Notification reservations\<close>

definition notification_quota_acquire_body ::
    "'a::{ord,plus} \<Rightarrow> 'a \<Rightarrow> 'a \<Rightarrow> 'a \<Rightarrow> 'a \<Rightarrow> ('a \<times> 'a) option" where
  "notification_quota_acquire_body global caller lane limit one =
    (if lane \<le> global \<or> limit \<le> caller then None else Some (global + one, caller + one))"

definition notification_quota_acquire :: "u8 \<Rightarrow> u8 \<Rightarrow> u8 \<Rightarrow> u8 \<Rightarrow> (u8 \<times> u8) option" where
  "notification_quota_acquire global caller lane_limit caller_limit =
    notification_quota_acquire_body global caller lane_limit caller_limit 1"

definition notification_quota_release_body :: "'a::minus \<Rightarrow> 'a \<Rightarrow> 'a \<Rightarrow> 'a" where
  "notification_quota_release_body count zero one = (if count = zero then zero else count - one)"

definition notification_quota_release :: "u8 \<Rightarrow> u8" where
  "notification_quota_release count = notification_quota_release_body count 0 1"

definition notification_reservation_slots_body ::
    "'a::{ord,divide,times} \<Rightarrow> 'a \<Rightarrow> 'a \<Rightarrow> 'a option" where
  "notification_reservation_slots_body active mx two =
    (if mx div two < active then None else Some (active * two))"

definition notification_reservation_slots :: "u64 \<Rightarrow> u64 option" where
  "notification_reservation_slots active = notification_reservation_slots_body active (- 1) 2"

definition notification_reservation_excluding_owner_body ::
    "'a::{ord,minus} \<Rightarrow> bool \<Rightarrow> 'a \<Rightarrow> 'a \<Rightarrow> 'a option" where
  "notification_reservation_excluding_owner_body slots owner two zero =
    (if owner \<and> slots < two then None else Some (slots - (if owner then two else zero)))"

definition notification_reservation_excluding_owner :: "u64 \<Rightarrow> bool \<Rightarrow> u64 option" where
  "notification_reservation_excluding_owner slots owner_poll =
    notification_reservation_excluding_owner_body slots owner_poll 2 0"

definition nonterminal_deposit_reservation_count_body ::
    "'a::{ord,minus} \<Rightarrow> 'a \<Rightarrow> 'a option" where
  "nonterminal_deposit_reservation_count_body indexed funding =
    (if indexed < funding then None else Some (indexed - funding))"

definition nonterminal_deposit_reservation_count :: "u64 \<Rightarrow> u64 \<Rightarrow> u64 option" where
  "nonterminal_deposit_reservation_count indexed funding =
    nonterminal_deposit_reservation_count_body indexed funding"

definition notification_poll_owner :: "bool \<Rightarrow> bool \<Rightarrow> bool" where
  "notification_poll_owner previous entering = (previous \<or> entering)"

definition notification_admission_allowed :: "u16 \<Rightarrow> u16 \<Rightarrow> u16 \<Rightarrow> u16 \<Rightarrow> bool" where
  "notification_admission_allowed global_count caller_count global_limit caller_limit =
    (global_count < global_limit \<and> caller_count < caller_limit)"

definition notification_ingestion_allowed :: "u16 \<Rightarrow> u16 \<Rightarrow> bool" where
  "notification_ingestion_allowed ingestion_count ingestion_limit =
    (ingestion_count < ingestion_limit)"

definition notification_failure_cooldown_active :: "bool \<Rightarrow> u64 \<Rightarrow> u64 \<Rightarrow> bool" where
  "notification_failure_cooldown_active hash_matches now_ns retry_after_ns =
    (hash_matches \<and> now_ns < retry_after_ns)"

section \<open>Cycle and gas requirements\<close>

definition checked_requirement_body ::
    "'a::{ord,minus,divide,plus,times} \<Rightarrow> 'a \<Rightarrow> 'a \<Rightarrow> 'a \<Rightarrow> 'a \<Rightarrow> 'a option" where
  "checked_requirement_body floor unit count mx zero =
    (if count \<noteq> zero \<and> (mx - floor) div count < unit then None
     else Some (floor + unit * count))"

definition checked_requirement :: "u128 \<Rightarrow> u128 \<Rightarrow> u128 \<Rightarrow> u128 option" where
  "checked_requirement floor unit count = checked_requirement_body floor unit count (- 1) 0"

definition signing_cycle_requirement_body ::
    "'a::{ord,minus,plus} \<Rightarrow> 'a \<Rightarrow> 'a \<Rightarrow> 'a \<Rightarrow> 'a option" where
  "signing_cycle_requirement_body required_reserve signing_cost call_margin mx =
    (if mx - required_reserve < signing_cost then None
     else let reserve_and_signing = required_reserve + signing_cost in
       if mx - reserve_and_signing < call_margin then None
       else Some (reserve_and_signing + call_margin))"

definition signing_cycle_requirement :: "u128 \<Rightarrow> u128 \<Rightarrow> u128 \<Rightarrow> u128 option" where
  "signing_cycle_requirement required_reserve signing_cost call_margin =
    signing_cycle_requirement_body required_reserve signing_cost call_margin (- 1)"

definition paid_call_cycle_requirement :: "u128 \<Rightarrow> u128 \<Rightarrow> u128 \<Rightarrow> u128 option" where
  "paid_call_cycle_requirement required_reserve attached_cycles call_margin =
    signing_cycle_requirement_body required_reserve attached_cycles call_margin (- 1)"

definition governance_affordability_body :: "'a::ord \<Rightarrow> 'a \<Rightarrow> 'a \<Rightarrow> 'a \<times> bool" where
  "governance_affordability_body finalized safe required =
    (let observed = (if finalized \<le> safe then finalized else safe) in
      (observed, required \<le> observed))"

definition governance_affordability_decision :: "u128 \<Rightarrow> u128 \<Rightarrow> u128 \<Rightarrow> u128 \<times> bool" where
  "governance_affordability_decision finalized_wei safe_wei required_wei =
    governance_affordability_body finalized_wei safe_wei required_wei"

definition transaction_liability_body ::
    "'a::{ord,minus,divide,plus,times} \<Rightarrow> 'a \<Rightarrow> 'a \<Rightarrow> 'a \<Rightarrow> 'a \<Rightarrow> 'a \<Rightarrow> 'a option" where
  "transaction_liability_body gas_limit max_fee_per_gas l1_fee value mx zero =
    (if mx - l1_fee < value then None
     else let fixed = l1_fee + value in
       if gas_limit \<noteq> zero \<and> (mx - fixed) div gas_limit < max_fee_per_gas then None
       else Some (fixed + gas_limit * max_fee_per_gas))"

definition transaction_liability_wei :: "u128 \<Rightarrow> u128 \<Rightarrow> u128 \<Rightarrow> u128 \<Rightarrow> u128 option" where
  "transaction_liability_wei gas_limit max_fee_per_gas l1_fee_upper_bound_wei transaction_value =
    transaction_liability_body gas_limit max_fee_per_gas l1_fee_upper_bound_wei
      transaction_value (- 1) 0"

section \<open>Settlement, refund and quote amounts\<close>

definition release_transfer_matches :: "u128 \<Rightarrow> u128 \<Rightarrow> u128 \<Rightarrow> u128 \<Rightarrow> bool" where
  "release_transfer_matches transfer_amount transfer_fee amount_out ledger_fee =
    (transfer_amount = amount_out \<and> transfer_fee = ledger_fee)"

definition committed_quote_matches_body ::
    "'a::{ord,minus,plus} \<Rightarrow> 'a \<Rightarrow> 'a \<Rightarrow> 'a \<Rightarrow> bool" where
  "committed_quote_matches_body amount amount_out service_fee mx =
    (service_fee < amount \<and> amount_out \<le> mx - service_fee \<and> amount_out + service_fee = amount)"

definition committed_quote_matches :: "u128 \<Rightarrow> u128 \<Rightarrow> u128 \<Rightarrow> bool" where
  "committed_quote_matches amount amount_out service_fee =
    committed_quote_matches_body amount amount_out service_fee (- 1)"

definition outbound_settlement_body ::
    "'a::{ord,minus,plus} \<Rightarrow> 'a \<Rightarrow> 'a \<Rightarrow> 'a \<Rightarrow> ('a \<times> 'a \<times> 'a) option" where
  "outbound_settlement_body amount_out ledger_fee service_fee mx =
    (if service_fee < ledger_fee \<or> mx - ledger_fee < amount_out \<or> mx - service_fee < amount_out
     then None
     else Some (amount_out + ledger_fee, service_fee - ledger_fee, amount_out + service_fee))"

definition outbound_settlement :: "u128 \<Rightarrow> u128 \<Rightarrow> u128 \<Rightarrow> (u128 \<times> u128 \<times> u128) option" where
  "outbound_settlement amount_out ledger_fee service_fee =
    outbound_settlement_body amount_out ledger_fee service_fee (- 1)"

record SettlementDecision =
  sd_escrow_debit :: u128
  sd_reserve_credit :: u128
  sd_liability_debit :: u128

definition settlement_decision :: "u128 \<Rightarrow> u128 \<Rightarrow> u128 \<Rightarrow> SettlementDecision option" where
  "settlement_decision amount_out ledger_fee service_fee =
    (case outbound_settlement_body amount_out ledger_fee service_fee (- 1) of
      Some (escrow_debit, reserve_credit, liability_debit) \<Rightarrow>
        Some \<lparr> sd_escrow_debit = escrow_debit, sd_reserve_credit = reserve_credit,
               sd_liability_debit = liability_debit \<rparr>
    | None \<Rightarrow> None)"

definition deposit_refund_body :: "'a::{ord,minus} \<Rightarrow> 'a \<Rightarrow> 'a \<Rightarrow> 'a option" where
  "deposit_refund_body gross service_fee ledger_fee =
    (if gross \<le> service_fee \<or> gross - service_fee \<le> ledger_fee then None
     else Some (gross - service_fee - ledger_fee))"

definition deposit_refund_amount :: "u128 \<Rightarrow> u128 \<Rightarrow> u128 \<Rightarrow> u128 option" where
  "deposit_refund_amount gross service_fee ledger_fee =
    deposit_refund_body gross service_fee ledger_fee"

definition service_fee_change_allowed :: "u128 \<Rightarrow> u128 \<Rightarrow> u128 \<Rightarrow> bool" where
  "service_fee_change_allowed service_fee minimum_service_fee maximum_service_fee =
    (minimum_service_fee \<le> service_fee \<and> service_fee \<le> maximum_service_fee)"

section \<open>Mint admission\<close>

definition mint_admission_total_body ::
    "'a::{ord,minus,plus} \<Rightarrow> 'a \<Rightarrow> 'a \<Rightarrow> 'a \<Rightarrow> 'a option" where
  "mint_admission_total_body consumed reserved candidate mx =
    (if mx < reserved \<or> mx - reserved < consumed then None
     else let committed = consumed + reserved in
       if mx - committed < candidate then None else Some (committed + candidate))"

definition mint_admission_total :: "u128 \<Rightarrow> u128 \<Rightarrow> u128 \<Rightarrow> u128 option" where
  "mint_admission_total consumed reserved candidate =
    mint_admission_total_body consumed reserved candidate (- 1)"

record DepositAdmissionDecision =
  dad_net_amount :: u128
  dad_next_window_total :: u128

definition deposit_admission_decision ::
    "u128 \<Rightarrow> u128 \<Rightarrow> u128 \<Rightarrow> u128 \<Rightarrow> u128 \<Rightarrow> u128 \<Rightarrow> u128 \<Rightarrow> DepositAdmissionDecision option" where
  "deposit_admission_decision gross_amount service_fee maximum_service_fee per_deposit_limit
      consumed reserved window_limit =
    (if maximum_service_fee < service_fee \<or> gross_amount \<le> service_fee then None
     else let net_amount = gross_amount - service_fee in
       if per_deposit_limit < net_amount \<or> - 1 - reserved < consumed
         \<or> - 1 - net_amount < consumed + reserved
       then None
       else let next_window_total = consumed + reserved + net_amount in
         if next_window_total \<le> window_limit
         then Some \<lparr> dad_net_amount = net_amount, dad_next_window_total = next_window_total \<rparr>
         else None)"

definition reserve_admission_preserves_requirement :: "u128 \<Rightarrow> u128 \<Rightarrow> u128 \<Rightarrow> u128 \<Rightarrow> bool" where
  "reserve_admission_preserves_requirement before_reserved before_candidate after_reserved
      after_candidate =
    (case (checked_add before_reserved before_candidate,
           checked_add after_reserved after_candidate) of
      (Some before, Some after) \<Rightarrow> before = after
    | _ \<Rightarrow> False)"

record ReservationDecision =
  rd_reserved :: u128
  rd_candidate :: u128

definition reservation_decision :: "u128 \<Rightarrow> u128 \<Rightarrow> ReservationDecision option" where
  "reservation_decision before_reserved candidate =
    (if - 1 - candidate < before_reserved then None
     else Some \<lparr> rd_reserved = before_reserved + candidate, rd_candidate = 0 \<rparr>)"

section \<open>Fee payouts\<close>

definition fee_payout_capacity_body :: "'a::{ord,minus} \<Rightarrow> 'a \<Rightarrow> 'a \<Rightarrow> 'a \<Rightarrow> 'a" where
  "fee_payout_capacity_body reserve pending fee zero =
    (if reserve < pending then zero
     else if reserve - pending \<le> fee then zero
     else reserve - pending - fee)"

definition fee_payout_capacity :: "u128 \<Rightarrow> u128 \<Rightarrow> u128 \<Rightarrow> u128" where
  "fee_payout_capacity reserve pending fee = fee_payout_capacity_body reserve pending fee 0"

definition payout_allowed_body ::
    "'a::{ord,minus,plus} \<Rightarrow> 'a \<Rightarrow> 'a \<Rightarrow> 'a \<Rightarrow> 'a \<Rightarrow> bool" where
  "payout_allowed_body reserve pending amount fee mx =
    (if mx - fee < amount then False
     else let debit = amount + fee in pending \<le> reserve \<and> debit \<le> reserve - pending)"

definition payout_allowed :: "u128 \<Rightarrow> u128 \<Rightarrow> u128 \<Rightarrow> u128 \<Rightarrow> bool" where
  "payout_allowed reserve pending amount fee = payout_allowed_body reserve pending amount fee (- 1)"

record PayoutDecision =
  pd_debit :: u128

definition payout_decision ::
    "u128 \<Rightarrow> u128 \<Rightarrow> u128 \<Rightarrow> u128 \<Rightarrow> bool \<Rightarrow> PayoutDecision option" where
  "payout_decision reserve pending amount fee confirmed_first_time =
    (if reserve < pending \<or> - 1 - fee < amount \<or> reserve - pending < amount + fee then None
     else Some \<lparr> pd_debit = (if confirmed_first_time then amount + fee else 0) \<rparr>)"

definition payout_debit :: "bool \<Rightarrow> u128 \<Rightarrow> u128 \<Rightarrow> u128 option" where
  "payout_debit confirmed_first_time amount fee =
    (if \<not> confirmed_first_time then Some 0
     else if - 1 - fee < amount then None
     else Some (amount + fee))"

section \<open>Exactness of the counters\<close>

lemma next_attempt_body_exact:
  "next_attempt_body n (- 1) 1 = Some m \<longleftrightarrow> unat m = Suc (unat n)" for n m :: "'a::len word"
proof (cases "n = - 1")
  case True
  then have "2 ^ LENGTH('a) \<le> Suc (unat n)"
    by (simp add: unat_max_word)
  then have "unat m \<noteq> Suc (unat n)"
    by (rule unat_neq_big)
  then show ?thesis
    using True by (simp add: next_attempt_body_def)
next
  case False
  then have "unat n \<noteq> 2 ^ LENGTH('a) - 1"
    by (metis unat_eqD unat_max_word)
  then have "unat n + unat (1 :: 'a word) < 2 ^ LENGTH('a)"
    using unat_bound [of n] by (simp del: unsigned_less)
  then have "unat (n + 1) = Suc (unat n)"
    by (simp add: unat_add_exact del: unsigned_less)
  then show ?thesis
    using False by (metis next_attempt_body_def option.inject unat_eqD)
qed

lemma counter_steps_exact:
  "next_attempt n = Some m \<longleftrightarrow> unat m = Suc (unat n)"
  "refresh_generation_next n = Some m \<longleftrightarrow> unat m = Suc (unat n)"
  "lease_generation_next n = Some m \<longleftrightarrow> unat m = Suc (unat n)"
  "audit_next n = Some m \<longleftrightarrow> unat m = Suc (unat n)"
  by (simp_all add: next_attempt_def refresh_generation_next_def lease_generation_next_def
      audit_next_def next_attempt_body_exact)

lemma counter_decrement_exact:
  "current \<noteq> 0 \<and> current - 1 = m \<longleftrightarrow> Suc (unat m) = unat current" for current m :: "'a::len word"
proof (cases "current = 0")
  case False
  then have "0 < unat current"
    by (simp add: unat_gt_0)
  moreover from this have "unat (current - 1) = unat current - 1"
    using False by (simp add: unat_minus_one)
  ultimately have "Suc (unat (current - 1)) = unat current"
    by simp
  then show ?thesis
    using False by (metis Suc_inject unat_eqD)
qed simp

lemma counter_transition_exact:
  "checked_counter_transition current was_active is_active = Some after \<longleftrightarrow>
    unat after + of_bool was_active = unat current + of_bool is_active"
  using counter_decrement_exact [of current after] next_attempt_body_exact [of current after]
  by (cases was_active; cases is_active)
    (auto simp: checked_counter_transition_def counter_delta_def counter_delta_body_def Let_def
      intro: unat_eqD)

section \<open>Exactness of the requirements\<close>

lemma requirement_body_exact:
  "checked_requirement_body floor unit count (- 1) 0 = Some r \<longleftrightarrow>
    unat r = unat floor + unat unit * unat count" for floor :: "'a::len word"
proof (cases "unat floor + unat unit * unat count < 2 ^ LENGTH('a)")
  case True
  then have "unat unit * unat count < 2 ^ LENGTH('a)"
    by linarith
  then have mult: "unat (unit * count) = unat unit * unat count"
    by (rule unat_mult_exact)
  have sum: "unat (floor + unit * count) = unat floor + unat unit * unat count"
    using True mult by (metis unat_add_exact)
  have "checked_requirement_body floor unit count (- 1) 0 = Some (floor + unit * count)"
    using True max_minus_div_less [of count floor unit]
    by (auto simp: checked_requirement_body_def)
  then show ?thesis
    using sum by (metis option.inject unat_eqD)
next
  case False
  then have big: "2 ^ LENGTH('a) \<le> unat floor + unat unit * unat count"
    by (simp only: linorder_not_less)
  then have "count \<noteq> 0"
    using unat_bound [of floor] by (auto simp del: unsigned_less)
  then have "checked_requirement_body floor unit count (- 1) 0 = None"
    using big by (simp add: checked_requirement_body_def max_minus_div_less)
  then show ?thesis
    using unat_neq_big [OF big, of r] by simp
qed

lemma requirement_exact:
  "checked_requirement floor unit count = Some r \<longleftrightarrow>
    unat r = unat floor + unat unit * unat count"
  by (simp add: checked_requirement_def requirement_body_exact)

lemma two_step_sum_exact:
  "(if - 1 - a < b then None
    else let s = a + b in if - 1 - s < c then None else Some (s + c)) = Some r \<longleftrightarrow>
    unat r = unat a + unat b + unat c" for a b c r :: "'a::len word"
proof (cases "2 ^ LENGTH('a) \<le> unat b + unat a")
  case True
  then have "2 ^ LENGTH('a) \<le> unat a + unat b + unat c"
    by linarith
  then have "unat r \<noteq> unat a + unat b + unat c"
    by (rule unat_neq_big)
  then show ?thesis
    using True by (simp add: max_minus_less)
next
  case False
  then have ab: "unat (a + b) = unat a + unat b"
    by (intro unat_add_exact) linarith
  show ?thesis
  proof (cases "2 ^ LENGTH('a) \<le> unat c + unat (a + b)")
    case True
    then have "2 ^ LENGTH('a) \<le> unat a + unat b + unat c"
      using ab by linarith
    then have "unat r \<noteq> unat a + unat b + unat c"
      by (rule unat_neq_big)
    then show ?thesis
      using True by (simp add: max_minus_less Let_def)
  next
    case c: False
    then have "unat (a + b + c) = unat a + unat b + unat c"
      using ab by (subst unat_add_exact) linarith+
    then show ?thesis
      using False c by (simp add: max_minus_less Let_def) (metis unat_eqD)
  qed
qed

lemma signing_requirement_exact:
  "signing_cycle_requirement reserve cost margin = Some r \<longleftrightarrow>
    unat r = unat reserve + unat cost + unat margin"
  by (simp only: signing_cycle_requirement_def signing_cycle_requirement_body_def
      two_step_sum_exact)

lemma paid_call_requirement_exact:
  "paid_call_cycle_requirement reserve attached margin = Some r \<longleftrightarrow>
    unat r = unat reserve + unat attached + unat margin"
  by (simp only: paid_call_cycle_requirement_def signing_cycle_requirement_body_def
      two_step_sum_exact)

lemma mint_total_exact:
  "mint_admission_total consumed reserved candidate = Some r \<longleftrightarrow>
    unat r = unat consumed + unat reserved + unat candidate"
proof -
  have "mint_admission_total consumed reserved candidate =
      (if - 1 - reserved < consumed then None
       else let s = reserved + consumed in if - 1 - s < candidate then None
         else Some (s + candidate))"
    by (simp add: mint_admission_total_def mint_admission_total_body_def add.commute)
  then have "mint_admission_total consumed reserved candidate = Some r \<longleftrightarrow>
      unat r = unat reserved + unat consumed + unat candidate"
    by (simp only: two_step_sum_exact)
  then show ?thesis
    by (simp only: add.commute)
qed

lemma transaction_liability_exact:
  "transaction_liability_wei gas_limit fee l1_fee amount = Some r \<longleftrightarrow>
    unat r = unat l1_fee + unat amount + unat gas_limit * unat fee"
proof (cases "- 1 - l1_fee < amount")
  case True
  then have big: "2 ^ LENGTH(128) \<le> unat l1_fee + unat amount + unat gas_limit * unat fee"
    unfolding max_minus_less by linarith
  show ?thesis
    using True unat_neq_big [OF big, of r]
    by (simp only: transaction_liability_wei_def transaction_liability_body_def if_True
        option.distinct)
next
  case False
  then have "unat (l1_fee + amount) = unat l1_fee + unat amount"
    by (intro unat_add_exact) (simp only: max_minus_less linorder_not_le add.commute)
  moreover have "transaction_liability_wei gas_limit fee l1_fee amount
      = checked_requirement_body (l1_fee + amount) fee gas_limit (- 1) 0"
    using False
    by (simp only: transaction_liability_wei_def transaction_liability_body_def Let_def
        checked_requirement_body_def if_False mult.commute)
  ultimately show ?thesis
    by (simp only: requirement_body_exact mult.commute)
qed

section \<open>Exactness of the amounts\<close>

lemma quote_matches_exact:
  "committed_quote_matches amount amount_out service_fee \<longleftrightarrow>
    0 < unat amount_out \<and> unat amount = unat amount_out + unat service_fee"
proof (cases "amount_out \<le> - 1 - service_fee")
  case True
  then have "unat (amount_out + service_fee) = unat amount_out + unat service_fee"
    unfolding le_max_minus by (rule unat_add_exact)
  then have "amount_out + service_fee = amount \<longleftrightarrow>
      unat amount = unat amount_out + unat service_fee"
    by (metis unat_eqD)
  then show ?thesis
    using True
    by (auto simp add: committed_quote_matches_def committed_quote_matches_body_def
        word_less_nat_alt)
next
  case False
  then have "2 ^ LENGTH(128) \<le> unat amount_out + unat service_fee"
    unfolding le_max_minus linorder_not_less .
  then have "unat amount \<noteq> unat amount_out + unat service_fee"
    by (rule unat_neq_big)
  then show ?thesis
    using False by (simp add: committed_quote_matches_def committed_quote_matches_body_def)
qed

lemma outbound_settlement_body_exact:
  "outbound_settlement_body amount_out ledger_fee service_fee (- 1)
      = Some (escrow_debit, reserve_credit, liability_debit) \<longleftrightarrow>
    unat escrow_debit = unat amount_out + unat ledger_fee
    \<and> unat service_fee = unat ledger_fee + unat reserve_credit
    \<and> unat liability_debit = unat amount_out + unat service_fee"
  for amount_out :: "'a::len word"
proof -
  have guard: "(if service_fee < ledger_fee \<or> - 1 - ledger_fee < amount_out
        \<or> - 1 - service_fee < amount_out then None
      else Some (amount_out + ledger_fee, service_fee - ledger_fee, amount_out + service_fee))
    = (case (checked_add amount_out ledger_fee, checked_sub service_fee ledger_fee,
        checked_add amount_out service_fee) of
      (Some e, Some c, Some l) \<Rightarrow> Some (e, c, l) | _ \<Rightarrow> None)"
    unfolding max_minus_less
    by (auto simp: checked_add_def checked_sub_def linorder_not_less)
  have "outbound_settlement_body amount_out ledger_fee service_fee (- 1)
      = Some (escrow_debit, reserve_credit, liability_debit) \<longleftrightarrow>
    checked_add amount_out ledger_fee = Some escrow_debit
    \<and> checked_sub service_fee ledger_fee = Some reserve_credit
    \<and> checked_add amount_out service_fee = Some liability_debit"
    unfolding outbound_settlement_body_def guard by (auto split: option.splits)
  then show ?thesis
    unfolding checked_add_eq_Some checked_sub_eq_Some by (simp only: eq_commute)
qed

lemma settlement_exact:
  "settlement_decision amount_out ledger_fee service_fee = Some d \<longleftrightarrow>
    unat (sd_escrow_debit d) = unat amount_out + unat ledger_fee
    \<and> unat service_fee = unat ledger_fee + unat (sd_reserve_credit d)
    \<and> unat (sd_liability_debit d) = unat amount_out + unat service_fee"
proof -
  have "settlement_decision amount_out ledger_fee service_fee = Some d \<longleftrightarrow>
      outbound_settlement_body amount_out ledger_fee service_fee (- 1)
        = Some (sd_escrow_debit d, sd_reserve_credit d, sd_liability_debit d)"
    by (cases d) (auto simp: settlement_decision_def split: option.splits)
  then show ?thesis
    by (simp only: outbound_settlement_body_exact)
qed

lemma refund_exact:
  "deposit_refund_amount gross service_fee ledger_fee = Some r \<longleftrightarrow>
    0 < unat r \<and> unat gross = unat service_fee + unat ledger_fee + unat r"
proof (cases "service_fee \<le> gross")
  case True
  then have "unat (gross - service_fee) = unat gross - unat service_fee"
    by (rule unat_sub_exact)
  moreover have "unat (gross - service_fee - ledger_fee)
      = unat (gross - service_fee) - unat ledger_fee" if "ledger_fee \<le> gross - service_fee"
    using that by (rule unat_sub_exact)
  ultimately show ?thesis
    using True unat_eqD [of "gross - service_fee - ledger_fee" r]
    by (auto simp: deposit_refund_amount_def deposit_refund_body_def word_le_nat_alt)
next
  case False
  then show ?thesis
    by (auto simp: deposit_refund_amount_def deposit_refund_body_def word_le_nat_alt)
qed

lemma reservation_exact:
  "reservation_decision before_reserved candidate = Some d \<longleftrightarrow>
    unat (rd_reserved d) = unat before_reserved + unat candidate \<and> rd_candidate d = 0"
proof -
  have "reservation_decision before_reserved candidate =
      map_option (\<lambda>r. \<lparr> rd_reserved = r, rd_candidate = 0 \<rparr>)
        (checked_add before_reserved candidate)"
    unfolding reservation_decision_def max_minus_less checked_add_def by simp
  moreover have "checked_add before_reserved candidate = Some (rd_reserved d) \<longleftrightarrow>
      unat (rd_reserved d) = unat before_reserved + unat candidate"
    unfolding checked_add_eq_Some by (rule eq_commute)
  ultimately show ?thesis
    by (cases d) auto
qed

lemma deposit_admission_exact:
  "deposit_admission_decision gross fee max_fee per_limit consumed reserved window = Some d \<longleftrightarrow>
    fee \<le> max_fee
    \<and> 0 < unat (dad_net_amount d)
    \<and> unat gross = unat (dad_net_amount d) + unat fee
    \<and> dad_net_amount d \<le> per_limit
    \<and> unat (dad_next_window_total d) = unat consumed + unat reserved + unat (dad_net_amount d)
    \<and> dad_next_window_total d \<le> window"
proof (cases "gross \<le> fee")
  case True
  then show ?thesis
    by (auto simp: deposit_admission_decision_def word_le_nat_alt)
next
  case False
  define net where "net = gross - fee"
  have less: "unat fee < unat gross"
    using False by (simp only: word_le_nat_alt linorder_not_le)
  then have "unat net = unat gross - unat fee"
    unfolding net_def by (intro unat_sub_exact) (simp only: word_le_nat_alt less_imp_le)
  then have net: "unat gross = unat net + unat fee" "0 < unat net"
    using less by linarith+
  have net_iff: "0 < unat n \<and> unat gross = unat n + unat fee \<longleftrightarrow> n = net" for n
    using net by (metis add_right_cancel unat_eqD)
  let ?total = "mint_admission_total consumed reserved net"
  have swap: "- 1 - net < consumed + reserved \<longleftrightarrow> - 1 - (consumed + reserved) < net"
    unfolding max_minus_less by (simp only: add.commute)
  have "deposit_admission_decision gross fee max_fee per_limit consumed reserved window =
      (if max_fee < fee \<or> per_limit < net then None
       else case ?total of None \<Rightarrow> None
         | Some t \<Rightarrow> if t \<le> window then Some \<lparr> dad_net_amount = net, dad_next_window_total = t \<rparr>
             else None)"
    using False swap
    by (auto simp: deposit_admission_decision_def mint_admission_total_def Let_def
        mint_admission_total_body_def net_def [symmetric])
  also have "\<dots> = Some d \<longleftrightarrow>
      fee \<le> max_fee \<and> net \<le> per_limit \<and> dad_net_amount d = net
      \<and> ?total = Some (dad_next_window_total d) \<and> dad_next_window_total d \<le> window"
    by (cases d) (auto split: option.splits)
  finally show ?thesis
    unfolding mint_total_exact using net_iff [of "dad_net_amount d"] by auto
qed

section \<open>Fee payouts: capacity, admission and debit agree\<close>

lemma payout_allowed_exact:
  "payout_allowed reserve pending amount fee \<longleftrightarrow>
    unat pending + unat amount + unat fee \<le> unat reserve"
proof (cases "- 1 - fee < amount")
  case True
  then have "2 ^ LENGTH(128) \<le> unat amount + unat fee"
    unfolding max_minus_less .
  then have "\<not> unat pending + unat amount + unat fee \<le> unat reserve"
    using unat_bound [of reserve] by linarith
  then show ?thesis
    using True by (simp only: payout_allowed_def payout_allowed_body_def if_True)
next
  case False
  then have "unat (amount + fee) = unat amount + unat fee"
    unfolding max_minus_less by (intro unat_add_exact) linarith
  then show ?thesis
    using False unat_sub_exact [of pending reserve]
    by (auto simp: payout_allowed_def payout_allowed_body_def Let_def word_le_nat_alt)
qed

lemma payout_decision_exact:
  "payout_decision reserve pending amount fee first =
    (if payout_allowed reserve pending amount fee
     then map_option PayoutDecision.make (payout_debit first amount fee) else None)"
  by (auto simp: payout_decision_def payout_allowed_def payout_allowed_body_def payout_debit_def
      Let_def PayoutDecision.make_def)

lemma capacity_exact:
  "unat (fee_payout_capacity reserve pending fee) = unat reserve - unat pending - unat fee"
  using unat_sub_exact [of pending reserve] unat_sub_exact [of fee "reserve - pending"]
  by (auto simp: fee_payout_capacity_def fee_payout_capacity_body_def word_le_nat_alt
      word_less_nat_alt)

end
