(* ===== verification/Core_Types.thy ===== *)
theory Core_Types
  imports Kernel_Arithmetic
begin

text \<open>
  The shared data of \<open>bridge-core/src/types.rs\<close>: amounts, identifiers, ledger accounts and
  transfer identities, the mint snapshot read from Base with its quote, the settlement of a
  withdrawal, the result of applying an event, and the error type of the core.

  \<open>Amount\<close>, \<open>DepositId\<close>, \<open>WithdrawalId\<close>, \<open>HoldId\<close> and \<open>GovernanceOperationId\<close> wrap one value
  each in the sources and are synonyms here; every comparison of the sources is the comparison
  of the wrapped value.
\<close>

section \<open>Errors\<close>

datatype CoreError =
    InvalidAmount
  | InvalidPrincipal
  | ArithmeticOverflow
  | ArithmeticUnderflow
  | ServiceFeeAboveMaximum
  | ServiceFeeAboveUserMaximum
  | PerDepositLimitExceeded
  | MintWindowLimitExceeded
  | SettlementMismatch
  | StaleFinalizedObservation
  | ConflictingFinalizedObservation
  | InvalidLedgerOperation
  | InvalidTransition (err_entity: string) (err_event: string)
  | ConflictingReplay
  | LedgerBlockConflict
  | PayloadConflict
  | HoldMismatch
  | MissingReconciliationEvidence
  | AttemptOverflow
  | AttemptPayloadChanged
  | RefundIneligible

type_synonym 'a core_result = "CoreError + 'a"

section \<open>Amounts and identifiers\<close>

type_synonym Amount = u128
type_synonym DepositId = bytes
type_synonym WithdrawalId = bytes
type_synonym HoldId = u64
type_synonym GovernanceOperationId = u64

definition amount_checked_add :: "Amount \<Rightarrow> Amount \<Rightarrow> Amount core_result" where
  "amount_checked_add a b = ok_or ArithmeticOverflow (checked_add a b)"

definition amount_checked_sub :: "Amount \<Rightarrow> Amount \<Rightarrow> Amount core_result" where
  "amount_checked_sub a b = ok_or ArithmeticUnderflow (checked_sub a b)"

section \<open>Ledger accounts and transfers\<close>

record Account =
  acct_owner :: bytes
  acct_subaccount :: bytes

definition account_new :: "bytes \<Rightarrow> bytes \<Rightarrow> Account core_result" where
  "account_new owner subaccount =
    (if owner = [] \<or> 29 < length owner \<or> owner = [4] then Inl InvalidPrincipal
     else Inr \<lparr> acct_owner = owner, acct_subaccount = subaccount \<rparr>)"

datatype LedgerOperation = PullDeposit | RefundDeposit | ReleaseWithdrawal | FeePayout

record LedgerTransferIdentity =
  lt_operation :: LedgerOperation
  lt_created_at_time_ns :: u64
  lt_memo :: bytes
  lt_amount :: Amount
  lt_fee :: Amount
  lt_from :: Account
  lt_to :: Account
  lt_spender :: "Account option"

section \<open>Mint snapshot and quote\<close>

record BaseMintSnapshot =
  bms_finalized_head_block_number :: u64
  bms_confirmed_block_timestamp :: u64
  bms_service_fee :: Amount
  bms_max_service_fee :: Amount
  bms_per_deposit_limit :: Amount
  bms_mint_window_limit :: Amount
  bms_mint_window_started_at :: u64
  bms_mint_window_duration :: u64
  bms_minted_in_window :: Amount

definition effective_minted_in_window :: "BaseMintSnapshot \<Rightarrow> Amount" where
  "effective_minted_in_window s =
    (let expires_at = saturating_add (ucast (bms_mint_window_started_at s) :: u128)
        (ucast (bms_mint_window_duration s)) in
      if expires_at \<le> ucast (bms_confirmed_block_timestamp s) then 0
      else bms_minted_in_window s)"

definition quote :: "BaseMintSnapshot \<Rightarrow> Amount \<Rightarrow> Amount \<Rightarrow> Amount core_result" where
  "quote s gross_amount user_max_fee =
    (if gross_amount = 0 then Inl InvalidAmount
     else if bms_max_service_fee s < bms_service_fee s then Inl ServiceFeeAboveMaximum
     else if user_max_fee < bms_service_fee s then Inl ServiceFeeAboveUserMaximum
     else try_bind (amount_checked_sub gross_amount (bms_service_fee s)) (\<lambda>net_amount.
       if net_amount = 0 then Inl InvalidAmount
       else if bms_per_deposit_limit s < net_amount then Inl PerDepositLimitExceeded
       else try_bind (amount_checked_add (effective_minted_in_window s) net_amount) (\<lambda>window.
         if bms_mint_window_limit s < window then Inl MintWindowLimitExceeded
         else Inr net_amount)))"

section \<open>Settlement\<close>

record Settlement =
  st_amount_out :: Amount
  st_service_fee :: Amount
  st_ledger_fee :: Amount

definition net_service_fee :: "Settlement \<Rightarrow> Amount core_result" where
  "net_service_fee s =
    ok_or SettlementMismatch
      (map_option sd_reserve_credit
        (settlement_decision (st_amount_out s) (st_ledger_fee s) (st_service_fee s)))"

definition validate_committed :: "Settlement \<Rightarrow> Amount \<Rightarrow> Amount \<Rightarrow> unit core_result" where
  "validate_committed s amount max_service_fee =
    (if max_service_fee < st_service_fee s then Inl ServiceFeeAboveMaximum
     else if \<not> committed_quote_matches amount (st_amount_out s) (st_service_fee s)
       then Inl SettlementMismatch
     else if settlement_decision (st_amount_out s) (st_ledger_fee s) (st_service_fee s) = None
       then Inl SettlementMismatch
     else Inr ())"

section \<open>Results of applying an event\<close>

datatype ApplyOutcome = Applied | Idempotent

record DepositAccountingEffects =
  dae_reservation_after :: Amount
  dae_reservation_add :: Amount
  dae_reservation_release :: Amount
  dae_fee_credit :: Amount
  dae_pending_liability_debit :: Amount
  dae_escrow_debit :: Amount
  dae_mint_supply_increase :: Amount

definition deposit_accounting_effects_zero :: DepositAccountingEffects where
  "deposit_accounting_effects_zero =
    \<lparr> dae_reservation_after = 0, dae_reservation_add = 0, dae_reservation_release = 0,
      dae_fee_credit = 0, dae_pending_liability_debit = 0, dae_escrow_debit = 0,
      dae_mint_supply_increase = 0 \<rparr>"

record ApplyResult =
  ar_outcome :: ApplyOutcome
  ar_fee_delta :: Amount
  ar_deposit_effects :: "DepositAccountingEffects option"

definition result_applied :: "Amount \<Rightarrow> ApplyResult" where
  "result_applied fee_delta =
    \<lparr> ar_outcome = Applied, ar_fee_delta = fee_delta, ar_deposit_effects = None \<rparr>"

definition result_applied_deposit :: "DepositAccountingEffects \<Rightarrow> ApplyResult" where
  "result_applied_deposit effects =
    \<lparr> ar_outcome = Applied, ar_fee_delta = dae_fee_credit effects,
      ar_deposit_effects = Some effects \<rparr>"

definition result_idempotent :: ApplyResult where
  "result_idempotent =
    \<lparr> ar_outcome = Idempotent, ar_fee_delta = 0, ar_deposit_effects = None \<rparr>"

section \<open>Lemmas\<close>

lemma apply_result_simps [simp]:
  "ar_outcome (result_applied d) = Applied" "ar_fee_delta (result_applied d) = d"
  "ar_deposit_effects (result_applied d) = None"
  "ar_outcome (result_applied_deposit e) = Applied"
  "ar_fee_delta (result_applied_deposit e) = dae_fee_credit e"
  "ar_deposit_effects (result_applied_deposit e) = Some e"
  "ar_outcome result_idempotent = Idempotent" "ar_fee_delta result_idempotent = 0"
  "ar_deposit_effects result_idempotent = None"
  by (simp_all add: result_applied_def result_applied_deposit_def result_idempotent_def)

lemma amount_checked_add_eq_Inr [result_simps]:
  "amount_checked_add a b = Inr c \<longleftrightarrow> unat a + unat b = unat c"
  by (simp add: amount_checked_add_def result_simps checked_add_eq_Some)

lemma amount_checked_sub_eq_Inr [result_simps]:
  "amount_checked_sub a b = Inr c \<longleftrightarrow> unat a = unat b + unat c"
  by (simp add: amount_checked_sub_def result_simps checked_sub_eq_Some)

lemma effective_minted_exact:
  "effective_minted_in_window s =
    (if unat (bms_mint_window_started_at s) + unat (bms_mint_window_duration s)
        \<le> unat (bms_confirmed_block_timestamp s)
     then 0 else bms_minted_in_window s)"
proof -
  have up: "unat (ucast w :: u128) = unat w" for w :: u64
    by (rule unat_ucast_up) simp
  have "unat (bms_mint_window_started_at s) + unat (bms_mint_window_duration s) < 2 ^ 65"
    using unat_bound [of "bms_mint_window_started_at s"]
      unat_bound [of "bms_mint_window_duration s"] by (simp del: unsigned_less)
  then have "unat (saturating_add (ucast (bms_mint_window_started_at s) :: u128)
      (ucast (bms_mint_window_duration s)))
    = unat (bms_mint_window_started_at s) + unat (bms_mint_window_duration s)"
    by (simp add: unat_saturating_add up)
  then show ?thesis
    by (simp add: effective_minted_in_window_def Let_def word_le_nat_alt up)
qed

lemma validate_committed_eq_Inr [result_simps]:
  "validate_committed s amount max_fee = Inr u \<longleftrightarrow>
    st_service_fee s \<le> max_fee
    \<and> 0 < unat (st_amount_out s)
    \<and> unat amount = unat (st_amount_out s) + unat (st_service_fee s)
    \<and> (\<exists>d. settlement_decision (st_amount_out s) (st_ledger_fee s) (st_service_fee s) = Some d)"
  by (auto simp: validate_committed_def quote_matches_exact linorder_not_less)

text \<open>
  A quote succeeds, with net amount \<open>n\<close>, exactly when the kernel's admission decision
  succeeds with that net amount for the stricter of the contract's and the user's fee ceilings
  and the minted total of the running window, so the two independently written checks agree.
\<close>

lemma quote_agrees_with_admission:
  "quote s gross user_max = Inr n \<longleftrightarrow>
    (\<exists>t. deposit_admission_decision gross (bms_service_fee s)
        (min (bms_max_service_fee s) user_max) (bms_per_deposit_limit s)
        (effective_minted_in_window s) 0 (bms_mint_window_limit s)
      = Some \<lparr> dad_net_amount = n, dad_next_window_total = t \<rparr>)"
proof -
  have "quote s gross user_max = Inr n \<longleftrightarrow>
      bms_service_fee s \<le> bms_max_service_fee s \<and> bms_service_fee s \<le> user_max
      \<and> 0 < unat n \<and> unat gross = unat n + unat (bms_service_fee s)
      \<and> n \<le> bms_per_deposit_limit s
      \<and> (\<exists>t. unat t = unat (effective_minted_in_window s) + unat n \<and> t \<le> bms_mint_window_limit s)"
    (is "?q \<longleftrightarrow> ?c")
  proof
    show "?q \<Longrightarrow> ?c"
      by (auto simp: quote_def result_simps linorder_not_less unat_gt_0)
  next
    assume c: ?c
    then obtain t where t: "unat (effective_minted_in_window s) + unat n = unat t"
        "t \<le> bms_mint_window_limit s"
      by metis
    have "n \<noteq> 0" "gross \<noteq> 0"
      using c by auto
    moreover have "amount_checked_sub gross (bms_service_fee s) = Inr n"
      using c by (simp add: result_simps)
    moreover have "amount_checked_add (effective_minted_in_window s) n = Inr t"
      using t by (simp add: result_simps)
    ultimately show ?q
      using c t by (simp add: quote_def linorder_not_less)
  qed
  then show ?thesis
    unfolding deposit_admission_exact by auto
qed

end
