(* ===== verification/Accounting.thy ===== *)
theory Accounting
  imports Core_Types
begin

text \<open>
  Fee accounting (\<open>bridge-core/src/accounting.rs\<close>) and the cycle reserve
  (\<open>bridge-core/src/reserve.rs\<close>).  A method on \<open>&mut self\<close> returns the updated record; an error
  leaves the caller with the old one.
\<close>

section \<open>Fee reserve\<close>

datatype FeeKind = FeeDeposit | FeeWithdrawal

record AccountingState =
  as_fee_reserve :: Amount
  as_confirmed_deposit_fees :: Amount
  as_confirmed_withdrawal_fees :: Amount

definition accounting_default :: AccountingState where
  "accounting_default =
    \<lparr> as_fee_reserve = 0, as_confirmed_deposit_fees = 0, as_confirmed_withdrawal_fees = 0 \<rparr>"

definition confirm_fee :: "AccountingState \<Rightarrow> FeeKind \<Rightarrow> Amount \<Rightarrow> AccountingState core_result" where
  "confirm_fee s kind amount =
    try_bind (amount_checked_add (as_fee_reserve s) amount) (\<lambda>next_reserve.
    try_bind (if kind = FeeDeposit then amount_checked_add (as_confirmed_deposit_fees s) amount
              else Inr (as_confirmed_deposit_fees s)) (\<lambda>next_deposit.
    try_bind (if kind = FeeWithdrawal
              then amount_checked_add (as_confirmed_withdrawal_fees s) amount
              else Inr (as_confirmed_withdrawal_fees s)) (\<lambda>next_withdrawal.
    Inr \<lparr> as_fee_reserve = next_reserve, as_confirmed_deposit_fees = next_deposit,
          as_confirmed_withdrawal_fees = next_withdrawal \<rparr>)))"

definition spend_fee_reserve :: "AccountingState \<Rightarrow> Amount \<Rightarrow> AccountingState core_result" where
  "spend_fee_reserve s amount =
    try_bind (amount_checked_sub (as_fee_reserve s) amount) (\<lambda>reserve.
    Inr (s \<lparr> as_fee_reserve := reserve \<rparr>))"

section \<open>Cycle reserve\<close>

record ReservePolicy =
  rp_cycles_floor :: u128
  rp_settlement_cycle_ceiling :: u128

record ReserveSnapshot =
  rs_nonterminal_withdrawals :: u64
  rs_reserved_deposits :: u64
  rs_candidate_deposits :: u64
  rs_reserved_operation_count :: u128
  rs_cycles_balance :: u128
  rs_required_cycles :: u128
  rs_cycles_surplus :: u128
  rs_sufficient :: bool

definition operation_count :: "u64 \<Rightarrow> u64 \<Rightarrow> u64 \<Rightarrow> u128 core_result" where
  "operation_count nonterminal_withdrawals reserved_deposits candidate_deposits =
    ok_or ArithmeticOverflow
      (Option.bind (checked_add (ucast nonterminal_withdrawals :: u128) (ucast reserved_deposits))
        (\<lambda>v. checked_add v (ucast candidate_deposits)))"

definition required_cycles :: "ReservePolicy \<Rightarrow> u64 \<Rightarrow> u64 \<Rightarrow> u64 \<Rightarrow> u128 core_result" where
  "required_cycles p nonterminal_withdrawals reserved_deposits candidate_deposits =
    try_bind (operation_count nonterminal_withdrawals reserved_deposits candidate_deposits)
      (\<lambda>count. ok_or ArithmeticOverflow
        (checked_requirement (rp_cycles_floor p) (rp_settlement_cycle_ceiling p) count))"

definition reserve_snapshot ::
    "ReservePolicy \<Rightarrow> u64 \<Rightarrow> u64 \<Rightarrow> u64 \<Rightarrow> u128 \<Rightarrow> ReserveSnapshot core_result" where
  "reserve_snapshot p nonterminal_withdrawals reserved_deposits candidate_deposits cycles_balance =
    try_bind (operation_count nonterminal_withdrawals reserved_deposits candidate_deposits)
      (\<lambda>count.
    try_bind (required_cycles p nonterminal_withdrawals reserved_deposits candidate_deposits)
      (\<lambda>required.
    Inr \<lparr> rs_nonterminal_withdrawals = nonterminal_withdrawals,
          rs_reserved_deposits = reserved_deposits,
          rs_candidate_deposits = candidate_deposits,
          rs_reserved_operation_count = count,
          rs_cycles_balance = cycles_balance,
          rs_required_cycles = required,
          rs_cycles_surplus = saturating_sub cycles_balance required,
          rs_sufficient = (required \<le> cycles_balance) \<rparr>))"

section \<open>A run of fee movements\<close>

text \<open>Fee movements in the order they are committed; a rejected one leaves the state as it was.
  The second component is the total spent so far.\<close>

datatype fee_movement = ConfirmFee FeeKind Amount | SpendReserve Amount

fun fee_step :: "AccountingState \<times> nat \<Rightarrow> fee_movement \<Rightarrow> AccountingState \<times> nat" where
  "fee_step (s, spent) (ConfirmFee kind amount) =
    (case confirm_fee s kind amount of Inl _ \<Rightarrow> (s, spent) | Inr s' \<Rightarrow> (s', spent))"
| "fee_step (s, spent) (SpendReserve amount) =
    (case spend_fee_reserve s amount of Inl _ \<Rightarrow> (s, spent) | Inr s' \<Rightarrow> (s', spent + unat amount))"

definition fee_balanced :: "AccountingState \<times> nat \<Rightarrow> bool" where
  "fee_balanced r = (case r of (s, spent) \<Rightarrow>
    unat (as_fee_reserve s) + spent
      = unat (as_confirmed_deposit_fees s) + unat (as_confirmed_withdrawal_fees s))"

section \<open>Lemmas\<close>

lemma confirm_fee_eq_Inr:
  "confirm_fee s kind amount = Inr s' \<longleftrightarrow>
    unat (as_fee_reserve s') = unat (as_fee_reserve s) + unat amount
    \<and> unat (as_confirmed_deposit_fees s')
        = unat (as_confirmed_deposit_fees s) + (if kind = FeeDeposit then unat amount else 0)
    \<and> unat (as_confirmed_withdrawal_fees s')
        = unat (as_confirmed_withdrawal_fees s) + (if kind = FeeWithdrawal then unat amount else 0)"
  by (cases s'; cases kind) (auto simp: confirm_fee_def result_simps intro: unat_eqD)

lemma spend_fee_reserve_eq_Inr:
  "spend_fee_reserve s amount = Inr s' \<longleftrightarrow>
    unat (as_fee_reserve s) = unat amount + unat (as_fee_reserve s')
    \<and> as_confirmed_deposit_fees s' = as_confirmed_deposit_fees s
    \<and> as_confirmed_withdrawal_fees s' = as_confirmed_withdrawal_fees s"
  by (cases s; cases s') (auto simp: spend_fee_reserve_def result_simps)

lemma fee_step_balanced: "fee_balanced r \<Longrightarrow> fee_balanced (fee_step r m)"
proof (cases r)
  case (Pair s spent)
  assume bal: "fee_balanced r"
  show ?thesis
  proof (cases m)
    case (ConfirmFee kind amount)
    then show ?thesis
      using bal Pair
      by (cases kind) (auto simp: fee_balanced_def confirm_fee_eq_Inr split: sum.splits)
  next
    case (SpendReserve amount)
    then show ?thesis
      using bal Pair by (auto simp: fee_balanced_def spend_fee_reserve_eq_Inr split: sum.splits)
  qed
qed

lemma operation_count_exact:
  "operation_count w d c = Inr n \<longleftrightarrow> unat n = unat w + unat d + unat c"
proof -
  have up: "unat (ucast x :: u128) = unat x" for x :: u64
    by (rule unat_ucast_up) simp
  have "operation_count w d c = Inr n \<longleftrightarrow>
      (\<exists>v :: u128. unat w + unat d = unat v \<and> unat v + unat c = unat n)"
    by (auto simp: operation_count_def result_simps bind_eq_Some_conv checked_add_eq_Some up)
  also have "\<dots> \<longleftrightarrow> unat n = unat w + unat d + unat c"
  proof
    assume eq: "unat n = unat w + unat d + unat c"
    then have "unat w + unat d < 2 ^ LENGTH(128)"
      using unat_bound [of n] by linarith
    then obtain v :: u128 where "unat w + unat d = unat v"
      using unat_surj by blast
    then show "\<exists>v :: u128. unat w + unat d = unat v \<and> unat v + unat c = unat n"
      using eq by (intro exI [of _ v]) simp
  qed auto
  finally show ?thesis .
qed

lemma operation_count_total: "\<exists>n. operation_count w d c = Inr n"
proof -
  have "unat w + unat d + unat c < 2 ^ LENGTH(128)"
    using unat_bound [of w] unat_bound [of d] unat_bound [of c] by (simp del: unsigned_less)
  then show ?thesis
    unfolding operation_count_exact by (metis unat_surj)
qed

lemma required_cycles_exact:
  "required_cycles p w d c = Inr r \<longleftrightarrow>
    unat r = unat (rp_cycles_floor p)
      + unat (rp_settlement_cycle_ceiling p) * (unat w + unat d + unat c)"
proof -
  obtain n where n: "operation_count w d c = Inr n"
    using operation_count_total by blast
  then have "unat n = unat w + unat d + unat c"
    by (simp only: operation_count_exact)
  then show ?thesis
    using n by (simp add: required_cycles_def result_simps requirement_exact)
qed

text \<open>
  Whatever confirmations of deposit and withdrawal fees and whatever payouts are committed,
  in whatever order and with rejected ones interspersed, the fee reserve plus everything spent
  from it is exactly the deposit fees plus the withdrawal fees confirmed so far: no fee is
  counted twice, lost or wrapped around.
\<close>

lemma fee_reserve_balanced:
  "fee_balanced (foldl fee_step (accounting_default, 0) movements)"
proof -
  have "fee_balanced r \<Longrightarrow> fee_balanced (foldl fee_step r movements)" for r
    by (induction movements arbitrary: r) (simp_all add: fee_step_balanced)
  then show ?thesis
    by (simp add: fee_balanced_def accounting_default_def)
qed

text \<open>
  A reserve snapshot reports sufficiency exactly when the balance covers the floor plus one
  settlement ceiling for every open withdrawal, reserved deposit and candidate deposit, computed
  over the integers, and its surplus is the excess; it fails exactly when that requirement does
  not fit in 128 bits.
\<close>

lemma reserve_snapshot_exact:
  "let need = unat (rp_cycles_floor p)
      + unat (rp_settlement_cycle_ceiling p) * (unat w + unat d + unat c) in
    (case reserve_snapshot p w d c balance of
      Inl e \<Rightarrow> e = ArithmeticOverflow \<and> 2 ^ 128 \<le> need
    | Inr s \<Rightarrow> unat (rs_required_cycles s) = need
        \<and> (rs_sufficient s \<longleftrightarrow> need \<le> unat balance)
        \<and> unat (rs_cycles_surplus s) = unat balance - need)"
proof -
  define need where "need = unat (rp_cycles_floor p)
    + unat (rp_settlement_cycle_ceiling p) * (unat w + unat d + unat c)"
  obtain n where n: "operation_count w d c = Inr n"
    using operation_count_total by blast
  have req: "required_cycles p w d c = Inr r \<longleftrightarrow> unat r = need" for r
    unfolding need_def by (rule required_cycles_exact)
  have "case reserve_snapshot p w d c balance of
      Inl e \<Rightarrow> e = ArithmeticOverflow \<and> 2 ^ 128 \<le> need
    | Inr s \<Rightarrow> unat (rs_required_cycles s) = need
        \<and> (rs_sufficient s \<longleftrightarrow> need \<le> unat balance)
        \<and> unat (rs_cycles_surplus s) = unat balance - need"
  proof (cases "required_cycles p w d c")
    case (Inl e)
    then have "e = ArithmeticOverflow"
      using n by (auto simp: required_cycles_def result_simps)
    moreover have "\<not> need < 2 ^ LENGTH(128)"
      using req Inl unat_surj [where ?'a = 128, of need] by force
    ultimately show ?thesis
      using n Inl by (simp add: reserve_snapshot_def)
  next
    case (Inr r)
    then show ?thesis
      using n req [of r] by (simp add: reserve_snapshot_def word_le_nat_alt unat_saturating_sub)
  qed
  then show ?thesis
    unfolding need_def Let_def .
qed

end
