(* ===== verification/External.thy ===== *)
theory External
  imports Core_Types
begin

text \<open>
  Observations of the outside world (\<open>bridge-core/src/external.rs\<close>): outcomes of ledger calls,
  governance transactions, the finalized Base observation and its monotone progress, and the
  cursor of a ledger reconciliation scan.
\<close>

section \<open>Ledger calls\<close>

datatype LedgerFailure =
    BadFee (lf_expected_fee: Amount)
  | BadBurn (lf_minimum: Amount)
  | InsufficientFunds (lf_balance: Amount)
  | InsufficientAllowance (lf_allowance: Amount)
  | TooOld
  | CreatedInFuture (lf_ledger_time_ns: u64)
  | TemporarilyUnavailable
  | GenericFailure (lf_code: u64)

datatype LedgerCallOutcome =
    LC_Succeeded (lc_block_index: u128)
  | LC_Duplicate (lc_block_index: u128)
  | LC_DefinitiveFailure (lc_code: LedgerFailure)
  | LC_RetryableFailure (lc_code: LedgerFailure)
  | LC_Ambiguous

definition confirmed_block :: "LedgerCallOutcome \<Rightarrow> u128 option" where
  "confirmed_block outcome = (case outcome of
      LC_Succeeded block_index \<Rightarrow> Some block_index
    | LC_Duplicate block_index \<Rightarrow> Some block_index
    | LC_DefinitiveFailure _ \<Rightarrow> None
    | LC_RetryableFailure _ \<Rightarrow> None
    | LC_Ambiguous \<Rightarrow> None)"

definition requires_hold :: "LedgerCallOutcome \<Rightarrow> bool" where
  "requires_hold outcome = (case outcome of LC_Ambiguous \<Rightarrow> True | _ \<Rightarrow> False)"

section \<open>Governance transactions\<close>

record SignedGovernanceTransaction =
  sgt_raw_transaction :: bytes
  sgt_transaction_hash :: bytes
  sgt_max_fee_per_gas :: u128
  sgt_max_priority_fee_per_gas :: u128
  sgt_generation :: u8
  sgt_signed_at_ns :: u64

record GovernanceTransactionEnvelope =
  gte_operation_id :: GovernanceOperationId
  gte_payload_hash :: bytes
  gte_nonce :: u64
  gte_chain_id :: u64
  gte_contract :: bytes
  gte_calldata :: bytes
  gte_gas_limit :: u128
  gte_max_fee_per_gas :: u128
  gte_max_priority_fee_per_gas :: u128
  gte_signed_transactions :: "SignedGovernanceTransaction list"

record GovernanceCallIntent =
  gci_operation_id :: GovernanceOperationId
  gci_payload_hash :: bytes
  gci_chain_id :: u64
  gci_contract :: bytes
  gci_calldata :: bytes
  gci_gas_limit :: u128
  gci_max_fee_per_gas :: u128
  gci_max_priority_fee_per_gas :: u128

definition assign_nonce :: "GovernanceCallIntent \<Rightarrow> u64 \<Rightarrow> GovernanceTransactionEnvelope" where
  "assign_nonce i nonce =
    \<lparr> gte_operation_id = gci_operation_id i,
      gte_payload_hash = gci_payload_hash i,
      gte_nonce = nonce,
      gte_chain_id = gci_chain_id i,
      gte_contract = gci_contract i,
      gte_calldata = gci_calldata i,
      gte_gas_limit = gci_gas_limit i,
      gte_max_fee_per_gas = gci_max_fee_per_gas i,
      gte_max_priority_fee_per_gas = gci_max_priority_fee_per_gas i,
      gte_signed_transactions = [] \<rparr>"

definition envelope_validate ::
    "GovernanceTransactionEnvelope \<Rightarrow> u64 \<Rightarrow> bytes \<Rightarrow> unit core_result" where
  "envelope_validate e expected_chain_id expected_contract =
    (if gte_chain_id e \<noteq> expected_chain_id \<or> gte_contract e \<noteq> expected_contract
     then Inl PayloadConflict
     else if length (gte_calldata e) < 4 \<or> gte_gas_limit e = 0 \<or> gte_max_fee_per_gas e = 0
     then Inl InvalidAmount
     else Inr ())"

section \<open>Finalized observations\<close>

record FinalizedObservationRecord =
  fo_chain_id :: u64
  fo_block_number :: u64
  fo_block_hash :: bytes
  fo_observed_at_ns :: u64
  fo_bridge_signer :: bytes
  fo_runtime_sha256 :: bytes

record ExternalProgress =
  ep_last_finalized_base_block :: u64
  ep_last_finalized_observation_ns :: u64
  ep_finalized_observation :: "FinalizedObservationRecord option"

definition external_progress_default :: ExternalProgress where
  "external_progress_default =
    \<lparr> ep_last_finalized_base_block = 0, ep_last_finalized_observation_ns = 0,
      ep_finalized_observation = None \<rparr>"

definition observation_conflict ::
    "FinalizedObservationRecord \<Rightarrow> FinalizedObservationRecord \<Rightarrow> CoreError option" where
  "observation_conflict candidate current =
    (if fo_chain_id candidate \<noteq> fo_chain_id current then Some ConflictingFinalizedObservation
     else if fo_block_number candidate < fo_block_number current
       then Some StaleFinalizedObservation
     else if fo_block_number candidate = fo_block_number current
         \<and> (fo_block_hash candidate \<noteq> fo_block_hash current
            \<or> fo_bridge_signer candidate \<noteq> fo_bridge_signer current
            \<or> fo_runtime_sha256 candidate \<noteq> fo_runtime_sha256 current)
       then Some ConflictingFinalizedObservation
     else None)"

definition observe_finalized ::
    "ExternalProgress \<Rightarrow> FinalizedObservationRecord \<Rightarrow> ExternalProgress core_result" where
  "observe_finalized p candidate =
    (if fo_block_number candidate < ep_last_finalized_base_block p
     then Inl StaleFinalizedObservation
     else case Option.bind (ep_finalized_observation p) (observation_conflict candidate) of
       Some e \<Rightarrow> Inl e
     | None \<Rightarrow>
         let observed_at_ns = max (ep_last_finalized_observation_ns p) (fo_observed_at_ns candidate)
         in Inr \<lparr> ep_last_finalized_base_block = fo_block_number candidate,
                  ep_last_finalized_observation_ns = observed_at_ns,
                  ep_finalized_observation =
                    Some (candidate \<lparr> fo_observed_at_ns := observed_at_ns \<rparr>) \<rparr>)"

section \<open>Reconciliation scans\<close>

datatype ReconciliationTarget =
    RT_Hold HoldId
  | RT_FeePayout u64
  | RT_FundingAttempt DepositId

record ReconciliationArchiveRange =
  rar_canister_id :: bytes
  rar_method :: string
  rar_start :: u128
  rar_length :: u128

record ReconciliationLedgerPage =
  rlp_end :: u128
  rlp_archives :: "ReconciliationArchiveRange list"
  rlp_next_archive :: u16

datatype ReconciliationScanPhase =
    SP_Ledger (sp_next_block: u128) (sp_ledger_tip: "u128 option")
      (sp_pending_page: "ReconciliationLedgerPage option")
  | SP_Index (sp_ledger_watermark: u128) (sp_index_watermark: "u128 option")
      (sp_next_start: "u128 option")

record ReconciliationScanProgress =
  rsp_target :: ReconciliationTarget
  rsp_transfer :: LedgerTransferIdentity
  rsp_phase :: ReconciliationScanPhase

definition scan_progress_new ::
    "ReconciliationTarget \<Rightarrow> LedgerTransferIdentity \<Rightarrow> ReconciliationScanProgress" where
  "scan_progress_new target transfer =
    \<lparr> rsp_target = target, rsp_transfer = transfer, rsp_phase = SP_Ledger 0 None None \<rparr>"

section \<open>Lemmas\<close>

text \<open>The recorded observation is the one the summary fields describe.\<close>

definition progress_wf :: "ExternalProgress \<Rightarrow> bool" where
  "progress_wf p = (case ep_finalized_observation p of
      None \<Rightarrow> True
    | Some c \<Rightarrow> fo_block_number c = ep_last_finalized_base_block p
        \<and> fo_observed_at_ns c = ep_last_finalized_observation_ns p)"

text \<open>What one observation may change of another: heights and times only grow, the chain is
  fixed, and at one height the block hash, the signer and the runtime are fixed.\<close>

definition observation_extends ::
    "FinalizedObservationRecord \<Rightarrow> FinalizedObservationRecord \<Rightarrow> bool" where
  "observation_extends older newer =
    (fo_chain_id newer = fo_chain_id older
     \<and> fo_block_number older \<le> fo_block_number newer
     \<and> (fo_block_number newer = fo_block_number older \<longrightarrow>
          fo_block_hash newer = fo_block_hash older
          \<and> fo_bridge_signer newer = fo_bridge_signer older
          \<and> fo_runtime_sha256 newer = fo_runtime_sha256 older))"

definition progress_le :: "ExternalProgress \<Rightarrow> ExternalProgress \<Rightarrow> bool" where
  "progress_le p q =
    (ep_last_finalized_base_block p \<le> ep_last_finalized_base_block q
     \<and> ep_last_finalized_observation_ns p \<le> ep_last_finalized_observation_ns q
     \<and> (\<forall>older. ep_finalized_observation p = Some older \<longrightarrow>
          (\<exists>newer. ep_finalized_observation q = Some newer \<and> observation_extends older newer)))"

lemma observation_conflict_None:
  "observation_conflict candidate current = None \<longleftrightarrow> observation_extends current candidate"
  by (auto simp: observation_conflict_def observation_extends_def linorder_not_less)

lemma observation_extends_refl [simp]: "observation_extends c c"
  by (simp add: observation_extends_def)

lemma observation_extends_trans:
  "observation_extends a b \<Longrightarrow> observation_extends b c \<Longrightarrow> observation_extends a c"
  by (auto simp: observation_extends_def)

lemma progress_le_refl [simp]: "progress_le p p"
  by (simp add: progress_le_def)

lemma progress_le_trans: "progress_le p q \<Longrightarrow> progress_le q r \<Longrightarrow> progress_le p r"
  unfolding progress_le_def by (meson observation_extends_trans order_trans)

definition progress_after ::
    "ExternalProgress \<Rightarrow> FinalizedObservationRecord \<Rightarrow> ExternalProgress" where
  "progress_after p c =
    (let t = max (ep_last_finalized_observation_ns p) (fo_observed_at_ns c) in
      \<lparr> ep_last_finalized_base_block = fo_block_number c, ep_last_finalized_observation_ns = t,
        ep_finalized_observation = Some (c \<lparr> fo_observed_at_ns := t \<rparr>) \<rparr>)"

lemma observe_finalized_eq_Inr:
  "observe_finalized p c = Inr q \<longleftrightarrow>
    ep_last_finalized_base_block p \<le> fo_block_number c
    \<and> (\<forall>older. ep_finalized_observation p = Some older \<longrightarrow> observation_extends older c)
    \<and> q = progress_after p c"
proof (cases "ep_finalized_observation p")
  case None
  then show ?thesis
    by (auto simp: observe_finalized_def progress_after_def Let_def)
next
  case (Some older)
  then show ?thesis
    using observation_conflict_None [of c older]
    by (cases "observation_conflict c older")
      (auto simp: observe_finalized_def progress_after_def Let_def)
qed

lemma observe_finalized_step:
  assumes "observe_finalized p c = Inr q"
  shows "progress_le p q"
  using assms unfolding observe_finalized_eq_Inr
  by (auto simp: progress_le_def progress_after_def Let_def observation_extends_def)

lemma observe_finalized_wf:
  assumes "observe_finalized p c = Inr q"
  shows "progress_wf q"
  using assms unfolding observe_finalized_eq_Inr
  by (simp add: progress_wf_def progress_after_def Let_def)

lemma repeated_observation_accepted:
  assumes "observe_finalized p c = Inr q"
  shows "observe_finalized q c = Inr q"
  using assms unfolding observe_finalized_eq_Inr
  by (auto simp: progress_after_def Let_def observation_extends_def)

text \<open>Observations as they arrive; a rejected one leaves the progress as it was.\<close>

definition observe_all :: "ExternalProgress \<Rightarrow> FinalizedObservationRecord list \<Rightarrow> ExternalProgress" where
  "observe_all = foldl (\<lambda>p c. case observe_finalized p c of Inl _ \<Rightarrow> p | Inr q \<Rightarrow> q)"

text \<open>
  Over any sequence of finalized observations, accepted or rejected, the recorded progress
  never goes back: heights and times grow, the chain never changes, and at one height no second
  block hash, signer or runtime is ever accepted.
\<close>

lemma finalized_progress_monotone:
  "progress_le (observe_all p earlier) (observe_all p (earlier @ later))"
proof -
  have "progress_le q (observe_all q later)" for q
    unfolding observe_all_def
  proof (induction later arbitrary: q)
    case (Cons c cs)
    then show ?case
      by (cases "observe_finalized q c")
        (auto dest: observe_finalized_step intro: progress_le_trans)
  qed simp
  then show ?thesis
    by (simp add: observe_all_def)
qed

end
