(* ===== verification/Transfers.thy ===== *)
theory Transfers
  imports Core_Types
begin

text \<open>
  Transfer attempts (\<open>TransferAttempt\<close> of \<open>bridge-core/src/withdrawal.rs\<close>), shared by deposits and
  withdrawals: a numbered ledger transfer identity, and the replacement attempt after the
  previous one was proved absent from the ledger.
\<close>

record TransferAttempt =
  ta_attempt_no :: u64
  ta_identity :: LedgerTransferIdentity

definition retry_after_absence ::
    "TransferAttempt \<Rightarrow> LedgerTransferIdentity \<Rightarrow> TransferAttempt core_result" where
  "retry_after_absence a identity =
    (if lt_created_at_time_ns identity \<le> lt_created_at_time_ns (ta_identity a)
        \<or> lt_memo identity = lt_memo (ta_identity a)
        \<or> lt_operation identity \<noteq> lt_operation (ta_identity a)
        \<or> lt_amount identity \<noteq> lt_amount (ta_identity a)
        \<or> lt_fee identity \<noteq> lt_fee (ta_identity a)
        \<or> lt_from identity \<noteq> lt_from (ta_identity a)
        \<or> lt_to identity \<noteq> lt_to (ta_identity a)
        \<or> lt_spender identity \<noteq> lt_spender (ta_identity a)
     then Inl AttemptPayloadChanged
     else try_bind (ok_or AttemptOverflow (next_attempt (ta_attempt_no a))) (\<lambda>attempt_no.
       Inr \<lparr> ta_attempt_no = attempt_no, ta_identity = identity \<rparr>))"

text \<open>Two identities that move the same amount between the same accounts with the same fee.\<close>

definition same_transfer :: "LedgerTransferIdentity \<Rightarrow> LedgerTransferIdentity \<Rightarrow> bool" where
  "same_transfer i j =
    (lt_operation i = lt_operation j \<and> lt_amount i = lt_amount j \<and> lt_fee i = lt_fee j
     \<and> lt_from i = lt_from j \<and> lt_to i = lt_to j \<and> lt_spender i = lt_spender j)"

lemma same_transfer_refl [simp]: "same_transfer i i"
  by (simp add: same_transfer_def)

lemma same_transfer_trans: "same_transfer i j \<Longrightarrow> same_transfer j k \<Longrightarrow> same_transfer i k"
  by (simp add: same_transfer_def)

lemma retry_eq_Inr:
  "retry_after_absence a identity = Inr b \<longleftrightarrow>
    lt_created_at_time_ns (ta_identity a) < lt_created_at_time_ns identity
    \<and> lt_memo identity \<noteq> lt_memo (ta_identity a)
    \<and> same_transfer identity (ta_identity a)
    \<and> ta_identity b = identity
    \<and> unat (ta_attempt_no b) = Suc (unat (ta_attempt_no a))"
  by (cases b) (auto simp: retry_after_absence_def same_transfer_def result_simps
      counter_steps_exact linorder_not_le)

lemma retry_attempt_positive:
  "retry_after_absence a identity = Inr b \<Longrightarrow> ta_attempt_no b \<noteq> 0"
  by (auto simp: retry_eq_Inr)

end
