(* ===== verification/Kernel_Deposit.thy ===== *)
theory Kernel_Deposit
  imports Kernel_Arithmetic
begin

text \<open>
  The compact deposit phase machine of \<open>bridge-core/src/kernel.rs\<close>: the transition table on phase
  codes, the guard each event has to satisfy, the reservation, fee and liability effects of a
  transition, and the decision that combines them.

  States: 0 funding pending, 1 escrow funded, 2 authorization pending, 3 authorization available,
  4 refund available, 5 funding hold, 6 refund pending, 7 refund hold, 8 refunded, 9 cancelled,
  10 minted.  Events: 0 funding succeeded, 1 funding ambiguous, 2 funding failed, 3 commit
  authorization, 4 mark refund available, 5 install signature, 6 mint finalized, 7 start refund,
  8 refund succeeded, 9 refund ambiguous.
\<close>

section \<open>Ledger block indexes\<close>

definition deposit_ledger_block_transition_body ::
    "'b option \<Rightarrow> 'b option \<Rightarrow> 'c \<Rightarrow> 'b \<Rightarrow> 'c \<Rightarrow> 'c \<Rightarrow> 'c \<Rightarrow> ('b option \<times> 'b option) option" where
  "deposit_ledger_block_transition_body funding refund event block preserve funded refunded =
    (if event = preserve then Some (funding, refund)
     else if event = funded then
       (case funding of
         None \<Rightarrow> Some (Some block, refund)
       | Some current \<Rightarrow> if current = block then Some (funding, refund) else None)
     else if event = refunded then
       (case (funding, refund) of
         (Some _, None) \<Rightarrow> Some (funding, Some block)
       | (Some _, Some current) \<Rightarrow> if current = block then Some (funding, refund) else None
       | _ \<Rightarrow> None)
     else None)"

definition deposit_ledger_block_transition ::
    "u128 option \<Rightarrow> u128 option \<Rightarrow> u8 \<Rightarrow> u128 \<Rightarrow> (u128 option \<times> u128 option) option" where
  "deposit_ledger_block_transition funding refund event block =
    deposit_ledger_block_transition_body funding refund event block 0 1 2"

section \<open>Transition table\<close>

definition deposit_transition_body ::
    "'c \<Rightarrow> 'c \<Rightarrow> 'c \<Rightarrow> 'c \<Rightarrow> 'c \<Rightarrow> 'c \<Rightarrow> 'c \<Rightarrow> 'c \<Rightarrow> 'c \<Rightarrow> 'c \<Rightarrow> 'c \<Rightarrow> 'c \<Rightarrow> 'c \<Rightarrow> 'c \<Rightarrow> 'c option" where
  "deposit_transition_body state event zero one two three four five six seven eight nine ten
      eleven =
    (if state = zero \<and> event = zero then Some one
     else if state = zero \<and> event = one then Some five
     else if state = zero \<and> event = two then Some nine
     else if state = one \<and> event = three then Some two
     else if state = one \<and> event = four then Some four
     else if state = two \<and> event = four then Some four
     else if state = two \<and> event = five then Some three
     else if state = three \<and> event = four then Some four
     else if (state = three \<or> state = four) \<and> event = six then Some ten
     else if state = four \<and> event = seven then Some six
     else if state = six \<and> event = eight then Some eight
     else if state = six \<and> event = nine then Some seven
     else None)"

definition deposit_transition :: "u8 \<Rightarrow> u8 \<Rightarrow> u8 option" where
  "deposit_transition state event =
    deposit_transition_body state event 0 1 2 3 4 5 6 7 8 9 10 11"

section \<open>Guards\<close>

definition authorization_commit_allowed ::
    "bool \<Rightarrow> bool \<Rightarrow> bool \<Rightarrow> bool \<Rightarrow> bool \<Rightarrow> bool \<Rightarrow> bool" where
  "authorization_commit_allowed identity_matches amounts_match domain_valid origin_valid
      record_pristine deadline_matches =
    (identity_matches \<and> amounts_match \<and> domain_valid \<and> origin_valid \<and> record_pristine
     \<and> deadline_matches)"

definition expiry_refund_allowed :: "bool \<Rightarrow> bool \<Rightarrow> u64 \<Rightarrow> u64 \<Rightarrow> bool" where
  "expiry_refund_allowed binding_matches deposit_processed finalized_timestamp deadline =
    (binding_matches \<and> \<not> deposit_processed \<and> deadline < finalized_timestamp)"

definition mint_finalization_allowed :: "bool \<Rightarrow> bool \<Rightarrow> u64 \<Rightarrow> u64 \<Rightarrow> bool" where
  "mint_finalization_allowed binding_matches receipt_succeeded receipt_block finalized_block =
    (binding_matches \<and> receipt_succeeded \<and> receipt_block \<le> finalized_block)"

definition mint_authorization_before_deadline :: "u64 \<Rightarrow> u64 \<Rightarrow> bool" where
  "mint_authorization_before_deadline observed_timestamp deadline = (observed_timestamp < deadline)"

definition signature_install_allowed :: "bool \<Rightarrow> bool \<Rightarrow> bool \<Rightarrow> u64 \<Rightarrow> u64 \<Rightarrow> bool" where
  "signature_install_allowed signature_dispatched signature_absent signature_length_valid
      observed_timestamp deadline =
    (signature_dispatched \<and> signature_absent \<and> signature_length_valid
     \<and> mint_authorization_before_deadline observed_timestamp deadline)"

definition refund_start_allowed :: "bool \<Rightarrow> bool \<Rightarrow> bool" where
  "refund_start_allowed attempt_matches policy_matches = (attempt_matches \<and> policy_matches)"

datatype DepositEventGuard =
    Guard_Funding
  | Guard_CommitAuthorization (g_quote_valid: bool) (g_fixed_fields_match: bool)
      (g_canonical_domain_strings: bool) (g_deadline_valid: bool) (g_pristine: bool)
  | Guard_InstallSignature (g_dispatched: bool) (g_signature_absent: bool)
      (g_signature_length_valid: bool) (g_observed_timestamp: u64) (g_deadline: u64)
  | Guard_MarkRefundAvailable (g_policy_allowed: bool)
  | Guard_MintFinalization (g_fixed_fields_match: bool) (g_receipt_succeeded: bool)
      (g_receipt_block: u64) (g_finalized_block: u64) (g_audit_complete: bool)
  | Guard_StartRefund (g_attempt_matches: bool) (g_policy_matches: bool)
  | Guard_RefundResult

definition matches_event :: "DepositEventGuard \<Rightarrow> u8 \<Rightarrow> bool" where
  "matches_event guard event = (case guard of
      Guard_Funding \<Rightarrow> event \<le> 2
    | Guard_CommitAuthorization _ _ _ _ _ \<Rightarrow> event = 3
    | Guard_StartRefund _ _ \<Rightarrow> event = 7
    | Guard_InstallSignature _ _ _ _ _ \<Rightarrow> event = 5
    | Guard_MarkRefundAvailable _ \<Rightarrow> event = 4
    | Guard_MintFinalization _ _ _ _ _ \<Rightarrow> event = 6
    | Guard_RefundResult \<Rightarrow> event = 8 \<or> event = 9)"

definition guard_accepts :: "DepositEventGuard \<Rightarrow> bool" where
  "guard_accepts guard = (case guard of
      Guard_Funding \<Rightarrow> True
    | Guard_RefundResult \<Rightarrow> True
    | Guard_MarkRefundAvailable policy_allowed \<Rightarrow> policy_allowed
    | Guard_CommitAuthorization quote_valid fixed_fields_match canonical_domain_strings
        deadline_valid pristine \<Rightarrow>
        authorization_commit_allowed fixed_fields_match quote_valid canonical_domain_strings
          fixed_fields_match pristine deadline_valid
    | Guard_InstallSignature dispatched signature_absent signature_length_valid
        observed_timestamp deadline \<Rightarrow>
        signature_install_allowed dispatched signature_absent signature_length_valid
          observed_timestamp deadline
    | Guard_MintFinalization fixed_fields_match receipt_succeeded receipt_block finalized_block
        audit_complete \<Rightarrow>
        mint_finalization_allowed (fixed_fields_match \<and> audit_complete) receipt_succeeded
          receipt_block finalized_block
    | Guard_StartRefund attempt_matches policy_matches \<Rightarrow>
        refund_start_allowed attempt_matches policy_matches)"

section \<open>Effects\<close>

definition deposit_reservation_active :: "u8 \<Rightarrow> bool" where
  "deposit_reservation_active state = (state = 2 \<or> state = 3)"

definition deposit_charge_service_fee :: "u8 \<Rightarrow> u8 \<Rightarrow> bool" where
  "deposit_charge_service_fee state event = (state = 2 \<and> event = 5)"

definition deposit_releases_reservation :: "u8 \<Rightarrow> u8 \<Rightarrow> bool" where
  "deposit_releases_reservation state event =
    (case deposit_transition state event of
      None \<Rightarrow> False
    | Some next_state \<Rightarrow>
        deposit_reservation_active state \<and> \<not> deposit_reservation_active next_state)"

definition deposit_numeric_effects_body ::
    "u8 \<Rightarrow> u8 \<Rightarrow> u128 \<Rightarrow> u128 \<Rightarrow> u128 \<Rightarrow> u128
      \<Rightarrow> u128 \<times> u128 \<times> u128 \<times> u128 \<times> u128 \<times> u128 \<times> u128" where
  "deposit_numeric_effects_body state event gross net fee reserved =
    (let next_state = deposit_transition state event;
         was_reserved = deposit_reservation_active state;
         after_reserved = (case next_state of
             Some n \<Rightarrow> deposit_reservation_active n | None \<Rightarrow> False);
         authorization_signed = deposit_charge_service_fee state event;
         mint_completed = ((state = 3 \<or> state = 4) \<and> event = 6);
         refund_completed = (state = 6 \<and> event = 8);
         terminal_liability = (if net = 0 then gross else net)
     in (if after_reserved then (if was_reserved then reserved else net) else 0,
         if \<not> was_reserved \<and> after_reserved then net else 0,
         if was_reserved \<and> \<not> after_reserved \<and> next_state \<noteq> None then reserved else 0,
         if authorization_signed then fee else 0,
         if authorization_signed then fee
           else if mint_completed \<or> refund_completed then terminal_liability else 0,
         if refund_completed then terminal_liability else 0,
         if mint_completed then net else 0))"

definition deposit_numeric_effects ::
    "u8 \<Rightarrow> u8 \<Rightarrow> u128 \<Rightarrow> u128 \<Rightarrow> u128 \<Rightarrow> u128
      \<Rightarrow> u128 \<times> u128 \<times> u128 \<times> u128 \<times> u128 \<times> u128 \<times> u128" where
  "deposit_numeric_effects state event gross_amount net_amount service_fee reserved_amount =
    deposit_numeric_effects_body state event gross_amount net_amount service_fee reserved_amount"

definition deposit_transition_effects ::
    "u8 \<Rightarrow> u8 \<Rightarrow> u128 \<Rightarrow> u128 \<Rightarrow> u128 \<Rightarrow> u128
      \<Rightarrow> u128 \<times> u128 \<times> u128 \<times> u128 \<times> u128 \<times> u128 \<times> u128" where
  "deposit_transition_effects state event gross_amount net_amount service_fee reserved_amount =
    deposit_numeric_effects_body state event gross_amount net_amount service_fee reserved_amount"

section \<open>Decision\<close>

record DepositTransitionInput =
  dti_state :: u8
  dti_event :: u8
  dti_guard :: DepositEventGuard
  dti_same_payload :: bool
  dti_gross_amount :: u128
  dti_net_amount :: u128
  dti_service_fee :: u128
  dti_reserved_amount :: u128

record DepositEffects =
  de_next_state :: u8
  de_reservation_active :: bool
  de_release_reservation :: bool
  de_charge_service_fee :: bool
  de_reservation_after :: u128
  de_reservation_add :: u128
  de_reservation_release :: u128
  de_fee_credit :: u128
  de_pending_liability_debit :: u128
  de_escrow_debit :: u128
  de_mint_supply_increase :: u128

datatype DepositTransitionDecision =
    DTD_Idempotent
  | DTD_Apply DepositEffects
  | DTD_Reject

definition deposit_transition_decision :: "DepositTransitionInput \<Rightarrow> DepositTransitionDecision" where
  "deposit_transition_decision i =
    (if dti_same_payload i then DTD_Idempotent
     else if \<not> matches_event (dti_guard i) (dti_event i) \<or> \<not> guard_accepts (dti_guard i)
       then DTD_Reject
     else case deposit_transition (dti_state i) (dti_event i) of
       None \<Rightarrow> DTD_Reject
     | Some next_state \<Rightarrow>
         let after_reserved = deposit_reservation_active next_state;
             release_reservation = (deposit_reservation_active (dti_state i) \<and> \<not> after_reserved);
             charge_service_fee = deposit_charge_service_fee (dti_state i) (dti_event i);
             (reservation_after, reservation_add, reservation_release, fee_credit,
              pending_liability_debit, escrow_debit, mint_supply_increase) =
               deposit_transition_effects (dti_state i) (dti_event i) (dti_gross_amount i)
                 (dti_net_amount i) (dti_service_fee i) (dti_reserved_amount i)
         in DTD_Apply \<lparr> de_next_state = next_state,
              de_reservation_active = after_reserved,
              de_release_reservation = release_reservation,
              de_charge_service_fee = charge_service_fee,
              de_reservation_after = reservation_after,
              de_reservation_add = reservation_add,
              de_reservation_release = reservation_release,
              de_fee_credit = fee_credit,
              de_pending_liability_debit = pending_liability_debit,
              de_escrow_debit = escrow_debit,
              de_mint_supply_increase = mint_supply_increase \<rparr>)"

section \<open>Tables of the phase machine\<close>

lemma deposit_transition_table [simp]:
  "deposit_transition 0 e =
    (if e = 0 then Some 1 else if e = 1 then Some 5 else if e = 2 then Some 9 else None)"
  "deposit_transition 1 e = (if e = 3 then Some 2 else if e = 4 then Some 4 else None)"
  "deposit_transition 2 e = (if e = 4 then Some 4 else if e = 5 then Some 3 else None)"
  "deposit_transition 3 e = (if e = 4 then Some 4 else if e = 6 then Some 10 else None)"
  "deposit_transition 4 e = (if e = 6 then Some 10 else if e = 7 then Some 6 else None)"
  "deposit_transition 5 e = None"
  "deposit_transition 6 e = (if e = 8 then Some 8 else if e = 9 then Some 7 else None)"
  "deposit_transition 7 e = None"
  "deposit_transition 8 e = None"
  "deposit_transition 9 e = None"
  "deposit_transition 10 e = None"
  by (simp_all add: deposit_transition_def deposit_transition_body_def)

lemma deposit_block_exact:
  "deposit_ledger_block_transition f r 0 block = Some (f, r)"
  "deposit_ledger_block_transition f r 1 block = Some (f', r') \<longleftrightarrow>
    f' = Some block \<and> r' = r \<and> (f = None \<or> f = Some block)"
  "deposit_ledger_block_transition f r 2 block = Some (f', r') \<longleftrightarrow>
    f \<noteq> None \<and> f' = f \<and> r' = Some block \<and> (r = None \<or> r = Some block)"
  by (auto simp: deposit_ledger_block_transition_def deposit_ledger_block_transition_body_def
      split: option.splits if_splits)

lemma decision_Apply_iff:
  "deposit_transition_decision i = DTD_Apply e \<longleftrightarrow>
    \<not> dti_same_payload i \<and> matches_event (dti_guard i) (dti_event i) \<and> guard_accepts (dti_guard i)
    \<and> deposit_transition (dti_state i) (dti_event i) = Some (de_next_state e)
    \<and> de_reservation_active e = deposit_reservation_active (de_next_state e)
    \<and> de_release_reservation e = (deposit_reservation_active (dti_state i)
        \<and> \<not> deposit_reservation_active (de_next_state e))
    \<and> de_charge_service_fee e = deposit_charge_service_fee (dti_state i) (dti_event i)
    \<and> (de_reservation_after e, de_reservation_add e, de_reservation_release e, de_fee_credit e,
        de_pending_liability_debit e, de_escrow_debit e, de_mint_supply_increase e)
      = deposit_transition_effects (dti_state i) (dti_event i) (dti_gross_amount i)
          (dti_net_amount i) (dti_service_fee i) (dti_reserved_amount i)"
  by (cases e) (auto simp: deposit_transition_decision_def Let_def split: option.splits prod.splits)

text \<open>The effects of the thirteen transitions of the machine: reservation after, added and
  released, fee credit, liability debit, escrow debit, supply increase.\<close>

lemma deposit_effects_table:
  "deposit_transition_effects 0 0 g n f r = (0, 0, 0, 0, 0, 0, 0)"
  "deposit_transition_effects 0 1 g n f r = (0, 0, 0, 0, 0, 0, 0)"
  "deposit_transition_effects 0 2 g n f r = (0, 0, 0, 0, 0, 0, 0)"
  "deposit_transition_effects 1 3 g n f r = (n, n, 0, 0, 0, 0, 0)"
  "deposit_transition_effects 1 4 g n f r = (0, 0, 0, 0, 0, 0, 0)"
  "deposit_transition_effects 2 4 g n f r = (0, 0, r, 0, 0, 0, 0)"
  "deposit_transition_effects 2 5 g n f r = (r, 0, 0, f, f, 0, 0)"
  "deposit_transition_effects 3 4 g n f r = (0, 0, r, 0, 0, 0, 0)"
  "deposit_transition_effects 3 6 g n f r = (0, 0, r, 0, if n = 0 then g else n, 0, n)"
  "deposit_transition_effects 4 6 g n f r = (0, 0, 0, 0, if n = 0 then g else n, 0, n)"
  "deposit_transition_effects 4 7 g n f r = (0, 0, 0, 0, 0, 0, 0)"
  "deposit_transition_effects 6 8 g n f r =
    (0, 0, 0, 0, if n = 0 then g else n, if n = 0 then g else n, 0)"
  "deposit_transition_effects 6 9 g n f r = (0, 0, 0, 0, 0, 0, 0)"
  by (simp_all add: deposit_transition_effects_def deposit_numeric_effects_body_def Let_def
      deposit_reservation_active_def deposit_charge_service_fee_def)

end
