(* ===== verification/Authorization.thy ===== *)
theory Authorization
  imports Core_Types
begin

text \<open>
  Mint authorizations (\<open>bridge-core/src/authorization.rs\<close>): the EIP-712 domain and message, the
  observation they were issued from, the evidence of expiry and of finalization, and the stored
  record with its two mutators.  A mutator returns its result together with the record it leaves
  behind.
\<close>

definition MINT_AUTHORIZATION_TTL_SECONDS :: u64 where
  "MINT_AUTHORIZATION_TTL_SECONDS = 15 * 60"

definition MINT_AUTHORIZATION_DOMAIN_NAME :: string where
  "MINT_AUTHORIZATION_DOMAIN_NAME = ''KINIC Bridge''"

definition MINT_AUTHORIZATION_DOMAIN_VERSION :: string where
  "MINT_AUTHORIZATION_DOMAIN_VERSION = ''1''"

record MintAuthorizationDomain =
  mad_name :: string
  mad_version :: string
  mad_chain_id :: u64
  mad_verifying_contract :: bytes

definition bridge_domain :: "u64 \<Rightarrow> bytes \<Rightarrow> MintAuthorizationDomain" where
  "bridge_domain chain_id verifying_contract =
    \<lparr> mad_name = MINT_AUTHORIZATION_DOMAIN_NAME, mad_version = MINT_AUTHORIZATION_DOMAIN_VERSION,
      mad_chain_id = chain_id, mad_verifying_contract = verifying_contract \<rparr>"

record MintAuthorization =
  ma_deposit_id :: bytes
  ma_recipient :: bytes
  ma_gross_amount :: Amount
  ma_max_service_fee :: Amount
  ma_charged_service_fee :: Amount
  ma_deadline :: u64
  ma_authorization_epoch :: u64

definition deadline_from_issued_at_timestamp :: "u64 \<Rightarrow> u64 option" where
  "deadline_from_issued_at_timestamp issued_at_timestamp =
    checked_add issued_at_timestamp MINT_AUTHORIZATION_TTL_SECONDS"

record MintAuthorizationOrigin =
  mao_finalized_block_number :: u64
  mao_finalized_block_hash :: bytes
  mao_finalized_block_timestamp :: u64
  mao_issued_at_timestamp :: u64

record MintExpiryEvidence =
  mee_deposit_id :: bytes
  mee_authorization_digest :: bytes
  mee_chain_id :: u64
  mee_verifying_contract :: bytes
  mee_deposit_processed :: bool
  mee_finalized_block_number :: u64
  mee_finalized_block_hash :: bytes
  mee_finalized_block_timestamp :: u64
  mee_bridge_signer :: bytes
  mee_mint_authorization_epoch :: u64
  mee_runtime_sha256 :: bytes
  mee_rpc_request_digest :: bytes
  mee_rpc_response_digest :: bytes

record MintFinalizationEvidence =
  mfe_deposit_id :: bytes
  mfe_recipient :: bytes
  mfe_authorization_digest :: bytes
  mfe_chain_id :: u64
  mfe_verifying_contract :: bytes
  mfe_gross_amount :: Amount
  mfe_charged_service_fee :: Amount
  mfe_minted_amount :: Amount
  mfe_transaction_hash :: bytes
  mfe_log_index :: u64
  mfe_receipt_succeeded :: bool
  mfe_receipt_block_number :: u64
  mfe_receipt_block_hash :: bytes
  mfe_finalized_block_number :: u64
  mfe_finalized_block_hash :: bytes
  mfe_rpc_request_digest :: bytes
  mfe_rpc_response_digest :: bytes

record MintAuthorizationRecord =
  mar_authorization :: MintAuthorization
  mar_domain :: MintAuthorizationDomain
  mar_digest :: bytes
  mar_origin :: MintAuthorizationOrigin
  mar_signature_dispatch_attempt :: u32
  mar_signature_dispatched :: bool
  mar_signature :: "bytes option"

definition dispatch_signature ::
    "MintAuthorizationRecord \<Rightarrow> u32 option \<times> MintAuthorizationRecord" where
  "dispatch_signature r =
    (if mar_signature r \<noteq> None then (None, r)
     else case checked_add (mar_signature_dispatch_attempt r) 1 of
       None \<Rightarrow> (None, r)
     | Some attempt \<Rightarrow>
         (Some attempt, r \<lparr> mar_signature_dispatch_attempt := attempt,
                            mar_signature_dispatched := True \<rparr>))"

definition install_signature ::
    "MintAuthorizationRecord \<Rightarrow> bytes \<Rightarrow> bool \<times> MintAuthorizationRecord" where
  "install_signature r signature =
    (if length signature \<noteq> 65 \<or> mar_signature r \<noteq> None \<or> \<not> mar_signature_dispatched r
     then (False, r)
     else (True, r \<lparr> mar_signature := Some signature \<rparr>))"

section \<open>Lemmas\<close>

text \<open>What a stored authorization record always satisfies: a signature is there only after a
  dispatch, it is 65 bytes long, and a dispatch has a positive attempt number.\<close>

definition authorization_record_wf :: "MintAuthorizationRecord \<Rightarrow> bool" where
  "authorization_record_wf r =
    ((case mar_signature r of None \<Rightarrow> True
      | Some s \<Rightarrow> length s = 65 \<and> mar_signature_dispatched r)
     \<and> (mar_signature_dispatched r \<longrightarrow> 0 < unat (mar_signature_dispatch_attempt r)))"

lemma dispatch_signature_wf:
  assumes "authorization_record_wf r"
  shows "authorization_record_wf (snd (dispatch_signature r))"
proof (cases "checked_add (mar_signature_dispatch_attempt r) 1")
  case (Some attempt)
  then have "unat attempt = unat (mar_signature_dispatch_attempt r) + 1"
    by (simp add: checked_add_eq_Some)
  then show ?thesis
    using assms Some
    by (auto simp: dispatch_signature_def authorization_record_wf_def split: option.splits)
qed (use assms in \<open>simp add: dispatch_signature_def\<close>)

lemma install_signature_wf:
  "authorization_record_wf r \<Longrightarrow> authorization_record_wf (snd (install_signature r sig))"
  by (auto simp: install_signature_def authorization_record_wf_def split: option.splits)

lemma deadline_exact:
  "deadline_from_issued_at_timestamp t = Some d \<longleftrightarrow> unat d = unat t + 900"
  by (auto simp: deadline_from_issued_at_timestamp_def MINT_AUTHORIZATION_TTL_SECONDS_def
      checked_add_eq_Some)

text \<open>A signature, once installed, is final.\<close>

lemma signature_write_once:
  assumes "mar_signature r = Some signature"
  shows "dispatch_signature r = (None, r)" and "install_signature r other = (False, r)"
  using assms by (simp_all add: dispatch_signature_def install_signature_def)

lemma dispatch_signature_fields:
  assumes "dispatch_signature r = (Some attempt, r')"
  shows "mar_signature r = None" and "mar_signature r' = None"
    and "unat attempt = unat (mar_signature_dispatch_attempt r) + 1"
    and "mar_signature_dispatch_attempt r' = attempt" and "mar_signature_dispatched r'"
    and "mar_authorization r' = mar_authorization r" and "mar_domain r' = mar_domain r"
    and "mar_digest r' = mar_digest r" and "mar_origin r' = mar_origin r"
  using assms
  by (auto simp: dispatch_signature_def checked_add_eq_Some split: if_splits option.splits)

lemma install_signature_fields:
  assumes "install_signature r signature = (True, r')"
  shows "mar_signature r = None" and "mar_signature r' = Some signature"
    and "length signature = 65" and "mar_signature_dispatched r"
    and "r' = r \<lparr> mar_signature := Some signature \<rparr>"
  using assms by (auto simp: install_signature_def split: if_splits)

end
