(* ===== verification/Event_Machine.thy ===== *)
theory Event_Machine
  imports Core_Types
begin

text \<open>
  The contract that the record state machines of the bridge share, as locales.

  A machine takes a record and an event and returns an error, which leaves the stored record as
  it was, or a result and the record to store.  \<open>record_machine\<close> asks that the machine keeps its
  invariant.  \<open>event_machine\<close> adds that an idempotent result changes nothing and that an accepted
  event delivered again is idempotent, and \<open>progressing_machine\<close> a rank that every applied event
  raises.  \<open>accounted_machine\<close> adds to \<open>record_machine\<close> a quantity of the record that every
  accepted event changes by exactly the credit it reports.  What follows for whole sequences of
  events is proved here once.
\<close>

type_synonym ('s, 'e, 'x, 'r) machine = "'s \<Rightarrow> 'e \<Rightarrow> 'x + ('r \<times> 's)"

definition deliver :: "('s, 'e, 'x, 'r) machine \<Rightarrow> 's \<Rightarrow> 'e \<Rightarrow> 's" where
  "deliver step s e = (case step s e of Inl _ \<Rightarrow> s | Inr (_, s') \<Rightarrow> s')"

definition run_events :: "('s, 'e, 'x, 'r) machine \<Rightarrow> 's \<Rightarrow> 'e list \<Rightarrow> 's" where
  "run_events step = foldl (deliver step)"

fun run_results :: "('s, 'e, 'x, 'r) machine \<Rightarrow> 's \<Rightarrow> 'e list \<Rightarrow> 'r list" where
  "run_results step s [] = []"
| "run_results step s (e # es) =
    (case step s e of
      Inl _ \<Rightarrow> run_results step s es
    | Inr (r, s') \<Rightarrow> r # run_results step s' es)"

definition applied_count :: "ApplyResult list \<Rightarrow> nat" where
  "applied_count rs = length (filter (\<lambda>r. ar_outcome r = Applied) rs)"

lemma run_events_simps [simp]:
  "run_events step s [] = s"
  "run_events step s (e # es) = run_events step (deliver step s e) es"
  by (simp_all add: run_events_def)

lemma run_events_append:
  "run_events step s (xs @ ys) = run_events step (run_events step s xs) ys"
  by (simp add: run_events_def)

lemma deliver_simps:
  "step s e = Inl x \<Longrightarrow> deliver step s e = s"
  "step s e = Inr (r, s') \<Longrightarrow> deliver step s e = s'"
  by (simp_all add: deliver_def)

locale record_machine =
  fixes step :: "('s, 'e, 'x, 'r) machine"
    and inv :: "'s \<Rightarrow> bool"
  assumes step_inv: "inv s \<Longrightarrow> step s e = Inr (r, s') \<Longrightarrow> inv s'"
begin

lemma deliver_inv: "inv s \<Longrightarrow> inv (deliver step s e)"
  by (auto simp: deliver_def intro: step_inv split: sum.splits)

lemma run_inv: "inv s \<Longrightarrow> inv (run_events step s es)"
  by (induction es arbitrary: s) (simp_all add: deliver_inv)

end

locale event_machine = record_machine step inv
  for step :: "('s, 'e, 'x, ApplyResult) machine" and inv :: "'s \<Rightarrow> bool" +
  assumes step_idempotent: "step s e = Inr (r, s') \<Longrightarrow> ar_outcome r = Idempotent \<Longrightarrow>
      r = result_idempotent \<and> s' = s"
    and step_replay: "inv s \<Longrightarrow> step s e = Inr (r, s') \<Longrightarrow>
      step s' e = Inr (result_idempotent, s')"
begin

lemma deliver_twice:
  assumes "inv s"
  shows "deliver step (deliver step s e) e = deliver step s e"
proof (cases "step s e")
  case (Inl x)
  then show ?thesis
    by (simp add: deliver_simps)
next
  case (Inr p)
  then obtain r s' where "step s e = Inr (r, s')"
    by (cases p) auto
  then show ?thesis
    using step_replay [OF assms] by (simp add: deliver_simps)
qed

lemma run_duplicates:
  "inv s \<Longrightarrow> run_events step s (remdups_adj es) = run_events step s es"
proof (induction es arbitrary: s rule: remdups_adj.induct)
  case (3 x y xs)
  show ?case
  proof (cases "x = y")
    case True
    then have "run_events step s (remdups_adj (x # y # xs)) = run_events step s (x # xs)"
      using "3.IH"(1) [OF True "3.prems"] by simp
    also have "\<dots> = run_events step s (x # y # xs)"
      using True deliver_twice [OF "3.prems", of x] by simp
    finally show ?thesis .
  next
    case False
    then show ?thesis
      using "3.IH"(2) [OF False deliver_inv [OF "3.prems"], of x] by simp
  qed
qed simp_all

end

locale progressing_machine = event_machine step inv
  for step :: "('s, 'e, 'x, ApplyResult) machine" and inv :: "'s \<Rightarrow> bool" +
  fixes rank :: "'s \<Rightarrow> nat" and top :: nat
  assumes rank_step: "inv s \<Longrightarrow> step s e = Inr (r, s') \<Longrightarrow> ar_outcome r = Applied \<Longrightarrow>
      rank s < rank s'"
    and rank_top: "inv s \<Longrightarrow> rank s \<le> top"
begin

lemma applied_rank:
  "inv s \<Longrightarrow> rank s + applied_count (run_results step s es) \<le> rank (run_events step s es)"
proof (induction es arbitrary: s)
  case (Cons e es)
  show ?case
  proof (cases "step s e")
    case (Inl x)
    then show ?thesis
      using Cons.IH [OF Cons.prems] by (simp add: deliver_simps)
  next
    case (Inr p)
    then obtain r s' where s': "step s e = Inr (r, s')"
      by (cases p) auto
    have ih: "rank s' + applied_count (run_results step s' es) \<le> rank (run_events step s' es)"
      using Cons.IH step_inv [OF Cons.prems s'] by blast
    show ?thesis
    proof (cases "ar_outcome r")
      case Applied
      then show ?thesis
        using ih rank_step [OF Cons.prems s' Applied]
        by (simp add: s' deliver_simps applied_count_def)
    next
      case Idempotent
      then have "s' = s"
        using step_idempotent [OF s'] by simp
      then show ?thesis
        using ih Idempotent by (simp add: s' deliver_simps applied_count_def)
    qed
  qed
qed (simp add: applied_count_def)

lemma applied_bounded:
  assumes "inv s"
  shows "rank s + applied_count (run_results step s es) \<le> top"
  using applied_rank [OF assms, of es] rank_top [OF run_inv [OF assms], of es] by linarith

end

locale accounted_machine = record_machine step inv
  for step :: "('s, 'e, 'x, 'r) machine" and inv :: "'s \<Rightarrow> bool" +
  fixes credit :: "'r \<Rightarrow> int" and level :: "'s \<Rightarrow> int"
  assumes level_step: "inv s \<Longrightarrow> step s e = Inr (r, s') \<Longrightarrow> level s' = level s + credit r"
begin

lemma run_level:
  "inv s \<Longrightarrow>
    level (run_events step s es) = level s + sum_list (map credit (run_results step s es))"
proof (induction es arbitrary: s)
  case (Cons e es)
  show ?case
  proof (cases "step s e")
    case (Inl x)
    then show ?thesis
      using Cons.IH [OF Cons.prems] by (simp add: deliver_simps)
  next
    case (Inr p)
    then obtain r s' where s': "step s e = Inr (r, s')"
      by (cases p) auto
    have "level (run_events step s' es) = level s' + sum_list (map credit (run_results step s' es))"
      using Cons.IH step_inv [OF Cons.prems s'] by blast
    then show ?thesis
      using level_step [OF Cons.prems s'] by (simp add: s' deliver_simps)
  qed
qed simp

end

end
