(* ===== verification/Deposit.thy ===== *)
theory Deposit
  imports Transfers Kernel_Deposit Kernel_Decisions Authorization External Event_Machine
begin

text \<open>
  The deposit record and its state machine (\<open>bridge-core/src/deposit.rs\<close>): a pull of the gross
  amount from the ledger, the commitment and signature of a mint authorization, and either the
  mint observed on Base or the refund on the ledger.

  \<open>deposit_apply\<close> is \<open>DepositRecord::apply\<close>.  Its body is long in the sources and is modelled in
  the order it runs: the ledger-block transition and the quantities handed to the kernel
  (\<open>deposit_transition_input\<close>), the match that computes the next record fields
  (\<open>deposit_next\<close>, one clause per state and event), the comparison of the result with the
  kernel's effects (\<open>deposit_effects_mismatch\<close>), and the commit.  \<open>deposit_transition_guard\<close> is
  \<open>transition_guard\<close>, one definition per kind of event.
\<close>

section \<open>Records\<close>

record DepositRequest =
  dq_id :: DepositId
  dq_payload_hash :: bytes
  dq_gross_amount :: Amount
  dq_user_max_service_fee :: Amount
  dq_transfer :: LedgerTransferIdentity

record DepositQuote =
  quote_service_fee :: Amount
  quote_net_amount :: Amount

definition quote_validate :: "DepositQuote \<Rightarrow> Amount \<Rightarrow> unit core_result" where
  "quote_validate q gross_amount =
    try_bind (if quote_net_amount q = 0 then Inr True
      else map_result (\<lambda>s. s \<noteq> gross_amount)
        (amount_checked_add (quote_net_amount q) (quote_service_fee q)))
      (\<lambda>invalid. if invalid then Inl InvalidAmount else Inr ())"

datatype DepositRefundReason =
    RR_BasePaused
  | RR_ServiceFeeRejected
  | RR_RefundAmountTooSmall
  | RR_InvalidRecipient
  | RR_PerDepositLimitExceeded
  | RR_MintWindowLimitExceeded
  | RR_AuthorizationExpired

datatype DepositState =
    DS_FundingPending
  | DS_EscrowedUnquoted u128
  | DS_AuthorizationPending u128
  | DS_AuthorizationAvailable u128
  | DS_RefundAvailable DepositRefundReason u128
  | DS_Minted u128
  | DS_FundingReconciliationHold HoldId
  | DS_RefundPending DepositRefundReason u128 TransferAttempt
  | DS_RefundReconciliationHold DepositRefundReason u128 HoldId TransferAttempt
  | DS_Refunded DepositRefundReason u128 TransferAttempt u128 "HoldId option"
  | DS_Cancelled "HoldId option" "u128 option" "LedgerFailure option"

datatype DepositEvent =
    DE_FundingSucceeded u128
  | DE_FundingAmbiguous HoldId
  | DE_FundingFailed LedgerFailure
  | DE_CommitAuthorization DepositQuote MintAuthorizationRecord
  | DE_AuthorizationSigned bytes u64
  | DE_MarkRefundAvailable DepositRefundReason "u64 option"
  | DE_MintReconciled MintFinalizationEvidence
  | DE_StartRefund DepositRefundReason TransferAttempt "MintExpiryEvidence option"
  | DE_RefundSucceeded u128
  | DE_RefundAmbiguous HoldId

record DepositRecord =
  dr_id :: DepositId
  dr_payload_hash :: bytes
  dr_gross_amount :: Amount
  dr_max_service_fee :: Amount
  dr_quote :: "DepositQuote option"
  dr_mint_authorization :: "MintAuthorizationRecord option"
  dr_mint_finalization_evidence :: "MintFinalizationEvidence option"
  dr_mint_expiry_evidence :: "MintExpiryEvidence option"
  dr_transfer :: LedgerTransferIdentity
  dr_state :: DepositState
  dr_last_settlement_stop_reason :: "string option"

definition deposit_state_code :: "DepositState \<Rightarrow> u8" where
  "deposit_state_code state = (case state of
      DS_FundingPending \<Rightarrow> 0
    | DS_EscrowedUnquoted _ \<Rightarrow> 1
    | DS_AuthorizationPending _ \<Rightarrow> 2
    | DS_AuthorizationAvailable _ \<Rightarrow> 3
    | DS_RefundAvailable _ _ \<Rightarrow> 4
    | DS_FundingReconciliationHold _ \<Rightarrow> 5
    | DS_RefundPending _ _ _ \<Rightarrow> 6
    | DS_RefundReconciliationHold _ _ _ _ \<Rightarrow> 7
    | DS_Refunded _ _ _ _ _ \<Rightarrow> 8
    | DS_Cancelled _ _ _ \<Rightarrow> 9
    | DS_Minted _ \<Rightarrow> 10)"

definition deposit_event_code :: "DepositEvent \<Rightarrow> u8" where
  "deposit_event_code event = (case event of
      DE_FundingSucceeded _ \<Rightarrow> 0
    | DE_FundingAmbiguous _ \<Rightarrow> 1
    | DE_FundingFailed _ \<Rightarrow> 2
    | DE_CommitAuthorization _ _ \<Rightarrow> 3
    | DE_MarkRefundAvailable _ _ \<Rightarrow> 4
    | DE_AuthorizationSigned _ _ \<Rightarrow> 5
    | DE_MintReconciled _ \<Rightarrow> 6
    | DE_StartRefund _ _ _ \<Rightarrow> 7
    | DE_RefundSucceeded _ \<Rightarrow> 8
    | DE_RefundAmbiguous _ \<Rightarrow> 9)"

definition deposit_event_name :: "DepositEvent \<Rightarrow> string" where
  "deposit_event_name event = (case event of
      DE_FundingSucceeded _ \<Rightarrow> ''funding_succeeded''
    | DE_FundingAmbiguous _ \<Rightarrow> ''funding_ambiguous''
    | DE_FundingFailed _ \<Rightarrow> ''funding_failed''
    | DE_CommitAuthorization _ _ \<Rightarrow> ''commit_authorization''
    | DE_AuthorizationSigned _ _ \<Rightarrow> ''authorization_signed''
    | DE_MarkRefundAvailable _ _ \<Rightarrow> ''mark_refund_available''
    | DE_MintReconciled _ \<Rightarrow> ''mint_reconciled''
    | DE_StartRefund _ _ _ \<Rightarrow> ''start_refund''
    | DE_RefundSucceeded _ \<Rightarrow> ''refund_succeeded''
    | DE_RefundAmbiguous _ \<Rightarrow> ''refund_ambiguous'')"

section \<open>Admission and reservation\<close>

definition deposit_accept :: "DepositRequest \<Rightarrow> DepositRecord core_result" where
  "deposit_accept request =
    (if lt_operation (dq_transfer request) \<noteq> PullDeposit then Inl InvalidLedgerOperation
     else if lt_amount (dq_transfer request) \<noteq> dq_gross_amount request
         \<or> dq_gross_amount request = 0 then Inl InvalidAmount
     else Inr \<lparr> dr_id = dq_id request,
            dr_payload_hash = dq_payload_hash request,
            dr_gross_amount = dq_gross_amount request,
            dr_max_service_fee = dq_user_max_service_fee request,
            dr_quote = None, dr_mint_authorization = None,
            dr_mint_finalization_evidence = None, dr_mint_expiry_evidence = None,
            dr_transfer = dq_transfer request,
            dr_state = DS_FundingPending,
            dr_last_settlement_stop_reason = None \<rparr>)"

definition deposit_verify_retry :: "DepositRecord \<Rightarrow> bytes \<Rightarrow> unit core_result" where
  "deposit_verify_retry d payload_hash =
    (if \<not> replay_matches (dr_payload_hash d = payload_hash) then Inl PayloadConflict else Inr ())"

definition reserves_mint_resources :: "DepositRecord \<Rightarrow> bool" where
  "reserves_mint_resources d = deposit_reservation_active (deposit_state_code (dr_state d))"

definition reserved_mint_amount :: "DepositRecord \<Rightarrow> Amount core_result" where
  "reserved_mint_amount d =
    (if \<not> reserves_mint_resources d then Inr 0
     else ok_or (InvalidTransition ''deposit'' ''missing_quote'')
       (map_option quote_net_amount (dr_quote d)))"

section \<open>Ledger blocks\<close>

definition state_ledger_blocks :: "DepositState \<Rightarrow> u128 option \<times> u128 option" where
  "state_ledger_blocks state = (case state of
      DS_EscrowedUnquoted f \<Rightarrow> (Some f, None)
    | DS_AuthorizationPending f \<Rightarrow> (Some f, None)
    | DS_AuthorizationAvailable f \<Rightarrow> (Some f, None)
    | DS_RefundAvailable _ f \<Rightarrow> (Some f, None)
    | DS_Minted f \<Rightarrow> (Some f, None)
    | DS_RefundPending _ f _ \<Rightarrow> (Some f, None)
    | DS_RefundReconciliationHold _ f _ _ \<Rightarrow> (Some f, None)
    | DS_Refunded _ f _ r _ \<Rightarrow> (Some f, Some r)
    | DS_FundingPending \<Rightarrow> (None, None)
    | DS_FundingReconciliationHold _ \<Rightarrow> (None, None)
    | DS_Cancelled _ _ _ \<Rightarrow> (None, None))"

definition funding_ledger_block_index :: "DepositRecord \<Rightarrow> u128 option" where
  "funding_ledger_block_index d = fst (state_ledger_blocks (dr_state d))"

section \<open>Guards\<close>

definition authorization_signed :: "DepositRecord \<Rightarrow> bool" where
  "authorization_signed d = (case dr_mint_authorization d of
      None \<Rightarrow> False | Some record \<Rightarrow> mar_signature record \<noteq> None)"

definition expiry_evidence_matches :: "DepositRecord \<Rightarrow> MintExpiryEvidence \<Rightarrow> bool" where
  "expiry_evidence_matches d evidence = (case dr_mint_authorization d of
      None \<Rightarrow> False
    | Some authorization \<Rightarrow>
        let binding_matches =
          mee_authorization_digest evidence = mar_digest authorization
          \<and> mee_deposit_id evidence = ma_deposit_id (mar_authorization authorization)
          \<and> mee_chain_id evidence = mad_chain_id (mar_domain authorization)
          \<and> mee_verifying_contract evidence = mad_verifying_contract (mar_domain authorization)
          \<and> mao_finalized_block_number (mar_origin authorization)
              \<le> mee_finalized_block_number evidence
          \<and> mee_finalized_block_hash evidence \<noteq> replicate 32 0
          \<and> mee_runtime_sha256 evidence \<noteq> replicate 32 0
          \<and> mee_rpc_request_digest evidence \<noteq> replicate 32 0
          \<and> mee_rpc_response_digest evidence \<noteq> replicate 32 0
        in expiry_refund_allowed binding_matches (mee_deposit_processed evidence)
          (mee_finalized_block_timestamp evidence)
          (ma_deadline (mar_authorization authorization)))"

definition commit_fixed_fields_match ::
    "DepositRecord \<Rightarrow> DepositQuote \<Rightarrow> MintAuthorizationRecord \<Rightarrow> bool" where
  "commit_fixed_fields_match d q record =
    (ma_deposit_id (mar_authorization record) = dr_id d
     \<and> ma_recipient (mar_authorization record) \<noteq> replicate 20 0
     \<and> ma_gross_amount (mar_authorization record) = dr_gross_amount d
     \<and> ma_max_service_fee (mar_authorization record) = dr_max_service_fee d
     \<and> ma_charged_service_fee (mar_authorization record) = quote_service_fee q
     \<and> mad_chain_id (mar_domain record) \<noteq> 0
     \<and> mad_verifying_contract (mar_domain record) \<noteq> replicate 20 0
     \<and> mar_digest record \<noteq> replicate 32 0
     \<and> mao_finalized_block_hash (mar_origin record) \<noteq> replicate 32 0
     \<and> ma_authorization_epoch (mar_authorization record) \<noteq> 0)"

definition commit_guard ::
    "DepositRecord \<Rightarrow> DepositQuote \<Rightarrow> MintAuthorizationRecord
      \<Rightarrow> DepositEventGuard \<times> CoreError option" where
  "commit_guard d q record =
    (let quote_result = quote_validate q (dr_gross_amount d);
         issued = checked_add (mao_issued_at_timestamp (mar_origin record))
           MINT_AUTHORIZATION_TTL_SECONDS;
         canonical_domain_strings =
           (mad_name (mar_domain record) = MINT_AUTHORIZATION_DOMAIN_NAME
            \<and> mad_version (mar_domain record) = MINT_AUTHORIZATION_DOMAIN_VERSION);
         deadline_valid = (issued = Some (ma_deadline (mar_authorization record)));
         pristine = (mar_signature record = None \<and> \<not> mar_signature_dispatched record
           \<and> mar_signature_dispatch_attempt record = 0);
         guard = Guard_CommitAuthorization (quote_result = Inr ())
           (commit_fixed_fields_match d q record) canonical_domain_strings deadline_valid pristine
     in (guard,
         if guard_accepts guard then None
         else Some (case quote_result of
             Inl err \<Rightarrow> err
           | Inr _ \<Rightarrow> if \<not> deadline_valid \<and> issued = None then ArithmeticOverflow
               else ConflictingReplay)))"

definition signature_guard ::
    "DepositRecord \<Rightarrow> bytes \<Rightarrow> u64 \<Rightarrow> DepositEventGuard \<times> CoreError option" where
  "signature_guard d signature observed_timestamp =
    (let authorization = dr_mint_authorization d;
         guard = Guard_InstallSignature
           (case authorization of None \<Rightarrow> False | Some r \<Rightarrow> mar_signature_dispatched r)
           (case authorization of None \<Rightarrow> False | Some r \<Rightarrow> mar_signature r = None)
           (length signature = 65) observed_timestamp
           (case authorization of None \<Rightarrow> 0 | Some r \<Rightarrow> ma_deadline (mar_authorization r))
     in (guard, if guard_accepts guard then None else Some ConflictingReplay))"

definition refund_available_allowed ::
    "DepositRecord \<Rightarrow> DepositRefundReason \<Rightarrow> u64 option \<Rightarrow> bool" where
  "refund_available_allowed d reason finalized_timestamp =
    (let deadline = map_option (\<lambda>r. ma_deadline (mar_authorization r)) (dr_mint_authorization d);
         expired = (\<lambda>t. case deadline of None \<Rightarrow> False | Some dl \<Rightarrow> dl < t)
     in case (dr_state d, finalized_timestamp) of
       (DS_EscrowedUnquoted _, None) \<Rightarrow> reason \<noteq> RR_AuthorizationExpired
     | (DS_AuthorizationPending _, Some t) \<Rightarrow> reason = RR_AuthorizationExpired \<and> expired t
     | (DS_AuthorizationAvailable _, Some t) \<Rightarrow> reason = RR_AuthorizationExpired \<and> expired t
     | (DS_AuthorizationPending _, None) \<Rightarrow>
         (reason = RR_RefundAmountTooSmall \<or> reason = RR_InvalidRecipient)
         \<and> (case dr_mint_authorization d of None \<Rightarrow> False | Some r \<Rightarrow> mar_signature r = None)
     | _ \<Rightarrow> False)"

definition mint_fixed_fields_match :: "DepositRecord \<Rightarrow> MintFinalizationEvidence \<Rightarrow> bool" where
  "mint_fixed_fields_match d evidence = (case dr_mint_authorization d of
      None \<Rightarrow> False
    | Some r \<Rightarrow>
        mar_signature r \<noteq> None
        \<and> mfe_authorization_digest evidence = mar_digest r
        \<and> mfe_deposit_id evidence = ma_deposit_id (mar_authorization r)
        \<and> mfe_recipient evidence = ma_recipient (mar_authorization r)
        \<and> mfe_chain_id evidence = mad_chain_id (mar_domain r)
        \<and> mfe_verifying_contract evidence = mad_verifying_contract (mar_domain r)
        \<and> mfe_gross_amount evidence = ma_gross_amount (mar_authorization r)
        \<and> mfe_charged_service_fee evidence = ma_charged_service_fee (mar_authorization r)
        \<and> amount_checked_sub (ma_gross_amount (mar_authorization r))
              (ma_charged_service_fee (mar_authorization r))
            = Inr (mfe_minted_amount evidence))"

definition mint_guard ::
    "DepositRecord \<Rightarrow> MintFinalizationEvidence \<Rightarrow> DepositEventGuard \<times> CoreError option" where
  "mint_guard d evidence =
    (let origin_inclusion = (case dr_mint_authorization d of
           None \<Rightarrow> False
         | Some r \<Rightarrow> mao_finalized_block_number (mar_origin r) \<le> mfe_receipt_block_number evidence);
         audit_complete =
           (mfe_transaction_hash evidence \<noteq> replicate 32 0
            \<and> mfe_receipt_block_hash evidence \<noteq> replicate 32 0
            \<and> mfe_finalized_block_hash evidence \<noteq> replicate 32 0
            \<and> mfe_rpc_request_digest evidence \<noteq> replicate 32 0
            \<and> mfe_rpc_response_digest evidence \<noteq> replicate 32 0);
         guard = Guard_MintFinalization (mint_fixed_fields_match d evidence \<and> origin_inclusion)
           (mfe_receipt_succeeded evidence) (mfe_receipt_block_number evidence)
           (mfe_finalized_block_number evidence) audit_complete
     in (guard, if guard_accepts guard then None else Some ConflictingReplay))"

definition refund_attempt_matches :: "DepositRecord \<Rightarrow> TransferAttempt \<Rightarrow> bool" where
  "refund_attempt_matches d attempt =
    (let identity = ta_identity attempt;
         service_fee = (if authorization_signed d
           then (case dr_quote d of None \<Rightarrow> 0 | Some q \<Rightarrow> quote_service_fee q) else 0)
     in ta_attempt_no attempt = 0
        \<and> lt_operation identity = RefundDeposit
        \<and> lt_spender identity = None
        \<and> lt_from identity = lt_to (dr_transfer d)
        \<and> lt_to identity = lt_from (dr_transfer d)
        \<and> try_bind (amount_checked_add (lt_amount identity) (lt_fee identity))
            (\<lambda>amount. amount_checked_add amount service_fee) = Inr (dr_gross_amount d))"

definition refund_policy_matches ::
    "DepositRecord \<Rightarrow> DepositRefundReason \<Rightarrow> MintExpiryEvidence option \<Rightarrow> bool" where
  "refund_policy_matches d reason expiry_evidence =
    (case (dr_state d, expiry_evidence) of
      (DS_RefundAvailable expected _, Some evidence) \<Rightarrow>
        reason = RR_AuthorizationExpired \<and> authorization_signed d
        \<and> expected = RR_AuthorizationExpired \<and> expiry_evidence_matches d evidence
    | (DS_RefundAvailable expected _, None) \<Rightarrow> \<not> authorization_signed d \<and> expected = reason
    | _ \<Rightarrow> False)"

definition start_refund_guard ::
    "DepositRecord \<Rightarrow> DepositRefundReason \<Rightarrow> TransferAttempt \<Rightarrow> MintExpiryEvidence option
      \<Rightarrow> DepositEventGuard \<times> CoreError option" where
  "start_refund_guard d reason attempt expiry_evidence =
    (let guard = Guard_StartRefund (refund_attempt_matches d attempt)
           (refund_policy_matches d reason expiry_evidence)
     in (guard, if guard_accepts guard then None else Some RefundIneligible))"

definition deposit_transition_guard ::
    "DepositRecord \<Rightarrow> DepositEvent \<Rightarrow> DepositEventGuard \<times> CoreError option" where
  "deposit_transition_guard d event = (case event of
      DE_FundingSucceeded _ \<Rightarrow> (Guard_Funding, None)
    | DE_FundingAmbiguous _ \<Rightarrow> (Guard_Funding, None)
    | DE_FundingFailed _ \<Rightarrow> (Guard_Funding, None)
    | DE_CommitAuthorization q record \<Rightarrow> commit_guard d q record
    | DE_AuthorizationSigned signature observed_timestamp \<Rightarrow>
        signature_guard d signature observed_timestamp
    | DE_MarkRefundAvailable reason finalized_timestamp \<Rightarrow>
        (Guard_MarkRefundAvailable (refund_available_allowed d reason finalized_timestamp), None)
    | DE_MintReconciled evidence \<Rightarrow> mint_guard d evidence
    | DE_StartRefund reason attempt expiry_evidence \<Rightarrow>
        start_refund_guard d reason attempt expiry_evidence
    | DE_RefundSucceeded _ \<Rightarrow> (Guard_RefundResult, None)
    | DE_RefundAmbiguous _ \<Rightarrow> (Guard_RefundResult, None))"

definition deposit_is_idempotent :: "DepositRecord \<Rightarrow> DepositEvent \<Rightarrow> bool" where
  "deposit_is_idempotent d event = (case (dr_state d, event) of
      (_, DE_FundingSucceeded block) \<Rightarrow> funding_ledger_block_index d = Some block
    | (DS_FundingReconciliationHold current, DE_FundingAmbiguous hold_id) \<Rightarrow> current = hold_id
    | (DS_Cancelled None None (Some current), DE_FundingFailed code) \<Rightarrow> current = code
    | (DS_AuthorizationPending _, DE_CommitAuthorization q authorization) \<Rightarrow>
        dr_quote d = Some q \<and> dr_mint_authorization d = Some authorization
    | (DS_AuthorizationAvailable _, DE_CommitAuthorization q authorization) \<Rightarrow>
        dr_quote d = Some q \<and> dr_mint_authorization d = Some authorization
    | (DS_RefundAvailable _ _, DE_CommitAuthorization q authorization) \<Rightarrow>
        dr_quote d = Some q \<and> dr_mint_authorization d = Some authorization
    | (DS_Minted _, DE_CommitAuthorization q authorization) \<Rightarrow>
        dr_quote d = Some q \<and> dr_mint_authorization d = Some authorization
    | (DS_AuthorizationAvailable _, DE_AuthorizationSigned signature _) \<Rightarrow>
        Option.bind (dr_mint_authorization d) mar_signature = Some signature
    | (DS_RefundAvailable current _, DE_MarkRefundAvailable reason _) \<Rightarrow> current = reason
    | (DS_Minted _, DE_MintReconciled evidence) \<Rightarrow>
        dr_mint_finalization_evidence d = Some evidence
    | (DS_RefundPending current_reason _ current_attempt,
        DE_StartRefund reason attempt expiry_evidence) \<Rightarrow>
        current_reason = reason \<and> current_attempt = attempt
        \<and> dr_mint_expiry_evidence d = expiry_evidence
    | (DS_Refunded _ _ _ current None, DE_RefundSucceeded block) \<Rightarrow> current = block
    | (DS_RefundReconciliationHold _ _ current _, DE_RefundAmbiguous hold_id) \<Rightarrow>
        current = hold_id
    | _ \<Rightarrow> False)"

section \<open>Application of an event\<close>

definition deposit_ledger_event :: "DepositEvent \<Rightarrow> u8 \<times> u128" where
  "deposit_ledger_event event = (case event of
      DE_FundingSucceeded block \<Rightarrow> (1, block)
    | DE_RefundSucceeded block \<Rightarrow> (2, block)
    | _ \<Rightarrow> (0, 0))"

definition deposit_transition_input ::
    "DepositRecord \<Rightarrow> DepositEvent \<Rightarrow> u128 \<Rightarrow> DepositTransitionInput" where
  "deposit_transition_input d event reserved_amount =
    (let transition_quote = (case event of
           DE_CommitAuthorization q _ \<Rightarrow> Some q | _ \<Rightarrow> dr_quote d);
         authorization_issued = (authorization_signed d
           \<or> (case event of DE_AuthorizationSigned _ _ \<Rightarrow> True | _ \<Rightarrow> False));
         service_fee = (if authorization_issued
           then (case transition_quote of None \<Rightarrow> 0 | Some q \<Rightarrow> quote_service_fee q) else 0);
         refunding = (case event of
           DE_StartRefund _ _ _ \<Rightarrow> True | DE_RefundSucceeded _ \<Rightarrow> True | _ \<Rightarrow> False);
         net_amount = (if refunding \<and> \<not> authorization_issued then dr_gross_amount d
           else (case transition_quote of None \<Rightarrow> 0 | Some q \<Rightarrow> quote_net_amount q))
     in \<lparr> dti_state = deposit_state_code (dr_state d),
          dti_event = deposit_event_code event,
          dti_guard = fst (deposit_transition_guard d event),
          dti_same_payload = deposit_is_idempotent d event,
          dti_gross_amount = dr_gross_amount d,
          dti_net_amount = net_amount,
          dti_service_fee = service_fee,
          dti_reserved_amount = reserved_amount \<rparr>)"

type_synonym deposit_update =
  "DepositState \<times> DepositQuote option \<times> MintAuthorizationRecord option
    \<times> MintFinalizationEvidence option \<times> MintExpiryEvidence option \<times> Amount"

definition deposit_kept :: "DepositRecord \<Rightarrow> DepositState \<Rightarrow> deposit_update" where
  "deposit_kept d state =
    (state, dr_quote d, dr_mint_authorization d, dr_mint_finalization_evidence d,
     dr_mint_expiry_evidence d, 0)"

definition deposit_next_signed ::
    "DepositRecord \<Rightarrow> u128 \<Rightarrow> bytes \<Rightarrow> deposit_update core_result" where
  "deposit_next_signed d funding signature =
    try_bind (ok_or (InvalidTransition ''deposit'' ''missing_authorization'')
      (dr_mint_authorization d)) (\<lambda>authorization.
    case install_signature authorization signature of
      (False, _) \<Rightarrow> Inl ConflictingReplay
    | (True, installed) \<Rightarrow>
        try_bind (ok_or InvalidAmount (dr_quote d)) (\<lambda>q.
        Inr (DS_AuthorizationAvailable funding, dr_quote d, Some installed,
             dr_mint_finalization_evidence d, dr_mint_expiry_evidence d, quote_service_fee q)))"

definition deposit_next :: "DepositRecord \<Rightarrow> DepositEvent \<Rightarrow> deposit_update core_result" where
  "deposit_next d event = (case (dr_state d, event) of
      (DS_FundingPending, DE_FundingSucceeded block) \<Rightarrow>
        Inr (DS_EscrowedUnquoted block, None, None, None, None, 0)
    | (DS_FundingPending, DE_FundingAmbiguous hold_id) \<Rightarrow>
        Inr (DS_FundingReconciliationHold hold_id, None, None, None, None, 0)
    | (DS_FundingPending, DE_FundingFailed code) \<Rightarrow>
        Inr (DS_Cancelled None None (Some code), None, None, None, None, 0)
    | (DS_EscrowedUnquoted f, DE_CommitAuthorization q authorization) \<Rightarrow>
        Inr (DS_AuthorizationPending f, Some q, Some authorization, None, None, 0)
    | (DS_AuthorizationPending f, DE_AuthorizationSigned signature _) \<Rightarrow>
        deposit_next_signed d f signature
    | (DS_EscrowedUnquoted f, DE_MarkRefundAvailable reason _) \<Rightarrow>
        Inr (deposit_kept d (DS_RefundAvailable reason f))
    | (DS_AuthorizationPending f, DE_MarkRefundAvailable reason _) \<Rightarrow>
        Inr (deposit_kept d (DS_RefundAvailable reason f))
    | (DS_AuthorizationAvailable f, DE_MarkRefundAvailable reason _) \<Rightarrow>
        Inr (deposit_kept d (DS_RefundAvailable reason f))
    | (DS_AuthorizationAvailable f, DE_MintReconciled evidence) \<Rightarrow>
        Inr (DS_Minted f, dr_quote d, dr_mint_authorization d, Some evidence, None, 0)
    | (DS_RefundAvailable _ f, DE_MintReconciled evidence) \<Rightarrow>
        Inr (DS_Minted f, dr_quote d, dr_mint_authorization d, Some evidence, None, 0)
    | (DS_RefundAvailable _ f, DE_StartRefund reason attempt expiry_evidence) \<Rightarrow>
        Inr (DS_RefundPending reason f attempt, dr_quote d, dr_mint_authorization d,
             dr_mint_finalization_evidence d, expiry_evidence, 0)
    | (DS_RefundPending reason f attempt, DE_RefundSucceeded block) \<Rightarrow>
        Inr (deposit_kept d (DS_Refunded reason f attempt block None))
    | (DS_RefundPending reason f attempt, DE_RefundAmbiguous hold_id) \<Rightarrow>
        Inr (deposit_kept d (DS_RefundReconciliationHold reason f hold_id attempt))
    | (_, other) \<Rightarrow> Inl (InvalidTransition ''deposit'' (deposit_event_name other)))"

definition deposit_effects_mismatch ::
    "DepositRecord \<Rightarrow> deposit_update \<Rightarrow> DepositEffects \<Rightarrow> bool" where
  "deposit_effects_mismatch d u effects =
    (case u of (next_state, next_quote, _, _, _, fee_delta) \<Rightarrow>
      let next_reservation_active = deposit_reservation_active (deposit_state_code next_state);
          net = (case next_quote of None \<Rightarrow> 0 | Some q \<Rightarrow> quote_net_amount q)
      in deposit_state_code next_state \<noteq> de_next_state effects
         \<or> next_reservation_active \<noteq> de_reservation_active effects
         \<or> (reserves_mint_resources d \<and> \<not> next_reservation_active)
             \<noteq> de_release_reservation effects
         \<or> (if next_reservation_active then net else 0) \<noteq> de_reservation_after effects
         \<or> (if \<not> reserves_mint_resources d \<and> next_reservation_active then net else 0)
             \<noteq> de_reservation_add effects
         \<or> fee_delta \<noteq> de_fee_credit effects)"

definition deposit_commit :: "DepositRecord \<Rightarrow> deposit_update \<Rightarrow> DepositRecord" where
  "deposit_commit d u = (case u of
    (next_state, next_quote, next_authorization, next_finalization, next_expiry, _) \<Rightarrow>
      d \<lparr> dr_state := next_state, dr_quote := next_quote,
          dr_mint_authorization := next_authorization,
          dr_mint_finalization_evidence := next_finalization,
          dr_mint_expiry_evidence := next_expiry \<rparr>)"

definition deposit_accounting_effects :: "DepositEffects \<Rightarrow> DepositAccountingEffects" where
  "deposit_accounting_effects effects =
    \<lparr> dae_reservation_after = de_reservation_after effects,
      dae_reservation_add = de_reservation_add effects,
      dae_reservation_release = de_reservation_release effects,
      dae_fee_credit = de_fee_credit effects,
      dae_pending_liability_debit = de_pending_liability_debit effects,
      dae_escrow_debit = de_escrow_debit effects,
      dae_mint_supply_increase = de_mint_supply_increase effects \<rparr>"

definition deposit_apply ::
    "DepositRecord \<Rightarrow> DepositEvent \<Rightarrow> (ApplyResult \<times> DepositRecord) core_result" where
  "deposit_apply d event =
    try_bind (ok_or LedgerBlockConflict
      (deposit_ledger_block_transition (fst (state_ledger_blocks (dr_state d)))
        (snd (state_ledger_blocks (dr_state d))) (fst (deposit_ledger_event event))
        (snd (deposit_ledger_event event)))) (\<lambda>expected_ledger_blocks.
    try_bind (reserved_mint_amount d) (\<lambda>reserved_amount.
    case deposit_transition_decision (deposit_transition_input d event reserved_amount) of
      DTD_Idempotent \<Rightarrow> Inr (result_idempotent, d)
    | DTD_Reject \<Rightarrow>
        Inl (case snd (deposit_transition_guard d event) of
            Some guard_error \<Rightarrow> guard_error
          | None \<Rightarrow> InvalidTransition ''deposit'' (deposit_event_name event))
    | DTD_Apply expected_effects \<Rightarrow>
        try_bind (deposit_next d event) (\<lambda>u.
        if state_ledger_blocks (fst u) \<noteq> expected_ledger_blocks
        then Inl (InvalidTransition ''deposit'' ''ledger_block_effect_mismatch'')
        else if deposit_effects_mismatch d u expected_effects
        then Inl (InvalidTransition ''deposit'' ''transition_effect_mismatch'')
        else Inr (result_applied_deposit (deposit_accounting_effects expected_effects),
                  deposit_commit d u))))"

text \<open>The other change the canister makes to a stored deposit: before the threshold signature is
  requested, the dispatch is recorded on the authorization if the deadline has not passed.\<close>

definition deposit_dispatch :: "DepositRecord \<Rightarrow> u64 \<Rightarrow> DepositRecord option" where
  "deposit_dispatch d dispatch_observed_timestamp =
    (case dr_mint_authorization d of
      None \<Rightarrow> None
    | Some authorization \<Rightarrow>
        if \<not> mint_authorization_before_deadline dispatch_observed_timestamp
            (ma_deadline (mar_authorization authorization)) then None
        else (case dispatch_signature authorization of
            (None, _) \<Rightarrow> None
          | (Some _, dispatched) \<Rightarrow> Some (d \<lparr> dr_mint_authorization := Some dispatched \<rparr>)))"

datatype deposit_action = Deliver DepositEvent | Dispatch u64

definition deposit_act ::
    "DepositRecord \<Rightarrow> deposit_action \<Rightarrow> CoreError option + (ApplyResult option \<times> DepositRecord)" where
  "deposit_act d action = (case action of
      Deliver event \<Rightarrow> (case deposit_apply d event of
          Inl err \<Rightarrow> Inl (Some err)
        | Inr (r, d') \<Rightarrow> Inr (Some r, d'))
    | Dispatch t \<Rightarrow> (case deposit_dispatch d t of
          None \<Rightarrow> Inl None
        | Some d' \<Rightarrow> Inr (None, d')))"

section \<open>Invariant\<close>

text \<open>The stored authorization is the committed one: it is bound to the record and the quote, its
  domain is the bridge's, and its deadline is fifteen minutes after it was issued.\<close>

definition authorization_bound ::
    "DepositRecord \<Rightarrow> DepositQuote \<Rightarrow> MintAuthorizationRecord \<Rightarrow> bool" where
  "authorization_bound d q r =
    (commit_fixed_fields_match d q r
     \<and> 0 < unat (quote_net_amount q)
     \<and> unat (dr_gross_amount d) = unat (quote_net_amount q) + unat (quote_service_fee q)
     \<and> mad_name (mar_domain r) = MINT_AUTHORIZATION_DOMAIN_NAME
     \<and> mad_version (mar_domain r) = MINT_AUTHORIZATION_DOMAIN_VERSION
     \<and> unat (ma_deadline (mar_authorization r))
         = unat (mao_issued_at_timestamp (mar_origin r)) + 900
     \<and> authorization_record_wf r)"

definition deposit_quoted :: "DepositRecord \<Rightarrow> bool \<Rightarrow> bool" where
  "deposit_quoted d is_signed =
    (case (dr_quote d, dr_mint_authorization d) of
      (Some q, Some r) \<Rightarrow> authorization_bound d q r \<and> (mar_signature r \<noteq> None) = is_signed
    | _ \<Rightarrow> False)"

definition deposit_unquoted :: "DepositRecord \<Rightarrow> bool" where
  "deposit_unquoted d = (dr_quote d = None \<and> dr_mint_authorization d = None)"

definition no_evidence :: "DepositRecord \<Rightarrow> bool" where
  "no_evidence d = (dr_mint_finalization_evidence d = None \<and> dr_mint_expiry_evidence d = None)"

text \<open>What the escrow still owes for a funded deposit: the net amount once the fee has been
  charged, the gross amount before.\<close>

definition deposit_outstanding :: "DepositRecord \<Rightarrow> Amount" where
  "deposit_outstanding d = (if authorization_signed d
    then (case dr_quote d of None \<Rightarrow> 0 | Some q \<Rightarrow> quote_net_amount q) else dr_gross_amount d)"

definition refund_pays :: "DepositRecord \<Rightarrow> TransferAttempt \<Rightarrow> bool" where
  "refund_pays d attempt =
    (lt_operation (ta_identity attempt) = RefundDeposit
     \<and> lt_spender (ta_identity attempt) = None
     \<and> lt_from (ta_identity attempt) = lt_to (dr_transfer d)
     \<and> lt_to (ta_identity attempt) = lt_from (dr_transfer d)
     \<and> unat (lt_amount (ta_identity attempt)) + unat (lt_fee (ta_identity attempt))
         = unat (deposit_outstanding d))"

definition refundable :: "DepositRecord \<Rightarrow> DepositRefundReason \<Rightarrow> bool" where
  "refundable d reason =
    ((deposit_unquoted d \<and> reason \<noteq> RR_AuthorizationExpired)
     \<or> deposit_quoted d False \<or> (deposit_quoted d True \<and> reason = RR_AuthorizationExpired))"

text \<open>A refund under way carries, exactly when a signature had been issued, the proof that the
  authorization expired unused.\<close>

definition refund_started :: "DepositRecord \<Rightarrow> DepositRefundReason \<Rightarrow> TransferAttempt \<Rightarrow> bool" where
  "refund_started d reason attempt =
    (refundable d reason \<and> dr_mint_finalization_evidence d = None \<and> refund_pays d attempt
     \<and> (case dr_mint_expiry_evidence d of
          None \<Rightarrow> \<not> authorization_signed d
        | Some evidence \<Rightarrow> authorization_signed d \<and> expiry_evidence_matches d evidence))"

definition deposit_wf :: "DepositRecord \<Rightarrow> bool" where
  "deposit_wf d =
    (0 < unat (dr_gross_amount d)
     \<and> lt_operation (dr_transfer d) = PullDeposit
     \<and> lt_amount (dr_transfer d) = dr_gross_amount d
     \<and> (case dr_state d of
          DS_FundingPending \<Rightarrow> deposit_unquoted d \<and> no_evidence d
        | DS_EscrowedUnquoted _ \<Rightarrow> deposit_unquoted d \<and> no_evidence d
        | DS_FundingReconciliationHold _ \<Rightarrow> deposit_unquoted d \<and> no_evidence d
        | DS_Cancelled _ _ _ \<Rightarrow> deposit_unquoted d \<and> no_evidence d
        | DS_AuthorizationPending _ \<Rightarrow> deposit_quoted d False \<and> no_evidence d
        | DS_AuthorizationAvailable _ \<Rightarrow> deposit_quoted d True \<and> no_evidence d
        | DS_RefundAvailable reason _ \<Rightarrow> refundable d reason \<and> no_evidence d
        | DS_Minted _ \<Rightarrow> deposit_quoted d True \<and> dr_mint_expiry_evidence d = None
            \<and> (case dr_mint_finalization_evidence d of
                None \<Rightarrow> False | Some evidence \<Rightarrow> mint_fixed_fields_match d evidence)
        | DS_RefundPending reason _ attempt \<Rightarrow> refund_started d reason attempt
        | DS_RefundReconciliationHold reason _ _ attempt \<Rightarrow> refund_started d reason attempt
        | DS_Refunded reason _ attempt _ _ \<Rightarrow> refund_started d reason attempt))"

section \<open>Transitions as a relation\<close>

definition reservation_of :: "DepositRecord \<Rightarrow> Amount" where
  "reservation_of d = (if reserves_mint_resources d
    then (case dr_quote d of None \<Rightarrow> 0 | Some q \<Rightarrow> quote_net_amount q) else 0)"

inductive deposit_step ::
    "DepositRecord \<Rightarrow> DepositEvent \<Rightarrow> DepositAccountingEffects \<Rightarrow> DepositRecord \<Rightarrow> bool" where
  funded:
    "dr_state d = DS_FundingPending
     \<Longrightarrow> deposit_step d (DE_FundingSucceeded f) deposit_accounting_effects_zero
          (d \<lparr> dr_state := DS_EscrowedUnquoted f \<rparr>)"
| funding_ambiguous:
    "dr_state d = DS_FundingPending
     \<Longrightarrow> deposit_step d (DE_FundingAmbiguous h) deposit_accounting_effects_zero
          (d \<lparr> dr_state := DS_FundingReconciliationHold h \<rparr>)"
| funding_failed:
    "dr_state d = DS_FundingPending
     \<Longrightarrow> deposit_step d (DE_FundingFailed code) deposit_accounting_effects_zero
          (d \<lparr> dr_state := DS_Cancelled None None (Some code) \<rparr>)"
| committed:
    "dr_state d = DS_EscrowedUnquoted f \<Longrightarrow> authorization_bound d q r
     \<Longrightarrow> mar_signature r = None \<Longrightarrow> \<not> mar_signature_dispatched r
     \<Longrightarrow> mar_signature_dispatch_attempt r = 0
     \<Longrightarrow> deposit_step d (DE_CommitAuthorization q r)
          (deposit_accounting_effects_zero
            \<lparr> dae_reservation_after := quote_net_amount q,
              dae_reservation_add := quote_net_amount q \<rparr>)
          (d \<lparr> dr_state := DS_AuthorizationPending f, dr_quote := Some q,
               dr_mint_authorization := Some r \<rparr>)"
| signature_installed:
    "dr_state d = DS_AuthorizationPending f \<Longrightarrow> dr_mint_authorization d = Some r
     \<Longrightarrow> dr_quote d = Some q \<Longrightarrow> mar_signature_dispatched r \<Longrightarrow> mar_signature r = None
     \<Longrightarrow> length signature = 65 \<Longrightarrow> t < ma_deadline (mar_authorization r)
     \<Longrightarrow> deposit_step d (DE_AuthorizationSigned signature t)
          (deposit_accounting_effects_zero
            \<lparr> dae_reservation_after := quote_net_amount q,
              dae_fee_credit := quote_service_fee q,
              dae_pending_liability_debit := quote_service_fee q \<rparr>)
          (d \<lparr> dr_state := DS_AuthorizationAvailable f,
               dr_mint_authorization := Some (r \<lparr> mar_signature := Some signature \<rparr>) \<rparr>)"
| refund_available:
    "dr_state d \<in> {DS_EscrowedUnquoted f, DS_AuthorizationPending f, DS_AuthorizationAvailable f}
     \<Longrightarrow> refund_available_allowed d reason t
     \<Longrightarrow> deposit_step d (DE_MarkRefundAvailable reason t)
          (deposit_accounting_effects_zero \<lparr> dae_reservation_release := reservation_of d \<rparr>)
          (d \<lparr> dr_state := DS_RefundAvailable reason f \<rparr>)"
| minted:
    "dr_state d = DS_AuthorizationAvailable f \<or> dr_state d = DS_RefundAvailable reason f
     \<Longrightarrow> guard_accepts (fst (mint_guard d evidence))
     \<Longrightarrow> deposit_step d (DE_MintReconciled evidence)
          (deposit_accounting_effects_zero
            \<lparr> dae_reservation_release := reservation_of d,
              dae_pending_liability_debit := deposit_outstanding d,
              dae_mint_supply_increase := deposit_outstanding d \<rparr>)
          (d \<lparr> dr_state := DS_Minted f, dr_mint_finalization_evidence := Some evidence \<rparr>)"
| refund_start:
    "dr_state d = DS_RefundAvailable expected f \<Longrightarrow> refund_attempt_matches d attempt
     \<Longrightarrow> refund_policy_matches d reason expiry
     \<Longrightarrow> deposit_step d (DE_StartRefund reason attempt expiry) deposit_accounting_effects_zero
          (d \<lparr> dr_state := DS_RefundPending reason f attempt,
               dr_mint_expiry_evidence := expiry \<rparr>)"
| refunded:
    "dr_state d = DS_RefundPending reason f attempt
     \<Longrightarrow> deposit_step d (DE_RefundSucceeded b)
          (deposit_accounting_effects_zero
            \<lparr> dae_pending_liability_debit := deposit_outstanding d,
              dae_escrow_debit := deposit_outstanding d \<rparr>)
          (d \<lparr> dr_state := DS_Refunded reason f attempt b None \<rparr>)"
| refund_ambiguous:
    "dr_state d = DS_RefundPending reason f attempt
     \<Longrightarrow> deposit_step d (DE_RefundAmbiguous h) deposit_accounting_effects_zero
          (d \<lparr> dr_state := DS_RefundReconciliationHold reason f h attempt \<rparr>)"

inductive_cases deposit_stepE: "deposit_step d e eff d'"

end
