(* ===== verification/Deposit_Machine.thy ===== *)
theory Deposit_Machine
  imports Deposit
begin

text \<open>
  Correctness of \<open>DepositRecord::apply\<close>: the executable definition accepts exactly the replays
  and the transitions of the relation \<open>deposit_step\<close>, keeps the record well formed, and its
  reservation, fee and liability effects add up over any sequence of events.
\<close>

section \<open>Shape of an application\<close>

lemma deposit_codes [simp]:
  "deposit_state_code DS_FundingPending = 0"
  "deposit_state_code (DS_EscrowedUnquoted f) = 1"
  "deposit_state_code (DS_AuthorizationPending f) = 2"
  "deposit_state_code (DS_AuthorizationAvailable f) = 3"
  "deposit_state_code (DS_RefundAvailable x f) = 4"
  "deposit_state_code (DS_FundingReconciliationHold h) = 5"
  "deposit_state_code (DS_RefundPending x f a) = 6"
  "deposit_state_code (DS_RefundReconciliationHold x f h a) = 7"
  "deposit_state_code (DS_Refunded x f a b sh) = 8"
  "deposit_state_code (DS_Cancelled c w l) = 9"
  "deposit_state_code (DS_Minted f) = 10"
  "deposit_event_code (DE_FundingSucceeded f) = 0"
  "deposit_event_code (DE_FundingAmbiguous h) = 1"
  "deposit_event_code (DE_FundingFailed code) = 2"
  "deposit_event_code (DE_CommitAuthorization q r) = 3"
  "deposit_event_code (DE_MarkRefundAvailable x t) = 4"
  "deposit_event_code (DE_AuthorizationSigned s ts) = 5"
  "deposit_event_code (DE_MintReconciled ev) = 6"
  "deposit_event_code (DE_StartRefund x a xe) = 7"
  "deposit_event_code (DE_RefundSucceeded b) = 8"
  "deposit_event_code (DE_RefundAmbiguous h) = 9"
  by (simp_all add: deposit_state_code_def deposit_event_code_def)

lemma deposit_blocks [simp]:
  "state_ledger_blocks DS_FundingPending = (None, None)"
  "state_ledger_blocks (DS_EscrowedUnquoted f) = (Some f, None)"
  "state_ledger_blocks (DS_AuthorizationPending f) = (Some f, None)"
  "state_ledger_blocks (DS_AuthorizationAvailable f) = (Some f, None)"
  "state_ledger_blocks (DS_RefundAvailable x f) = (Some f, None)"
  "state_ledger_blocks (DS_FundingReconciliationHold h) = (None, None)"
  "state_ledger_blocks (DS_RefundPending x f a) = (Some f, None)"
  "state_ledger_blocks (DS_RefundReconciliationHold x f h a) = (Some f, None)"
  "state_ledger_blocks (DS_Refunded x f a b sh) = (Some f, Some b)"
  "state_ledger_blocks (DS_Cancelled c w l) = (None, None)"
  "state_ledger_blocks (DS_Minted f) = (Some f, None)"
  by (simp_all add: state_ledger_blocks_def)

lemma reservation_active_table [simp]:
  "\<not> deposit_reservation_active 0" "\<not> deposit_reservation_active 1"
  "deposit_reservation_active 2" "deposit_reservation_active 3"
  "\<not> deposit_reservation_active 4" "\<not> deposit_reservation_active 5"
  "\<not> deposit_reservation_active 6" "\<not> deposit_reservation_active 7"
  "\<not> deposit_reservation_active 8" "\<not> deposit_reservation_active 9"
  "\<not> deposit_reservation_active 10"
  by (simp_all add: deposit_reservation_active_def)

definition expected_blocks :: "DepositRecord \<Rightarrow> DepositEvent \<Rightarrow> (u128 option \<times> u128 option) option" where
  "expected_blocks d e =
    deposit_ledger_block_transition (fst (state_ledger_blocks (dr_state d)))
      (snd (state_ledger_blocks (dr_state d))) (fst (deposit_ledger_event e))
      (snd (deposit_ledger_event e))"

definition applies ::
    "DepositRecord \<Rightarrow> DepositEvent \<Rightarrow> Amount \<Rightarrow> DepositEffects \<Rightarrow> deposit_update \<Rightarrow> bool" where
  "applies d e reserved eff u =
    (deposit_transition_decision (deposit_transition_input d e reserved) = DTD_Apply eff
     \<and> deposit_next d e = Inr u
     \<and> expected_blocks d e = Some (state_ledger_blocks (fst u))
     \<and> \<not> deposit_effects_mismatch d u eff)"

lemma input_same_payload [simp]:
  "dti_same_payload (deposit_transition_input d e reserved) = deposit_is_idempotent d e"
  by (simp add: deposit_transition_input_def Let_def)

lemma decision_idempotent_iff:
  "deposit_transition_decision i = DTD_Idempotent \<longleftrightarrow> dti_same_payload i"
  by (auto simp: deposit_transition_decision_def Let_def split: option.splits prod.splits)

lemma apply_shape:
  assumes "reserved_mint_amount d = Inr reserved"
  shows "deposit_apply d e = Inr (r, d') \<longleftrightarrow>
    (expected_blocks d e \<noteq> None \<and> deposit_is_idempotent d e \<and> r = result_idempotent \<and> d' = d)
    \<or> (\<exists>eff u. applies d e reserved eff u
        \<and> r = result_applied_deposit (deposit_accounting_effects eff) \<and> d' = deposit_commit d u)"
proof (cases "deposit_transition_decision (deposit_transition_input d e reserved)")
  case DTD_Idempotent
  then show ?thesis
    using assms decision_idempotent_iff [of "deposit_transition_input d e reserved"]
    by (auto simp: deposit_apply_def expected_blocks_def [symmetric] applies_def result_simps)
next
  case (DTD_Apply eff)
  then have "\<not> deposit_is_idempotent d e"
    using decision_idempotent_iff [of "deposit_transition_input d e reserved"] by simp
  then show ?thesis
    using assms DTD_Apply
    by (cases "expected_blocks d e"; cases "deposit_next d e")
      (auto simp: deposit_apply_def expected_blocks_def [symmetric] applies_def)
next
  case DTD_Reject
  then have "\<not> deposit_is_idempotent d e"
    using decision_idempotent_iff [of "deposit_transition_input d e reserved"] by simp
  then show ?thesis
    using assms DTD_Reject
    by (auto simp: deposit_apply_def applies_def result_simps)
qed

lemma reserved_amount:
  "deposit_wf d \<Longrightarrow> reserved_mint_amount d = Inr (reservation_of d)"
  by (cases "dr_state d")
    (auto simp: deposit_wf_def reserved_mint_amount_def reserves_mint_resources_def
      reservation_of_def deposit_quoted_def split: option.splits)

text \<open>The effects as one value of the quantities handed to the kernel.\<close>

definition effects_of ::
    "u128 \<times> u128 \<times> u128 \<times> u128 \<times> u128 \<times> u128 \<times> u128 \<Rightarrow> DepositAccountingEffects" where
  "effects_of t = (case t of (ra, radd, rel, fee, debit, escrow, mint) \<Rightarrow>
    \<lparr> dae_reservation_after = ra, dae_reservation_add = radd, dae_reservation_release = rel,
      dae_fee_credit = fee, dae_pending_liability_debit = debit, dae_escrow_debit = escrow,
      dae_mint_supply_increase = mint \<rparr>)"

lemma applied_effects:
  assumes "deposit_transition_decision i = DTD_Apply eff"
  shows "deposit_accounting_effects eff
      = effects_of (deposit_transition_effects (dti_state i) (dti_event i) (dti_gross_amount i)
          (dti_net_amount i) (dti_service_fee i) (dti_reserved_amount i))"
  using assms unfolding decision_Apply_iff
  by (auto simp: deposit_accounting_effects_def effects_of_def split: prod.splits)

lemma deposit_next_cases [consumes 1]:
  assumes "deposit_next d e = Inr u"
  obtains
    (funded) f where "dr_state d = DS_FundingPending" "e = DE_FundingSucceeded f"
      "u = (DS_EscrowedUnquoted f, None, None, None, None, 0)"
  | (funding_ambiguous) h where "dr_state d = DS_FundingPending" "e = DE_FundingAmbiguous h"
      "u = (DS_FundingReconciliationHold h, None, None, None, None, 0)"
  | (funding_failed) c where "dr_state d = DS_FundingPending" "e = DE_FundingFailed c"
      "u = (DS_Cancelled None None (Some c), None, None, None, None, 0)"
  | (committed) f q r where "dr_state d = DS_EscrowedUnquoted f" "e = DE_CommitAuthorization q r"
      "u = (DS_AuthorizationPending f, Some q, Some r, None, None, 0)"
  | (signature) f s t where "dr_state d = DS_AuthorizationPending f"
      "e = DE_AuthorizationSigned s t" "deposit_next_signed d f s = Inr u"
  | (refund_available) f x t where
      "dr_state d \<in> {DS_EscrowedUnquoted f, DS_AuthorizationPending f, DS_AuthorizationAvailable f}"
      "e = DE_MarkRefundAvailable x t" "u = deposit_kept d (DS_RefundAvailable x f)"
  | (minted) f x ev where
      "dr_state d = DS_AuthorizationAvailable f \<or> dr_state d = DS_RefundAvailable x f"
      "e = DE_MintReconciled ev"
      "u = (DS_Minted f, dr_quote d, dr_mint_authorization d, Some ev, None, 0)"
  | (refund_start) y f x a xe where "dr_state d = DS_RefundAvailable y f"
      "e = DE_StartRefund x a xe"
      "u = (DS_RefundPending x f a, dr_quote d, dr_mint_authorization d,
            dr_mint_finalization_evidence d, xe, 0)"
  | (refunded) x f a b where "dr_state d = DS_RefundPending x f a" "e = DE_RefundSucceeded b"
      "u = deposit_kept d (DS_Refunded x f a b None)"
  | (refund_ambiguous) x f a h where "dr_state d = DS_RefundPending x f a"
      "e = DE_RefundAmbiguous h" "u = deposit_kept d (DS_RefundReconciliationHold x f h a)"
  using assms
  by (cases e; cases "dr_state d") (auto simp: deposit_next_def)

section \<open>Guards of the events\<close>

lemma quote_validate_eq_Inr [result_simps]:
  "quote_validate q gross = Inr u \<longleftrightarrow>
    0 < unat (quote_net_amount q)
    \<and> unat gross = unat (quote_net_amount q) + unat (quote_service_fee q)"
proof -
  have "quote_validate q gross = Inr u \<longleftrightarrow> quote_net_amount q \<noteq> 0
      \<and> amount_checked_add (quote_net_amount q) (quote_service_fee q) = Inr gross"
    by (cases "amount_checked_add (quote_net_amount q) (quote_service_fee q)")
      (auto simp: quote_validate_def)
  then show ?thesis
    by (auto simp: amount_checked_add_eq_Inr unat_gt_0)
qed

lemma commit_guard_accepts:
  "guard_accepts (fst (commit_guard d q r)) \<longleftrightarrow>
    authorization_bound d q r \<and> mar_signature r = None \<and> \<not> mar_signature_dispatched r
    \<and> mar_signature_dispatch_attempt r = 0"
proof -
  have "checked_add (mao_issued_at_timestamp (mar_origin r)) MINT_AUTHORIZATION_TTL_SECONDS
      = Some (ma_deadline (mar_authorization r)) \<longleftrightarrow>
    unat (ma_deadline (mar_authorization r)) = unat (mao_issued_at_timestamp (mar_origin r)) + 900"
    using deadline_exact by (simp add: deadline_from_issued_at_timestamp_def)
  then show ?thesis
    by (auto simp: commit_guard_def Let_def guard_accepts_def authorization_commit_allowed_def
        authorization_bound_def authorization_record_wf_def quote_validate_eq_Inr)
qed

lemma signature_guard_accepts:
  "guard_accepts (fst (signature_guard d s t)) \<longleftrightarrow>
    (\<exists>r. dr_mint_authorization d = Some r \<and> mar_signature_dispatched r \<and> mar_signature r = None
      \<and> length s = 65 \<and> t < ma_deadline (mar_authorization r))"
  by (auto simp: signature_guard_def Let_def guard_accepts_def signature_install_allowed_def
      mint_authorization_before_deadline_def split: option.splits)

lemma start_refund_guard_accepts:
  "guard_accepts (fst (start_refund_guard d x a xe)) \<longleftrightarrow>
    refund_attempt_matches d a \<and> refund_policy_matches d x xe"
  by (simp add: start_refund_guard_def Let_def guard_accepts_def refund_start_allowed_def)

lemma guards_match_events [simp]:
  "matches_event (fst (deposit_transition_guard d e)) (deposit_event_code e)"
  by (cases e) (simp_all add: deposit_transition_guard_def matches_event_def commit_guard_def
      signature_guard_def mint_guard_def start_refund_guard_def Let_def)

lemma event_guards [simp]:
  "fst (deposit_transition_guard d (DE_FundingSucceeded f)) = Guard_Funding"
  "fst (deposit_transition_guard d (DE_FundingAmbiguous h)) = Guard_Funding"
  "fst (deposit_transition_guard d (DE_FundingFailed c)) = Guard_Funding"
  "fst (deposit_transition_guard d (DE_CommitAuthorization q r)) = fst (commit_guard d q r)"
  "fst (deposit_transition_guard d (DE_AuthorizationSigned s t)) = fst (signature_guard d s t)"
  "fst (deposit_transition_guard d (DE_MarkRefundAvailable x ft)) =
    Guard_MarkRefundAvailable (refund_available_allowed d x ft)"
  "fst (deposit_transition_guard d (DE_MintReconciled ev)) = fst (mint_guard d ev)"
  "fst (deposit_transition_guard d (DE_StartRefund x a xe)) = fst (start_refund_guard d x a xe)"
  "fst (deposit_transition_guard d (DE_RefundSucceeded b)) = Guard_RefundResult"
  "fst (deposit_transition_guard d (DE_RefundAmbiguous h)) = Guard_RefundResult"
  by (simp_all add: deposit_transition_guard_def)

lemma plain_guards_accept [simp]:
  "guard_accepts Guard_Funding" "guard_accepts Guard_RefundResult"
  "guard_accepts (Guard_MarkRefundAvailable p) = p"
  by (simp_all add: guard_accepts_def)

lemma input_fields [simp]:
  "dti_state (deposit_transition_input d e n) = deposit_state_code (dr_state d)"
  "dti_event (deposit_transition_input d e n) = deposit_event_code e"
  "dti_guard (deposit_transition_input d e n) = fst (deposit_transition_guard d e)"
  "dti_gross_amount (deposit_transition_input d e n) = dr_gross_amount d"
  "dti_reserved_amount (deposit_transition_input d e n) = n"
  by (simp_all add: deposit_transition_input_def Let_def)

lemma input_service_fee:
  "dti_service_fee (deposit_transition_input d e n) =
    (if authorization_signed d \<or> (\<exists>s t. e = DE_AuthorizationSigned s t)
     then (case (case e of DE_CommitAuthorization q _ \<Rightarrow> Some q | _ \<Rightarrow> dr_quote d) of
       None \<Rightarrow> 0 | Some q \<Rightarrow> quote_service_fee q) else 0)"
  by (cases e) (simp_all add: deposit_transition_input_def Let_def)

lemma input_net_commit [simp]:
  "dti_net_amount (deposit_transition_input d (DE_CommitAuthorization q r) n) = quote_net_amount q"
  by (simp add: deposit_transition_input_def Let_def)

lemma input_net_mint:
  "dti_net_amount (deposit_transition_input d (DE_MintReconciled ev) n) =
    (case dr_quote d of None \<Rightarrow> 0 | Some q \<Rightarrow> quote_net_amount q)"
  by (simp add: deposit_transition_input_def Let_def)

lemma input_net_refund:
  "dti_net_amount (deposit_transition_input d (DE_RefundSucceeded b) n) = deposit_outstanding d"
  by (simp add: deposit_transition_input_def Let_def deposit_outstanding_def)

lemma zero_effects_of:
  "effects_of (0, 0, 0, 0, 0, 0, 0) = deposit_accounting_effects_zero"
  by (simp add: effects_of_def deposit_accounting_effects_zero_def)

section \<open>Applications are exactly the steps\<close>

lemma appliesD:
  assumes "applies d e n eff u"
  shows "guard_accepts (fst (deposit_transition_guard d e))" and "deposit_next d e = Inr u"
    and "\<not> deposit_is_idempotent d e"
    and "deposit_accounting_effects eff
      = effects_of (deposit_transition_effects (deposit_state_code (dr_state d))
          (deposit_event_code e) (dr_gross_amount d)
          (dti_net_amount (deposit_transition_input d e n))
          (dti_service_fee (deposit_transition_input d e n)) n)"
  using assms applied_effects [of "deposit_transition_input d e n" eff]
  by (auto simp: applies_def decision_Apply_iff)

lemma appliesI:
  assumes "\<not> deposit_is_idempotent d e" and "guard_accepts (fst (deposit_transition_guard d e))"
    and "deposit_transition (deposit_state_code (dr_state d)) (deposit_event_code e)
      = Some (deposit_state_code (fst u))"
    and "deposit_next d e = Inr u" and "expected_blocks d e = Some (state_ledger_blocks (fst u))"
    and "deposit_transition_effects (deposit_state_code (dr_state d)) (deposit_event_code e)
        (dr_gross_amount d) (dti_net_amount (deposit_transition_input d e n))
        (dti_service_fee (deposit_transition_input d e n)) n = (ra, radd, rel, fee, debit, esc, mint)"
    and "fee = snd (snd (snd (snd (snd u))))"
    and "ra = (if deposit_reservation_active (deposit_state_code (fst u))
        then (case fst (snd u) of None \<Rightarrow> 0 | Some q \<Rightarrow> quote_net_amount q) else 0)"
    and "radd = (if \<not> reserves_mint_resources d
          \<and> deposit_reservation_active (deposit_state_code (fst u))
        then (case fst (snd u) of None \<Rightarrow> 0 | Some q \<Rightarrow> quote_net_amount q) else 0)"
  shows "\<exists>eff. applies d e n eff u
    \<and> deposit_accounting_effects eff = effects_of (ra, radd, rel, fee, debit, esc, mint)"
proof -
  let ?s = "deposit_state_code (dr_state d)" and ?e = "deposit_event_code e"
  let ?n = "deposit_state_code (fst u)"
  define eff where "eff = \<lparr> de_next_state = ?n,
    de_reservation_active = deposit_reservation_active ?n,
    de_release_reservation = (deposit_reservation_active ?s \<and> \<not> deposit_reservation_active ?n),
    de_charge_service_fee = deposit_charge_service_fee ?s ?e,
    de_reservation_after = ra, de_reservation_add = radd, de_reservation_release = rel,
    de_fee_credit = fee, de_pending_liability_debit = debit, de_escrow_debit = esc,
    de_mint_supply_increase = mint \<rparr>"
  have dec: "deposit_transition_decision (deposit_transition_input d e n) = DTD_Apply eff"
    unfolding decision_Apply_iff using assms(1,2,3,6) by (simp add: eff_def)
  moreover have "\<not> deposit_effects_mismatch d u eff"
    using assms(7,8,9)
    by (cases u) (auto simp: deposit_effects_mismatch_def Let_def eff_def
        reserves_mint_resources_def)
  ultimately have "applies d e n eff u"
    using assms(4,5) by (simp add: applies_def)
  then show ?thesis
    by (intro exI [of _ eff]) (simp add: deposit_accounting_effects_def eff_def effects_of_def)
qed

lemma quoted_signed:
  "deposit_quoted d s \<Longrightarrow> authorization_signed d = s"
  "deposit_unquoted d \<Longrightarrow> \<not> authorization_signed d"
  by (auto simp: deposit_quoted_def deposit_unquoted_def authorization_signed_def
      split: option.splits)

lemma deposit_quotedE:
  assumes "deposit_quoted d s"
  obtains q r where "dr_quote d = Some q" "dr_mint_authorization d = Some r"
    "authorization_bound d q r" "(mar_signature r \<noteq> None) = s"
  using assms by (auto simp: deposit_quoted_def split: option.splits)

lemma commit_kept [simp]:
  "deposit_commit d (deposit_kept d s) = d \<lparr> dr_state := s \<rparr>"
  by (simp add: deposit_commit_def deposit_kept_def)

lemma mint_guard_signed:
  "guard_accepts (fst (mint_guard d ev)) \<Longrightarrow> mint_fixed_fields_match d ev \<and> authorization_signed d"
  by (auto simp: mint_guard_def Let_def guard_accepts_def mint_finalization_allowed_def
      mint_fixed_fields_match_def authorization_signed_def split: option.splits)

lemma wf_minting:
  assumes "deposit_wf d" and "guard_accepts (fst (mint_guard d ev))"
    and "dr_state d = DS_AuthorizationAvailable f \<or> dr_state d = DS_RefundAvailable x f"
  shows "deposit_quoted d True" and "no_evidence d"
proof -
  have "authorization_signed d"
    using mint_guard_signed [OF assms(2)] by simp
  then show "deposit_quoted d True" "no_evidence d"
    using assms(1,3) quoted_signed by (auto simp: deposit_wf_def refundable_def)
qed

lemma outstanding_signed:
  assumes "deposit_quoted d True"
  shows "(case dr_quote d of None \<Rightarrow> 0 | Some q \<Rightarrow> quote_net_amount q) = deposit_outstanding d"
    and "deposit_outstanding d \<noteq> 0"
  using assms quoted_signed(1) [OF assms]
  by (auto simp: deposit_outstanding_def authorization_bound_def elim!: deposit_quotedE)

lemma outstanding_positive:
  assumes "deposit_wf d" and "deposit_unquoted d \<or> deposit_quoted d s"
  shows "deposit_outstanding d \<noteq> 0"
proof (cases "deposit_quoted d True")
  case True
  then show ?thesis
    by (rule outstanding_signed)
next
  case False
  then have "\<not> authorization_signed d"
    using assms(2) quoted_signed by (cases s) auto
  then show ?thesis
    using assms(1) by (auto simp: deposit_outstanding_def deposit_wf_def)
qed

lemma applies_sound:
  assumes wf: "deposit_wf d" and ap: "applies d e (reservation_of d) eff u"
  shows "deposit_step d e (deposit_accounting_effects eff) (deposit_commit d u)"
proof -
  note g = appliesD(1) [OF ap] and E = appliesD(4) [OF ap]
  from appliesD(2) [OF ap] show ?thesis
  proof (cases rule: deposit_next_cases)
    case (funded f)
    then have "deposit_commit d u = d \<lparr> dr_state := DS_EscrowedUnquoted f \<rparr>"
      using wf by (simp add: deposit_wf_def deposit_unquoted_def no_evidence_def deposit_commit_def)
    then show ?thesis
      using E funded by (simp add: deposit_effects_table zero_effects_of deposit_step.funded)
  next
    case (funding_ambiguous h)
    then have "deposit_commit d u = d \<lparr> dr_state := DS_FundingReconciliationHold h \<rparr>"
      using wf by (simp add: deposit_wf_def deposit_unquoted_def no_evidence_def deposit_commit_def)
    then show ?thesis
      using E funding_ambiguous
      by (simp add: deposit_effects_table zero_effects_of deposit_step.funding_ambiguous)
  next
    case (funding_failed c)
    then have "deposit_commit d u = d \<lparr> dr_state := DS_Cancelled None None (Some c) \<rparr>"
      using wf by (simp add: deposit_wf_def deposit_unquoted_def no_evidence_def deposit_commit_def)
    then show ?thesis
      using E funding_failed
      by (simp add: deposit_effects_table zero_effects_of deposit_step.funding_failed)
  next
    case (committed f q r)
    then have "deposit_commit d u = d \<lparr> dr_state := DS_AuthorizationPending f, dr_quote := Some q,
        dr_mint_authorization := Some r \<rparr>"
      using wf by (simp add: deposit_wf_def no_evidence_def deposit_commit_def)
    moreover have "deposit_accounting_effects eff = deposit_accounting_effects_zero
        \<lparr> dae_reservation_after := quote_net_amount q, dae_reservation_add := quote_net_amount q \<rparr>"
      using E committed
      by (simp add: deposit_effects_table effects_of_def deposit_accounting_effects_zero_def)
    ultimately show ?thesis
      using g committed by (simp add: commit_guard_accepts deposit_step.committed)
  next
    case (signature f s t)
    then obtain r where r: "dr_mint_authorization d = Some r" "mar_signature_dispatched r"
        "mar_signature r = None" "length s = 65" "t < ma_deadline (mar_authorization r)"
      using g by (auto simp: signature_guard_accepts)
    from signature wf have "deposit_quoted d False" "no_evidence d"
      by (simp_all add: deposit_wf_def)
    then obtain q where q: "dr_quote d = Some q"
      by (auto elim: deposit_quotedE)
    have res: "reservation_of d = quote_net_amount q"
      using signature q by (simp add: reservation_of_def reserves_mint_resources_def)
    have "deposit_accounting_effects eff = deposit_accounting_effects_zero
        \<lparr> dae_reservation_after := quote_net_amount q, dae_fee_credit := quote_service_fee q,
          dae_pending_liability_debit := quote_service_fee q \<rparr>"
      using E signature q res
      by (simp add: deposit_effects_table effects_of_def deposit_accounting_effects_zero_def
          input_service_fee)
    moreover have "deposit_commit d u = d \<lparr> dr_state := DS_AuthorizationAvailable f,
        dr_mint_authorization := Some (r \<lparr> mar_signature := Some s \<rparr>) \<rparr>"
      using signature r q by (auto simp: deposit_next_signed_def install_signature_def
          deposit_commit_def)
    ultimately show ?thesis
      using signature r q by (simp add: deposit_step.signature_installed)
  next
    case (refund_available f x t)
    then have "deposit_accounting_effects eff
        = deposit_accounting_effects_zero \<lparr> dae_reservation_release := reservation_of d \<rparr>"
      using E by (auto simp: deposit_effects_table effects_of_def
          deposit_accounting_effects_zero_def reservation_of_def reserves_mint_resources_def)
    then show ?thesis
      using g refund_available by (simp add: deposit_step.refund_available)
  next
    case (minted f x ev)
    then have q: "deposit_quoted d True" "no_evidence d"
      using wf_minting [OF wf _ minted(1)] g by simp_all
    have "deposit_commit d u
        = d \<lparr> dr_state := DS_Minted f, dr_mint_finalization_evidence := Some ev \<rparr>"
      using minted q(2) by (simp add: no_evidence_def deposit_commit_def)
    moreover have "deposit_accounting_effects eff = deposit_accounting_effects_zero
        \<lparr> dae_reservation_release := reservation_of d,
          dae_pending_liability_debit := deposit_outstanding d,
          dae_mint_supply_increase := deposit_outstanding d \<rparr>"
      using E minted outstanding_signed [OF q(1)]
      by (auto simp: deposit_effects_table effects_of_def deposit_accounting_effects_zero_def
          input_net_mint reservation_of_def reserves_mint_resources_def)
    ultimately show ?thesis
      using g minted by (auto intro: deposit_step.minted)
  next
    case (refund_start y f x a xe)
    then have "deposit_commit d u
        = d \<lparr> dr_state := DS_RefundPending x f a, dr_mint_expiry_evidence := xe \<rparr>"
      by (simp add: deposit_commit_def)
    then show ?thesis
      using E g refund_start
      by (simp add: deposit_effects_table zero_effects_of start_refund_guard_accepts
          deposit_step.refund_start)
  next
    case (refunded x f a b)
    then have "deposit_outstanding d \<noteq> 0"
      using wf outstanding_positive [OF wf]
      by (auto simp: deposit_wf_def refund_started_def refundable_def)
    then have "deposit_accounting_effects eff = deposit_accounting_effects_zero
        \<lparr> dae_pending_liability_debit := deposit_outstanding d,
          dae_escrow_debit := deposit_outstanding d \<rparr>"
      using E refunded
      by (simp add: deposit_effects_table effects_of_def deposit_accounting_effects_zero_def
          input_net_refund)
    then show ?thesis
      using refunded by (simp add: deposit_step.refunded)
  next
    case (refund_ambiguous x f a h)
    then show ?thesis
      using E by (simp add: deposit_effects_table zero_effects_of deposit_step.refund_ambiguous)
  qed
qed

lemma expected_blocks_simps:
  "expected_blocks d (DE_FundingSucceeded f) =
    deposit_ledger_block_transition (fst (state_ledger_blocks (dr_state d)))
      (snd (state_ledger_blocks (dr_state d))) 1 f"
  "expected_blocks d (DE_RefundSucceeded b) =
    deposit_ledger_block_transition (fst (state_ledger_blocks (dr_state d)))
      (snd (state_ledger_blocks (dr_state d))) 2 b"
  "expected_blocks d (DE_FundingAmbiguous h) = Some (state_ledger_blocks (dr_state d))"
  "expected_blocks d (DE_FundingFailed c) = Some (state_ledger_blocks (dr_state d))"
  "expected_blocks d (DE_CommitAuthorization q r) = Some (state_ledger_blocks (dr_state d))"
  "expected_blocks d (DE_AuthorizationSigned s t) = Some (state_ledger_blocks (dr_state d))"
  "expected_blocks d (DE_MarkRefundAvailable x ft) = Some (state_ledger_blocks (dr_state d))"
  "expected_blocks d (DE_MintReconciled ev) = Some (state_ledger_blocks (dr_state d))"
  "expected_blocks d (DE_StartRefund x a xe) = Some (state_ledger_blocks (dr_state d))"
  "expected_blocks d (DE_RefundAmbiguous h) = Some (state_ledger_blocks (dr_state d))"
  by (simp_all add: expected_blocks_def deposit_ledger_event_def deposit_block_exact)

lemma steps_apply:
  assumes wf: "deposit_wf d" and st: "deposit_step d e E d'"
  shows "\<exists>eff u. applies d e (reservation_of d) eff u \<and> E = deposit_accounting_effects eff
    \<and> d' = deposit_commit d u"
  using st
proof (cases rule: deposit_step.cases)
  case (funded f)
  have "\<exists>eff. applies d e (reservation_of d) eff (DS_EscrowedUnquoted f, None, None, None, None, 0)
      \<and> deposit_accounting_effects eff = effects_of (0, 0, 0, 0, 0, 0, 0)"
    using funded by (intro appliesI) (simp_all add: deposit_is_idempotent_def
        funding_ledger_block_index_def deposit_next_def expected_blocks_simps deposit_block_exact
        deposit_effects_table)
  moreover have "deposit_commit d (DS_EscrowedUnquoted f, None, None, None, None, 0) = d'"
    using funded wf by (simp add: deposit_wf_def deposit_unquoted_def no_evidence_def
        deposit_commit_def)
  ultimately show ?thesis
    using funded zero_effects_of by metis
next
  case (funding_ambiguous h)
  have "\<exists>eff. applies d e (reservation_of d) eff
        (DS_FundingReconciliationHold h, None, None, None, None, 0)
      \<and> deposit_accounting_effects eff = effects_of (0, 0, 0, 0, 0, 0, 0)"
    using funding_ambiguous by (intro appliesI) (simp_all add: deposit_is_idempotent_def
        deposit_next_def expected_blocks_simps deposit_effects_table)
  moreover have "deposit_commit d (DS_FundingReconciliationHold h, None, None, None, None, 0) = d'"
    using funding_ambiguous wf by (simp add: deposit_wf_def deposit_unquoted_def no_evidence_def
        deposit_commit_def)
  ultimately show ?thesis
    using funding_ambiguous zero_effects_of by metis
next
  case (funding_failed c)
  have "\<exists>eff. applies d e (reservation_of d) eff
        (DS_Cancelled None None (Some c), None, None, None, None, 0)
      \<and> deposit_accounting_effects eff = effects_of (0, 0, 0, 0, 0, 0, 0)"
    using funding_failed by (intro appliesI) (simp_all add: deposit_is_idempotent_def
        deposit_next_def expected_blocks_simps deposit_effects_table)
  moreover have "deposit_commit d (DS_Cancelled None None (Some c), None, None, None, None, 0) = d'"
    using funding_failed wf by (simp add: deposit_wf_def deposit_unquoted_def no_evidence_def
        deposit_commit_def)
  ultimately show ?thesis
    using funding_failed zero_effects_of by metis
next
  case (committed f q r)
  have "\<exists>eff. applies d e (reservation_of d) eff
        (DS_AuthorizationPending f, Some q, Some r, None, None, 0)
      \<and> deposit_accounting_effects eff
        = effects_of (quote_net_amount q, quote_net_amount q, 0, 0, 0, 0, 0)"
    using committed by (intro appliesI) (simp_all add: deposit_is_idempotent_def commit_guard_accepts
        deposit_next_def expected_blocks_simps deposit_effects_table reserves_mint_resources_def)
  moreover have "deposit_commit d (DS_AuthorizationPending f, Some q, Some r, None, None, 0) = d'"
    using committed wf by (simp add: deposit_wf_def no_evidence_def deposit_commit_def)
  moreover have "E = effects_of (quote_net_amount q, quote_net_amount q, 0, 0, 0, 0, 0)"
    using committed by (simp add: effects_of_def deposit_accounting_effects_zero_def)
  ultimately show ?thesis
    by metis
next
  case (signature_installed f r q s t)
  let ?u = "(DS_AuthorizationAvailable f, dr_quote d, Some (r \<lparr> mar_signature := Some s \<rparr>),
    dr_mint_finalization_evidence d, dr_mint_expiry_evidence d, quote_service_fee q)"
  have res: "reservation_of d = quote_net_amount q"
    using signature_installed by (simp add: reservation_of_def reserves_mint_resources_def)
  have "deposit_next d e = Inr ?u"
    using signature_installed
    by (simp add: deposit_next_def deposit_next_signed_def install_signature_def)
  then have "\<exists>eff. applies d e (reservation_of d) eff ?u
      \<and> deposit_accounting_effects eff
        = effects_of (quote_net_amount q, 0, 0, quote_service_fee q, quote_service_fee q, 0, 0)"
    using signature_installed res
    by (intro appliesI) (simp_all add: deposit_is_idempotent_def signature_guard_accepts
        expected_blocks_simps deposit_effects_table reserves_mint_resources_def input_service_fee)
  moreover have "deposit_commit d ?u = d'"
    using signature_installed by (simp add: deposit_commit_def)
  moreover have "E
      = effects_of (quote_net_amount q, 0, 0, quote_service_fee q, quote_service_fee q, 0, 0)"
    using signature_installed by (simp add: effects_of_def deposit_accounting_effects_zero_def)
  ultimately show ?thesis
    by metis
next
  case (refund_available f x t)
  have "\<exists>eff. applies d e (reservation_of d) eff (deposit_kept d (DS_RefundAvailable x f))
      \<and> deposit_accounting_effects eff = effects_of (0, 0, reservation_of d, 0, 0, 0, 0)"
    using refund_available
    by (intro appliesI) (auto simp: deposit_is_idempotent_def deposit_next_def deposit_kept_def
        expected_blocks_simps deposit_effects_table reserves_mint_resources_def reservation_of_def)
  moreover have "E = effects_of (0, 0, reservation_of d, 0, 0, 0, 0)"
    using refund_available by (simp add: effects_of_def deposit_accounting_effects_zero_def)
  ultimately show ?thesis
    using refund_available commit_kept by metis
next
  case (minted f x ev)
  have q: "deposit_quoted d True" "no_evidence d"
    using wf_minting [OF wf _ minted(4)] minted by simp_all
  let ?u = "(DS_Minted f, dr_quote d, dr_mint_authorization d, Some ev, None, 0)"
  let ?o = "deposit_outstanding d"
  have "\<exists>eff. applies d e (reservation_of d) eff ?u
      \<and> deposit_accounting_effects eff = effects_of (0, 0, reservation_of d, 0, ?o, 0, ?o)"
    using minted outstanding_signed [OF q(1)]
    by (intro appliesI) (auto simp: deposit_is_idempotent_def deposit_next_def
        expected_blocks_simps deposit_effects_table reserves_mint_resources_def reservation_of_def
        input_net_mint)
  moreover have "E = effects_of (0, 0, reservation_of d, 0, ?o, 0, ?o)"
    using minted by (simp add: effects_of_def deposit_accounting_effects_zero_def)
  moreover have "deposit_commit d ?u = d'"
    using minted q(2) by (simp add: no_evidence_def deposit_commit_def)
  ultimately show ?thesis
    by metis
next
  case (refund_start y f a x xe)
  let ?u = "(DS_RefundPending x f a, dr_quote d, dr_mint_authorization d,
    dr_mint_finalization_evidence d, xe, 0)"
  have "\<exists>eff. applies d e (reservation_of d) eff ?u
      \<and> deposit_accounting_effects eff = effects_of (0, 0, 0, 0, 0, 0, 0)"
    using refund_start
    by (intro appliesI) (simp_all add: deposit_is_idempotent_def deposit_next_def
        expected_blocks_simps deposit_effects_table start_refund_guard_accepts)
  moreover have "deposit_commit d ?u = d'"
    using refund_start by (simp add: deposit_commit_def)
  ultimately show ?thesis
    using refund_start zero_effects_of by metis
next
  case (refunded x f a b)
  let ?o = "deposit_outstanding d"
  have "?o \<noteq> 0"
    using refunded wf outstanding_positive [OF wf]
    by (auto simp: deposit_wf_def refund_started_def refundable_def)
  then have "\<exists>eff. applies d e (reservation_of d) eff (deposit_kept d (DS_Refunded x f a b None))
      \<and> deposit_accounting_effects eff = effects_of (0, 0, 0, 0, ?o, ?o, 0)"
    using refunded
    by (intro appliesI) (simp_all add: deposit_is_idempotent_def deposit_next_def deposit_kept_def
        expected_blocks_simps deposit_block_exact deposit_effects_table input_net_refund)
  moreover have "E = effects_of (0, 0, 0, 0, ?o, ?o, 0)"
    using refunded by (simp add: effects_of_def deposit_accounting_effects_zero_def)
  ultimately show ?thesis
    using refunded commit_kept by metis
next
  case (refund_ambiguous x f a h)
  have "\<exists>eff. applies d e (reservation_of d) eff
        (deposit_kept d (DS_RefundReconciliationHold x f h a))
      \<and> deposit_accounting_effects eff = effects_of (0, 0, 0, 0, 0, 0, 0)"
    using refund_ambiguous
    by (intro appliesI) (simp_all add: deposit_is_idempotent_def deposit_next_def deposit_kept_def
        expected_blocks_simps deposit_effects_table)
  then show ?thesis
    using refund_ambiguous commit_kept zero_effects_of by metis
qed

lemma idempotent_blocks: "deposit_is_idempotent d e \<Longrightarrow> expected_blocks d e \<noteq> None"
  by (cases e; cases "dr_state d")
    (auto simp: deposit_is_idempotent_def expected_blocks_simps funding_ledger_block_index_def
      deposit_ledger_block_transition_def deposit_ledger_block_transition_body_def
      split: option.splits)

lemma deposit_apply_exact:
  assumes "deposit_wf d"
  shows "deposit_apply d e = Inr (r, d') \<longleftrightarrow>
    (deposit_is_idempotent d e \<and> r = result_idempotent \<and> d' = d)
    \<or> (\<exists>eff. deposit_step d e eff d' \<and> r = result_applied_deposit eff)"
  unfolding apply_shape [OF reserved_amount [OF assms]]
  using applies_sound [OF assms] steps_apply [OF assms] idempotent_blocks [of d e] by blast

section \<open>Invariant\<close>

lemma state_frame [simp]:
  "authorization_signed (d \<lparr> dr_state := s \<rparr>) = authorization_signed d"
  "deposit_quoted (d \<lparr> dr_state := s \<rparr>) = deposit_quoted d"
  "deposit_unquoted (d \<lparr> dr_state := s \<rparr>) = deposit_unquoted d"
  "no_evidence (d \<lparr> dr_state := s \<rparr>) = no_evidence d"
  "refundable (d \<lparr> dr_state := s \<rparr>) = refundable d"
  "deposit_outstanding (d \<lparr> dr_state := s \<rparr>) = deposit_outstanding d"
  "refund_started (d \<lparr> dr_state := s \<rparr>) = refund_started d"
  "expiry_evidence_matches (d \<lparr> dr_state := s \<rparr>) = expiry_evidence_matches d"
  "mint_fixed_fields_match (d \<lparr> dr_state := s \<rparr>) = mint_fixed_fields_match d"
  by (auto simp: fun_eq_iff authorization_signed_def deposit_quoted_def deposit_unquoted_def
      no_evidence_def refundable_def deposit_outstanding_def refund_started_def refund_pays_def
      expiry_evidence_matches_def mint_fixed_fields_match_def authorization_bound_def
      commit_fixed_fields_match_def split: option.splits)

lemma evidence_frame [simp]:
  "authorization_signed (d \<lparr> dr_mint_finalization_evidence := fe \<rparr>) = authorization_signed d"
  "deposit_quoted (d \<lparr> dr_mint_finalization_evidence := fe \<rparr>) = deposit_quoted d"
  "mint_fixed_fields_match (d \<lparr> dr_mint_finalization_evidence := fe \<rparr>) = mint_fixed_fields_match d"
  "authorization_signed (d \<lparr> dr_mint_expiry_evidence := xe \<rparr>) = authorization_signed d"
  "deposit_quoted (d \<lparr> dr_mint_expiry_evidence := xe \<rparr>) = deposit_quoted d"
  "deposit_unquoted (d \<lparr> dr_mint_expiry_evidence := xe \<rparr>) = deposit_unquoted d"
  "refundable (d \<lparr> dr_mint_expiry_evidence := xe \<rparr>) = refundable d"
  "deposit_outstanding (d \<lparr> dr_mint_expiry_evidence := xe \<rparr>) = deposit_outstanding d"
  "expiry_evidence_matches (d \<lparr> dr_mint_expiry_evidence := xe \<rparr>) = expiry_evidence_matches d"
  by (auto simp: fun_eq_iff authorization_signed_def deposit_quoted_def deposit_unquoted_def
      refundable_def deposit_outstanding_def expiry_evidence_matches_def
      mint_fixed_fields_match_def authorization_bound_def commit_fixed_fields_match_def
      split: option.splits)

lemma refund_attempt_pays:
  "refund_attempt_matches d a \<Longrightarrow> deposit_unquoted d \<or> deposit_quoted d s \<Longrightarrow> refund_pays d a"
proof -
  assume m: "refund_attempt_matches d a" and q: "deposit_unquoted d \<or> deposit_quoted d s"
  let ?fee = "if authorization_signed d
    then (case dr_quote d of None \<Rightarrow> 0 | Some q \<Rightarrow> quote_service_fee q) else 0"
  have sum: "unat (dr_gross_amount d)
      = unat (lt_amount (ta_identity a)) + unat (lt_fee (ta_identity a)) + unat ?fee"
    using m by (auto simp: refund_attempt_matches_def Let_def result_simps)
  have "unat (dr_gross_amount d) = unat (deposit_outstanding d) + unat ?fee"
    using q quoted_signed
    by (auto simp: deposit_outstanding_def authorization_bound_def elim!: deposit_quotedE)
  then show ?thesis
    using m sum by (simp add: refund_attempt_matches_def Let_def refund_pays_def)
qed

lemma refundableD:
  "refundable d x \<Longrightarrow> deposit_unquoted d \<or> (\<exists>s. deposit_quoted d s)"
  by (auto simp: refundable_def)

lemma deposit_step_wf:
  assumes "deposit_step d e E d'" and "deposit_wf d"
  shows "deposit_wf d'"
  using assms
proof (cases rule: deposit_step.cases)
  case (committed f q r)
  then show ?thesis
    using assms(2)
    by (auto simp: deposit_wf_def deposit_quoted_def no_evidence_def authorization_bound_def
        commit_fixed_fields_match_def)
next
  case (signature_installed f r q s t)
  then show ?thesis
    using assms(2)
    by (auto simp: deposit_wf_def deposit_quoted_def no_evidence_def authorization_bound_def
        commit_fixed_fields_match_def authorization_record_wf_def)
next
  case (refund_available f x t)
  then show ?thesis
    using assms(2)
    by (auto simp: deposit_wf_def refundable_def refund_available_allowed_def Let_def
        split: option.splits)
next
  case (minted f x ev)
  have "mint_fixed_fields_match d ev"
    using mint_guard_signed minted by blast
  then show ?thesis
    using minted assms(2) wf_minting [OF assms(2) _ minted(4)]
    by (auto simp: deposit_wf_def no_evidence_def)
next
  case (refund_start y f a x xe)
  have wf: "refundable d y" "no_evidence d"
    using refund_start assms(2) by (simp_all add: deposit_wf_def)
  have "refund_pays d a"
    using refundableD [OF wf(1)] refund_attempt_pays refund_start by blast
  moreover have "refundable d x"
    using refund_start wf(1)
    by (auto simp: refund_policy_matches_def split: option.splits)
  moreover have "case xe of None \<Rightarrow> \<not> authorization_signed d
      | Some evidence \<Rightarrow> authorization_signed d \<and> expiry_evidence_matches d evidence"
    using refund_start by (auto simp: refund_policy_matches_def split: option.splits)
  ultimately show ?thesis
    using refund_start assms(2) wf(2)
    by (auto simp: deposit_wf_def refund_started_def no_evidence_def refund_pays_def
        split: option.splits)
qed (auto simp: deposit_wf_def)

lemma deposit_step_replay: "deposit_step d e E d' \<Longrightarrow> deposit_is_idempotent d' e"
  by (induction rule: deposit_step.induct)
    (auto simp: deposit_is_idempotent_def funding_ledger_block_index_def)

definition deposit_rank :: "DepositRecord \<Rightarrow> nat" where
  "deposit_rank d = (case dr_state d of
      DS_FundingPending \<Rightarrow> 0
    | DS_EscrowedUnquoted _ \<Rightarrow> 1
    | DS_AuthorizationPending _ \<Rightarrow> 2
    | DS_AuthorizationAvailable _ \<Rightarrow> 3
    | DS_RefundAvailable _ _ \<Rightarrow> 4
    | DS_RefundPending _ _ _ \<Rightarrow> 5
    | _ \<Rightarrow> 6)"

lemma deposit_step_rank: "deposit_step d e E d' \<Longrightarrow> deposit_rank d < deposit_rank d'"
  by (induction rule: deposit_step.induct) (auto simp: deposit_rank_def)

lemma deposit_step_phase:
  "deposit_step d e E d' \<Longrightarrow>
    deposit_transition (deposit_state_code (dr_state d)) (deposit_event_code e)
      = Some (deposit_state_code (dr_state d'))"
  by (induction rule: deposit_step.induct) auto

lemma deposit_apply_idempotent:
  "deposit_apply d e = Inr (r, d') \<Longrightarrow> ar_outcome r = Idempotent \<Longrightarrow>
    r = result_idempotent \<and> d' = d"
proof (cases "reserved_mint_amount d")
  case (Inl x)
  moreover assume "deposit_apply d e = Inr (r, d')"
  ultimately show ?thesis
    by (auto simp: deposit_apply_def result_simps)
qed (auto simp: apply_shape)

interpretation deposit: progressing_machine deposit_apply deposit_wf deposit_rank 6
proof
  show "deposit_wf d'" if "deposit_wf d" "deposit_apply d e = Inr (r, d')" for d e r d'
    using that deposit_step_wf by (auto simp: deposit_apply_exact)
  show "r = result_idempotent \<and> d' = d"
    if "deposit_apply d e = Inr (r, d')" "ar_outcome r = Idempotent" for d e r d'
    using that by (rule deposit_apply_idempotent)
  show "deposit_apply d' e = Inr (result_idempotent, d')"
    if "deposit_wf d" "deposit_apply d e = Inr (r, d')" for d e r d'
    using that deposit_step_wf deposit_step_replay by (auto simp: deposit_apply_exact)
  show "deposit_rank d < deposit_rank d'"
    if "deposit_wf d" "deposit_apply d e = Inr (r, d')" "ar_outcome r = Applied" for d e r d'
    using that deposit_step_rank by (auto simp: deposit_apply_exact)
  show "deposit_rank d \<le> 6" for d
    by (simp add: deposit_rank_def split: DepositState.splits)
qed

end
