(* ===== verification/Deposit_Examples.thy ===== *)
theory Deposit_Examples
  imports Deposit_Machine
begin

text \<open>
  A concrete deposit of 100 units with a service fee of 10: its request, quote, authorization,
  evidence and refund attempt, and its record in each phase.  The witnesses of the deposit
  properties apply them to these values.
\<close>

definition user_account :: Account where
  "user_account = \<lparr> acct_owner = [9], acct_subaccount = replicate 32 0 \<rparr>"

definition escrow_account :: Account where
  "escrow_account = \<lparr> acct_owner = [7], acct_subaccount = replicate 32 0 \<rparr>"

definition sample_pull :: LedgerTransferIdentity where
  "sample_pull =
    \<lparr> lt_operation = PullDeposit, lt_created_at_time_ns = 5, lt_memo = replicate 32 1,
      lt_amount = 100, lt_fee = 1, lt_from = user_account, lt_to = escrow_account,
      lt_spender = Some escrow_account \<rparr>"

definition sample_request :: DepositRequest where
  "sample_request =
    \<lparr> dq_id = replicate 32 3, dq_payload_hash = replicate 32 4, dq_gross_amount = 100,
      dq_user_max_service_fee = 20, dq_transfer = sample_pull \<rparr>"

definition sample_quote :: DepositQuote where
  "sample_quote = \<lparr> quote_service_fee = 10, quote_net_amount = 90 \<rparr>"

definition sample_authorization :: "bool \<Rightarrow> bytes option \<Rightarrow> MintAuthorizationRecord" where
  "sample_authorization dispatched signature =
    \<lparr> mar_authorization =
        \<lparr> ma_deposit_id = replicate 32 3, ma_recipient = replicate 20 6, ma_gross_amount = 100,
          ma_max_service_fee = 20, ma_charged_service_fee = 10, ma_deadline = 1900,
          ma_authorization_epoch = 1 \<rparr>,
      mar_domain = bridge_domain 8453 (replicate 20 8),
      mar_digest = replicate 32 9,
      mar_origin =
        \<lparr> mao_finalized_block_number = 50, mao_finalized_block_hash = replicate 32 2,
          mao_finalized_block_timestamp = 990, mao_issued_at_timestamp = 1000 \<rparr>,
      mar_signature_dispatch_attempt = (if dispatched then 1 else 0),
      mar_signature_dispatched = dispatched,
      mar_signature = signature \<rparr>"

definition sample_signature :: bytes where
  "sample_signature = replicate 65 1"

definition sample_deposit ::
    "DepositState \<Rightarrow> DepositQuote option \<Rightarrow> MintAuthorizationRecord option \<Rightarrow> DepositRecord" where
  "sample_deposit state q authorization =
    \<lparr> dr_id = replicate 32 3, dr_payload_hash = replicate 32 4, dr_gross_amount = 100,
      dr_max_service_fee = 20, dr_quote = q, dr_mint_authorization = authorization,
      dr_mint_finalization_evidence = None, dr_mint_expiry_evidence = None,
      dr_transfer = sample_pull, dr_state = state, dr_last_settlement_stop_reason = None \<rparr>"

definition sample_pending :: DepositRecord where
  "sample_pending = sample_deposit (DS_AuthorizationPending 12) (Some sample_quote)
    (Some (sample_authorization True None))"

definition sample_available :: DepositRecord where
  "sample_available = sample_deposit (DS_AuthorizationAvailable 12) (Some sample_quote)
    (Some (sample_authorization True (Some sample_signature)))"

definition sample_expired :: DepositRecord where
  "sample_expired = sample_deposit (DS_RefundAvailable RR_AuthorizationExpired 12)
    (Some sample_quote) (Some (sample_authorization True (Some sample_signature)))"

definition sample_expiry :: MintExpiryEvidence where
  "sample_expiry =
    \<lparr> mee_deposit_id = replicate 32 3, mee_authorization_digest = replicate 32 9,
      mee_chain_id = 8453, mee_verifying_contract = replicate 20 8, mee_deposit_processed = False,
      mee_finalized_block_number = 60, mee_finalized_block_hash = replicate 32 1,
      mee_finalized_block_timestamp = 2000, mee_bridge_signer = replicate 20 1,
      mee_mint_authorization_epoch = 1, mee_runtime_sha256 = replicate 32 1,
      mee_rpc_request_digest = replicate 32 1, mee_rpc_response_digest = replicate 32 1 \<rparr>"

definition sample_refund_attempt :: TransferAttempt where
  "sample_refund_attempt =
    \<lparr> ta_attempt_no = 0,
      ta_identity =
        \<lparr> lt_operation = RefundDeposit, lt_created_at_time_ns = 7, lt_memo = replicate 32 2,
          lt_amount = 89, lt_fee = 1, lt_from = escrow_account, lt_to = user_account,
          lt_spender = None \<rparr> \<rparr>"

definition sample_refunding :: DepositRecord where
  "sample_refunding = (sample_deposit
      (DS_RefundPending RR_AuthorizationExpired 12 sample_refund_attempt)
      (Some sample_quote) (Some (sample_authorization True (Some sample_signature))))
    \<lparr> dr_mint_expiry_evidence := Some sample_expiry \<rparr>"

lemma sample_nonzero [simp]:
  "replicate 32 (3 :: u8) \<noteq> replicate 32 0" "replicate 32 (9 :: u8) \<noteq> replicate 32 0"
  "replicate 32 (2 :: u8) \<noteq> replicate 32 0" "replicate 32 (1 :: u8) \<noteq> replicate 32 0"
  "replicate 20 (6 :: u8) \<noteq> replicate 20 0" "replicate 20 (8 :: u8) \<noteq> replicate 20 0"
  by simp_all

lemmas sample_defs =
  sample_deposit_def sample_pull_def sample_quote_def sample_authorization_def
  sample_signature_def bridge_domain_def

lemmas sample_wf_defs =
  deposit_wf_def deposit_quoted_def deposit_unquoted_def no_evidence_def refundable_def
  authorization_bound_def commit_fixed_fields_match_def authorization_record_wf_def
  refund_started_def refund_pays_def authorization_signed_def expiry_evidence_matches_def
  expiry_refund_allowed_def deposit_outstanding_def Let_def

lemma sample_pending_wf: "deposit_wf sample_pending"
  by (simp add: sample_pending_def sample_defs sample_wf_defs)

lemma sample_available_wf: "deposit_wf sample_available"
  by (simp add: sample_available_def sample_defs sample_wf_defs)

lemma sample_expired_wf: "deposit_wf sample_expired"
  by (simp add: sample_expired_def sample_defs sample_wf_defs)

lemma sample_refunding_wf: "deposit_wf sample_refunding"
  by (simp add: sample_refunding_def sample_refund_attempt_def sample_expiry_def sample_defs
      sample_wf_defs)

lemma sample_accept:
  "deposit_accept sample_request = Inr (sample_deposit DS_FundingPending None None)"
  by (simp add: deposit_accept_def sample_request_def sample_deposit_def sample_pull_def)

lemma sample_signing:
  "deposit_step sample_pending (DE_AuthorizationSigned sample_signature 1200)
    (deposit_accounting_effects_zero \<lparr> dae_reservation_after := 90, dae_fee_credit := 10,
      dae_pending_liability_debit := 10 \<rparr>) sample_available"
  using signature_installed [of sample_pending 12 "sample_authorization True None" sample_quote
      sample_signature 1200]
  by (simp add: sample_pending_def sample_available_def sample_defs)

section \<open>A life that ends in a refund after expiry\<close>

definition sample_life :: "deposit_action list" where
  "sample_life =
    [Deliver (DE_FundingSucceeded 12),
     Deliver (DE_CommitAuthorization sample_quote (sample_authorization False None)),
     Dispatch 1100,
     Deliver (DE_AuthorizationSigned sample_signature 1200),
     Deliver (DE_AuthorizationSigned sample_signature 1200),
     Deliver (DE_MarkRefundAvailable RR_AuthorizationExpired (Some 2000)),
     Deliver (DE_StartRefund RR_AuthorizationExpired sample_refund_attempt (Some sample_expiry))]"

lemma deliver_step:
  assumes "deposit_wf d" and "deposit_step d e E d'"
  shows "deliver deposit_act d (Deliver e) = d'"
proof -
  have "deposit_apply d e = Inr (result_applied_deposit E, d')"
    using deposit_apply_exact [OF assms(1)] assms(2) by blast
  then show ?thesis
    by (simp add: deliver_def deposit_act_def)
qed

lemma deliver_replay:
  assumes "deposit_wf d" and "deposit_is_idempotent d e"
  shows "deliver deposit_act d (Deliver e) = d"
proof -
  have "deposit_apply d e = Inr (result_idempotent, d)"
    using deposit_apply_exact [OF assms(1)] assms(2) by blast
  then show ?thesis
    by (simp add: deliver_def deposit_act_def)
qed

lemma sample_fund:
  "deliver deposit_act (sample_deposit DS_FundingPending None None) (Deliver (DE_FundingSucceeded 12))
    = sample_deposit (DS_EscrowedUnquoted 12) None None"
proof (rule deliver_step)
  show "deposit_wf (sample_deposit DS_FundingPending None None)"
    by (simp add: sample_defs sample_wf_defs)
  show "deposit_step (sample_deposit DS_FundingPending None None) (DE_FundingSucceeded 12)
      deposit_accounting_effects_zero (sample_deposit (DS_EscrowedUnquoted 12) None None)"
    using funded [of "sample_deposit DS_FundingPending None None" 12]
    by (simp add: sample_deposit_def)
qed

lemma sample_commit:
  "deliver deposit_act (sample_deposit (DS_EscrowedUnquoted 12) None None)
      (Deliver (DE_CommitAuthorization sample_quote (sample_authorization False None)))
    = sample_deposit (DS_AuthorizationPending 12) (Some sample_quote)
        (Some (sample_authorization False None))"
proof (rule deliver_step)
  show "deposit_wf (sample_deposit (DS_EscrowedUnquoted 12) None None)"
    by (simp add: sample_defs sample_wf_defs)
  show "deposit_step (sample_deposit (DS_EscrowedUnquoted 12) None None)
      (DE_CommitAuthorization sample_quote (sample_authorization False None))
      (deposit_accounting_effects_zero \<lparr> dae_reservation_after := 90, dae_reservation_add := 90 \<rparr>)
      (sample_deposit (DS_AuthorizationPending 12) (Some sample_quote)
        (Some (sample_authorization False None)))"
    using committed [of "sample_deposit (DS_EscrowedUnquoted 12) None None" 12 sample_quote
        "sample_authorization False None"]
    by (simp add: sample_defs sample_wf_defs)
qed

lemma sample_dispatch:
  "deliver deposit_act (sample_deposit (DS_AuthorizationPending 12) (Some sample_quote)
        (Some (sample_authorization False None))) (Dispatch 1100) = sample_pending"
  by (simp add: deliver_def deposit_act_def deposit_dispatch_def dispatch_signature_def
      mint_authorization_before_deadline_def checked_add_def sample_pending_def sample_defs)

lemma sample_mark:
  "deliver deposit_act sample_available
      (Deliver (DE_MarkRefundAvailable RR_AuthorizationExpired (Some 2000))) = sample_expired"
proof (rule deliver_step [OF sample_available_wf])
  show "deposit_step sample_available (DE_MarkRefundAvailable RR_AuthorizationExpired (Some 2000))
      (deposit_accounting_effects_zero
        \<lparr> dae_reservation_release := reservation_of sample_available \<rparr>) sample_expired"
    using refund_available [of sample_available 12 RR_AuthorizationExpired "Some 2000"]
    by (simp add: sample_available_def sample_expired_def sample_defs refund_available_allowed_def
        Let_def)
qed

lemma sample_start:
  "deliver deposit_act sample_expired
      (Deliver (DE_StartRefund RR_AuthorizationExpired sample_refund_attempt (Some sample_expiry)))
    = sample_refunding"
proof (rule deliver_step [OF sample_expired_wf])
  show "deposit_step sample_expired
      (DE_StartRefund RR_AuthorizationExpired sample_refund_attempt (Some sample_expiry))
      deposit_accounting_effects_zero sample_refunding"
    using refund_start [of sample_expired RR_AuthorizationExpired 12 sample_refund_attempt
        RR_AuthorizationExpired "Some sample_expiry"]
    by (simp add: sample_expired_def sample_refunding_def sample_defs sample_refund_attempt_def
        sample_expiry_def refund_attempt_matches_def refund_policy_matches_def
        authorization_signed_def expiry_evidence_matches_def expiry_refund_allowed_def
        amount_checked_add_def checked_add_def user_account_def escrow_account_def Let_def)
qed

lemma sample_life_run:
  "run_events deposit_act (sample_deposit DS_FundingPending None None) sample_life
    = sample_refunding"
proof -
  have "deliver deposit_act sample_available
      (Deliver (DE_AuthorizationSigned sample_signature 1200)) = sample_available"
    by (rule deliver_replay [OF sample_available_wf])
      (simp add: deposit_is_idempotent_def sample_available_def sample_defs)
  then show ?thesis
    by (simp add: sample_life_def sample_fund sample_commit sample_dispatch
        deliver_step [OF sample_pending_wf sample_signing] sample_mark sample_start)
qed

end
