(* ===== verification/Deposit_Accounting.thy ===== *)
theory Deposit_Accounting
  imports Deposit_Examples
begin

text \<open>
  The accounting of a deposit over its whole life.  A life is a sequence of actions on the stored
  record: events handed to \<open>DepositRecord::apply\<close>, accepted or rejected, and recorded signature
  dispatches.  The quantities the results report (fee credit, liability debit, escrow debit,
  supply increase, reservation added and released) are summed and compared with the record.
\<close>

section \<open>Quantities of a record\<close>

definition charged_fee :: "DepositRecord \<Rightarrow> Amount" where
  "charged_fee d = (if authorization_signed d
    then (case dr_quote d of None \<Rightarrow> 0 | Some q \<Rightarrow> quote_service_fee q) else 0)"

definition minted_total :: "DepositRecord \<Rightarrow> Amount" where
  "minted_total d = (case dr_state d of DS_Minted _ \<Rightarrow> deposit_outstanding d | _ \<Rightarrow> 0)"

definition refunded_total :: "DepositRecord \<Rightarrow> Amount" where
  "refunded_total d = (case dr_state d of DS_Refunded _ _ _ _ _ \<Rightarrow> deposit_outstanding d | _ \<Rightarrow> 0)"

definition effect_credit ::
    "(DepositAccountingEffects \<Rightarrow> int) \<Rightarrow> ApplyResult option \<Rightarrow> int" where
  "effect_credit f r = (case r of
      None \<Rightarrow> 0
    | Some ar \<Rightarrow> (case ar_deposit_effects ar of None \<Rightarrow> 0 | Some e \<Rightarrow> f e))"

definition reported :: "(DepositAccountingEffects \<Rightarrow> int) \<Rightarrow> ApplyResult option list \<Rightarrow> int" where
  "reported f rs = sum_list (map (effect_credit f) rs)"

section \<open>A signature dispatch changes no quantity\<close>

lemma dispatch_frame:
  assumes "deposit_dispatch d t = Some d'"
  obtains r r' where "dr_mint_authorization d = Some r" "mar_signature r = None"
    "d' = d \<lparr> dr_mint_authorization := Some r' \<rparr>" "snd (dispatch_signature r) = r'"
    "mar_signature r' = None" "mar_authorization r' = mar_authorization r"
    "mar_domain r' = mar_domain r" "mar_digest r' = mar_digest r" "mar_origin r' = mar_origin r"
proof -
  from assms obtain r attempt r' where r: "dr_mint_authorization d = Some r"
    and ds: "dispatch_signature r = (Some attempt, r')"
    and d': "d' = d \<lparr> dr_mint_authorization := Some r' \<rparr>"
    by (auto simp: deposit_dispatch_def split: option.splits if_splits prod.splits)
  show thesis
    by (rule that [OF r _ d']) (use ds dispatch_signature_fields [OF ds] in simp_all)
qed

lemma dispatch_bound:
  assumes "authorization_bound d q r" and "dr_mint_authorization d = Some r"
    and "mar_signature r = None" and "r' = snd (dispatch_signature r)" and "mar_signature r' = None"
    and "mar_authorization r' = mar_authorization r" and "mar_domain r' = mar_domain r"
    and "mar_digest r' = mar_digest r" and "mar_origin r' = mar_origin r"
  shows "authorization_bound (d \<lparr> dr_mint_authorization := Some r' \<rparr>) q r'"
  using assms dispatch_signature_wf [of r]
  by (simp add: authorization_bound_def commit_fixed_fields_match_def)

lemma dispatch_quoted:
  assumes "deposit_dispatch d t = Some d'" and "deposit_quoted d s"
  shows "deposit_quoted d' s" and "\<not> s" and "dr_quote d' = dr_quote d" and "dr_state d' = dr_state d"
proof -
  from assms(1) obtain r r' where r: "dr_mint_authorization d = Some r" "mar_signature r = None"
    "d' = d \<lparr> dr_mint_authorization := Some r' \<rparr>" "snd (dispatch_signature r) = r'"
    "mar_signature r' = None" "mar_authorization r' = mar_authorization r"
    "mar_domain r' = mar_domain r" "mar_digest r' = mar_digest r" "mar_origin r' = mar_origin r"
    by (rule dispatch_frame)
  then show "deposit_quoted d' s" "\<not> s" "dr_quote d' = dr_quote d" "dr_state d' = dr_state d"
    using assms(2) dispatch_bound [of d _ r r']
    by (auto simp: deposit_quoted_def split: option.splits)
qed

lemma dispatch_unquoted: "deposit_dispatch d t = Some d' \<Longrightarrow> \<not> deposit_unquoted d"
  by (auto simp: deposit_dispatch_def deposit_unquoted_def)

lemma dispatch_fields:
  assumes "deposit_dispatch d t = Some d'"
  shows "dr_gross_amount d' = dr_gross_amount d" and "dr_transfer d' = dr_transfer d"
    and "dr_mint_finalization_evidence d' = dr_mint_finalization_evidence d"
    and "dr_mint_expiry_evidence d' = dr_mint_expiry_evidence d"
    and "dr_state d' = dr_state d" and "dr_quote d' = dr_quote d"
    and "\<not> authorization_signed d" and "\<not> authorization_signed d'"
  using assms by (auto elim!: dispatch_frame simp: authorization_signed_def)

lemma dispatch_refund_started:
  assumes disp: "deposit_dispatch d t = Some d'" and rs: "refund_started d x a"
  shows "refund_started d' x a"
proof -
  have "deposit_quoted d False"
    using rs dispatch_unquoted [OF disp] dispatch_quoted(2) [OF disp, of True]
    by (auto simp: refund_started_def refundable_def)
  then have "refundable d' x"
    using dispatch_quoted(1) [OF disp] by (auto simp: refundable_def)
  moreover have "deposit_outstanding d' = deposit_outstanding d"
    using dispatch_fields [OF disp] by (simp add: deposit_outstanding_def)
  ultimately show ?thesis
    using rs dispatch_fields [OF disp]
    by (auto simp: refund_started_def refund_pays_def split: option.splits)
qed

lemma dispatch_wf:
  assumes disp: "deposit_dispatch d t = Some d'" and wf: "deposit_wf d"
  shows "deposit_wf d'"
  using wf dispatch_fields [OF disp] dispatch_unquoted [OF disp] dispatch_quoted [OF disp]
    dispatch_refund_started [OF disp]
  by (cases "dr_state d") (auto simp: deposit_wf_def no_evidence_def refundable_def)

section \<open>Levels\<close>

lemma deposit_step_levels:
  assumes st: "deposit_step d e E d'" and wf: "deposit_wf d"
  shows "uint (charged_fee d') = uint (charged_fee d) + uint (dae_fee_credit E)"
    and "uint (minted_total d') = uint (minted_total d) + uint (dae_mint_supply_increase E)"
    and "uint (refunded_total d') = uint (refunded_total d) + uint (dae_escrow_debit E)"
    and "uint (reservation_of d') + uint (dae_reservation_release E)
      = uint (reservation_of d) + uint (dae_reservation_add E)"
    and "uint (dae_pending_liability_debit E) = uint (dae_fee_credit E)
      + uint (dae_mint_supply_increase E) + uint (dae_escrow_debit E)"
proof -
  have pending: "\<not> authorization_signed d" if "dr_state d = DS_AuthorizationPending f" for f
    using wf that quoted_signed(1) [of d False] by (simp add: deposit_wf_def)
  have unquoted: "\<not> authorization_signed d" if "dr_state d = DS_EscrowedUnquoted f" for f
    using wf that quoted_signed(2) [of d] by (simp add: deposit_wf_def)
  show "uint (charged_fee d') = uint (charged_fee d) + uint (dae_fee_credit E)"
    using st pending unquoted
    by (cases rule: deposit_step.cases)
      (auto simp: charged_fee_def deposit_accounting_effects_zero_def authorization_signed_def)
  show "uint (minted_total d') = uint (minted_total d) + uint (dae_mint_supply_increase E)"
    using st
    by (cases rule: deposit_step.cases)
      (auto simp: minted_total_def deposit_accounting_effects_zero_def deposit_outstanding_def
        authorization_signed_def)
  show "uint (refunded_total d') = uint (refunded_total d) + uint (dae_escrow_debit E)"
    using st
    by (cases rule: deposit_step.cases)
      (auto simp: refunded_total_def deposit_accounting_effects_zero_def)
  show "uint (reservation_of d') + uint (dae_reservation_release E)
      = uint (reservation_of d) + uint (dae_reservation_add E)"
    using st
    by (cases rule: deposit_step.cases)
      (auto simp: reservation_of_def reserves_mint_resources_def
        deposit_accounting_effects_zero_def)
  show "uint (dae_pending_liability_debit E) = uint (dae_fee_credit E)
      + uint (dae_mint_supply_increase E) + uint (dae_escrow_debit E)"
    using st
    by (cases rule: deposit_step.cases) (auto simp: deposit_accounting_effects_zero_def)
qed

section \<open>Lives of a deposit\<close>

lemma deposit_act_cases [consumes 2, case_names kept dispatched stepped]:
  assumes "deposit_wf d" and "deposit_act d a = Inr (r, d')"
  obtains "d' = d" "r = Some result_idempotent"
  | t where "deposit_dispatch d t = Some d'" "r = None"
  | e E where "deposit_step d e E d'" "r = Some (result_applied_deposit E)"
proof (cases a)
  case (Deliver e)
  then obtain ar where ar: "deposit_apply d e = Inr (ar, d')" "r = Some ar"
    using assms(2) by (auto simp: deposit_act_def split: sum.splits)
  then show thesis
    using that deposit_apply_exact [OF assms(1), of e ar d'] by blast
next
  case (Dispatch t)
  then show thesis
    using assms(2) that by (auto simp: deposit_act_def split: option.splits)
qed

lemma dispatch_levels:
  assumes "deposit_dispatch d t = Some d'"
  shows "charged_fee d' = charged_fee d" "minted_total d' = minted_total d"
    "refunded_total d' = refunded_total d" "reservation_of d' = reservation_of d"
  using dispatch_fields [OF assms]
  by (simp_all add: charged_fee_def minted_total_def refunded_total_def reservation_of_def
      reserves_mint_resources_def deposit_outstanding_def split: DepositState.splits)

lemma deposit_act_wf:
  assumes wf: "deposit_wf d" and act: "deposit_act d a = Inr (r, d')"
  shows "deposit_wf d'"
  using wf act by (cases rule: deposit_act_cases) (auto intro: wf dispatch_wf deposit_step_wf)

lemma deposit_act_level:
  assumes wf: "deposit_wf d" and act: "deposit_act d a = Inr (r, d')"
  shows "uint (charged_fee d')
      = uint (charged_fee d) + effect_credit (\<lambda>e. uint (dae_fee_credit e)) r"
    and "uint (minted_total d')
      = uint (minted_total d) + effect_credit (\<lambda>e. uint (dae_mint_supply_increase e)) r"
    and "uint (refunded_total d')
      = uint (refunded_total d) + effect_credit (\<lambda>e. uint (dae_escrow_debit e)) r"
    and "uint (reservation_of d') = uint (reservation_of d)
      + effect_credit (\<lambda>e. uint (dae_reservation_add e) - uint (dae_reservation_release e)) r"
    and "uint (charged_fee d') + uint (minted_total d') + uint (refunded_total d')
      = uint (charged_fee d) + uint (minted_total d) + uint (refunded_total d)
        + effect_credit (\<lambda>e. uint (dae_pending_liability_debit e)) r"
proof -
  note levels = deposit_step_levels [OF _ wf]
  show "uint (charged_fee d')
      = uint (charged_fee d) + effect_credit (\<lambda>e. uint (dae_fee_credit e)) r"
    using wf act by (cases rule: deposit_act_cases)
      (auto simp: effect_credit_def dispatch_levels dest: levels(1))
  show "uint (minted_total d')
      = uint (minted_total d) + effect_credit (\<lambda>e. uint (dae_mint_supply_increase e)) r"
    using wf act by (cases rule: deposit_act_cases)
      (auto simp: effect_credit_def dispatch_levels dest: levels(2))
  show "uint (refunded_total d')
      = uint (refunded_total d) + effect_credit (\<lambda>e. uint (dae_escrow_debit e)) r"
    using wf act by (cases rule: deposit_act_cases)
      (auto simp: effect_credit_def dispatch_levels dest: levels(3))
  show "uint (reservation_of d') = uint (reservation_of d)
      + effect_credit (\<lambda>e. uint (dae_reservation_add e) - uint (dae_reservation_release e)) r"
    using wf act by (cases rule: deposit_act_cases)
      (auto simp: effect_credit_def dispatch_levels dest: levels(4))
  show "uint (charged_fee d') + uint (minted_total d') + uint (refunded_total d')
      = uint (charged_fee d) + uint (minted_total d) + uint (refunded_total d)
        + effect_credit (\<lambda>e. uint (dae_pending_liability_debit e)) r"
    using wf act
  proof (cases rule: deposit_act_cases)
    case (stepped e E)
    then show ?thesis
      using levels(1,2,3,5) [OF stepped(1)] by (simp add: effect_credit_def)
  qed (simp_all add: effect_credit_def dispatch_levels)
qed

interpretation fees: accounted_machine deposit_act deposit_wf
  "effect_credit (\<lambda>e. uint (dae_fee_credit e))" "\<lambda>d. uint (charged_fee d)"
  by unfold_locales (rule deposit_act_wf, assumption+, rule deposit_act_level(1))

interpretation mints: accounted_machine deposit_act deposit_wf
  "effect_credit (\<lambda>e. uint (dae_mint_supply_increase e))" "\<lambda>d. uint (minted_total d)"
  by unfold_locales (rule deposit_act_level(2))

interpretation refunds: accounted_machine deposit_act deposit_wf
  "effect_credit (\<lambda>e. uint (dae_escrow_debit e))" "\<lambda>d. uint (refunded_total d)"
  by unfold_locales (rule deposit_act_level(3))

interpretation reservations: accounted_machine deposit_act deposit_wf
  "effect_credit (\<lambda>e. uint (dae_reservation_add e) - uint (dae_reservation_release e))"
  "\<lambda>d. uint (reservation_of d)"
  by unfold_locales (rule deposit_act_level(4))

interpretation liabilities: accounted_machine deposit_act deposit_wf
  "effect_credit (\<lambda>e. uint (dae_pending_liability_debit e))"
  "\<lambda>d. uint (charged_fee d) + uint (minted_total d) + uint (refunded_total d)"
  by unfold_locales (rule deposit_act_level(5))

section \<open>Properties\<close>

lemma accept_fresh:
  assumes "deposit_accept request = Inr d"
  shows "deposit_wf d" and "dr_state d = DS_FundingPending" and "charged_fee d = 0"
    and "minted_total d = 0" and "refunded_total d = 0" and "reservation_of d = 0"
proof -
  have "d = \<lparr> dr_id = dq_id request, dr_payload_hash = dq_payload_hash request,
      dr_gross_amount = dq_gross_amount request,
      dr_max_service_fee = dq_user_max_service_fee request, dr_quote = None,
      dr_mint_authorization = None, dr_mint_finalization_evidence = None,
      dr_mint_expiry_evidence = None, dr_transfer = dq_transfer request,
      dr_state = DS_FundingPending, dr_last_settlement_stop_reason = None \<rparr>"
    and "lt_operation (dq_transfer request) = PullDeposit"
    and "lt_amount (dq_transfer request) = dq_gross_amount request" and "dq_gross_amount request \<noteq> 0"
    using assms by (auto simp: deposit_accept_def split: if_splits)
  then show "deposit_wf d" "dr_state d = DS_FundingPending" "charged_fee d = 0"
    "minted_total d = 0" "refunded_total d = 0" "reservation_of d = 0"
    by (simp_all add: deposit_wf_def deposit_unquoted_def no_evidence_def unat_gt_0 charged_fee_def
        authorization_signed_def minted_total_def refunded_total_def reservation_of_def
        reserves_mint_resources_def)
qed

lemma settled_gross:
  assumes "deposit_wf d" and "minted_total d \<noteq> 0 \<or> refunded_total d \<noteq> 0"
  shows "uint (charged_fee d) + uint (minted_total d) + uint (refunded_total d)
    = uint (dr_gross_amount d)"
proof -
  have "deposit_unquoted d \<or> (\<exists>s. deposit_quoted d s)"
    using assms by (cases "dr_state d")
      (auto simp: minted_total_def refunded_total_def deposit_wf_def refund_started_def
        dest: refundableD)
  then have "unat (dr_gross_amount d) = unat (charged_fee d) + unat (deposit_outstanding d)"
    using quoted_signed(2) [of d] quoted_signed(1) [of d]
    by (auto simp: charged_fee_def deposit_outstanding_def authorization_bound_def
        elim!: deposit_quotedE)
  then have "uint (dr_gross_amount d) = uint (charged_fee d) + uint (deposit_outstanding d)"
    by (rule uint_of_sum)
  then show ?thesis
    using assms(2) by (auto simp: minted_total_def refunded_total_def split: DepositState.splits)
qed

text \<open>
  C1.  \<open>DepositRecord::apply\<close> on a well-formed record accepts exactly two kinds of call: a replay
  of what the record already holds, which changes nothing, and the transitions of the relation
  \<open>deposit_step\<close>, with their preconditions, their new record and their accounting effects.  The
  defensive comparisons with the kernel's effects never reject one.
\<close>

theorem deposit_apply_complete:
  assumes "deposit_wf d"
  shows "deposit_apply d e = Inr (r, d') \<longleftrightarrow>
    (deposit_is_idempotent d e \<and> r = result_idempotent \<and> d' = d)
    \<or> (\<exists>eff. deposit_step d e eff d' \<and> r = result_applied_deposit eff)"
  using assms by (rule deposit_apply_exact)

theorem deposit_apply_complete_witness:
  "deposit_wf sample_pending
    \<and> deposit_apply sample_pending (DE_AuthorizationSigned sample_signature 1200)
      = Inr (result_applied_deposit (deposit_accounting_effects_zero
          \<lparr> dae_reservation_after := 90, dae_fee_credit := 10,
            dae_pending_liability_debit := 10 \<rparr>), sample_available)"
  using deposit_apply_complete [OF sample_pending_wf] sample_signing sample_pending_wf by blast

text \<open>
  C2.  Every life of a deposit adds up.  For a freshly accepted request and any sequence of events
  and signature dispatches, with rejected and repeated ones interspersed: the fee credits sum to
  the quoted service fee if a signature was installed and to zero otherwise; the supply increases
  sum to the minted amount and the escrow debits to the refunded amount; additions minus releases
  of the mint reservation are what the record still reserves; and the liability debits are the
  three together, which is the whole gross amount once the deposit is minted or refunded.
\<close>

theorem deposit_life_adds_up:
  assumes "deposit_accept request = Inr d"
  shows "let d' = run_events deposit_act d as; rs = run_results deposit_act d as in
    reported (\<lambda>e. uint (dae_fee_credit e)) rs = uint (charged_fee d')
    \<and> reported (\<lambda>e. uint (dae_mint_supply_increase e)) rs = uint (minted_total d')
    \<and> reported (\<lambda>e. uint (dae_escrow_debit e)) rs = uint (refunded_total d')
    \<and> reported (\<lambda>e. uint (dae_reservation_add e) - uint (dae_reservation_release e)) rs
      = uint (reservation_of d')
    \<and> reported (\<lambda>e. uint (dae_pending_liability_debit e)) rs
      = uint (charged_fee d') + uint (minted_total d') + uint (refunded_total d')
    \<and> (minted_total d' \<noteq> 0 \<or> refunded_total d' \<noteq> 0 \<longrightarrow>
        reported (\<lambda>e. uint (dae_pending_liability_debit e)) rs = uint (dr_gross_amount d'))"
proof -
  note fresh = accept_fresh [OF assms]
  have "deposit_wf (run_events deposit_act d as)"
    using fresh(1) by (rule fees.run_inv)
  then show ?thesis
    unfolding Let_def reported_def
    using settled_gross [of "run_events deposit_act d as"]
      fees.run_level [OF fresh(1), of as] mints.run_level [OF fresh(1), of as]
      refunds.run_level [OF fresh(1), of as] reservations.run_level [OF fresh(1), of as]
      liabilities.run_level [OF fresh(1), of as]
    by (simp add: fresh(3-6))
qed

theorem deposit_life_adds_up_witness:
  "deposit_accept sample_request = Inr (sample_deposit DS_FundingPending None None)
    \<and> reported (\<lambda>e. uint (dae_fee_credit e))
        (run_results deposit_act (sample_deposit DS_FundingPending None None) sample_life) = 10"
proof -
  have "charged_fee sample_refunding = 10"
    by (simp add: charged_fee_def authorization_signed_def sample_refunding_def sample_defs)
  then show ?thesis
    using deposit_life_adds_up [OF sample_accept, of sample_life] sample_accept
    by (simp add: sample_life_run Let_def)
qed

text \<open>
  At-least-once delivery is harmless: delivering events several times in a row ends in the
  same record as delivering each once, and no sequence applies more than six events.
\<close>

lemma deposit_duplicates_harmless:
  assumes "deposit_wf d"
  shows "run_events deposit_apply d (remdups_adj es) = run_events deposit_apply d es
    \<and> applied_count (run_results deposit_apply d es) \<le> 6"
  using deposit.run_duplicates [OF assms, of es] deposit.applied_bounded [OF assms, of es] by simp

lemma deposit_duplicates_harmless_witness:
  "deposit_wf sample_pending
    \<and> applied_count (run_results deposit_apply sample_pending
        [DE_AuthorizationSigned sample_signature 1200, DE_AuthorizationSigned sample_signature 1200])
      \<le> 6"
  using deposit_duplicates_harmless [OF sample_pending_wf] sample_pending_wf by blast

section \<open>Terminal states, ledger blocks and refunds\<close>

lemma act_state:
  assumes wf: "deposit_wf d" and act: "deposit_act d a = Inr (r, d')"
  shows "dr_state d' = dr_state d \<or> (\<exists>e E. deposit_step d e E d')"
  using wf act by (cases rule: deposit_act_cases) (auto dest: dispatch_fields)

lemma run_state_invariant:
  assumes keep: "\<And>d e E d'. deposit_wf d \<Longrightarrow> P (dr_state d) \<Longrightarrow> deposit_step d e E d' \<Longrightarrow>
      P (dr_state d')"
    and "deposit_wf d" and "P (dr_state d)"
  shows "P (dr_state (run_events deposit_act d as))"
  using assms(2,3)
proof (induction as arbitrary: d)
  case (Cons a as)
  show ?case
  proof (cases "deposit_act d a")
    case (Inl x)
    then show ?thesis
      using Cons by (simp add: deliver_simps)
  next
    case (Inr p)
    then obtain r d' where act: "deposit_act d a = Inr (r, d')"
      by (cases p) auto
    then have "deposit_wf d'" "P (dr_state d')"
      using deposit_act_wf Cons.prems act_state keep by metis+
    then show ?thesis
      using Cons.IH by (simp add: deliver_def act)
  qed
qed simp

definition terminal_deposit :: "DepositState \<Rightarrow> bool" where
  "terminal_deposit s = (\<not> deposit_nonterminal_indexed (deposit_state_code s))"

lemma terminal_step: "terminal_deposit (dr_state d) \<Longrightarrow> \<not> deposit_step d e E d'"
  by (auto simp: terminal_deposit_def deposit_nonterminal_indexed_def elim!: deposit_stepE)

lemma step_blocks:
  assumes "deposit_step d e E d'"
  shows "fst (state_ledger_blocks (dr_state d)) \<noteq> None \<Longrightarrow>
      fst (state_ledger_blocks (dr_state d')) = fst (state_ledger_blocks (dr_state d))"
    and "snd (state_ledger_blocks (dr_state d)) \<noteq> None \<Longrightarrow>
      snd (state_ledger_blocks (dr_state d')) = snd (state_ledger_blocks (dr_state d))"
  using assms by (auto elim!: deposit_stepE)

text \<open>
  C4.  Minted, refunded and cancelled are final and exclude each other: once a deposit is in one
  of them (the states the nonterminal index leaves out), no event and no dispatch ever changes
  its state again, so a minted deposit is never refunded and a refunded one never minted.
\<close>

theorem deposit_terminal_final:
  assumes "deposit_wf d" and "\<not> deposit_nonterminal_indexed (deposit_state_code (dr_state d))"
  shows "dr_state (run_events deposit_act d as) = dr_state d"
  using run_state_invariant [where P = "\<lambda>s. s = dr_state d", OF _ assms(1)] assms(2) terminal_step
  by (metis terminal_deposit_def)

theorem deposit_terminal_final_witness:
  "dr_state (run_events deposit_act
      (sample_deposit (DS_Cancelled None None (Some TooOld)) None None)
      [Deliver (DE_FundingSucceeded 12), Deliver (DE_RefundSucceeded 4)])
    = DS_Cancelled None None (Some TooOld)"
proof -
  let ?d = "sample_deposit (DS_Cancelled None None (Some TooOld)) None None"
  have "deposit_wf ?d"
    by (simp add: sample_defs sample_wf_defs)
  moreover have "\<not> deposit_nonterminal_indexed (deposit_state_code (dr_state ?d))"
    by (simp add: sample_deposit_def deposit_nonterminal_indexed_def)
  ultimately have "dr_state (run_events deposit_act ?d
      [Deliver (DE_FundingSucceeded 12), Deliver (DE_RefundSucceeded 4)]) = dr_state ?d"
    by (rule deposit_terminal_final)
  then show ?thesis
    by (simp add: sample_deposit_def)
qed

text \<open>
  The ledger block indexes are written once: whatever follows, a recorded funding block and a
  recorded refund block never change.
\<close>

lemma deposit_blocks_write_once:
  assumes "deposit_wf d"
  shows "(fst (state_ledger_blocks (dr_state d)) = Some f \<longrightarrow>
      fst (state_ledger_blocks (dr_state (run_events deposit_act d as))) = Some f)
    \<and> (snd (state_ledger_blocks (dr_state d)) = Some b \<longrightarrow>
      snd (state_ledger_blocks (dr_state (run_events deposit_act d as))) = Some b)"
proof (intro conjI impI)
  assume "fst (state_ledger_blocks (dr_state d)) = Some f"
  with assms show "fst (state_ledger_blocks (dr_state (run_events deposit_act d as))) = Some f"
    by (rule run_state_invariant [where P = "\<lambda>s. fst (state_ledger_blocks s) = Some f", rotated])
      (simp add: step_blocks(1))
next
  assume "snd (state_ledger_blocks (dr_state d)) = Some b"
  with assms show "snd (state_ledger_blocks (dr_state (run_events deposit_act d as))) = Some b"
    by (rule run_state_invariant [where P = "\<lambda>s. snd (state_ledger_blocks s) = Some b", rotated])
      (simp add: step_blocks(2))
qed

lemma deposit_blocks_write_once_witness:
  "fst (state_ledger_blocks (dr_state (run_events deposit_act sample_pending
      [Deliver (DE_AuthorizationSigned sample_signature 1200)]))) = Some 12"
proof -
  have "fst (state_ledger_blocks (dr_state sample_pending)) = Some 12"
    by (simp add: sample_pending_def sample_deposit_def)
  then show ?thesis
    using deposit_blocks_write_once [OF sample_pending_wf] by blast
qed

text \<open>
  C3.  No refund can race a mint.  In every life of an accepted deposit, when a refund has been
  started (pending, held or done) for a deposit whose authorization was signed, the record holds
  evidence bound to that very authorization that a finalized Base block later than its deadline
  saw the deposit unprocessed; and the transfer pays the depositor back the gross amount less the
  ledger fee and the service fee that was charged.
\<close>

theorem refund_only_after_expiry:
  assumes "deposit_accept request = Inr d"
    and "run_events deposit_act d as = d'"
    and "dr_state d' = DS_RefundPending reason f attempt
      \<or> dr_state d' = DS_RefundReconciliationHold reason f h attempt
      \<or> dr_state d' = DS_Refunded reason f attempt b sh"
  shows "lt_to (ta_identity attempt) = lt_from (dr_transfer d')
    \<and> unat (dr_gross_amount d') = unat (lt_amount (ta_identity attempt))
        + unat (lt_fee (ta_identity attempt)) + unat (charged_fee d')
    \<and> (authorization_signed d' \<longrightarrow> (\<exists>r evidence.
        dr_mint_authorization d' = Some r \<and> dr_mint_expiry_evidence d' = Some evidence
        \<and> mee_authorization_digest evidence = mar_digest r
        \<and> \<not> mee_deposit_processed evidence
        \<and> ma_deadline (mar_authorization r) < mee_finalized_block_timestamp evidence))"
proof -
  have "deposit_wf d'"
    using fees.run_inv [OF accept_fresh(1) [OF assms(1)], of as] assms(2) by simp
  then have rs: "refund_started d' reason attempt"
    using assms(3) by (auto simp: deposit_wf_def)
  then have q: "deposit_unquoted d' \<or> (\<exists>s. deposit_quoted d' s)"
    by (auto simp: refund_started_def dest: refundableD)
  then have "unat (dr_gross_amount d') = unat (charged_fee d') + unat (deposit_outstanding d')"
    using quoted_signed(2) [of d'] quoted_signed(1) [of d']
    by (auto simp: charged_fee_def deposit_outstanding_def authorization_bound_def
        elim!: deposit_quotedE)
  moreover have "\<exists>r evidence. dr_mint_authorization d' = Some r
      \<and> dr_mint_expiry_evidence d' = Some evidence
      \<and> mee_authorization_digest evidence = mar_digest r \<and> \<not> mee_deposit_processed evidence
      \<and> ma_deadline (mar_authorization r) < mee_finalized_block_timestamp evidence"
    if "authorization_signed d'"
    using rs that
    by (auto simp: refund_started_def expiry_evidence_matches_def expiry_refund_allowed_def Let_def
        split: option.splits)
  ultimately show ?thesis
    using rs by (auto simp: refund_started_def refund_pays_def)
qed

theorem refund_only_after_expiry_witness:
  "authorization_signed sample_refunding
    \<and> (\<exists>evidence. dr_mint_expiry_evidence sample_refunding = Some evidence
        \<and> \<not> mee_deposit_processed evidence)"
proof -
  have "authorization_signed sample_refunding"
    by (simp add: authorization_signed_def sample_refunding_def sample_defs)
  moreover have "dr_state sample_refunding
      = DS_RefundPending RR_AuthorizationExpired 12 sample_refund_attempt"
    by (simp add: sample_refunding_def sample_deposit_def)
  ultimately show ?thesis
    using refund_only_after_expiry [OF sample_accept sample_life_run] by blast
qed

end
