(* ===== verification/Kernel_Withdrawal.thy ===== *)
theory Kernel_Withdrawal
  imports Kernel_Arithmetic
begin

text \<open>
  The compact withdrawal phase machine of \<open>bridge-core/src/kernel.rs\<close>.  States: 0 observed,
  1 release pending, 2 paid, 3 reconciliation hold.  Events: 0 start, 1 retry, 2 succeeded,
  3 ambiguous, 4 hold resolved as succeeded, 5 hold resolved as absent.
\<close>

definition withdrawal_ledger_block_transition_body ::
    "'b option \<Rightarrow> 'c \<Rightarrow> 'b \<Rightarrow> 'c \<Rightarrow> 'c \<Rightarrow> 'b option option" where
  "withdrawal_ledger_block_transition_body release event block preserve released =
    (if event = preserve then Some release
     else if event = released then
       (case release of
         None \<Rightarrow> Some (Some block)
       | Some current \<Rightarrow> if current = block then Some release else None)
     else None)"

definition withdrawal_ledger_block_transition ::
    "u128 option \<Rightarrow> u8 \<Rightarrow> u128 \<Rightarrow> u128 option option" where
  "withdrawal_ledger_block_transition release event block =
    withdrawal_ledger_block_transition_body release event block 0 1"

definition withdrawal_step_body ::
    "'c \<Rightarrow> 'c \<Rightarrow> 'c \<Rightarrow> 'c \<Rightarrow> 'c \<Rightarrow> 'c \<Rightarrow> 'c \<Rightarrow> 'c \<Rightarrow> 'c" where
  "withdrawal_step_body state event zero one two three four five =
    (if state = zero \<and> event = zero then one
     else if state = one \<and> event = one then one
     else if state = one \<and> event = two then two
     else if state = one \<and> event = three then three
     else if state = three \<and> event = four then two
     else if state = three \<and> event = five then one
     else state)"

definition withdrawal_transition_effects_body ::
    "'c \<Rightarrow> 'c \<Rightarrow> 'a::{ord,minus,plus} \<Rightarrow> 'a \<Rightarrow> 'a \<Rightarrow> 'a \<Rightarrow> 'c \<Rightarrow> 'c \<Rightarrow> 'c \<Rightarrow> 'c
      \<Rightarrow> 'c \<Rightarrow> 'c \<Rightarrow> 'c \<Rightarrow> 'c \<Rightarrow> 'c \<Rightarrow> 'c \<Rightarrow> 'a \<Rightarrow> ('c \<times> 'a \<times> 'a \<times> 'a) option" where
  "withdrawal_transition_effects_body state event amount_out ledger_fee service_fee mx
      zero_state release_pending paid hold start retry succeeded ambiguous hold_succeeded
      hold_absent amount_zero =
    (let next_state = withdrawal_step_body state event zero_state release_pending paid hold
        hold_succeeded hold_absent in
      if next_state = state \<and> \<not> (state = release_pending \<and> event = retry) then None
      else if (state = release_pending \<and> event = succeeded)
          \<or> (state = hold \<and> event = hold_succeeded) then
        (case outbound_settlement_body amount_out ledger_fee service_fee mx of
          None \<Rightarrow> None
        | Some (escrow_debit, reserve_credit, liability_debit) \<Rightarrow>
            Some (next_state, escrow_debit, reserve_credit, liability_debit))
      else if (state = zero_state \<and> event = start)
          \<or> (state = release_pending \<and> event = ambiguous)
          \<or> (state = hold \<and> event = hold_absent)
          \<or> (state = release_pending \<and> event = retry) then
        Some (next_state, amount_zero, amount_zero, amount_zero)
      else None)"

definition withdrawal_phase_step :: "u8 \<Rightarrow> u8 \<Rightarrow> u8" where
  "withdrawal_phase_step state event = withdrawal_step_body state event 0 1 2 3 4 5"

definition withdrawal_phase_allows :: "u8 \<Rightarrow> u8 \<Rightarrow> bool" where
  "withdrawal_phase_allows state event =
    (withdrawal_phase_step state event \<noteq> state \<or> (state = 1 \<and> event = 1))"

definition withdrawal_transition_effects ::
    "u8 \<Rightarrow> u8 \<Rightarrow> u128 \<Rightarrow> u128 \<Rightarrow> u128 \<Rightarrow> (u8 \<times> u128 \<times> u128 \<times> u128) option" where
  "withdrawal_transition_effects state event amount_out ledger_fee service_fee =
    withdrawal_transition_effects_body state event amount_out ledger_fee service_fee (- 1)
      0 1 2 3 0 1 2 3 4 5 0"

lemma withdrawal_block_exact:
  "withdrawal_ledger_block_transition release 0 block = Some release"
  "withdrawal_ledger_block_transition release 1 block = Some r \<longleftrightarrow>
    r = Some block \<and> (release = None \<or> release = Some block)"
  by (auto simp: withdrawal_ledger_block_transition_def withdrawal_ledger_block_transition_body_def
      split: option.splits if_splits)

lemma phase_step_table:
  "withdrawal_phase_step 0 e = (if e = 0 then 1 else 0)"
  "withdrawal_phase_step 1 e = (if e = 2 then 2 else if e = 3 then 3 else 1)"
  "withdrawal_phase_step 3 e = (if e = 4 then 2 else if e = 5 then 1 else 3)"
  "state \<noteq> 0 \<Longrightarrow> state \<noteq> 1 \<Longrightarrow> state \<noteq> 3 \<Longrightarrow> withdrawal_phase_step state e = state"
  by (simp_all add: withdrawal_phase_step_def withdrawal_step_body_def)

lemma phase_allows_table:
  "withdrawal_phase_allows 0 e = (e = 0)"
  "withdrawal_phase_allows 1 e = (e = 1 \<or> e = 2 \<or> e = 3)"
  "withdrawal_phase_allows 3 e = (e = 4 \<or> e = 5)"
  "state \<noteq> 0 \<Longrightarrow> state \<noteq> 1 \<Longrightarrow> state \<noteq> 3 \<Longrightarrow> \<not> withdrawal_phase_allows state e"
  by (simp_all add: withdrawal_phase_allows_def phase_step_table)

lemma withdrawal_effects_step:
  "withdrawal_transition_effects state event out lf sf =
    (let next_state = withdrawal_phase_step state event in
      if \<not> withdrawal_phase_allows state event then None
      else if (state = 1 \<and> event = 2) \<or> (state = 3 \<and> event = 4) then
        map_option (\<lambda>(e, r, l). (next_state, e, r, l)) (outbound_settlement out lf sf)
      else if (state = 0 \<and> event = 0) \<or> (state = 1 \<and> event = 3) \<or> (state = 3 \<and> event = 5)
          \<or> (state = 1 \<and> event = 1) then Some (next_state, 0, 0, 0)
      else None)"
  by (simp add: withdrawal_transition_effects_def withdrawal_transition_effects_body_def
      withdrawal_phase_allows_def withdrawal_phase_step_def [symmetric] outbound_settlement_def
      Let_def split: option.splits)

lemma withdrawal_effects_table:
  "withdrawal_transition_effects 0 0 out lf sf = Some (1, 0, 0, 0)"
  "withdrawal_transition_effects 1 1 out lf sf = Some (1, 0, 0, 0)"
  "withdrawal_transition_effects 1 3 out lf sf = Some (3, 0, 0, 0)"
  "withdrawal_transition_effects 3 5 out lf sf = Some (1, 0, 0, 0)"
  "withdrawal_transition_effects 1 2 out lf sf =
    map_option (\<lambda>(e, r, l). (2, e, r, l)) (outbound_settlement out lf sf)"
  "withdrawal_transition_effects 3 4 out lf sf =
    map_option (\<lambda>(e, r, l). (2, e, r, l)) (outbound_settlement out lf sf)"
  by (simp_all add: withdrawal_effects_step phase_step_table phase_allows_table)

lemma withdrawal_effects_conserve:
  "withdrawal_transition_effects state event out lf sf = Some (s', escrow, reserve, liability) \<Longrightarrow>
    unat escrow + unat reserve = unat liability"
proof -
  assume "withdrawal_transition_effects state event out lf sf = Some (s', escrow, reserve, liability)"
  then have "(escrow = 0 \<and> reserve = 0 \<and> liability = 0)
      \<or> outbound_settlement out lf sf = Some (escrow, reserve, liability)"
    by (auto simp: withdrawal_effects_step Let_def split: if_splits)
  then show ?thesis
    by (auto simp: outbound_settlement_def outbound_settlement_body_exact)
qed

end
