(* ===== verification/Withdrawal.thy ===== *)
theory Withdrawal
  imports Transfers Kernel_Withdrawal Kernel_Decisions Event_Machine
begin

text \<open>
  The withdrawal record and its state machine (\<open>bridge-core/src/withdrawal.rs\<close>): a burn observed
  on Base is released on the ledger through numbered transfer attempts, or parked in a
  reconciliation hold when the ledger's answer was ambiguous.

  \<open>withdrawal_apply\<close> is \<open>WithdrawalRecord::apply\<close>; the two \<open>match\<close> blocks in its body that compute
  the next state and the settlement used for the effects are separate definitions.  The lemmas
  show that it keeps the record well formed, follows the kernel's phase machine, is idempotent on
  replay, and credits the fee reserve with exactly what the settlement says.
\<close>

section \<open>Records\<close>

datatype WithdrawalState =
    WS_Observed
  | WS_ReleasePending TransferAttempt Settlement
  | WS_Paid TransferAttempt Settlement u128 "HoldId option"
  | WS_ReconciliationHold HoldId TransferAttempt Settlement

datatype WithdrawalEvent =
    WE_StartRelease TransferAttempt Settlement
  | WE_ReleaseSucceeded u128
  | WE_ReleaseAmbiguous HoldId

record WithdrawalRecord =
  wr_id :: WithdrawalId
  wr_base_requester :: bytes
  wr_owner :: bytes
  wr_subaccount :: bytes
  wr_payload_hash :: bytes
  wr_amount :: Amount
  wr_max_service_fee :: Amount
  wr_charged_service_fee :: Amount
  wr_amount_out :: Amount
  wr_observed_at_ns :: u64
  wr_state :: WithdrawalState
  wr_last_settlement_stop_reason :: "string option"

definition withdrawal_state_code :: "WithdrawalState \<Rightarrow> u8" where
  "withdrawal_state_code state = (case state of
      WS_Observed \<Rightarrow> 0
    | WS_ReleasePending _ _ \<Rightarrow> 1
    | WS_Paid _ _ _ _ \<Rightarrow> 2
    | WS_ReconciliationHold _ _ _ \<Rightarrow> 3)"

definition withdrawal_event_code :: "WithdrawalEvent \<Rightarrow> u8" where
  "withdrawal_event_code event = (case event of
      WE_StartRelease _ _ \<Rightarrow> 0
    | WE_ReleaseSucceeded _ \<Rightarrow> 2
    | WE_ReleaseAmbiguous _ \<Rightarrow> 3)"

definition withdrawal_event_name :: "WithdrawalEvent \<Rightarrow> string" where
  "withdrawal_event_name event = (case event of
      WE_StartRelease _ _ \<Rightarrow> ''start_release''
    | WE_ReleaseSucceeded _ \<Rightarrow> ''release_succeeded''
    | WE_ReleaseAmbiguous _ \<Rightarrow> ''release_ambiguous'')"

section \<open>Operations\<close>

definition withdrawal_observed ::
    "WithdrawalId \<Rightarrow> bytes \<Rightarrow> bytes \<Rightarrow> bytes \<Rightarrow> bytes \<Rightarrow> Amount \<Rightarrow> Amount \<Rightarrow> Amount \<Rightarrow> Amount \<Rightarrow> u64
      \<Rightarrow> WithdrawalRecord core_result" where
  "withdrawal_observed wid base_requester owner subaccount payload_hash amount max_service_fee
      charged_service_fee amount_out observed_at_ns =
    try_bind
      (if amount = 0 \<or> amount_out = 0 \<or> max_service_fee < charged_service_fee then Inr True
       else map_result (\<lambda>s. s \<noteq> amount) (amount_checked_add amount_out charged_service_fee))
      (\<lambda>invalid. if invalid then Inl InvalidAmount
       else Inr \<lparr> wr_id = wid, wr_base_requester = base_requester, wr_owner = owner,
              wr_subaccount = subaccount, wr_payload_hash = payload_hash, wr_amount = amount,
              wr_max_service_fee = max_service_fee,
              wr_charged_service_fee = charged_service_fee, wr_amount_out = amount_out,
              wr_observed_at_ns = observed_at_ns, wr_state = WS_Observed,
              wr_last_settlement_stop_reason = None \<rparr>)"

definition withdrawal_verify_retry :: "WithdrawalRecord \<Rightarrow> bytes \<Rightarrow> unit core_result" where
  "withdrawal_verify_retry w payload_hash =
    (if \<not> replay_matches (wr_payload_hash w = payload_hash) then Inl PayloadConflict else Inr ())"

definition withdrawal_validate_attempt ::
    "WithdrawalRecord \<Rightarrow> TransferAttempt \<Rightarrow> Settlement \<Rightarrow> unit core_result" where
  "withdrawal_validate_attempt w attempt settlement =
    (if wr_state w = WS_Observed \<and> ta_attempt_no attempt \<noteq> 0 then Inl InvalidLedgerOperation
     else if lt_operation (ta_identity attempt) \<noteq> ReleaseWithdrawal
         \<or> \<not> release_transfer_matches (lt_amount (ta_identity attempt))
              (lt_fee (ta_identity attempt)) (wr_amount_out w) (st_ledger_fee settlement)
         \<or> acct_owner (lt_to (ta_identity attempt)) \<noteq> wr_owner w
         \<or> acct_subaccount (lt_to (ta_identity attempt)) \<noteq> wr_subaccount w
         \<or> st_amount_out settlement \<noteq> wr_amount_out w
         \<or> st_service_fee settlement \<noteq> wr_charged_service_fee w
       then Inl SettlementMismatch
     else validate_committed settlement (wr_amount w) (wr_max_service_fee w))"

definition withdrawal_is_idempotent :: "WithdrawalRecord \<Rightarrow> WithdrawalEvent \<Rightarrow> bool" where
  "withdrawal_is_idempotent w event =
    (case (wr_state w, event) of
      (WS_ReleasePending a s, WE_StartRelease attempt settlement) \<Rightarrow> a = attempt \<and> s = settlement
    | (WS_Paid a s _ _, WE_StartRelease attempt settlement) \<Rightarrow> a = attempt \<and> s = settlement
    | (WS_ReconciliationHold _ a s, WE_StartRelease attempt settlement) \<Rightarrow>
        a = attempt \<and> s = settlement
    | (WS_Paid _ _ current _, WE_ReleaseSucceeded block) \<Rightarrow> current = block
    | (WS_ReconciliationHold current _ _, WE_ReleaseAmbiguous hold_id) \<Rightarrow> current = hold_id
    | _ \<Rightarrow> False)"

definition withdrawal_release_block :: "WithdrawalState \<Rightarrow> u128 option" where
  "withdrawal_release_block state = (case state of WS_Paid _ _ block _ \<Rightarrow> Some block | _ \<Rightarrow> None)"

definition withdrawal_settlement_for_effects ::
    "WithdrawalState \<Rightarrow> WithdrawalEvent \<Rightarrow> Settlement" where
  "withdrawal_settlement_for_effects state event =
    (case (state, event) of
      (_, WE_StartRelease _ settlement) \<Rightarrow> settlement
    | (WS_ReleasePending _ settlement, _) \<Rightarrow> settlement
    | (WS_ReconciliationHold _ _ settlement, _) \<Rightarrow> settlement
    | _ \<Rightarrow> \<lparr> st_amount_out = 0, st_service_fee = 0, st_ledger_fee = 0 \<rparr>)"

definition withdrawal_next_state ::
    "WithdrawalRecord \<Rightarrow> WithdrawalEvent \<Rightarrow> WithdrawalState core_result" where
  "withdrawal_next_state w event =
    (case (wr_state w, event) of
      (WS_Observed, WE_StartRelease attempt settlement) \<Rightarrow>
        try_bind (withdrawal_validate_attempt w attempt settlement) (\<lambda>_.
        Inr (WS_ReleasePending attempt settlement))
    | (WS_ReleasePending attempt settlement, WE_ReleaseSucceeded block) \<Rightarrow>
        try_bind (withdrawal_validate_attempt w attempt settlement) (\<lambda>_.
        Inr (WS_Paid attempt settlement block None))
    | (WS_ReleasePending attempt settlement, WE_ReleaseAmbiguous hold_id) \<Rightarrow>
        Inr (WS_ReconciliationHold hold_id attempt settlement)
    | (_, other) \<Rightarrow> Inl (InvalidTransition ''withdrawal'' (withdrawal_event_name other)))"

definition withdrawal_apply ::
    "WithdrawalRecord \<Rightarrow> WithdrawalEvent \<Rightarrow> (ApplyResult \<times> WithdrawalRecord) core_result" where
  "withdrawal_apply w event =
    (let current_release = withdrawal_release_block (wr_state w);
         ledger_event = (case event of WE_ReleaseSucceeded block \<Rightarrow> (1, block) | _ \<Rightarrow> (0, 0));
         state_code = withdrawal_state_code (wr_state w);
         event_code = withdrawal_event_code event;
         settlement = withdrawal_settlement_for_effects (wr_state w) event
     in try_bind (ok_or LedgerBlockConflict
          (withdrawal_ledger_block_transition current_release (fst ledger_event)
            (snd ledger_event))) (\<lambda>expected_release.
        if withdrawal_is_idempotent w event then Inr (result_idempotent, w)
        else if \<not> withdrawal_phase_allows state_code event_code
          then Inl (InvalidTransition ''withdrawal'' (withdrawal_event_name event))
        else try_bind (withdrawal_next_state w event) (\<lambda>next_state.
          if withdrawal_release_block next_state \<noteq> expected_release
          then Inl (InvalidTransition ''withdrawal'' ''ledger_block_effect_mismatch'')
          else try_bind (ok_or (InvalidTransition ''withdrawal'' ''effect_mismatch'')
              (withdrawal_transition_effects state_code event_code (st_amount_out settlement)
                (st_ledger_fee settlement) (st_service_fee settlement)))
            (\<lambda>(_, _, reserve_credit, _).
              Inr (result_applied reserve_credit, w \<lparr> wr_state := next_state \<rparr>)))))"

section \<open>Invariant\<close>

text \<open>An attempt of a stored state pays exactly the committed amount to the recipient of the
  record, and its settlement is the committed one and can be booked.\<close>

definition release_matches :: "WithdrawalRecord \<Rightarrow> TransferAttempt \<Rightarrow> Settlement \<Rightarrow> bool" where
  "release_matches w attempt settlement =
    (lt_operation (ta_identity attempt) = ReleaseWithdrawal
     \<and> lt_amount (ta_identity attempt) = wr_amount_out w
     \<and> lt_fee (ta_identity attempt) = st_ledger_fee settlement
     \<and> acct_owner (lt_to (ta_identity attempt)) = wr_owner w
     \<and> acct_subaccount (lt_to (ta_identity attempt)) = wr_subaccount w
     \<and> st_amount_out settlement = wr_amount_out w
     \<and> st_service_fee settlement = wr_charged_service_fee w
     \<and> st_ledger_fee settlement \<le> st_service_fee settlement)"

definition withdrawal_amounts_wf :: "WithdrawalRecord \<Rightarrow> bool" where
  "withdrawal_amounts_wf w =
    (0 < unat (wr_amount_out w)
     \<and> wr_charged_service_fee w \<le> wr_max_service_fee w
     \<and> unat (wr_amount w) = unat (wr_amount_out w) + unat (wr_charged_service_fee w))"

definition withdrawal_wf :: "WithdrawalRecord \<Rightarrow> bool" where
  "withdrawal_wf w =
    (withdrawal_amounts_wf w
     \<and> (case wr_state w of
          WS_Observed \<Rightarrow> True
        | WS_ReleasePending attempt settlement \<Rightarrow> release_matches w attempt settlement
        | WS_Paid attempt settlement _ _ \<Rightarrow> release_matches w attempt settlement
        | WS_ReconciliationHold _ attempt settlement \<Rightarrow> release_matches w attempt settlement))"

text \<open>What a paid withdrawal has credited to the fee reserve.\<close>

definition withdrawal_fee_level :: "WithdrawalRecord \<Rightarrow> int" where
  "withdrawal_fee_level w = (case wr_state w of
      WS_Paid _ settlement _ _ \<Rightarrow>
        uint (st_service_fee settlement) - uint (st_ledger_fee settlement)
    | _ \<Rightarrow> 0)"

definition withdrawal_rank :: "WithdrawalRecord \<Rightarrow> nat" where
  "withdrawal_rank w = (case wr_state w of
      WS_Observed \<Rightarrow> 0 | WS_ReleasePending _ _ \<Rightarrow> 1 | _ \<Rightarrow> 2)"

text \<open>The transitions of the record, as a relation: what each accepted event requires, what it
  changes, and what it credits.\<close>

inductive withdrawal_transition ::
    "WithdrawalRecord \<Rightarrow> WithdrawalEvent \<Rightarrow> ApplyResult \<Rightarrow> WithdrawalRecord \<Rightarrow> bool" where
  start_release:
    "wr_state w = WS_Observed \<Longrightarrow> ta_attempt_no attempt = 0 \<Longrightarrow> release_matches w attempt settlement
     \<Longrightarrow> withdrawal_transition w (WE_StartRelease attempt settlement) (result_applied 0)
          (w \<lparr> wr_state := WS_ReleasePending attempt settlement \<rparr>)"
| release_succeeded:
    "wr_state w = WS_ReleasePending attempt settlement
     \<Longrightarrow> unat (st_service_fee settlement) = unat (st_ledger_fee settlement) + unat credit
     \<Longrightarrow> withdrawal_transition w (WE_ReleaseSucceeded block) (result_applied credit)
          (w \<lparr> wr_state := WS_Paid attempt settlement block None \<rparr>)"
| release_ambiguous:
    "wr_state w = WS_ReleasePending attempt settlement
     \<Longrightarrow> withdrawal_transition w (WE_ReleaseAmbiguous hold_id) (result_applied 0)
          (w \<lparr> wr_state := WS_ReconciliationHold hold_id attempt settlement \<rparr>)"

inductive_cases withdrawal_transitionE: "withdrawal_transition w e r w'"

inductive_simps withdrawal_transition_simps:
  "withdrawal_transition w (WE_StartRelease a s) r w'"
  "withdrawal_transition w (WE_ReleaseSucceeded b) r w'"
  "withdrawal_transition w (WE_ReleaseAmbiguous h) r w'"

section \<open>Functional behaviour\<close>

lemma withdrawal_observed_eq_Inr:
  "withdrawal_observed i req own sub hash amount max_fee fee out t = Inr w \<Longrightarrow>
    withdrawal_wf w \<and> wr_state w = WS_Observed \<and> wr_amount w = amount \<and> wr_id w = i"
proof -
  assume obs: "withdrawal_observed i req own sub hash amount max_fee fee out t = Inr w"
  then have "out \<noteq> 0"
    by (auto simp: withdrawal_observed_def result_simps split: if_splits)
  then have "0 < unat out"
    by (simp add: unat_gt_0)
  moreover have "unat amount = unat out + unat fee"
    using obs by (auto simp: withdrawal_observed_def result_simps split: if_splits)
  ultimately show ?thesis
    using obs
    by (auto simp: withdrawal_observed_def result_simps withdrawal_wf_def withdrawal_amounts_wf_def
        linorder_not_less split: if_splits)
qed

lemma settlement_bookable:
  assumes "unat amount = unat out + unat fee" and "lf \<le> fee"
  shows "\<exists>escrow credit liability. outbound_settlement out lf fee = Some (escrow, credit, liability)
    \<and> unat escrow = unat out + unat lf \<and> unat fee = unat lf + unat credit \<and> liability = amount"
proof -
  have lf: "unat lf \<le> unat fee"
    using assms(2) by (simp add: word_le_nat_alt)
  have "unat out + unat lf < 2 ^ LENGTH(128)"
    using unat_bound [of amount] assms(1) lf by linarith
  then obtain escrow :: u128 where "unat out + unat lf = unat escrow"
    using unat_surj by blast
  moreover have "unat fee - unat lf < 2 ^ LENGTH(128)"
    using unat_bound [of fee] by linarith
  then obtain credit :: u128 where "unat fee - unat lf = unat credit"
    using unat_surj by blast
  ultimately have "outbound_settlement out lf fee = Some (escrow, credit, amount)"
    and "unat escrow = unat out + unat lf" and "unat fee = unat lf + unat credit"
    using lf assms(1) by (simp_all add: outbound_settlement_def outbound_settlement_body_exact)
  then show ?thesis
    by blast
qed

lemma settlement_decision_outbound:
  "settlement_decision out lf fee = map_option
    (\<lambda>(e, r, l). \<lparr> sd_escrow_debit = e, sd_reserve_credit = r, sd_liability_debit = l \<rparr>)
    (outbound_settlement out lf fee)"
  by (simp add: settlement_decision_def outbound_settlement_def split: option.splits)

lemma validate_attempt_iff:
  assumes "withdrawal_amounts_wf w"
  shows "withdrawal_validate_attempt w attempt settlement = Inr u \<longleftrightarrow>
    (wr_state w = WS_Observed \<longrightarrow> ta_attempt_no attempt = 0) \<and> release_matches w attempt settlement"
proof -
  have fee_le: "lf \<le> wr_charged_service_fee w"
    if "settlement_decision (wr_amount_out w) lf (wr_charged_service_fee w) = Some d" for lf d
    using that by (simp add: settlement_exact word_le_nat_alt)
  have bookable: "\<exists>d. settlement_decision (wr_amount_out w) lf (wr_charged_service_fee w) = Some d"
    if "lf \<le> wr_charged_service_fee w" for lf
    using settlement_bookable [of "wr_amount w" "wr_amount_out w" "wr_charged_service_fee w" lf]
      that assms
    by (auto simp: settlement_decision_outbound withdrawal_amounts_wf_def)
  show ?thesis
    using assms fee_le bookable
    by (auto simp: withdrawal_validate_attempt_def release_matches_def release_transfer_matches_def
        validate_committed_eq_Inr withdrawal_amounts_wf_def)
qed

lemma withdrawal_codes [simp]:
  "withdrawal_state_code WS_Observed = 0"
  "withdrawal_state_code (WS_ReleasePending a s) = 1"
  "withdrawal_state_code (WS_Paid a s b h) = 2"
  "withdrawal_state_code (WS_ReconciliationHold h' a s) = 3"
  "withdrawal_event_code (WE_StartRelease a s) = 0"
  "withdrawal_event_code (WE_ReleaseSucceeded b) = 2"
  "withdrawal_event_code (WE_ReleaseAmbiguous h') = 3"
  by (simp_all add: withdrawal_state_code_def withdrawal_event_code_def)

lemmas withdrawal_apply_unfold =
  withdrawal_apply_def Let_def withdrawal_release_block_def withdrawal_is_idempotent_def
  withdrawal_next_state_def withdrawal_settlement_for_effects_def phase_allows_table
  withdrawal_effects_table withdrawal_block_exact

lemma apply_start_release:
  assumes wf: "withdrawal_wf w"
  shows "withdrawal_apply w (WE_StartRelease a s) = Inr (r, w') \<longleftrightarrow>
    (withdrawal_is_idempotent w (WE_StartRelease a s) \<and> r = result_idempotent \<and> w' = w)
    \<or> withdrawal_transition w (WE_StartRelease a s) r w'"
proof -
  have v: "withdrawal_validate_attempt w a s = Inr () \<longleftrightarrow>
      (wr_state w = WS_Observed \<longrightarrow> ta_attempt_no a = 0) \<and> release_matches w a s"
    using wf by (intro validate_attempt_iff) (simp add: withdrawal_wf_def)
  show ?thesis
    using v
    by (cases "wr_state w")
      (auto simp: withdrawal_apply_unfold withdrawal_transition_simps result_simps)
qed

lemma apply_release_succeeded:
  assumes wf: "withdrawal_wf w"
  shows "withdrawal_apply w (WE_ReleaseSucceeded b) = Inr (r, w') \<longleftrightarrow>
    (withdrawal_is_idempotent w (WE_ReleaseSucceeded b) \<and> r = result_idempotent \<and> w' = w)
    \<or> withdrawal_transition w (WE_ReleaseSucceeded b) r w'"
proof (cases "wr_state w")
  case (WS_ReleasePending a s)
  have am: "withdrawal_amounts_wf w" and rm: "release_matches w a s"
    using wf WS_ReleasePending by (simp_all add: withdrawal_wf_def)
  then have v: "withdrawal_validate_attempt w a s = Inr ()"
    using validate_attempt_iff [OF am] WS_ReleasePending by simp
  have fees: "st_amount_out s = wr_amount_out w" "st_service_fee s = wr_charged_service_fee w"
      "st_ledger_fee s \<le> wr_charged_service_fee w"
    using rm by (auto simp: release_matches_def)
  obtain e c l where o: "outbound_settlement (st_amount_out s) (st_ledger_fee s) (st_service_fee s)
        = Some (e, c, l)" and c: "unat (st_service_fee s) = unat (st_ledger_fee s) + unat c"
    using settlement_bookable [of "wr_amount w" "wr_amount_out w" "wr_charged_service_fee w"
        "st_ledger_fee s"] fees am by (auto simp: withdrawal_amounts_wf_def)
  have "unat (st_service_fee s) = unat (st_ledger_fee s) + unat c' \<longleftrightarrow> c' = c" for c'
    using c unat_eqD [of c' c] by auto
  then show ?thesis
    using WS_ReleasePending v o
    by (auto simp: withdrawal_apply_unfold withdrawal_transition_simps result_simps)
qed (auto simp: withdrawal_apply_unfold withdrawal_transition_simps result_simps split: option.splits)

lemma apply_release_ambiguous:
  "withdrawal_apply w (WE_ReleaseAmbiguous h) = Inr (r, w') \<longleftrightarrow>
    (withdrawal_is_idempotent w (WE_ReleaseAmbiguous h) \<and> r = result_idempotent \<and> w' = w)
    \<or> withdrawal_transition w (WE_ReleaseAmbiguous h) r w'"
  by (cases "wr_state w")
    (auto simp: withdrawal_apply_unfold withdrawal_transition_simps result_simps)

lemma withdrawal_apply_exact:
  assumes "withdrawal_wf w"
  shows "withdrawal_apply w e = Inr (r, w') \<longleftrightarrow>
    (withdrawal_is_idempotent w e \<and> r = result_idempotent \<and> w' = w) \<or> withdrawal_transition w e r w'"
  using assms by (cases e) (simp_all add: apply_start_release apply_release_succeeded
      apply_release_ambiguous)

section \<open>Invariant and replay\<close>

lemma release_matches_state [simp]:
  "release_matches (w \<lparr> wr_state := s \<rparr>) = release_matches w"
  by (rule ext)+ (simp add: release_matches_def)

lemma withdrawal_amounts_state [simp]:
  "withdrawal_amounts_wf (w \<lparr> wr_state := s \<rparr>) = withdrawal_amounts_wf w"
  by (simp add: withdrawal_amounts_wf_def)

lemma withdrawal_transition_wf:
  "withdrawal_transition w e r w' \<Longrightarrow> withdrawal_wf w \<Longrightarrow> withdrawal_wf w'"
  by (induction rule: withdrawal_transition.induct) (auto simp: withdrawal_wf_def)

lemma withdrawal_transition_applied:
  "withdrawal_transition w e r w' \<Longrightarrow> ar_outcome r = Applied"
  by (induction rule: withdrawal_transition.induct) simp_all

lemma withdrawal_transition_replay:
  "withdrawal_transition w e r w' \<Longrightarrow> withdrawal_is_idempotent w' e"
  by (induction rule: withdrawal_transition.induct) (simp_all add: withdrawal_is_idempotent_def)

lemma withdrawal_transition_rank:
  "withdrawal_transition w e r w' \<Longrightarrow> withdrawal_rank w < withdrawal_rank w'"
  by (induction rule: withdrawal_transition.induct) (simp_all add: withdrawal_rank_def)

lemma withdrawal_transition_fee:
  "withdrawal_transition w e r w' \<Longrightarrow>
    withdrawal_fee_level w' = withdrawal_fee_level w + uint (ar_fee_delta r)"
  by (induction rule: withdrawal_transition.induct)
    (auto simp: withdrawal_fee_level_def dest: uint_of_sum)

lemma withdrawal_transition_phase:
  "withdrawal_transition w e r w' \<Longrightarrow>
    withdrawal_phase_allows (withdrawal_state_code (wr_state w)) (withdrawal_event_code e)
    \<and> withdrawal_state_code (wr_state w')
      = withdrawal_phase_step (withdrawal_state_code (wr_state w)) (withdrawal_event_code e)"
  by (induction rule: withdrawal_transition.induct)
    (simp_all add: phase_step_table phase_allows_table)

lemma withdrawal_transition_frame:
  "withdrawal_transition w e r w' \<Longrightarrow> w' = w \<lparr> wr_state := wr_state w' \<rparr>"
  by (induction rule: withdrawal_transition.induct) simp_all

lemma apply_shape_idempotent:
  assumes "try_bind expected (\<lambda>x. if same then Inr (result_idempotent, w)
      else if rejected then Inl e1
      else try_bind next_state (\<lambda>n. if mismatch x n then Inl e2
        else try_bind effects (\<lambda>(_, _, c, _). Inr (result_applied c, f n)))) = Inr (r, w')"
    and "ar_outcome r = Idempotent"
  shows "r = result_idempotent \<and> w' = w"
  using assms by (cases same) (auto simp: result_simps)

lemma withdrawal_apply_idempotent:
  "withdrawal_apply w e = Inr (r, w') \<Longrightarrow> ar_outcome r = Idempotent \<Longrightarrow>
    r = result_idempotent \<and> w' = w"
  unfolding withdrawal_apply_def Let_def by (rule apply_shape_idempotent)

interpretation release: progressing_machine withdrawal_apply withdrawal_wf withdrawal_rank 2
proof
  show "withdrawal_wf w'" if "withdrawal_wf w" "withdrawal_apply w e = Inr (r, w')" for w e r w'
    using that withdrawal_transition_wf by (auto simp: withdrawal_apply_exact)
  show "r = result_idempotent \<and> w' = w"
    if "withdrawal_apply w e = Inr (r, w')" "ar_outcome r = Idempotent" for w e r w'
    using that by (rule withdrawal_apply_idempotent)
  show "withdrawal_apply w' e = Inr (result_idempotent, w')"
    if "withdrawal_wf w" "withdrawal_apply w e = Inr (r, w')" for w e r w'
    using that withdrawal_transition_wf withdrawal_transition_replay
    by (auto simp: withdrawal_apply_exact)
  show "withdrawal_rank w < withdrawal_rank w'"
    if "withdrawal_wf w" "withdrawal_apply w e = Inr (r, w')" "ar_outcome r = Applied" for w e r w'
    using that withdrawal_transition_rank by (auto simp: withdrawal_apply_exact)
  show "withdrawal_rank w \<le> 2" for w
    by (simp add: withdrawal_rank_def split: WithdrawalState.splits)
qed

interpretation release_fees: accounted_machine withdrawal_apply withdrawal_wf
  "\<lambda>r. uint (ar_fee_delta r)" withdrawal_fee_level
proof
  show "withdrawal_fee_level w' = withdrawal_fee_level w + uint (ar_fee_delta r)"
    if "withdrawal_wf w" "withdrawal_apply w e = Inr (r, w')" for w e r w'
    using that withdrawal_transition_fee by (auto simp: withdrawal_apply_exact)
qed

lemma paid_is_final:
  assumes "withdrawal_wf w" and "wr_state w = WS_Paid a s b h"
  shows "deliver withdrawal_apply w e = w"
proof (cases "withdrawal_apply w e")
  case (Inr p)
  obtain r w' where p: "p = (r, w')"
    by (cases p)
  have "\<not> withdrawal_transition w e r w'"
    using assms(2) by (auto elim: withdrawal_transitionE)
  then show ?thesis
    using Inr p withdrawal_apply_exact [OF assms(1), of e r w'] by (simp add: deliver_def)
qed (simp add: deliver_simps)

section \<open>Properties\<close>

text \<open>
  C5.  \<open>WithdrawalRecord::apply\<close> on a well-formed record accepts exactly two kinds of call: a
  replay of what the record already holds, which changes nothing, and one of the three
  transitions with their preconditions, which sets the state and credits the reserve with the
  committed service fee minus the ledger fee.  The defensive checks after the transition
  (release block, effect mismatch) never reject one.
\<close>

theorem withdrawal_apply_complete:
  assumes "withdrawal_wf w"
  shows "withdrawal_apply w e = Inr (r, w') \<longleftrightarrow>
    (withdrawal_is_idempotent w e \<and> r = result_idempotent \<and> w' = w)
    \<or> withdrawal_transition w e r w'"
  using assms by (rule withdrawal_apply_exact)

definition example_account :: Account where
  "example_account = \<lparr> acct_owner = [7], acct_subaccount = replicate 32 0 \<rparr>"

definition example_release :: LedgerTransferIdentity where
  "example_release =
    \<lparr> lt_operation = ReleaseWithdrawal, lt_created_at_time_ns = 5, lt_memo = replicate 32 1,
      lt_amount = 90, lt_fee = 1, lt_from = example_account, lt_to = example_account,
      lt_spender = None \<rparr>"

definition example_settlement :: Settlement where
  "example_settlement = \<lparr> st_amount_out = 90, st_service_fee = 10, st_ledger_fee = 1 \<rparr>"

definition example_withdrawal :: "WithdrawalState \<Rightarrow> WithdrawalRecord" where
  "example_withdrawal state =
    \<lparr> wr_id = replicate 32 3, wr_base_requester = replicate 20 4, wr_owner = [7],
      wr_subaccount = replicate 32 0, wr_payload_hash = replicate 32 5, wr_amount = 100,
      wr_max_service_fee = 20, wr_charged_service_fee = 10, wr_amount_out = 90,
      wr_observed_at_ns = 4, wr_state = state, wr_last_settlement_stop_reason = None \<rparr>"

definition example_attempt :: TransferAttempt where
  "example_attempt = \<lparr> ta_attempt_no = 0, ta_identity = example_release \<rparr>"

lemmas withdrawal_examples =
  example_account_def example_release_def example_settlement_def example_withdrawal_def
  example_attempt_def

lemma example_withdrawal_wf:
  "withdrawal_wf (example_withdrawal WS_Observed)"
  "withdrawal_wf (example_withdrawal (WS_ReleasePending example_attempt example_settlement))"
  by (simp_all add: withdrawal_wf_def withdrawal_amounts_wf_def release_matches_def
      withdrawal_examples)

lemma example_release_transition:
  "withdrawal_transition
    (example_withdrawal (WS_ReleasePending example_attempt example_settlement))
    (WE_ReleaseSucceeded 12) (result_applied 9)
    (example_withdrawal (WS_Paid example_attempt example_settlement 12 None))"
  using release_succeeded [of "example_withdrawal (WS_ReleasePending example_attempt example_settlement)"
      example_attempt example_settlement 9 12]
  by (simp add: example_withdrawal_def example_settlement_def)

theorem withdrawal_apply_complete_witness:
  "let w = example_withdrawal (WS_ReleasePending example_attempt example_settlement) in
    withdrawal_wf w
    \<and> withdrawal_apply w (WE_ReleaseSucceeded 12)
      = Inr (result_applied 9,
          example_withdrawal (WS_Paid example_attempt example_settlement 12 None))"
  using withdrawal_apply_complete [OF example_withdrawal_wf(2), of "WE_ReleaseSucceeded 12"
      "result_applied 9" "example_withdrawal (WS_Paid example_attempt example_settlement 12 None)"]
    example_withdrawal_wf(2) example_release_transition
  by (simp add: Let_def)

text \<open>
  C6.  Release exactly once.  Over any sequence of events delivered to an observed withdrawal,
  with errors and duplicates interspersed, at most two are ever applied, delivering an event
  several times in a row has the effect of delivering it once, and the fee credited over the
  whole run is the committed service fee minus the ledger fee if the withdrawal ended paid and
  nothing otherwise.
\<close>

theorem withdrawal_released_once:
  assumes "withdrawal_wf w" and "wr_state w = WS_Observed"
  shows "applied_count (run_results withdrawal_apply w es) \<le> 2
    \<and> run_events withdrawal_apply w (remdups_adj es) = run_events withdrawal_apply w es
    \<and> sum_list (map (\<lambda>r. uint (ar_fee_delta r)) (run_results withdrawal_apply w es))
      = withdrawal_fee_level (run_events withdrawal_apply w es)"
proof -
  have "withdrawal_rank w = 0" "withdrawal_fee_level w = 0"
    using assms(2) by (simp_all add: withdrawal_rank_def withdrawal_fee_level_def)
  then show ?thesis
    using release.applied_bounded [OF assms(1), of es] release.run_duplicates [OF assms(1), of es]
      release_fees.run_level [OF assms(1), of es] by simp
qed

theorem withdrawal_released_once_witness:
  "withdrawal_wf (example_withdrawal WS_Observed)
    \<and> applied_count (run_results withdrawal_apply (example_withdrawal WS_Observed)
        [WE_StartRelease example_attempt example_settlement, WE_ReleaseSucceeded 12,
         WE_ReleaseSucceeded 12]) \<le> 2"
  using withdrawal_released_once [OF example_withdrawal_wf(1), of
      "[WE_StartRelease example_attempt example_settlement, WE_ReleaseSucceeded 12,
        WE_ReleaseSucceeded 12]"] example_withdrawal_wf(1)
  by (simp add: example_withdrawal_def)

text \<open>
  Whatever events follow, a paid withdrawal keeps its release block, its attempt and its
  settlement: the release can neither be repeated nor attributed to another ledger block.
\<close>

lemma paid_release_final:
  assumes "withdrawal_wf w" and "wr_state w = WS_Paid attempt settlement block hold"
  shows "run_events withdrawal_apply w es = w"
  using assms by (induction es) (simp_all add: paid_is_final)

text \<open>
  C7.  Refinement.  Every applied event moves the record's phase code exactly as the kernel's
  compact phase machine does, and changes nothing else of the record.
\<close>

theorem withdrawal_refines_phase_machine:
  assumes "withdrawal_wf w" and "withdrawal_apply w e = Inr (r, w')" and "ar_outcome r = Applied"
  shows "withdrawal_state_code (wr_state w')
      = withdrawal_phase_step (withdrawal_state_code (wr_state w)) (withdrawal_event_code e)
    \<and> withdrawal_phase_allows (withdrawal_state_code (wr_state w)) (withdrawal_event_code e)
    \<and> w' = w \<lparr> wr_state := wr_state w' \<rparr>"
proof -
  have "withdrawal_transition w e r w'"
    using assms by (auto simp: withdrawal_apply_exact)
  then show ?thesis
    using withdrawal_transition_phase withdrawal_transition_frame by blast
qed

theorem withdrawal_refines_phase_machine_witness:
  "withdrawal_state_code (WS_Paid example_attempt example_settlement 12 None)
    = withdrawal_phase_step
        (withdrawal_state_code (WS_ReleasePending example_attempt example_settlement))
        (withdrawal_event_code (WE_ReleaseSucceeded 12))"
proof -
  let ?w = "example_withdrawal (WS_ReleasePending example_attempt example_settlement)"
  let ?w' = "example_withdrawal (WS_Paid example_attempt example_settlement 12 None)"
  have "withdrawal_apply ?w (WE_ReleaseSucceeded 12) = Inr (result_applied 9, ?w')"
    by (simp add: withdrawal_apply_exact [OF example_withdrawal_wf(2)] example_release_transition)
  from withdrawal_refines_phase_machine [OF example_withdrawal_wf(2) this] show ?thesis
    by (simp add: example_withdrawal_def)
qed

end
