(* ===== verification/Reconciliation.thy ===== *)
theory Reconciliation
  imports Deposit_Accounting Withdrawal
begin

text \<open>
  Reconciliation holds (\<open>bridge-core/src/reconciliation.rs\<close>): when the ledger's answer to a
  transfer was ambiguous, the request waits in a hold until a complete scan of the ledger proved
  the transfer either included at a block or absent.  \<open>resolve_deposit_hold\<close> and
  \<open>resolve_withdrawal_hold\<close> advance the request and the hold together; each arm of their \<open>match\<close> on
  the resolution is one definition, which returns the outcome for the hold and for the request
  with the two records they leave behind.
\<close>

section \<open>Holds\<close>

datatype RequestReference =
    DepositFunding DepositId
  | DepositRefund DepositId
  | WithdrawalRequest WithdrawalId

datatype ReconciliationHoldState =
    HS_Open
  | HS_ResolvedSucceeded u128
  | HS_ResolvedAbsent u128

record ReconciliationHoldRecord =
  hr_id :: HoldId
  hr_request :: RequestReference
  hr_transfer :: LedgerTransferIdentity
  hr_state :: ReconciliationHoldState

definition hold_open ::
    "HoldId \<Rightarrow> RequestReference \<Rightarrow> LedgerTransferIdentity \<Rightarrow> ReconciliationHoldRecord" where
  "hold_open hid request transfer =
    \<lparr> hr_id = hid, hr_request = request, hr_transfer = transfer, hr_state = HS_Open \<rparr>"

definition resolve_succeeded ::
    "ReconciliationHoldRecord \<Rightarrow> u128 \<Rightarrow> (ApplyOutcome \<times> ReconciliationHoldRecord) core_result" where
  "resolve_succeeded h block = (case hr_state h of
      HS_Open \<Rightarrow> Inr (Applied, h \<lparr> hr_state := HS_ResolvedSucceeded block \<rparr>)
    | HS_ResolvedSucceeded current \<Rightarrow>
        if current = block then Inr (Idempotent, h) else Inl ConflictingReplay
    | HS_ResolvedAbsent _ \<Rightarrow> Inl ConflictingReplay)"

definition resolve_absent ::
    "ReconciliationHoldRecord \<Rightarrow> u128 \<Rightarrow> (ApplyOutcome \<times> ReconciliationHoldRecord) core_result" where
  "resolve_absent h watermark = (case hr_state h of
      HS_Open \<Rightarrow> Inr (Applied, h \<lparr> hr_state := HS_ResolvedAbsent watermark \<rparr>)
    | HS_ResolvedAbsent current \<Rightarrow>
        if current = watermark then Inr (Idempotent, h) else Inl ConflictingReplay
    | HS_ResolvedSucceeded _ \<Rightarrow> Inl ConflictingReplay)"

datatype DepositHoldResolution =
    DH_FundingSucceeded u128
  | DH_FundingAbsent u128
  | DH_RefundSucceeded u128
  | DH_RefundAbsent u128 LedgerTransferIdentity

datatype WithdrawalHoldResolution =
    WH_Succeeded u128
  | WH_Absent u128 LedgerTransferIdentity

section \<open>Deposit holds\<close>

type_synonym deposit_resolved =
  "ApplyOutcome \<times> ApplyOutcome \<times> DepositRecord \<times> ReconciliationHoldRecord"

definition resolve_funding_succeeded ::
    "DepositRecord \<Rightarrow> ReconciliationHoldRecord \<Rightarrow> u128 \<Rightarrow> deposit_resolved core_result" where
  "resolve_funding_succeeded d h block =
    (if hr_request h \<noteq> DepositFunding (dr_id d) \<or> hr_transfer h \<noteq> dr_transfer d
     then Inl HoldMismatch
     else let current_funding = funding_ledger_block_index d in
       try_bind (ok_or LedgerBlockConflict
         (deposit_ledger_block_transition current_funding None 1 block)) (\<lambda>(funding, _).
       try_bind (ok_or LedgerBlockConflict funding) (\<lambda>next_funding.
       try_bind (resolve_succeeded h next_funding) (\<lambda>(ho, h').
         (case dr_state d of
           DS_FundingReconciliationHold hold_id \<Rightarrow>
             if hold_id = hr_id h
             then Inr (ho, Applied, d \<lparr> dr_state := DS_EscrowedUnquoted next_funding \<rparr>, h')
             else if current_funding = Some block then Inr (ho, Idempotent, d, h')
             else Inl HoldMismatch
         | _ \<Rightarrow> if current_funding = Some block then Inr (ho, Idempotent, d, h')
             else Inl HoldMismatch)))))"

definition resolve_funding_absent ::
    "DepositRecord \<Rightarrow> ReconciliationHoldRecord \<Rightarrow> u128 \<Rightarrow> deposit_resolved core_result" where
  "resolve_funding_absent d h watermark =
    (if hr_request h \<noteq> DepositFunding (dr_id d) \<or> hr_transfer h \<noteq> dr_transfer d
     then Inl HoldMismatch
     else try_bind (resolve_absent h watermark) (\<lambda>(ho, h').
       (case dr_state d of
         DS_FundingReconciliationHold hold_id \<Rightarrow>
           if hold_id = hr_id h
           then Inr (ho, Applied,
             d \<lparr> dr_state := DS_Cancelled (Some hold_id) (Some watermark) None \<rparr>, h')
           else Inl HoldMismatch
       | DS_Cancelled (Some hold_id) (Some current) None \<Rightarrow>
           if hold_id = hr_id h \<and> current = watermark then Inr (ho, Idempotent, d, h')
           else Inl HoldMismatch
       | _ \<Rightarrow> Inl HoldMismatch)))"

definition refund_hold_blocks :: "DepositState \<Rightarrow> u128 option \<times> u128 option" where
  "refund_hold_blocks state = (case state of
      DS_RefundReconciliationHold _ f _ _ \<Rightarrow> (Some f, None)
    | DS_Refunded _ f _ r _ \<Rightarrow> (Some f, Some r)
    | _ \<Rightarrow> (None, None))"

definition resolve_refund_succeeded ::
    "DepositRecord \<Rightarrow> ReconciliationHoldRecord \<Rightarrow> u128 \<Rightarrow> deposit_resolved core_result" where
  "resolve_refund_succeeded d h block =
    (if hr_request h \<noteq> DepositRefund (dr_id d) then Inl HoldMismatch
     else let current = refund_hold_blocks (dr_state d) in
       try_bind (ok_or LedgerBlockConflict
         (deposit_ledger_block_transition (fst current) (snd current) 2 block)) (\<lambda>(_, refund).
       try_bind (ok_or LedgerBlockConflict refund) (\<lambda>next_refund.
       try_bind (resolve_succeeded h next_refund) (\<lambda>(ho, h').
         (case dr_state d of
           DS_RefundReconciliationHold reason f hold_id attempt \<Rightarrow>
             if hold_id = hr_id h \<and> hr_transfer h = ta_identity attempt
             then Inr (ho, Applied,
               d \<lparr> dr_state := DS_Refunded reason f attempt next_refund (Some (hr_id h)) \<rparr>, h')
             else Inl HoldMismatch
         | DS_Refunded _ _ attempt current_block (Some source) \<Rightarrow>
             if source = hr_id h \<and> current_block = block \<and> hr_transfer h = ta_identity attempt
             then Inr (ho, Idempotent, d, h')
             else Inl HoldMismatch
         | _ \<Rightarrow> Inl HoldMismatch)))))"

definition resolve_refund_absent ::
    "DepositRecord \<Rightarrow> ReconciliationHoldRecord \<Rightarrow> u128 \<Rightarrow> LedgerTransferIdentity
      \<Rightarrow> deposit_resolved core_result" where
  "resolve_refund_absent d h watermark next_identity =
    (if hr_request h \<noteq> DepositRefund (dr_id d) then Inl HoldMismatch
     else try_bind (resolve_absent h watermark) (\<lambda>(ho, h').
       (case dr_state d of
         DS_RefundReconciliationHold reason f hold_id attempt \<Rightarrow>
           if hold_id = hr_id h \<and> hr_transfer h = ta_identity attempt
           then try_bind (retry_after_absence attempt next_identity) (\<lambda>next_attempt.
             Inr (ho, Applied, d \<lparr> dr_state := DS_RefundPending reason f next_attempt \<rparr>, h'))
           else Inl HoldMismatch
       | DS_RefundPending _ _ attempt \<Rightarrow>
           if ta_identity attempt = next_identity then Inr (ho, Idempotent, d, h')
           else Inl HoldMismatch
       | _ \<Rightarrow> Inl HoldMismatch)))"

definition resolve_deposit_hold ::
    "DepositRecord \<Rightarrow> ReconciliationHoldRecord \<Rightarrow> DepositHoldResolution
      \<Rightarrow> (ApplyResult \<times> DepositRecord \<times> ReconciliationHoldRecord) core_result" where
  "resolve_deposit_hold d h resolution =
    try_bind (case resolution of
        DH_FundingSucceeded block \<Rightarrow> resolve_funding_succeeded d h block
      | DH_FundingAbsent watermark \<Rightarrow> resolve_funding_absent d h watermark
      | DH_RefundSucceeded block \<Rightarrow> resolve_refund_succeeded d h block
      | DH_RefundAbsent watermark next_identity \<Rightarrow>
          resolve_refund_absent d h watermark next_identity)
      (\<lambda>(hold_outcome, request_outcome, next_deposit, next_hold).
        if hold_outcome \<noteq> request_outcome then Inl ConflictingReplay
        else Inr (if request_outcome = Applied then result_applied 0 else result_idempotent,
                  next_deposit, next_hold))"

section \<open>Withdrawal holds\<close>

type_synonym withdrawal_resolved =
  "ApplyOutcome \<times> ApplyOutcome \<times> Amount \<times> WithdrawalRecord \<times> ReconciliationHoldRecord"

definition held_attempt ::
    "WithdrawalRecord \<Rightarrow> ReconciliationHoldRecord \<Rightarrow> TransferAttempt core_result" where
  "held_attempt w h = (case wr_state w of
      WS_ReconciliationHold hold_id attempt _ \<Rightarrow>
        if hold_id = hr_id h then Inr attempt else Inl HoldMismatch
    | WS_Paid attempt _ _ (Some source) \<Rightarrow>
        if source = hr_id h then Inr attempt else Inl HoldMismatch
    | WS_ReleasePending attempt _ \<Rightarrow>
        if 0 < ta_attempt_no attempt then Inr attempt else Inl HoldMismatch
    | _ \<Rightarrow> Inl HoldMismatch)"

definition hold_release_settles :: "Settlement \<Rightarrow> Amount core_result" where
  "hold_release_settles s =
    try_bind (ok_or SettlementMismatch
      (withdrawal_transition_effects 3 4 (st_amount_out s) (st_ledger_fee s) (st_service_fee s)))
    (\<lambda>(next_state, escrow_debit, reserve_credit, liability_debit).
      if next_state \<noteq> 2 then Inl SettlementMismatch
      else try_bind (amount_checked_add (st_amount_out s) (st_ledger_fee s)) (\<lambda>escrow.
        if escrow_debit \<noteq> escrow then Inl SettlementMismatch
        else try_bind (amount_checked_add (st_amount_out s) (st_service_fee s)) (\<lambda>liability.
          if liability_debit \<noteq> liability then Inl SettlementMismatch
          else Inr reserve_credit)))"

definition resolve_release_succeeded ::
    "WithdrawalRecord \<Rightarrow> ReconciliationHoldRecord \<Rightarrow> u128 \<Rightarrow> withdrawal_resolved core_result" where
  "resolve_release_succeeded w h block =
    (let current_release = withdrawal_release_block (wr_state w) in
      try_bind (ok_or LedgerBlockConflict
        (withdrawal_ledger_block_transition current_release 1 block)) (\<lambda>release.
      try_bind (ok_or LedgerBlockConflict release) (\<lambda>next_release.
      try_bind (resolve_succeeded h next_release) (\<lambda>(ho, h').
        (case wr_state w of
          WS_ReconciliationHold _ attempt settlement \<Rightarrow>
            try_bind (hold_release_settles settlement) (\<lambda>reserve_credit.
            Inr (ho, Applied, reserve_credit,
              w \<lparr> wr_state := WS_Paid attempt settlement next_release (Some (hr_id h)) \<rparr>, h'))
        | WS_Paid _ _ current (Some source) \<Rightarrow>
            if source = hr_id h \<and> current = block then Inr (ho, Idempotent, 0, w, h')
            else Inl HoldMismatch
        | _ \<Rightarrow> Inl HoldMismatch)))))"

definition resolve_release_absent ::
    "WithdrawalRecord \<Rightarrow> ReconciliationHoldRecord \<Rightarrow> u128 \<Rightarrow> LedgerTransferIdentity
      \<Rightarrow> withdrawal_resolved core_result" where
  "resolve_release_absent w h watermark next_identity =
    try_bind (resolve_absent h watermark) (\<lambda>(ho, h').
      (case wr_state w of
        WS_ReconciliationHold _ attempt settlement \<Rightarrow>
          try_bind (ok_or SettlementMismatch
            (withdrawal_transition_effects 3 5 (st_amount_out settlement)
              (st_ledger_fee settlement) (st_service_fee settlement)))
          (\<lambda>(next_state, escrow_debit, reserve_credit, liability_debit).
            if next_state \<noteq> 1 \<or> escrow_debit \<noteq> 0 \<or> reserve_credit \<noteq> 0 \<or> liability_debit \<noteq> 0
            then Inl SettlementMismatch
            else try_bind (retry_after_absence attempt next_identity) (\<lambda>next_attempt.
              Inr (ho, Applied, 0,
                w \<lparr> wr_state := WS_ReleasePending next_attempt settlement \<rparr>, h')))
      | WS_ReleasePending attempt _ \<Rightarrow>
          if ta_identity attempt = next_identity then Inr (ho, Idempotent, 0, w, h')
          else Inl HoldMismatch
      | _ \<Rightarrow> Inl HoldMismatch))"

definition resolve_withdrawal_hold ::
    "WithdrawalRecord \<Rightarrow> ReconciliationHoldRecord \<Rightarrow> WithdrawalHoldResolution
      \<Rightarrow> (ApplyResult \<times> WithdrawalRecord \<times> ReconciliationHoldRecord) core_result" where
  "resolve_withdrawal_hold w h resolution =
    (if hr_request h \<noteq> WithdrawalRequest (wr_id w) then Inl HoldMismatch
     else try_bind (held_attempt w h) (\<lambda>held.
       if hr_transfer h \<noteq> ta_identity held \<and> ta_attempt_no held = 0 then Inl HoldMismatch
       else try_bind (case resolution of
           WH_Succeeded block \<Rightarrow> resolve_release_succeeded w h block
         | WH_Absent watermark next_identity \<Rightarrow>
             resolve_release_absent w h watermark next_identity)
         (\<lambda>(hold_outcome, request_outcome, fee_delta, next_withdrawal, next_hold).
           if hold_outcome \<noteq> request_outcome then Inl ConflictingReplay
           else Inr (if request_outcome = Applied then result_applied fee_delta
                     else result_idempotent, next_withdrawal, next_hold))))"

section \<open>Resolution as a relation\<close>

text \<open>A resolution takes effect on an open hold that the request is waiting for.\<close>

definition funding_hold_matches :: "DepositRecord \<Rightarrow> ReconciliationHoldRecord \<Rightarrow> bool" where
  "funding_hold_matches d h =
    (hr_request h = DepositFunding (dr_id d) \<and> hr_transfer h = dr_transfer d)"

inductive deposit_hold_step ::
    "DepositRecord \<Rightarrow> ReconciliationHoldRecord \<Rightarrow> DepositHoldResolution
      \<Rightarrow> DepositRecord \<Rightarrow> ReconciliationHoldRecord \<Rightarrow> bool" where
  funding_found:
    "dr_state d = DS_FundingReconciliationHold (hr_id h) \<Longrightarrow> funding_hold_matches d h
     \<Longrightarrow> hr_state h = HS_Open
     \<Longrightarrow> deposit_hold_step d h (DH_FundingSucceeded b)
          (d \<lparr> dr_state := DS_EscrowedUnquoted b \<rparr>) (h \<lparr> hr_state := HS_ResolvedSucceeded b \<rparr>)"
| funding_missing:
    "dr_state d = DS_FundingReconciliationHold (hr_id h) \<Longrightarrow> funding_hold_matches d h
     \<Longrightarrow> hr_state h = HS_Open
     \<Longrightarrow> deposit_hold_step d h (DH_FundingAbsent m)
          (d \<lparr> dr_state := DS_Cancelled (Some (hr_id h)) (Some m) None \<rparr>)
          (h \<lparr> hr_state := HS_ResolvedAbsent m \<rparr>)"
| refund_found:
    "dr_state d = DS_RefundReconciliationHold reason f (hr_id h) attempt
     \<Longrightarrow> hr_request h = DepositRefund (dr_id d) \<Longrightarrow> hr_transfer h = ta_identity attempt
     \<Longrightarrow> hr_state h = HS_Open
     \<Longrightarrow> deposit_hold_step d h (DH_RefundSucceeded b)
          (d \<lparr> dr_state := DS_Refunded reason f attempt b (Some (hr_id h)) \<rparr>)
          (h \<lparr> hr_state := HS_ResolvedSucceeded b \<rparr>)"
| refund_missing:
    "dr_state d = DS_RefundReconciliationHold reason f (hr_id h) attempt
     \<Longrightarrow> hr_request h = DepositRefund (dr_id d) \<Longrightarrow> hr_transfer h = ta_identity attempt
     \<Longrightarrow> hr_state h = HS_Open \<Longrightarrow> retry_after_absence attempt next_identity = Inr replacement
     \<Longrightarrow> deposit_hold_step d h (DH_RefundAbsent m next_identity)
          (d \<lparr> dr_state := DS_RefundPending reason f replacement \<rparr>)
          (h \<lparr> hr_state := HS_ResolvedAbsent m \<rparr>)"

inductive_cases deposit_hold_stepE: "deposit_hold_step d h res d' h'"

inductive_simps deposit_hold_step_simps:
  "deposit_hold_step d h (DH_FundingSucceeded b) d' h'"
  "deposit_hold_step d h (DH_FundingAbsent m) d' h'"
  "deposit_hold_step d h (DH_RefundSucceeded b) d' h'"
  "deposit_hold_step d h (DH_RefundAbsent m n) d' h'"

text \<open>A resolution repeats an earlier one when the hold and the request both record it.\<close>

definition deposit_hold_repeats ::
    "DepositRecord \<Rightarrow> ReconciliationHoldRecord \<Rightarrow> DepositHoldResolution \<Rightarrow> bool" where
  "deposit_hold_repeats d h res = (case res of
      DH_FundingSucceeded b \<Rightarrow> funding_hold_matches d h \<and> hr_state h = HS_ResolvedSucceeded b
        \<and> funding_ledger_block_index d = Some b
    | DH_FundingAbsent m \<Rightarrow> funding_hold_matches d h \<and> hr_state h = HS_ResolvedAbsent m
        \<and> dr_state d = DS_Cancelled (Some (hr_id h)) (Some m) None
    | DH_RefundSucceeded b \<Rightarrow> hr_request h = DepositRefund (dr_id d)
        \<and> hr_state h = HS_ResolvedSucceeded b
        \<and> (case dr_state d of
            DS_Refunded _ _ attempt block source \<Rightarrow> source = Some (hr_id h) \<and> block = b
              \<and> hr_transfer h = ta_identity attempt
          | _ \<Rightarrow> False)
    | DH_RefundAbsent m n \<Rightarrow> hr_request h = DepositRefund (dr_id d)
        \<and> hr_state h = HS_ResolvedAbsent m
        \<and> (case dr_state d of
            DS_RefundPending _ _ attempt \<Rightarrow> ta_identity attempt = n
          | _ \<Rightarrow> False))"

inductive withdrawal_hold_step ::
    "WithdrawalRecord \<Rightarrow> ReconciliationHoldRecord \<Rightarrow> WithdrawalHoldResolution
      \<Rightarrow> Amount \<Rightarrow> WithdrawalRecord \<Rightarrow> ReconciliationHoldRecord \<Rightarrow> bool" where
  release_found:
    "wr_state w = WS_ReconciliationHold (hr_id h) attempt settlement
     \<Longrightarrow> hr_request h = WithdrawalRequest (wr_id w) \<Longrightarrow> hr_state h = HS_Open
     \<Longrightarrow> hr_transfer h = ta_identity attempt \<or> ta_attempt_no attempt \<noteq> 0
     \<Longrightarrow> unat (st_service_fee settlement) = unat (st_ledger_fee settlement) + unat credit
     \<Longrightarrow> withdrawal_hold_step w h (WH_Succeeded b) credit
          (w \<lparr> wr_state := WS_Paid attempt settlement b (Some (hr_id h)) \<rparr>)
          (h \<lparr> hr_state := HS_ResolvedSucceeded b \<rparr>)"
| release_missing:
    "wr_state w = WS_ReconciliationHold (hr_id h) attempt settlement
     \<Longrightarrow> hr_request h = WithdrawalRequest (wr_id w) \<Longrightarrow> hr_state h = HS_Open
     \<Longrightarrow> hr_transfer h = ta_identity attempt \<or> ta_attempt_no attempt \<noteq> 0
     \<Longrightarrow> retry_after_absence attempt next_identity = Inr replacement
     \<Longrightarrow> withdrawal_hold_step w h (WH_Absent m next_identity) 0
          (w \<lparr> wr_state := WS_ReleasePending replacement settlement \<rparr>)
          (h \<lparr> hr_state := HS_ResolvedAbsent m \<rparr>)"

inductive_cases withdrawal_hold_stepE: "withdrawal_hold_step w h res c w' h'"

inductive_simps withdrawal_hold_step_simps:
  "withdrawal_hold_step w h (WH_Succeeded b) c w' h'"
  "withdrawal_hold_step w h (WH_Absent m n) c w' h'"

definition withdrawal_hold_repeats ::
    "WithdrawalRecord \<Rightarrow> ReconciliationHoldRecord \<Rightarrow> WithdrawalHoldResolution \<Rightarrow> bool" where
  "withdrawal_hold_repeats w h res =
    (hr_request h = WithdrawalRequest (wr_id w)
     \<and> (case res of
          WH_Succeeded b \<Rightarrow> hr_state h = HS_ResolvedSucceeded b
            \<and> (case wr_state w of
                WS_Paid attempt _ block source \<Rightarrow> source = Some (hr_id h) \<and> block = b
                  \<and> (hr_transfer h = ta_identity attempt \<or> ta_attempt_no attempt \<noteq> 0)
              | _ \<Rightarrow> False)
        | WH_Absent m n \<Rightarrow> hr_state h = HS_ResolvedAbsent m
            \<and> (case wr_state w of
                WS_ReleasePending attempt _ \<Rightarrow> ta_attempt_no attempt \<noteq> 0 \<and> ta_identity attempt = n
              | _ \<Rightarrow> False)))"

section \<open>Functional behaviour\<close>

lemma resolve_succeeded_exact:
  "resolve_succeeded h b = Inr (ho, h') \<longleftrightarrow>
    (hr_state h = HS_Open \<and> ho = Applied \<and> h' = h \<lparr> hr_state := HS_ResolvedSucceeded b \<rparr>)
    \<or> (hr_state h = HS_ResolvedSucceeded b \<and> ho = Idempotent \<and> h' = h)"
  by (auto simp: resolve_succeeded_def split: ReconciliationHoldState.splits)

lemma resolve_absent_exact:
  "resolve_absent h m = Inr (ho, h') \<longleftrightarrow>
    (hr_state h = HS_Open \<and> ho = Applied \<and> h' = h \<lparr> hr_state := HS_ResolvedAbsent m \<rparr>)
    \<or> (hr_state h = HS_ResolvedAbsent m \<and> ho = Idempotent \<and> h' = h)"
  by (auto simp: resolve_absent_def split: ReconciliationHoldState.splits)

lemma hold_release_settles_exact:
  assumes "withdrawal_amounts_wf w" and "release_matches w attempt s"
  shows "hold_release_settles s = Inr credit \<longleftrightarrow>
    unat (st_service_fee s) = unat (st_ledger_fee s) + unat credit"
proof -
  have fees: "st_amount_out s = wr_amount_out w" "st_service_fee s = wr_charged_service_fee w"
      "st_ledger_fee s \<le> wr_charged_service_fee w"
    using assms(2) by (auto simp: release_matches_def)
  obtain e c l where o: "outbound_settlement (st_amount_out s) (st_ledger_fee s) (st_service_fee s)
        = Some (e, c, l)" and c: "unat (st_service_fee s) = unat (st_ledger_fee s) + unat c"
      and e: "unat e = unat (st_amount_out s) + unat (st_ledger_fee s)" and l: "l = wr_amount w"
    using settlement_bookable [of "wr_amount w" "wr_amount_out w" "wr_charged_service_fee w"
        "st_ledger_fee s"] fees assms(1) by (auto simp: withdrawal_amounts_wf_def)
  have "amount_checked_add (st_amount_out s) (st_ledger_fee s) = Inr e"
    using e by (simp add: result_simps)
  moreover have "amount_checked_add (st_amount_out s) (st_service_fee s) = Inr l"
    using l fees assms(1) by (simp add: result_simps withdrawal_amounts_wf_def)
  moreover have "unat (st_service_fee s) = unat (st_ledger_fee s) + unat c' \<longleftrightarrow> c = c'" for c'
    using c unat_eqD [of c' c] by auto
  ultimately show ?thesis
    using o by (auto simp: hold_release_settles_def withdrawal_effects_table result_simps)
qed

lemma funding_succeeded_exact:
  "resolve_funding_succeeded d h b = Inr (o1, o2, d', h') \<and> o1 = o2 \<longleftrightarrow>
    (o1 = Idempotent \<and> o2 = Idempotent \<and> deposit_hold_repeats d h (DH_FundingSucceeded b)
      \<and> d' = d \<and> h' = h)
    \<or> (o1 = Applied \<and> o2 = Applied \<and> deposit_hold_step d h (DH_FundingSucceeded b) d' h')"
  by (cases "dr_state d")
    (auto simp: resolve_funding_succeeded_def deposit_hold_step_simps deposit_hold_repeats_def
      funding_hold_matches_def result_simps deposit_block_exact resolve_succeeded_exact Let_def
      funding_ledger_block_index_def state_ledger_blocks_def)

lemma funding_absent_exact:
  "resolve_funding_absent d h m = Inr (o1, o2, d', h') \<and> o1 = o2 \<longleftrightarrow>
    (o1 = Idempotent \<and> o2 = Idempotent \<and> deposit_hold_repeats d h (DH_FundingAbsent m)
      \<and> d' = d \<and> h' = h)
    \<or> (o1 = Applied \<and> o2 = Applied \<and> deposit_hold_step d h (DH_FundingAbsent m) d' h')"
proof (cases "dr_state d")
  case (DS_Cancelled i w failure)
  then show ?thesis
    by (cases i; cases w; cases failure)
      (auto simp: resolve_funding_absent_def deposit_hold_step_simps deposit_hold_repeats_def
        funding_hold_matches_def result_simps resolve_absent_exact)
qed (auto simp: resolve_funding_absent_def deposit_hold_step_simps deposit_hold_repeats_def
    funding_hold_matches_def result_simps resolve_absent_exact)

lemma refund_succeeded_exact:
  "resolve_refund_succeeded d h b = Inr (o1, o2, d', h') \<and> o1 = o2 \<longleftrightarrow>
    (o1 = Idempotent \<and> o2 = Idempotent \<and> deposit_hold_repeats d h (DH_RefundSucceeded b)
      \<and> d' = d \<and> h' = h)
    \<or> (o1 = Applied \<and> o2 = Applied \<and> deposit_hold_step d h (DH_RefundSucceeded b) d' h')"
proof (cases "dr_state d")
  case (DS_Refunded reason f attempt block source)
  then show ?thesis
    by (cases source)
      (auto simp: resolve_refund_succeeded_def deposit_hold_step_simps deposit_hold_repeats_def
        refund_hold_blocks_def result_simps deposit_block_exact resolve_succeeded_exact Let_def)
qed (auto simp: resolve_refund_succeeded_def deposit_hold_step_simps deposit_hold_repeats_def
    refund_hold_blocks_def result_simps deposit_block_exact resolve_succeeded_exact Let_def)

lemma refund_absent_exact:
  "resolve_refund_absent d h m n = Inr (o1, o2, d', h') \<and> o1 = o2 \<longleftrightarrow>
    (o1 = Idempotent \<and> o2 = Idempotent \<and> deposit_hold_repeats d h (DH_RefundAbsent m n)
      \<and> d' = d \<and> h' = h)
    \<or> (o1 = Applied \<and> o2 = Applied \<and> deposit_hold_step d h (DH_RefundAbsent m n) d' h')"
proof (cases "dr_state d")
  case (DS_RefundReconciliationHold reason f i attempt)
  then show ?thesis
    by (cases "retry_after_absence attempt n"; cases "hr_state h")
      (auto simp: resolve_refund_absent_def deposit_hold_step_simps deposit_hold_repeats_def
        resolve_absent_def)
qed (auto simp: resolve_refund_absent_def deposit_hold_step_simps deposit_hold_repeats_def
    result_simps resolve_absent_exact)

definition outcome_result :: "ApplyOutcome \<Rightarrow> Amount \<Rightarrow> ApplyResult" where
  "outcome_result out fee = (if out = Applied then result_applied fee else result_idempotent)"

lemma outcome_result_simps [simp]:
  "outcome_result Applied fee = result_applied fee"
  "outcome_result Idempotent fee = result_idempotent"
  by (simp_all add: outcome_result_def)

lemma outcome_shape:
  "try_bind arm (\<lambda>(o1, o2, x, y). if o1 \<noteq> o2 then Inl ConflictingReplay
      else Inr (if o2 = Applied then result_applied 0 else result_idempotent, x, y))
    = Inr (r, d', h') \<longleftrightarrow>
    (\<exists>o1 o2. (arm = Inr (o1, o2, d', h') \<and> o1 = o2) \<and> r = outcome_result o2 0)"
proof (cases arm)
  case (Inr p)
  then show ?thesis
    by (cases p) (auto simp: outcome_result_def [symmetric])
qed simp

lemma outcome_choice:
  "(\<exists>o1 o2. ((o1 = Idempotent \<and> o2 = Idempotent \<and> P) \<or> (o1 = Applied \<and> o2 = Applied \<and> Q))
      \<and> r = outcome_result o2 0) \<longleftrightarrow>
    (P \<and> r = result_idempotent) \<or> (Q \<and> r = result_applied 0)"
  by force

lemma resolve_deposit_hold_exact:
  "resolve_deposit_hold d h res = Inr (r, d', h') \<longleftrightarrow>
    (deposit_hold_repeats d h res \<and> r = result_idempotent \<and> d' = d \<and> h' = h)
    \<or> (deposit_hold_step d h res d' h' \<and> r = result_applied 0)"
  unfolding resolve_deposit_hold_def outcome_shape
  by (cases res) (simp_all only: DepositHoldResolution.case funding_succeeded_exact
      funding_absent_exact refund_succeeded_exact refund_absent_exact outcome_choice, blast+)

lemma withdrawal_outcome_shape:
  "try_bind arm (\<lambda>(o1, o2, c, x, y). if o1 \<noteq> o2 then Inl ConflictingReplay
      else Inr (if o2 = Applied then result_applied c else result_idempotent, x, y))
    = Inr (r, w', h') \<longleftrightarrow>
    (\<exists>out c. arm = Inr (out, out, c, w', h') \<and> r = outcome_result out c)"
proof (cases arm)
  case (Inr p)
  then show ?thesis
    by (cases p) (auto simp: outcome_result_def [symmetric])
qed simp

lemma resolve_withdrawal_hold_exact:
  assumes wf: "withdrawal_wf w"
  shows "resolve_withdrawal_hold w h res = Inr (r, w', h') \<longleftrightarrow>
    (withdrawal_hold_repeats w h res \<and> r = result_idempotent \<and> w' = w \<and> h' = h)
    \<or> (\<exists>credit. withdrawal_hold_step w h res credit w' h' \<and> r = result_applied credit)"
proof (cases "wr_state w")
  case (WS_ReconciliationHold i a s)
  then have "hold_release_settles s = Inr c \<longleftrightarrow>
      unat (st_service_fee s) = unat (st_ledger_fee s) + unat c" for c
    using wf by (intro hold_release_settles_exact [of w a]) (simp_all add: withdrawal_wf_def)
  then show ?thesis
    using WS_ReconciliationHold unfolding resolve_withdrawal_hold_def withdrawal_outcome_shape
    by (cases res) (auto simp: result_simps held_attempt_def resolve_release_succeeded_def
        resolve_release_absent_def withdrawal_hold_repeats_def withdrawal_hold_step_simps Let_def
        withdrawal_block_exact withdrawal_release_block_def resolve_succeeded_exact
        resolve_absent_exact withdrawal_effects_table)
qed (cases res; auto simp: resolve_withdrawal_hold_def withdrawal_outcome_shape result_simps
    held_attempt_def resolve_release_succeeded_def
        resolve_release_absent_def withdrawal_hold_repeats_def withdrawal_hold_step_simps Let_def
        withdrawal_block_exact withdrawal_release_block_def resolve_succeeded_exact
        resolve_absent_exact word_gt_0 split: option.splits)+

section \<open>Invariants, replay and progress\<close>

lemma retry_same_transfer:
  "retry_after_absence a i = Inr b \<Longrightarrow> same_transfer (ta_identity b) (ta_identity a)"
  by (auto simp: retry_eq_Inr)

lemma release_matches_retry:
  "release_matches w a s \<Longrightarrow> retry_after_absence a i = Inr b \<Longrightarrow> release_matches w b s"
  by (auto dest!: retry_same_transfer simp: same_transfer_def release_matches_def)

lemma refund_started_retry:
  "refund_started d reason a \<Longrightarrow> retry_after_absence a i = Inr b \<Longrightarrow> refund_started d reason b"
  by (auto dest!: retry_same_transfer simp: same_transfer_def refund_started_def refund_pays_def)

lemma refund_started_state [simp]:
  "refund_started (d \<lparr> dr_state := s \<rparr>) = refund_started d"
  by (rule ext)+
    (simp add: refund_started_def refundable_def deposit_unquoted_def deposit_quoted_def
      authorization_bound_def commit_fixed_fields_match_def refund_pays_def deposit_outstanding_def
      authorization_signed_def expiry_evidence_matches_def cong: option.case_cong)

lemma deposit_hold_step_wf:
  "deposit_hold_step d h res d' h' \<Longrightarrow> deposit_wf d \<Longrightarrow> deposit_wf d'"
  by (induction rule: deposit_hold_step.induct)
    (auto simp: deposit_wf_def deposit_unquoted_def no_evidence_def intro: refund_started_retry)

lemma withdrawal_hold_step_wf:
  "withdrawal_hold_step w h res c w' h' \<Longrightarrow> withdrawal_wf w \<Longrightarrow> withdrawal_wf w'"
  by (induction rule: withdrawal_hold_step.induct)
    (auto simp: withdrawal_wf_def intro: release_matches_retry)

lemma deposit_hold_step_repeats:
  "deposit_hold_step d h res d' h' \<Longrightarrow> deposit_hold_repeats d' h' res"
  by (induction rule: deposit_hold_step.induct)
    (auto simp: deposit_hold_repeats_def funding_hold_matches_def funding_ledger_block_index_def
      state_ledger_blocks_def retry_eq_Inr)

lemma withdrawal_hold_step_repeats:
  "withdrawal_hold_step w h res c w' h' \<Longrightarrow> withdrawal_hold_repeats w' h' res"
  by (induction rule: withdrawal_hold_step.induct)
    (auto simp: withdrawal_hold_repeats_def retry_eq_Inr)

lemma withdrawal_hold_step_fee:
  "withdrawal_hold_step w h res c w' h' \<Longrightarrow>
    withdrawal_fee_level w' = withdrawal_fee_level w + uint c"
  by (induction rule: withdrawal_hold_step.induct)
    (auto simp: withdrawal_fee_level_def dest: uint_of_sum)

definition hold_rank :: "ReconciliationHoldRecord \<Rightarrow> nat" where
  "hold_rank h = (if hr_state h = HS_Open then 0 else 1)"

lemma deposit_hold_step_rank: "deposit_hold_step d h res d' h' \<Longrightarrow> hold_rank h < hold_rank h'"
  by (induction rule: deposit_hold_step.induct) (simp_all add: hold_rank_def)

lemma withdrawal_hold_step_rank:
  "withdrawal_hold_step w h res c w' h' \<Longrightarrow> hold_rank h < hold_rank h'"
  by (induction rule: withdrawal_hold_step.induct) (simp_all add: hold_rank_def)

text \<open>A request and its hold, as one machine.\<close>

definition deposit_hold_machine ::
    "(DepositRecord \<times> ReconciliationHoldRecord, DepositHoldResolution, CoreError, ApplyResult) machine" where
  "deposit_hold_machine p = resolve_deposit_hold (fst p) (snd p)"

definition withdrawal_hold_machine ::
    "(WithdrawalRecord \<times> ReconciliationHoldRecord, WithdrawalHoldResolution, CoreError, ApplyResult)
      machine" where
  "withdrawal_hold_machine p = resolve_withdrawal_hold (fst p) (snd p)"

lemma deposit_hold_machine_exact:
  "deposit_hold_machine p res = Inr (r, p') \<longleftrightarrow>
    (deposit_hold_repeats (fst p) (snd p) res \<and> r = result_idempotent \<and> p' = p)
    \<or> (deposit_hold_step (fst p) (snd p) res (fst p') (snd p') \<and> r = result_applied 0)"
  by (cases p; cases p') (auto simp: deposit_hold_machine_def resolve_deposit_hold_exact)

lemma withdrawal_hold_machine_exact:
  "withdrawal_wf (fst p) \<Longrightarrow> withdrawal_hold_machine p res = Inr (r, p') \<longleftrightarrow>
    (withdrawal_hold_repeats (fst p) (snd p) res \<and> r = result_idempotent \<and> p' = p)
    \<or> (\<exists>c. withdrawal_hold_step (fst p) (snd p) res c (fst p') (snd p') \<and> r = result_applied c)"
  by (cases p; cases p') (auto simp: withdrawal_hold_machine_def resolve_withdrawal_hold_exact)

lemma withdrawal_release_keeps:
  assumes "resolve_release_succeeded w h b = Inr (Idempotent, Idempotent, c, w', h')"
  shows "w' = w \<and> h' = h"
proof (cases "wr_state w")
  case (WS_Paid attempt settlement block source)
  then show ?thesis
    using assms by (cases source)
      (auto simp: resolve_release_succeeded_def Let_def result_simps resolve_succeeded_exact
        split: if_splits)
qed (use assms in \<open>auto simp: resolve_release_succeeded_def Let_def result_simps\<close>)

lemma withdrawal_absence_keeps:
  assumes "resolve_release_absent w h m n = Inr (Idempotent, Idempotent, c, w', h')"
  shows "w' = w \<and> h' = h"
  using assms by (cases "wr_state w")
    (auto simp: resolve_release_absent_def result_simps resolve_absent_exact split: if_splits)

lemma outcome_result_Idempotent:
  "ar_outcome (outcome_result out c) = Idempotent \<longleftrightarrow> out = Idempotent"
  by (cases out) simp_all

lemma resolve_withdrawal_hold_arm:
  assumes "resolve_withdrawal_hold w h res = Inr (r, w', h')"
  obtains out c where "(case res of
        WH_Succeeded b \<Rightarrow> resolve_release_succeeded w h b
      | WH_Absent m n \<Rightarrow> resolve_release_absent w h m n) = Inr (out, out, c, w', h')"
    and "r = outcome_result out c"
proof -
  have "\<exists>held. held_attempt w h = Inr held \<and> \<not> (hr_transfer h \<noteq> ta_identity held
        \<and> ta_attempt_no held = 0)
      \<and> (\<exists>out c. (case res of
            WH_Succeeded b \<Rightarrow> resolve_release_succeeded w h b
          | WH_Absent m n \<Rightarrow> resolve_release_absent w h m n) = Inr (out, out, c, w', h')
        \<and> r = outcome_result out c)"
    using assms unfolding resolve_withdrawal_hold_def
    by (simp only: if_Inl_eq_Inr try_bind_eq_Inr [where r = "held_attempt w h"]
        withdrawal_outcome_shape)
  then show thesis
    using that by blast
qed

lemma withdrawal_hold_machine_idempotent:
  assumes "withdrawal_hold_machine p res = Inr (r, p')" and "ar_outcome r = Idempotent"
  shows "r = result_idempotent \<and> p' = p"
proof -
  obtain w h w' h' where p: "p = (w, h)" "p' = (w', h')"
    by (cases p; cases p')
  from assms(1) have "resolve_withdrawal_hold w h res = Inr (r, w', h')"
    by (simp add: withdrawal_hold_machine_def p)
  then obtain out c where arm: "(case res of
        WH_Succeeded b \<Rightarrow> resolve_release_succeeded w h b
      | WH_Absent m n \<Rightarrow> resolve_release_absent w h m n) = Inr (out, out, c, w', h')"
    and r: "r = outcome_result out c"
    by (rule resolve_withdrawal_hold_arm)
  then have out: "out = Idempotent"
    using assms(2) outcome_result_Idempotent by simp
  then have "w' = w \<and> h' = h"
    using arm withdrawal_release_keeps withdrawal_absence_keeps
    by (cases res) auto
  then show ?thesis
    using p r out by simp
qed

interpretation deposit_holds: progressing_machine deposit_hold_machine "\<lambda>p. deposit_wf (fst p)"
  "\<lambda>p. hold_rank (snd p)" 1
proof
  show "deposit_wf (fst p')"
    if "deposit_wf (fst p)" "deposit_hold_machine p res = Inr (r, p')" for p res r p'
    using that deposit_hold_step_wf by (auto simp: deposit_hold_machine_exact)
  show "r = result_idempotent \<and> p' = p"
    if "deposit_hold_machine p res = Inr (r, p')" "ar_outcome r = Idempotent" for p res r p'
    using that by (auto simp: deposit_hold_machine_exact)
  show "deposit_hold_machine p' res = Inr (result_idempotent, p')"
    if "deposit_wf (fst p)" "deposit_hold_machine p res = Inr (r, p')" for p res r p'
    using that deposit_hold_step_repeats by (auto simp: deposit_hold_machine_exact)
  show "hold_rank (snd p) < hold_rank (snd p')"
    if "deposit_wf (fst p)" "deposit_hold_machine p res = Inr (r, p')" "ar_outcome r = Applied"
    for p res r p'
    using that deposit_hold_step_rank by (auto simp: deposit_hold_machine_exact)
  show "hold_rank (snd p) \<le> 1" for p :: "DepositRecord \<times> ReconciliationHoldRecord"
    by (simp add: hold_rank_def)
qed

interpretation withdrawal_holds: progressing_machine withdrawal_hold_machine
  "\<lambda>p. withdrawal_wf (fst p)" "\<lambda>p. hold_rank (snd p)" 1
proof
  show "withdrawal_wf (fst p')"
    if "withdrawal_wf (fst p)" "withdrawal_hold_machine p res = Inr (r, p')" for p res r p'
    using that withdrawal_hold_step_wf by (auto simp: withdrawal_hold_machine_exact)
  show "r = result_idempotent \<and> p' = p"
    if "withdrawal_hold_machine p res = Inr (r, p')" "ar_outcome r = Idempotent" for p res r p'
    using that by (rule withdrawal_hold_machine_idempotent)
  show "withdrawal_hold_machine p' res = Inr (result_idempotent, p')"
    if wf: "withdrawal_wf (fst p)" and step: "withdrawal_hold_machine p res = Inr (r, p')"
    for p res r p'
  proof -
    have "withdrawal_wf (fst p')" "withdrawal_hold_repeats (fst p') (snd p') res"
      using wf step withdrawal_hold_step_wf withdrawal_hold_step_repeats
      by (auto simp: withdrawal_hold_machine_exact)
    then show ?thesis
      by (simp add: withdrawal_hold_machine_exact)
  qed
  show "hold_rank (snd p) < hold_rank (snd p')"
    if "withdrawal_wf (fst p)" "withdrawal_hold_machine p res = Inr (r, p')"
      "ar_outcome r = Applied" for p res r p'
    using that withdrawal_hold_step_rank by (auto simp: withdrawal_hold_machine_exact)
  show "hold_rank (snd p) \<le> 1" for p :: "WithdrawalRecord \<times> ReconciliationHoldRecord"
    by (simp add: hold_rank_def)
qed

interpretation withdrawal_hold_fees: accounted_machine withdrawal_hold_machine
  "\<lambda>p. withdrawal_wf (fst p)" "\<lambda>r. uint (ar_fee_delta r)" "\<lambda>p. withdrawal_fee_level (fst p)"
proof
  show "withdrawal_fee_level (fst p') = withdrawal_fee_level (fst p) + uint (ar_fee_delta r)"
    if "withdrawal_wf (fst p)" "withdrawal_hold_machine p res = Inr (r, p')" for p res r p'
    using that withdrawal_hold_step_fee by (auto simp: withdrawal_hold_machine_exact)
qed

section \<open>Properties\<close>

definition example_hold :: "LedgerTransferIdentity \<Rightarrow> ReconciliationHoldRecord" where
  "example_hold transfer = hold_open 4 (WithdrawalRequest (replicate 32 3)) transfer"

definition example_held :: "u64 \<Rightarrow> WithdrawalRecord" where
  "example_held n = example_withdrawal
    (WS_ReconciliationHold 4 (example_attempt \<lparr> ta_attempt_no := n \<rparr>) example_settlement)"

lemma example_held_wf: "withdrawal_wf (example_held n)"
  by (simp add: withdrawal_wf_def withdrawal_amounts_wf_def release_matches_def example_held_def
      withdrawal_examples)

definition sample_held :: DepositRecord where
  "sample_held = sample_deposit (DS_FundingReconciliationHold 4) None None"

definition sample_hold :: ReconciliationHoldRecord where
  "sample_hold = hold_open 4 (DepositFunding (dr_id sample_held)) (dr_transfer sample_held)"

lemma sample_held_wf: "deposit_wf sample_held"
  by (simp add: sample_held_def deposit_wf_def deposit_unquoted_def no_evidence_def sample_defs)

text \<open>
  C8.  \<open>resolve_deposit_hold\<close> takes effect exactly when the deposit waits for this open hold, the hold
  names the deposit and carries the transfer in doubt, and (for an absent refund) the replacement
  repeats the transfer under a new memo and a later time; it returns idempotent exactly when both
  records already hold this resolution; it is an error otherwise.  A found transfer stores its
  block, an absent funding cancels the deposit, an absent refund puts the replacement in place.
\<close>

theorem deposit_hold_complete:
  "resolve_deposit_hold d h res = Inr (r, d', h') \<longleftrightarrow>
    (deposit_hold_repeats d h res \<and> r = result_idempotent \<and> d' = d \<and> h' = h)
    \<or> (deposit_hold_step d h res d' h' \<and> r = result_applied 0)"
  by (rule resolve_deposit_hold_exact)

text \<open>
  C9.  \<open>resolve_withdrawal_hold\<close> on a well-formed withdrawal takes effect exactly when the withdrawal
  waits for this open hold and the hold names it, and credits the fee reserve with the committed
  service fee minus the ledger fee when the release was found and with nothing when it was absent.
  The settlement checks of the function never reject a well-formed withdrawal.
\<close>

theorem withdrawal_hold_complete:
  assumes "withdrawal_wf w"
  shows "resolve_withdrawal_hold w h res = Inr (r, w', h') \<longleftrightarrow>
    (withdrawal_hold_repeats w h res \<and> r = result_idempotent \<and> w' = w \<and> h' = h)
    \<or> (\<exists>credit. withdrawal_hold_step w h res credit w' h' \<and> r = result_applied credit)"
  using assms by (rule resolve_withdrawal_hold_exact)

theorem withdrawal_hold_complete_witness:
  "withdrawal_wf (example_held 0)
    \<and> (\<exists>h'. resolve_withdrawal_hold (example_held 0) (example_hold example_release) (WH_Succeeded 12)
      = Inr (result_applied 9, example_withdrawal
          (WS_Paid example_attempt example_settlement 12 (Some 4)), h'))"
proof -
  have "withdrawal_hold_step (example_held 0) (example_hold example_release) (WH_Succeeded 12) 9
      (example_withdrawal (WS_Paid example_attempt example_settlement 12 (Some 4)))
      ((example_hold example_release) \<lparr> hr_state := HS_ResolvedSucceeded 12 \<rparr>)"
    by (simp add: withdrawal_hold_step_simps example_held_def example_hold_def hold_open_def
        withdrawal_examples)
  then show ?thesis
    using withdrawal_hold_complete [OF example_held_wf [of 0]] example_held_wf [of 0] by blast
qed

text \<open>
  C10.  A hold is resolved at most once.  Whatever resolutions are delivered to a deposit and its hold,
  in any order and any number of times, at most one takes effect, repeating one in a row changes
  nothing, and the deposit stays well-formed.
\<close>

theorem deposit_hold_resolved_once:
  assumes "deposit_wf d"
  shows "applied_count (run_results deposit_hold_machine (d, h) rs) \<le> 1
    \<and> run_events deposit_hold_machine (d, h) (remdups_adj rs)
      = run_events deposit_hold_machine (d, h) rs
    \<and> deposit_wf (fst (run_events deposit_hold_machine (d, h) rs))"
  using deposit_holds.applied_bounded [of "(d, h)" rs] deposit_holds.run_duplicates [of "(d, h)" rs]
    deposit_holds.run_inv [of "(d, h)" rs] assms by simp

theorem deposit_hold_resolved_once_witness:
  "deposit_wf sample_held
    \<and> applied_count (run_results deposit_hold_machine (sample_held, sample_hold)
        [DH_FundingSucceeded 9, DH_FundingAbsent 8, DH_FundingSucceeded 9]) \<le> 1"
  using deposit_hold_resolved_once [OF sample_held_wf] sample_held_wf by blast

text \<open>
  C11.  The same for a withdrawal and its hold, and the fee is credited once: over any sequence of
  resolutions the credits sum to what the withdrawal's state accounts for, the service fee minus
  the ledger fee if it ended paid and nothing if it did not.
\<close>

theorem withdrawal_hold_resolved_once:
  assumes "withdrawal_wf w" and "wr_state w = WS_ReconciliationHold i attempt settlement"
  shows "applied_count (run_results withdrawal_hold_machine (w, h) rs) \<le> 1
    \<and> sum_list (map (\<lambda>r. uint (ar_fee_delta r)) (run_results withdrawal_hold_machine (w, h) rs))
      = withdrawal_fee_level (fst (run_events withdrawal_hold_machine (w, h) rs))"
proof -
  have "withdrawal_fee_level w = 0"
    using assms(2) by (simp add: withdrawal_fee_level_def)
  then show ?thesis
    using withdrawal_holds.applied_bounded [of "(w, h)" rs]
      withdrawal_hold_fees.run_level [of "(w, h)" rs] assms(1) by simp
qed

theorem withdrawal_hold_resolved_once_witness:
  "withdrawal_wf (example_held 0)
    \<and> applied_count (run_results withdrawal_hold_machine
        (example_held 0, example_hold example_release) [WH_Succeeded 12, WH_Succeeded 12]) \<le> 1"
proof -
  have "wr_state (example_held 0) = WS_ReconciliationHold 4 example_attempt example_settlement"
    by (simp add: example_held_def withdrawal_examples)
  then show ?thesis
    using withdrawal_hold_resolved_once [OF example_held_wf [of 0]] example_held_wf [of 0] by blast
qed

text \<open>
  C16.  What \<open>resolve_withdrawal_hold\<close> does not check.  For a withdrawal that waits for its hold with a
  replacement attempt (attempt number above zero), the resolution \<open>Succeeded\<close> takes effect whatever
  transfer the hold carries: a hold bound to another transfer than the attempt's is accepted for a
  first resolution and not only for a replay of one.
\<close>

theorem replaced_attempt_hold_unbound:
  assumes "withdrawal_wf w" and "wr_state w = WS_ReconciliationHold (hr_id h) attempt settlement"
    and "ta_attempt_no attempt \<noteq> 0" and "hr_request h = WithdrawalRequest (wr_id w)"
    and "hr_state h = HS_Open"
  shows "\<exists>credit h'. resolve_withdrawal_hold w (h \<lparr> hr_transfer := transfer \<rparr>) (WH_Succeeded b)
    = Inr (result_applied credit,
        w \<lparr> wr_state := WS_Paid attempt settlement b (Some (hr_id h)) \<rparr>, h')"
proof -
  have "st_ledger_fee settlement \<le> st_service_fee settlement"
    using assms(1,2) by (auto simp: withdrawal_wf_def release_matches_def)
  then have "unat (st_service_fee settlement)
      = unat (st_ledger_fee settlement)
        + unat (st_service_fee settlement - st_ledger_fee settlement)"
    by (simp add: unat_sub word_le_nat_alt)
  then have "withdrawal_hold_step w (h \<lparr> hr_transfer := transfer \<rparr>) (WH_Succeeded b)
      (st_service_fee settlement - st_ledger_fee settlement)
      (w \<lparr> wr_state := WS_Paid attempt settlement b (Some (hr_id h)) \<rparr>)
      (h \<lparr> hr_transfer := transfer, hr_state := HS_ResolvedSucceeded b \<rparr>)"
    using assms by (simp add: withdrawal_hold_step_simps)
  then show ?thesis
    using resolve_withdrawal_hold_exact [OF assms(1)] by blast
qed

theorem replaced_attempt_hold_unbound_witness:
  "let foreign = example_release \<lparr> lt_amount := 1, lt_created_at_time_ns := 77 \<rparr> in
    foreign \<noteq> example_release
    \<and> (\<exists>credit w' h'. resolve_withdrawal_hold (example_held 1)
        ((example_hold example_release) \<lparr> hr_transfer := foreign \<rparr>) (WH_Succeeded 12)
      = Inr (result_applied credit, w', h'))"
proof -
  have "wr_state (example_held 1) = WS_ReconciliationHold (hr_id (example_hold example_release))
      (example_attempt \<lparr> ta_attempt_no := 1 \<rparr>) example_settlement"
    by (simp add: example_held_def example_hold_def hold_open_def withdrawal_examples)
  moreover have "hr_request (example_hold example_release) = WithdrawalRequest (wr_id (example_held 1))"
    "hr_state (example_hold example_release) = HS_Open"
    by (simp_all add: example_held_def example_hold_def hold_open_def withdrawal_examples)
  ultimately have "\<exists>credit w' h'. resolve_withdrawal_hold (example_held 1)
        ((example_hold example_release) \<lparr> hr_transfer := t \<rparr>) (WH_Succeeded 12)
      = Inr (result_applied credit, w', h')" for t
    using replaced_attempt_hold_unbound [OF example_held_wf [of 1], where transfer = t and b = 12]
    by fastforce
  then show ?thesis
    by (simp add: Let_def example_release_def)
qed

end
