(* ===== verification/Tracked_Table.thy ===== *)
theory Tracked_Table
  imports Bridge_Prelude
begin

text \<open>
  Tracked SQL tables (\<open>bridge-canister/src/storage/transaction.rs\<close>): a table with a primary key
  whose row count is kept in the table \<open>table_counts\<close>.  A table is its rows, as a map from keys to
  values, and its stored count.  An update runs in a transaction: an error leaves the caller with
  the old table.

  The invariant \<open>tracked_wf\<close> says that the stored count is the number of rows.  The locale
  \<open>tracked_index\<close> is the contract of an index: which entry a record has, with keys that no two
  records share; from it follows that the membership change of one record keeps the index equal to
  the records.  The last section has sums over the rows of a table, for the stored totals.
\<close>

section \<open>Tables\<close>

datatype DbError = Constraint string | SqlFailure

type_synonym 'a db_result = "DbError + 'a"

record ('k, 'v) table =
  tt_name :: string
  tt_rows :: "'k \<Rightarrow> 'v option"
  tt_count :: u64

definition empty_table :: "string \<Rightarrow> ('k, 'v) table" where
  "empty_table name = \<lparr> tt_name = name, tt_rows = Map.empty, tt_count = 0 \<rparr>"

definition increment_table_count :: "('k, 'v) table \<Rightarrow> ('k, 'v) table db_result" where
  "increment_table_count t =
    try_bind (ok_or (Constraint ''table count overflow'') (checked_add (tt_count t) 1))
      (\<lambda>count. Inr (t \<lparr> tt_count := count \<rparr>))"

definition decrement_table_count :: "('k, 'v) table \<Rightarrow> ('k, 'v) table db_result" where
  "decrement_table_count t =
    try_bind (ok_or (Constraint ''table count underflow'') (checked_sub (tt_count t) 1))
      (\<lambda>count. Inr (t \<lparr> tt_count := count \<rparr>))"

definition lifetime_deposit_record_count ::
    "('k, 'v) table \<Rightarrow> ('l, 'w) table \<Rightarrow> u64 db_result" where
  "lifetime_deposit_record_count deposits attempts =
    ok_or (Constraint ''lifetime deposit record count overflow'')
      (checked_add (tt_count deposits) (tt_count attempts))"

definition expect_blob :: "'v option \<Rightarrow> 'v \<Rightarrow> string \<Rightarrow> unit db_result" where
  "expect_blob persisted expected stale_error = (case persisted of
      None \<Rightarrow> Inl SqlFailure
    | Some v \<Rightarrow> if v \<noteq> expected then Inl (Constraint stale_error) else Inr ())"

definition expect_optional_blob :: "'v option \<Rightarrow> 'v option \<Rightarrow> string \<Rightarrow> unit db_result" where
  "expect_optional_blob persisted expected stale_error =
    (if persisted \<noteq> expected then Inl (Constraint stale_error) else Inr ())"

definition insert_tracked_entry :: "('k, 'v) table \<Rightarrow> 'k \<Rightarrow> 'v \<Rightarrow> ('k, 'v) table db_result" where
  "insert_tracked_entry t key value =
    (if tt_rows t key \<noteq> None then Inl SqlFailure
     else increment_table_count (t \<lparr> tt_rows := (tt_rows t)(key \<mapsto> value) \<rparr>))"

definition require_tracked_entry :: "('k, 'v) table \<Rightarrow> 'k \<Rightarrow> unit db_result" where
  "require_tracked_entry t key =
    (if tt_rows t key = None then Inl (Constraint (''missing tracked entry in '' @ tt_name t))
     else Inr ())"

definition delete_tracked_entry :: "('k, 'v) table \<Rightarrow> 'k \<Rightarrow> ('k, 'v) table db_result" where
  "delete_tracked_entry t key =
    try_bind (require_tracked_entry t key) (\<lambda>_.
      decrement_table_count (t \<lparr> tt_rows := (tt_rows t)(key := None) \<rparr>))"

definition transition_tracked_entry ::
    "('k, 'v) table \<Rightarrow> 'k option \<Rightarrow> ('k \<times> 'v) option \<Rightarrow> ('k, 'v) table db_result" where
  "transition_tracked_entry t previous_key next_entry = (case (previous_key, next_entry) of
      (None, None) \<Rightarrow> Inr t
    | (Some previous, None) \<Rightarrow> delete_tracked_entry t previous
    | (None, Some (key, value)) \<Rightarrow> insert_tracked_entry t key value
    | (Some previous, Some (key, value)) \<Rightarrow>
        if previous = key
        then try_bind (require_tracked_entry t key) (\<lambda>_.
          Inr (t \<lparr> tt_rows := (tt_rows t)(key \<mapsto> value) \<rparr>))
        else try_bind (delete_tracked_entry t previous) (\<lambda>t'.
          insert_tracked_entry t' key value))"

definition replace_expected_entry ::
    "('k, 'v) table \<Rightarrow> 'k \<Rightarrow> 'v \<Rightarrow> 'v \<Rightarrow> string \<Rightarrow> ('k, 'v) table db_result" where
  "replace_expected_entry t key expected value stale_error =
    try_bind (expect_blob (tt_rows t key) expected stale_error) (\<lambda>_.
      Inr (t \<lparr> tt_rows := (tt_rows t)(key \<mapsto> value) \<rparr>))"

definition upsert_table_entry :: "('k, 'v) table \<Rightarrow> 'k \<Rightarrow> 'v \<Rightarrow> ('k, 'v) table db_result" where
  "upsert_table_entry t key value =
    (if tt_rows t key \<noteq> None then Inr (t \<lparr> tt_rows := (tt_rows t)(key \<mapsto> value) \<rparr>)
     else insert_tracked_entry t key value)"

definition remove_table_entry :: "('k, 'v) table \<Rightarrow> 'k \<Rightarrow> ('k, 'v) table db_result" where
  "remove_table_entry t key =
    (if tt_rows t key \<noteq> None then delete_tracked_entry t key else Inr t)"

section \<open>The stored count is the number of rows\<close>

definition tracked_wf :: "('k, 'v) table \<Rightarrow> bool" where
  "tracked_wf t = (finite (dom (tt_rows t)) \<and> unat (tt_count t) = card (dom (tt_rows t)))"

definition table_full :: "('k, 'v) table \<Rightarrow> bool" where
  "table_full t = (Suc (unat (tt_count t)) = 2 ^ 64)"

lemma empty_table_wf [simp]: "tracked_wf (empty_table name)"
  by (simp add: tracked_wf_def empty_table_def)

lemma increment_count_exact:
  "increment_table_count t = Inr t' \<longleftrightarrow>
    (\<exists>n. Suc (unat (tt_count t)) = unat n \<and> t \<lparr> tt_count := n \<rparr> = t')"
  by (simp add: increment_table_count_def result_simps checked_add_eq_Some)

lemma decrement_count_exact:
  "decrement_table_count t = Inr t' \<longleftrightarrow>
    (\<exists>n. unat (tt_count t) = Suc (unat n) \<and> t \<lparr> tt_count := n \<rparr> = t')"
  by (simp add: decrement_table_count_def result_simps checked_sub_eq_Some)

lemma insert_tracked_exact:
  assumes "tracked_wf t"
  shows "insert_tracked_entry t key value = Inr t' \<longleftrightarrow>
    tt_rows t key = None \<and> tracked_wf t' \<and> tt_name t' = tt_name t
    \<and> tt_rows t' = (tt_rows t)(key \<mapsto> value)"
  using assms
  by (cases t; cases t')
    (auto simp: insert_tracked_entry_def increment_count_exact tracked_wf_def domIff
      card_insert_if)

lemma insert_tracked_total:
  assumes "tracked_wf t" and "tt_rows t key = None" and "\<not> table_full t"
  obtains t' where "insert_tracked_entry t key value = Inr t'"
proof -
  have "unat (tt_count t) + unat (1 :: u64) < 2 ^ LENGTH(64)"
    using assms(3) unat_bound [of "tt_count t"] by (simp add: table_full_def)
  then show thesis
    using that assms(2) by (simp add: insert_tracked_entry_def increment_table_count_def
        checked_add_def ok_or_def try_bind_def)
qed

lemma delete_tracked_exact:
  assumes "tracked_wf t"
  shows "delete_tracked_entry t key = Inr t' \<longleftrightarrow>
    tt_rows t key \<noteq> None \<and> tracked_wf t' \<and> tt_name t' = tt_name t
    \<and> tt_rows t' = (tt_rows t)(key := None)"
proof (cases "tt_rows t key")
  case None
  then show ?thesis
    by (simp add: delete_tracked_entry_def require_tracked_entry_def try_bind_def)
next
  case (Some v)
  have "card (dom (tt_rows t)) = Suc (card (dom (tt_rows t) - {key}))"
    using assms Some by (intro card.remove) (auto simp: tracked_wf_def)
  then show ?thesis
    using assms Some
    by (cases t; cases t')
      (auto simp: delete_tracked_entry_def require_tracked_entry_def decrement_count_exact
        tracked_wf_def)
qed

lemma delete_tracked_total:
  assumes "tracked_wf t" and "tt_rows t key \<noteq> None"
  obtains t' where "delete_tracked_entry t key = Inr t'"
proof -
  have "0 < card (dom (tt_rows t))"
    using assms by (auto simp: card_gt_0_iff tracked_wf_def)
  then have "unat (1 :: u64) \<le> unat (tt_count t)"
    using assms(1) by (simp add: tracked_wf_def)
  then have "1 \<le> tt_count t"
    by (simp only: word_le_nat_alt)
  then show thesis
    using that assms(2) by (simp add: delete_tracked_entry_def require_tracked_entry_def
        decrement_table_count_def checked_sub_def ok_or_def try_bind_def)
qed

lemma upsert_exact:
  assumes "tracked_wf t"
  shows "upsert_table_entry t key value = Inr t' \<longleftrightarrow>
    tracked_wf t' \<and> tt_name t' = tt_name t \<and> tt_rows t' = (tt_rows t)(key \<mapsto> value)"
proof (cases "tt_rows t key")
  case None
  then show ?thesis
    using assms by (simp add: upsert_table_entry_def insert_tracked_exact)
next
  case (Some v)
  then have "insert key (dom (tt_rows t)) = dom (tt_rows t)"
    by auto
  then show ?thesis
    using Some assms
    by (cases t; cases t') (auto simp: upsert_table_entry_def tracked_wf_def intro: unat_eqD)
qed

lemma remove_exact:
  assumes "tracked_wf t"
  shows "remove_table_entry t key = Inr t' \<longleftrightarrow>
    tracked_wf t' \<and> tt_name t' = tt_name t \<and> tt_rows t' = (tt_rows t)(key := None)"
proof (cases "tt_rows t key")
  case None
  then have "(tt_rows t)(key := None) = tt_rows t"
    by (simp add: fun_upd_idem)
  then show ?thesis
    using None assms
    by (cases t; cases t') (auto simp: remove_table_entry_def tracked_wf_def intro: unat_eqD)
next
  case (Some v)
  then show ?thesis
    using assms by (simp add: remove_table_entry_def delete_tracked_exact)
qed

lemma remove_total: "tracked_wf t \<Longrightarrow> \<exists>t'. remove_table_entry t key = Inr t'"
  using delete_tracked_total [of t key] by (auto simp: remove_table_entry_def)

section \<open>Membership changes of one entry\<close>

text \<open>The rows after the entry under one key was replaced by another one.\<close>

definition move_entry ::
    "('k \<Rightarrow> 'v option) \<Rightarrow> 'k option \<Rightarrow> ('k \<times> 'v) option \<Rightarrow> 'k \<Rightarrow> 'v option" where
  "move_entry rows previous_key next_entry =
    (let kept = (case previous_key of None \<Rightarrow> rows | Some k \<Rightarrow> rows(k := None)) in
      case next_entry of None \<Rightarrow> kept | Some (k, v) \<Rightarrow> kept(k \<mapsto> v))"

text \<open>The unconditional form of the record writes: remove the previous entry if there is one,
  then write the next one if there is one.\<close>

definition refresh_table_entry ::
    "('k, 'v) table \<Rightarrow> 'k option \<Rightarrow> ('k \<times> 'v) option \<Rightarrow> ('k, 'v) table db_result" where
  "refresh_table_entry t previous_key next_entry =
    try_bind (case previous_key of None \<Rightarrow> Inr t | Some k \<Rightarrow> remove_table_entry t k) (\<lambda>t'.
      case next_entry of None \<Rightarrow> Inr t' | Some (k, v) \<Rightarrow> upsert_table_entry t' k v)"

lemma transition_sound:
  assumes wf: "tracked_wf t" and tr: "transition_tracked_entry t p n = Inr t'"
  shows "tracked_wf t' \<and> tt_name t' = tt_name t \<and> tt_rows t' = move_entry (tt_rows t) p n"
proof (cases p)
  case None
  then show ?thesis
    using wf tr by (cases n)
      (auto simp: transition_tracked_entry_def move_entry_def insert_tracked_exact)
next
  case (Some k)
  show ?thesis
  proof (cases n)
    case None
    then show ?thesis
      using Some wf tr
      by (simp add: transition_tracked_entry_def move_entry_def delete_tracked_exact)
  next
    case (Some e)
    obtain k' v where e: "e = (k', v)"
      by (cases e)
    show ?thesis
    proof (cases "k = k'")
      case True
      then have kept: "tt_rows t k' \<noteq> None" "t' = t \<lparr> tt_rows := (tt_rows t)(k' \<mapsto> v) \<rparr>"
        using tr Some e \<open>p = Some k\<close>
        by (auto simp: transition_tracked_entry_def require_tracked_entry_def try_bind_def
            split: if_splits)
      then have "insert k' (dom (tt_rows t)) = dom (tt_rows t)"
        by auto
      then show ?thesis
        using kept wf True Some e \<open>p = Some k\<close> by (simp add: tracked_wf_def move_entry_def)
    next
      case False
      then obtain u where u: "delete_tracked_entry t k = Inr u" "insert_tracked_entry u k' v = Inr t'"
        using tr Some e \<open>p = Some k\<close> by (auto simp: transition_tracked_entry_def result_simps)
      then have "tracked_wf u" "tt_name u = tt_name t" "tt_rows u = (tt_rows t)(k := None)"
        using wf by (simp_all add: delete_tracked_exact)
      then show ?thesis
        using u(2) Some e \<open>p = Some k\<close> by (simp add: insert_tracked_exact move_entry_def)
    qed
  qed
qed

lemma refresh_sound:
  assumes wf: "tracked_wf t" and tr: "refresh_table_entry t p n = Inr t'"
  shows "tracked_wf t' \<and> tt_name t' = tt_name t \<and> tt_rows t' = move_entry (tt_rows t) p n"
proof -
  obtain u where u: "(case p of None \<Rightarrow> Inr t | Some k \<Rightarrow> remove_table_entry t k) = Inr u"
    and t': "(case n of None \<Rightarrow> Inr u | Some (k, v) \<Rightarrow> upsert_table_entry u k v) = Inr t'"
    using tr by (auto simp: refresh_table_entry_def try_bind_eq_Inr)
  have "tracked_wf u \<and> tt_name u = tt_name t
      \<and> tt_rows u = (case p of None \<Rightarrow> tt_rows t | Some k \<Rightarrow> (tt_rows t)(k := None))"
    using u wf by (cases p) (simp_all add: remove_exact)
  then show ?thesis
    using t' by (cases n) (auto simp: upsert_exact move_entry_def)
qed

section \<open>Indexes\<close>

text \<open>An index holds exactly the entries of the records.\<close>

definition indexes ::
    "('i \<Rightarrow> 'r \<Rightarrow> ('k \<times> 'v) option) \<Rightarrow> ('i \<Rightarrow> 'r option) \<Rightarrow> ('k \<Rightarrow> 'v option) \<Rightarrow> bool" where
  "indexes entry m idx =
    (\<forall>k v. idx k = Some v \<longleftrightarrow> (\<exists>i r. m i = Some r \<and> entry i r = Some (k, v)))"

definition entry_key :: "('i \<Rightarrow> 'r \<Rightarrow> ('k \<times> 'v) option) \<Rightarrow> 'i \<Rightarrow> 'r option \<Rightarrow> 'k option" where
  "entry_key entry i r = Option.bind r (\<lambda>x. map_option fst (entry i x))"

lemma indexes_empty [simp]: "indexes entry Map.empty Map.empty"
  by (simp add: indexes_def)

locale tracked_index =
  fixes entry :: "'i \<Rightarrow> 'r \<Rightarrow> ('k \<times> 'v) option"
  assumes entry_inj: "entry i r = Some (k, v) \<Longrightarrow> entry j r' = Some (k, v') \<Longrightarrow> i = j"
begin

lemma index_move:
  assumes idx: "indexes entry m idx"
  shows "indexes entry (m(i \<mapsto> r)) (move_entry idx (entry_key entry i (m i)) (entry i r))"
proof -
  define kept where "kept = (case entry_key entry i (m i) of None \<Rightarrow> idx | Some k \<Rightarrow> idx(k := None))"
  have kept: "kept k = Some v \<longleftrightarrow> (\<exists>j x. j \<noteq> i \<and> m j = Some x \<and> entry j x = Some (k, v))" for k v
  proof (cases "entry_key entry i (m i) = Some k")
    case True
    then obtain x u where x: "m i = Some x" "entry i x = Some (k, u)"
      by (auto simp: entry_key_def bind_eq_Some_conv)
    then have "kept k = None"
      using True by (simp add: kept_def)
    then show ?thesis
      using entry_inj [OF x(2)] by fastforce
  next
    case False
    then have "kept k = idx k"
      by (auto simp: kept_def split: option.splits)
    moreover have "entry i x \<noteq> Some (k, v)" if "m i = Some x" for x
      using that False by (auto simp: entry_key_def)
    ultimately show ?thesis
      using idx by (auto simp: indexes_def) metis+
  qed
  have moved: "move_entry idx (entry_key entry i (m i)) (entry i r)
      = (case entry i r of None \<Rightarrow> kept | Some (k, v) \<Rightarrow> kept(k \<mapsto> v))"
    unfolding move_entry_def Let_def kept_def by (rule refl)
  have upd: "(\<exists>j x. (m(i \<mapsto> r)) j = Some x \<and> entry j x = Some (k, v)) \<longleftrightarrow>
      entry i r = Some (k, v) \<or> kept k = Some v" for k v
    unfolding kept by (auto split: if_splits)
  show ?thesis
  proof (cases "entry i r")
    case None
    have "move_entry idx (entry_key entry i (m i)) (entry i r) = kept"
      using moved None by simp
    then show ?thesis
      unfolding indexes_def upd using None by simp
  next
    case (Some e)
    obtain k v where e: "entry i r = Some (k, v)"
      using Some by (cases e) simp
    have "kept k = None"
    proof (rule ccontr)
      assume "kept k \<noteq> None"
      then obtain u where "kept k = Some u"
        by blast
      then obtain j x where "j \<noteq> i" "entry j x = Some (k, u)"
        using kept by blast
      then show False
        using entry_inj [OF e] by blast
    qed
    moreover have "move_entry idx (entry_key entry i (m i)) (entry i r) = kept(k \<mapsto> v)"
      using moved e by simp
    ultimately show ?thesis
      unfolding indexes_def upd using e by auto
  qed
qed

lemma transition_index:
  assumes "tracked_wf t" and "indexes entry m (tt_rows t)"
    and "transition_tracked_entry t (entry_key entry i (m i)) (entry i r) = Inr t'"
  shows "tracked_wf t' \<and> tt_name t' = tt_name t \<and> indexes entry (m(i \<mapsto> r)) (tt_rows t')"
  using transition_sound [OF assms(1,3)] index_move [OF assms(2), of i r] by simp

lemma refresh_index:
  assumes "tracked_wf t" and "indexes entry m (tt_rows t)"
    and "refresh_table_entry t (entry_key entry i (m i)) (entry i r) = Inr t'"
  shows "tracked_wf t' \<and> tt_name t' = tt_name t \<and> indexes entry (m(i \<mapsto> r)) (tt_rows t')"
  using refresh_sound [OF assms(1,3)] index_move [OF assms(2), of i r] by simp

lemma fresh_key:
  assumes "indexes entry m idx" and "entry i r = Some (k, v)" and "entry_key entry i (m i) \<noteq> Some k"
  shows "idx k = None"
proof (rule ccontr)
  assume "idx k \<noteq> None"
  then obtain j x u where "m j = Some x" "entry j x = Some (k, u)"
    using assms(1) by (auto simp: indexes_def)
  then show False
    using entry_inj [OF assms(2)] assms(3) by (fastforce simp: entry_key_def)
qed

lemma transition_succeeds:
  assumes wf: "tracked_wf t" and idx: "indexes entry m (tt_rows t)" and "\<not> table_full t"
  shows "\<exists>t'. transition_tracked_entry t (entry_key entry i (m i)) (entry i r) = Inr t'"
proof -
  have present: "tt_rows t k \<noteq> None" if "entry_key entry i (m i) = Some k" for k
    using that idx by (fastforce simp: indexes_def entry_key_def bind_eq_Some_conv)
  have fresh: "tt_rows t k = None"
    if "entry i r = Some (k, v)" "entry_key entry i (m i) \<noteq> Some k" for k v
    using fresh_key [OF idx that] .
  consider (none) "entry_key entry i (m i) = None" | (some) k where "entry_key entry i (m i) = Some k"
    by (cases "entry_key entry i (m i)") auto
  then show ?thesis
  proof cases
    case none
    show ?thesis
    proof (cases "entry i r")
      case None
      then show ?thesis
        using none by (simp add: transition_tracked_entry_def)
    next
      case (Some e)
      obtain k v where e: "entry i r = Some (k, v)"
        using Some by (cases e) simp
      then have "tt_rows t k = None"
        using fresh none by simp
      then obtain t' where "insert_tracked_entry t k v = Inr t'"
        by (rule insert_tracked_total [OF wf _ assms(3)])
      then show ?thesis
        using none e by (simp add: transition_tracked_entry_def)
    qed
  next
    case (some k)
    obtain u where u: "delete_tracked_entry t k = Inr u"
      using delete_tracked_total [OF wf present [OF some]] .
    then have u': "tracked_wf u" "tt_rows u = (tt_rows t)(k := None)"
      using wf by (simp_all add: delete_tracked_exact)
    have "card (dom (tt_rows u)) \<le> card (dom (tt_rows t))"
      using wf by (simp add: u' tracked_wf_def card_Diff1_le)
    then have nf: "\<not> table_full u"
      using wf u'(1) assms(3) unat_bound [of "tt_count t"]
      unfolding tracked_wf_def table_full_def by simp
    show ?thesis
    proof (cases "entry i r")
      case None
      then show ?thesis
        using some u by (simp add: transition_tracked_entry_def)
    next
      case (Some e)
      obtain k' v where e: "entry i r = Some (k', v)"
        using Some by (cases e) simp
      show ?thesis
      proof (cases "k = k'")
        case True
        then show ?thesis
          using some e present [OF some]
          by (simp add: transition_tracked_entry_def require_tracked_entry_def try_bind_def)
      next
        case False
        then have "tt_rows u k' = None"
          using fresh [OF e] some u'(2) by simp
        then obtain t' where "insert_tracked_entry u k' v = Inr t'"
          by (rule insert_tracked_total [OF u'(1) _ nf])
        then show ?thesis
          using some e u False by (simp add: transition_tracked_entry_def try_bind_def)
      qed
    qed
  qed
qed

end

section \<open>Totals over the rows\<close>

definition rows_sum :: "('r \<Rightarrow> nat) \<Rightarrow> ('i \<Rightarrow> 'r option) \<Rightarrow> nat" where
  "rows_sum f m = (\<Sum>i\<in>dom m. f (the (m i)))"

definition old_value :: "('r \<Rightarrow> nat) \<Rightarrow> 'r option \<Rightarrow> nat" where
  "old_value f r = (case r of None \<Rightarrow> 0 | Some x \<Rightarrow> f x)"

lemma old_value_simps [simp]: "old_value f None = 0" "old_value f (Some x) = f x"
  by (simp_all add: old_value_def)

lemma rows_sum_empty [simp]: "rows_sum f Map.empty = 0"
  by (simp add: rows_sum_def)

lemma rows_sum_update:
  assumes "finite (dom m)"
  shows "rows_sum f (m(i \<mapsto> r)) + old_value f (m i) = rows_sum f m + f r"
proof -
  have rest: "(\<Sum>j\<in>dom m - {i}. f (the ((m(i \<mapsto> r)) j))) = (\<Sum>j\<in>dom m - {i}. f (the (m j)))"
    by (rule sum.cong) auto
  have new: "rows_sum f (m(i \<mapsto> r)) = f r + (\<Sum>j\<in>dom m - {i}. f (the (m j)))"
    unfolding rows_sum_def dom_fun_upd
    using sum.insert_remove [OF assms, of "\<lambda>j. f (the ((m(i \<mapsto> r)) j))" i] rest by simp
  show ?thesis
  proof (cases "m i")
    case None
    then have "dom m - {i} = dom m"
      by auto
    then show ?thesis
      using new None by (simp add: rows_sum_def)
  next
    case (Some x)
    then have "rows_sum f m = f x + (\<Sum>j\<in>dom m - {i}. f (the (m j)))"
      unfolding rows_sum_def using sum.remove [OF assms, of i "\<lambda>j. f (the (m j))"] by auto
    then show ?thesis
      using new Some by simp
  qed
qed

lemma rows_sum_ge: "finite (dom m) \<Longrightarrow> m i = Some x \<Longrightarrow> f x \<le> rows_sum f m"
  unfolding rows_sum_def using member_le_sum [of i "dom m" "\<lambda>j. f (the (m j))"] by auto

end
