(* ===== verification/Storage_Keys.thy ===== *)
theory Storage_Keys
  imports External Tracked_Table Withdrawal
begin

text \<open>
  The keys and scalar codecs of the canister's storage (\<open>bridge-canister/src/storage/mod.rs\<close>,
  \<open>settlement.rs\<close>, \<open>history.rs\<close>): big-endian integers, index keys built by concatenation, and the
  numbering of settlement jobs and lease lanes.  SQLite compares keys byte by byte, which is
  \<open>bytes_less\<close>; what the index scans rely on is that the byte order of a key is the order of the
  numbers it was built from.
\<close>

section \<open>Errors\<close>

datatype StorageError =
    EncodeFailed
  | DecodeFailed
  | MissingWireVersion
  | UnsupportedWireVersion u8
  | UnsupportedSchemaVersion u16
  | ValueTooLarge nat nat
  | CounterOverflow
  | CounterUnderflow
  | SequenceMismatch u64
  | DepositsPaused
  | DepositRateLimited u64
  | LifetimeDepositCapacityExceeded
  | NotificationRateLimited
  | RecordNotFound
  | DatabaseFailure
  | StaleSnapshotRefresh
  | ReserveUnavailable
  | QuoteSnapshotMismatch
  | StorageCore CoreError

type_synonym 'a storage_result = "StorageError + 'a"

definition from_core :: "CoreError + 'a \<Rightarrow> 'a storage_result" where
  "from_core r = (case r of Inl e \<Rightarrow> Inl (StorageCore e) | Inr x \<Rightarrow> Inr x)"

definition from_db :: "DbError + 'a \<Rightarrow> 'a storage_result" where
  "from_db r = (case r of Inl _ \<Rightarrow> Inl DatabaseFailure | Inr x \<Rightarrow> Inr x)"

section \<open>Scalars\<close>

definition u64_to_be_bytes :: "u64 \<Rightarrow> bytes" where
  "u64_to_be_bytes w = to_be 8 (unat w)"

definition u128_to_be_bytes :: "u128 \<Rightarrow> bytes" where
  "u128_to_be_bytes w = to_be 16 (unat w)"

definition u64_from_sql_bytes :: "bytes \<Rightarrow> u64 storage_result" where
  "u64_from_sql_bytes bs =
    (if length bs = 8 then Inr (word_of_nat (be_value bs)) else Inl DecodeFailed)"

definition u128_from_sql_bytes :: "bytes \<Rightarrow> u128 storage_result" where
  "u128_from_sql_bytes bs =
    (if length bs = 16 then Inr (word_of_nat (be_value bs)) else Inl DecodeFailed)"

definition bounded_nat_u128 :: "nat \<Rightarrow> u128 option" where
  "bounded_nat_u128 n = (if n < 2 ^ 128 then Some (word_of_nat n) else None)"

section \<open>Settlement jobs and lease lanes\<close>

datatype SettlementJobKind = SJ_Deposit | SJ_Withdrawal | SJ_FeePayout

datatype SettlementLeaseLane = SL_Automatic | SL_PublicManual | SL_GovernanceRecovery

definition job_kind_sql :: "SettlementJobKind \<Rightarrow> int" where
  "job_kind_sql kind = (case kind of SJ_Deposit \<Rightarrow> 0 | SJ_Withdrawal \<Rightarrow> 1 | SJ_FeePayout \<Rightarrow> 2)"

definition lane_sql :: "SettlementLeaseLane \<Rightarrow> int" where
  "lane_sql lane =
    (case lane of SL_Automatic \<Rightarrow> 0 | SL_PublicManual \<Rightarrow> 1 | SL_GovernanceRecovery \<Rightarrow> 2)"

definition lane_capacity :: "SettlementLeaseLane \<Rightarrow> u64" where
  "lane_capacity lane =
    (case lane of SL_Automatic \<Rightarrow> 4 | SL_PublicManual \<Rightarrow> 4 | SL_GovernanceRecovery \<Rightarrow> 1)"

definition lane_from_sql :: "int \<Rightarrow> SettlementLeaseLane storage_result" where
  "lane_from_sql value =
    (if value = 0 then Inr SL_Automatic
     else if value = 1 then Inr SL_PublicManual
     else if value = 2 then Inr SL_GovernanceRecovery
     else Inl DecodeFailed)"

definition settlement_record_key :: "SettlementJobKind \<Rightarrow> bytes \<Rightarrow> bytes" where
  "settlement_record_key kind settlement_id = word_of_int (job_kind_sql kind) # settlement_id"

definition fee_payout_job_id :: "u64 \<Rightarrow> bytes" where
  "fee_payout_job_id i = replicate 24 0 @ u64_to_be_bytes i"

definition fee_payout_id_from_job :: "bytes \<Rightarrow> u64 storage_result" where
  "fee_payout_id_from_job key =
    (if take 24 key \<noteq> replicate 24 0 then Inl DecodeFailed
     else if length (drop 24 key) \<noteq> 8 then Inl DecodeFailed
     else Inr (word_of_nat (be_value (drop 24 key))))"

section \<open>Index keys\<close>

definition MAX_STABLE_VALUE_BYTES :: nat where
  "MAX_STABLE_VALUE_BYTES = 16 * 1024"

definition stable_blob_new :: "bytes \<Rightarrow> bytes storage_result" where
  "stable_blob_new bs =
    (if MAX_STABLE_VALUE_BYTES < length bs
     then Inl (ValueTooLarge (length bs) MAX_STABLE_VALUE_BYTES) else Inr bs)"

definition deposit_owner_index_prefix :: "bytes \<Rightarrow> bytes" where
  "deposit_owner_index_prefix owner = word_of_nat (length owner) # owner"

definition deposit_owner_index_bytes :: "bytes \<Rightarrow> u64 \<Rightarrow> bytes" where
  "deposit_owner_index_bytes prefix reverse_sequence = prefix @ u64_to_be_bytes reverse_sequence"

definition deposit_owner_index_key :: "bytes \<Rightarrow> u64 \<Rightarrow> bytes storage_result" where
  "deposit_owner_index_key owner sequence =
    stable_blob_new
      (deposit_owner_index_bytes (deposit_owner_index_prefix owner) (- 1 - sequence))"

definition deposit_sequence_from_index_key :: "bytes \<Rightarrow> u64 storage_result" where
  "deposit_sequence_from_index_key key =
    (let reverse_bytes = drop (length key - 8) key in
      if length reverse_bytes = 8 then Inr (- 1 - word_of_nat (be_value reverse_bytes))
      else Inl DecodeFailed)"

definition deposit_authorization_deadline_index_key :: "u64 \<Rightarrow> bytes \<Rightarrow> bytes storage_result" where
  "deposit_authorization_deadline_index_key deadline deposit_id =
    stable_blob_new (u64_to_be_bytes deadline @ deposit_id)"

definition withdrawal_liability_key :: "WithdrawalRecord \<Rightarrow> bytes" where
  "withdrawal_liability_key w = u64_to_be_bytes (wr_observed_at_ns w) @ wr_id w"

definition withdrawal_history_key :: "WithdrawalRecord \<Rightarrow> bytes" where
  "withdrawal_history_key w =
    wr_base_requester w @ u64_to_be_bytes (- 1 - wr_observed_at_ns w) @ wr_id w"

text \<open>The SHA-256 of the identifier is library code, a parameter here.\<close>

definition reconciliation_scan_key :: "(bytes \<Rightarrow> bytes) \<Rightarrow> ReconciliationTarget \<Rightarrow> bytes" where
  "reconciliation_scan_key sha256 target = (case target of
      RT_Hold i \<Rightarrow> 0 # u64_to_be_bytes i
    | RT_FeePayout i \<Rightarrow> 1 # u64_to_be_bytes i
    | RT_FundingAttempt i \<Rightarrow>
        2 # u64_to_be_bytes (word_of_nat (be_value (take 8 (sha256 i)))))"

section \<open>Lemmas\<close>

lemma u64_to_be_facts [simp]:
  "length (u64_to_be_bytes w) = 8" "be_value (u64_to_be_bytes w) = unat w"
proof -
  show "length (u64_to_be_bytes w) = 8"
    by (simp add: u64_to_be_bytes_def)
  have "unat w < 256 ^ 8"
    using unat_bound [of w] by simp
  then show "be_value (u64_to_be_bytes w) = unat w"
    by (simp only: u64_to_be_bytes_def be_value_to_be mod_less)
qed

lemma u128_to_be_facts [simp]:
  "length (u128_to_be_bytes w) = 16" "be_value (u128_to_be_bytes w) = unat w"
proof -
  show "length (u128_to_be_bytes w) = 16"
    by (simp add: u128_to_be_bytes_def)
  have "unat w < 256 ^ 16"
    using unat_bound [of w] by simp
  then show "be_value (u128_to_be_bytes w) = unat w"
    by (simp only: u128_to_be_bytes_def be_value_to_be mod_less)
qed

lemma u64_to_be_inject [simp]: "u64_to_be_bytes a = u64_to_be_bytes b \<longleftrightarrow> a = b"
  using u64_to_be_facts(2) unat_eqD by metis

lemma u64_from_be_unique:
  assumes "length bs = 8"
  shows "u64_to_be_bytes (word_of_nat (be_value bs)) = bs"
proof -
  have "be_value bs < 2 ^ LENGTH(64)"
    using be_value_less [of bs] assms by simp
  then have "unat (word_of_nat (be_value bs) :: u64) = be_value bs"
    by (rule unat_word_of_nat)
  then show ?thesis
    using be_value_eq_iff [of "u64_to_be_bytes (word_of_nat (be_value bs))" bs] assms by simp
qed

lemma bytes_less_append:
  "length as = length cs \<Longrightarrow>
    bytes_less (as @ bs) (cs @ ds) \<longleftrightarrow> bytes_less as cs \<or> (as = cs \<and> bytes_less bs ds)"
  by (induction as cs rule: list_induct2) auto

lemma u64_be_less [simp]: "bytes_less (u64_to_be_bytes a) (u64_to_be_bytes b) \<longleftrightarrow> a < b"
  by (simp add: bytes_less_iff word_less_nat_alt)

lemma bytes_less_irrefl [simp]: "\<not> bytes_less as as"
  by (induction as) auto

lemma max_minus_inject [simp]: "(- 1 - a = - 1 - b) \<longleftrightarrow> a = (b :: 'a::len word)"
  by simp

lemma max_minus_less_iff: "(- 1 - a < - 1 - b) \<longleftrightarrow> b < (a :: u64)"
  using unat_bound [of a] unat_bound [of b]
  by (simp only: word_less_nat_alt unat_max_minus) linarith

lemma stable_blob_eq_Inr [result_simps]:
  "stable_blob_new bs = Inr cs \<longleftrightarrow> cs = bs \<and> length bs \<le> MAX_STABLE_VALUE_BYTES"
  by (auto simp: stable_blob_new_def)

lemma from_core_eq_Inr [result_simps]: "from_core r = Inr x \<longleftrightarrow> r = Inr x"
  by (cases r) (simp_all add: from_core_def)

lemma from_db_eq_Inr [result_simps]: "from_db r = Inr x \<longleftrightarrow> r = Inr x"
  by (cases r) (simp_all add: from_db_def)

lemma from_core_eq_Inl: "from_core r = Inl x \<longleftrightarrow> (\<exists>e. r = Inl e \<and> x = StorageCore e)"
  by (cases r) (auto simp: from_core_def)

lemma owner_index_key_eq_Inr:
  "deposit_owner_index_key owner n = Inr key \<longleftrightarrow>
    key = (word_of_nat (length owner) # owner) @ u64_to_be_bytes (- 1 - n)
    \<and> length key \<le> MAX_STABLE_VALUE_BYTES"
  by (auto simp: deposit_owner_index_key_def deposit_owner_index_bytes_def
      deposit_owner_index_prefix_def result_simps)

section \<open>Properties\<close>

text \<open>
  Storage scalars round trip: a stored \<open>u64\<close> or \<open>u128\<close> reads back as itself, any other length is
  rejected, and only the canonical encoding of a number is read as that number.
\<close>

lemma sql_scalar_roundtrip:
  "(u64_from_sql_bytes bs = Inr w \<longleftrightarrow> bs = u64_to_be_bytes w)
    \<and> (u128_from_sql_bytes cs = Inr v \<longleftrightarrow> cs = u128_to_be_bytes v)"
proof
  show "u64_from_sql_bytes bs = Inr w \<longleftrightarrow> bs = u64_to_be_bytes w"
    by (auto simp: u64_from_sql_bytes_def u64_from_be_unique split: if_splits)
  have "u128_to_be_bytes (word_of_nat (be_value cs)) = cs" if "length cs = 16"
  proof -
    have "be_value cs < 2 ^ LENGTH(128)"
      using be_value_less [of cs] that by simp
    then have "unat (word_of_nat (be_value cs) :: u128) = be_value cs"
      by (rule unat_word_of_nat)
    then show ?thesis
      using be_value_eq_iff [of "u128_to_be_bytes (word_of_nat (be_value cs))" cs] that by simp
  qed
  then show "u128_from_sql_bytes cs = Inr v \<longleftrightarrow> cs = u128_to_be_bytes v"
    by (auto simp: u128_from_sql_bytes_def split: if_splits)
qed

text \<open>
  The job key of a fee payout is canonical: it decodes to the payout's number, a 32-byte key
  decodes to a number only if it is the key of that number, and distinct payouts have distinct
  keys.
\<close>

lemma fee_payout_job_roundtrip:
  "fee_payout_id_from_job key = Inr i \<longleftrightarrow> key = fee_payout_job_id i"
proof
  assume dec: "fee_payout_id_from_job key = Inr i"
  then have zeros: "take 24 key = replicate 24 0" and len: "length (drop 24 key) = 8"
    and i: "i = word_of_nat (be_value (drop 24 key))"
    by (auto simp: fee_payout_id_from_job_def split: if_splits)
  have "key = take 24 key @ drop 24 key"
    by simp
  also have "\<dots> = fee_payout_job_id i"
    using zeros u64_from_be_unique [OF len] i by (simp add: fee_payout_job_id_def)
  finally show "key = fee_payout_job_id i" .
next
  assume "key = fee_payout_job_id i"
  then have "take 24 key = replicate 24 0" "drop 24 key = u64_to_be_bytes i"
    by (simp_all add: fee_payout_job_id_def)
  then show "fee_payout_id_from_job key = Inr i"
    by (simp add: fee_payout_id_from_job_def)
qed

text \<open>
  C18.  The owner index of deposits: the sequence number is read back from the key, keys of different
  owners or sequence numbers differ, and among the keys of one owner the byte order lists the
  newest deposit first.  (Owners are principals, at most 29 bytes.)
\<close>

theorem owner_index_order:
  assumes "length owner \<le> 29" and "length owner' \<le> 29"
    and "deposit_owner_index_key owner n = Inr key" and "deposit_owner_index_key owner' n' = Inr key'"
  shows "deposit_sequence_from_index_key key = Inr n
    \<and> (key = key' \<longleftrightarrow> owner = owner' \<and> n = n')
    \<and> (owner = owner' \<longrightarrow> (bytes_less key key' \<longleftrightarrow> n' < n))"
proof (intro conjI impI)
  note keys = assms(3,4) [unfolded owner_index_key_eq_Inr]
  have "drop (length key - 8) key = u64_to_be_bytes (- 1 - n)"
    using keys(1) by simp
  then have "deposit_sequence_from_index_key key = Inr (- 1 - word_of_nat (unat (- 1 - n)))"
    unfolding deposit_sequence_from_index_key_def Let_def by (simp only: u64_to_be_facts refl if_True)
  then show "deposit_sequence_from_index_key key = Inr n"
    by simp
  have "length owner = length owner'" if "key = key'"
    using that keys by auto
  then show "key = key' \<longleftrightarrow> owner = owner' \<and> n = n'"
    using keys by auto
  assume "owner = owner'"
  then show "bytes_less key key' \<longleftrightarrow> n' < n"
    using keys by (simp add: bytes_less_append max_minus_less_iff)
qed

theorem owner_index_order_witness:
  "deposit_owner_index_key [7] 3 = Inr ([1, 7] @ u64_to_be_bytes (- 1 - 3))
    \<and> deposit_sequence_from_index_key ([1, 7] @ u64_to_be_bytes (- 1 - 3)) = Inr 3
    \<and> bytes_less ([1, 7] @ u64_to_be_bytes (- 1 - 4)) ([1, 7] @ u64_to_be_bytes (- 1 - 3))"
proof -
  have k3: "deposit_owner_index_key [7] 3 = Inr ([1, 7] @ u64_to_be_bytes (- 1 - 3))"
    and k4: "deposit_owner_index_key [7] 4 = Inr ([1, 7] @ u64_to_be_bytes (- 1 - 4))"
    by (simp_all only: owner_index_key_eq_Inr MAX_STABLE_VALUE_BYTES_def) simp_all
  have len: "length [7 :: u8] \<le> 29"
    by simp
  show ?thesis
    using k3 owner_index_order [OF len len k3 k3] owner_index_order [OF len len k4 k3]
    by simp
qed

text \<open>
  The withdrawal liability index is ordered by age: of two withdrawals the one observed earlier
  has the smaller key, and two withdrawals share a key only if they have the same identifier and
  were observed at the same time.
\<close>

lemma liability_key_order:
  "(wr_observed_at_ns a < wr_observed_at_ns b \<longrightarrow>
      bytes_less (withdrawal_liability_key a) (withdrawal_liability_key b))
    \<and> (withdrawal_liability_key a = withdrawal_liability_key b \<longleftrightarrow>
      wr_observed_at_ns a = wr_observed_at_ns b \<and> wr_id a = wr_id b)"
  by (simp add: withdrawal_liability_key_def bytes_less_append)

end
