(* ===== verification/Withdrawal_Tables.thy ===== *)
theory Withdrawal_Tables
  imports Storage_Keys
begin

text \<open>
  The withdrawal tables of the canister's database (\<open>bridge-canister/src/storage/mod.rs\<close>, the
  functions around \<open>replace_withdrawal_row\<close>, and \<open>history.rs\<close>): the records, the liability index
  ordered by age with the stored liability amount, the counts per stop reason, the requester
  index, and the index of releases to run.  Stored blobs are the records they encode.

  The invariant \<open>withdrawal_tables_wf\<close> ties every derived table to the records: the liability index
  lists exactly the withdrawals not yet paid, the stored amount is what they still owe, and a stop
  reason is counted once for each of them that has it.
\<close>

section \<open>Definitions\<close>

record withdrawal_tables =
  wt_withdrawals :: "(WithdrawalId, WithdrawalRecord) table"
  wt_liability_index :: "(bytes, WithdrawalId) table"
  wt_liability_amount :: u128
  wt_stop_reason_counts :: "(string, u64) table"
  wt_requester_index :: "(bytes, WithdrawalId) table"
  wt_transaction_index :: "(WithdrawalId, bytes) table"
  wt_notification_index :: "(bytes, WithdrawalId) table"
  wt_release_pending_index :: "(WithdrawalId, u8) table"

definition is_pending_withdrawal_ledger :: "WithdrawalRecord \<Rightarrow> bool" where
  "is_pending_withdrawal_ledger w = (case wr_state w of WS_ReleasePending _ _ \<Rightarrow> True | _ \<Rightarrow> False)"

definition is_nonterminal_withdrawal :: "WithdrawalRecord \<Rightarrow> bool" where
  "is_nonterminal_withdrawal w = withdrawal_liability_indexed (case wr_state w of
      WS_Observed \<Rightarrow> 0
    | WS_ReleasePending _ _ \<Rightarrow> 1
    | WS_Paid _ _ _ _ \<Rightarrow> 2
    | WS_ReconciliationHold _ _ _ \<Rightarrow> 3)"

definition adjust_stop_reason_count ::
    "(string, u64) table \<Rightarrow> string \<Rightarrow> bool \<Rightarrow> (string, u64) table db_result" where
  "adjust_stop_reason_count t reason add =
    (let count = (case tt_rows t reason of None \<Rightarrow> 0 | Some n \<Rightarrow> n) in
      if add then
        try_bind (ok_or (Constraint ''withdrawal stop reason count overflow'') (checked_add count 1))
          (\<lambda>n. let t' = t \<lparr> tt_rows := (tt_rows t)(reason \<mapsto> n) \<rparr> in
            if count = 0 then increment_table_count t' else Inr t')
      else
        try_bind (ok_or (Constraint ''withdrawal stop reason count underflow'') (checked_sub count 1))
          (\<lambda>n. if n = 0
            then decrement_table_count (t \<lparr> tt_rows := (tt_rows t)(reason := None) \<rparr>)
            else Inr (t \<lparr> tt_rows := (tt_rows t)(reason \<mapsto> n) \<rparr>)))"

definition adjust_withdrawal_liability_record ::
    "(string, u64) table \<Rightarrow> WithdrawalRecord \<Rightarrow> bool \<Rightarrow> u128
      \<Rightarrow> ((string, u64) table \<times> u128) db_result" where
  "adjust_withdrawal_liability_record t record add amount =
    (if \<not> is_nonterminal_withdrawal record then Inr (t, amount)
     else try_bind (if add
          then ok_or (Constraint ''withdrawal liability overflow'')
            (checked_add amount (wr_amount_out record))
          else ok_or (Constraint ''withdrawal liability underflow'')
            (checked_sub amount (wr_amount_out record))) (\<lambda>amount'.
       case wr_last_settlement_stop_reason record of
         None \<Rightarrow> Inr (t, amount')
       | Some reason \<Rightarrow>
           try_bind (adjust_stop_reason_count t reason add) (\<lambda>t'. Inr (t', amount'))))"

definition write_withdrawal_history ::
    "(bytes, WithdrawalId) table \<Rightarrow> WithdrawalRecord \<Rightarrow> (bytes, WithdrawalId) table db_result" where
  "write_withdrawal_history t record =
    upsert_table_entry t (withdrawal_history_key record) (wr_id record)"

definition write_withdrawal_transaction ::
    "(WithdrawalId, bytes) table \<Rightarrow> WithdrawalId \<Rightarrow> bytes \<Rightarrow> (WithdrawalId, bytes) table db_result" where
  "write_withdrawal_transaction t i hash =
    (case tt_rows t i of
      Some previous \<Rightarrow>
        if previous \<noteq> hash then Inl (Constraint ''conflicting withdrawal transaction'')
        else upsert_table_entry t i hash
    | None \<Rightarrow> upsert_table_entry t i hash)"

definition previous_liability_key :: "WithdrawalRecord option \<Rightarrow> bytes option" where
  "previous_liability_key old_record = (case old_record of
      None \<Rightarrow> None
    | Some old \<Rightarrow>
        if is_nonterminal_withdrawal old then Some (withdrawal_liability_key old) else None)"

definition next_liability :: "WithdrawalRecord \<Rightarrow> (bytes \<times> WithdrawalId) option" where
  "next_liability next_record = (if is_nonterminal_withdrawal next_record
    then Some (withdrawal_liability_key next_record, wr_id next_record) else None)"

definition history_identity_changed :: "WithdrawalRecord option \<Rightarrow> WithdrawalRecord \<Rightarrow> bool" where
  "history_identity_changed old_record next_record = (case old_record of
      None \<Rightarrow> False
    | Some old \<Rightarrow> withdrawal_history_key old \<noteq> withdrawal_history_key next_record)"

definition write_withdrawal_row ::
    "withdrawal_tables \<Rightarrow> WithdrawalId \<Rightarrow> WithdrawalRecord option \<Rightarrow> WithdrawalRecord
      \<Rightarrow> ((string, u64) table \<times> u128 \<times> (WithdrawalId, WithdrawalRecord) table) db_result" where
  "write_withdrawal_row T key old_record next_record = (case old_record of
      Some old \<Rightarrow>
        try_bind (adjust_withdrawal_liability_record (wt_stop_reason_counts T) old False
          (wt_liability_amount T)) (\<lambda>(counts, amount).
        Inr (counts, amount, (wt_withdrawals T)
          \<lparr> tt_rows := (tt_rows (wt_withdrawals T))(key \<mapsto> next_record) \<rparr>))
    | None \<Rightarrow>
        try_bind (insert_tracked_entry (wt_withdrawals T) key next_record) (\<lambda>withdrawals.
        Inr (wt_stop_reason_counts T, wt_liability_amount T, withdrawals)))"

definition replace_withdrawal_row ::
    "withdrawal_tables \<Rightarrow> WithdrawalId \<Rightarrow> WithdrawalRecord option \<Rightarrow> WithdrawalRecord
      \<Rightarrow> withdrawal_tables db_result" where
  "replace_withdrawal_row T key expected next_record =
    (let persisted = tt_rows (wt_withdrawals T) key in
      if persisted \<noteq> expected then Inl (Constraint ''stale withdrawal write'')
      else if history_identity_changed persisted next_record
        then Inl (Constraint ''withdrawal history identity changed'')
      else
        try_bind (transition_tracked_entry (wt_liability_index T)
          (previous_liability_key persisted) (next_liability next_record)) (\<lambda>liability_index.
        try_bind (write_withdrawal_row T key persisted next_record)
          (\<lambda>(counts, amount, withdrawals).
        try_bind (write_withdrawal_history (wt_requester_index T) next_record) (\<lambda>requester_index.
        try_bind (adjust_withdrawal_liability_record counts next_record True amount)
          (\<lambda>(counts', amount').
        Inr (T \<lparr> wt_withdrawals := withdrawals, wt_liability_index := liability_index,
                 wt_liability_amount := amount', wt_stop_reason_counts := counts',
                 wt_requester_index := requester_index \<rparr>))))))"

section \<open>Invariant\<close>

definition liability_entry ::
    "WithdrawalId \<Rightarrow> WithdrawalRecord \<Rightarrow> (bytes \<times> WithdrawalId) option" where
  "liability_entry i w = (if is_nonterminal_withdrawal w
    then Some (u64_to_be_bytes (wr_observed_at_ns w) @ i, i) else None)"

definition release_entry :: "WithdrawalId \<Rightarrow> WithdrawalRecord \<Rightarrow> (WithdrawalId \<times> u8) option" where
  "release_entry i w = (if is_pending_withdrawal_ledger w then Some (i, 0) else None)"

definition owed :: "WithdrawalRecord \<Rightarrow> nat" where
  "owed w = (if is_nonterminal_withdrawal w then unat (wr_amount_out w) else 0)"

definition stopped_for :: "string \<Rightarrow> WithdrawalRecord \<Rightarrow> nat" where
  "stopped_for reason w =
    (if is_nonterminal_withdrawal w \<and> wr_last_settlement_stop_reason w = Some reason then 1 else 0)"

definition counts_reasons ::
    "(string \<Rightarrow> u64 option) \<Rightarrow> (string \<Rightarrow> nat) \<Rightarrow> bool" where
  "counts_reasons rows f =
    (\<forall>reason. case rows reason of None \<Rightarrow> f reason = 0
      | Some n \<Rightarrow> 0 < f reason \<and> unat n = f reason)"

definition withdrawal_tables_wf :: "withdrawal_tables \<Rightarrow> bool" where
  "withdrawal_tables_wf T =
    (tracked_wf (wt_withdrawals T) \<and> tracked_wf (wt_liability_index T)
     \<and> tracked_wf (wt_stop_reason_counts T) \<and> tracked_wf (wt_requester_index T)
     \<and> (\<forall>i w. tt_rows (wt_withdrawals T) i = Some w \<longrightarrow> wr_id w = i
          \<and> length (wr_base_requester w) = 20
          \<and> tt_rows (wt_requester_index T) (withdrawal_history_key w) = Some i)
     \<and> indexes liability_entry (tt_rows (wt_withdrawals T)) (tt_rows (wt_liability_index T))
     \<and> unat (wt_liability_amount T) = rows_sum owed (tt_rows (wt_withdrawals T))
     \<and> counts_reasons (tt_rows (wt_stop_reason_counts T))
         (\<lambda>reason. rows_sum (stopped_for reason) (tt_rows (wt_withdrawals T))))"

interpretation liability_index: tracked_index liability_entry
  by unfold_locales (auto simp: liability_entry_def split: if_splits)

interpretation release_index: tracked_index release_entry
  by unfold_locales (auto simp: release_entry_def split: if_splits)

section \<open>Stop reasons\<close>

lemma counts_reasonsD:
  assumes "counts_reasons rows f"
  shows "rows reason = None \<Longrightarrow> f reason = 0"
    and "rows reason = Some n \<Longrightarrow> 0 < f reason \<and> unat n = f reason"
  using spec [OF assms [unfolded counts_reasons_def], of reason] by simp_all

lemma counts_reasons_upd:
  "counts_reasons rows f \<Longrightarrow> (case v of None \<Rightarrow> k = 0 | Some n \<Rightarrow> 0 < k \<and> unat n = k) \<Longrightarrow>
    counts_reasons (rows(reason := v)) (f(reason := k))"
  by (cases v) (auto simp: counts_reasons_def cong: option.case_cong)

lemma stop_reason_add:
  assumes "tracked_wf t" and "counts_reasons (tt_rows t) f"
    and "adjust_stop_reason_count t reason True = Inr t'"
  shows "tracked_wf t' \<and> counts_reasons (tt_rows t') (f(reason := Suc (f reason)))"
proof (cases "tt_rows t reason")
  case None
  then have f: "f reason = 0"
    using counts_reasonsD [OF assms(2), of reason] by simp_all
  have "insert_tracked_entry t reason 1 = Inr t'"
    using assms(3) None
    by (simp add: adjust_stop_reason_count_def insert_tracked_entry_def checked_add_def ok_or_def
        try_bind_def)
  then have "tracked_wf t'" "tt_rows t' = (tt_rows t)(reason \<mapsto> 1)"
    using assms(1) by (simp_all add: insert_tracked_exact)
  then show ?thesis
    using assms(2) f counts_reasons_upd [where f = f and v = "Some 1" and k = 1 and reason = reason] by simp
next
  case (Some n)
  then have f: "0 < f reason" "unat n = f reason"
    using counts_reasonsD [OF assms(2), of reason] by simp_all
  then have "n \<noteq> 0"
    by auto
  then obtain m where m: "unat m = Suc (unat n)" and t': "t' = t \<lparr> tt_rows := (tt_rows t)(reason \<mapsto> m) \<rparr>"
    using assms(3) Some
    by (auto simp: adjust_stop_reason_count_def result_simps checked_add_eq_Some)
  have "insert reason (dom (tt_rows t)) = dom (tt_rows t)"
    using Some by auto
  then show ?thesis
    using assms(1,2) f m counts_reasons_upd [where f = f and v = "Some m" and k = "Suc (f reason)" and reason = reason]
    by (simp add: t' tracked_wf_def)
qed

lemma stop_reason_drop:
  assumes "tracked_wf t" and "counts_reasons (tt_rows t) f"
    and "adjust_stop_reason_count t reason False = Inr t'"
  shows "tracked_wf t' \<and> counts_reasons (tt_rows t') (f(reason := f reason - 1)) \<and> 0 < f reason"
proof (cases "tt_rows t reason")
  case None
  then show ?thesis
    using assms(3) by (simp add: adjust_stop_reason_count_def checked_sub_def ok_or_def try_bind_def)
next
  case (Some n)
  then have f: "0 < f reason" "unat n = f reason"
    using counts_reasonsD [OF assms(2), of reason] by simp_all
  show ?thesis
  proof (cases "n = 1")
    case True
    then have "delete_tracked_entry t reason = Inr t'"
      using assms(3) Some
      by (simp add: adjust_stop_reason_count_def delete_tracked_entry_def require_tracked_entry_def
          checked_sub_def ok_or_def try_bind_def)
    then have "tracked_wf t'" "tt_rows t' = (tt_rows t)(reason := None)"
      using assms(1) by (simp_all add: delete_tracked_exact)
    then show ?thesis
      using assms(2) f True counts_reasons_upd [where f = f and v = None and k = 0 and reason = reason] by simp
  next
    case False
    obtain m where m: "unat n = Suc (unat m)" and t': "(if m = 0
        then decrement_table_count (t \<lparr> tt_rows := (tt_rows t)(reason := None) \<rparr>)
        else Inr (t \<lparr> tt_rows := (tt_rows t)(reason \<mapsto> m) \<rparr>)) = Inr t'"
      using assms(3) Some
      by (auto simp: adjust_stop_reason_count_def try_bind_eq_Inr ok_or_eq_Inr checked_sub_eq_Some)
    have "m \<noteq> 0"
      using m False unat_eqD [of n 1] by auto
    then have "t' = t \<lparr> tt_rows := (tt_rows t)(reason \<mapsto> m) \<rparr>" "0 < unat m"
      using t' by (simp_all add: unat_gt_0)
    moreover have "insert reason (dom (tt_rows t)) = dom (tt_rows t)"
      using Some by auto
    ultimately show ?thesis
      using assms(1,2) f m counts_reasons_upd [where f = f and v = "Some m" and k = "f reason - 1" and reason = reason]
      by (simp add: tracked_wf_def)
  qed
qed

lemma liability_record_add:
  assumes "tracked_wf t" and "counts_reasons (tt_rows t) f"
    and "adjust_withdrawal_liability_record t w True amount = Inr (t', amount')"
  shows "tracked_wf t' \<and> counts_reasons (tt_rows t') (\<lambda>reason. f reason + stopped_for reason w)
    \<and> unat amount' = unat amount + owed w"
proof (cases "is_nonterminal_withdrawal w")
  case True
  show ?thesis
  proof (cases "wr_last_settlement_stop_reason w")
    case None
    then show ?thesis
      using True assms
      by (auto simp: adjust_withdrawal_liability_record_def owed_def stopped_for_def result_simps
          checked_add_eq_Some)
  next
    case (Some reason)
    then have "adjust_stop_reason_count t reason True = Inr t'"
      "unat amount' = unat amount + owed w"
      using True assms(3)
      by (auto simp: adjust_withdrawal_liability_record_def owed_def result_simps checked_add_eq_Some)
    moreover have "(\<lambda>x. f x + stopped_for x w) = f(reason := Suc (f reason))"
      using True Some by (auto simp: stopped_for_def fun_eq_iff)
    ultimately show ?thesis
      using stop_reason_add [OF assms(1,2)] by simp
  qed
qed (use assms in \<open>simp add: adjust_withdrawal_liability_record_def owed_def stopped_for_def\<close>)

lemma liability_record_drop:
  assumes "tracked_wf t" and "counts_reasons (tt_rows t) f"
    and "adjust_withdrawal_liability_record t w False amount = Inr (t', amount')"
  shows "tracked_wf t' \<and> counts_reasons (tt_rows t') (\<lambda>reason. f reason - stopped_for reason w)
    \<and> unat amount = unat amount' + owed w \<and> (\<forall>reason. stopped_for reason w \<le> f reason)"
proof (cases "is_nonterminal_withdrawal w")
  case True
  show ?thesis
  proof (cases "wr_last_settlement_stop_reason w")
    case None
    then show ?thesis
      using True assms
      by (auto simp: adjust_withdrawal_liability_record_def owed_def stopped_for_def result_simps
          checked_sub_eq_Some)
  next
    case (Some reason)
    then have adj: "adjust_stop_reason_count t reason False = Inr t'"
      "unat amount = unat amount' + owed w"
      using True assms(3)
      by (auto simp: adjust_withdrawal_liability_record_def owed_def result_simps checked_sub_eq_Some)
    moreover have "(\<lambda>x. f x - stopped_for x w) = f(reason := f reason - 1)"
      using True Some by (auto simp: stopped_for_def fun_eq_iff)
    moreover have "stopped_for x w \<le> f x" for x
      using True Some stop_reason_drop [OF assms(1,2) adj(1)] by (auto simp: stopped_for_def)
    ultimately show ?thesis
      using stop_reason_drop [OF assms(1,2)] by simp
  qed
qed (use assms in \<open>simp add: adjust_withdrawal_liability_record_def owed_def stopped_for_def\<close>)

section \<open>Replacing a row\<close>

lemma replace_row_cases:
  assumes "replace_withdrawal_row T key expected w = Inr T'"
  obtains liab counts amount withdrawals requesters counts' amount' where
    "expected = tt_rows (wt_withdrawals T) key"
    "\<not> history_identity_changed expected w"
    "transition_tracked_entry (wt_liability_index T) (previous_liability_key expected)
      (next_liability w) = Inr liab"
    "write_withdrawal_row T key expected w = Inr (counts, amount, withdrawals)"
    "write_withdrawal_history (wt_requester_index T) w = Inr requesters"
    "adjust_withdrawal_liability_record counts w True amount = Inr (counts', amount')"
    "T' = T \<lparr> wt_withdrawals := withdrawals, wt_liability_index := liab,
      wt_liability_amount := amount', wt_stop_reason_counts := counts',
      wt_requester_index := requesters \<rparr>"
  using assms that
  by (auto simp: replace_withdrawal_row_def Let_def if_Inl_eq_Inr try_bind_eq_Inr)

lemma liability_entry_key:
  "(\<And>old. r = Some old \<Longrightarrow> wr_id old = i) \<Longrightarrow>
    previous_liability_key r = entry_key liability_entry i r"
  by (cases r) (auto simp: entry_key_def liability_entry_def withdrawal_liability_key_def
      previous_liability_key_def)

lemma next_liability_entry: "next_liability w = liability_entry (wr_id w) w"
  by (simp add: next_liability_def liability_entry_def withdrawal_liability_key_def)

lemma history_key_inj:
  assumes "length (wr_base_requester v) = 20" and "length (wr_base_requester w) = 20"
    and "withdrawal_history_key v = withdrawal_history_key w"
  shows "wr_id v = wr_id w"
  using assms by (simp add: withdrawal_history_key_def)

lemma write_row_sound:
  assumes wf: "withdrawal_tables_wf T" and old: "old = tt_rows (wt_withdrawals T) key"
    and ok: "write_withdrawal_row T key old w = Inr (counts, amount, withdrawals)"
  shows "tracked_wf withdrawals" and "tt_rows withdrawals = (tt_rows (wt_withdrawals T))(key \<mapsto> w)"
    and "tracked_wf counts"
    and "counts_reasons (tt_rows counts) (\<lambda>reason.
      rows_sum (stopped_for reason) (tt_rows (wt_withdrawals T)) - old_value (stopped_for reason) old)"
    and "rows_sum owed (tt_rows (wt_withdrawals T)) = unat amount + old_value owed old"
    and "old_value (stopped_for reason) old
      \<le> rows_sum (stopped_for reason) (tt_rows (wt_withdrawals T))"
proof -
  note parts = wf [unfolded withdrawal_tables_wf_def]
  have t: "tracked_wf (wt_withdrawals T)" "tracked_wf (wt_stop_reason_counts T)"
    "counts_reasons (tt_rows (wt_stop_reason_counts T))
      (\<lambda>reason. rows_sum (stopped_for reason) (tt_rows (wt_withdrawals T)))"
    "unat (wt_liability_amount T) = rows_sum owed (tt_rows (wt_withdrawals T))"
    using parts by simp_all
  have "tracked_wf withdrawals \<and> tt_rows withdrawals = (tt_rows (wt_withdrawals T))(key \<mapsto> w)
    \<and> tracked_wf counts
    \<and> counts_reasons (tt_rows counts) (\<lambda>reason.
      rows_sum (stopped_for reason) (tt_rows (wt_withdrawals T)) - old_value (stopped_for reason) old)
    \<and> rows_sum owed (tt_rows (wt_withdrawals T)) = unat amount + old_value owed old
    \<and> (\<forall>reason. old_value (stopped_for reason) old
      \<le> rows_sum (stopped_for reason) (tt_rows (wt_withdrawals T)))"
  proof (cases old)
    case None
    then have "insert_tracked_entry (wt_withdrawals T) key w = Inr withdrawals"
      "counts = wt_stop_reason_counts T" "amount = wt_liability_amount T"
      using ok by (auto simp: write_withdrawal_row_def try_bind_eq_Inr)
    then show ?thesis
      using t None by (simp add: insert_tracked_exact)
  next
    case (Some v)
    then have adj: "adjust_withdrawal_liability_record (wt_stop_reason_counts T) v False
        (wt_liability_amount T) = Inr (counts, amount)"
      and wd: "withdrawals = (wt_withdrawals T)
        \<lparr> tt_rows := (tt_rows (wt_withdrawals T))(key \<mapsto> w) \<rparr>"
      using ok by (auto simp: write_withdrawal_row_def try_bind_eq_Inr)
    have "insert key (dom (tt_rows (wt_withdrawals T))) = dom (tt_rows (wt_withdrawals T))"
      using Some old by auto
    then show ?thesis
      using liability_record_drop [OF t(2,3) adj] t(1,4) Some by (simp add: wd tracked_wf_def)
  qed
  then show "tracked_wf withdrawals" "tt_rows withdrawals = (tt_rows (wt_withdrawals T))(key \<mapsto> w)"
    "tracked_wf counts"
    "counts_reasons (tt_rows counts) (\<lambda>reason.
      rows_sum (stopped_for reason) (tt_rows (wt_withdrawals T)) - old_value (stopped_for reason) old)"
    "rows_sum owed (tt_rows (wt_withdrawals T)) = unat amount + old_value owed old"
    "old_value (stopped_for reason) old
      \<le> rows_sum (stopped_for reason) (tt_rows (wt_withdrawals T))"
    by simp_all
qed

lemma replace_row_sound:
  assumes wf: "withdrawal_tables_wf T" and id: "wr_id w = key" "length (wr_base_requester w) = 20"
    and ok: "replace_withdrawal_row T key expected w = Inr T'"
  shows "withdrawal_tables_wf T'"
    and "tt_rows (wt_withdrawals T') = (tt_rows (wt_withdrawals T))(key \<mapsto> w)"
    and "tt_rows (wt_withdrawals T) key = expected"
    and "wt_release_pending_index T' = wt_release_pending_index T"
    and "wt_notification_index T' = wt_notification_index T"
    and "wt_transaction_index T' = wt_transaction_index T"
proof -
  let ?rows = "tt_rows (wt_withdrawals T)"
  from ok obtain liab counts amount withdrawals requesters counts' amount' where
    old: "expected = ?rows key"
    and same: "\<not> history_identity_changed expected w"
    and liab: "transition_tracked_entry (wt_liability_index T) (previous_liability_key expected)
      (next_liability w) = Inr liab"
    and row: "write_withdrawal_row T key expected w = Inr (counts, amount, withdrawals)"
    and hist: "write_withdrawal_history (wt_requester_index T) w = Inr requesters"
    and add: "adjust_withdrawal_liability_record counts w True amount = Inr (counts', amount')"
    and T': "T' = T \<lparr> wt_withdrawals := withdrawals, wt_liability_index := liab,
      wt_liability_amount := amount', wt_stop_reason_counts := counts',
      wt_requester_index := requesters \<rparr>"
    by (rule replace_row_cases)
  note parts = wf [unfolded withdrawal_tables_wf_def]
  have fin: "finite (dom ?rows)"
    and ids: "\<And>i v. ?rows i = Some v \<Longrightarrow> wr_id v = i \<and> length (wr_base_requester v) = 20
      \<and> tt_rows (wt_requester_index T) (withdrawal_history_key v) = Some i"
    using parts by (auto simp: tracked_wf_def)
  note mid = write_row_sound [OF wf old row]
  have "previous_liability_key expected = entry_key liability_entry key (?rows key)"
    unfolding old by (rule liability_entry_key) (use ids in blast)
  then have idx: "tracked_wf liab \<and> indexes liability_entry (?rows(key \<mapsto> w)) (tt_rows liab)"
    using liability_index.transition_index [of "wt_liability_index T" ?rows key w liab] liab parts
      next_liability_entry [of w] id(1) by simp
  have added: "tracked_wf counts'" "unat amount' = unat amount + owed w"
      "counts_reasons (tt_rows counts') (\<lambda>reason. rows_sum (stopped_for reason) ?rows
        - old_value (stopped_for reason) expected + stopped_for reason w)"
    using liability_record_add [OF mid(3,4) add] by simp_all
  have stops: "rows_sum (stopped_for reason) ?rows - old_value (stopped_for reason) expected
      + stopped_for reason w = rows_sum (stopped_for reason) (?rows(key \<mapsto> w))" for reason
    using rows_sum_update [OF fin, of "stopped_for reason" key w] mid(6) [of reason] old by simp
  have amounts: "unat amount' = rows_sum owed (?rows(key \<mapsto> w))"
    using rows_sum_update [OF fin, of owed key w] old mid(5) added(2) by simp
  have req: "tracked_wf requesters"
      "tt_rows requesters = (tt_rows (wt_requester_index T))(withdrawal_history_key w \<mapsto> key)"
    using hist parts id(1) by (simp_all add: write_withdrawal_history_def upsert_exact)
  have rows: "wr_id v = i \<and> length (wr_base_requester v) = 20
      \<and> tt_rows requesters (withdrawal_history_key v) = Some i"
    if "(?rows(key \<mapsto> w)) i = Some v" for i v
  proof (cases "i = key")
    case True
    then show ?thesis
      using that req(2) id by simp
  next
    case False
    then have v: "?rows i = Some v"
      using that by simp
    then have "withdrawal_history_key v \<noteq> withdrawal_history_key w"
      using history_key_inj [of v w] ids [OF v] id False by auto
    then show ?thesis
      using ids [OF v] req(2) by simp
  qed
  show "withdrawal_tables_wf T'"
    using mid(1,2) idx added(1,3) amounts req(1) rows stops unfolding withdrawal_tables_wf_def T'
    by simp
  show "tt_rows (wt_withdrawals T') = ?rows(key \<mapsto> w)" "?rows key = expected"
    "wt_release_pending_index T' = wt_release_pending_index T"
    "wt_notification_index T' = wt_notification_index T"
    "wt_transaction_index T' = wt_transaction_index T"
    using mid(2) old by (simp_all add: T')
qed

end
