(* ===== verification/Store_Counters.thy ===== *)
theory Store_Counters
  imports Storage_Keys Reconciliation Accounting
begin

text \<open>
  The counters of the canister's singleton row (\<open>bridge-canister/src/storage/mod.rs\<close>,
  \<open>CounterState\<close> and the \<open>adjust_*\<close> functions at the end of the file) and the classification of
  records they depend on.

  A counter is a total over the rows of a table that is never recomputed: every write of a row
  adjusts it by the difference between the old row and the new one.  The locale \<open>tracked_total\<close> is
  the contract of such an adjustment; it is interpreted for each counter of the store, and gives
  that the counter stays the total and that the adjustment fails only where the total does not fit
  the machine type.
\<close>

section \<open>Definitions\<close>

record CounterState =
  cs_next_hold_id :: u64
  cs_pending_ledger_operations :: u64
  cs_next_audit_sequence :: u64
  cs_next_fee_payout_id :: u64
  cs_next_deposit_index_sequence :: u64
  cs_reserved_deposit_mint_amount :: u128
  cs_reserved_deposit_mint_operations :: u64
  cs_pending_fee_payout_debit :: u128

definition counter_state_default :: CounterState where
  "counter_state_default = \<lparr> cs_next_hold_id = 0, cs_pending_ledger_operations = 0,
    cs_next_audit_sequence = 0, cs_next_fee_payout_id = 0, cs_next_deposit_index_sequence = 0,
    cs_reserved_deposit_mint_amount = 0, cs_reserved_deposit_mint_operations = 0,
    cs_pending_fee_payout_debit = 0 \<rparr>"

record FeeRecipientConfig =
  frc_owner :: bytes
  frc_subaccount :: bytes

datatype FeePayoutState =
    FP_Pending
  | FP_Succeeded u128
  | FP_ReconciliationHold
  | FP_Failed

record FeePayoutRecord =
  fpr_id :: u64
  fpr_amount :: u128
  fpr_recipient :: FeeRecipientConfig
  fpr_transfer :: LedgerTransferIdentity
  fpr_state :: FeePayoutState

definition is_open_hold :: "ReconciliationHoldRecord \<Rightarrow> bool" where
  "is_open_hold value = reconciliation_hold_indexed (case hr_state value of
      HS_Open \<Rightarrow> 0 | HS_ResolvedSucceeded _ \<Rightarrow> 1 | HS_ResolvedAbsent _ \<Rightarrow> 2)"

definition is_pending_deposit_ledger :: "DepositRecord \<Rightarrow> bool" where
  "is_pending_deposit_ledger value = (case dr_state value of
      DS_FundingPending \<Rightarrow> True | DS_RefundPending _ _ _ \<Rightarrow> True | _ \<Rightarrow> False)"

definition is_terminal_deposit :: "DepositRecord \<Rightarrow> bool" where
  "is_terminal_deposit value = (\<not> deposit_nonterminal_indexed (deposit_state_code (dr_state value)))"

definition is_deposit_mint_reserved :: "DepositRecord \<Rightarrow> bool" where
  "is_deposit_mint_reserved value = reserves_mint_resources value"

definition deposit_authorization_deadline :: "DepositRecord \<Rightarrow> u64 option" where
  "deposit_authorization_deadline value = (case dr_state value of
      DS_AuthorizationPending _ \<Rightarrow>
        map_option (ma_deadline \<circ> mar_authorization) (dr_mint_authorization value)
    | DS_AuthorizationAvailable _ \<Rightarrow>
        map_option (ma_deadline \<circ> mar_authorization) (dr_mint_authorization value)
    | _ \<Rightarrow> None)"

definition adjust_active_count :: "u64 \<Rightarrow> bool \<Rightarrow> bool \<Rightarrow> u64 storage_result" where
  "adjust_active_count current was_active is_active =
    ok_or (if is_active then CounterOverflow else CounterUnderflow)
      (checked_counter_transition current was_active is_active)"

definition adjust_reserved_mint_amount ::
    "u128 \<Rightarrow> DepositRecord option \<Rightarrow> DepositRecord \<Rightarrow> u128 storage_result" where
  "adjust_reserved_mint_amount current old_record next_record =
    try_bind (case old_record of
        Some old \<Rightarrow>
          if is_deposit_mint_reserved old
          then try_bind (from_core (reserved_mint_amount old)) (\<lambda>amount.
            ok_or CounterUnderflow (checked_sub current amount))
          else Inr current
      | None \<Rightarrow> Inr current) (\<lambda>without_previous.
    if is_deposit_mint_reserved next_record
    then try_bind (from_core (reserved_mint_amount next_record)) (\<lambda>amount.
      ok_or CounterOverflow (checked_add without_previous amount))
    else Inr without_previous)"

definition adjust_reserved_mint_operations ::
    "u64 \<Rightarrow> DepositRecord option \<Rightarrow> DepositRecord \<Rightarrow> u64 storage_result" where
  "adjust_reserved_mint_operations current old_record next_record =
    adjust_active_count current
      (case old_record of None \<Rightarrow> False | Some old \<Rightarrow> is_deposit_mint_reserved old)
      (is_deposit_mint_reserved next_record)"

definition is_pending_fee_payout :: "FeePayoutRecord \<Rightarrow> bool" where
  "is_pending_fee_payout value = (case fpr_state value of
      FP_Pending \<Rightarrow> True | FP_ReconciliationHold \<Rightarrow> True | _ \<Rightarrow> False)"

definition fee_payout_debit :: "FeePayoutRecord \<Rightarrow> u128 storage_result" where
  "fee_payout_debit value =
    ok_or CounterOverflow (payout_debit True (fpr_amount value) (lt_fee (fpr_transfer value)))"

definition adjust_pending_fee_payout_debit ::
    "u128 \<Rightarrow> FeePayoutRecord option \<Rightarrow> FeePayoutRecord \<Rightarrow> u128 storage_result" where
  "adjust_pending_fee_payout_debit current old_record next_record =
    try_bind (case old_record of
        Some old \<Rightarrow>
          if is_pending_fee_payout old
          then try_bind (fee_payout_debit old) (\<lambda>debit.
            ok_or CounterUnderflow (checked_sub current debit))
          else Inr current
      | None \<Rightarrow> Inr current) (\<lambda>without_previous.
    if is_pending_fee_payout next_record
    then try_bind (fee_payout_debit next_record) (\<lambda>debit.
      ok_or CounterOverflow (checked_add without_previous debit))
    else Inr without_previous)"

section \<open>Counters as totals\<close>

text \<open>
  The contract of one counter: \<open>amount\<close> is what a row adds to it, \<open>measured\<close> the rows whose
  amount the code can compute, and \<open>adjust\<close> replaces the amount of the old row by that of the new
  one.
\<close>

locale tracked_total =
  fixes amount :: "'r \<Rightarrow> nat"
    and measured :: "'r \<Rightarrow> bool"
    and adjust :: "'a::len word \<Rightarrow> 'r option \<Rightarrow> 'r \<Rightarrow> 'a word storage_result"
  assumes adjust_exact: "adjust c old r = Inr c' \<Longrightarrow>
      unat c' + old_value amount old = unat c + amount r"
    and adjust_total: "\<lbrakk>measured r; \<And>x. old = Some x \<Longrightarrow> measured x; old_value amount old \<le> unat c;
      unat c - old_value amount old + amount r < 2 ^ LENGTH('a)\<rbrakk> \<Longrightarrow> \<exists>c'. adjust c old r = Inr c'"
begin

lemma total_update:
  assumes "finite (dom rows)" and "unat c = base + rows_sum amount rows"
    and "adjust c (rows i) r = Inr c'"
  shows "unat c' = base + rows_sum amount (rows(i \<mapsto> r))"
  using rows_sum_update [OF assms(1), of amount i r] adjust_exact [OF assms(3)] assms(2) by simp

lemma total_succeeds:
  assumes fin: "finite (dom rows)" and c: "unat c = base + rows_sum amount rows"
    and m: "measured r" "\<And>x. rows i = Some x \<Longrightarrow> measured x"
    and fits: "base + rows_sum amount (rows(i \<mapsto> r)) < 2 ^ LENGTH('a)"
  shows "\<exists>c'. adjust c (rows i) r = Inr c'"
proof (rule adjust_total)
  have "old_value amount (rows i) \<le> rows_sum amount rows"
    using rows_sum_ge [OF fin, of i] by (cases "rows i") auto
  then show "old_value amount (rows i) \<le> unat c"
    using c by simp
  then show "unat c - old_value amount (rows i) + amount r < 2 ^ LENGTH('a)"
    using rows_sum_update [OF fin, of amount i r] c fits by simp
qed (use m in auto)

end

definition active :: "('r \<Rightarrow> bool) \<Rightarrow> 'r \<Rightarrow> nat" where
  "active P r = of_bool (P r)"

definition was_active :: "('r \<Rightarrow> bool) \<Rightarrow> 'r option \<Rightarrow> bool" where
  "was_active P r = (case r of None \<Rightarrow> False | Some x \<Rightarrow> P x)"

lemma was_active_simps [simp]: "was_active P None = False" "was_active P (Some x) = P x"
  by (simp_all add: was_active_def)

lemma active_count_exact:
  "adjust_active_count c (was_active P old) (P r) = Inr c' \<longleftrightarrow>
    unat c' + old_value (active P) old = unat c + active P r"
  by (cases old) (simp_all add: adjust_active_count_def ok_or_eq_Inr counter_transition_exact active_def)

lemma active_count_total:
  assumes "old_value (active P) old \<le> unat c"
    and "unat c - old_value (active P) old + active P r < 2 ^ LENGTH(64)"
  shows "\<exists>c'. adjust_active_count c (was_active P old) (P r) = Inr c'"
proof -
  let ?n = "unat c - old_value (active P) old + active P r"
  have "unat (word_of_nat ?n :: u64) = ?n"
    using assms(2) by (rule unat_word_of_nat)
  then have "adjust_active_count c (was_active P old) (P r) = Inr (word_of_nat ?n)"
    unfolding active_count_exact using assms(1) by linarith
  then show ?thesis ..
qed

definition reserved_amount :: "DepositRecord \<Rightarrow> nat" where
  "reserved_amount d = (case reserved_mint_amount d of Inl _ \<Rightarrow> 0 | Inr a \<Rightarrow> unat a)"

definition pending_debit :: "FeePayoutRecord \<Rightarrow> nat" where
  "pending_debit p =
    (if is_pending_fee_payout p then unat (fpr_amount p) + unat (lt_fee (fpr_transfer p)) else 0)"

lemma reserved_amount_cases:
  assumes "reserved_mint_amount d = Inr a"
  shows "reserved_amount d = unat a" and "\<not> is_deposit_mint_reserved d \<Longrightarrow> a = 0"
  using assms by (simp_all add: reserved_amount_def reserved_mint_amount_def is_deposit_mint_reserved_def)

lemma not_reserved [simp]: "\<not> is_deposit_mint_reserved d \<Longrightarrow> reserved_amount d = 0"
  by (simp add: reserved_amount_def reserved_mint_amount_def is_deposit_mint_reserved_def)

lemma fee_debit_exact [result_simps]:
  "fee_payout_debit p = Inr n \<longleftrightarrow> unat n = unat (fpr_amount p) + unat (lt_fee (fpr_transfer p))"
  using unat_bound [of n]
  by (auto simp: fee_payout_debit_def payout_debit_def ok_or_eq_Inr max_minus_less unat_add_exact
      not_le intro: unat_eqD split: if_splits)

lemma not_pending [simp]: "\<not> is_pending_fee_payout p \<Longrightarrow> pending_debit p = 0"
  by (simp add: pending_debit_def)

lemma fee_debit_total:
  assumes "unat (fpr_amount p) + unat (lt_fee (fpr_transfer p)) < 2 ^ LENGTH(128)"
  shows "\<exists>n. fee_payout_debit p = Inr n"
  unfolding fee_debit_exact using unat_word_of_nat [OF assms] by blast

text \<open>Both amount counters take the old amount off and then add the new one.\<close>

definition replace_amount ::
    "('r \<Rightarrow> bool) \<Rightarrow> ('r \<Rightarrow> u128 storage_result) \<Rightarrow> u128 \<Rightarrow> 'r option \<Rightarrow> 'r \<Rightarrow> u128 storage_result" where
  "replace_amount P f c old r =
    try_bind (if was_active P old
        then try_bind (f (the old)) (\<lambda>x. ok_or CounterUnderflow (checked_sub c x))
        else Inr c) (\<lambda>m.
    if P r then try_bind (f r) (\<lambda>x. ok_or CounterOverflow (checked_add m x)) else Inr m)"

lemma adjust_as_replace:
  "adjust_reserved_mint_amount = replace_amount is_deposit_mint_reserved (\<lambda>d. from_core (reserved_mint_amount d))"
  "adjust_pending_fee_payout_debit = replace_amount is_pending_fee_payout fee_payout_debit"
  by (auto simp: fun_eq_iff adjust_reserved_mint_amount_def adjust_pending_fee_payout_debit_def
      replace_amount_def split: option.splits)

lemma replace_amount_exact:
  assumes amount: "\<And>r x. f r = Inr x \<Longrightarrow> P r \<Longrightarrow> g r = unat x" and none: "\<And>r. \<not> P r \<Longrightarrow> g r = 0"
    and ok: "replace_amount P f c old r = Inr c'"
  shows "unat c' + old_value g old = unat c + g r"
proof -
  obtain m where m: "(if was_active P old
      then try_bind (f (the old)) (\<lambda>x. ok_or CounterUnderflow (checked_sub c x)) else Inr c) = Inr m"
    and r: "(if P r then try_bind (f r) (\<lambda>x. ok_or CounterOverflow (checked_add m x)) else Inr m)
      = Inr c'"
    using ok unfolding replace_amount_def try_bind_eq_Inr by blast
  have "unat c = unat m + old_value g old"
    using m by (cases old) (auto simp: result_simps checked_sub_eq_Some amount none split: if_splits)
  moreover have "unat c' = unat m + g r"
    using r by (auto simp: result_simps checked_add_eq_Some amount none split: if_splits)
  ultimately show ?thesis
    by simp
qed

lemma replace_amount_total:
  assumes amount: "\<And>r x. f r = Inr x \<Longrightarrow> P r \<Longrightarrow> g r = unat x" and none: "\<And>r. \<not> P r \<Longrightarrow> g r = 0"
    and f: "P r \<Longrightarrow> \<exists>x. f r = Inr x" "\<And>x. old = Some x \<Longrightarrow> P x \<Longrightarrow> \<exists>y. f x = Inr y"
    and fits: "old_value g old \<le> unat c" "unat c - old_value g old + g r < 2 ^ LENGTH(128)"
  shows "\<exists>c'. replace_amount P f c old r = Inr c'"
proof -
  have "\<exists>m. (if was_active P old
      then try_bind (f (the old)) (\<lambda>x. ok_or CounterUnderflow (checked_sub c x)) else Inr c) = Inr m
    \<and> unat m = unat c - old_value g old"
  proof (cases "was_active P old")
    case True
    then obtain x y where x: "old = Some x" "P x" "f x = Inr y"
      using f(2) by (cases old) auto
    then have "y \<le> c" and y: "g x = unat y"
      using fits(1) amount by (simp_all add: word_le_nat_alt)
    then show ?thesis
      using x True by (simp add: checked_sub_def ok_or_def try_bind_def unat_sub_exact)
  next
    case False
    then have "old_value g old = 0"
      using none by (cases old) auto
    then show ?thesis
      using False by simp
  qed
  then obtain m where m: "(if was_active P old
      then try_bind (f (the old)) (\<lambda>x. ok_or CounterUnderflow (checked_sub c x)) else Inr c) = Inr m"
    and nat: "unat m = unat c - old_value g old"
    by blast
  show ?thesis
  proof (cases "P r")
    case True
    then obtain x where "f r = Inr x"
      using f(1) by blast
    then show ?thesis
      unfolding replace_amount_def m using True fits(2) nat amount [of r x]
      by (simp add: checked_add_def ok_or_def try_bind_def)
  qed (simp add: replace_amount_def m try_bind_def)
qed

interpretation reserved_amounts: tracked_total reserved_amount "\<lambda>d. \<exists>a. reserved_mint_amount d = Inr a"
  adjust_reserved_mint_amount
proof
  fix c :: u128 and old r
  have amount: "\<And>r x. from_core (reserved_mint_amount r) = Inr x \<Longrightarrow> is_deposit_mint_reserved r \<Longrightarrow>
      reserved_amount r = unat x"
    by (simp add: from_core_eq_Inr reserved_amount_cases(1))
  show "unat c' + old_value reserved_amount old = unat c + reserved_amount r"
    if "adjust_reserved_mint_amount c old r = Inr c'" for c'
    using that unfolding adjust_as_replace by (rule replace_amount_exact [rotated -1]) (auto intro: amount)
  show "\<exists>c'. adjust_reserved_mint_amount c old r = Inr c'"
    if "\<exists>a. reserved_mint_amount r = Inr a"
      and "\<And>x. old = Some x \<Longrightarrow> \<exists>a. reserved_mint_amount x = Inr a"
      and "old_value reserved_amount old \<le> unat c"
      and "unat c - old_value reserved_amount old + reserved_amount r < 2 ^ LENGTH(128)"
    unfolding adjust_as_replace using that
    by (intro replace_amount_total [where g = reserved_amount])
      (auto simp: from_core_eq_Inr intro: amount)
qed

interpretation pending_debits: tracked_total pending_debit
  "\<lambda>p. unat (fpr_amount p) + unat (lt_fee (fpr_transfer p)) < 2 ^ LENGTH(128)"
  adjust_pending_fee_payout_debit
proof
  fix c :: u128 and old r
  have amount: "\<And>r x. fee_payout_debit r = Inr x \<Longrightarrow> is_pending_fee_payout r \<Longrightarrow> pending_debit r = unat x"
    by (simp add: fee_debit_exact pending_debit_def)
  show "unat c' + old_value pending_debit old = unat c + pending_debit r"
    if "adjust_pending_fee_payout_debit c old r = Inr c'" for c'
    using that unfolding adjust_as_replace by (rule replace_amount_exact [rotated -1]) (auto intro: amount)
  show "\<exists>c'. adjust_pending_fee_payout_debit c old r = Inr c'"
    if "unat (fpr_amount r) + unat (lt_fee (fpr_transfer r)) < 2 ^ LENGTH(128)"
      and "\<And>x. old = Some x \<Longrightarrow> unat (fpr_amount x) + unat (lt_fee (fpr_transfer x)) < 2 ^ LENGTH(128)"
      and "old_value pending_debit old \<le> unat c"
      and "unat c - old_value pending_debit old + pending_debit r < 2 ^ LENGTH(128)"
    unfolding adjust_as_replace using that
    by (intro replace_amount_total [where g = pending_debit])
      (auto simp: fee_debit_total intro: amount)
qed

lemma active_total:
  "tracked_total (active P) (\<lambda>_. True) (\<lambda>c old r. adjust_active_count c (was_active P old) (P r))"
proof (unfold_locales, goal_cases)
  case 1
  then show ?case
    by (simp only: active_count_exact)
next
  case 2
  then show ?case
    by (intro active_count_total)
qed

interpretation reserved_operations: tracked_total "active is_deposit_mint_reserved" "\<lambda>_. True"
  adjust_reserved_mint_operations
  unfolding adjust_reserved_mint_operations_def was_active_def [symmetric] by (rule active_total)

interpretation pending_deposits: tracked_total "active is_pending_deposit_ledger" "\<lambda>_. True"
  "\<lambda>c old r. adjust_active_count c (was_active is_pending_deposit_ledger old)
    (is_pending_deposit_ledger r)"
  by (rule active_total)

end
