(* ===== verification/Audit_Log.thy ===== *)
theory Audit_Log
  imports Store_Counters
begin

text \<open>
  The audit log of the canister (\<open>bridge-canister/src/storage/mod.rs\<close>, \<open>prepare_audit_batch\<close>,
  \<open>append_audit_events_atomically\<close>, \<open>append_audit_event_at\<close>, \<open>audit_events\<close>, and
  \<open>commit_audit_batch\<close> of \<open>transaction.rs\<close>).  It keeps the last hundred thousand events in a
  table keyed by sequence number; what is pruned is folded into a hash chain.

  The hash function and the wire encoding of an event are library code and parameters here; an
  encoding over the blob limit is the error of \<open>stable_blob_new\<close>.  Lengths are \<open>usize\<close>, which has 32
  bits on the canister's target.

  The specification of the log is the list of all events ever appended.  The relation
  \<open>audit_represents\<close> says how the table, the next sequence number and the retention record show
  that list, and every operation is proved to be its counterpart on lists.
\<close>

section \<open>Definitions\<close>

datatype AuditEventKind =
    AK_DepositsPaused
  | AK_DepositsPauseRepeated
  | AK_DepositsResumed
  | AK_WithdrawalFeeGuardTripped u128 u128
  | AK_WithdrawalFeeGuardCleared
  | AK_PausePrincipalRotated
  | AK_FeeRecipientRotated bytes bytes
  | AK_FeePayoutRequested u128
  | AK_EvmRpcObservation bytes string bytes bytes u64 bytes "bytes option"
  | AK_EvmRpcDecision string string u8 u8 "string option" bool bool bool bool "bytes option"

record AuditEvent =
  ae_sequence :: u64
  ae_timestamp_ns :: u64
  ae_caller :: bytes
  ae_kind :: AuditEventKind

record AuditRetentionState =
  ar_pruned_count :: u64
  ar_pruned_through_sequence :: "u64 option"
  ar_pruned_digest :: bytes

record PreparedAuditBatch =
  pab_events :: "(u64 \<times> AuditEvent) list"
  pab_retention :: AuditRetentionState
  pab_pruned_sequences :: "u64 list"

record AuditEventPage =
  aep_events :: "AuditEvent list"
  aep_oldest_available_sequence :: u64
  aep_next_sequence :: "u64 option"
  aep_pruned_count :: u64
  aep_pruned_through_sequence :: "u64 option"
  aep_pruned_digest :: bytes

record audit_log =
  al_events :: "(u64, AuditEvent) table"
  al_retention :: AuditRetentionState

definition MAX_AUDIT_EVENTS :: nat where
  "MAX_AUDIT_EVENTS = 100000"

definition MAX_AUDIT_BATCH :: nat where
  "MAX_AUDIT_BATCH = 32"

definition AUDIT_DIGEST_DOMAIN :: bytes where
  "AUDIT_DIGEST_DOMAIN = map of_char ''KINIC_BRIDGE_AUDIT_V1''"

text \<open>The rows of a key range in key order, from either end, as the index scans read them.\<close>

definition range_limited ::
    "('k::linorder, 'v) table \<Rightarrow> ('k \<Rightarrow> bool) \<Rightarrow> nat \<Rightarrow> bool \<Rightarrow> ('k \<times> 'v) list" where
  "range_limited t within limit descending =
    (let keys = filter within (sorted_list_of_set (dom (tt_rows t))) in
      map (\<lambda>k. (k, the (tt_rows t k))) (take limit (if descending then rev keys else keys)))"

definition encode_event :: "(AuditEvent \<Rightarrow> bytes) \<Rightarrow> AuditEvent \<Rightarrow> AuditEvent storage_result" where
  "encode_event enc e = map_result (\<lambda>_. e) (stable_blob_new (enc e))"

fun number_events ::
    "(AuditEvent \<Rightarrow> bytes) \<Rightarrow> u64 \<Rightarrow> bytes \<Rightarrow> u64 \<Rightarrow> AuditEventKind list
      \<Rightarrow> (u64 \<times> (u64 \<times> AuditEvent) list) storage_result" where
  "number_events enc sequence caller timestamp_ns [] = Inr (sequence, [])"
| "number_events enc sequence caller timestamp_ns (kind # kinds) =
    try_bind (ok_or CounterOverflow (audit_next sequence)) (\<lambda>next_sequence.
    try_bind (encode_event enc \<lparr> ae_sequence = sequence, ae_timestamp_ns = timestamp_ns,
        ae_caller = caller, ae_kind = kind \<rparr>) (\<lambda>event.
    try_bind (number_events enc next_sequence caller timestamp_ns kinds) (\<lambda>(last_sequence, events).
    Inr (last_sequence, (sequence, event) # events))))"

definition pruned_digest_next ::
    "(bytes \<Rightarrow> bytes) \<Rightarrow> (AuditEvent \<Rightarrow> bytes) \<Rightarrow> bytes \<Rightarrow> u64 \<Rightarrow> AuditEvent \<Rightarrow> bytes" where
  "pruned_digest_next sha enc digest sequence event =
    sha (AUDIT_DIGEST_DOMAIN @ digest @ u64_to_be_bytes sequence
      @ u64_to_be_bytes (word_of_nat (length (enc event))) @ enc event)"

definition prune_event ::
    "(bytes \<Rightarrow> bytes) \<Rightarrow> (AuditEvent \<Rightarrow> bytes) \<Rightarrow> AuditRetentionState \<Rightarrow> u64 \<Rightarrow> AuditEvent
      \<Rightarrow> AuditRetentionState storage_result" where
  "prune_event sha enc retention oldest_sequence oldest =
    (if oldest_sequence \<noteq> ar_pruned_count retention
     then Inl (SequenceMismatch (ar_pruned_count retention))
     else try_bind (ok_or CounterOverflow (checked_add (ar_pruned_count retention) 1)) (\<lambda>count.
       Inr \<lparr> ar_pruned_count = count, ar_pruned_through_sequence = Some oldest_sequence,
         ar_pruned_digest = pruned_digest_next sha enc (ar_pruned_digest retention)
           oldest_sequence oldest \<rparr>))"

fun prune_events ::
    "(bytes \<Rightarrow> bytes) \<Rightarrow> (AuditEvent \<Rightarrow> bytes) \<Rightarrow> AuditRetentionState \<Rightarrow> (u64 \<times> AuditEvent) list
      \<Rightarrow> AuditRetentionState storage_result" where
  "prune_events sha enc retention [] = Inr retention"
| "prune_events sha enc retention ((sequence, event) # es) =
    try_bind (prune_event sha enc retention sequence event) (\<lambda>retention'.
    prune_events sha enc retention' es)"

definition prepare_audit_batch ::
    "(bytes \<Rightarrow> bytes) \<Rightarrow> (AuditEvent \<Rightarrow> bytes) \<Rightarrow> audit_log \<Rightarrow> CounterState \<Rightarrow> bytes \<Rightarrow> u64
      \<Rightarrow> AuditEventKind list \<Rightarrow> (CounterState \<times> PreparedAuditBatch) storage_result" where
  "prepare_audit_batch sha enc log counters caller timestamp_ns kinds =
    (if MAX_AUDIT_BATCH < length kinds
     then Inl (ValueTooLarge (length kinds) MAX_AUDIT_BATCH)
     else try_bind (number_events enc (cs_next_audit_sequence counters) caller timestamp_ns kinds)
       (\<lambda>(next_sequence, events).
       let existing = unat (tt_count (al_events log));
           total = existing + length events;
           prune_count = total - MAX_AUDIT_EVENTS;
           oldest = range_limited (al_events log) (\<lambda>_. True) prune_count False
       in if 2 ^ 32 \<le> existing \<or> 2 ^ 32 \<le> total then Inl CounterOverflow
          else if length oldest \<noteq> prune_count then Inl RecordNotFound
          else try_bind (prune_events sha enc (al_retention log) oldest) (\<lambda>retention.
            Inr (counters \<lparr> cs_next_audit_sequence := next_sequence \<rparr>,
              \<lparr> pab_events = events, pab_retention = retention,
                pab_pruned_sequences = map fst oldest \<rparr>))))"

fun insert_events ::
    "(u64, AuditEvent) table \<Rightarrow> (u64 \<times> AuditEvent) list \<Rightarrow> (u64, AuditEvent) table db_result" where
  "insert_events t [] = Inr t"
| "insert_events t ((sequence, event) # es) =
    try_bind (insert_tracked_entry t sequence event) (\<lambda>t'. insert_events t' es)"

fun delete_events ::
    "(u64, AuditEvent) table \<Rightarrow> u64 list \<Rightarrow> (u64, AuditEvent) table db_result" where
  "delete_events t [] = Inr t"
| "delete_events t (sequence # ss) =
    try_bind (delete_tracked_entry t sequence) (\<lambda>t'. delete_events t' ss)"

definition commit_audit_batch :: "audit_log \<Rightarrow> PreparedAuditBatch \<Rightarrow> audit_log db_result" where
  "commit_audit_batch log audit =
    try_bind (insert_events (al_events log) (pab_events audit)) (\<lambda>t.
    try_bind (delete_events t (pab_pruned_sequences audit)) (\<lambda>t'.
    Inr (log \<lparr> al_events := t', al_retention := pab_retention audit \<rparr>)))"

definition append_audit_events_atomically ::
    "(bytes \<Rightarrow> bytes) \<Rightarrow> (AuditEvent \<Rightarrow> bytes) \<Rightarrow> audit_log \<Rightarrow> CounterState \<Rightarrow> bytes \<Rightarrow> u64
      \<Rightarrow> AuditEventKind list \<Rightarrow> (audit_log \<times> CounterState) storage_result" where
  "append_audit_events_atomically sha enc log counters caller timestamp_ns kinds =
    try_bind (prepare_audit_batch sha enc log counters caller timestamp_ns kinds)
      (\<lambda>(counters', audit).
    try_bind (from_db (commit_audit_batch log audit)) (\<lambda>log'. Inr (log', counters')))"

definition append_audit_event_at ::
    "(bytes \<Rightarrow> bytes) \<Rightarrow> (AuditEvent \<Rightarrow> bytes) \<Rightarrow> audit_log \<Rightarrow> CounterState \<Rightarrow> bytes
      \<Rightarrow> AuditEventKind \<Rightarrow> u64 \<Rightarrow> (AuditEvent \<times> audit_log \<times> CounterState) storage_result" where
  "append_audit_event_at sha enc log counters caller kind timestamp_ns =
    (let sequence = cs_next_audit_sequence counters;
         event = \<lparr> ae_sequence = sequence, ae_timestamp_ns = timestamp_ns, ae_caller = caller,
           ae_kind = kind \<rparr>
     in try_bind (ok_or CounterOverflow (audit_next sequence)) (\<lambda>next_sequence.
        try_bind (encode_event enc event) (\<lambda>_.
        try_bind
          (if MAX_AUDIT_EVENTS \<le> unat (tt_count (al_events log))
           then (case range_limited (al_events log) (\<lambda>_. True) 1 False of
               [] \<Rightarrow> Inl RecordNotFound
             | (oldest_sequence, oldest) # _ \<Rightarrow>
                 map_result (\<lambda>retention. (retention, Some oldest_sequence))
                   (prune_event sha enc (al_retention log) oldest_sequence oldest))
           else Inr (al_retention log, None)) (\<lambda>(retention, pruned).
        try_bind (from_db (insert_tracked_entry (al_events log) sequence event)) (\<lambda>t.
        try_bind (from_db (case pruned of None \<Rightarrow> Inr t
            | Some oldest_sequence \<Rightarrow> decrement_table_count
                (t \<lparr> tt_rows := (tt_rows t)(oldest_sequence := None) \<rparr>))) (\<lambda>t'.
        Inr (event, log \<lparr> al_events := t', al_retention := retention \<rparr>,
          counters \<lparr> cs_next_audit_sequence := next_sequence \<rparr>)))))))"

definition audit_events :: "audit_log \<Rightarrow> u64 \<Rightarrow> u16 \<Rightarrow> AuditEventPage" where
  "audit_events log requested_start limit =
    (let retention = al_retention log;
         oldest = (case range_limited (al_events log) (\<lambda>_. True) 1 False of
             [] \<Rightarrow> ar_pruned_count retention | (k, _) # _ \<Rightarrow> k);
         start = max requested_start oldest;
         entries = map snd (range_limited (al_events log) (\<lambda>k. start \<le> k) (unat limit + 1) False);
         has_more = unat limit < length entries;
         entries' = (if has_more then butlast entries else entries)
     in \<lparr> aep_events = entries', aep_oldest_available_sequence = oldest,
          aep_next_sequence = (if has_more \<and> entries' \<noteq> []
            then Some (saturating_add (ae_sequence (last entries')) 1) else None),
          aep_pruned_count = ar_pruned_count retention,
          aep_pruned_through_sequence = ar_pruned_through_sequence retention,
          aep_pruned_digest = ar_pruned_digest retention \<rparr>)"

definition last_audit_sequence :: "audit_log \<Rightarrow> u64 option" where
  "last_audit_sequence log =
    (case range_limited (al_events log) (\<lambda>_. True) 1 True of [] \<Rightarrow> None | (k, _) # _ \<Rightarrow> Some k)"

section \<open>The log as a list of events\<close>

definition empty_audit_log :: audit_log where
  "empty_audit_log = \<lparr> al_events = empty_table ''audit_events'',
    al_retention = \<lparr> ar_pruned_count = 0, ar_pruned_through_sequence = None,
      ar_pruned_digest = replicate 32 0 \<rparr> \<rparr>"

text \<open>The events that a batch adds after \<open>n\<close> earlier ones.\<close>

fun batch_events :: "nat \<Rightarrow> bytes \<Rightarrow> u64 \<Rightarrow> AuditEventKind list \<Rightarrow> AuditEvent list" where
  "batch_events n caller timestamp_ns [] = []"
| "batch_events n caller timestamp_ns (kind # kinds) =
    \<lparr> ae_sequence = word_of_nat n, ae_timestamp_ns = timestamp_ns, ae_caller = caller,
      ae_kind = kind \<rparr> # batch_events (Suc n) caller timestamp_ns kinds"

fun digest_chain ::
    "(bytes \<Rightarrow> bytes) \<Rightarrow> (AuditEvent \<Rightarrow> bytes) \<Rightarrow> bytes \<Rightarrow> AuditEvent list \<Rightarrow> bytes" where
  "digest_chain sha enc digest [] = digest"
| "digest_chain sha enc digest (e # es) =
    digest_chain sha enc (pruned_digest_next sha enc digest (ae_sequence e) e) es"

definition audit_represents ::
    "(bytes \<Rightarrow> bytes) \<Rightarrow> (AuditEvent \<Rightarrow> bytes) \<Rightarrow> audit_log \<Rightarrow> u64 \<Rightarrow> AuditEvent list \<Rightarrow> bool" where
  "audit_represents sha enc log next_sequence es =
    (let pruned = length es - MAX_AUDIT_EVENTS in
      length es = unat next_sequence
      \<and> (\<forall>i < length es. ae_sequence (es ! i) = word_of_nat i)
      \<and> tracked_wf (al_events log)
      \<and> tt_rows (al_events log) = (\<lambda>k. if pruned \<le> unat k \<and> unat k < length es
          then Some (es ! unat k) else None)
      \<and> unat (ar_pruned_count (al_retention log)) = pruned
      \<and> ar_pruned_through_sequence (al_retention log)
          = (if pruned = 0 then None else Some (word_of_nat (pruned - 1)))
      \<and> ar_pruned_digest (al_retention log)
          = digest_chain sha enc (replicate 32 0) (take pruned es))"


section \<open>Reading the table\<close>

lemma word_nat_less: "n < 2 ^ LENGTH('a) \<Longrightarrow> unat (word_of_nat n :: 'a::len word) = n"
  by (rule unat_word_of_nat)

lemma keys_sorted:
  assumes "n \<le> unat (next_sequence :: u64)"
  shows "sorted_list_of_set {k :: u64. p \<le> unat k \<and> unat k < n} = map word_of_nat [p..<n]"
proof (rule sorted_distinct_set_unique)
  have small: "unat (word_of_nat i :: u64) = i" if "i < n" for i
    using that assms unat_bound [of next_sequence] by (intro word_nat_less) linarith
  show "sorted (map word_of_nat [p..<n] :: u64 list)"
    by (auto simp: sorted_iff_nth_mono small word_le_nat_alt simp del: of_nat_add)
  show "distinct (map word_of_nat [p..<n] :: u64 list)"
    by (auto simp: distinct_map inj_on_def dest!: arg_cong [where f = unat] simp: small)
  show "set (sorted_list_of_set {k :: u64. p \<le> unat k \<and> unat k < n})
      = set (map word_of_nat [p..<n])"
  proof -
    have "k \<in> word_of_nat ` {p..<n}" if "p \<le> unat k" "unat k < n" for k :: u64
      using that by (intro image_eqI [of _ _ "unat k"]) simp_all
    then show ?thesis
      by (auto simp: small)
  qed
qed simp_all

lemma representsD:
  assumes "audit_represents sha enc log next_sequence es"
  defines "pruned \<equiv> length es - MAX_AUDIT_EVENTS"
  shows "length es = unat next_sequence"
    and "i < length es \<Longrightarrow> ae_sequence (es ! i) = word_of_nat i"
    and "tracked_wf (al_events log)"
    and "tt_rows (al_events log) = (\<lambda>k. if pruned \<le> unat k \<and> unat k < length es
      then Some (es ! unat k) else None)"
    and "unat (ar_pruned_count (al_retention log)) = pruned"
    and "ar_pruned_through_sequence (al_retention log)
      = (if pruned = 0 then None else Some (word_of_nat (pruned - 1)))"
    and "ar_pruned_digest (al_retention log) = digest_chain sha enc (replicate 32 0) (take pruned es)"
  using assms unfolding audit_represents_def Let_def by simp_all

lemma represents_small:
  assumes "audit_represents sha enc log next_sequence es"
  shows "length es < 2 ^ LENGTH(64)" and "i < length es \<Longrightarrow> unat (word_of_nat i :: u64) = i"
  using representsD(1) [OF assms] unat_bound [of next_sequence] by (simp_all add: word_nat_less)

lemma represents_keys:
  assumes rep: "audit_represents sha enc log next_sequence es"
  shows "sorted_list_of_set (dom (tt_rows (al_events log)))
    = map word_of_nat [length es - MAX_AUDIT_EVENTS..<length es]"
proof -
  have "dom (tt_rows (al_events log))
      = {k. length es - MAX_AUDIT_EVENTS \<le> unat k \<and> unat k < length es}"
    unfolding representsD(4) [OF rep] by (auto simp: dom_def)
  then show ?thesis
    using keys_sorted [of "length es" next_sequence "length es - MAX_AUDIT_EVENTS"]
      representsD(1) [OF rep] by simp
qed

lemma represents_count:
  assumes rep: "audit_represents sha enc log next_sequence es"
  shows "unat (tt_count (al_events log)) = min MAX_AUDIT_EVENTS (length es)"
proof -
  let ?d = "dom (tt_rows (al_events log))"
  have "finite ?d"
    using representsD(3) [OF rep] by (simp add: tracked_wf_def)
  then have "card ?d = length (sorted_list_of_set ?d)"
    by simp
  then show ?thesis
    using representsD(3) [OF rep] represents_keys [OF rep] by (simp add: tracked_wf_def)
qed

text \<open>The events from a position on, as the rows the table holds for them.\<close>

definition rows_between :: "AuditEvent list \<Rightarrow> nat \<Rightarrow> nat \<Rightarrow> (u64 \<times> AuditEvent) list" where
  "rows_between es a b = map (\<lambda>i. (word_of_nat i, es ! i)) [a..<b]"

lemma range_represented:
  assumes rep: "audit_represents sha enc log next_sequence es"
  shows "range_limited (al_events log) within m descending
    = (let is = filter (\<lambda>i. within (word_of_nat i)) [length es - MAX_AUDIT_EVENTS..<length es] in
        map (\<lambda>i. (word_of_nat i, es ! i)) (take m (if descending then rev is else is)))"
proof -
  let ?is = "filter (\<lambda>i. within (word_of_nat i)) [length es - MAX_AUDIT_EVENTS..<length es]"
  have row: "the (tt_rows (al_events log) (word_of_nat i)) = es ! i"
    if "i \<in> set (take m (if descending then rev ?is else ?is))" for i
    using in_set_takeD [OF that] represents_small(2) [OF rep, of i]
    by (auto simp: representsD(4) [OF rep] split: if_splits)
  have keys: "filter within (map word_of_nat [length es - MAX_AUDIT_EVENTS..<length es])
      = map word_of_nat ?is"
    by (simp add: filter_map comp_def)
  have "range_limited (al_events log) within m descending
    = map (\<lambda>k. (k, the (tt_rows (al_events log) k)))
        (map word_of_nat (take m (if descending then rev ?is else ?is)))"
    unfolding range_limited_def Let_def represents_keys [OF rep] keys
    by (simp add: take_map rev_map)
  then show ?thesis
    using row by (simp add: Let_def)
qed

lemma range_of_represented:
  assumes rep: "audit_represents sha enc log next_sequence es"
  shows "range_limited (al_events log) (\<lambda>_. True) m False
    = rows_between es (length es - MAX_AUDIT_EVENTS)
        (min (length es - MAX_AUDIT_EVENTS + m) (length es))"
proof -
  let ?p = "length es - MAX_AUDIT_EVENTS"
  have "take m [?p..<length es] = [?p..<min (?p + m) (length es)]"
    by (auto simp: min_def take_upt)
  then show ?thesis
    unfolding range_represented [OF rep] rows_between_def by simp
qed

section \<open>Appending\<close>

definition event_fits :: "(AuditEvent \<Rightarrow> bytes) \<Rightarrow> AuditEvent \<Rightarrow> bool" where
  "event_fits enc e = (length (enc e) \<le> MAX_STABLE_VALUE_BYTES)"

lemma encode_event_exact:
  "encode_event enc e = (if event_fits enc e then Inr e
    else Inl (ValueTooLarge (length (enc e)) MAX_STABLE_VALUE_BYTES))"
  by (simp add: encode_event_def stable_blob_new_def event_fits_def map_result_def)

lemma length_batch_events [simp]: "length (batch_events n caller ts kinds) = length kinds"
  by (induction kinds arbitrary: n) simp_all

lemma batch_events_sequence:
  "i < length kinds \<Longrightarrow> ae_sequence (batch_events n caller ts kinds ! i) = word_of_nat (n + i)"
proof (induction kinds arbitrary: n i)
  case (Cons k ks)
  then show ?case
    by (cases i) (simp_all add: ac_simps)
qed simp

lemma rows_between_Cons:
  "a < b \<Longrightarrow> rows_between es a b = (word_of_nat a, es ! a) # rows_between es (Suc a) b"
  by (simp add: rows_between_def upt_conv_Cons)

lemma rows_between_empty [simp]: "rows_between es a a = []"
  by (simp add: rows_between_def)

lemma number_events_ok:
  assumes "unat sequence + length kinds < 2 ^ LENGTH(64)"
    and "\<forall>e \<in> set (batch_events (unat sequence) caller ts kinds). event_fits enc e"
  shows "number_events enc sequence caller ts kinds
    = Inr (word_of_nat (unat sequence + length kinds),
        zip (map word_of_nat [unat sequence..<unat sequence + length kinds])
          (batch_events (unat sequence) caller ts kinds))"
  using assms
proof (induction kinds arbitrary: sequence)
  case (Cons k ks)
  let ?next = "word_of_nat (Suc (unat sequence)) :: u64"
  have next': "unat ?next = Suc (unat sequence)"
    using Cons.prems(1) by (intro word_nat_less) simp
  then have step: "audit_next sequence = Some ?next"
    by (simp add: counter_steps_exact)
  have "number_events enc ?next caller ts ks = Inr (word_of_nat (Suc (unat sequence) + length ks),
      zip (map word_of_nat [Suc (unat sequence)..<Suc (unat sequence) + length ks])
        (batch_events (Suc (unat sequence)) caller ts ks))"
    using Cons.IH [of ?next] Cons.prems next' by simp
  then show ?case
    using Cons.prems(2) step
    by (simp add: encode_event_exact try_bind_def ok_or_def upt_conv_Cons del: upt_Suc)
qed simp

lemma number_events_fails:
  assumes "\<not> (unat sequence + length kinds < 2 ^ LENGTH(64)
    \<and> (\<forall>e \<in> set (batch_events (unat sequence) caller ts kinds). event_fits enc e))"
  shows "\<exists>err. number_events enc sequence caller ts kinds = Inl err"
  using assms
proof (induction kinds arbitrary: sequence)
  case (Cons k ks)
  show ?case
  proof (cases "audit_next sequence")
    case None
    then show ?thesis
      by (simp add: ok_or_def try_bind_def)
  next
    case (Some n)
    then have n: "unat n = Suc (unat sequence)"
      by (simp add: counter_steps_exact)
    show ?thesis
    proof (cases "event_fits enc (hd (batch_events (unat sequence) caller ts (k # ks)))")
      case True
      then have "\<exists>err. number_events enc n caller ts ks = Inl err"
        using Cons.IH [of n] Cons.prems n by simp
      then show ?thesis
        using Some True by (auto simp: encode_event_exact try_bind_def ok_or_def)
    next
      case False
      then show ?thesis
        using Some by (simp add: encode_event_exact try_bind_def ok_or_def)
    qed
  qed
next
  case Nil
  then show ?case
    using unat_bound [of sequence] by simp
qed

text \<open>The table and the retention record that show the events from \<open>a\<close> up to \<open>b\<close>.\<close>

definition log_rows :: "AuditEvent list \<Rightarrow> nat \<Rightarrow> nat \<Rightarrow> u64 \<Rightarrow> AuditEvent option" where
  "log_rows es a b = (\<lambda>k. if a \<le> unat k \<and> unat k < b then Some (es ! unat k) else None)"

definition retention_for ::
    "(bytes \<Rightarrow> bytes) \<Rightarrow> (AuditEvent \<Rightarrow> bytes) \<Rightarrow> AuditEvent list \<Rightarrow> nat \<Rightarrow> AuditRetentionState" where
  "retention_for sha enc es p = \<lparr> ar_pruned_count = word_of_nat p,
    ar_pruned_through_sequence = (if p = 0 then None else Some (word_of_nat (p - 1))),
    ar_pruned_digest = digest_chain sha enc (replicate 32 0) (take p es) \<rparr>"

lemma represents_iff:
  "audit_represents sha enc log next_sequence es \<longleftrightarrow>
    length es = unat next_sequence
    \<and> (\<forall>i < length es. ae_sequence (es ! i) = word_of_nat i)
    \<and> tracked_wf (al_events log)
    \<and> tt_rows (al_events log) = log_rows es (length es - MAX_AUDIT_EVENTS) (length es)
    \<and> al_retention log = retention_for sha enc es (length es - MAX_AUDIT_EVENTS)"
proof -
  have "unat c = length es - MAX_AUDIT_EVENTS \<longleftrightarrow> c = word_of_nat (length es - MAX_AUDIT_EVENTS)"
    if "length es = unat next_sequence" for c :: u64
    using word_nat_less [where 'a = 64, of "length es - MAX_AUDIT_EVENTS"]
      unat_bound [of next_sequence] that by (auto intro: unat_eqD)
  then show ?thesis
    unfolding audit_represents_def Let_def log_rows_def retention_for_def
    by (cases "al_retention log") auto
qed

lemma digest_chain_snoc:
  "digest_chain sha enc d (es @ [e])
    = pruned_digest_next sha enc (digest_chain sha enc d es) (ae_sequence e) e"
  by (induction es arbitrary: d) simp_all

lemma prune_events_ok:
  assumes "p + k \<le> length es" and "length es < 2 ^ LENGTH(64)"
    and "\<forall>i < length es. ae_sequence (es ! i) = word_of_nat i"
  shows "prune_events sha enc (retention_for sha enc es p) (rows_between es p (p + k))
    = Inr (retention_for sha enc es (p + k))"
  using assms(1)
proof (induction k arbitrary: p)
  case (Suc k)
  have p: "unat (word_of_nat p :: u64) = p" "unat (word_of_nat (Suc p) :: u64) = Suc p"
    using Suc.prems assms(2) by (simp_all only: word_nat_less)
  have "checked_add (word_of_nat p :: u64) 1 = Some (word_of_nat (Suc p))"
    using p by (simp add: checked_add_eq_Some)
  moreover have "take (Suc p) es = take p es @ [es ! p]"
    using Suc.prems by (simp add: take_Suc_conv_app_nth)
  ultimately have "prune_event sha enc (retention_for sha enc es p) (word_of_nat p) (es ! p)
      = Inr (retention_for sha enc es (Suc p))"
    using assms(3) Suc.prems
    by (simp add: prune_event_def retention_for_def digest_chain_snoc ok_or_def try_bind_def)
  then show ?case
    using Suc.IH [of "Suc p"] Suc.prems by (simp add: rows_between_Cons try_bind_def)
qed simp

lemma insert_events_ok:
  assumes "tracked_wf t" and "tt_rows t = log_rows es p n" and "p \<le> n" and "n + k < 2 ^ LENGTH(64)"
  shows "\<exists>t'. insert_events t (rows_between es n (n + k)) = Inr t' \<and> tracked_wf t'
    \<and> tt_name t' = tt_name t \<and> tt_rows t' = log_rows es p (n + k)"
  using assms
proof (induction k arbitrary: t n)
  case (Suc k)
  have n: "unat (word_of_nat n :: u64) = n"
    using Suc.prems(4) by (intro word_nat_less) simp
  have "dom (tt_rows t) \<subseteq> unat -` {..<n}"
    unfolding Suc.prems(2) by (auto simp: log_rows_def split: if_splits)
  then have "card (dom (tt_rows t)) \<le> card (unat -` {..<n} :: u64 set)"
    by (intro card_mono) simp_all
  also have "\<dots> \<le> card {..<n}"
    by (intro card_inj_on_le [of unat]) (auto intro!: inj_onI unat_eqD)
  finally have nf: "\<not> table_full t"
    using Suc.prems(1,4) by (simp add: table_full_def tracked_wf_def)
  have absent: "tt_rows t (word_of_nat n) = None"
    using n by (simp add: Suc.prems(2) log_rows_def)
  obtain u where u: "insert_tracked_entry t (word_of_nat n) (es ! n) = Inr u"
    by (rule insert_tracked_total [OF Suc.prems(1) absent nf])
  moreover have "(log_rows es p n)(word_of_nat n \<mapsto> es ! n) = log_rows es p (Suc n)"
  proof
    fix k :: u64
    have "unat k = n \<longleftrightarrow> k = word_of_nat n"
      using n by auto
    then show "((log_rows es p n)(word_of_nat n \<mapsto> es ! n)) k = log_rows es p (Suc n) k"
      using Suc.prems(3) by (auto simp: log_rows_def n)
  qed
  ultimately have "tracked_wf u" "tt_name u = tt_name t" "tt_rows u = log_rows es p (Suc n)"
    using insert_tracked_exact [OF Suc.prems(1)] Suc.prems(2) by auto
  then show ?case
    using Suc.IH [of u "Suc n"] Suc.prems u by (simp add: rows_between_Cons try_bind_def)
qed auto

lemma delete_events_ok:
  assumes "tracked_wf t" and "tt_rows t = log_rows es p n" and "p + k \<le> n" and "n < 2 ^ LENGTH(64)"
  shows "\<exists>t'. delete_events t (map word_of_nat [p..<p + k]) = Inr t' \<and> tracked_wf t'
    \<and> tt_name t' = tt_name t \<and> tt_rows t' = log_rows es (p + k) n"
  using assms
proof (induction k arbitrary: t p)
  case (Suc k)
  have p: "unat (word_of_nat p :: u64) = p"
    using Suc.prems(3,4) by (intro word_nat_less) simp
  then have present: "tt_rows t (word_of_nat p) \<noteq> None"
    using Suc.prems(3) by (simp add: Suc.prems(2) log_rows_def)
  obtain u where u: "delete_tracked_entry t (word_of_nat p) = Inr u"
    by (rule delete_tracked_total [OF Suc.prems(1) present])
  moreover have "(log_rows es p n)(word_of_nat p := None) = log_rows es (Suc p) n"
  proof
    fix k :: u64
    have "unat k = p \<longleftrightarrow> k = word_of_nat p"
      using p by auto
    then show "((log_rows es p n)(word_of_nat p := None)) k = log_rows es (Suc p) n k"
      by (auto simp: log_rows_def)
  qed
  ultimately have "tracked_wf u" "tt_name u = tt_name t" "tt_rows u = log_rows es (Suc p) n"
    using delete_tracked_exact [OF Suc.prems(1)] Suc.prems(2) by auto
  then show ?case
    using Suc.IH [of u "Suc p"] Suc.prems u
    by (simp add: upt_conv_Cons try_bind_def del: upt_Suc)
qed auto

lemma log_rows_append:
  "b \<le> length es \<Longrightarrow> log_rows (es @ fs) a b = log_rows es a b"
  by (auto simp: log_rows_def nth_append fun_eq_iff)

lemma rows_between_append:
  "b \<le> length es \<Longrightarrow> rows_between (es @ fs) a b = rows_between es a b"
  by (auto simp: rows_between_def nth_append)

lemma retention_for_append:
  "p \<le> length es \<Longrightarrow> retention_for sha enc (es @ fs) p = retention_for sha enc es p"
  by (simp add: retention_for_def)

lemma numbered_rows:
  "zip (map word_of_nat [length es..<length es + length fs]) fs
    = rows_between (es @ fs) (length es) (length es + length fs)"
  by (rule nth_equalityI) (simp_all add: rows_between_def nth_append)

lemma fst_rows_between: "map fst (rows_between es a b) = map word_of_nat [a..<b]"
  by (simp add: rows_between_def comp_def)

definition batch_accepted ::
    "(AuditEvent \<Rightarrow> bytes) \<Rightarrow> AuditEvent list \<Rightarrow> bytes \<Rightarrow> u64 \<Rightarrow> AuditEventKind list \<Rightarrow> bool" where
  "batch_accepted enc es caller ts kinds =
    (length kinds \<le> MAX_AUDIT_BATCH \<and> length es + length kinds < 2 ^ LENGTH(64)
     \<and> (\<forall>e \<in> set (batch_events (length es) caller ts kinds). event_fits enc e))"

lemma prepare_batch_ok:
  assumes rep: "audit_represents sha enc log (cs_next_audit_sequence counters) es"
    and ok: "batch_accepted enc es caller ts kinds"
  defines "es' \<equiv> es @ batch_events (length es) caller ts kinds"
    and "p \<equiv> length es - MAX_AUDIT_EVENTS"
  shows "prepare_audit_batch sha enc log counters caller ts kinds
    = Inr (counters \<lparr> cs_next_audit_sequence := word_of_nat (length es') \<rparr>,
        \<lparr> pab_events = rows_between es' (length es) (length es'),
          pab_retention = retention_for sha enc es' (length es' - MAX_AUDIT_EVENTS),
          pab_pruned_sequences = map word_of_nat [p..<length es' - MAX_AUDIT_EVENTS] \<rparr>)"
proof -
  let ?new = "batch_events (length es) caller ts kinds"
  have next': "unat (cs_next_audit_sequence counters) = length es"
    using representsD(1) [OF rep] by simp
  have len: "length es' = length es + length kinds" "length kinds \<le> 32" "length es' < 2 ^ LENGTH(64)"
    using ok by (simp_all add: es'_def batch_accepted_def MAX_AUDIT_BATCH_def)
  have num: "number_events enc (cs_next_audit_sequence counters) caller ts kinds
      = Inr (word_of_nat (length es'), rows_between es' (length es) (length es'))"
    using number_events_ok [of "cs_next_audit_sequence counters" kinds caller ts enc] ok next'
      numbered_rows [of es ?new] by (simp add: batch_accepted_def es'_def)
  define q where "q = min MAX_AUDIT_EVENTS (length es) + length kinds - MAX_AUDIT_EVENTS"
  have q: "p + q = length es' - MAX_AUDIT_EVENTS" "p + q \<le> length es"
    using len by (auto simp: p_def q_def MAX_AUDIT_EVENTS_def)
  have oldest: "range_limited (al_events log) (\<lambda>_. True) q False = rows_between es' p (p + q)"
    using range_of_represented [OF rep, of q] q(2)
    by (simp add: es'_def rows_between_append p_def)
  have "al_retention log = retention_for sha enc es' p"
    using rep [unfolded represents_iff] retention_for_append [of p es] by (simp add: p_def es'_def)
  moreover have "\<forall>i < length es'. ae_sequence (es' ! i) = word_of_nat i"
    using representsD(2) [OF rep] batch_events_sequence [of _ kinds "length es" caller ts]
    by (auto simp: es'_def nth_append)
  ultimately have pruned: "prune_events sha enc (al_retention log) (rows_between es' p (p + q))
      = Inr (retention_for sha enc es' (p + q))"
    using prune_events_ok [of p q es'] q(2) len by simp
  have small: "unat (tt_count (al_events log)) = min MAX_AUDIT_EVENTS (length es)"
    by (rule represents_count [OF rep])
  have "length (rows_between es' (length es) (length es')) = length kinds"
    "length (rows_between es' p (p + q)) = q"
    by (simp_all add: rows_between_def len)
  moreover have "\<not> MAX_AUDIT_BATCH < length kinds"
    "\<not> 2 ^ 32 \<le> min MAX_AUDIT_EVENTS (length es) + length kinds"
    "\<not> 2 ^ 32 \<le> MAX_AUDIT_EVENTS"
    using len by (simp_all add: MAX_AUDIT_BATCH_def MAX_AUDIT_EVENTS_def)
  ultimately show ?thesis
    using oldest pruned
    by (simp add: prepare_audit_batch_def num small q_def [symmetric] fst_rows_between q(1) try_bind_def
        Let_def)
qed

lemma commit_batch_ok:
  assumes rep: "audit_represents sha enc log next_sequence es"
    and len: "length es + length fs < 2 ^ LENGTH(64)" "length fs \<le> MAX_AUDIT_EVENTS"
    and seq: "\<forall>i < length (es @ fs). ae_sequence ((es @ fs) ! i) = word_of_nat i"
  defines "es' \<equiv> es @ fs"
  shows "\<exists>log'. commit_audit_batch log \<lparr> pab_events = rows_between es' (length es) (length es'),
      pab_retention = retention_for sha enc es' (length es' - MAX_AUDIT_EVENTS),
      pab_pruned_sequences = map word_of_nat
        [length es - MAX_AUDIT_EVENTS..<length es' - MAX_AUDIT_EVENTS] \<rparr> = Inr log'
    \<and> audit_represents sha enc log' (word_of_nat (length es')) es'"
proof -
  let ?p = "length es - MAX_AUDIT_EVENTS" and ?q = "length es' - MAX_AUDIT_EVENTS"
  have q: "?p + (?q - ?p) = ?q" "?p + (?q - ?p) \<le> length es'" and n: "length es' < 2 ^ LENGTH(64)"
    and new: "length es + length fs = length es'"
    using len by (auto simp: es'_def)
  have wf: "tracked_wf (al_events log)" and rows: "tt_rows (al_events log) = log_rows es' ?p (length es)"
    using rep [unfolded represents_iff] by (simp_all add: es'_def log_rows_append)
  obtain t where t: "insert_events (al_events log) (rows_between es' (length es) (length es')) = Inr t"
    "tracked_wf t" "tt_rows t = log_rows es' ?p (length es')"
    using insert_events_ok [OF wf rows, of "length fs"] len new by auto
  obtain t' where t': "delete_events t (map word_of_nat [?p..<?q]) = Inr t'"
    "tracked_wf t'" "tt_rows t' = log_rows es' ?q (length es')"
    using delete_events_ok [OF t(2,3) q(2) n] q(1) by auto
  let ?log = "log \<lparr> al_events := t', al_retention := retention_for sha enc es' ?q \<rparr>"
  have "unat (word_of_nat (length es') :: u64) = length es'"
    using n by (rule word_nat_less)
  then have "audit_represents sha enc ?log (word_of_nat (length es')) es'"
    unfolding represents_iff using t'(2,3) seq by (simp add: es'_def)
  then show ?thesis
    using t(1) t'(1) by (simp add: commit_audit_batch_def try_bind_def)
qed

lemma append_batch_ok:
  assumes rep: "audit_represents sha enc log (cs_next_audit_sequence counters) es"
    and ok: "batch_accepted enc es caller ts kinds"
  defines "es' \<equiv> es @ batch_events (length es) caller ts kinds"
  shows "\<exists>log'. append_audit_events_atomically sha enc log counters caller ts kinds
      = Inr (log', counters \<lparr> cs_next_audit_sequence := word_of_nat (length es') \<rparr>)
    \<and> audit_represents sha enc log' (word_of_nat (length es')) es'"
proof -
  have seq: "\<forall>i < length es'. ae_sequence (es' ! i) = word_of_nat i"
    using representsD(2) [OF rep] batch_events_sequence [of _ kinds "length es" caller ts]
    by (auto simp: es'_def nth_append)
  have "length (batch_events (length es) caller ts kinds) \<le> MAX_AUDIT_EVENTS"
    using ok by (simp add: batch_accepted_def MAX_AUDIT_BATCH_def MAX_AUDIT_EVENTS_def)
  then obtain log' where "commit_audit_batch log
      \<lparr> pab_events = rows_between es' (length es) (length es'),
        pab_retention = retention_for sha enc es' (length es' - MAX_AUDIT_EVENTS),
        pab_pruned_sequences = map word_of_nat
          [length es - MAX_AUDIT_EVENTS..<length es' - MAX_AUDIT_EVENTS] \<rparr> = Inr log'"
    "audit_represents sha enc log' (word_of_nat (length es')) es'"
    using commit_batch_ok [OF rep, of "batch_events (length es) caller ts kinds"] ok seq
    by (auto simp: es'_def batch_accepted_def)
  then show ?thesis
    using prepare_batch_ok [OF rep ok]
    by (simp add: append_audit_events_atomically_def es'_def try_bind_def from_db_def)
qed

lemma append_batch_fails:
  assumes rep: "audit_represents sha enc log (cs_next_audit_sequence counters) es"
    and "\<not> batch_accepted enc es caller ts kinds"
  shows "\<exists>err. append_audit_events_atomically sha enc log counters caller ts kinds = Inl err"
proof (cases "MAX_AUDIT_BATCH < length kinds")
  case True
  then show ?thesis
    by (simp add: append_audit_events_atomically_def prepare_audit_batch_def try_bind_def)
next
  case False
  then obtain err where "number_events enc (cs_next_audit_sequence counters) caller ts kinds = Inl err"
    using number_events_fails [of "cs_next_audit_sequence counters" kinds caller ts enc] assms(2)
      representsD(1) [OF rep] by (auto simp: batch_accepted_def)
  then show ?thesis
    using False by (simp add: append_audit_events_atomically_def prepare_audit_batch_def try_bind_def)
qed

lemma empty_log_represents: "audit_represents sha enc empty_audit_log 0 []"
  by (simp add: represents_iff empty_audit_log_def empty_table_def tracked_wf_def retention_for_def
      log_rows_def)

section \<open>Runs\<close>

text \<open>A batch that fails leaves the log and the counters as they were.\<close>

definition audit_act ::
    "(bytes \<Rightarrow> bytes) \<Rightarrow> (AuditEvent \<Rightarrow> bytes) \<Rightarrow> audit_log \<times> CounterState
      \<Rightarrow> bytes \<times> u64 \<times> AuditEventKind list \<Rightarrow> audit_log \<times> CounterState" where
  "audit_act sha enc s b = (case b of (caller, ts, kinds) \<Rightarrow>
    (case append_audit_events_atomically sha enc (fst s) (snd s) caller ts kinds of
      Inl _ \<Rightarrow> s | Inr s' \<Rightarrow> s'))"

definition audit_history_act ::
    "(AuditEvent \<Rightarrow> bytes) \<Rightarrow> AuditEvent list \<Rightarrow> bytes \<times> u64 \<times> AuditEventKind list
      \<Rightarrow> AuditEvent list" where
  "audit_history_act enc es b = (case b of (caller, ts, kinds) \<Rightarrow>
    if batch_accepted enc es caller ts kinds then es @ batch_events (length es) caller ts kinds else es)"

lemma audit_act_represents:
  assumes "audit_represents sha enc (fst s) (cs_next_audit_sequence (snd s)) es"
  shows "audit_represents sha enc (fst (audit_act sha enc s b))
    (cs_next_audit_sequence (snd (audit_act sha enc s b))) (audit_history_act enc es b)"
proof -
  obtain caller ts kinds where b: "b = (caller, ts, kinds)"
    by (cases b)
  show ?thesis
  proof (cases "batch_accepted enc es caller ts kinds")
    case True
    then show ?thesis
      using append_batch_ok [OF assms True] by (auto simp: b audit_act_def audit_history_act_def)
  next
    case False
    then show ?thesis
      using append_batch_fails [OF assms False] assms
      by (auto simp: b audit_act_def audit_history_act_def)
  qed
qed

lemma audit_run_represents:
  assumes "audit_represents sha enc (fst s) (cs_next_audit_sequence (snd s)) es"
  shows "audit_represents sha enc (fst (foldl (audit_act sha enc) s bs))
    (cs_next_audit_sequence (snd (foldl (audit_act sha enc) s bs)))
    (foldl (audit_history_act enc) es bs)"
  using assms by (induction bs arbitrary: s es) (simp_all add: audit_act_represents)

section \<open>Pages\<close>

lemma from_filter:
  assumes "n \<le> length es" and "length es < 2 ^ LENGTH(64)" and "p \<le> n"
  shows "filter (\<lambda>i. start \<le> (word_of_nat i :: u64)) [p..<n] = [max p (min n (unat start))..<n]"
  using assms(3,1)
proof (induction n rule: nat_induct_at_least)
  case (Suc n)
  have "unat (word_of_nat n :: u64) = n"
    using Suc.prems assms(2) by (intro word_nat_less) simp
  then have "start \<le> word_of_nat n \<longleftrightarrow> unat start \<le> n"
    by (simp add: word_le_nat_alt)
  then show ?case
    using Suc by (auto simp: max_def min_def)
qed simp

lemma page_events:
  assumes rep: "audit_represents sha enc log next_sequence es"
    and "length es - MAX_AUDIT_EVENTS \<le> unat start"
  shows "map snd (range_limited (al_events log) (\<lambda>k. start \<le> k) m False)
    = take m (drop (unat start) es)"
proof -
  let ?p = "length es - MAX_AUDIT_EVENTS" and ?a = "min (length es) (unat start)"
  have "map snd (range_limited (al_events log) (\<lambda>k. start \<le> k) m False)
      = map ((!) es) (take m [max ?p ?a..<length es])"
    unfolding range_represented [OF rep] Let_def
    using from_filter [of "length es" es ?p start] represents_small(1) [OF rep]
    by (simp add: comp_def)
  also have "\<dots> = take m (map ((!) es) [?a..<length es])"
    using assms(2) by (simp add: take_map max_absorb2)
  also have "map ((!) es) [?a..<length es] = drop (unat start) es"
    by (rule nth_equalityI) auto
  finally show ?thesis .
qed

lemma oldest_available:
  assumes rep: "audit_represents sha enc log next_sequence es"
  shows "(case range_limited (al_events log) (\<lambda>_. True) 1 False of
      [] \<Rightarrow> ar_pruned_count (al_retention log) | (k, _) # _ \<Rightarrow> k)
    = word_of_nat (length es - MAX_AUDIT_EVENTS)"
proof (cases "es = []")
  case True
  then show ?thesis
    using rep [unfolded represents_iff] range_of_represented [OF rep, of 1]
    by (simp add: retention_for_def)
next
  case False
  then have "min (length es - MAX_AUDIT_EVENTS + 1) (length es) = Suc (length es - MAX_AUDIT_EVENTS)"
    by (cases es) (simp_all add: MAX_AUDIT_EVENTS_def)
  then show ?thesis
    using range_of_represented [OF rep, of 1] by (simp add: rows_between_Cons)
qed

section \<open>Properties\<close>

text \<open>
  C19.  The audit log is the list of all events appended to it: after any sequence of batches, accepted
  or refused, the next sequence number is the number of events, the table holds exactly the last
  hundred thousand under their sequence numbers with an exact row count, and the retention record
  holds the number of pruned events and the hash chain over all of them in order.  A batch is
  refused exactly if it is longer than 32 events, an event does not fit a blob, or the sequence
  numbers are used up.
\<close>

theorem audit_log_refines_history:
  "let s = foldl (audit_act sha enc) (empty_audit_log, c \<lparr> cs_next_audit_sequence := 0 \<rparr>) batches;
       es = foldl (audit_history_act enc) [] batches;
       pruned = length es - 100000
   in unat (cs_next_audit_sequence (snd s)) = length es
    \<and> tt_rows (al_events (fst s)) = (\<lambda>k. if pruned \<le> unat k \<and> unat k < length es
        then Some (es ! unat k) else None)
    \<and> unat (tt_count (al_events (fst s))) = min 100000 (length es)
    \<and> unat (ar_pruned_count (al_retention (fst s))) = pruned
    \<and> ar_pruned_digest (al_retention (fst s))
        = digest_chain sha enc (replicate 32 0) (take pruned es)"
proof -
  let ?s = "foldl (audit_act sha enc) (empty_audit_log, c \<lparr> cs_next_audit_sequence := 0 \<rparr>) batches"
  have rep: "audit_represents sha enc (fst ?s) (cs_next_audit_sequence (snd ?s))
      (foldl (audit_history_act enc) [] batches)"
    by (rule audit_run_represents) (simp add: empty_log_represents)
  show ?thesis
    using representsD [OF rep] represents_count [OF rep] by (simp add: Let_def MAX_AUDIT_EVENTS_def)
qed

text \<open>
  A page of the log is a slice of the history: reading at most \<open>limit\<close> events from a sequence
  number gives the events from there on, or from the oldest one that is still kept, and the number
  to continue with is that of the first event left out.
\<close>

lemma audit_page_exact:
  assumes "audit_represents sha enc log next_sequence es"
  shows "let page = audit_events log requested_start limit;
      start = max (unat requested_start) (length es - 100000)
    in aep_events page = take (unat limit) (drop start es)
      \<and> unat (aep_oldest_available_sequence page) = length es - 100000
      \<and> map_option unat (aep_next_sequence page)
          = (if limit \<noteq> 0 \<and> start + unat limit < length es then Some (start + unat limit) else None)"
proof -
  let ?p = "length es - MAX_AUDIT_EVENTS"
  have p: "unat (word_of_nat ?p :: u64) = ?p"
    using represents_small(1) [OF assms] by (intro word_nat_less) simp
  define st where "st = max requested_start (word_of_nat ?p)"
  have start: "unat st = max (unat requested_start) ?p"
    using p by (simp add: st_def max_def word_le_nat_alt)
  let ?xs = "take (unat limit + 1) (drop (unat st) es)" and ?ys = "take (unat limit) (drop (unat st) es)"
  have xs: "map snd (range_limited (al_events log) (\<lambda>k. st \<le> k) (unat limit + 1) False) = ?xs"
    using start by (intro page_events [OF assms]) simp
  have more: "unat limit < length ?xs \<longleftrightarrow> unat st + unat limit < length es"
    by auto
  have events: "(if unat st + unat limit < length es then butlast ?xs else ?xs) = ?ys"
    by (auto simp: butlast_take)
  have last: "unat (saturating_add (ae_sequence (last ?ys)) 1) = unat st + unat limit"
    if "unat st + unat limit < length es" "limit \<noteq> 0"
  proof -
    let ?i = "unat st + unat limit - 1"
    have l: "0 < unat limit"
      using that(2) by (simp add: unat_gt_0)
    then have "last ?ys = es ! ?i"
      using that(1) by (subst last_conv_nth) (auto simp: min_def)
    moreover have "unat (ae_sequence (es ! ?i)) = ?i"
      using representsD(2) [OF assms, of ?i] represents_small(2) [OF assms, of ?i] that(1) l by simp
    ultimately show ?thesis
      using l that(1) represents_small(1) [OF assms] by (simp add: saturating_add_def unat_add_exact)
  qed
  have none: "?ys = [] \<longleftrightarrow> limit = 0" if "unat st + unat limit < length es"
    using that by (auto simp: unat_eq_zero)
  have "map_option unat (if unat st + unat limit < length es \<and> ?ys \<noteq> []
      then Some (saturating_add (ae_sequence (last ?ys)) 1) else None)
    = (if limit \<noteq> 0 \<and> unat st + unat limit < length es then Some (unat st + unat limit) else None)"
    using last none by (cases "unat st + unat limit < length es"; cases "limit = 0") simp_all
  then show ?thesis
    unfolding audit_events_def Let_def oldest_available [OF assms] st_def [symmetric] xs more events
      AuditEventPage.select_convs p
    using start by (simp only: MAX_AUDIT_EVENTS_def simp_thms)
qed

lemma audit_page_exact_witness:
  "let sha = (\<lambda>_. []); enc = (\<lambda>_. []);
       log = fst (audit_act sha enc (empty_audit_log, counter_state_default)
         ([7], 9, [AK_DepositsPaused, AK_DepositsResumed]))
   in map ae_kind (aep_events (audit_events log 0 1)) = [AK_DepositsPaused]
    \<and> map_option unat (aep_next_sequence (audit_events log 0 1)) = Some 1"
proof -
  let ?enc = "\<lambda>_. []" and ?sha = "\<lambda>_. []"
  let ?s = "audit_act ?sha ?enc (empty_audit_log, counter_state_default)
    ([7], 9, [AK_DepositsPaused, AK_DepositsResumed])"
  let ?es = "batch_events 0 [7] 9 [AK_DepositsPaused, AK_DepositsResumed]"
  have "audit_history_act ?enc [] ([7], 9, [AK_DepositsPaused, AK_DepositsResumed]) = ?es"
    by (simp add: audit_history_act_def batch_accepted_def event_fits_def MAX_AUDIT_BATCH_def)
  then have "audit_represents ?sha ?enc (fst ?s) (cs_next_audit_sequence (snd ?s)) ?es"
    using audit_act_represents [of ?sha ?enc "(empty_audit_log, counter_state_default)" "[]"
        "([7], 9, [AK_DepositsPaused, AK_DepositsResumed])"] empty_log_represents [of ?sha ?enc]
    by (simp add: counter_state_default_def)
  note page = audit_page_exact [OF this, of 0 1]
  show ?thesis
    using page unfolding Let_def by simp
qed

text \<open>
  Appending a single event is appending a batch of one: on a log in good order the separate
  implementation gives the same result, the same errors included.
\<close>

lemma append_one_is_batch:
  assumes "audit_represents sha enc log (cs_next_audit_sequence counters) es"
  shows "append_audit_event_at sha enc log counters caller kind ts
    = map_result (\<lambda>s. (\<lparr> ae_sequence = cs_next_audit_sequence counters, ae_timestamp_ns = ts,
          ae_caller = caller, ae_kind = kind \<rparr>, s))
        (append_audit_events_atomically sha enc log counters caller ts [kind])"
proof -
  let ?e = "\<lparr> ae_sequence = cs_next_audit_sequence counters, ae_timestamp_ns = ts,
    ae_caller = caller, ae_kind = kind \<rparr>"
  let ?n = "unat (tt_count (al_events log))"
  have count: "?n \<le> MAX_AUDIT_EVENTS" "?n = min MAX_AUDIT_EVENTS (length es)"
    using represents_count [OF assms] by simp_all
  have wf: "tracked_wf (al_events log)"
    by (rule representsD(3) [OF assms])
  have small: "\<not> 2 ^ 32 \<le> ?n" "\<not> 2 ^ 32 \<le> Suc ?n" "\<not> MAX_AUDIT_BATCH < Suc 0"
    using count by (simp_all add: MAX_AUDIT_EVENTS_def MAX_AUDIT_BATCH_def)
  show ?thesis
  proof (cases "?n = MAX_AUDIT_EVENTS")
    case True
    then have full: "Suc ?n - MAX_AUDIT_EVENTS = 1" "MAX_AUDIT_EVENTS \<le> ?n"
      by simp_all
    let ?p = "length es - MAX_AUDIT_EVENTS"
    have p: "?p < length es" "min (?p + 1) (length es) = Suc ?p"
      using True count(2) by (simp_all add: MAX_AUDIT_EVENTS_def)
    then have old: "range_limited (al_events log) (\<lambda>_. True) 1 False = [(word_of_nat ?p, es ! ?p)]"
      using range_of_represented [OF assms, of 1] by (simp add: rows_between_Cons)
    have "tt_rows (al_events log) (word_of_nat ?p) \<noteq> None"
      using p(1) represents_small(2) [OF assms, of ?p] by (simp add: representsD(4) [OF assms])
    then have del: "delete_tracked_entry t (word_of_nat ?p)
        = decrement_table_count (t \<lparr> tt_rows := (tt_rows t)(word_of_nat ?p := None) \<rparr>)"
      if "insert_tracked_entry (al_events log) (cs_next_audit_sequence counters) ?e = Inr t" for t
      using that insert_tracked_exact [OF wf]
      by (auto simp: delete_tracked_entry_def require_tracked_entry_def try_bind_def)
    show ?thesis
      using small full old del
      by (auto simp: append_audit_event_at_def append_audit_events_atomically_def prepare_audit_batch_def
          commit_audit_batch_def Let_def try_bind_def map_result_def ok_or_def encode_event_def
          from_db_def split: option.splits sum.splits)
  next
    case False
    then have part: "Suc ?n - MAX_AUDIT_EVENTS = 0" "\<not> MAX_AUDIT_EVENTS \<le> ?n"
      using count(1) by simp_all
    have none: "range_limited (al_events log) (\<lambda>_. True) 0 False = []"
      by (simp add: range_limited_def)
    show ?thesis
      using small part none
      by (auto simp: append_audit_event_at_def append_audit_events_atomically_def prepare_audit_batch_def
          commit_audit_batch_def Let_def try_bind_def map_result_def ok_or_def encode_event_def
          from_db_def split: option.splits sum.splits)
  qed
qed

lemma append_one_is_batch_witness:
  "append_audit_event_at (\<lambda>_. []) (\<lambda>_. []) empty_audit_log counter_state_default [7] AK_DepositsPaused 9
    = map_result (\<lambda>s. (\<lparr> ae_sequence = 0, ae_timestamp_ns = 9, ae_caller = [7],
          ae_kind = AK_DepositsPaused \<rparr>, s))
        (append_audit_events_atomically (\<lambda>_. []) (\<lambda>_. []) empty_audit_log counter_state_default [7] 9
          [AK_DepositsPaused])"
  using append_one_is_batch [of "\<lambda>_. []" "\<lambda>_. []" empty_audit_log counter_state_default "[]" "[7]"
      AK_DepositsPaused 9] empty_log_represents [of "\<lambda>_. []" "\<lambda>_. []"]
  by (simp add: counter_state_default_def)

end
