(* ===== verification/Admission.thy ===== *)
theory Admission
  imports Storage_Keys "HOL-Library.Multiset"
begin

text \<open>
  Deposit admission quotas (\<open>bridge-canister/src/storage/admission.rs\<close>): a fixed window counts the
  admissions globally and per caller, and a funding reservation keeps one ledger pull per caller,
  sixteen in all, in flight.  A function on \<open>&mut admission\<close> returns the updated control; a caller
  that gets an error drops it.  Dividing by a window of zero seconds traps, which is the result
  None; the other functions cannot trap.
\<close>

section \<open>Definitions\<close>

record DepositCallerQuota =
  dcq_caller :: bytes
  dcq_count :: u16

record DepositFundingReservation =
  dfr_deposit_id :: bytes
  dfr_caller :: bytes
  dfr_mint_amount :: u128
  dfr_quota_window_id :: u64
  dfr_releases_quota_on_failure :: bool

text \<open>The quota fields of the admission control; its signer and nonce fields are used by the
  governance operations only.\<close>

record DepositAdmissionControl =
  dac_window_id :: u64
  dac_global_count :: u16
  dac_caller_counts :: "DepositCallerQuota list"
  dac_funding_reservations :: "DepositFundingReservation list"

record DepositQuotaAdmission =
  dqa_now_ns :: u64
  dqa_window_seconds :: u64
  dqa_global_limit :: u16
  dqa_per_principal_limit :: u16

definition caller_count :: "bytes \<Rightarrow> DepositCallerQuota list \<Rightarrow> u16" where
  "caller_count owner counts =
    (case find (\<lambda>e. dcq_caller e = owner) counts of None \<Rightarrow> 0 | Some e \<Rightarrow> dcq_count e)"

fun bump_caller :: "bytes \<Rightarrow> DepositCallerQuota list \<Rightarrow> DepositCallerQuota list storage_result" where
  "bump_caller owner [] = Inr [\<lparr> dcq_caller = owner, dcq_count = 1 \<rparr>]"
| "bump_caller owner (e # es) =
    (if dcq_caller e = owner
     then try_bind (ok_or CounterOverflow (checked_add (dcq_count e) 1)) (\<lambda>n.
       Inr (e \<lparr> dcq_count := n \<rparr> # es))
     else map_result ((#) e) (bump_caller owner es))"

fun drop_caller :: "bytes \<Rightarrow> DepositCallerQuota list \<Rightarrow> DepositCallerQuota list storage_result" where
  "drop_caller owner [] = Inl DatabaseFailure"
| "drop_caller owner (e # es) =
    (if dcq_caller e = owner
     then try_bind (ok_or DatabaseFailure (checked_sub (dcq_count e) 1)) (\<lambda>n.
       Inr (if n = 0 then es else e \<lparr> dcq_count := n \<rparr> # es))
     else map_result ((#) e) (drop_caller owner es))"

definition quota_window :: "DepositQuotaAdmission \<Rightarrow> u64" where
  "quota_window quota =
    dqa_now_ns quota div saturating_mul (dqa_window_seconds quota) 1000000000"

definition open_quota_window :: "DepositAdmissionControl \<Rightarrow> u64 \<Rightarrow> DepositAdmissionControl" where
  "open_quota_window a window_id =
    (if dac_window_id a \<noteq> window_id
     then a \<lparr> dac_window_id := window_id, dac_global_count := 0, dac_caller_counts := [] \<rparr>
     else a)"

definition retry_after_seconds :: "DepositQuotaAdmission \<Rightarrow> u64" where
  "retry_after_seconds quota =
    (let window_ns = saturating_mul (dqa_window_seconds quota) 1000000000;
         window_id = dqa_now_ns quota div window_ns
     in max (saturating_add
         (saturating_sub (saturating_mul (window_id + 1) window_ns) (dqa_now_ns quota))
         999999999 div 1000000000) 1)"

definition consume_deposit_quota ::
    "DepositAdmissionControl \<Rightarrow> bytes \<Rightarrow> DepositQuotaAdmission
      \<Rightarrow> DepositAdmissionControl storage_result option" where
  "consume_deposit_quota admission owner quota =
    (if saturating_mul (dqa_window_seconds quota) 1000000000 = 0 then None
     else let a = open_quota_window admission (quota_window quota) in
       Some (if dqa_global_limit quota \<le> dac_global_count a
              \<or> dqa_per_principal_limit quota \<le> caller_count owner (dac_caller_counts a)
            then Inl (DepositRateLimited (retry_after_seconds quota))
            else try_bind (ok_or CounterOverflow (checked_add (dac_global_count a) 1)) (\<lambda>global_count.
              try_bind (bump_caller owner (dac_caller_counts a)) (\<lambda>counts.
              Inr (a \<lparr> dac_global_count := global_count, dac_caller_counts := counts \<rparr>)))))"

definition consume_deposit_quota_and_reserve_funding ::
    "DepositAdmissionControl \<Rightarrow> bytes \<Rightarrow> bytes \<Rightarrow> u128 \<Rightarrow> DepositQuotaAdmission
      \<Rightarrow> DepositAdmissionControl storage_result option" where
  "consume_deposit_quota_and_reserve_funding admission owner deposit_id mint_amount quota =
    (let reservations = dac_funding_reservations admission;
         active_global = length reservations;
         active_caller = length (filter (\<lambda>r. dfr_caller r = owner) reservations)
     in if \<exists>r \<in> set reservations. dfr_deposit_id r = deposit_id then Some (Inr admission)
        else if 2 ^ 16 \<le> active_global \<or> 2 ^ 16 \<le> active_caller then Some (Inl CounterOverflow)
        else if 16 \<le> active_global \<or> 1 \<le> active_caller then Some (Inl (DepositRateLimited 1))
        else map_option (\<lambda>r. try_bind r (\<lambda>a.
          Inr (a \<lparr> dac_funding_reservations := dac_funding_reservations a @
            [\<lparr> dfr_deposit_id = deposit_id, dfr_caller = owner, dfr_mint_amount = mint_amount,
               dfr_quota_window_id = dac_window_id a,
               dfr_releases_quota_on_failure = True \<rparr>] \<rparr>)))
          (consume_deposit_quota admission owner quota))"

fun take_reservation ::
    "bytes \<Rightarrow> bytes \<Rightarrow> DepositFundingReservation list
      \<Rightarrow> (DepositFundingReservation \<times> DepositFundingReservation list) option" where
  "take_reservation owner deposit_id [] = None"
| "take_reservation owner deposit_id (r # rs) =
    (if dfr_deposit_id r = deposit_id \<and> dfr_caller r = owner then Some (r, rs)
     else map_option (\<lambda>(x, xs). (x, r # xs)) (take_reservation owner deposit_id rs))"

definition release_deposit_funding_reservation ::
    "DepositAdmissionControl \<Rightarrow> bytes \<Rightarrow> bytes \<Rightarrow> DepositAdmissionControl storage_result" where
  "release_deposit_funding_reservation admission owner deposit_id =
    (case take_reservation owner deposit_id (dac_funding_reservations admission) of
      None \<Rightarrow> Inl RecordNotFound
    | Some (_, rest) \<Rightarrow> Inr (admission \<lparr> dac_funding_reservations := rest \<rparr>))"

definition rollback_failed_deposit_admission ::
    "DepositAdmissionControl \<Rightarrow> bytes \<Rightarrow> bytes \<Rightarrow> DepositAdmissionControl storage_result" where
  "rollback_failed_deposit_admission admission owner deposit_id =
    (case take_reservation owner deposit_id (dac_funding_reservations admission) of
      None \<Rightarrow> Inl RecordNotFound
    | Some (reservation, rest) \<Rightarrow>
        let a = admission \<lparr> dac_funding_reservations := rest \<rparr> in
          if \<not> dfr_releases_quota_on_failure reservation
              \<or> dfr_quota_window_id reservation \<noteq> dac_window_id a
          then Inr a
          else try_bind (ok_or DatabaseFailure (checked_sub (dac_global_count a) 1)) (\<lambda>global_count.
            try_bind (drop_caller owner (dac_caller_counts a)) (\<lambda>counts.
            Inr (a \<lparr> dac_global_count := global_count, dac_caller_counts := counts \<rparr>))))"

section \<open>Invariant\<close>

definition counts_total :: "DepositCallerQuota list \<Rightarrow> nat" where
  "counts_total counts = sum_list (map (\<lambda>e. unat (dcq_count e)) counts)"

definition counts_wf :: "DepositCallerQuota list \<Rightarrow> bool" where
  "counts_wf counts = (distinct (map dcq_caller counts) \<and> (\<forall>e \<in> set counts. dcq_count e \<noteq> 0))"

definition admission_wf :: "DepositAdmissionControl \<Rightarrow> bool" where
  "admission_wf a =
    (counts_wf (dac_caller_counts a)
     \<and> unat (dac_global_count a) = counts_total (dac_caller_counts a)
     \<and> length (dac_funding_reservations a) \<le> 16
     \<and> distinct (map dfr_caller (dac_funding_reservations a))
     \<and> distinct (map dfr_deposit_id (dac_funding_reservations a))
     \<and> (\<forall>r \<in> set (dac_funding_reservations a). dfr_quota_window_id r \<le> dac_window_id a
         \<and> (dfr_quota_window_id r = dac_window_id a \<and> dfr_releases_quota_on_failure r \<longrightarrow>
             dfr_caller r \<in> set (map dcq_caller (dac_caller_counts a)))))"

section \<open>Lemmas on counts\<close>

lemma counts_simps [simp]:
  "counts_total [] = 0" "counts_total (e # es) = unat (dcq_count e) + counts_total es"
  "counts_wf []"
  "counts_wf (e # es) \<longleftrightarrow>
    dcq_caller e \<notin> set (map dcq_caller es) \<and> dcq_count e \<noteq> 0 \<and> counts_wf es"
  by (auto simp: counts_total_def counts_wf_def)

lemma caller_count_simps [simp]:
  "caller_count owner [] = 0"
  "caller_count owner (e # es) = (if dcq_caller e = owner then dcq_count e else caller_count owner es)"
  by (simp_all add: caller_count_def)

lemma caller_count_absent:
  "owner \<notin> set (map dcq_caller es) \<Longrightarrow> caller_count owner es = 0"
  by (induction es) auto

lemma bump_caller_exact:
  assumes "counts_wf es" and "bump_caller owner es = Inr es'"
  shows "counts_wf es' \<and> counts_total es' = Suc (counts_total es)
    \<and> set (map dcq_caller es') = insert owner (set (map dcq_caller es))
    \<and> unat (caller_count owner es') = Suc (unat (caller_count owner es))
    \<and> (\<forall>other. other \<noteq> owner \<longrightarrow> caller_count other es' = caller_count other es)"
  using assms
proof (induction es arbitrary: es')
  case (Cons e es)
  show ?case
  proof (cases "dcq_caller e = owner")
    case True
    then obtain n where n: "unat (dcq_count e) + 1 = unat n" and es': "es' = e \<lparr> dcq_count := n \<rparr> # es"
      using Cons.prems(2) by (auto simp: result_simps checked_add_eq_Some)
    then have "n \<noteq> 0"
      by auto
    then show ?thesis
      using True Cons.prems(1) es' n by auto
  next
    case False
    then obtain fs where fs: "bump_caller owner es = Inr fs" "es' = e # fs"
      using Cons.prems(2) by (auto simp: result_simps)
    show ?thesis
      using Cons.IH [OF _ fs(1)] Cons.prems(1) False fs(2) by auto
  qed
qed auto

lemma bump_caller_total:
  "(\<forall>e \<in> set es. dcq_caller e = owner \<longrightarrow> Suc (unat (dcq_count e)) < 2 ^ 16) \<Longrightarrow>
    \<exists>es'. bump_caller owner es = Inr es'"
  by (induction es) (auto simp: checked_add_def ok_or_def try_bind_def map_result_def split: sum.splits)

lemma drop_caller_exact:
  assumes "counts_wf es" and "owner \<in> set (map dcq_caller es)"
  obtains es' where "drop_caller owner es = Inr es'" "counts_wf es'"
    "counts_total es = Suc (counts_total es')"
    "set (map dcq_caller es) = insert owner (set (map dcq_caller es'))"
    "unat (caller_count owner es) = Suc (unat (caller_count owner es'))"
proof -
  have "\<exists>es'. drop_caller owner es = Inr es' \<and> counts_wf es'
      \<and> counts_total es = Suc (counts_total es')
      \<and> set (map dcq_caller es) = insert owner (set (map dcq_caller es'))
      \<and> unat (caller_count owner es) = Suc (unat (caller_count owner es'))"
    using assms
  proof (induction es)
    case (Cons e es)
    show ?case
    proof (cases "dcq_caller e = owner")
      case True
      have "0 < unat (dcq_count e)"
        using Cons.prems(1) by (simp add: unat_gt_0)
      then have n: "unat (dcq_count e) = Suc (unat (dcq_count e - 1))" and sub: "checked_sub (dcq_count e) 1 = Some (dcq_count e - 1)"
        by (simp_all add: checked_sub_def unat_sub word_le_nat_alt)
      have absent: "owner \<notin> set (map dcq_caller es)"
        using Cons.prems(1) True by simp
      show ?thesis
        using True Cons.prems(1) n sub caller_count_absent [OF absent]
        by (cases "dcq_count e = 1") (auto simp: ok_or_def try_bind_def)
    next
      case False
      then obtain fs where "drop_caller owner es = Inr fs" "counts_wf fs"
        "counts_total es = Suc (counts_total fs)"
        "set (map dcq_caller es) = insert owner (set (map dcq_caller fs))"
        "unat (caller_count owner es) = Suc (unat (caller_count owner fs))"
        using Cons.IH Cons.prems by auto
      then show ?thesis
        using False Cons.prems(1) by (auto simp: map_result_def)
    qed
  qed simp
  then show thesis
    using that by blast
qed

section \<open>Every operation keeps the invariant\<close>

lemma take_reservation_Some:
  "take_reservation owner i rs = Some (r, rest) \<Longrightarrow>
    r \<in> set rs \<and> dfr_caller r = owner \<and> dfr_deposit_id r = i \<and> length rs = Suc (length rest)
    \<and> set rs = insert r (set rest) \<and> mset rs = add_mset r (mset rest)"
proof (induction rs arbitrary: rest)
  case (Cons q rs)
  show ?case
  proof (cases "dfr_deposit_id q = i \<and> dfr_caller q = owner")
    case False
    then obtain rest' where "take_reservation owner i rs = Some (r, rest')" "rest = q # rest'"
      using Cons.prems by auto
    then show ?thesis
      using Cons.IH by auto
  qed (use Cons.prems in auto)
qed simp

lemma take_reservation_None:
  "take_reservation owner i rs = None \<longleftrightarrow>
    (\<forall>r \<in> set rs. \<not> (dfr_deposit_id r = i \<and> dfr_caller r = owner))"
  by (induction rs) auto

lemma take_reservation_snoc:
  "\<forall>r \<in> set rs. dfr_deposit_id r \<noteq> i \<Longrightarrow> dfr_deposit_id q = i \<Longrightarrow> dfr_caller q = owner \<Longrightarrow>
    take_reservation owner i (rs @ [q]) = Some (q, rs)"
  by (induction rs) auto

lemma distinct_map_mset:
  assumes "distinct (map f xs)" and "mset xs = add_mset x (mset ys)"
  shows "distinct (map f ys)" and "f x \<notin> set (map f ys)"
proof -
  have "mset (map f xs) = mset (map f (x # ys))"
    using assms(2) by simp
  then have "distinct (map f (x # ys))"
    using assms(1) mset_eq_imp_distinct_iff by blast
  then show "distinct (map f ys)" "f x \<notin> set (map f ys)"
    by simp_all
qed

lemma open_quota_window_wf:
  assumes "admission_wf a" and "dac_window_id a \<le> w"
  shows "admission_wf (open_quota_window a w)"
  using assms by (auto simp: admission_wf_def open_quota_window_def)

lemma open_quota_window_fields [simp]:
  "dac_window_id (open_quota_window a w) = w"
  "dac_funding_reservations (open_quota_window a w) = dac_funding_reservations a"
  by (simp_all add: open_quota_window_def)

lemma consume_quota_cases:
  assumes "consume_deposit_quota a owner quota = Some (Inr a')"
  obtains n counts where
    "\<not> dqa_global_limit quota \<le> dac_global_count (open_quota_window a (quota_window quota))"
    "\<not> dqa_per_principal_limit quota
        \<le> caller_count owner (dac_caller_counts (open_quota_window a (quota_window quota)))"
    "unat n = Suc (unat (dac_global_count (open_quota_window a (quota_window quota))))"
    "bump_caller owner (dac_caller_counts (open_quota_window a (quota_window quota))) = Inr counts"
    "a' = (open_quota_window a (quota_window quota))
        \<lparr> dac_global_count := n, dac_caller_counts := counts \<rparr>"
proof -
  let ?o = "open_quota_window a (quota_window quota)"
  obtain n counts where "checked_add (dac_global_count ?o) 1 = Some n"
    "bump_caller owner (dac_caller_counts ?o) = Inr counts"
    "a' = ?o \<lparr> dac_global_count := n, dac_caller_counts := counts \<rparr>"
    "\<not> dqa_global_limit quota \<le> dac_global_count ?o"
    "\<not> dqa_per_principal_limit quota \<le> caller_count owner (dac_caller_counts ?o)"
    using assms by (auto simp: consume_deposit_quota_def Let_def result_simps split: if_splits)
  then show thesis
    using that by (simp add: checked_add_eq_Some)
qed

lemma consume_quota_wf:
  assumes wf: "admission_wf a" and mono: "dac_window_id a \<le> quota_window quota"
    and ok: "consume_deposit_quota a owner quota = Some (Inr a')"
  shows "admission_wf a'" and "dac_global_count a' \<le> dqa_global_limit quota"
    and "caller_count owner (dac_caller_counts a') \<le> dqa_per_principal_limit quota"
    and "owner \<in> set (map dcq_caller (dac_caller_counts a'))"
    and "dac_window_id a' = quota_window quota"
    and "dac_funding_reservations a' = dac_funding_reservations a"
proof -
  let ?o = "open_quota_window a (quota_window quota)"
  from ok obtain n counts where g: "\<not> dqa_global_limit quota \<le> dac_global_count ?o"
    and p: "\<not> dqa_per_principal_limit quota \<le> caller_count owner (dac_caller_counts ?o)"
    and n: "unat n = Suc (unat (dac_global_count ?o))"
    and counts: "bump_caller owner (dac_caller_counts ?o) = Inr counts"
    and a': "a' = ?o \<lparr> dac_global_count := n, dac_caller_counts := counts \<rparr>"
    by (rule consume_quota_cases)
  have o: "admission_wf ?o"
    using wf mono by (rule open_quota_window_wf)
  note bump = bump_caller_exact [OF _ counts]
  have cw: "counts_wf (dac_caller_counts ?o)"
    using o by (simp add: admission_wf_def)
  show "admission_wf a'"
    using o bump [OF cw] n by (auto simp: a' admission_wf_def)
  show "dac_global_count a' \<le> dqa_global_limit quota"
    using g n by (simp add: a' word_le_nat_alt)
  show "caller_count owner (dac_caller_counts a') \<le> dqa_per_principal_limit quota"
    using p bump [OF cw] by (simp add: a' word_le_nat_alt)
  show "owner \<in> set (map dcq_caller (dac_caller_counts a'))"
    using bump [OF cw] by (simp add: a')
  show "dac_window_id a' = quota_window quota"
    "dac_funding_reservations a' = dac_funding_reservations a"
    by (simp_all add: a')
qed

lemma reserve_cases:
  assumes "consume_deposit_quota_and_reserve_funding a owner i amount quota = Some (Inr a')"
  obtains "a' = a" "\<exists>r \<in> set (dac_funding_reservations a). dfr_deposit_id r = i"
  | b where "consume_deposit_quota a owner quota = Some (Inr b)"
    "\<forall>r \<in> set (dac_funding_reservations a). dfr_deposit_id r \<noteq> i"
    "\<forall>r \<in> set (dac_funding_reservations a). dfr_caller r \<noteq> owner"
    "length (dac_funding_reservations a) < 16"
    "a' = b \<lparr> dac_funding_reservations := dac_funding_reservations b @
      [\<lparr> dfr_deposit_id = i, dfr_caller = owner, dfr_mint_amount = amount,
         dfr_quota_window_id = dac_window_id b, dfr_releases_quota_on_failure = True \<rparr>] \<rparr>"
proof (cases "\<exists>r \<in> set (dac_funding_reservations a). dfr_deposit_id r = i")
  case True
  then show thesis
    using that(1) assms by (simp add: consume_deposit_quota_and_reserve_funding_def Let_def)
next
  case False
  then have none: "length (filter (\<lambda>r. dfr_caller r = owner) (dac_funding_reservations a)) < 1"
    and "length (dac_funding_reservations a) < 16"
    and "\<exists>b. consume_deposit_quota a owner quota = Some (Inr b)
      \<and> a' = b \<lparr> dac_funding_reservations := dac_funding_reservations b @
      [\<lparr> dfr_deposit_id = i, dfr_caller = owner, dfr_mint_amount = amount,
         dfr_quota_window_id = dac_window_id b, dfr_releases_quota_on_failure = True \<rparr>] \<rparr>"
    using assms
    by (auto simp: consume_deposit_quota_and_reserve_funding_def Let_def try_bind_eq_Inr
        Suc_le_eq split: if_splits)
  then show thesis
    using that(2) False none by (auto simp: filter_empty_conv)
qed

lemma reserve_wf:
  assumes wf: "admission_wf a" and mono: "dac_window_id a \<le> quota_window quota"
    and ok: "consume_deposit_quota_and_reserve_funding a owner i amount quota = Some (Inr a')"
  shows "admission_wf a'"
  using ok
proof (cases rule: reserve_cases)
  case (2 b)
  note b = consume_quota_wf [OF wf mono 2(1)]
  show ?thesis
    using b(1,4) 2(2-4) b(6) by (auto simp: 2(5) admission_wf_def)
qed (use wf in simp)

lemma release_wf:
  assumes "admission_wf a" and "release_deposit_funding_reservation a owner i = Inr a'"
  shows "admission_wf a'"
proof -
  obtain r rest where t: "take_reservation owner i (dac_funding_reservations a) = Some (r, rest)"
    and a': "a' = a \<lparr> dac_funding_reservations := rest \<rparr>"
    using assms(2) by (auto simp: release_deposit_funding_reservation_def split: option.splits)
  note ms = take_reservation_Some [OF t]
  show ?thesis
    using assms(1) ms distinct_map_mset(1) [of dfr_caller _ r rest]
      distinct_map_mset(1) [of dfr_deposit_id _ r rest]
    by (auto simp: a' admission_wf_def)
qed

lemma rollback_wf:
  assumes wf: "admission_wf a" and r: "r \<in> set (dac_funding_reservations a)"
    "dfr_caller r = owner" "dfr_deposit_id r = i"
  obtains a' where "rollback_failed_deposit_admission a owner i = Inr a'" "admission_wf a'"
proof -
  have "take_reservation owner i (dac_funding_reservations a) \<noteq> None"
    using r unfolding take_reservation_None by blast
  then obtain p where p: "take_reservation owner i (dac_funding_reservations a) = Some p"
    unfolding not_None_eq by (rule exE)
  obtain q rest where "p = (q, rest)"
    by (rule prod.exhaust)
  with p have t: "take_reservation owner i (dac_funding_reservations a) = Some (q, rest)"
    by simp
  note ms = take_reservation_Some [OF t]
  have rel: "admission_wf (a \<lparr> dac_funding_reservations := rest \<rparr>)"
    by (rule release_wf [OF wf, of owner i]) (simp add: release_deposit_funding_reservation_def t)
  show thesis
  proof (cases "dfr_releases_quota_on_failure q \<and> dfr_quota_window_id q = dac_window_id a")
    case False
    then show thesis
      using that rel t by (auto simp: rollback_failed_deposit_admission_def Let_def)
  next
    case True
    have cw: "counts_wf (dac_caller_counts a)"
      and global: "unat (dac_global_count a) = counts_total (dac_caller_counts a)"
      and owner: "owner \<in> set (map dcq_caller (dac_caller_counts a))"
      using wf True ms by (auto simp: admission_wf_def)
    obtain es' where es': "drop_caller owner (dac_caller_counts a) = Inr es'" "counts_wf es'"
      "counts_total (dac_caller_counts a) = Suc (counts_total es')"
      "set (map dcq_caller (dac_caller_counts a)) = insert owner (set (map dcq_caller es'))"
      "unat (caller_count owner (dac_caller_counts a)) = Suc (unat (caller_count owner es'))"
      by (rule drop_caller_exact [OF cw owner])
    have "1 \<le> dac_global_count a"
      using global es'(3) by (simp add: word_le_nat_alt)
    then have sub: "checked_sub (dac_global_count a) 1 = Some (dac_global_count a - 1)"
      "unat (dac_global_count a - 1) = counts_total es'"
      using global es'(3) by (simp_all add: checked_sub_def unat_sub_exact)
    let ?a = "a \<lparr> dac_funding_reservations := rest, dac_global_count := dac_global_count a - 1,
      dac_caller_counts := es' \<rparr>"
    have "owner \<notin> set (map dfr_caller rest)"
      using wf ms distinct_map_mset(2) [of dfr_caller _ q rest] by (auto simp: admission_wf_def)
    then have live: "dfr_caller x \<in> set (map dcq_caller es')"
      if x: "x \<in> set rest" "dfr_quota_window_id x = dac_window_id a"
        "dfr_releases_quota_on_failure x" for x
    proof -
      have "x \<in> set (dac_funding_reservations a)"
        using x(1) ms by simp
      then have "dfr_caller x \<in> insert owner (set (map dcq_caller es'))"
        using wf x(2,3) es'(4) unfolding admission_wf_def by blast
      moreover have "dfr_caller x \<noteq> owner"
        using x(1) \<open>owner \<notin> set (map dfr_caller rest)\<close> by auto
      ultimately show ?thesis
        by blast
    qed
    have "admission_wf ?a"
      using rel es'(2) sub(2) live unfolding admission_wf_def by simp
    moreover have "rollback_failed_deposit_admission a owner i = Inr ?a"
      using True t es'(1) sub(1)
      by (simp add: rollback_failed_deposit_admission_def ok_or_def try_bind_def)
    ultimately show thesis
      using that by blast
  qed
qed

lemma drop_bump_caller:
  "bump_caller owner es = Inr es' \<Longrightarrow> counts_wf es \<Longrightarrow> drop_caller owner es' = Inr es"
proof (induction es arbitrary: es')
  case (Cons e es)
  show ?case
  proof (cases "dcq_caller e = owner")
    case True
    then obtain n where n: "unat (dcq_count e) + 1 = unat n" and es': "es' = e \<lparr> dcq_count := n \<rparr> # es"
      using Cons.prems(1) by (auto simp: result_simps checked_add_eq_Some)
    have "checked_sub n 1 = Some (dcq_count e)"
      using n by (simp add: checked_sub_eq_Some)
    then show ?thesis
      using True es' Cons.prems(2) by (auto simp: ok_or_def try_bind_def)
  next
    case False
    then obtain fs where fs: "bump_caller owner es = Inr fs" "es' = e # fs"
      using Cons.prems(1) by (auto simp: result_simps)
    then show ?thesis
      using Cons.IH [OF fs(1)] Cons.prems(2) False by (simp add: map_result_def)
  qed
qed (auto simp: ok_or_def try_bind_def checked_sub_def)

section \<open>Sequences of admissions\<close>

datatype admission_action =
    ReserveFunding bytes bytes u128 DepositQuotaAdmission
  | ReleaseReservation bytes bytes
  | RollbackAdmission bytes bytes

definition admission_act ::
    "DepositAdmissionControl \<Rightarrow> admission_action \<Rightarrow> DepositAdmissionControl" where
  "admission_act a action = (case action of
      ReserveFunding owner i amount quota \<Rightarrow>
        (case consume_deposit_quota_and_reserve_funding a owner i amount quota of
          Some (Inr a') \<Rightarrow> a' | _ \<Rightarrow> a)
    | ReleaseReservation owner i \<Rightarrow>
        (case release_deposit_funding_reservation a owner i of Inr a' \<Rightarrow> a' | Inl _ \<Rightarrow> a)
    | RollbackAdmission owner i \<Rightarrow>
        (case rollback_failed_deposit_admission a owner i of Inr a' \<Rightarrow> a' | Inl _ \<Rightarrow> a))"

text \<open>The clock does not go back: every admission happens in the current window or a later one.\<close>

fun windows_advance :: "u64 \<Rightarrow> admission_action list \<Rightarrow> bool" where
  "windows_advance w [] = True"
| "windows_advance w (ReserveFunding owner i amount quota # as) =
    (w \<le> quota_window quota \<and> windows_advance (quota_window quota) as)"
| "windows_advance w (_ # as) = windows_advance w as"

lemma windows_advance_mono: "windows_advance w as \<Longrightarrow> w' \<le> w \<Longrightarrow> windows_advance w' as"
  by (induction w as arbitrary: w' rule: windows_advance.induct) auto

lemma rollback_error_only_missing:
  assumes "admission_wf a" and "rollback_failed_deposit_admission a owner i = Inl err"
  shows "err = RecordNotFound"
proof (cases "\<exists>r \<in> set (dac_funding_reservations a). dfr_deposit_id r = i \<and> dfr_caller r = owner")
  case True
  then obtain r where "r \<in> set (dac_funding_reservations a)" "dfr_caller r = owner" "dfr_deposit_id r = i"
    by blast
  then obtain a' where "rollback_failed_deposit_admission a owner i = Inr a'"
    using rollback_wf [OF assms(1)] by blast
  then show ?thesis
    using assms(2) by simp
next
  case False
  then have "take_reservation owner i (dac_funding_reservations a) = None"
    by (simp add: take_reservation_None)
  then show ?thesis
    using assms(2) by (simp add: rollback_failed_deposit_admission_def)
qed

lemma rollback_keeps_wf:
  assumes "admission_wf a" and "rollback_failed_deposit_admission a owner i = Inr a'"
  shows "admission_wf a'" and "dac_window_id a' = dac_window_id a"
proof -
  obtain r rest where t: "take_reservation owner i (dac_funding_reservations a) = Some (r, rest)"
    using assms(2) by (auto simp: rollback_failed_deposit_admission_def split: option.splits)
  obtain b where "rollback_failed_deposit_admission a owner i = Inr b" "admission_wf b"
    using rollback_wf [OF assms(1)] take_reservation_Some [OF t] by blast
  then show "admission_wf a'"
    using assms(2) by simp
  show "dac_window_id a' = dac_window_id a"
    using assms(2) t
    by (auto simp: rollback_failed_deposit_admission_def Let_def result_simps split: if_splits)
qed

lemma admission_act_wf:
  assumes "admission_wf a" and "windows_advance (dac_window_id a) (act # as)"
  shows "admission_wf (admission_act a act)"
    and "windows_advance (dac_window_id (admission_act a act)) as"
proof -
  show "admission_wf (admission_act a act)"
    using assms
    by (cases act) (auto simp: admission_act_def intro: reserve_wf release_wf rollback_keeps_wf
        split: option.splits sum.splits)
  show "windows_advance (dac_window_id (admission_act a act)) as"
  proof (cases act)
    case (ReserveFunding owner i amount quota)
    then have w: "dac_window_id a \<le> quota_window quota" "windows_advance (quota_window quota) as"
      using assms(2) by simp_all
    have "dac_window_id (admission_act a act) \<le> quota_window quota"
    proof (cases "\<exists>a'. consume_deposit_quota_and_reserve_funding a owner i amount quota = Some (Inr a')")
      case True
      then obtain a' where a': "consume_deposit_quota_and_reserve_funding a owner i amount quota
          = Some (Inr a')"
        by blast
      then have "dac_window_id a' \<le> quota_window quota"
        using w(1) consume_quota_wf(5) [OF assms(1) w(1)] by (cases rule: reserve_cases) auto
      then show ?thesis
        using a' ReserveFunding by (simp add: admission_act_def)
    next
      case False
      then show ?thesis
        using w(1) ReserveFunding
        by (auto simp: admission_act_def split: option.splits sum.splits)
    qed
    then show ?thesis
      using w(2) windows_advance_mono by blast
  next
    case (ReleaseReservation owner i)
    then show ?thesis
      using assms(2)
      by (auto simp: admission_act_def release_deposit_funding_reservation_def
          split: option.splits sum.splits)
  next
    case (RollbackAdmission owner i)
    then show ?thesis
      using assms rollback_keeps_wf(2) by (auto simp: admission_act_def split: sum.splits)
  qed
qed

lemma admission_run_wf:
  "admission_wf a \<Longrightarrow> windows_advance (dac_window_id a) as \<Longrightarrow>
    admission_wf (foldl admission_act a as)"
  by (induction as arbitrary: a) (simp_all add: admission_act_wf)

definition fresh_admission :: DepositAdmissionControl where
  "fresh_admission = \<lparr> dac_window_id = 0, dac_global_count = 0, dac_caller_counts = [],
    dac_funding_reservations = [] \<rparr>"

lemma fresh_admission_wf: "admission_wf fresh_admission"
  by (simp add: admission_wf_def fresh_admission_def)

section \<open>Properties\<close>

text \<open>
  C17.  Over any sequence of reservations, releases and rollbacks that starts from an empty control and
  whose clock does not go back: the global count is the sum of the counts per caller, no caller has
  two entries, at most sixteen ledger pulls are in flight and at most one per caller and per
  deposit, and rolling an admission back never fails for a reservation that exists.
\<close>

theorem admission_quota_exact:
  assumes "windows_advance 0 as"
  shows "let a = foldl admission_act fresh_admission as in
    unat (dac_global_count a) = sum_list (map (\<lambda>e. unat (dcq_count e)) (dac_caller_counts a))
    \<and> distinct (map dcq_caller (dac_caller_counts a))
    \<and> length (dac_funding_reservations a) \<le> 16
    \<and> distinct (map dfr_caller (dac_funding_reservations a))
    \<and> distinct (map dfr_deposit_id (dac_funding_reservations a))
    \<and> (\<forall>owner i err. rollback_failed_deposit_admission a owner i = Inl err \<longrightarrow> err = RecordNotFound)"
proof -
  have "admission_wf (foldl admission_act fresh_admission as)"
    using fresh_admission_wf assms by (intro admission_run_wf) (simp_all add: fresh_admission_def)
  then show ?thesis
    using rollback_error_only_missing
    by (simp add: Let_def admission_wf_def counts_wf_def counts_total_def)
qed

theorem admission_quota_exact_witness:
  "let quota = \<lparr> dqa_now_ns = 61000000000, dqa_window_seconds = 60, dqa_global_limit = 2,
      dqa_per_principal_limit = 1 \<rparr>;
    as = [ReserveFunding [7] [1] 5 quota, ReserveFunding [7] [2] 5 quota, RollbackAdmission [7] [1]] in
    windows_advance 0 as
    \<and> length (dac_funding_reservations (foldl admission_act fresh_admission as)) \<le> 16"
  using admission_quota_exact [of "[ReserveFunding [7] [1] 5
      \<lparr> dqa_now_ns = 61000000000, dqa_window_seconds = 60, dqa_global_limit = 2,
        dqa_per_principal_limit = 1 \<rparr>,
      ReserveFunding [7] [2] 5
      \<lparr> dqa_now_ns = 61000000000, dqa_window_seconds = 60, dqa_global_limit = 2,
        dqa_per_principal_limit = 1 \<rparr>, RollbackAdmission [7] [1]]"]
  unfolding Let_def by simp

text \<open>
  An admission that is rolled back leaves no trace: reserving in the current window and rolling the
  reservation back gives the control from before, counts, order of the entries and reservations
  included, whatever the limits were.
\<close>

lemma rollback_undoes_reservation:
  assumes "admission_wf a" and "quota_window quota = dac_window_id a"
    and "\<forall>r \<in> set (dac_funding_reservations a). dfr_deposit_id r \<noteq> i"
    and "consume_deposit_quota_and_reserve_funding a owner i amount quota = Some (Inr a')"
  shows "rollback_failed_deposit_admission a' owner i = Inr a"
  using assms(4)
proof (cases rule: reserve_cases)
  case (2 b)
  have open_id: "open_quota_window a (quota_window quota) = a"
    using assms(2) by (simp add: open_quota_window_def)
  obtain n counts where n: "unat n = Suc (unat (dac_global_count a))"
    and counts: "bump_caller owner (dac_caller_counts a) = Inr counts"
    and b: "b = a \<lparr> dac_global_count := n, dac_caller_counts := counts \<rparr>"
    using consume_quota_cases [OF 2(1)] open_id by metis
  have drop: "drop_caller owner counts = Inr (dac_caller_counts a)"
    using counts assms(1) by (intro drop_bump_caller) (simp_all add: admission_wf_def)
  have sub: "checked_sub n 1 = Some (dac_global_count a)"
    using n by (simp add: checked_sub_eq_Some)
  have tk: "take_reservation owner i (dac_funding_reservations a @
      [\<lparr> dfr_deposit_id = i, dfr_caller = owner, dfr_mint_amount = amount,
         dfr_quota_window_id = dac_window_id a, dfr_releases_quota_on_failure = True \<rparr>])
    = Some (\<lparr> dfr_deposit_id = i, dfr_caller = owner, dfr_mint_amount = amount,
         dfr_quota_window_id = dac_window_id a, dfr_releases_quota_on_failure = True \<rparr>,
        dac_funding_reservations a)"
    using assms(3) by (intro take_reservation_snoc) simp_all
  show ?thesis
    using tk sub drop
    by (simp add: 2(5) b rollback_failed_deposit_admission_def ok_or_def try_bind_def)
qed (use assms(3) in blast)

lemma rollback_undoes_reservation_witness:
  "let quota = \<lparr> dqa_now_ns = 5, dqa_window_seconds = 60, dqa_global_limit = 2,
      dqa_per_principal_limit = 1 \<rparr> in
    \<exists>a'. consume_deposit_quota_and_reserve_funding fresh_admission [7] [1] 5 quota = Some (Inr a')
      \<and> a' \<noteq> fresh_admission \<and> rollback_failed_deposit_admission a' [7] [1] = Inr fresh_admission"
proof -
  let ?quota = "\<lparr> dqa_now_ns = 5, dqa_window_seconds = 60, dqa_global_limit = 2,
      dqa_per_principal_limit = 1 \<rparr>"
  let ?a = "fresh_admission \<lparr> dac_global_count := 1,
    dac_caller_counts := [\<lparr> dcq_caller = [7], dcq_count = 1 \<rparr>],
    dac_funding_reservations := [\<lparr> dfr_deposit_id = [1], dfr_caller = [7], dfr_mint_amount = 5,
      dfr_quota_window_id = 0, dfr_releases_quota_on_failure = True \<rparr>] \<rparr>"
  have w: "quota_window ?quota = dac_window_id fresh_admission"
    by (simp add: quota_window_def saturating_mul_def fresh_admission_def)
  have r: "consume_deposit_quota_and_reserve_funding fresh_admission [7] [1] 5 ?quota = Some (Inr ?a)"
    by (simp add: consume_deposit_quota_and_reserve_funding_def consume_deposit_quota_def
        fresh_admission_def open_quota_window_def quota_window_def saturating_mul_def checked_add_def
        ok_or_def try_bind_def)
  have "rollback_failed_deposit_admission ?a [7] [1] = Inr fresh_admission"
    using rollback_undoes_reservation [OF fresh_admission_wf w _ r]
    by (simp add: fresh_admission_def)
  moreover have "?a \<noteq> fresh_admission"
    by (simp add: fresh_admission_def)
  ultimately show ?thesis
    using r unfolding Let_def by blast
qed

text \<open>
  An admission that was accepted respected both limits: afterwards the global count and the
  caller's count are within them, in a window that the clock has reached.
\<close>

lemma admission_within_limits:
  assumes "admission_wf a" and "dac_window_id a \<le> quota_window quota"
    and "consume_deposit_quota a owner quota = Some (Inr a')"
  shows "dac_global_count a' \<le> dqa_global_limit quota
    \<and> caller_count owner (dac_caller_counts a') \<le> dqa_per_principal_limit quota
    \<and> dac_window_id a' = quota_window quota"
  using consume_quota_wf [OF assms] by simp

lemma admission_within_limits_witness:
  "\<exists>a'. consume_deposit_quota fresh_admission [7] \<lparr> dqa_now_ns = 5, dqa_window_seconds = 60,
      dqa_global_limit = 2, dqa_per_principal_limit = 1 \<rparr> = Some (Inr a')
    \<and> dac_global_count a' \<le> 2 \<and> caller_count [7] (dac_caller_counts a') \<le> 1"
proof -
  let ?quota = "\<lparr> dqa_now_ns = 5, dqa_window_seconds = 60, dqa_global_limit = 2,
      dqa_per_principal_limit = 1 \<rparr>"
  have "consume_deposit_quota fresh_admission [7] ?quota = Some (Inr (fresh_admission
      \<lparr> dac_global_count := 1, dac_caller_counts := [\<lparr> dcq_caller = [7], dcq_count = 1 \<rparr>] \<rparr>))"
    by (simp add: consume_deposit_quota_def fresh_admission_def open_quota_window_def
        quota_window_def saturating_mul_def checked_add_def ok_or_def try_bind_def)
  moreover have "dac_window_id fresh_admission \<le> quota_window ?quota"
    by (simp add: fresh_admission_def)
  ultimately show ?thesis
    using admission_within_limits [OF fresh_admission_wf, of ?quota "[7]"] by fastforce
qed

end
