(* ===== verification/Notifications.thy ===== *)
theory Notifications
  imports Admission
begin

text \<open>
  Admission of withdrawal notifications and consent messages
  (\<open>bridge-canister/src/storage/mod.rs\<close>, \<open>consume_notification_verification_quota\<close> to
  \<open>record_notification_failure_cooldown\<close>).  One window counts verifications in a public and a
  protected lane, ingested notifications and consent messages; a second record counts the consent
  messages per caller; failed transactions are not verified again before a cooldown ends.

  The wire encoding of the two records is library code, a parameter \<open>enc\<close> here; a record whose
  encoding is over the blob limit is refused.  A quota that is used up is the answer False with
  nothing stored.
\<close>

section \<open>Definitions\<close>

record NotificationFailureCooldown =
  nfc_transaction_hash :: bytes
  nfc_retry_after_ns :: u64

record NotificationAdmissionControl =
  nac_window_id :: u64
  nac_public_verification_count :: u16
  nac_protected_verification_count :: u16
  nac_ingestion_count :: u16
  nac_consent_count :: u16
  nac_failed_transactions :: "NotificationFailureCooldown list"

text \<open>A caller's count of consent messages has the fields of a deposit caller's count.\<close>

record ConsentAdmissionControl =
  cac_window_id :: u64
  cac_caller_counts :: "DepositCallerQuota list"

definition encode_record :: "('a \<Rightarrow> bytes) \<Rightarrow> 'a \<Rightarrow> 'a storage_result" where
  "encode_record enc a = map_result (\<lambda>_. a) (stable_blob_new (enc a))"

definition window_length_ns :: "u64 \<Rightarrow> u64" where
  "window_length_ns window_seconds = saturating_mul window_seconds 1000000000"

definition open_notification_window ::
    "NotificationAdmissionControl \<Rightarrow> u64 \<Rightarrow> NotificationAdmissionControl" where
  "open_notification_window a window_id =
    (if nac_window_id a \<noteq> window_id
     then \<lparr> nac_window_id = window_id, nac_public_verification_count = 0,
       nac_protected_verification_count = 0, nac_ingestion_count = 0, nac_consent_count = 0,
       nac_failed_transactions = nac_failed_transactions a \<rparr>
     else a)"

definition consume_notification_verification_quota ::
    "(NotificationAdmissionControl \<Rightarrow> bytes) \<Rightarrow> NotificationAdmissionControl \<Rightarrow> u64 \<Rightarrow> u64 \<Rightarrow> u16
      \<Rightarrow> u16 \<Rightarrow> u16 \<Rightarrow> bool \<Rightarrow> (bool \<times> NotificationAdmissionControl) storage_result" where
  "consume_notification_verification_quota enc stored now_ns window_seconds global_limit callers_count
      caller_limit protected_lane =
    (if window_length_ns window_seconds = 0 \<or> global_limit = 0 \<or> caller_limit = 0
     then Inl DecodeFailed
     else
       let a = open_notification_window stored (now_ns div window_length_ns window_seconds);
           protected_limit = min global_limit 6;
           public_limit = saturating_sub global_limit protected_limit;
           lane_count = (if protected_lane then nac_protected_verification_count a
             else nac_public_verification_count a);
           lane_limit = (if protected_lane then protected_limit else public_limit)
       in if \<not> notification_admission_allowed lane_count callers_count lane_limit caller_limit
          then Inr (False, stored)
          else try_bind (if protected_lane
              then map_result (\<lambda>n. a \<lparr> nac_protected_verification_count := n \<rparr>)
                (ok_or CounterOverflow (checked_add (nac_protected_verification_count a) 1))
              else map_result (\<lambda>n. a \<lparr> nac_public_verification_count := n \<rparr>)
                (ok_or CounterOverflow (checked_add (nac_public_verification_count a) 1))) (\<lambda>a'.
            map_result (Pair True) (encode_record enc a')))"

definition prepare_notification_ingestion_quota ::
    "(NotificationAdmissionControl \<Rightarrow> bytes) \<Rightarrow> NotificationAdmissionControl \<Rightarrow> u64 \<Rightarrow> u64 \<Rightarrow> u16
      \<Rightarrow> NotificationAdmissionControl storage_result" where
  "prepare_notification_ingestion_quota enc stored now_ns window_seconds ingestion_limit =
    (if window_length_ns window_seconds = 0 \<or> ingestion_limit = 0 then Inl DecodeFailed
     else
       let a = open_notification_window stored (now_ns div window_length_ns window_seconds) in
       if \<not> notification_ingestion_allowed (nac_ingestion_count a) ingestion_limit
       then Inl NotificationRateLimited
       else try_bind (ok_or CounterOverflow (checked_add (nac_ingestion_count a) 1)) (\<lambda>n.
         encode_record enc (a \<lparr> nac_ingestion_count := n \<rparr>)))"

definition consume_notification_ingestion_quota ::
    "(NotificationAdmissionControl \<Rightarrow> bytes) \<Rightarrow> NotificationAdmissionControl \<Rightarrow> u64 \<Rightarrow> u64 \<Rightarrow> u16
      \<Rightarrow> (bool \<times> NotificationAdmissionControl) storage_result" where
  "consume_notification_ingestion_quota enc stored now_ns window_seconds ingestion_limit =
    (if window_length_ns window_seconds = 0 \<or> ingestion_limit = 0 then Inl DecodeFailed
     else case prepare_notification_ingestion_quota enc stored now_ns window_seconds ingestion_limit of
         Inr a \<Rightarrow> Inr (True, a)
       | Inl err \<Rightarrow> if err = NotificationRateLimited then Inr (False, stored) else Inl err)"

definition consume_consent_quota ::
    "(NotificationAdmissionControl \<Rightarrow> bytes) \<Rightarrow> (ConsentAdmissionControl \<Rightarrow> bytes)
      \<Rightarrow> NotificationAdmissionControl \<Rightarrow> ConsentAdmissionControl \<Rightarrow> bytes \<Rightarrow> u64 \<Rightarrow> u64 \<Rightarrow> u16 \<Rightarrow> u16
      \<Rightarrow> (bool \<times> NotificationAdmissionControl \<times> ConsentAdmissionControl) storage_result" where
  "consume_consent_quota enc encc stored stored_consent caller now_ns window_seconds limit caller_limit =
    (if window_length_ns window_seconds = 0 \<or> limit = 0 \<or> 200 < limit \<or> caller_limit = 0
     then Inl DecodeFailed
     else
       let window_id = now_ns div window_length_ns window_seconds;
           a = open_notification_window stored window_id;
           consent = (if cac_window_id stored_consent \<noteq> window_id
             then \<lparr> cac_window_id = window_id, cac_caller_counts = [] \<rparr> else stored_consent);
           counts = cac_caller_counts consent
       in if \<not> notification_admission_allowed (nac_consent_count a) (caller_count caller counts)
            limit caller_limit
          then Inr (False, stored, stored_consent)
          else try_bind (if \<exists>e \<in> set counts. dcq_caller e = caller then bump_caller caller counts
              else if unat limit \<le> length counts then Inl CounterOverflow
              else Inr (counts @ [\<lparr> dcq_caller = caller, dcq_count = 1 \<rparr>])) (\<lambda>counts'.
            try_bind (ok_or CounterOverflow (checked_add (nac_consent_count a) 1)) (\<lambda>n.
            try_bind (encode_record enc (a \<lparr> nac_consent_count := n \<rparr>)) (\<lambda>a'.
            try_bind (encode_record encc (consent \<lparr> cac_caller_counts := counts' \<rparr>)) (\<lambda>consent'.
            Inr (True, a', consent'))))))"

definition store_cooldown_active :: "NotificationAdmissionControl \<Rightarrow> bytes \<Rightarrow> u64 \<Rightarrow> bool" where
  "store_cooldown_active a transaction_hash now_ns =
    (\<exists>e \<in> set (nac_failed_transactions a). notification_failure_cooldown_active
      (nfc_transaction_hash e = transaction_hash) now_ns (nfc_retry_after_ns e))"

definition MAX_FAILURE_COOLDOWNS :: nat where
  "MAX_FAILURE_COOLDOWNS = 4096"

fun extend_cooldown ::
    "bytes \<Rightarrow> u64 \<Rightarrow> NotificationFailureCooldown list \<Rightarrow> NotificationFailureCooldown list" where
  "extend_cooldown transaction_hash retry_after_ns [] = []"
| "extend_cooldown transaction_hash retry_after_ns (e # es) =
    (if nfc_transaction_hash e = transaction_hash
     then e \<lparr> nfc_retry_after_ns := max (nfc_retry_after_ns e) retry_after_ns \<rparr> # es
     else e # extend_cooldown transaction_hash retry_after_ns es)"

text \<open>The first entry with the least time, and removal by moving the last entry into its place.\<close>

fun oldest_cooldown :: "NotificationFailureCooldown list \<Rightarrow> nat option" where
  "oldest_cooldown [] = None"
| "oldest_cooldown (e # es) = (case oldest_cooldown es of
      None \<Rightarrow> Some 0
    | Some i \<Rightarrow> if nfc_retry_after_ns e \<le> nfc_retry_after_ns (es ! i) then Some 0 else Some (Suc i))"

definition swap_remove :: "'a list \<Rightarrow> nat \<Rightarrow> 'a list" where
  "swap_remove xs i = butlast (xs[i := last xs])"

definition record_notification_failure_cooldown ::
    "(NotificationAdmissionControl \<Rightarrow> bytes) \<Rightarrow> NotificationAdmissionControl \<Rightarrow> bytes \<Rightarrow> u64 \<Rightarrow> u64
      \<Rightarrow> NotificationAdmissionControl storage_result" where
  "record_notification_failure_cooldown enc stored transaction_hash now_ns cooldown_ns =
    (let live = filter (\<lambda>e. now_ns < nfc_retry_after_ns e) (nac_failed_transactions stored);
         retry_after_ns = saturating_add now_ns cooldown_ns;
         entry = \<lparr> nfc_transaction_hash = transaction_hash, nfc_retry_after_ns = retry_after_ns \<rparr>
     in try_bind (if \<exists>e \<in> set live. nfc_transaction_hash e = transaction_hash
          then Inr (extend_cooldown transaction_hash retry_after_ns live)
          else if MAX_FAILURE_COOLDOWNS \<le> length live
          then map_result (\<lambda>i. swap_remove live i @ [entry])
            (ok_or DatabaseFailure (oldest_cooldown live))
          else Inr (live @ [entry])) (\<lambda>failed.
        encode_record enc (stored \<lparr> nac_failed_transactions := failed \<rparr>)))"

section \<open>Cooldowns\<close>

lemma encode_record_exact [result_simps]:
  "encode_record enc a = Inr b \<longleftrightarrow> b = a \<and> length (enc a) \<le> MAX_STABLE_VALUE_BYTES"
  by (auto simp: encode_record_def stable_blob_new_def map_result_def)

lemma encode_record_total:
  "length (enc a) \<le> MAX_STABLE_VALUE_BYTES \<Longrightarrow> encode_record enc a = Inr a"
  by (simp add: encode_record_exact)

lemma cooldown_active_iff:
  "store_cooldown_active a h t \<longleftrightarrow>
    (\<exists>e \<in> set (nac_failed_transactions a). nfc_transaction_hash e = h \<and> t < nfc_retry_after_ns e)"
  by (simp add: store_cooldown_active_def notification_failure_cooldown_active_def)

lemma extend_cooldown_covers:
  assumes "\<exists>e \<in> set es. nfc_transaction_hash e = h"
  shows "(\<exists>e \<in> set (extend_cooldown h r es). nfc_transaction_hash e = g \<and> t < nfc_retry_after_ns e)
    \<longleftrightarrow> (\<exists>e \<in> set es. nfc_transaction_hash e = g \<and> t < nfc_retry_after_ns e) \<or> (g = h \<and> t < r)"
  using assms by (induction es) (auto simp: less_max_iff_disj)

lemma oldest_cooldown_None: "oldest_cooldown es = None \<longleftrightarrow> es = []"
  by (cases es) (auto split: option.splits)

lemma length_extend_cooldown [simp]: "length (extend_cooldown h r es) = length es"
  by (induction es) simp_all

text \<open>
  Recording a failure keeps every other cooldown: as long as there is room, a transaction is in
  cooldown at a later time exactly if it was before, or if it is the recorded one and the recorded
  cooldown has not ended.
\<close>

lemma cooldown_recorded:
  assumes "record_notification_failure_cooldown enc a h now cooldown = Inr a'"
    and "length (nac_failed_transactions a) < 4096" and "now \<le> t"
  shows "store_cooldown_active a' g t \<longleftrightarrow>
    store_cooldown_active a g t \<or> (g = h \<and> t < saturating_add now cooldown)"
proof -
  let ?live = "filter (\<lambda>e. now < nfc_retry_after_ns e) (nac_failed_transactions a)"
  let ?r = "saturating_add now cooldown"
  let ?has = "\<exists>e \<in> set ?live. nfc_transaction_hash e = h"
  have room: "length ?live < 4096"
    using assms(2) length_filter_le [of "\<lambda>e. now < nfc_retry_after_ns e" "nac_failed_transactions a"]
    by linarith
  have a': "nac_failed_transactions a' = (if ?has then extend_cooldown h ?r ?live
      else ?live @ [\<lparr> nfc_transaction_hash = h, nfc_retry_after_ns = ?r \<rparr>])"
    using assms(1) room
    by (auto simp: record_notification_failure_cooldown_def Let_def try_bind_eq_Inr
        encode_record_exact MAX_FAILURE_COOLDOWNS_def split: if_splits)
  have "store_cooldown_active a' g t \<longleftrightarrow>
      (\<exists>e \<in> set ?live. nfc_transaction_hash e = g \<and> t < nfc_retry_after_ns e) \<or> (g = h \<and> t < ?r)"
  proof (cases ?has)
    case True
    then show ?thesis
      unfolding cooldown_active_iff a' by (simp only: if_True extend_cooldown_covers [OF True])
  next
    case False
    then show ?thesis
      unfolding cooldown_active_iff a' by (auto simp only: if_False) auto
  qed
  then show ?thesis
    using assms(3) unfolding cooldown_active_iff by (auto dest: le_less_trans)
qed

lemma cooldown_recorded_witness:
  "let a = \<lparr> nac_window_id = 0, nac_public_verification_count = 0,
      nac_protected_verification_count = 0, nac_ingestion_count = 0, nac_consent_count = 0,
      nac_failed_transactions = [\<lparr> nfc_transaction_hash = [1], nfc_retry_after_ns = 50 \<rparr>] \<rparr>
   in \<exists>a'. record_notification_failure_cooldown (\<lambda>_. []) a [2] 10 30 = Inr a'
      \<and> store_cooldown_active a' [2] 39 \<and> \<not> store_cooldown_active a' [2] 40
      \<and> store_cooldown_active a' [1] 39"
proof -
  let ?a = "\<lparr> nac_window_id = 0, nac_public_verification_count = 0,
      nac_protected_verification_count = 0, nac_ingestion_count = 0, nac_consent_count = 0,
      nac_failed_transactions = [\<lparr> nfc_transaction_hash = [1], nfc_retry_after_ns = 50 \<rparr>] \<rparr>
      :: NotificationAdmissionControl"
  have sum: "saturating_add (10 :: u64) 30 = 40"
    by (simp add: saturating_add_def)
  obtain a' where a': "record_notification_failure_cooldown (\<lambda>_. []) ?a [2] 10 30 = Inr a'"
    by (simp add: record_notification_failure_cooldown_def encode_record_def stable_blob_new_def
        map_result_def try_bind_def MAX_FAILURE_COOLDOWNS_def)
  note active = cooldown_recorded [OF a']
  have "store_cooldown_active a' [2] 39" "\<not> store_cooldown_active a' [2] 40"
    "store_cooldown_active a' [1] 39"
    using active [of 39 "[2]"] active [of 40 "[2]"] active [of 39 "[1]"] sum
    by (simp_all add: cooldown_active_iff)
  then show ?thesis
    unfolding Let_def using a' by blast
qed

text \<open>
  C20.  The capacity of 4096 cooldowns is never reached.  An encoding of the control holds every
  transaction hash, so it has at least 32 bytes per entry; with 512 live entries a new failure is
  refused as too large for a blob, and the removal of the oldest entry at 4096 entries cannot
  happen.
\<close>

theorem cooldown_capacity_unreachable:
  assumes "\<forall>b. 32 * length (nac_failed_transactions b) \<le> length (enc b)"
    and "512 \<le> length (filter (\<lambda>e. now < nfc_retry_after_ns e) (nac_failed_transactions a))"
    and "\<forall>e \<in> set (nac_failed_transactions a). nfc_transaction_hash e \<noteq> h"
  shows "\<exists>n. record_notification_failure_cooldown enc a h now cooldown = Inl (ValueTooLarge n 16384)"
proof -
  let ?live = "filter (\<lambda>e. now < nfc_retry_after_ns e) (nac_failed_transactions a)"
  let ?entry = "\<lparr> nfc_transaction_hash = h, nfc_retry_after_ns = saturating_add now cooldown \<rparr>"
  have new: "\<not> (\<exists>e \<in> set ?live. nfc_transaction_hash e = h)"
    using assms(3) by auto
  have big: "\<exists>n. encode_record enc (a \<lparr> nac_failed_transactions := failed \<rparr>) = Inl (ValueTooLarge n 16384)"
    if "512 < length failed" for failed
    using that assms(1) [rule_format, of "a \<lparr> nac_failed_transactions := failed \<rparr>"]
    by (simp add: encode_record_def stable_blob_new_def map_result_def MAX_STABLE_VALUE_BYTES_def)
  show ?thesis
  proof (cases "MAX_FAILURE_COOLDOWNS \<le> length ?live")
    case True
    then have "512 < length (swap_remove ?live i @ [?entry])" for i
      by (simp add: swap_remove_def MAX_FAILURE_COOLDOWNS_def)
    moreover obtain i where "oldest_cooldown ?live = Some i"
      using True oldest_cooldown_None [of ?live] by (auto simp: MAX_FAILURE_COOLDOWNS_def)
    ultimately show ?thesis
      using new True big
      by (auto simp: record_notification_failure_cooldown_def Let_def map_result_def ok_or_def try_bind_def)
  next
    case False
    then show ?thesis
      using new big [of "?live @ [?entry]"] assms(2)
      by (auto simp: record_notification_failure_cooldown_def Let_def try_bind_def)
  qed
qed

theorem cooldown_capacity_unreachable_witness:
  "\<exists>n. record_notification_failure_cooldown (\<lambda>b. replicate (32 * length (nac_failed_transactions b)) 0)
    \<lparr> nac_window_id = 0, nac_public_verification_count = 0, nac_protected_verification_count = 0,
      nac_ingestion_count = 0, nac_consent_count = 0,
      nac_failed_transactions = replicate 512 \<lparr> nfc_transaction_hash = [1], nfc_retry_after_ns = 50 \<rparr> \<rparr>
    [2] 10 30 = Inl (ValueTooLarge n 16384)"
  by (rule cooldown_capacity_unreachable) simp_all

section \<open>Lanes of verification\<close>

lemma verification_cases:
  assumes "consume_notification_verification_quota enc s now ws gl cc cl lane = Inr (admitted, s')"
  defines "a \<equiv> open_notification_window s (now div window_length_ns ws)"
    and "limit \<equiv> if lane then min gl 6 else saturating_sub gl (min gl 6)"
    and "used \<equiv> if lane then nac_protected_verification_count else nac_public_verification_count"
  shows "(\<not> admitted \<and> s' = s)
    \<or> (\<exists>n. admitted \<and> used a < limit \<and> unat n = Suc (unat (used a))
      \<and> s' = (if lane then a \<lparr> nac_protected_verification_count := n \<rparr>
          else a \<lparr> nac_public_verification_count := n \<rparr>))"
  using assms(1)
  by (cases lane)
    (auto simp: consume_notification_verification_quota_def Let_def a_def limit_def used_def
      notification_admission_allowed_def encode_record_exact checked_add_eq_Some try_bind_eq_Inr
      map_result_eq_Inr ok_or_eq_Inr if_Inl_eq_Inr split: if_splits)

lemma verification_refused:
  assumes "t div window_length_ns ws = nac_window_id s"
  shows "(\<exists>x. consume_notification_verification_quota enc s t ws gl callers cl True = Inr (False, x)) \<longleftrightarrow>
    window_length_ns ws \<noteq> 0 \<and> gl \<noteq> 0 \<and> cl \<noteq> 0
    \<and> \<not> (nac_protected_verification_count s < min gl 6 \<and> callers < cl)"
  using assms
  by (auto simp: consume_notification_verification_quota_def Let_def open_notification_window_def
      notification_admission_allowed_def try_bind_eq_Inr map_result_eq_Inr if_Inl_eq_Inr split: if_splits)

section \<open>Sequences of operations\<close>

datatype notification_op =
    VerifyNotification u64 u16 bool
  | IngestNotification u64 u16
  | ConsentMessage bytes u64 u16 u16
  | FailedNotification bytes u64 u64

definition notification_step ::
    "(NotificationAdmissionControl \<Rightarrow> bytes) \<Rightarrow> (ConsentAdmissionControl \<Rightarrow> bytes) \<Rightarrow> u64 \<Rightarrow> u16 \<Rightarrow> u16
      \<Rightarrow> NotificationAdmissionControl \<times> ConsentAdmissionControl \<Rightarrow> notification_op
      \<Rightarrow> NotificationAdmissionControl \<times> ConsentAdmissionControl" where
  "notification_step enc encc ws gl cl s opr = (case opr of
      VerifyNotification now callers lane \<Rightarrow>
        (case consume_notification_verification_quota enc (fst s) now ws gl callers cl lane of
          Inl _ \<Rightarrow> s | Inr (_, a) \<Rightarrow> (a, snd s))
    | IngestNotification now limit \<Rightarrow>
        (case consume_notification_ingestion_quota enc (fst s) now ws limit of
          Inl _ \<Rightarrow> s | Inr (_, a) \<Rightarrow> (a, snd s))
    | ConsentMessage caller now limit caller_limit \<Rightarrow>
        (case consume_consent_quota enc encc (fst s) (snd s) caller now ws limit caller_limit of
          Inl _ \<Rightarrow> s | Inr (_, s') \<Rightarrow> s')
    | FailedNotification h now cooldown \<Rightarrow>
        (case record_notification_failure_cooldown enc (fst s) h now cooldown of
          Inl _ \<Rightarrow> s | Inr a \<Rightarrow> (a, snd s)))"

definition op_time :: "notification_op \<Rightarrow> u64" where
  "op_time opr = (case opr of VerifyNotification now _ _ \<Rightarrow> now | IngestNotification now _ \<Rightarrow> now
    | ConsentMessage _ now _ _ \<Rightarrow> now | FailedNotification _ now _ \<Rightarrow> now)"

fun clock_advances :: "u64 \<Rightarrow> notification_op list \<Rightarrow> bool" where
  "clock_advances t [] = True"
| "clock_advances t (opr # ops) = (t \<le> op_time opr \<and> clock_advances (op_time opr) ops)"

definition fresh_notifications :: "NotificationAdmissionControl \<times> ConsentAdmissionControl" where
  "fresh_notifications = (\<lparr> nac_window_id = 0, nac_public_verification_count = 0,
    nac_protected_verification_count = 0, nac_ingestion_count = 0, nac_consent_count = 0,
    nac_failed_transactions = [] \<rparr>, \<lparr> cac_window_id = 0, cac_caller_counts = [] \<rparr>)"

definition consent_wf :: "NotificationAdmissionControl \<times> ConsentAdmissionControl \<Rightarrow> bool" where
  "consent_wf s = (counts_wf (cac_caller_counts (snd s))
    \<and> (if cac_window_id (snd s) = nac_window_id (fst s)
       then unat (nac_consent_count (fst s)) = counts_total (cac_caller_counts (snd s))
       else cac_window_id (snd s) < nac_window_id (fst s) \<and> nac_consent_count (fst s) = 0))"

section \<open>Consent messages\<close>

lemma bump_absent:
  "\<forall>e \<in> set es. dcq_caller e \<noteq> owner \<Longrightarrow>
    bump_caller owner es = Inr (es @ [\<lparr> dcq_caller = owner, dcq_count = 1 \<rparr>])"
  by (induction es) (simp_all add: map_result_def)

lemma callers_le_total: "counts_wf es \<Longrightarrow> length es \<le> counts_total es"
proof (induction es)
  case (Cons e es)
  then have "0 < unat (dcq_count e)"
    by (simp add: unat_gt_0)
  then show ?case
    using Cons by simp
qed simp

lemma caller_count_le_total: "unat (caller_count owner es) \<le> counts_total es"
  by (induction es) auto

text \<open>The counts a consent message starts from, in the window of the clock.\<close>

definition consent_counts :: "ConsentAdmissionControl \<Rightarrow> u64 \<Rightarrow> DepositCallerQuota list" where
  "consent_counts c w = (if cac_window_id c \<noteq> w then [] else cac_caller_counts c)"

lemma consent_counts_exact:
  assumes "consent_wf s" and "nac_window_id (fst s) \<le> w"
  shows "counts_wf (consent_counts (snd s) w)"
    and "unat (nac_consent_count (open_notification_window (fst s) w)) = counts_total (consent_counts (snd s) w)"
  using assms
  by (auto simp: consent_wf_def consent_counts_def open_notification_window_def split: if_splits)

lemma consent_quota_eq:
  assumes wf: "consent_wf s" and w: "nac_window_id (fst s) \<le> now div window_length_ns ws"
  defines "w \<equiv> now div window_length_ns ws"
  defines "a \<equiv> open_notification_window (fst s) w" and "counts \<equiv> consent_counts (snd s) w"
  shows "consume_consent_quota enc encc (fst s) (snd s) caller now ws limit caller_limit =
    (if window_length_ns ws = 0 \<or> limit = 0 \<or> 200 < limit \<or> caller_limit = 0 then Inl DecodeFailed
     else if \<not> (nac_consent_count a < limit \<and> caller_count caller counts < caller_limit)
     then Inr (False, s)
     else try_bind (bump_caller caller counts) (\<lambda>counts'.
       try_bind (ok_or CounterOverflow (checked_add (nac_consent_count a) 1)) (\<lambda>n.
       try_bind (encode_record enc (a \<lparr> nac_consent_count := n \<rparr>)) (\<lambda>a'.
       try_bind (encode_record encc \<lparr> cac_window_id = w, cac_caller_counts = counts' \<rparr>) (\<lambda>c'.
       Inr (True, a', c'))))))"
proof -
  have c: "(if cac_window_id (snd s) \<noteq> w then \<lparr> cac_window_id = w, cac_caller_counts = [] \<rparr> else snd s)
      = \<lparr> cac_window_id = w, cac_caller_counts = counts \<rparr>"
    by (cases "snd s") (simp add: counts_def consent_counts_def)
  have room: "\<not> unat limit \<le> length counts" if "nac_consent_count a < limit"
    using that callers_le_total [of counts] consent_counts_exact [OF wf, of w] w
    by (simp add: a_def counts_def w_def word_less_nat_alt)
  show ?thesis
    unfolding consume_consent_quota_def Let_def w_def [symmetric] c
    using room bump_absent [of counts caller]
    by (auto simp: notification_admission_allowed_def a_def try_bind_def)
qed

lemma consent_wf_reopened:
  assumes "consent_wf s" and "nac_window_id (fst s) \<le> w"
    and "nac_window_id b = w" and "nac_consent_count b = nac_consent_count (open_notification_window (fst s) w)"
  shows "consent_wf (b, snd s)"
  using assms by (auto simp: consent_wf_def open_notification_window_def split: if_splits)

lemma open_window_id [simp]: "nac_window_id (open_notification_window a w) = w"
  by (simp add: open_notification_window_def)

lemma ingestion_cases:
  assumes "consume_notification_ingestion_quota enc s now ws limit = Inr (admitted, s')"
  shows "s' = s \<or> (\<exists>n. s' = (open_notification_window s (now div window_length_ns ws))
    \<lparr> nac_ingestion_count := n \<rparr>)"
  using assms
  by (auto simp: consume_notification_ingestion_quota_def prepare_notification_ingestion_quota_def Let_def
      encode_record_exact try_bind_eq_Inr split: if_splits sum.splits)

lemma consent_control_cases:
  assumes "consume_consent_quota enc encc a c caller now ws limit caller_limit = Inr (admitted, s')"
  shows "fst s' = a
    \<or> (\<exists>n. fst s' = (open_notification_window a (now div window_length_ns ws)) \<lparr> nac_consent_count := n \<rparr>)"
  using assms
  by (auto simp: consume_consent_quota_def Let_def encode_record_exact try_bind_eq_Inr if_Inl_eq_Inr
      split: if_splits)

lemma cooldown_keeps_counts:
  assumes "record_notification_failure_cooldown enc a h now cooldown = Inr a'"
  shows "nac_window_id a' = nac_window_id a \<and> nac_consent_count a' = nac_consent_count a
    \<and> nac_public_verification_count a' = nac_public_verification_count a
    \<and> nac_protected_verification_count a' = nac_protected_verification_count a"
  using assms
  by (auto simp: record_notification_failure_cooldown_def Let_def try_bind_eq_Inr encode_record_exact)

lemma consent_step_wf:
  assumes wf: "consent_wf s" and w: "nac_window_id (fst s) \<le> now div window_length_ns ws"
    and ok: "consume_consent_quota enc encc (fst s) (snd s) caller now ws limit caller_limit = Inr (admitted, s')"
  shows "consent_wf s' \<and> nac_window_id (fst s') \<le> now div window_length_ns ws"
proof -
  let ?w = "now div window_length_ns ws"
  let ?a = "open_notification_window (fst s) ?w" and ?c = "consent_counts (snd s) ?w"
  consider "s' = s" | n counts where "bump_caller caller ?c = Inr counts"
      "unat n = Suc (unat (nac_consent_count ?a))"
      "s' = (?a \<lparr> nac_consent_count := n \<rparr>, \<lparr> cac_window_id = ?w, cac_caller_counts = counts \<rparr>)"
  proof (cases "nac_consent_count ?a < limit \<and> caller_count caller ?c < caller_limit")
    case False
    then have "s' = s"
      using ok unfolding consent_quota_eq [OF wf w] by (simp add: if_Inl_eq_Inr)
    then show ?thesis
      by (rule that(1))
  next
    case True
    then obtain counts n a' c' where "bump_caller caller ?c = Inr counts"
      "checked_add (nac_consent_count ?a) 1 = Some n"
      "encode_record enc (?a \<lparr> nac_consent_count := n \<rparr>) = Inr a'"
      "encode_record encc \<lparr> cac_window_id = ?w, cac_caller_counts = counts \<rparr> = Inr c'"
      "s' = (a', c')"
      using ok unfolding consent_quota_eq [OF wf w]
      by (simp only: simp_thms if_False if_Inl_eq_Inr try_bind_eq_Inr ok_or_eq_Inr sum.inject
          prod.inject) blast
    then show ?thesis
      using that(2) [of counts n] by (simp add: encode_record_exact checked_add_eq_Some)
  qed
  then show ?thesis
  proof cases
    case 1
    then show ?thesis
      using wf w by simp
  next
    case 2
    then show ?thesis
      using bump_caller_exact [OF consent_counts_exact(1) [OF wf w] 2(1)] consent_counts_exact(2) [OF wf w]
      by (simp add: consent_wf_def)
  qed
qed

lemma notification_step_wf:
  assumes wf: "consent_wf s" and w: "nac_window_id (fst s) \<le> op_time opr div window_length_ns ws"
  shows "consent_wf (notification_step enc encc ws gl cl s opr)
    \<and> nac_window_id (fst (notification_step enc encc ws gl cl s opr)) \<le> op_time opr div window_length_ns ws"
proof (cases opr)
  case (VerifyNotification now callers lane)
  show ?thesis
  proof (cases "consume_notification_verification_quota enc (fst s) now ws gl callers cl lane")
    case (Inr x)
    obtain admitted a where x: "x = (admitted, a)"
      by (cases x)
    have "consent_wf (a, snd s) \<and> nac_window_id a \<le> now div window_length_ns ws"
      using verification_cases [OF Inr [unfolded x]] wf w VerifyNotification
        consent_wf_reopened [OF wf, of "now div window_length_ns ws" a]
      by (cases lane) (auto simp: op_time_def)
    then show ?thesis
      using Inr x VerifyNotification by (simp add: notification_step_def op_time_def)
  qed (use wf w VerifyNotification in \<open>simp add: notification_step_def\<close>)
next
  case (IngestNotification now limit)
  show ?thesis
  proof (cases "consume_notification_ingestion_quota enc (fst s) now ws limit")
    case (Inr x)
    obtain admitted a where x: "x = (admitted, a)"
      by (cases x)
    have "consent_wf (a, snd s) \<and> nac_window_id a \<le> now div window_length_ns ws"
      using ingestion_cases [OF Inr [unfolded x]] wf w IngestNotification
        consent_wf_reopened [OF wf, of "now div window_length_ns ws" a]
      by (auto simp: op_time_def)
    then show ?thesis
      using Inr x IngestNotification by (simp add: notification_step_def op_time_def)
  qed (use wf w IngestNotification in \<open>simp add: notification_step_def\<close>)
next
  case (ConsentMessage caller now limit caller_limit)
  show ?thesis
  proof (cases "consume_consent_quota enc encc (fst s) (snd s) caller now ws limit caller_limit")
    case (Inr x)
    obtain admitted s' where x: "x = (admitted, s')"
      by (cases x)
    show ?thesis
      using consent_step_wf [OF wf _ Inr [unfolded x]] w Inr x ConsentMessage
      by (simp add: notification_step_def op_time_def)
  qed (use wf w ConsentMessage in \<open>simp add: notification_step_def\<close>)
next
  case (FailedNotification h now cooldown)
  show ?thesis
  proof (cases "record_notification_failure_cooldown enc (fst s) h now cooldown")
    case (Inr a)
    have "consent_wf (a, snd s)"
      using cooldown_keeps_counts [OF Inr] wf by (simp add: consent_wf_def)
    then show ?thesis
      using cooldown_keeps_counts [OF Inr] w Inr FailedNotification
      by (simp add: notification_step_def op_time_def)
  qed (use wf w FailedNotification in \<open>simp add: notification_step_def\<close>)
qed

lemma word_div_mono: "a \<le> b \<Longrightarrow> a div c \<le> b div (c :: 'a::len word)"
  by (simp add: word_le_nat_alt unat_div div_le_mono)

lemma notification_run_wf:
  assumes "consent_wf s" and "nac_window_id (fst s) \<le> t div window_length_ns ws" and "clock_advances t ops"
  shows "consent_wf (foldl (notification_step enc encc ws gl cl) s ops)
    \<and> nac_window_id (fst (foldl (notification_step enc encc ws gl cl) s ops))
      \<le> (if ops = [] then t else op_time (last ops)) div window_length_ns ws"
  using assms
proof (induction ops arbitrary: s t)
  case (Cons opr ops)
  have "nac_window_id (fst s) \<le> op_time opr div window_length_ns ws"
    using Cons.prems(2,3) word_div_mono [of t "op_time opr"] by (auto intro: order_trans)
  note step = notification_step_wf [OF Cons.prems(1) this, of enc encc gl cl]
  show ?case
    using Cons.IH [of "notification_step enc encc ws gl cl s opr" "op_time opr"] step Cons.prems(3)
    by (cases "ops = []") simp_all
qed simp

section \<open>Verifications admitted\<close>

text \<open>The verifications that a sequence of operations admits, each with its window and its lane.\<close>

definition admission ::
    "(NotificationAdmissionControl \<Rightarrow> bytes) \<Rightarrow> u64 \<Rightarrow> u16 \<Rightarrow> u16
      \<Rightarrow> NotificationAdmissionControl \<times> ConsentAdmissionControl \<Rightarrow> notification_op \<Rightarrow> (u64 \<times> bool) list" where
  "admission enc ws gl cl s opr = (case opr of
      VerifyNotification now callers lane \<Rightarrow>
        (case consume_notification_verification_quota enc (fst s) now ws gl callers cl lane of
          Inl _ \<Rightarrow> []
        | Inr (admitted, _) \<Rightarrow> if admitted then [(now div window_length_ns ws, lane)] else [])
    | _ \<Rightarrow> [])"

fun admissions ::
    "(NotificationAdmissionControl \<Rightarrow> bytes) \<Rightarrow> (ConsentAdmissionControl \<Rightarrow> bytes) \<Rightarrow> u64 \<Rightarrow> u16 \<Rightarrow> u16
      \<Rightarrow> NotificationAdmissionControl \<times> ConsentAdmissionControl \<Rightarrow> notification_op list \<Rightarrow> (u64 \<times> bool) list" where
  "admissions enc encc ws gl cl s [] = []"
| "admissions enc encc ws gl cl s (opr # ops) =
    admission enc ws gl cl s opr @ admissions enc encc ws gl cl (notification_step enc encc ws gl cl s opr) ops"

definition protected_verification :: "notification_op \<Rightarrow> bool" where
  "protected_verification opr = (case opr of VerifyNotification _ _ lane \<Rightarrow> lane | _ \<Rightarrow> False)"

definition lane_used :: "bool \<Rightarrow> NotificationAdmissionControl \<Rightarrow> u16" where
  "lane_used lane = (if lane then nac_protected_verification_count else nac_public_verification_count)"

definition lane_limit :: "u16 \<Rightarrow> bool \<Rightarrow> u16" where
  "lane_limit gl lane = (if lane then min gl 6 else saturating_sub gl (min gl 6))"

lemma lane_limits: "unat (lane_limit gl True) + unat (lane_limit gl False) = unat gl"
  by (simp add: lane_limit_def saturating_sub_def min_def unat_sub_exact word_le_nat_alt)

lemma lane_used_open:
  "lane_used lane (open_notification_window a w) = (if nac_window_id a = w then lane_used lane a else 0)"
  by (simp add: open_notification_window_def lane_used_def)

lemma admission_cases:
  "admission enc ws gl cl s opr = []
    \<or> (\<exists>lane. admission enc ws gl cl s opr = [(op_time opr div window_length_ns ws, lane)]
      \<and> (lane \<longrightarrow> protected_verification opr))"
  by (auto simp: admission_def op_time_def protected_verification_def
      split: notification_op.splits sum.splits prod.splits)

text \<open>What an operation does with a lane: it leaves the control at its window, or moves it to the window of its
  clock, where the count of the lane grows with the admission, below the limit of the lane.\<close>

lemma step_lane:
  fixes ws :: u64
  defines "w \<equiv> \<lambda>opr. op_time opr div window_length_ns ws"
  shows "(admission enc ws gl cl s opr = []
      \<and> nac_window_id (fst (notification_step enc encc ws gl cl s opr)) = nac_window_id (fst s)
      \<and> lane_used lane (fst (notification_step enc encc ws gl cl s opr)) = lane_used lane (fst s))
    \<or> (nac_window_id (fst (notification_step enc encc ws gl cl s opr)) = w opr
      \<and> unat (lane_used lane (fst (notification_step enc encc ws gl cl s opr)))
        = unat (lane_used lane (open_notification_window (fst s) (w opr)))
          + count_list (admission enc ws gl cl s opr) (w opr, lane)
      \<and> (count_list (admission enc ws gl cl s opr) (w opr, lane) = 0
        \<or> lane_used lane (open_notification_window (fst s) (w opr)) < lane_limit gl lane))"
proof (cases opr)
  case (VerifyNotification now callers l)
  show ?thesis
  proof (cases "consume_notification_verification_quota enc (fst s) now ws gl callers cl l")
    case (Inr x)
    obtain admitted a where x: "x = (admitted, a)"
      by (cases x)
    show ?thesis
      using verification_cases [OF Inr [unfolded x]] Inr x VerifyNotification
      by (cases l; cases lane)
        (auto simp: notification_step_def admission_def w_def op_time_def lane_used_def lane_limit_def)
  qed (use VerifyNotification in \<open>simp add: notification_step_def admission_def\<close>)
next
  case (IngestNotification now limit)
  show ?thesis
  proof (cases "consume_notification_ingestion_quota enc (fst s) now ws limit")
    case (Inr x)
    obtain admitted a where x: "x = (admitted, a)"
      by (cases x)
    show ?thesis
      using ingestion_cases [OF Inr [unfolded x]] Inr x IngestNotification
      by (cases lane) (auto simp: notification_step_def admission_def w_def op_time_def lane_used_def)
  qed (use IngestNotification in \<open>simp add: notification_step_def admission_def\<close>)
next
  case (ConsentMessage caller now limit caller_limit)
  show ?thesis
  proof (cases "consume_consent_quota enc encc (fst s) (snd s) caller now ws limit caller_limit")
    case (Inr x)
    obtain admitted s' where x: "x = (admitted, s')"
      by (cases x)
    show ?thesis
      using consent_control_cases [OF Inr [unfolded x]] Inr x ConsentMessage
      by (cases lane) (auto simp: notification_step_def admission_def w_def op_time_def lane_used_def)
  qed (use ConsentMessage in \<open>simp add: notification_step_def admission_def\<close>)
next
  case (FailedNotification h now cooldown)
  show ?thesis
  proof (cases "record_notification_failure_cooldown enc (fst s) h now cooldown")
    case (Inr a)
    then show ?thesis
      using cooldown_keeps_counts [OF Inr] FailedNotification
      by (simp add: notification_step_def admission_def lane_used_def)
  qed (use FailedNotification in \<open>simp add: notification_step_def admission_def\<close>)
qed

lemma admissions_later:
  assumes "clock_advances t ops" "w < t div window_length_ns ws"
  shows "count_list (admissions enc encc ws gl cl s ops) (w, lane) = 0"
  using assms
proof (induction ops arbitrary: s t)
  case (Cons opr ops)
  have later: "w < op_time opr div window_length_ns ws"
    using Cons.prems word_div_mono [of t "op_time opr"] by (auto intro: less_le_trans)
  then have "count_list (admission enc ws gl cl s opr) (w, lane) = 0"
    using admission_cases [of enc ws gl cl s opr] by auto
  then show ?case
    using Cons.IH [OF _ later] Cons.prems(1) by simp
qed simp

lemma admissions_within:
  assumes "clock_advances t ops" "nac_window_id (fst s) \<le> t div window_length_ns ws"
    and "lane_used lane (fst s) \<le> lane_limit gl lane"
  shows "count_list (admissions enc encc ws gl cl s ops) (w, lane)
      + (if nac_window_id (fst s) = w then unat (lane_used lane (fst s)) else 0) \<le> unat (lane_limit gl lane)"
  using assms
proof (induction ops arbitrary: s t)
  case Nil
  then show ?case
    by (simp add: word_le_nat_alt)
next
  case (Cons opr ops)
  let ?s' = "notification_step enc encc ws gl cl s opr" and ?w = "op_time opr div window_length_ns ws"
  let ?n = "count_list (admission enc ws gl cl s opr)"
  have adv: "clock_advances (op_time opr) ops" and le: "nac_window_id (fst s) \<le> ?w"
    using Cons.prems(1,2) word_div_mono [of t "op_time opr"] by (auto intro: order_trans)
  have other: "w \<noteq> ?w \<Longrightarrow> ?n (w, lane) = 0"
    using admission_cases [of enc ws gl cl s opr] by auto
  have one: "?n (?w, lane) \<le> 1"
    using admission_cases [of enc ws gl cl s opr] by auto
  consider (kept) "admission enc ws gl cl s opr = []" "nac_window_id (fst ?s') = nac_window_id (fst s)"
      "lane_used lane (fst ?s') = lane_used lane (fst s)"
    | (moved) "nac_window_id (fst ?s') = ?w"
      "unat (lane_used lane (fst ?s'))
        = unat (lane_used lane (open_notification_window (fst s) ?w)) + ?n (?w, lane)"
      "?n (?w, lane) = 0 \<or> lane_used lane (open_notification_window (fst s) ?w) < lane_limit gl lane"
    using step_lane [of enc ws gl cl s opr encc lane] by blast
  then show ?case
  proof cases
    case kept
    then show ?thesis
      using Cons.IH [OF adv, of ?s'] le Cons.prems(3) by (simp split: if_splits)
  next
    case moved
    have "lane_used lane (fst ?s') \<le> lane_limit gl lane"
      using moved(2,3) one Cons.prems(3)
      by (auto simp: lane_used_open word_le_nat_alt word_less_nat_alt split: if_splits)
    then have rest: "count_list (admissions enc encc ws gl cl ?s' ops) (w, lane)
        + (if ?w = w then unat (lane_used lane (fst ?s')) else 0) \<le> unat (lane_limit gl lane)"
      using Cons.IH [OF adv, of ?s'] moved(1) by simp
    show ?thesis
    proof (cases "?w = w")
      case True
      then show ?thesis
        using rest moved(2) by (simp add: lane_used_open split: if_splits)
    next
      case False
      have "nac_window_id (fst s) = w \<Longrightarrow> count_list (admissions enc encc ws gl cl ?s' ops) (w, lane) = 0"
        using False le by (intro admissions_later [OF adv]) simp
      then show ?thesis
        using rest False other Cons.prems(3) by (auto simp: word_le_nat_alt)
    qed
  qed
qed

text \<open>Operations of the current window that are not protected verifications leave the protected lane as it is.\<close>

lemma unprotected_run_keeps:
  assumes "\<forall>opr \<in> set ops. op_time opr div window_length_ns ws = nac_window_id (fst s)
    \<and> \<not> protected_verification opr"
  shows "let s' = foldl (notification_step enc encc ws gl cl) s ops in
    nac_window_id (fst s') = nac_window_id (fst s)
    \<and> nac_protected_verification_count (fst s') = nac_protected_verification_count (fst s)"
  using assms
proof (induction ops arbitrary: s)
  case (Cons opr ops)
  let ?s' = "notification_step enc encc ws gl cl s opr"
  have "count_list (admission enc ws gl cl s opr) (nac_window_id (fst s), True) = 0"
    using admission_cases [of enc ws gl cl s opr] Cons.prems by auto
  then have "nac_window_id (fst ?s') = nac_window_id (fst s)"
    "nac_protected_verification_count (fst ?s') = nac_protected_verification_count (fst s)"
    using step_lane [of enc ws gl cl s opr encc True] Cons.prems
    by (auto simp: open_notification_window_def lane_used_def dest: unat_eqD)
  then show ?case
    using Cons.IH [of ?s'] Cons.prems by (simp add: Let_def)
qed simp

text \<open>
  C21.  From empty records, over any sequence of verifications, ingestions, consent messages and failures with a
  clock that does not go back, the verifications admitted in one window are at most the global limit, at most
  six of them (or the limit, if it is smaller) in the protected lane and at most the rest of the limit in the
  public lane.  And the public lane cannot exhaust the protected one: whatever other operations than protected
  verifications are done in a window, a protected request is refused for lack of quota exactly if it would
  have been without them.
\<close>

theorem notification_lanes_isolated:
  assumes "clock_advances 0 history"
    and "\<forall>opr \<in> set others. op_time opr div window_length_ns ws = nac_window_id (fst s)
      \<and> \<not> protected_verification opr"
    and "t div window_length_ns ws = nac_window_id (fst s)"
  shows "(let admitted = admissions enc encc ws gl cl fresh_notifications history in
      count_list admitted (w, True) \<le> unat (min gl 6)
      \<and> count_list admitted (w, False) \<le> unat gl - unat (min gl 6)
      \<and> count_list admitted (w, True) + count_list admitted (w, False) \<le> unat gl)
    \<and> ((\<exists>x. consume_notification_verification_quota enc
        (fst (foldl (notification_step enc encc ws gl cl) s others)) t ws gl callers cl True = Inr (False, x))
      \<longleftrightarrow> (\<exists>x. consume_notification_verification_quota enc (fst s) t ws gl callers cl True = Inr (False, x)))"
    (is "?bounded \<and> ?isolated")
proof
  have fresh: "nac_window_id (fst fresh_notifications) = 0" "lane_used lane (fst fresh_notifications) = 0" for lane
    by (simp_all add: fresh_notifications_def lane_used_def)
  have within: "count_list (admissions enc encc ws gl cl fresh_notifications history) (w, lane)
      \<le> unat (lane_limit gl lane)" for lane
    using admissions_within [OF assms(1), of fresh_notifications ws lane gl enc encc cl w]
    by (simp add: fresh)
  show ?bounded
    using within [of True] within [of False] lane_limits [of gl] by (simp add: Let_def lane_limit_def)
  show ?isolated
    using unprotected_run_keeps [OF assms(2), of enc encc gl cl] assms(3)
    by (simp only: Let_def verification_refused)
qed

theorem notification_lanes_isolated_witness:
  "let s = (fst fresh_notifications \<lparr> nac_public_verification_count := 1 \<rparr>, snd fresh_notifications);
       public = [VerifyNotification 5 0 False, IngestNotification 5 3, VerifyNotification 7 0 False,
         VerifyNotification 8 0 False]
   in clock_advances 0 public
    \<and> admissions (\<lambda>_. []) (\<lambda>_. []) 600 8 6 fresh_notifications public = [(0, False), (0, False)]
    \<and> count_list (admissions (\<lambda>_. []) (\<lambda>_. []) 600 8 6 fresh_notifications public) (0, False) \<le> 2
    \<and> \<not> (\<exists>x. consume_notification_verification_quota (\<lambda>_. [])
      (fst (foldl (notification_step (\<lambda>_. []) (\<lambda>_. []) 600 8 6) s public)) 9 600 8 0 6 True = Inr (False, x))"
proof -
  let ?s = "(fst fresh_notifications \<lparr> nac_public_verification_count := 1 \<rparr>, snd fresh_notifications)"
  let ?p = "[VerifyNotification 5 0 False, IngestNotification 5 3, VerifyNotification 7 0 False,
    VerifyNotification 8 0 False]"
  have w: "window_length_ns 600 = 600000000000"
    by (simp add: window_length_ns_def saturating_mul_def)
  have adv: "clock_advances 0 ?p"
    by (simp add: op_time_def)
  have same: "\<forall>opr \<in> set ?p. op_time opr div window_length_ns 600 = nac_window_id (fst ?s)
      \<and> \<not> protected_verification opr" "9 div window_length_ns 600 = nac_window_id (fst ?s)"
    by (simp_all add: op_time_def protected_verification_def fresh_notifications_def w)
  have admitted: "admissions (\<lambda>_. []) (\<lambda>_. []) 600 8 6 fresh_notifications ?p = [(0, False), (0, False)]"
    by (simp add: fresh_notifications_def admission_def notification_step_def w
        consume_notification_verification_quota_def consume_notification_ingestion_quota_def
        prepare_notification_ingestion_quota_def notification_admission_allowed_def
        notification_ingestion_allowed_def open_notification_window_def encode_record_def stable_blob_new_def
        MAX_STABLE_VALUE_BYTES_def checked_add_def saturating_sub_def result_simps Let_def)
  have "\<not> (\<exists>x. consume_notification_verification_quota (\<lambda>_. []) (fst ?s) 9 600 8 0 6 True = Inr (False, x))"
    by (subst verification_refused) (simp_all add: w fresh_notifications_def)
  then show ?thesis
    using adv admitted
      notification_lanes_isolated [OF adv same, of "\<lambda>_. []" "\<lambda>_. []" 8 6 0 0]
    unfolding Let_def by simp
qed

section \<open>Exact counts of consent messages\<close>

text \<open>
  Consent messages are counted exactly: from empty records, over any sequence of verifications,
  ingestions, consent messages and failures with a clock that does not go back, the global count of
  the current window is the sum of the counts per caller, with one entry per caller; a message that
  comes next is accepted only below both limits, and is never refused by an overflow of a count or
  of the caller list, only for its limits, the quota or the size of a record.
\<close>

lemma consent_quota_exact:
  assumes "clock_advances 0 (ops @ [ConsentMessage caller now limit caller_limit])"
  shows "let s = foldl (notification_step enc encc ws gl cl) fresh_notifications ops;
      w = now div window_length_ns ws;
      counts = consent_counts (snd s) w
    in unat (nac_consent_count (open_notification_window (fst s) w)) = sum_list (map (unat \<circ> dcq_count) counts)
      \<and> distinct (map dcq_caller counts)
      \<and> (case consume_consent_quota enc encc (fst s) (snd s) caller now ws limit caller_limit of
          Inl err \<Rightarrow> err = DecodeFailed \<or> (\<exists>n. err = ValueTooLarge n 16384)
        | Inr (admitted, _) \<Rightarrow> admitted = (sum_list (map (unat \<circ> dcq_count) counts) < unat limit
            \<and> caller_count caller counts < caller_limit))"
proof -
  let ?s = "foldl (notification_step enc encc ws gl cl) fresh_notifications ops"
  let ?w = "now div window_length_ns ws"
  let ?counts = "consent_counts (snd ?s) ?w"
  have adv: "clock_advances t (xs @ [y]) \<Longrightarrow> clock_advances t xs
      \<and> (if xs = [] then t else op_time (last xs)) \<le> op_time y" for t xs y
    by (induction xs arbitrary: t) auto
  have "consent_wf fresh_notifications" "nac_window_id (fst fresh_notifications) \<le> 0 div window_length_ns ws"
    by (simp_all add: fresh_notifications_def consent_wf_def)
  from notification_run_wf [OF this, of ops enc encc gl cl] adv [OF assms]
  have wf: "consent_wf ?s" and w: "nac_window_id (fst ?s) \<le> ?w"
    using word_div_mono [of "if ops = [] then 0 else op_time (last ops)" now "window_length_ns ws"]
    by (auto simp: op_time_def intro: order_trans)
  note exact = consent_counts_exact [OF wf w]
  have total: "counts_total ?counts = sum_list (map (unat \<circ> dcq_count) ?counts)"
    by (simp add: counts_total_def comp_def)
  have bump: "\<exists>c. bump_caller caller ?counts = Inr c" if "nac_consent_count (open_notification_window (fst ?s) ?w) < limit" "limit \<le> 200"
  proof (rule bump_caller_total, intro ballI impI)
    fix e assume "e \<in> set ?counts"
    then have "unat (dcq_count e) \<le> counts_total ?counts"
      by (auto simp: counts_total_def intro: member_le_sum_list)
    then show "Suc (unat (dcq_count e)) < 2 ^ 16"
      using that exact(2) by (simp add: word_less_nat_alt word_le_nat_alt)
  qed
  have size: "\<exists>n. encode_record f x = Inl (ValueTooLarge n 16384) \<or> encode_record f x = Inr x"
    for f :: "'x \<Rightarrow> bytes" and x
    by (auto simp: encode_record_def stable_blob_new_def map_result_def MAX_STABLE_VALUE_BYTES_def)
  let ?a = "open_notification_window (fst ?s) ?w"
  let ?admit = "nac_consent_count ?a < limit \<and> caller_count caller ?counts < caller_limit"
  let ?r = "consume_consent_quota enc encc (fst ?s) (snd ?s) caller now ws limit caller_limit"
  have admit: "nac_consent_count ?a < limit \<longleftrightarrow> sum_list (map (unat \<circ> dcq_count) ?counts) < unat limit"
    using exact(2) total by (simp add: word_less_nat_alt)
  have "(\<exists>err. ?r = Inl err \<and> (err = DecodeFailed \<or> (\<exists>n. err = ValueTooLarge n 16384)))
      \<or> (\<exists>x. ?r = Inr (?admit, x))"
  proof (cases "window_length_ns ws = 0 \<or> limit = 0 \<or> 200 < limit \<or> caller_limit = 0")
    case True
    then show ?thesis
      unfolding consent_quota_eq [OF wf w] by simp
  next
    case valid: False
    show ?thesis
    proof (cases ?admit)
      case True
      then obtain c where c: "bump_caller caller ?counts = Inr c"
        using bump valid by (auto simp: not_less)
      have "unat (nac_consent_count ?a) + unat (1 :: u16) < 2 ^ LENGTH(16)"
        using True valid by (simp add: word_less_nat_alt not_less word_le_nat_alt)
      then have n: "checked_add (nac_consent_count ?a) 1 = Some (nac_consent_count ?a + 1)"
        by (simp add: checked_add_def)
      show ?thesis
        unfolding consent_quota_eq [OF wf w]
        using True valid c n size [of enc "?a \<lparr> nac_consent_count := nac_consent_count ?a + 1 \<rparr>"]
          size [of encc "\<lparr> cac_window_id = ?w, cac_caller_counts = c \<rparr>"]
        by (auto simp: try_bind_def ok_or_def)
    next
      case False
      then show ?thesis
        unfolding consent_quota_eq [OF wf w] using valid by auto
    qed
  qed
  then have "case ?r of Inl err \<Rightarrow> err = DecodeFailed \<or> (\<exists>n. err = ValueTooLarge n 16384)
      | Inr (admitted, _) \<Rightarrow> admitted = ?admit"
    by (elim disjE exE conjE) simp_all
  then show ?thesis
    unfolding Let_def admit [symmetric] using exact total by (simp add: counts_wf_def)
qed

lemma consent_quota_exact_witness:
  "case consume_consent_quota (\<lambda>_. []) (\<lambda>_. []) (fst fresh_notifications) (snd fresh_notifications)
      [7] 5 600 2 1 of
    Inl err \<Rightarrow> err = DecodeFailed \<or> (\<exists>n. err = ValueTooLarge n 16384)
  | Inr (admitted, _) \<Rightarrow> admitted"
proof -
  have none: "consent_counts (snd fresh_notifications) w = []" for w
    by (simp add: fresh_notifications_def consent_counts_def)
  have "clock_advances 0 ([] @ [ConsentMessage [7] 5 2 1])"
    by (simp add: op_time_def)
  moreover have "(sum_list (map (unat \<circ> dcq_count) []) < unat (2 :: u16) \<and> caller_count [7] [] < 1) = True"
    by simp
  ultimately show ?thesis
    using consent_quota_exact [of "[]" "[7]" 5 2 1 "\<lambda>_. []" "\<lambda>_. []" 600 0 0]
    by (simp only: Let_def foldl_Nil none) (auto split: sum.splits)
qed

end
