(* ===== verification/Settlement_Jobs.thy ===== *)
theory Settlement_Jobs
  imports Admission Kernel_Decisions "HOL-Library.Product_Lexorder" "HOL-Library.List_Lexorder"
begin

text \<open>
  The settlement jobs of the canister (\<open>bridge-canister/src/storage/mod.rs\<close>): one row per
  settlement, which is scheduled, leased to a worker until a time, or stopped, with the counts that
  the database triggers keep.  A worker claims a job, which raises the row's lease generation, and
  later finishes it; a callback or a finish with another generation than the row's is stale.

  Rows are found by \<open>WHERE\<close> and ordered by \<open>ORDER BY\<close>; a \<open>COUNT\<close> is the number of such rows and the
  first row is the least under the lexicographic order of the columns, with byte strings compared
  byte by byte.  The counts of the triggers are integers that may not become negative; that they
  stay below the 63 bits of the column is not modelled.  A quota window of zero seconds divides by
  zero and traps, which is the result None.
\<close>

section \<open>Definitions\<close>

datatype SettlementJobStatus = JS_Scheduled | JS_Leased | JS_Stopped

definition job_status_from_sql :: "int \<Rightarrow> SettlementJobStatus storage_result" where
  "job_status_from_sql value =
    (if value = 0 then Inr JS_Scheduled else if value = 1 then Inr JS_Leased
     else if value = 2 then Inr JS_Stopped else Inl DecodeFailed)"

record SettlementJob =
  sj_kind :: SettlementJobKind
  sj_settlement_id :: bytes
  sj_status :: SettlementJobStatus
  sj_next_run_at_ns :: "u64 option"
  sj_attempts :: u8
  sj_lease_generation :: u64
  sj_lease_until_ns :: "u64 option"
  sj_lease_lane :: SettlementLeaseLane
  sj_last_error_code :: "string option"
  sj_last_error_detail :: "string option"
  sj_updated_at_ns :: u64

type_synonym job_key = "SettlementJobKind \<times> bytes"

record settlement_table =
  st_jobs :: "job_key \<Rightarrow> SettlementJob option"
  st_status_counts :: "SettlementJobStatus \<Rightarrow> nat"
  st_kind_counts :: "SettlementJobKind \<Rightarrow> nat"

datatype SettlementAdmissionError = SA_RateLimited u64 | SA_Storage

record SettlementQuotaLimits =
  sql_window_seconds :: u64
  sql_global :: u16
  sql_per_principal :: u16
  sql_per_record :: u16

text \<open>Both lists of counts are keyed by bytes: the caller's principal, and the key of a record.\<close>

record SettlementAdmissionControl =
  sac_window_id :: u64
  sac_global_count :: u16
  sac_caller_counts :: "DepositCallerQuota list"
  sac_record_counts :: "DepositCallerQuota list"

record PrepaidQuota =
  pq_kind :: SettlementJobKind
  pq_settlement_id :: bytes
  pq_caller :: bytes

definition prepaid_consume :: "PrepaidQuota \<Rightarrow> SettlementJobKind \<Rightarrow> bytes \<Rightarrow> bytes \<Rightarrow> bool" where
  "prepaid_consume q kind settlement_id caller =
    (pq_kind q = kind \<and> pq_settlement_id q = settlement_id \<and> pq_caller q = caller)"

datatype SettlementClaimQuota =
    CQ_Charge SettlementQuotaLimits
  | CQ_Prepaid PrepaidQuota
  | CQ_Unmetered

definition into_limits ::
    "SettlementClaimQuota \<Rightarrow> SettlementJobKind \<Rightarrow> bytes \<Rightarrow> bytes
      \<Rightarrow> SettlementAdmissionError + SettlementQuotaLimits option" where
  "into_limits quota kind settlement_id caller = (case quota of
      CQ_Charge limits \<Rightarrow> Inr (Some limits)
    | CQ_Prepaid prepaid \<Rightarrow>
        if prepaid_consume prepaid kind settlement_id caller then Inr None else Inl SA_Storage
    | CQ_Unmetered \<Rightarrow> Inr None)"

datatype SettlementJobClaim = JC_Claimed SettlementJob | JC_ActiveLease u64 | JC_None

datatype ManualClaimTransaction =
    MT_Claimed SettlementJob
  | MT_AutomaticProgressPending "u64 option"
  | MT_Busy
  | MT_RateLimited u64

datatype ManualSettlementClaim =
    MC_Claimed SettlementJob
  | MC_AutomaticProgressPending "u64 option"
  | MC_Busy

subsection \<open>Rows and triggers\<close>

definition insert_job :: "settlement_table \<Rightarrow> SettlementJob \<Rightarrow> settlement_table db_result" where
  "insert_job t job =
    (let key = (sj_kind job, sj_settlement_id job) in
      if st_jobs t key \<noteq> None then Inl SqlFailure
      else Inr (t \<lparr> st_jobs := (st_jobs t)(key \<mapsto> job),
        st_status_counts := (st_status_counts t)(sj_status job := Suc (st_status_counts t (sj_status job))),
        st_kind_counts := (st_kind_counts t)(sj_kind job := Suc (st_kind_counts t (sj_kind job))) \<rparr>))"

definition move_status ::
    "(SettlementJobStatus \<Rightarrow> nat) \<Rightarrow> SettlementJobStatus \<Rightarrow> SettlementJobStatus
      \<Rightarrow> (SettlementJobStatus \<Rightarrow> nat) db_result" where
  "move_status counts old new =
    (if old = new then Inr counts
     else if counts old = 0 then Inl SqlFailure
     else let counts' = counts(old := counts old - 1) in Inr (counts'(new := Suc (counts' new))))"

text \<open>An update of one row; a key without a row changes nothing.\<close>

definition update_job ::
    "settlement_table \<Rightarrow> job_key \<Rightarrow> (SettlementJob \<Rightarrow> SettlementJob) \<Rightarrow> settlement_table db_result" where
  "update_job t key f = (case st_jobs t key of
      None \<Rightarrow> Inr t
    | Some job \<Rightarrow>
        map_result (\<lambda>counts. t \<lparr> st_jobs := (st_jobs t)(key \<mapsto> f job), st_status_counts := counts \<rparr>)
          (move_status (st_status_counts t) (sj_status job) (sj_status (f job))))"

definition delete_job :: "settlement_table \<Rightarrow> job_key \<Rightarrow> settlement_table db_result" where
  "delete_job t key = (case st_jobs t key of
      None \<Rightarrow> Inr t
    | Some job \<Rightarrow>
        if st_status_counts t (sj_status job) = 0 \<or> st_kind_counts t (sj_kind job) = 0 then Inl SqlFailure
        else Inr (t \<lparr> st_jobs := (st_jobs t)(key := None),
          st_status_counts := (st_status_counts t)(sj_status job := st_status_counts t (sj_status job) - 1),
          st_kind_counts := (st_kind_counts t)(sj_kind job := st_kind_counts t (sj_kind job) - 1) \<rparr>))"

definition enqueue_settlement_job ::
    "settlement_table \<Rightarrow> SettlementJobKind \<Rightarrow> bytes \<Rightarrow> u64 \<Rightarrow> settlement_table db_result" where
  "enqueue_settlement_job t kind settlement_id now_ns =
    (if st_jobs t (kind, settlement_id) = None
     then insert_job t \<lparr> sj_kind = kind, sj_settlement_id = settlement_id, sj_status = JS_Scheduled,
       sj_next_run_at_ns = Some now_ns, sj_attempts = 0, sj_lease_generation = 0,
       sj_lease_until_ns = None, sj_lease_lane = SL_Automatic, sj_last_error_code = None,
       sj_last_error_detail = None, sj_updated_at_ns = now_ns \<rparr>
     else update_job t (kind, settlement_id) (\<lambda>job. job \<lparr> sj_status := JS_Scheduled,
       sj_next_run_at_ns := Some now_ns, sj_attempts := 0, sj_lease_until_ns := None,
       sj_lease_lane := SL_Automatic, sj_last_error_code := None, sj_last_error_detail := None,
       sj_updated_at_ns := now_ns \<rparr>))"

definition lease_active :: "u64 \<Rightarrow> SettlementJob \<Rightarrow> bool" where
  "lease_active now_ns job = (sj_status job = JS_Leased
    \<and> (case sj_lease_until_ns job of None \<Rightarrow> False | Some deadline \<Rightarrow> now_ns < deadline))"

definition lease_expired :: "u64 \<Rightarrow> SettlementJob \<Rightarrow> bool" where
  "lease_expired now_ns job = (sj_status job = JS_Leased
    \<and> (case sj_lease_until_ns job of None \<Rightarrow> False | Some deadline \<Rightarrow> deadline \<le> now_ns))"

definition job_due :: "u64 \<Rightarrow> SettlementJob \<Rightarrow> bool" where
  "job_due now_ns job = (sj_status job = JS_Scheduled
    \<and> (case sj_next_run_at_ns job of None \<Rightarrow> False | Some deadline \<Rightarrow> deadline \<le> now_ns))"

definition active_in_lane :: "settlement_table \<Rightarrow> u64 \<Rightarrow> SettlementLeaseLane \<Rightarrow> nat" where
  "active_in_lane t now_ns lane =
    card {key \<in> dom (st_jobs t). lease_active now_ns (the (st_jobs t key))
      \<and> sj_lease_lane (the (st_jobs t key)) = lane}"

subsection \<open>Quotas\<close>

definition open_settlement_window ::
    "SettlementAdmissionControl \<Rightarrow> u64 \<Rightarrow> SettlementAdmissionControl" where
  "open_settlement_window a window_id =
    (if sac_window_id a \<noteq> window_id
     then \<lparr> sac_window_id = window_id, sac_global_count = 0, sac_caller_counts = [],
       sac_record_counts = [] \<rparr>
     else a)"

definition settlement_retry_after_seconds :: "u64 \<Rightarrow> u64 \<Rightarrow> u64" where
  "settlement_retry_after_seconds now_ns window_seconds =
    (let window_ns = saturating_mul window_seconds 1000000000; window_id = now_ns div window_ns
     in max (saturating_add (saturating_sub (saturating_mul (window_id + 1) window_ns) now_ns)
         999999999 div 1000000000) 1)"

definition charge_settlement_quota ::
    "SettlementAdmissionControl \<Rightarrow> bytes \<Rightarrow> bytes \<Rightarrow> u64 \<Rightarrow> SettlementQuotaLimits
      \<Rightarrow> (SettlementAdmissionError + SettlementAdmissionControl) option" where
  "charge_settlement_quota stored record_key caller now_ns limits =
    (let window_ns = saturating_mul (sql_window_seconds limits) 1000000000 in
      if window_ns = 0 then None
      else
        let a = open_settlement_window stored (now_ns div window_ns) in
        Some (if sql_global limits \<le> sac_global_count a
             \<or> sql_per_principal limits \<le> caller_count caller (sac_caller_counts a)
             \<or> sql_per_record limits \<le> caller_count record_key (sac_record_counts a)
           then Inl (SA_RateLimited (settlement_retry_after_seconds now_ns (sql_window_seconds limits)))
           else (case (checked_add (sac_global_count a) 1, bump_caller caller (sac_caller_counts a),
               bump_caller record_key (sac_record_counts a)) of
               (Some n, Inr callers, Inr records) \<Rightarrow>
                 Inr (a \<lparr> sac_global_count := n, sac_caller_counts := callers,
                   sac_record_counts := records \<rparr>)
             | _ \<Rightarrow> Inl SA_Storage)))"

definition reserve_settlement_quota ::
    "(SettlementAdmissionControl \<Rightarrow> bytes) \<Rightarrow> SettlementAdmissionControl \<Rightarrow> SettlementJobKind \<Rightarrow> bytes
      \<Rightarrow> bytes \<Rightarrow> u64 \<Rightarrow> SettlementQuotaLimits
      \<Rightarrow> (SettlementAdmissionError + PrepaidQuota \<times> SettlementAdmissionControl) option" where
  "reserve_settlement_quota enc stored kind settlement_id caller now_ns limits =
    map_option (\<lambda>r. try_bind r (\<lambda>a.
      if MAX_STABLE_VALUE_BYTES < length (enc a) then Inl SA_Storage
      else Inr (\<lparr> pq_kind = kind, pq_settlement_id = settlement_id, pq_caller = caller \<rparr>, a)))
    (charge_settlement_quota stored (settlement_record_key kind settlement_id) caller now_ns limits)"

subsection \<open>Manual claims\<close>

text \<open>What the row of the settlement decides before any lane or quota: None to go on.\<close>

definition manual_target_decision ::
    "SettlementJobKind \<Rightarrow> u64 \<Rightarrow> u64 \<Rightarrow> SettlementLeaseLane \<Rightarrow> SettlementJob
      \<Rightarrow> ManualClaimTransaction option" where
  "manual_target_decision kind now_ns overdue_after_ns lane job =
    (let scheduled = (sj_status job = JS_Scheduled);
         active = lease_active now_ns job;
         stopped = (sj_status job = JS_Stopped);
         overdue = (scheduled \<and> (case sj_next_run_at_ns job of None \<Rightarrow> False
           | Some deadline \<Rightarrow> saturating_add deadline overdue_after_ns \<le> now_ns));
         expired = lease_expired now_ns job
     in case lease_lane_claim_decision active (lane_sql (sj_lease_lane job) = lane_sql SL_Automatic)
          0 (lane_capacity lane) of
         LLC_AutomaticProgressPending \<Rightarrow>
           Some (if kind = SJ_Withdrawal then MT_Busy else MT_AutomaticProgressPending None)
       | LLC_Busy \<Rightarrow> Some MT_Busy
       | LLC_Allow \<Rightarrow>
           if manual_claim_decision (scheduled \<and> kind \<noteq> SJ_Withdrawal) active stopped overdue expired
             \<noteq> MCD_Allow
           then Some (MT_AutomaticProgressPending (sj_next_run_at_ns job)) else None)"

definition leased_job ::
    "SettlementJobKind \<Rightarrow> bytes \<Rightarrow> u8 \<Rightarrow> u64 \<Rightarrow> u64 \<Rightarrow> SettlementLeaseLane \<Rightarrow> u64 \<Rightarrow> SettlementJob" where
  "leased_job kind settlement_id attempts generation lease_until_ns lane now_ns =
    \<lparr> sj_kind = kind, sj_settlement_id = settlement_id, sj_status = JS_Leased,
      sj_next_run_at_ns = None, sj_attempts = attempts, sj_lease_generation = generation,
      sj_lease_until_ns = Some lease_until_ns, sj_lease_lane = lane, sj_last_error_code = None,
      sj_last_error_detail = None, sj_updated_at_ns = now_ns \<rparr>"

definition grant_manual_lease ::
    "settlement_table \<Rightarrow> SettlementJobKind \<Rightarrow> bytes \<Rightarrow> u64 \<Rightarrow> u64 \<Rightarrow> SettlementLeaseLane
      \<Rightarrow> (SettlementJob \<times> settlement_table) db_result" where
  "grant_manual_lease t kind settlement_id now_ns lease_until_ns lane =
    (let target = st_jobs t (kind, settlement_id) in
      try_bind (ok_or (Constraint ''lease generation overflow'')
        (checked_add (case target of None \<Rightarrow> 0 | Some job \<Rightarrow> sj_lease_generation job) 1)) (\<lambda>generation.
      let job = leased_job kind settlement_id
        (case target of None \<Rightarrow> 0 | Some job \<Rightarrow> sj_attempts job) generation lease_until_ns lane now_ns in
      map_result (Pair job) (case target of
          None \<Rightarrow> insert_job t job
        | Some _ \<Rightarrow> update_job t (kind, settlement_id) (\<lambda>row. row \<lparr> sj_status := JS_Leased,
            sj_next_run_at_ns := None, sj_lease_generation := generation,
            sj_lease_until_ns := Some lease_until_ns, sj_lease_lane := lane,
            sj_last_error_code := None, sj_last_error_detail := None, sj_updated_at_ns := now_ns \<rparr>))))"

definition claim_settlement_job_transaction ::
    "(SettlementAdmissionControl \<Rightarrow> bytes) \<Rightarrow> settlement_table \<Rightarrow> SettlementAdmissionControl
      \<Rightarrow> SettlementJobKind \<Rightarrow> bytes \<Rightarrow> bytes \<Rightarrow> u64 \<Rightarrow> u64 \<Rightarrow> u64 \<Rightarrow> SettlementQuotaLimits option
      \<Rightarrow> SettlementLeaseLane
      \<Rightarrow> (ManualClaimTransaction \<times> settlement_table \<times> SettlementAdmissionControl) db_result option" where
  "claim_settlement_job_transaction enc t stored kind settlement_id caller now_ns lease_until_ns
      overdue_after_ns limits lane =
    (case (case st_jobs t (kind, settlement_id) of None \<Rightarrow> None
        | Some job \<Rightarrow> manual_target_decision kind now_ns overdue_after_ns lane job) of
      Some outcome \<Rightarrow> Some (Inr (outcome, t, stored))
    | None \<Rightarrow>
        if lease_lane_claim_body False False (active_in_lane t now_ns lane)
          (unat (lane_capacity lane)) LLC_Allow LLC_AutomaticProgressPending LLC_Busy = LLC_Busy
        then Some (Inr (MT_Busy, t, stored))
        else (case limits of
            None \<Rightarrow> Some (map_result (\<lambda>(job, t'). (MT_Claimed job, t', stored))
              (grant_manual_lease t kind settlement_id now_ns lease_until_ns lane))
          | Some limits \<Rightarrow>
              map_option (\<lambda>charged. case charged of
                  Inl (SA_RateLimited seconds) \<Rightarrow> Inr (MT_RateLimited seconds, t, stored)
                | Inl SA_Storage \<Rightarrow> Inl (Constraint ''settlement quota overflow'')
                | Inr admission \<Rightarrow>
                    try_bind (grant_manual_lease t kind settlement_id now_ns lease_until_ns lane)
                      (\<lambda>(job, t').
                    if MAX_STABLE_VALUE_BYTES < length (enc admission)
                    then Inl (Constraint ''settlement quota encoding failed'')
                    else Inr (MT_Claimed job, t', admission)))
              (charge_settlement_quota stored (settlement_record_key kind settlement_id) caller now_ns
                limits)))"

definition manual_claim_outcome ::
    "ManualClaimTransaction \<Rightarrow> SettlementAdmissionError + ManualSettlementClaim" where
  "manual_claim_outcome outcome = (case outcome of
      MT_Claimed job \<Rightarrow> Inr (MC_Claimed job)
    | MT_AutomaticProgressPending next_run_at_ns \<Rightarrow> Inr (MC_AutomaticProgressPending next_run_at_ns)
    | MT_Busy \<Rightarrow> Inr MC_Busy
    | MT_RateLimited seconds \<Rightarrow> Inl (SA_RateLimited seconds))"

definition claim_settlement_job_with_mode ::
    "(SettlementAdmissionControl \<Rightarrow> bytes) \<Rightarrow> settlement_table \<Rightarrow> SettlementAdmissionControl
      \<Rightarrow> SettlementJobKind \<Rightarrow> bytes \<Rightarrow> bytes \<Rightarrow> u64 \<Rightarrow> u64 \<Rightarrow> u64 \<Rightarrow> SettlementClaimQuota
      \<Rightarrow> SettlementLeaseLane
      \<Rightarrow> (SettlementAdmissionError
          + ManualSettlementClaim \<times> settlement_table \<times> SettlementAdmissionControl) option" where
  "claim_settlement_job_with_mode enc t stored kind settlement_id caller now_ns lease_until_ns
      overdue_after_ns quota lane =
    (case into_limits quota kind settlement_id caller of
      Inl err \<Rightarrow> Some (Inl err)
    | Inr limits \<Rightarrow> map_option (\<lambda>r. case r of
          Inl _ \<Rightarrow> Inl SA_Storage
        | Inr (outcome, t', a) \<Rightarrow> map_result (\<lambda>claim. (claim, t', a)) (manual_claim_outcome outcome))
        (claim_settlement_job_transaction enc t stored kind settlement_id caller now_ns lease_until_ns
          overdue_after_ns limits lane))"

subsection \<open>Due jobs\<close>

text \<open>The candidates of the two due queries, as the columns they are ordered by.\<close>

definition due_keys ::
    "settlement_table \<Rightarrow> (SettlementJob \<Rightarrow> bool) \<Rightarrow> (SettlementJob \<Rightarrow> u64 option)
      \<Rightarrow> (u64 \<times> int \<times> bytes) set" where
  "due_keys t due deadline =
    {(the (deadline (the (st_jobs t key))), job_kind_sql (fst key), snd key) |
      key. key \<in> dom (st_jobs t) \<and> due (the (st_jobs t key))}"

definition query_due_settlement_candidate ::
    "settlement_table \<Rightarrow> (SettlementJob \<Rightarrow> bool) \<Rightarrow> (SettlementJob \<Rightarrow> u64 option)
      \<Rightarrow> (u64 \<times> int \<times> bytes) option" where
  "query_due_settlement_candidate t due deadline =
    (if due_keys t due deadline = {} then None else Some (Min (due_keys t due deadline)))"

definition kind_of_sql :: "int \<Rightarrow> SettlementJobKind" where
  "kind_of_sql n = (if n = 0 then SJ_Deposit else if n = 1 then SJ_Withdrawal else SJ_FeePayout)"

definition due_candidate :: "settlement_table \<Rightarrow> u64 \<Rightarrow> job_key option" where
  "due_candidate t now_ns =
    (let scheduled = query_due_settlement_candidate t (job_due now_ns) sj_next_run_at_ns;
         expired = query_due_settlement_candidate t (lease_expired now_ns) sj_lease_until_ns
     in map_option (\<lambda>(_, kind, settlement_id). (kind_of_sql kind, settlement_id))
       (case (scheduled, expired) of
         (Some s, Some e) \<Rightarrow> Some (if s \<le> e then s else e)
       | (Some s, None) \<Rightarrow> Some s
       | (None, e) \<Rightarrow> e))"

text \<open>Granting an automatic lease on a row that exists.\<close>

definition grant_automatic_lease ::
    "settlement_table \<Rightarrow> SettlementJob \<Rightarrow> job_key \<Rightarrow> u64 \<Rightarrow> u64
      \<Rightarrow> (SettlementJobClaim \<times> settlement_table) db_result" where
  "grant_automatic_lease t row key now_ns lease_until_ns =
    try_bind (ok_or (Constraint ''lease generation overflow'')
      (lease_generation_next (sj_lease_generation row))) (\<lambda>generation.
    map_result (Pair (JC_Claimed
        (leased_job (fst key) (snd key) (sj_attempts row) generation lease_until_ns SL_Automatic now_ns)))
      (update_job t key (\<lambda>row. row \<lparr> sj_status := JS_Leased, sj_next_run_at_ns := None,
        sj_lease_generation := generation, sj_lease_until_ns := Some lease_until_ns,
        sj_lease_lane := SL_Automatic, sj_updated_at_ns := now_ns \<rparr>)))"

definition claim_due_settlement_job ::
    "settlement_table \<Rightarrow> u64 \<Rightarrow> u64 \<Rightarrow> u64 \<Rightarrow> (SettlementJobClaim \<times> settlement_table) db_result" where
  "claim_due_settlement_job t now_ns lease_until_ns max_active_leases =
    (if max_active_leases = 0
     then Inl (Constraint ''automatic settlement concurrency must be positive'')
     else if unat max_active_leases \<le> active_in_lane t now_ns SL_Automatic
     then Inr (JC_ActiveLease (Min {the (sj_lease_until_ns job) | job key. st_jobs t key = Some job
       \<and> lease_active now_ns job \<and> sj_lease_lane job = SL_Automatic}), t)
     else (case due_candidate t now_ns of
         None \<Rightarrow> Inr (JC_None, t)
       | Some key \<Rightarrow>
           grant_automatic_lease t (the (st_jobs t key)) key now_ns lease_until_ns))"

definition claim_specific_due_settlement_job ::
    "settlement_table \<Rightarrow> SettlementJobKind \<Rightarrow> bytes \<Rightarrow> u64 \<Rightarrow> u64
      \<Rightarrow> (SettlementJobClaim \<times> settlement_table) db_result" where
  "claim_specific_due_settlement_job t kind settlement_id now_ns lease_until_ns =
    (case st_jobs t (kind, settlement_id) of
      None \<Rightarrow> Inr (JC_None, t)
    | Some job \<Rightarrow>
        if lease_active now_ns job then Inr (JC_ActiveLease (the (sj_lease_until_ns job)), t)
        else if job_due now_ns job \<or> lease_expired now_ns job
        then grant_automatic_lease t job (kind, settlement_id) now_ns lease_until_ns
        else Inr (JC_None, t))"

subsection \<open>Leases held by workers\<close>

definition renew_settlement_lease ::
    "settlement_table \<Rightarrow> SettlementJob \<Rightarrow> u64 \<Rightarrow> u64 \<Rightarrow> (bool \<times> SettlementJob \<times> settlement_table) db_result" where
  "renew_settlement_lease t job now_ns lease_until_ns =
    (let key = (sj_kind job, sj_settlement_id job) in
      case st_jobs t key of
        None \<Rightarrow> Inr (False, job, t)
      | Some row \<Rightarrow>
          if sj_status row = JS_Leased \<and> sj_lease_generation row = sj_lease_generation job
          then map_result (\<lambda>t'. (True, job \<lparr> sj_lease_until_ns := Some lease_until_ns,
              sj_updated_at_ns := now_ns \<rparr>, t'))
            (update_job t key (\<lambda>row. row \<lparr> sj_lease_until_ns := Some lease_until_ns,
              sj_updated_at_ns := now_ns \<rparr>))
          else Inr (False, job, t))"

definition current_lease_generation :: "settlement_table \<Rightarrow> SettlementJobKind \<Rightarrow> bytes \<Rightarrow> u64 option" where
  "current_lease_generation t kind settlement_id = (case st_jobs t (kind, settlement_id) of
      None \<Rightarrow> None
    | Some row \<Rightarrow> if sj_status row = JS_Leased then Some (sj_lease_generation row) else None)"

definition settlement_lease_is_current :: "settlement_table \<Rightarrow> SettlementJob \<Rightarrow> bool" where
  "settlement_lease_is_current t job =
    (case current_lease_generation t (sj_kind job) (sj_settlement_id job) of
      None \<Rightarrow> False
    | Some current \<Rightarrow> lease_outcome_decision current (sj_lease_generation job) True = LOD_Accept)"

text \<open>The job row of \<open>finish_settlement_job\<close>: the result is the table and whether the lease was current.\<close>

definition finish_job_row ::
    "settlement_table \<Rightarrow> SettlementJob \<Rightarrow> u64 option \<Rightarrow> u8 \<Rightarrow> (string \<times> string) option \<Rightarrow> u64
      \<Rightarrow> settlement_table db_result" where
  "finish_job_row t job next_run_at_ns attempts stop_error now_ns =
    (let key = (sj_kind job, sj_settlement_id job) in
      case stop_error of
        Some (code, detail) \<Rightarrow> update_job t key (\<lambda>row. row \<lparr> sj_status := JS_Stopped,
          sj_next_run_at_ns := None, sj_lease_until_ns := None, sj_attempts := attempts,
          sj_last_error_code := Some code, sj_last_error_detail := Some detail,
          sj_updated_at_ns := now_ns \<rparr>)
      | None \<Rightarrow> (case next_run_at_ns of
          Some next \<Rightarrow> update_job t key (\<lambda>row. row \<lparr> sj_status := JS_Scheduled,
            sj_next_run_at_ns := Some next, sj_lease_until_ns := None, sj_lease_lane := SL_Automatic,
            sj_attempts := attempts, sj_last_error_code := None, sj_last_error_detail := None,
            sj_updated_at_ns := now_ns \<rparr>)
        | None \<Rightarrow> delete_job t key))"

definition finish_if_current ::
    "settlement_table \<Rightarrow> SettlementJob \<Rightarrow> u64 option \<Rightarrow> u8 \<Rightarrow> (string \<times> string) option \<Rightarrow> u64
      \<Rightarrow> (bool \<times> settlement_table) db_result" where
  "finish_if_current t job next_run_at_ns attempts stop_error now_ns =
    (if current_lease_generation t (sj_kind job) (sj_settlement_id job) \<noteq> Some (sj_lease_generation job)
     then Inr (False, t)
     else map_result (Pair True) (finish_job_row t job next_run_at_ns attempts stop_error now_ns))"

definition next_settlement_wakeup_ns :: "settlement_table \<Rightarrow> u64 option" where
  "next_settlement_wakeup_ns t =
    (let times = {the (sj_next_run_at_ns job) | job key. st_jobs t key = Some job \<and> sj_status job = JS_Scheduled}
       \<union> {the (sj_lease_until_ns job) | job key. st_jobs t key = Some job \<and> sj_status job = JS_Leased}
     in if times = {} then None else Some (Min times))"

record SettlementJobSummary =
  sjs_scheduled :: nat
  sjs_leased :: nat
  sjs_stopped :: nat
  sjs_expired :: nat
  sjs_overdue :: bool
  sjs_next_wakeup_at_ns :: "u64 option"

definition settlement_job_summary :: "settlement_table \<Rightarrow> u64 \<Rightarrow> u64 \<Rightarrow> SettlementJobSummary" where
  "settlement_job_summary t now_ns overdue_after_ns =
    (let expired = card {key \<in> dom (st_jobs t). lease_expired now_ns (the (st_jobs t key))} in
      \<lparr> sjs_scheduled = st_status_counts t JS_Scheduled,
        sjs_leased = st_status_counts t JS_Leased - expired,
        sjs_stopped = st_status_counts t JS_Stopped,
        sjs_expired = expired,
        sjs_overdue = (\<exists>key \<in> dom (st_jobs t).
          job_due (saturating_sub now_ns overdue_after_ns) (the (st_jobs t key))),
        sjs_next_wakeup_at_ns = next_settlement_wakeup_ns t \<rparr>)"

section \<open>Invariant\<close>

text \<open>The check constraint of the table on the times of a row.\<close>

definition job_row_ok :: "SettlementJob \<Rightarrow> bool" where
  "job_row_ok job = (case sj_status job of
      JS_Scheduled \<Rightarrow> sj_next_run_at_ns job \<noteq> None \<and> sj_lease_until_ns job = None
    | JS_Leased \<Rightarrow> sj_next_run_at_ns job = None \<and> sj_lease_until_ns job \<noteq> None
    | JS_Stopped \<Rightarrow> sj_next_run_at_ns job = None \<and> sj_lease_until_ns job = None)"

definition rows_counted :: "(SettlementJob \<Rightarrow> bool) \<Rightarrow> (job_key \<Rightarrow> SettlementJob option) \<Rightarrow> nat" where
  "rows_counted P jobs = rows_sum (\<lambda>job. of_bool (P job)) jobs"

definition jobs_wf :: "settlement_table \<Rightarrow> bool" where
  "jobs_wf t = (finite (dom (st_jobs t))
    \<and> (\<forall>key job. st_jobs t key = Some job \<longrightarrow> key = (sj_kind job, sj_settlement_id job) \<and> job_row_ok job)
    \<and> (\<forall>s. st_status_counts t s = rows_counted (\<lambda>job. sj_status job = s) (st_jobs t))
    \<and> (\<forall>k. st_kind_counts t k = rows_counted (\<lambda>job. sj_kind job = k) (st_jobs t)))"

lemma rows_sum_delete:
  assumes "finite (dom m)"
  shows "rows_sum f (m(i := None)) + old_value f (m i) = rows_sum f m"
proof (cases "m i")
  case None
  then have "m(i := None) = m"
    by (simp add: fun_upd_idem)
  then show ?thesis
    using None by simp
next
  case (Some x)
  then have "m = (m(i := None))(i \<mapsto> x)"
    by (simp add: fun_eq_iff)
  then have "rows_sum f m = rows_sum f ((m(i := None))(i \<mapsto> x))"
    by simp
  also have "\<dots> = rows_sum f (m(i := None)) + f x"
    using rows_sum_update [of "m(i := None)" f i x] assms by simp
  finally show ?thesis
    using Some by simp
qed

lemma rows_counted_card:
  assumes "finite (dom jobs)"
  shows "rows_counted P jobs = card {key \<in> dom jobs. P (the (jobs key))}"
proof -
  have "rows_counted P jobs = card (dom jobs \<inter> {key. P (the (jobs key))})"
    using assms by (simp add: rows_counted_def rows_sum_def sum_of_bool_eq)
  also have "dom jobs \<inter> {key. P (the (jobs key))} = {key \<in> dom jobs. P (the (jobs key))}"
    by blast
  finally show ?thesis .
qed

lemma rows_counted_update:
  assumes "finite (dom jobs)"
  shows "rows_counted P (jobs(key \<mapsto> job)) + (case jobs key of None \<Rightarrow> 0 | Some old \<Rightarrow> of_bool (P old))
    = rows_counted P jobs + of_bool (P job)"
  using rows_sum_update [OF assms, of "\<lambda>job. of_bool (P job)" key job]
  by (simp add: rows_counted_def old_value_def)

lemma rows_counted_delete:
  assumes "finite (dom jobs)"
  shows "rows_counted P (jobs(key := None)) + (case jobs key of None \<Rightarrow> 0 | Some old \<Rightarrow> of_bool (P old))
    = rows_counted P jobs"
  using rows_sum_delete [OF assms, of "\<lambda>job. of_bool (P job)" key]
  by (simp add: rows_counted_def old_value_def)

lemma jobs_wfD:
  assumes "jobs_wf t"
  shows "finite (dom (st_jobs t))"
    and "st_jobs t key = Some job \<Longrightarrow> key = (sj_kind job, sj_settlement_id job)"
    and "st_jobs t key = Some job \<Longrightarrow> job_row_ok job"
    and "st_status_counts t s = rows_counted (\<lambda>job. sj_status job = s) (st_jobs t)"
    and "st_kind_counts t k = rows_counted (\<lambda>job. sj_kind job = k) (st_jobs t)"
  using assms unfolding jobs_wf_def by blast+

lemma jobs_wfI:
  assumes "finite (dom (st_jobs t))"
    and "\<And>key job. st_jobs t key = Some job \<Longrightarrow> key = (sj_kind job, sj_settlement_id job) \<and> job_row_ok job"
    and "\<And>s. st_status_counts t s = rows_counted (\<lambda>job. sj_status job = s) (st_jobs t)"
    and "\<And>k. st_kind_counts t k = rows_counted (\<lambda>job. sj_kind job = k) (st_jobs t)"
  shows "jobs_wf t"
  using assms unfolding jobs_wf_def by blast

lemma insert_job_wf:
  assumes "jobs_wf t" and "job_row_ok job" and "insert_job t job = Inr t'"
  shows "jobs_wf t' \<and> st_jobs t' = (st_jobs t)((sj_kind job, sj_settlement_id job) \<mapsto> job)
    \<and> st_jobs t (sj_kind job, sj_settlement_id job) = None"
proof -
  let ?key = "(sj_kind job, sj_settlement_id job)"
  have none: "st_jobs t ?key = None" and t': "t' = t \<lparr> st_jobs := (st_jobs t)(?key \<mapsto> job),
      st_status_counts := (st_status_counts t)(sj_status job := Suc (st_status_counts t (sj_status job))),
      st_kind_counts := (st_kind_counts t)(sj_kind job := Suc (st_kind_counts t (sj_kind job))) \<rparr>"
    using assms(3) by (auto simp: insert_job_def Let_def split: if_splits)
  have fin: "finite (dom (st_jobs t))"
    using assms(1) by (simp add: jobs_wf_def)
  have "rows_counted P ((st_jobs t)(?key \<mapsto> job)) = rows_counted P (st_jobs t) + of_bool (P job)" for P
    using rows_counted_update [OF fin, of P ?key job] none by simp
  then show ?thesis
    using assms(1,2) none by (auto simp: jobs_wf_def t' split: if_splits)
qed

lemma move_status_ok:
  assumes "0 < counts old"
  obtains c where "move_status counts old new = Inr c"
    "\<And>s. c s + of_bool (old = s) = counts s + of_bool (new = s)"
proof (cases "old = new")
  case True
  then show thesis
    using that [of counts] by (simp add: move_status_def)
next
  case False
  let ?c = "(counts(old := counts old - 1))(new := Suc (counts new))"
  have "?c s + of_bool (old = s) = counts s + of_bool (new = s)" for s
    using False assms by auto
  then show thesis
    using that [of ?c] False assms by (simp add: move_status_def)
qed

lemma update_job_wf:
  assumes wf: "jobs_wf t" and row: "st_jobs t key = Some job"
    and ok: "job_row_ok (f job)" "sj_kind (f job) = sj_kind job"
      "sj_settlement_id (f job) = sj_settlement_id job"
  shows "\<exists>t'. update_job t key f = Inr t' \<and> jobs_wf t' \<and> st_jobs t' = (st_jobs t)(key \<mapsto> f job)"
proof -
  have fin: "finite (dom (st_jobs t))" and key: "key = (sj_kind job, sj_settlement_id job)"
    and counts: "\<And>s. st_status_counts t s = rows_counted (\<lambda>job. sj_status job = s) (st_jobs t)"
    and kinds: "\<And>k. st_kind_counts t k = rows_counted (\<lambda>job. sj_kind job = k) (st_jobs t)"
    using jobs_wfD [OF wf] row by blast+
  have upd: "rows_counted P ((st_jobs t)(key \<mapsto> f job)) + of_bool (P job)
      = rows_counted P (st_jobs t) + of_bool (P (f job))" for P
    using rows_counted_update [OF fin, of P key "f job"] row by simp
  have "0 < st_status_counts t (sj_status job)"
    using upd [of "\<lambda>j. sj_status j = sj_status job"] rows_sum_ge [OF fin row, of "\<lambda>j. of_bool (sj_status j = sj_status job)"]
    by (simp add: counts rows_counted_def)
  then obtain c where c: "move_status (st_status_counts t) (sj_status job) (sj_status (f job)) = Inr c"
    and c': "\<And>s. c s + of_bool (sj_status job = s) = st_status_counts t s + of_bool (sj_status (f job) = s)"
    by (rule move_status_ok) blast
  let ?t = "t \<lparr> st_jobs := (st_jobs t)(key \<mapsto> f job), st_status_counts := c \<rparr>"
  have "c s = rows_counted (\<lambda>job. sj_status job = s) ((st_jobs t)(key \<mapsto> f job))" for s
    using c' [of s] upd [of "\<lambda>j. sj_status j = s"] counts [of s] by simp
  moreover have "st_kind_counts t k = rows_counted (\<lambda>job. sj_kind job = k) ((st_jobs t)(key \<mapsto> f job))" for k
    using upd [of "\<lambda>j. sj_kind j = k"] kinds [of k] ok(2) by simp
  ultimately have "jobs_wf ?t"
    using wf ok key by (auto simp: jobs_wf_def split: if_splits)
  then show ?thesis
    using row c by (simp add: update_job_def map_result_def)
qed

lemma delete_job_wf:
  assumes wf: "jobs_wf t"
  shows "\<exists>t'. delete_job t key = Inr t' \<and> jobs_wf t' \<and> st_jobs t' = (st_jobs t)(key := None)"
proof (cases "st_jobs t key")
  case None
  then show ?thesis
    using wf by (simp add: delete_job_def fun_upd_idem)
next
  case (Some job)
  have fin: "finite (dom (st_jobs t))"
    and counts: "\<And>s. st_status_counts t s = rows_counted (\<lambda>job. sj_status job = s) (st_jobs t)"
    and kinds: "\<And>k. st_kind_counts t k = rows_counted (\<lambda>job. sj_kind job = k) (st_jobs t)"
    using jobs_wfD [OF wf] by blast+
  have del: "rows_counted P ((st_jobs t)(key := None)) + of_bool (P job) = rows_counted P (st_jobs t)" for P
    using rows_counted_delete [OF fin, of P key] Some by simp
  have pos: "0 < st_status_counts t (sj_status job)" "0 < st_kind_counts t (sj_kind job)"
    using del [of "\<lambda>j. sj_status j = sj_status job"] del [of "\<lambda>j. sj_kind j = sj_kind job"]
    by (simp_all add: counts kinds)
  let ?t = "t \<lparr> st_jobs := (st_jobs t)(key := None),
      st_status_counts := (st_status_counts t)(sj_status job := st_status_counts t (sj_status job) - 1),
      st_kind_counts := (st_kind_counts t)(sj_kind job := st_kind_counts t (sj_kind job) - 1) \<rparr>"
  have status: "((st_status_counts t)(sj_status job := st_status_counts t (sj_status job) - 1)) s
      = rows_counted (\<lambda>job. sj_status job = s) ((st_jobs t)(key := None))" for s
    using del [of "\<lambda>j. sj_status j = s"] counts [of s] by auto
  have kind: "((st_kind_counts t)(sj_kind job := st_kind_counts t (sj_kind job) - 1)) k
      = rows_counted (\<lambda>job. sj_kind job = k) ((st_jobs t)(key := None))" for k
    using del [of "\<lambda>j. sj_kind j = k"] kinds [of k] by auto
  have "jobs_wf ?t"
  proof (rule jobs_wfI)
    show "finite (dom (st_jobs ?t))"
      using fin by simp
    show "k = (sj_kind j, sj_settlement_id j) \<and> job_row_ok j" if "st_jobs ?t k = Some j" for k j
      using that jobs_wfD(2,3) [OF wf, of k j] by (simp split: if_splits)
    show "st_status_counts ?t s = rows_counted (\<lambda>job. sj_status job = s) (st_jobs ?t)" for s
      using status [of s] by simp
    show "st_kind_counts ?t k = rows_counted (\<lambda>job. sj_kind job = k) (st_jobs ?t)" for k
      using kind [of k] by simp
  qed
  then show ?thesis
    using Some pos by (simp add: delete_job_def)
qed

section \<open>Operations on the rows\<close>

datatype job_op =
    EnqueueJob SettlementJobKind bytes u64
  | ClaimManual SettlementJobKind bytes bytes u64 u64 u64 SettlementClaimQuota SettlementLeaseLane
  | ClaimDue u64 u64 u64
  | ClaimSpecific SettlementJobKind bytes u64 u64
  | RenewLease SettlementJob u64 u64
  | FinishJob SettlementJob "u64 option" u8 "(string \<times> string) option" u64

text \<open>One call of the store: the lease it granted, if any, and the tables after it.  A call that
  fails leaves them as they were.\<close>

definition job_step ::
    "(SettlementAdmissionControl \<Rightarrow> bytes) \<Rightarrow> settlement_table \<times> SettlementAdmissionControl \<Rightarrow> job_op
      \<Rightarrow> SettlementJob option \<times> settlement_table \<times> SettlementAdmissionControl" where
  "job_step enc s opr = (case opr of
      EnqueueJob kind i now \<Rightarrow>
        (case enqueue_settlement_job (fst s) kind i now of Inl _ \<Rightarrow> (None, s) | Inr t \<Rightarrow> (None, t, snd s))
    | ClaimManual kind i caller now until overdue quota lane \<Rightarrow>
        (case claim_settlement_job_with_mode enc (fst s) (snd s) kind i caller now until overdue quota lane of
          Some (Inr (claim, s')) \<Rightarrow> (case claim of MC_Claimed job \<Rightarrow> (Some job, s') | _ \<Rightarrow> (None, s'))
        | _ \<Rightarrow> (None, s))
    | ClaimDue now until max_active \<Rightarrow>
        (case claim_due_settlement_job (fst s) now until max_active of
          Inr (claim, t) \<Rightarrow> (case claim of JC_Claimed job \<Rightarrow> (Some job, t, snd s) | _ \<Rightarrow> (None, t, snd s))
        | Inl _ \<Rightarrow> (None, s))
    | ClaimSpecific kind i now until \<Rightarrow>
        (case claim_specific_due_settlement_job (fst s) kind i now until of
          Inr (claim, t) \<Rightarrow> (case claim of JC_Claimed job \<Rightarrow> (Some job, t, snd s) | _ \<Rightarrow> (None, t, snd s))
        | Inl _ \<Rightarrow> (None, s))
    | RenewLease job now until \<Rightarrow>
        (case renew_settlement_lease (fst s) job now until of
          Inl _ \<Rightarrow> (None, s) | Inr (_, _, t) \<Rightarrow> (None, t, snd s))
    | FinishJob job next_run attempts stop_error now \<Rightarrow>
        (case finish_if_current (fst s) job next_run attempts stop_error now of
          Inl _ \<Rightarrow> (None, s) | Inr (_, t) \<Rightarrow> (None, t, snd s)))"

definition job_time :: "job_op \<Rightarrow> u64" where
  "job_time opr = (case opr of EnqueueJob _ _ now \<Rightarrow> now | ClaimManual _ _ _ now _ _ _ _ \<Rightarrow> now
    | ClaimDue now _ _ \<Rightarrow> now | ClaimSpecific _ _ now _ \<Rightarrow> now | RenewLease _ now _ \<Rightarrow> now
    | FinishJob _ _ _ _ now \<Rightarrow> now)"

definition row_generation :: "SettlementJob option \<Rightarrow> nat" where
  "row_generation r = (case r of None \<Rightarrow> 0 | Some job \<Rightarrow> unat (sj_lease_generation job))"

text \<open>What one call does to the row of one settlement: the specification of a lease.\<close>

inductive row_step :: "u64 \<Rightarrow> SettlementJob option \<Rightarrow> SettlementJob option \<Rightarrow> SettlementJob option \<Rightarrow> bool" where
  row_created: "sj_status r = JS_Scheduled \<Longrightarrow> sj_lease_generation r = 0 \<Longrightarrow>
    row_step now None None (Some r)"
| row_kept: "sj_lease_generation r' = sj_lease_generation r \<Longrightarrow> row_step now None (Some r) (Some r')"
| row_leased: "(\<And>r. x = Some r \<Longrightarrow> \<not> lease_active now r) \<Longrightarrow> sj_status r' = JS_Leased \<Longrightarrow>
    unat (sj_lease_generation r') = Suc (row_generation x) \<Longrightarrow>
    sj_lease_generation job = sj_lease_generation r' \<Longrightarrow> sj_kind job = sj_kind r' \<Longrightarrow>
    sj_settlement_id job = sj_settlement_id r' \<Longrightarrow> sj_lease_until_ns job = sj_lease_until_ns r' \<Longrightarrow>
    sj_lease_lane job = sj_lease_lane r' \<Longrightarrow> row_step now (Some job) x (Some r')"
| row_removed: "sj_status r = JS_Leased \<Longrightarrow> row_step now None (Some r) None"

inductive_cases row_step_grantE: "row_step now (Some job) x y"
inductive_cases row_step_keepE: "row_step now None x y"

lemma row_step_generation:
  assumes "row_step now g x (Some r)"
  shows "row_generation x \<le> unat (sj_lease_generation r)"
  using assms by (cases rule: row_step.cases) (auto simp: row_generation_def)

text \<open>A call changes the row of at most one settlement, by a step of the specification.\<close>

definition rows_step ::
    "u64 \<Rightarrow> SettlementJob option \<Rightarrow> settlement_table \<Rightarrow> settlement_table \<Rightarrow> bool" where
  "rows_step now g t t' = (jobs_wf t'
    \<and> (case g of
        None \<Rightarrow> t' = t \<or> (\<exists>key y. st_jobs t' = (st_jobs t)(key := y) \<and> row_step now None (st_jobs t key) y)
      | Some job \<Rightarrow> let key = (sj_kind job, sj_settlement_id job) in
          \<exists>r. st_jobs t' = (st_jobs t)(key \<mapsto> r) \<and> row_step now g (st_jobs t key) (Some r)))"

lemma rows_step_refl: "jobs_wf t \<Longrightarrow> rows_step now None t t"
  by (simp add: rows_step_def)

lemma rows_stepI_update:
  assumes wf: "jobs_wf t" and row: "st_jobs t key = Some job" and ok: "update_job t key f = Inr t'"
    and f: "job_row_ok (f job)" "sj_kind (f job) = sj_kind job"
      "sj_settlement_id (f job) = sj_settlement_id job"
      "sj_lease_generation (f job) = sj_lease_generation job"
  shows "rows_step now None t t'"
proof -
  have t': "jobs_wf t'" "st_jobs t' = (st_jobs t)(key \<mapsto> f job)"
    using update_job_wf [of t key job f, OF wf row f(1-3)] ok by auto
  moreover have "row_step now None (st_jobs t key) (Some (f job))"
    unfolding row using f(4) by (rule row_kept)
  ultimately show ?thesis
    unfolding rows_step_def option.case by blast
qed

lemma enqueue_rows:
  assumes wf: "jobs_wf t" and ok: "enqueue_settlement_job t kind i now = Inr t'"
  shows "rows_step now None t t'"
proof (cases "st_jobs t (kind, i)")
  case None
  let ?job = "\<lparr> sj_kind = kind, sj_settlement_id = i, sj_status = JS_Scheduled,
    sj_next_run_at_ns = Some now, sj_attempts = 0, sj_lease_generation = 0, sj_lease_until_ns = None,
    sj_lease_lane = SL_Automatic, sj_last_error_code = None, sj_last_error_detail = None,
    sj_updated_at_ns = now \<rparr>"
  have "insert_job t ?job = Inr t'"
    using ok None by (simp add: enqueue_settlement_job_def)
  then have "jobs_wf t'" "st_jobs t' = (st_jobs t)((kind, i) \<mapsto> ?job)"
    using insert_job_wf [OF wf, of ?job t'] by (simp_all add: job_row_ok_def)
  moreover have "row_step now None (st_jobs t (kind, i)) (Some ?job)"
    unfolding None by (rule row_created) simp_all
  ultimately show ?thesis
    unfolding rows_step_def option.case by blast
next
  case (Some job)
  then show ?thesis
    using ok
    by (simp add: enqueue_settlement_job_def)
      (erule rows_stepI_update [OF wf Some]; simp add: job_row_ok_def)
qed

lemma renew_rows:
  assumes wf: "jobs_wf t" and ok: "renew_settlement_lease t job now until = Inr (renewed, job', t')"
  shows "rows_step now None t t'"
proof (cases "st_jobs t (sj_kind job, sj_settlement_id job)")
  case None
  then show ?thesis
    using ok wf by (simp add: renew_settlement_lease_def rows_step_refl)
next
  case (Some row)
  show ?thesis
  proof (cases "sj_status row = JS_Leased \<and> sj_lease_generation row = sj_lease_generation job")
    case True
    then have "update_job t (sj_kind job, sj_settlement_id job) (\<lambda>row. row
        \<lparr> sj_lease_until_ns := Some until, sj_updated_at_ns := now \<rparr>) = Inr t'"
      using ok Some by (auto simp: renew_settlement_lease_def map_result_eq_Inr)
    then show ?thesis
      by (rule rows_stepI_update [OF wf Some])
        (use jobs_wfD(3) [OF wf Some] True in \<open>simp_all add: job_row_ok_def\<close>)
  next
    case False
    then show ?thesis
      using ok wf Some by (auto simp: renew_settlement_lease_def rows_step_refl)
  qed
qed

lemma finish_rows:
  assumes wf: "jobs_wf t" and ok: "finish_if_current t job next_run attempts stop_error now = Inr (current, t')"
  shows "rows_step now None t t'"
proof (cases "current_lease_generation t (sj_kind job) (sj_settlement_id job) = Some (sj_lease_generation job)")
  case False
  then show ?thesis
    using ok wf by (simp add: finish_if_current_def rows_step_refl)
next
  case True
  then obtain row where row: "st_jobs t (sj_kind job, sj_settlement_id job) = Some row"
    "sj_status row = JS_Leased"
    by (auto simp: current_lease_generation_def split: option.splits if_splits)
  have fin: "finish_job_row t job next_run attempts stop_error now = Inr t'"
    using ok True by (auto simp: finish_if_current_def map_result_eq_Inr)
  show ?thesis
  proof (cases "stop_error = None \<and> next_run = None")
    case True
    then have "delete_job t (sj_kind job, sj_settlement_id job) = Inr t'"
      using fin by (simp add: finish_job_row_def)
    then have "jobs_wf t'" "st_jobs t' = (st_jobs t)((sj_kind job, sj_settlement_id job) := None)"
      using delete_job_wf [OF wf, of "(sj_kind job, sj_settlement_id job)"] by auto
    moreover have "row_step now None (st_jobs t (sj_kind job, sj_settlement_id job)) None"
      unfolding row(1) using row(2) by (rule row_removed)
    ultimately show ?thesis
      unfolding rows_step_def option.case by blast
  next
    case False
    show ?thesis
    proof (cases stop_error)
      case None
      then obtain next' where "next_run = Some next'"
        using False by auto
      then show ?thesis
        using fin None
        by (simp add: finish_job_row_def)
          (erule rows_stepI_update [OF wf row(1)]; simp add: job_row_ok_def)
    next
      case (Some e)
      obtain code detail where "e = (code, detail)"
        by (cases e)
      then show ?thesis
        using fin Some
        by (simp add: finish_job_row_def)
          (erule rows_stepI_update [OF wf row(1)]; simp add: job_row_ok_def)
    qed
  qed
qed

lemma manual_grant_rows:
  assumes wf: "jobs_wf t" and ok: "grant_manual_lease t kind i now until lane = Inr (job, t')"
    and free: "\<And>r. st_jobs t (kind, i) = Some r \<Longrightarrow> \<not> lease_active now r"
  shows "rows_step now (Some job) t t'" and "sj_kind job = kind" and "sj_settlement_id job = i"
proof -
  let ?row = "st_jobs t (kind, i)"
  obtain g where g: "checked_add (case ?row of None \<Rightarrow> 0 | Some r \<Rightarrow> sj_lease_generation r) 1 = Some g"
    and job: "job = leased_job kind i (case ?row of None \<Rightarrow> 0 | Some r \<Rightarrow> sj_attempts r) g until lane now"
    and t': "(case ?row of None \<Rightarrow> insert_job t job
        | Some _ \<Rightarrow> update_job t (kind, i) (\<lambda>row. row \<lparr> sj_status := JS_Leased,
            sj_next_run_at_ns := None, sj_lease_generation := g, sj_lease_until_ns := Some until,
            sj_lease_lane := lane, sj_last_error_code := None, sj_last_error_detail := None,
            sj_updated_at_ns := now \<rparr>)) = Inr t'"
    using ok unfolding grant_manual_lease_def Let_def try_bind_eq_Inr ok_or_eq_Inr map_result_eq_Inr
    by blast
  have gen: "unat g = Suc (row_generation ?row)"
    using g by (cases ?row) (simp_all add: checked_add_eq_Some row_generation_def)
  have fields: "sj_kind job = kind" "sj_settlement_id job = i" "sj_status job = JS_Leased"
    "sj_lease_generation job = g" "job_row_ok job"
    by (simp_all add: job leased_job_def job_row_ok_def)
  have "jobs_wf t' \<and> st_jobs t' = (st_jobs t)((kind, i) \<mapsto> job)"
  proof (cases ?row)
    case None
    then show ?thesis
      using t' insert_job_wf [OF wf fields(5), of t'] fields by simp
  next
    case (Some r)
    have r: "sj_kind r = kind" "sj_settlement_id r = i"
      using jobs_wfD(2) [OF wf Some] by simp_all
    let ?f = "\<lambda>row. row \<lparr> sj_status := JS_Leased, sj_next_run_at_ns := None, sj_lease_generation := g,
      sj_lease_until_ns := Some until, sj_lease_lane := lane, sj_last_error_code := None,
      sj_last_error_detail := None, sj_updated_at_ns := now \<rparr>"
    have "?f r = job"
      using r Some by (cases r) (simp add: job leased_job_def)
    then show ?thesis
      using update_job_wf [of t "(kind, i)" r ?f, OF wf Some] fields r t' Some by auto
  qed
  moreover have "row_step now (Some job) ?row (Some job)"
    by (rule row_leased) (use free gen fields in simp_all)
  ultimately show "rows_step now (Some job) t t'"
    using fields by (auto simp: rows_step_def Let_def)
  show "sj_kind job = kind" "sj_settlement_id job = i"
    by (fact fields)+
qed

lemma automatic_grant_rows:
  assumes wf: "jobs_wf t" and row: "st_jobs t key = Some row" and free: "\<not> lease_active now row"
    and ok: "grant_automatic_lease t row key now until = Inr (claim, t')"
  obtains job where "claim = JC_Claimed job" "rows_step now (Some job) t t'"
    "(sj_kind job, sj_settlement_id job) = key" "sj_lease_lane job = SL_Automatic"
    "sj_lease_until_ns job = Some until"
proof -
  obtain g where g: "lease_generation_next (sj_lease_generation row) = Some g"
    and claim: "claim = JC_Claimed (leased_job (fst key) (snd key) (sj_attempts row) g until SL_Automatic now)"
    and t': "update_job t key (\<lambda>row. row \<lparr> sj_status := JS_Leased, sj_next_run_at_ns := None,
        sj_lease_generation := g, sj_lease_until_ns := Some until, sj_lease_lane := SL_Automatic,
        sj_updated_at_ns := now \<rparr>) = Inr t'"
    using ok unfolding grant_automatic_lease_def try_bind_eq_Inr ok_or_eq_Inr map_result_eq_Inr by blast
  let ?f = "\<lambda>row. row \<lparr> sj_status := JS_Leased, sj_next_run_at_ns := None,
        sj_lease_generation := g, sj_lease_until_ns := Some until, sj_lease_lane := SL_Automatic,
        sj_updated_at_ns := now \<rparr>"
  let ?job = "leased_job (fst key) (snd key) (sj_attempts row) g until SL_Automatic now"
  have key: "key = (sj_kind row, sj_settlement_id row)"
    by (rule jobs_wfD(2) [OF wf row])
  have "jobs_wf t' \<and> st_jobs t' = (st_jobs t)(key \<mapsto> ?f row)"
    using update_job_wf [of t key row ?f, OF wf row] t' by (auto simp: job_row_ok_def)
  moreover have "row_step now (Some ?job) (st_jobs t key) (Some (?f row))"
    unfolding row by (rule row_leased)
      (use free g key in \<open>simp_all add: leased_job_def row_generation_def counter_steps_exact\<close>)
  ultimately have "rows_step now (Some ?job) t t'"
    using key by (auto simp: rows_step_def Let_def leased_job_def)
  then show thesis
    using that [of ?job] claim by (simp add: leased_job_def)
qed

lemma manual_target_free:
  assumes "manual_target_decision kind now overdue lane r = None"
  shows "\<not> lease_active now r"
  using assms
  by (auto simp: manual_target_decision_def Let_def lease_lane_claim_decision_def lease_lane_claim_body_def
      split: if_splits)

lemma kind_roundtrip [simp]: "kind_of_sql (job_kind_sql kind) = kind"
  by (cases kind) (simp_all add: kind_of_sql_def job_kind_sql_def)

lemma due_keys_finite: "jobs_wf t \<Longrightarrow> finite (due_keys t due deadline)"
proof -
  assume "jobs_wf t"
  then have "finite ((\<lambda>key. (the (deadline (the (st_jobs t key))), job_kind_sql (fst key), snd key))
      ` dom (st_jobs t))"
    using jobs_wfD(1) by blast
  then show ?thesis
    by (rule rev_finite_subset) (auto simp: due_keys_def)
qed

lemma query_due_Some:
  assumes "jobs_wf t" and "query_due_settlement_candidate t due deadline = Some (d, k, i)"
  shows "\<exists>row. st_jobs t (kind_of_sql k, i) = Some row \<and> due row \<and> d = the (deadline row)"
    and "\<And>key row. st_jobs t key = Some row \<Longrightarrow> due row \<Longrightarrow>
      (d, k, i) \<le> (the (deadline row), job_kind_sql (fst key), snd key)"
proof -
  have ne: "due_keys t due deadline \<noteq> {}" and m: "(d, k, i) = Min (due_keys t due deadline)"
    using assms(2) by (auto simp: query_due_settlement_candidate_def split: if_splits)
  have "(d, k, i) \<in> due_keys t due deadline"
    unfolding m using due_keys_finite [OF assms(1)] ne by (rule Min_in)
  then show "\<exists>row. st_jobs t (kind_of_sql k, i) = Some row \<and> due row \<and> d = the (deadline row)"
    by (auto simp: due_keys_def)
  show "(d, k, i) \<le> (the (deadline row), job_kind_sql (fst key), snd key)"
    if "st_jobs t key = Some row" "due row" for key row
    unfolding m
  proof (rule Min_le [OF due_keys_finite [OF assms(1)]])
    show "(the (deadline row), job_kind_sql (fst key), snd key) \<in> due_keys t due deadline"
      unfolding due_keys_def using that by force
  qed
qed

lemma query_due_None:
  "query_due_settlement_candidate t due deadline = None \<Longrightarrow> st_jobs t key = Some row \<Longrightarrow> \<not> due row"
  by (cases key) (force simp: query_due_settlement_candidate_def due_keys_def split: if_splits)

text \<open>The time at which a row wants to run: its schedule, or the end of its lease.\<close>

definition row_deadline :: "SettlementJob \<Rightarrow> u64 option" where
  "row_deadline job = (case sj_status job of
      JS_Scheduled \<Rightarrow> sj_next_run_at_ns job | JS_Leased \<Rightarrow> sj_lease_until_ns job | JS_Stopped \<Rightarrow> None)"

definition row_ready :: "u64 \<Rightarrow> SettlementJob \<Rightarrow> bool" where
  "row_ready now job = (case row_deadline job of None \<Rightarrow> False | Some d \<Rightarrow> d \<le> now)"

lemma row_ready_iff: "row_ready now job \<longleftrightarrow> job_due now job \<or> lease_expired now job"
  by (cases "sj_status job") (auto simp: row_ready_def row_deadline_def job_due_def lease_expired_def)

lemma row_ready_free: "row_ready now job \<Longrightarrow> \<not> lease_active now job"
  by (auto simp: row_ready_iff job_due_def lease_expired_def lease_active_def split: option.splits)

lemma deadline_of_kind:
  "job_due now job \<Longrightarrow> row_deadline job = sj_next_run_at_ns job"
  "lease_expired now job \<Longrightarrow> row_deadline job = sj_lease_until_ns job"
  by (simp_all add: row_deadline_def job_due_def lease_expired_def)

lemma fst_le_of_le: "(a, b) \<le> (c, d) \<Longrightarrow> a \<le> (c :: 'a::order)"
  by (auto simp: less_eq_prod_def)

text \<open>A due query finds the least deadline among its rows.\<close>

lemma query_due_first:
  assumes wf: "jobs_wf t" and q: "query_due_settlement_candidate t due deadline = Some c"
    and due: "\<And>row. due row \<Longrightarrow> row_ready now row \<and> row_deadline row = deadline row"
  obtains row where "st_jobs t (kind_of_sql (fst (snd c)), snd (snd c)) = Some row" "row_ready now row"
    "fst c = the (row_deadline row)"
    "\<And>key' row'. st_jobs t key' = Some row' \<Longrightarrow> due row' \<Longrightarrow> fst c \<le> the (row_deadline row')"
proof -
  obtain d k i where c: "c = (d, k, i)"
    by (cases c)
  note found = query_due_Some [OF wf q [unfolded c]]
  obtain row where row: "st_jobs t (kind_of_sql k, i) = Some row" "due row" "d = the (deadline row)"
    using found(1) by blast
  show thesis
  proof (rule that)
    show "st_jobs t (kind_of_sql (fst (snd c)), snd (snd c)) = Some row" "row_ready now row"
      "fst c = the (row_deadline row)"
      using row due [OF row(2)] by (simp_all add: c)
    show "fst c \<le> the (row_deadline row')" if "st_jobs t key' = Some row'" "due row'" for key' row'
      using fst_le_of_le [OF found(2) [OF that]] due [OF that(2)] by (simp add: c)
  qed
qed

lemma due_candidate_Some:
  assumes wf: "jobs_wf t" and cand: "due_candidate t now = Some key"
  obtains row where "st_jobs t key = Some row" "row_ready now row"
    "\<And>key' row'. st_jobs t key' = Some row' \<Longrightarrow> row_ready now row' \<Longrightarrow>
      the (row_deadline row) \<le> the (row_deadline row')"
proof -
  let ?s = "query_due_settlement_candidate t (job_due now) sj_next_run_at_ns"
  let ?e = "query_due_settlement_candidate t (lease_expired now) sj_lease_until_ns"
  let ?key = "\<lambda>c. (kind_of_sql (fst (snd c)), snd (snd c))"
  have s: "\<exists>row. st_jobs t (?key c) = Some row \<and> row_ready now row \<and> fst c = the (row_deadline row)
      \<and> (\<forall>key' row'. st_jobs t key' = Some row' \<longrightarrow> job_due now row' \<longrightarrow> fst c \<le> the (row_deadline row'))"
    if "?s = Some c" for c
    by (rule query_due_first [OF wf that, of now]) (auto simp: row_ready_iff deadline_of_kind)
  have e: "\<exists>row. st_jobs t (?key c) = Some row \<and> row_ready now row \<and> fst c = the (row_deadline row)
      \<and> (\<forall>key' row'. st_jobs t key' = Some row' \<longrightarrow> lease_expired now row' \<longrightarrow> fst c \<le> the (row_deadline row'))"
    if "?e = Some c" for c
    by (rule query_due_first [OF wf that, of now]) (auto simp: row_ready_iff deadline_of_kind)
  have "\<exists>c row. key = ?key c \<and> st_jobs t (?key c) = Some row \<and> row_ready now row
      \<and> fst c = the (row_deadline row)
      \<and> (\<forall>key' row'. st_jobs t key' = Some row' \<longrightarrow> row_ready now row' \<longrightarrow> fst c \<le> the (row_deadline row'))"
  proof (cases ?s)
    case None
    then obtain c where c: "?e = Some c" "key = ?key c"
      using cand by (auto simp: due_candidate_def)
    show ?thesis
      using e [OF c(1)] c(2) query_due_None [OF None] unfolding row_ready_iff by blast
  next
    case S: (Some a)
    show ?thesis
    proof (cases ?e)
      case None
      then have "key = ?key a"
        using S cand by (auto simp: due_candidate_def split: prod.splits)
      then show ?thesis
        using s [OF S] query_due_None [OF None] unfolding row_ready_iff by blast
    next
      case E: (Some b)
      have key: "key = ?key (if a \<le> b then a else b)"
        using S E cand by (auto simp: due_candidate_def split: prod.splits)
      obtain ra where ra: "st_jobs t (?key a) = Some ra" "row_ready now ra" "fst a = the (row_deadline ra)"
        "\<And>key' row'. st_jobs t key' = Some row' \<Longrightarrow> job_due now row' \<Longrightarrow> fst a \<le> the (row_deadline row')"
        using s [OF S] by blast
      obtain rb where rb: "st_jobs t (?key b) = Some rb" "row_ready now rb" "fst b = the (row_deadline rb)"
        "\<And>key' row'. st_jobs t key' = Some row' \<Longrightarrow> lease_expired now row' \<Longrightarrow> fst b \<le> the (row_deadline row')"
        using e [OF E] by blast
      show ?thesis
      proof (cases "a \<le> b")
        case True
        then have "fst a \<le> fst b"
          using fst_le_of_le [of "fst a" "snd a" "fst b" "snd b"] by simp
        then have "fst a \<le> the (row_deadline row')"
          if "st_jobs t key' = Some row'" "row_ready now row'" for key' row'
          using that ra(4) rb(4) unfolding row_ready_iff by (blast intro: order_trans)
        then show ?thesis
          using key True ra(1-3) by (intro exI [of _ a] exI [of _ ra]) simp
      next
        case False
        then have "fst b \<le> fst a"
          using fst_le_of_le [of "fst b" "snd b" "fst a" "snd a"] by simp
        then have "fst b \<le> the (row_deadline row')"
          if "st_jobs t key' = Some row'" "row_ready now row'" for key' row'
          using that ra(4) rb(4) unfolding row_ready_iff by (blast intro: order_trans)
        then show ?thesis
          using key False rb(1-3) by (intro exI [of _ b] exI [of _ rb]) simp
      qed
    qed
  qed
  then obtain c row where "key = ?key c" "st_jobs t (?key c) = Some row" "row_ready now row"
    "fst c = the (row_deadline row)"
    "\<And>key' row'. st_jobs t key' = Some row' \<Longrightarrow> row_ready now row' \<Longrightarrow> fst c \<le> the (row_deadline row')"
    by blast
  then show thesis
    using that [of row] by simp
qed

lemma due_candidate_None:
  assumes "due_candidate t now = None" and "st_jobs t key = Some row"
  shows "\<not> row_ready now row"
proof -
  have "query_due_settlement_candidate t (job_due now) sj_next_run_at_ns = None"
    "query_due_settlement_candidate t (lease_expired now) sj_lease_until_ns = None"
    using assms(1) by (auto simp: due_candidate_def Let_def split: option.splits)
  then show ?thesis
    using query_due_None [OF _ assms(2)] unfolding row_ready_iff by blast
qed

lemma claim_due_rows:
  assumes wf: "jobs_wf t" and ok: "claim_due_settlement_job t now until max_active = Inr (claim, t')"
  shows "(\<exists>job. claim = JC_Claimed job \<and> rows_step now (Some job) t t')
    \<or> (t' = t \<and> (\<forall>job. claim \<noteq> JC_Claimed job))"
proof (cases "unat max_active \<le> active_in_lane t now SL_Automatic \<or> due_candidate t now = None")
  case True
  then show ?thesis
    using ok by (auto simp: claim_due_settlement_job_def split: if_splits)
next
  case False
  then obtain key where key: "due_candidate t now = Some key"
    by auto
  obtain row where row: "st_jobs t key = Some row" "row_ready now row"
    by (rule due_candidate_Some [OF wf key])
  have "grant_automatic_lease t row key now until = Inr (claim, t')"
    using ok False key row(1) by (auto simp: claim_due_settlement_job_def split: if_splits)
  then show ?thesis
    using automatic_grant_rows [OF wf row(1) row_ready_free [OF row(2)]] by metis
qed

lemma claim_specific_rows:
  assumes wf: "jobs_wf t" and ok: "claim_specific_due_settlement_job t kind i now until = Inr (claim, t')"
  shows "(\<exists>job. claim = JC_Claimed job \<and> rows_step now (Some job) t t')
    \<or> (t' = t \<and> (\<forall>job. claim \<noteq> JC_Claimed job))"
proof (cases "st_jobs t (kind, i)")
  case None
  then show ?thesis
    using ok by (auto simp: claim_specific_due_settlement_job_def)
next
  case (Some row)
  show ?thesis
  proof (cases "lease_active now row \<or> \<not> row_ready now row")
    case True
    then show ?thesis
      using ok Some by (auto simp: claim_specific_due_settlement_job_def row_ready_iff split: if_splits)
  next
    case False
    then have "grant_automatic_lease t row (kind, i) now until = Inr (claim, t')"
      using ok Some by (auto simp: claim_specific_due_settlement_job_def row_ready_iff split: if_splits)
    then show ?thesis
      using automatic_grant_rows [OF wf Some] False by metis
  qed
qed

lemma manual_target_no_claim:
  "(case x of None \<Rightarrow> None | Some r \<Rightarrow> manual_target_decision kind now overdue lane r) \<noteq> Some (MT_Claimed job)"
  by (cases x) (auto simp: manual_target_decision_def Let_def split: LeaseLaneClaimDecision.splits)

lemma manual_transaction_rows:
  assumes wf: "jobs_wf t"
    and ok: "claim_settlement_job_transaction enc t a kind i caller now until overdue limits lane
      = Some (Inr (outcome, t', a'))"
  shows "(\<exists>job. outcome = MT_Claimed job \<and> rows_step now (Some job) t t'
      \<and> grant_manual_lease t kind i now until lane = Inr (job, t')
      \<and> active_in_lane t now lane < unat (lane_capacity lane))
    \<or> (t' = t \<and> (\<forall>job. outcome \<noteq> MT_Claimed job))"
proof -
  let ?target = "case st_jobs t (kind, i) of None \<Rightarrow> None | Some r \<Rightarrow> manual_target_decision kind now overdue lane r"
  let ?full = "unat (lane_capacity lane) \<le> active_in_lane t now lane"
  show ?thesis
  proof (cases "?target \<noteq> None \<or> ?full")
    case True
    then show ?thesis
      using ok by (cases ?target)
        (auto simp: claim_settlement_job_transaction_def lease_lane_claim_body_def
          manual_target_no_claim split: if_splits)
  next
    case False
    then have free: "\<not> lease_active now r" if "st_jobs t (kind, i) = Some r" for r
      using that manual_target_free [of kind now overdue lane r] by auto
    have grant: "rows_step now (Some job) t t'"
      if "grant_manual_lease t kind i now until lane = Inr (job, t')" for job
      by (rule manual_grant_rows(1) [OF wf that]) (use free in blast)
    show ?thesis
    proof (cases limits)
      case None
      then obtain job where "grant_manual_lease t kind i now until lane = Inr (job, t')"
        "outcome = MT_Claimed job"
        using ok False by (auto simp: claim_settlement_job_transaction_def lease_lane_claim_body_def
            map_result_eq_Inr)
      then show ?thesis
        using grant False by auto
    next
      case (Some l)
      then obtain charged where "(case charged of
            Inl (SA_RateLimited seconds) \<Rightarrow> Inr (MT_RateLimited seconds, t, a)
          | Inl SA_Storage \<Rightarrow> Inl (Constraint ''settlement quota overflow'')
          | Inr admission \<Rightarrow>
              try_bind (grant_manual_lease t kind i now until lane) (\<lambda>(job, t').
              if MAX_STABLE_VALUE_BYTES < length (enc admission)
              then Inl (Constraint ''settlement quota encoding failed'')
              else Inr (MT_Claimed job, t', admission))) = Inr (outcome, t', a')"
        using ok False by (auto simp: claim_settlement_job_transaction_def lease_lane_claim_body_def)
      then have "(\<exists>job. grant_manual_lease t kind i now until lane = Inr (job, t') \<and> outcome = MT_Claimed job)
          \<or> (t' = t \<and> (\<forall>job. outcome \<noteq> MT_Claimed job))"
        by (auto simp: try_bind_eq_Inr split: sum.splits SettlementAdmissionError.splits if_splits)
      then show ?thesis
        using grant False by auto
    qed
  qed
qed

lemma claim_with_mode_rows:
  assumes wf: "jobs_wf t"
    and ok: "claim_settlement_job_with_mode enc t a kind i caller now until overdue quota lane
      = Some (Inr (claim, t', a'))"
  shows "(\<exists>job. claim = MC_Claimed job \<and> rows_step now (Some job) t t'
      \<and> grant_manual_lease t kind i now until lane = Inr (job, t')
      \<and> active_in_lane t now lane < unat (lane_capacity lane))
    \<or> (t' = t \<and> (\<forall>job. claim \<noteq> MC_Claimed job))"
proof -
  obtain limits r where r: "claim_settlement_job_transaction enc t a kind i caller now until overdue limits lane = Some r"
    "(case r of Inl _ \<Rightarrow> Inl SA_Storage
      | Inr (outcome, t', a) \<Rightarrow> map_result (\<lambda>claim. (claim, t', a)) (manual_claim_outcome outcome))
      = Inr (claim, t', a')"
    using ok by (cases "into_limits quota kind i caller")
      (auto simp: claim_settlement_job_with_mode_def)
  obtain outcome where tx: "claim_settlement_job_transaction enc t a kind i caller now until overdue
      limits lane = Some (Inr (outcome, t', a'))" and "manual_claim_outcome outcome = Inr claim"
    using r by (cases r) (auto simp: map_result_eq_Inr split: prod.splits)
  then show ?thesis
    using manual_transaction_rows [OF wf tx]
    by (auto simp: manual_claim_outcome_def split: ManualClaimTransaction.splits)
qed

lemma job_step_rows:
  assumes wf: "jobs_wf (fst s)" and ok: "job_step enc s opr = (g, s')"
  shows "rows_step (job_time opr) g (fst s) (fst s')"
proof (cases opr)
  case (EnqueueJob kind i now)
  then show ?thesis
    using ok wf by (auto simp: job_step_def job_time_def rows_step_refl
        dest!: enqueue_rows [OF wf] split: sum.splits)
next
  case (ClaimManual kind i caller now until overdue quota lane)
  show ?thesis
  proof (cases "claim_settlement_job_with_mode enc (fst s) (snd s) kind i caller now until overdue quota lane")
    case None
    then show ?thesis
      using ok wf ClaimManual by (auto simp: job_step_def job_time_def rows_step_refl)
  next
    case (Some r)
    then show ?thesis
      using ok wf ClaimManual
      by (cases r) (auto simp: job_step_def job_time_def rows_step_refl
          dest!: claim_with_mode_rows [OF wf] split: ManualSettlementClaim.splits)
  qed
next
  case (ClaimDue now until max_active)
  then show ?thesis
    using ok wf by (auto simp: job_step_def job_time_def rows_step_refl
        dest!: claim_due_rows [OF wf] split: sum.splits SettlementJobClaim.splits)
next
  case (ClaimSpecific kind i now until)
  then show ?thesis
    using ok wf by (auto simp: job_step_def job_time_def rows_step_refl
        dest!: claim_specific_rows [OF wf] split: sum.splits SettlementJobClaim.splits)
next
  case (RenewLease job now until)
  then show ?thesis
    using ok wf by (auto simp: job_step_def job_time_def rows_step_refl
        dest!: renew_rows [OF wf] split: sum.splits)
next
  case (FinishJob job next_run attempts stop_error now)
  then show ?thesis
    using ok wf by (auto simp: job_step_def job_time_def rows_step_refl
        dest!: finish_rows [OF wf] split: sum.splits)
qed

definition empty_jobs :: settlement_table where
  "empty_jobs = \<lparr> st_jobs = Map.empty, st_status_counts = (\<lambda>_. 0), st_kind_counts = (\<lambda>_. 0) \<rparr>"

definition run_jobs ::
    "(SettlementAdmissionControl \<Rightarrow> bytes) \<Rightarrow> settlement_table \<times> SettlementAdmissionControl \<Rightarrow> job_op list
      \<Rightarrow> settlement_table \<times> SettlementAdmissionControl" where
  "run_jobs enc s ops = fold (\<lambda>opr s. snd (job_step enc s opr)) ops s"

lemma run_jobs_simps [simp]:
  "run_jobs enc s [] = s"
  "run_jobs enc s (opr # ops) = run_jobs enc (snd (job_step enc s opr)) ops"
  by (simp_all add: run_jobs_def)

lemma empty_jobs_wf: "jobs_wf empty_jobs"
  by (simp add: jobs_wf_def empty_jobs_def rows_counted_def rows_sum_def)

lemma job_step_wf: "jobs_wf (fst s) \<Longrightarrow> jobs_wf (fst (snd (job_step enc s opr)))"
  using job_step_rows [of s enc opr "fst (job_step enc s opr)" "snd (job_step enc s opr)"]
  by (simp add: rows_step_def)

lemma run_jobs_wf: "jobs_wf (fst s) \<Longrightarrow> jobs_wf (fst (run_jobs enc s ops))"
  by (induction ops arbitrary: s) (simp_all add: job_step_wf)

lemma rows_step_generation:
  assumes "rows_step now g t t'" and "st_jobs t' key = Some r"
  shows "row_generation (st_jobs t key) \<le> unat (sj_lease_generation r)"
proof (cases g)
  case None
  then consider "t' = t" | key' y where "st_jobs t' = (st_jobs t)(key' := y)" "row_step now None (st_jobs t key') y"
    using assms(1) by (auto simp: rows_step_def)
  then show ?thesis
    using assms(2) row_step_generation
    by cases (auto simp: row_generation_def split: if_splits)
next
  case (Some job)
  then show ?thesis
    using assms row_step_generation [of now g]
    by (auto simp: rows_step_def Let_def row_generation_def split: if_splits)
qed

text \<open>While a settlement keeps its row, the row's generation does not decrease.\<close>

lemma run_jobs_generation:
  assumes "jobs_wf (fst s)"
    and "\<And>n. n \<le> length ops \<Longrightarrow> st_jobs (fst (run_jobs enc s (take n ops))) key \<noteq> None"
  shows "row_generation (st_jobs (fst s) key) \<le> row_generation (st_jobs (fst (run_jobs enc s ops)) key)"
  using assms
proof (induction ops arbitrary: s)
  case (Cons opr ops)
  let ?s = "snd (job_step enc s opr)"
  have "st_jobs (fst ?s) key \<noteq> None"
    using Cons.prems(2) [of 1] by simp
  then obtain r where r: "st_jobs (fst ?s) key = Some r"
    by blast
  have "rows_step (job_time opr) (fst (job_step enc s opr)) (fst s) (fst ?s)"
    by (rule job_step_rows [OF Cons.prems(1)]) simp
  then have "row_generation (st_jobs (fst s) key) \<le> row_generation (st_jobs (fst ?s) key)"
    using rows_step_generation [OF _ r] by (simp add: r row_generation_def)
  also have "\<dots> \<le> row_generation (st_jobs (fst (run_jobs enc ?s ops)) key)"
  proof (rule Cons.IH)
    show "jobs_wf (fst ?s)"
      by (rule job_step_wf [OF Cons.prems(1)])
    show "st_jobs (fst (run_jobs enc ?s (take n ops))) key \<noteq> None" if "n \<le> length ops" for n
      using Cons.prems(2) [of "Suc n"] that by simp
  qed
  finally show ?case
    by simp
qed simp

text \<open>A grant: the row was free, and afterwards carries the lease of the job alone.\<close>

lemma granted_row:
  assumes "jobs_wf (fst s)" and "job_step enc s opr = (Some job, s')"
  obtains r where "st_jobs (fst s') (sj_kind job, sj_settlement_id job) = Some r" "sj_status r = JS_Leased"
    "sj_lease_generation r = sj_lease_generation job"
    "unat (sj_lease_generation job) = Suc (row_generation (st_jobs (fst s) (sj_kind job, sj_settlement_id job)))"
    "\<And>old. st_jobs (fst s) (sj_kind job, sj_settlement_id job) = Some old \<Longrightarrow>
      \<not> lease_active (job_time opr) old"
proof -
  obtain r where r: "st_jobs (fst s') = (st_jobs (fst s))((sj_kind job, sj_settlement_id job) \<mapsto> r)"
    "row_step (job_time opr) (Some job) (st_jobs (fst s) (sj_kind job, sj_settlement_id job)) (Some r)"
    using job_step_rows [OF assms] by (auto simp: rows_step_def Let_def)
  from r(2) show thesis
    by (rule row_step_grantE) (rule that; use r(1) in auto)
qed

lemma current_after_grant:
  assumes "jobs_wf (fst s)" and "job_step enc s opr = (Some job, s')"
  shows "current_lease_generation (fst s') (sj_kind job) (sj_settlement_id job)
    = Some (sj_lease_generation job)"
  by (rule granted_row [OF assms]) (simp add: current_lease_generation_def)

text \<open>The row that is due first is the one the wake-up time names.\<close>

lemma wakeup_row:
  assumes wf: "jobs_wf t" and wake: "next_settlement_wakeup_ns t = Some w"
  obtains key row where "st_jobs t key = Some row" "row_deadline row = Some w"
    "\<And>key' row' d. st_jobs t key' = Some row' \<Longrightarrow> row_deadline row' = Some d \<Longrightarrow> w \<le> d"
proof -
  define times where "times = {the (row_deadline job) | job key. st_jobs t key = Some job \<and> row_deadline job \<noteq> None}"
  have ok: "row_deadline job \<noteq> None \<longleftrightarrow> sj_status job = JS_Scheduled \<or> sj_status job = JS_Leased"
    if "st_jobs t key = Some job" for key job
    using jobs_wfD(3) [OF wf that]
    by (cases "sj_status job") (auto simp: job_row_ok_def row_deadline_def)
  have split: "times = {the (sj_next_run_at_ns job) | job key. st_jobs t key = Some job \<and> sj_status job = JS_Scheduled}
       \<union> {the (sj_lease_until_ns job) | job key. st_jobs t key = Some job \<and> sj_status job = JS_Leased}"
  proof (rule set_eqI)
    fix d
    have "d \<in> times \<longleftrightarrow> (\<exists>job key. d = the (row_deadline job) \<and> st_jobs t key = Some job
        \<and> (sj_status job = JS_Scheduled \<or> sj_status job = JS_Leased))"
      unfolding times_def using ok by blast
    also have "\<dots> \<longleftrightarrow> (\<exists>job key. d = the (sj_next_run_at_ns job) \<and> st_jobs t key = Some job \<and> sj_status job = JS_Scheduled)
        \<or> (\<exists>job key. d = the (sj_lease_until_ns job) \<and> st_jobs t key = Some job \<and> sj_status job = JS_Leased)"
      by (metis (mono_tags) SettlementJobStatus.simps(7,8) row_deadline_def)
    finally show "d \<in> times \<longleftrightarrow> d \<in> {the (sj_next_run_at_ns job) | job key. st_jobs t key = Some job \<and> sj_status job = JS_Scheduled}
       \<union> {the (sj_lease_until_ns job) | job key. st_jobs t key = Some job \<and> sj_status job = JS_Leased}"
      by blast
  qed
  have w: "times \<noteq> {}" "w = Min times"
    using wake unfolding next_settlement_wakeup_ns_def Let_def split [symmetric]
    by (simp_all split: if_splits)
  have "times \<subseteq> (\<lambda>key. the (row_deadline (the (st_jobs t key)))) ` dom (st_jobs t)"
    by (force simp: times_def)
  then have fin: "finite times"
    using jobs_wfD(1) [OF wf] by (meson finite_imageI finite_subset)
  have "w \<in> times"
    unfolding w(2) using fin w(1) by (rule Min_in)
  then obtain key row where "st_jobs t key = Some row" "row_deadline row = Some w"
    by (auto simp: times_def)
  moreover have "w \<le> d" if "st_jobs t key' = Some row'" "row_deadline row' = Some d" for key' row' d
  proof -
    have "the (row_deadline row') \<in> times"
      unfolding times_def using that by blast
    then show ?thesis
      unfolding w(2) using that fin by simp
  qed
  ultimately show thesis
    using that by blast
qed

lemma automatic_grant_succeeds:
  assumes wf: "jobs_wf t" and row: "st_jobs t key = Some row" and "sj_lease_generation row \<noteq> - 1"
  obtains claim t' where "grant_automatic_lease t row key now until = Inr (claim, t')"
proof -
  let ?f = "\<lambda>r. r \<lparr> sj_status := JS_Leased, sj_next_run_at_ns := None,
    sj_lease_generation := sj_lease_generation row + 1, sj_lease_until_ns := Some until,
    sj_lease_lane := SL_Automatic, sj_updated_at_ns := now \<rparr>"
  obtain t' where "update_job t key ?f = Inr t'"
    using update_job_wf [of t key row ?f, OF wf row] by (auto simp: job_row_ok_def)
  then show thesis
    using that assms(3)
    by (simp add: grant_automatic_lease_def lease_generation_next_def next_attempt_body_def ok_or_def)
qed

section \<open>Properties\<close>

text \<open>
  C22.  Whatever sequence of calls runs on an empty table, every row carries exactly the times its
  status asks for and is filed under its own key, and the counts that the triggers keep are the
  numbers of rows with that status and of that kind.\<close>

theorem job_table_invariant:
  "jobs_wf (fst (run_jobs enc (empty_jobs, a) ops))"
  by (rule run_jobs_wf) (simp add: empty_jobs_wf)

text \<open>
  C23.  A lease is granted only on a row with no running lease, and it fences off every earlier
  holder for as long as the settlement keeps its row: the new generation is higher, the earlier
  lease is no longer current, and finishing or renewing it does nothing.\<close>

theorem stale_lease_fenced:
  assumes wf: "jobs_wf (fst s)" and first: "job_step enc s opr = (Some job, s1)"
    and kept: "\<forall>n \<le> length ops. st_jobs (fst (run_jobs enc s1 (take n ops)))
      (sj_kind job, sj_settlement_id job) \<noteq> None"
    and second: "job_step enc (run_jobs enc s1 ops) opr2 = (Some job2, s2)"
    and same: "sj_kind job2 = sj_kind job" "sj_settlement_id job2 = sj_settlement_id job"
  shows "unat (sj_lease_generation job) < unat (sj_lease_generation job2)
    \<and> \<not> lease_active (job_time opr2) (the (st_jobs (fst (run_jobs enc s1 ops)) (sj_kind job, sj_settlement_id job)))
    \<and> settlement_lease_is_current (fst s2) job2 \<and> \<not> settlement_lease_is_current (fst s2) job
    \<and> finish_if_current (fst s2) job next_run attempts stop_error now = Inr (False, fst s2)
    \<and> renew_settlement_lease (fst s2) job now until = Inr (False, job, fst s2)"
proof -
  let ?key = "(sj_kind job, sj_settlement_id job)"
  let ?mid = "run_jobs enc s1 ops"
  have wf1: "jobs_wf (fst s1)"
    using job_step_wf [OF wf, of enc opr] first by simp
  have wf_mid: "jobs_wf (fst ?mid)"
    by (rule run_jobs_wf [OF wf1])
  obtain r1 where r1: "st_jobs (fst s1) ?key = Some r1" "sj_lease_generation r1 = sj_lease_generation job"
    by (rule granted_row [OF wf first])
  obtain r2 where r2: "st_jobs (fst s2) ?key = Some r2" "sj_status r2 = JS_Leased"
    "sj_lease_generation r2 = sj_lease_generation job2"
    "unat (sj_lease_generation job2) = Suc (row_generation (st_jobs (fst ?mid) ?key))"
    and free: "\<And>old. st_jobs (fst ?mid) ?key = Some old \<Longrightarrow> \<not> lease_active (job_time opr2) old"
    by (rule granted_row [OF wf_mid second]) (use same in simp)
  have "row_generation (st_jobs (fst s1) ?key) \<le> row_generation (st_jobs (fst ?mid) ?key)"
    by (rule run_jobs_generation [OF wf1]) (use kept in blast)
  then have lt: "unat (sj_lease_generation job) < unat (sj_lease_generation job2)"
    using r1 r2(4) by (simp add: row_generation_def)
  moreover have "\<not> lease_active (job_time opr2) (the (st_jobs (fst ?mid) ?key))"
    using free kept by (cases "st_jobs (fst ?mid) ?key") auto
  moreover have "current_lease_generation (fst s2) (sj_kind job) (sj_settlement_id job)
      = Some (sj_lease_generation job2)"
    using r2 by (simp add: current_lease_generation_def)
  ultimately show ?thesis
    using r2(1-3) same
    by (auto simp: settlement_lease_is_current_def finish_if_current_def renew_settlement_lease_def
        lease_outcome_decision_def)
qed

text \<open>
  C24.  Once the wake-up time has come, a worker of the automatic lane with a free slot gets a job:
  one whose time is that wake-up time, and it then holds the current lease.\<close>

theorem due_job_claimed:
  assumes wf: "jobs_wf t" and wake: "next_settlement_wakeup_ns t = Some w" and "w \<le> now"
    and room: "active_in_lane t now SL_Automatic < unat max_active"
    and fresh: "\<forall>key row. st_jobs t key = Some row \<longrightarrow> sj_lease_generation row \<noteq> - 1"
  shows "\<exists>job t'. claim_due_settlement_job t now until max_active = Inr (JC_Claimed job, t')
    \<and> map_option row_deadline (st_jobs t (sj_kind job, sj_settlement_id job)) = Some (Some w)
    \<and> sj_lease_lane job = SL_Automatic \<and> sj_lease_until_ns job = Some until
    \<and> settlement_lease_is_current t' job"
proof -
  obtain key1 row1 where first: "st_jobs t key1 = Some row1" "row_deadline row1 = Some w"
    and least: "\<And>key' row' d. st_jobs t key' = Some row' \<Longrightarrow> row_deadline row' = Some d \<Longrightarrow> w \<le> d"
    by (rule wakeup_row [OF wf wake]) (rule that)
  have ready: "row_ready now row1"
    using first assms(3) by (simp add: row_ready_def)
  then obtain key where cand: "due_candidate t now = Some key"
    using due_candidate_None [OF _ first(1)] by (cases "due_candidate t now") auto
  obtain row where row: "st_jobs t key = Some row" "row_ready now row"
    "\<And>key' row'. st_jobs t key' = Some row' \<Longrightarrow> row_ready now row' \<Longrightarrow>
      the (row_deadline row) \<le> the (row_deadline row')"
    by (rule due_candidate_Some [OF wf cand]) (rule that)
  obtain d where d: "row_deadline row = Some d"
    using row(2) by (auto simp: row_ready_def split: option.splits)
  have "d = w"
    using row(3) [OF first(1) ready] least [OF row(1) d] first(2) d by simp
  obtain claim t' where granted: "grant_automatic_lease t row key now until = Inr (claim, t')"
    using automatic_grant_succeeds [OF wf row(1)] fresh row(1) by blast
  obtain job where job: "claim = JC_Claimed job" "rows_step now (Some job) t t'"
    "(sj_kind job, sj_settlement_id job) = key" "sj_lease_lane job = SL_Automatic"
    "sj_lease_until_ns job = Some until"
    by (rule automatic_grant_rows [OF wf row(1) row_ready_free [OF row(2)] granted])
  have "settlement_lease_is_current t' job"
    using job(2) by (auto simp: rows_step_def Let_def settlement_lease_is_current_def
        current_lease_generation_def lease_outcome_decision_def elim: row_step_grantE)
  moreover have "claim_due_settlement_job t now until max_active = Inr (JC_Claimed job, t')"
    using room cand granted job(1) row(1) by (auto simp: claim_due_settlement_job_def)
  ultimately show ?thesis
    using job row(1) d \<open>d = w\<close> by auto
qed

lemmas job_run_simps = job_step_def enqueue_settlement_job_def insert_job_def update_job_def delete_job_def
  move_status_def claim_specific_due_settlement_job_def grant_automatic_lease_def leased_job_def
  lease_generation_next_def next_attempt_body_def lease_active_def lease_expired_def job_due_def
  finish_if_current_def finish_job_row_def current_lease_generation_def empty_jobs_def ok_or_def

lemma finish_deletes:
  assumes wf: "jobs_wf t" and ok: "finish_if_current t job None n None now = Inr (True, t')"
  shows "jobs_wf t'" "st_jobs t' (sj_kind job, sj_settlement_id job) = None"
    "current_lease_generation t (sj_kind job) (sj_settlement_id job) = Some (sj_lease_generation job)"
  using delete_job_wf [OF wf, of "(sj_kind job, sj_settlement_id job)"] ok
  by (auto simp: finish_if_current_def finish_job_row_def map_result_eq_Inr split: if_splits)

lemma finish_current:
  assumes "jobs_wf t" "current_lease_generation t (sj_kind job) (sj_settlement_id job) = Some (sj_lease_generation job)"
  shows "\<exists>t'. finish_if_current t job None n None now = Inr (True, t')
    \<and> st_jobs t' (sj_kind job, sj_settlement_id job) = None"
  using delete_job_wf [OF assms(1), of "(sj_kind job, sj_settlement_id job)"] assms(2)
  by (auto simp: finish_if_current_def finish_job_row_def map_result_def)

text \<open>A manual claim of a settlement that has no row.\<close>

lemma manual_claim_fresh:
  assumes wf: "jobs_wf t" and none: "st_jobs t (kind, i) = None"
    and ok: "claim_settlement_job_with_mode enc t a kind i caller now until overdue quota lane
      = Some (Inr (MC_Claimed job, t', a'))"
  shows "jobs_wf t'" "sj_lease_generation job = 1"
    "current_lease_generation t' kind i = Some 1"
proof -
  have step: "rows_step now (Some job) t t'" and grant: "grant_manual_lease t kind i now until lane = Inr (job, t')"
    using claim_with_mode_rows [OF wf ok] by auto
  show "jobs_wf t'"
    using step by (simp add: rows_step_def)
  have job: "job = leased_job kind i 0 1 until lane now" "insert_job t job = Inr t'"
    using grant none
    by (auto simp: grant_manual_lease_def Let_def try_bind_eq_Inr ok_or_eq_Inr map_result_eq_Inr checked_add_def
        split: if_splits)
  then show "sj_lease_generation job = 1"
    by (simp add: leased_job_def)
  show "current_lease_generation t' kind i = Some 1"
    using job by (auto simp: insert_job_def Let_def current_lease_generation_def leased_job_def split: if_splits)
qed

text \<open>
  C25.  A row that is finished for good is deleted, and its generation with it.  When the same settlement is
  then claimed by hand (as the start of a refund or the continuation of a deposit or a withdrawal does), the
  generations start over at one.  A worker that held the first lease of the settlement and was fenced off by
  a later one is current again, and can finish, and delete, the job of the new holder.\<close>

theorem lease_generation_restarts:
  assumes wf: "jobs_wf t"
    and fenced: "sj_kind old = sj_kind holder" "sj_settlement_id old = sj_settlement_id holder"
      "sj_lease_generation old = 1" "sj_lease_generation holder \<noteq> 1"
    and finished: "finish_if_current t holder None n None now = Inr (True, t1)"
    and claimed: "claim_settlement_job_with_mode enc t1 a (sj_kind holder) (sj_settlement_id holder) caller
      now' until overdue quota lane = Some (Inr (MC_Claimed job, t2, a'))"
  shows "\<not> settlement_lease_is_current t old
    \<and> sj_lease_generation job = 1 \<and> settlement_lease_is_current t2 old
    \<and> (\<exists>t3. finish_if_current t2 old None m None later = Inr (True, t3)
      \<and> st_jobs t3 (sj_kind holder, sj_settlement_id holder) = None)"
proof -
  note gone = finish_deletes [OF wf finished]
  note fresh = manual_claim_fresh [OF gone(1,2) claimed]
  have "\<exists>t3. finish_if_current t2 old None m None later = Inr (True, t3)
      \<and> st_jobs t3 (sj_kind old, sj_settlement_id old) = None"
    by (rule finish_current [OF fresh(1)]) (use fresh(3) fenced in simp)
  then show ?thesis
    using gone(3) fresh(2,3) fenced by (simp add: settlement_lease_is_current_def lease_outcome_decision_def)
qed

lemmas manual_claim_simps = claim_settlement_job_with_mode_def claim_settlement_job_transaction_def
  manual_claim_outcome_def into_limits_def prepaid_consume_def grant_manual_lease_def active_in_lane_def
  lease_lane_claim_body_def lease_lane_claim_decision_def lane_capacity_def manual_target_decision_def
  manual_claim_decision_def manual_claim_allowed_body_def

definition sample_prepaid :: SettlementClaimQuota where
  "sample_prepaid = CQ_Prepaid \<lparr> pq_kind = SJ_Deposit, pq_settlement_id = [7], pq_caller = [9] \<rparr>"

definition sample_lease :: "u64 \<Rightarrow> u64 \<Rightarrow> SettlementJob" where
  "sample_lease generation now = leased_job SJ_Deposit [7] 0 generation (now + 10) SL_PublicManual now"

definition sample_jobs :: "SettlementJob \<Rightarrow> settlement_table" where
  "sample_jobs job = \<lparr> st_jobs = [(SJ_Deposit, [7]) \<mapsto> job], st_status_counts = (\<lambda>_. 0)(JS_Leased := 1),
    st_kind_counts = (\<lambda>_. 0)(SJ_Deposit := 1) \<rparr>"

lemma sample_first_claim:
  "claim_settlement_job_with_mode enc empty_jobs a SJ_Deposit [7] [9] now (now + 10) 0 sample_prepaid SL_PublicManual
    = Some (Inr (MC_Claimed (sample_lease 1 now), sample_jobs (sample_lease 1 now), a))"
  by (simp add: manual_claim_simps sample_prepaid_def sample_lease_def sample_jobs_def empty_jobs_def leased_job_def
      insert_job_def checked_add_def result_simps Let_def)

lemma sample_second_claim:
  "claim_settlement_job_with_mode enc (sample_jobs (sample_lease 1 0)) a SJ_Deposit [7] [9] 10 20 0 sample_prepaid
      SL_PublicManual
    = Some (Inr (MC_Claimed (sample_lease 2 10), sample_jobs (sample_lease 2 10), a))"
  by (simp add: manual_claim_simps sample_prepaid_def sample_lease_def sample_jobs_def leased_job_def lane_sql_def
      update_job_def move_status_def lease_active_def lease_expired_def checked_add_def result_simps Let_def)

lemma sample_finish:
  "finish_if_current (sample_jobs (sample_lease 2 10)) (sample_lease 2 10) None 0 None 15 = Inr (True, empty_jobs)"
  by (simp add: finish_if_current_def finish_job_row_def current_lease_generation_def sample_jobs_def sample_lease_def
      leased_job_def delete_job_def empty_jobs_def fun_upd_idem result_simps)

theorem lease_generation_restarts_witness:
  "let claim = (\<lambda>now. ClaimManual SJ_Deposit [7] [9] now (now + 10) 0 sample_prepaid SL_PublicManual);
       s = run_jobs (\<lambda>_. []) (empty_jobs, \<lparr> sac_window_id = 0, sac_global_count = 0, sac_caller_counts = [],
         sac_record_counts = [] \<rparr>) [claim 0, claim 10]
   in s = (sample_jobs (sample_lease 2 10), snd s)
     \<and> \<not> settlement_lease_is_current (fst s) (sample_lease 1 0)
     \<and> settlement_lease_is_current (fst (run_jobs (\<lambda>_. []) s [FinishJob (sample_lease 2 10) None 0 None 15, claim 16]))
       (sample_lease 1 0)"
proof -
  let ?a = "\<lparr> sac_window_id = 0, sac_global_count = 0, sac_caller_counts = [], sac_record_counts = [] \<rparr>"
  let ?claim = "\<lambda>now. ClaimManual SJ_Deposit [7] [9] now (now + 10) 0 sample_prepaid SL_PublicManual"
  let ?s = "run_jobs (\<lambda>_. []) (empty_jobs, ?a) [?claim 0, ?claim 10]"
  have s: "?s = (sample_jobs (sample_lease 2 10), ?a)"
    using sample_first_claim [of "\<lambda>_. []" ?a 0] by (simp add: job_step_def sample_second_claim)
  have again: "fst (run_jobs (\<lambda>_. []) (sample_jobs (sample_lease 2 10), ?a)
      [FinishJob (sample_lease 2 10) None 0 None 15, ?claim 16]) = sample_jobs (sample_lease 1 16)"
    using sample_first_claim [of "\<lambda>_. []" ?a 16] by (simp add: job_step_def sample_finish)
  have wf: "jobs_wf (sample_jobs (sample_lease 2 10))"
    using run_jobs_wf [of "(empty_jobs, ?a)" "\<lambda>_. []" "[?claim 0, ?claim 10]"] s by (simp add: empty_jobs_wf)
  have "\<not> settlement_lease_is_current (sample_jobs (sample_lease 2 10)) (sample_lease 1 0)
      \<and> settlement_lease_is_current (sample_jobs (sample_lease 1 16)) (sample_lease 1 0)"
    using lease_generation_restarts [OF wf _ _ _ _ sample_finish, of "sample_lease 1 0"]
      sample_first_claim [of "\<lambda>_. []" ?a 16]
    by (simp add: sample_lease_def leased_job_def)
  then show ?thesis
    using s again by (simp add: Let_def)
qed

theorem stale_lease_fenced_witness:
  "\<exists>s1 s2. \<not> settlement_lease_is_current (fst s2) (leased_job SJ_Deposit [7] 0 1 10 SL_Automatic 0)
    \<and> job_step (\<lambda>_. []) s1 (ClaimSpecific SJ_Deposit [7] 10 20)
      = (Some (leased_job SJ_Deposit [7] 0 2 20 SL_Automatic 10), s2)"
proof -
  let ?a = "\<lparr> sac_window_id = 0, sac_global_count = 0, sac_caller_counts = [], sac_record_counts = [] \<rparr>"
  let ?s = "snd (job_step (\<lambda>_. []) (empty_jobs, ?a) (EnqueueJob SJ_Deposit [7] 0))"
  let ?s1 = "snd (job_step (\<lambda>_. []) ?s (ClaimSpecific SJ_Deposit [7] 0 10))"
  let ?s2 = "snd (job_step (\<lambda>_. []) ?s1 (ClaimSpecific SJ_Deposit [7] 10 20))"
  have wf: "jobs_wf (fst ?s)"
    by (rule job_step_wf) (simp add: empty_jobs_wf)
  have first: "job_step (\<lambda>_. []) ?s (ClaimSpecific SJ_Deposit [7] 0 10)
      = (Some (leased_job SJ_Deposit [7] 0 1 10 SL_Automatic 0), ?s1)"
    by (simp add: job_run_simps)
  have kept: "st_jobs (fst ?s1) (SJ_Deposit, [7]) \<noteq> None"
    by (simp add: job_run_simps)
  have second: "job_step (\<lambda>_. []) ?s1 (ClaimSpecific SJ_Deposit [7] 10 20)
      = (Some (leased_job SJ_Deposit [7] 0 2 20 SL_Automatic 10), ?s2)"
    by (simp add: job_run_simps)
  have "\<not> settlement_lease_is_current (fst ?s2) (leased_job SJ_Deposit [7] 0 1 10 SL_Automatic 0)"
    using stale_lease_fenced [OF wf first, of "[]"] second kept by (simp add: leased_job_def)
  then show ?thesis
    using second by blast
qed

theorem due_job_claimed_witness:
  "\<exists>job t'. claim_due_settlement_job
      (fst (run_jobs (\<lambda>_. []) (empty_jobs, \<lparr> sac_window_id = 0, sac_global_count = 0,
        sac_caller_counts = [], sac_record_counts = [] \<rparr>) [EnqueueJob SJ_Withdrawal [7] 5])) 9 20 1
    = Inr (JC_Claimed job, t') \<and> settlement_lease_is_current t' job"
proof -
  let ?t = "fst (run_jobs (\<lambda>_. []) (empty_jobs, \<lparr> sac_window_id = 0, sac_global_count = 0,
        sac_caller_counts = [], sac_record_counts = [] \<rparr>) [EnqueueJob SJ_Withdrawal [7] 5])"
  have wf: "jobs_wf ?t"
    by (rule run_jobs_wf) (simp add: empty_jobs_wf)
  have wake: "next_settlement_wakeup_ns ?t = Some 5"
    by (simp add: job_run_simps next_settlement_wakeup_ns_def)
  have none: "active_in_lane ?t 9 SL_Automatic = 0"
    by (simp add: job_run_simps active_in_lane_def)
  have fresh: "\<forall>key row. st_jobs ?t key = Some row \<longrightarrow> sj_lease_generation row \<noteq> - 1"
    by (simp add: job_run_simps)
  show ?thesis
    using due_job_claimed [OF wf wake, of 9 1 20] none fresh by auto
qed

end
