(* ===== verification/Mint_Policy.thy ===== *)
theory Mint_Policy
  imports Bridge_Prelude
begin

text \<open>
  The libraries of the Base contracts (\<open>contracts/src/libraries\<close>): the administration predicates,
  the mint window arithmetic and the mint authorization policy.

  A \<open>uint256\<close> and a \<open>bytes32\<close> are words of 256 bits, an \<open>address\<close> is a word of 160 bits.  The
  compiler's checked arithmetic reverts on overflow; an expression that may revert has the result
  None.
\<close>

type_synonym u256 = "256 word"
type_synonym bytes32 = "256 word"
type_synonym address = "160 word"

section \<open>Definitions\<close>

subsection \<open>Administration predicates\<close>

definition U128_MAX :: u256 where
  "U128_MAX = 340282366920938463463374607431768211455"

definition U64_MAX :: u256 where
  "U64_MAX = 18446744073709551615"

definition rolesAreNonzero :: "address \<Rightarrow> address \<Rightarrow> address \<Rightarrow> bool" where
  "rolesAreNonzero bridgeSigner runtimeAdministrator baseAdminTimelock =
    (bridgeSigner \<noteq> 0 \<and> runtimeAdministrator \<noteq> 0 \<and> baseAdminTimelock \<noteq> 0)"

definition rolesAreDistinct :: "address \<Rightarrow> address \<Rightarrow> address \<Rightarrow> bool" where
  "rolesAreDistinct bridgeSigner runtimeAdministrator baseAdminTimelock =
    (bridgeSigner \<noteq> runtimeAdministrator \<and> bridgeSigner \<noteq> baseAdminTimelock
     \<and> runtimeAdministrator \<noteq> baseAdminTimelock)"

definition limitsAreNonzero :: "u256 \<Rightarrow> u256 \<Rightarrow> u64 \<Rightarrow> bool" where
  "limitsAreNonzero perDepositLimit mintWindowLimit mintWindowDuration =
    (perDepositLimit \<noteq> 0 \<and> mintWindowLimit \<noteq> 0 \<and> mintWindowDuration \<noteq> 0)"

definition serviceFeeIsValid :: "u256 \<Rightarrow> u256 \<Rightarrow> u256 \<Rightarrow> bool" where
  "serviceFeeIsValid serviceFee minimumServiceFee maximumServiceFee =
    (minimumServiceFee \<le> serviceFee \<and> serviceFee \<le> maximumServiceFee)"

definition valueFitsU128 :: "u256 \<Rightarrow> bool" where
  "valueFitsU128 value = (value \<le> U128_MAX)"

definition valuesFitU128 :: "u256 \<Rightarrow> u256 \<Rightarrow> u256 \<Rightarrow> bool" where
  "valuesFitU128 first second third =
    (valueFitsU128 first \<and> valueFitsU128 second \<and> valueFitsU128 third)"

definition timelockDelayIsValid :: "u256 \<Rightarrow> u256 \<Rightarrow> u256 \<Rightarrow> bool" where
  "timelockDelayIsValid delay minimumDelay maximumDelay =
    (minimumDelay \<le> delay \<and> delay \<le> maximumDelay)"

definition timelockRoleIsClosed :: "address \<Rightarrow> address \<Rightarrow> bool \<Rightarrow> bool \<Rightarrow> bool" where
  "timelockRoleIsClosed member requiredMember memberHasRole roleIsOpen =
    (member \<noteq> 0 \<and> (requiredMember = 0 \<or> member = requiredMember) \<and> memberHasRole \<and> \<not> roleIsOpen)"

definition timelockHasNoPendingOperations :: "u256 \<Rightarrow> bool" where
  "timelockHasNoPendingOperations pendingOperationCount = (pendingOperationCount = 0)"

definition withdrawalClaimAllowed :: "bool \<Rightarrow> bool" where
  "withdrawalClaimAllowed alreadyClaimed = (\<not> alreadyClaimed)"

subsection \<open>Mint window\<close>

definition tryConsumeWindow :: "u256 \<Rightarrow> u256 \<Rightarrow> u256 \<Rightarrow> (bool \<times> u256 \<times> u256) option" where
  "tryConsumeWindow consumed requested limit =
    (let available = (if limit \<le> consumed then 0 else limit - consumed) in
      if available < requested then Some (False, consumed, available)
      else map_option (\<lambda>next. (True, next, available)) (checked_add consumed requested))"

subsection \<open>Mint authorization policy\<close>

datatype RejectReason =
    RR_None
  | RR_Paused
  | RR_Expired
  | RR_DeadlineTooFar
  | RR_EpochMismatch
  | RR_ZeroRecipient
  | RR_InvalidRecipient
  | RR_GrossExceedsU128
  | RR_MaximumFeeExceedsU128
  | RR_ChargedFeeExceedsU128
  | RR_Processed
  | RR_ProtocolFeeExceeded
  | RR_UserFeeExceeded
  | RR_InvalidAmount
  | RR_PerDepositLimitExceeded
  | RR_WindowLimitExceeded
  | RR_TimestampExceedsU64

record MintTransitionInput =
  mti_timestamp :: u256
  mti_deadline :: u256
  mti_authorizationEpoch :: u256
  mti_currentEpoch :: u256
  mti_recipient :: address
  mti_bridge :: address
  mti_token :: address
  mti_grossAmount :: u256
  mti_maximumFee :: u256
  mti_chargedFee :: u256
  mti_protocolMaximumFee :: u256
  mti_perDepositLimit :: u256
  mti_consumedInWindow :: u256
  mti_windowLimit :: u256
  mti_windowStartedAt :: u64
  mti_windowDuration :: u64
  mti_paused :: bool
  mti_processed :: bool

record MintEffects =
  me_processedAfter :: bool
  me_windowReset :: bool
  me_windowStartedAtAfter :: u64
  me_windowConsumedAfter :: u256
  me_mintAmount :: u256
  me_supplyIncrease :: u256
  me_eventGrossAmount :: u256
  me_eventServiceFee :: u256
  me_eventMintedAmount :: u256

text \<open>A memory struct that was not assigned: all zero.\<close>

definition no_effects :: MintEffects where
  "no_effects = \<lparr> me_processedAfter = False, me_windowReset = False, me_windowStartedAtAfter = 0,
    me_windowConsumedAfter = 0, me_mintAmount = 0, me_supplyIncrease = 0, me_eventGrossAmount = 0,
    me_eventServiceFee = 0, me_eventMintedAmount = 0 \<rparr>"

definition feeWithinBounds :: "u256 \<Rightarrow> u256 \<Rightarrow> u256 \<Rightarrow> bool" where
  "feeWithinBounds chargedFee userMaximum protocolMaximum =
    (chargedFee \<le> userMaximum \<and> chargedFee \<le> protocolMaximum)"

definition mintAmountWithinLimit :: "u256 \<Rightarrow> u256 \<Rightarrow> u256 \<Rightarrow> bool \<times> u256" where
  "mintAmountWithinLimit grossAmount chargedFee perDepositLimit =
    (if grossAmount \<le> chargedFee then (False, 0)
     else let mintAmount = grossAmount - chargedFee in (mintAmount \<le> perDepositLimit, mintAmount))"

definition deadlineAccepts :: "u256 \<Rightarrow> u256 \<Rightarrow> bool" where
  "deadlineAccepts timestamp deadline = (timestamp \<le> deadline)"

definition epochMatches :: "u256 \<Rightarrow> u256 \<Rightarrow> bool" where
  "epochMatches authorizationEpoch currentEpoch = (authorizationEpoch = currentEpoch)"

definition depositAvailable :: "bool \<Rightarrow> bool" where
  "depositAvailable processed = (\<not> processed)"

definition mintEffectAmounts :: "u256 \<Rightarrow> u256 \<Rightarrow> (u256 \<times> u256 \<times> u256 \<times> u256 \<times> u256) option" where
  "mintEffectAmounts grossAmount chargedFee =
    map_option (\<lambda>mintAmount. (mintAmount, mintAmount, grossAmount, chargedFee, mintAmount))
      (checked_sub grossAmount chargedFee)"

definition nextEpoch :: "u256 \<Rightarrow> u256 option" where
  "nextEpoch currentEpoch = checked_add currentEpoch 1"

definition adminEpochTransition :: "u256 \<Rightarrow> bool \<Rightarrow> (bool \<times> u256) option" where
  "adminEpochTransition currentEpoch changed =
    (if \<not> changed then Some (False, currentEpoch)
     else map_option (Pair True) (nextEpoch currentEpoch))"

definition signerRotationEpoch :: "u256 \<Rightarrow> address \<Rightarrow> address \<Rightarrow> (bool \<times> u256) option" where
  "signerRotationEpoch currentEpoch currentSigner nextSigner =
    adminEpochTransition currentEpoch (currentSigner \<noteq> nextSigner)"

definition windowExpired :: "u256 \<Rightarrow> u64 \<Rightarrow> u64 \<Rightarrow> bool option" where
  "windowExpired timestamp startedAt duration =
    map_option (\<lambda>expiry. expiry \<le> timestamp) (checked_add (ucast startedAt) (ucast duration))"

definition evaluateMint ::
    "MintTransitionInput \<Rightarrow> (RejectReason \<times> MintEffects \<times> u256) option" where
  "evaluateMint inp =
    (if mti_paused inp then Some (RR_Paused, no_effects, 0)
     else if \<not> deadlineAccepts (mti_timestamp inp) (mti_deadline inp) then Some (RR_Expired, no_effects, 0)
     else Option.bind (checked_add (mti_timestamp inp) (15 * 60)) (\<lambda>latest.
       if latest < mti_deadline inp then Some (RR_DeadlineTooFar, no_effects, 0)
       else if \<not> epochMatches (mti_authorizationEpoch inp) (mti_currentEpoch inp)
       then Some (RR_EpochMismatch, no_effects, 0)
       else if mti_recipient inp = 0 then Some (RR_ZeroRecipient, no_effects, 0)
       else if mti_recipient inp = mti_bridge inp \<or> mti_recipient inp = mti_token inp
       then Some (RR_InvalidRecipient, no_effects, 0)
       else if U128_MAX < mti_grossAmount inp then Some (RR_GrossExceedsU128, no_effects, 0)
       else if U128_MAX < mti_maximumFee inp then Some (RR_MaximumFeeExceedsU128, no_effects, 0)
       else if U128_MAX < mti_chargedFee inp then Some (RR_ChargedFeeExceedsU128, no_effects, 0)
       else if \<not> depositAvailable (mti_processed inp) then Some (RR_Processed, no_effects, 0)
       else if \<not> feeWithinBounds (mti_chargedFee inp) (mti_maximumFee inp) (mti_protocolMaximumFee inp)
       then Some (if mti_protocolMaximumFee inp < mti_chargedFee inp then RR_ProtocolFeeExceeded
         else RR_UserFeeExceeded, no_effects, 0)
       else let (amountAccepted, mintAmount) =
           mintAmountWithinLimit (mti_grossAmount inp) (mti_chargedFee inp) (mti_perDepositLimit inp) in
         if mti_grossAmount inp \<le> mti_chargedFee inp then Some (RR_InvalidAmount, no_effects, 0)
         else if \<not> amountAccepted then Some (RR_PerDepositLimitExceeded, no_effects, 0)
         else Option.bind (windowExpired (mti_timestamp inp) (mti_windowStartedAt inp)
             (mti_windowDuration inp)) (\<lambda>reset.
           if reset \<and> U64_MAX < mti_timestamp inp then Some (RR_TimestampExceedsU64, no_effects, 0)
           else Option.bind (tryConsumeWindow (if reset then 0 else mti_consumedInWindow inp) mintAmount
               (mti_windowLimit inp)) (\<lambda>(accepted, nextConsumed, available).
             if \<not> accepted then Some (RR_WindowLimitExceeded, no_effects, available)
             else map_option (\<lambda>(mintAmount, supplyIncrease, eventGross, eventFee, eventMinted).
               (RR_None, \<lparr> me_processedAfter = True, me_windowReset = reset,
                 me_windowStartedAtAfter = (if reset then ucast (mti_timestamp inp)
                   else mti_windowStartedAt inp),
                 me_windowConsumedAfter = nextConsumed, me_mintAmount = mintAmount,
                 me_supplyIncrease = supplyIncrease, me_eventGrossAmount = eventGross,
                 me_eventServiceFee = eventFee, me_eventMintedAmount = eventMinted \<rparr>, available))
               (mintEffectAmounts (mti_grossAmount inp) (mti_chargedFee inp))))))"

section \<open>Lemmas\<close>

text \<open>The window sum of two 64-bit numbers cannot overflow.\<close>

lemma windowExpired_exact:
  "windowExpired timestamp startedAt duration
    = Some (unat startedAt + unat duration \<le> unat timestamp)"
proof -
  have "unat startedAt < 2 ^ 64" "unat duration < 2 ^ 64"
    using unat_bound [of startedAt] unat_bound [of duration] by simp_all
  then have "unat (ucast startedAt :: u256) + unat (ucast duration :: u256) < 2 ^ LENGTH(256)"
    by (simp add: unat_ucast_up)
  then show ?thesis
    by (auto simp: windowExpired_def checked_add_def word_le_nat_alt unat_add_exact unat_ucast_up)
qed

lemma window_available:
  "unat (if limit \<le> consumed then 0 else limit - consumed) = unat limit - unat consumed"
  for limit consumed :: "'a::len word"
proof (cases "limit \<le> consumed")
  case False
  then show ?thesis
    by (simp add: unat_sub_exact)
qed (simp add: word_le_nat_alt)

lemma nat_le_diff: "r \<le> l - c \<longleftrightarrow> r = 0 \<or> c + r \<le> l" for r l c :: nat
  by linarith

lemma tryConsumeWindow_accepts:
  "tryConsumeWindow consumed requested limit = Some (True, n, av) \<longleftrightarrow>
    (requested = 0 \<or> unat consumed + unat requested \<le> unat limit)
    \<and> unat n = unat consumed + unat requested \<and> unat av = unat limit - unat consumed"
proof -
  let ?av = "if limit \<le> consumed then 0 else limit - consumed"
  have "tryConsumeWindow consumed requested limit = Some (True, n, av) \<longleftrightarrow>
      requested \<le> ?av \<and> checked_add consumed requested = Some n \<and> av = ?av"
    by (auto simp: tryConsumeWindow_def Let_def linorder_not_less)
  also have "\<dots> \<longleftrightarrow> unat requested \<le> unat ?av \<and> unat consumed + unat requested = unat n \<and> unat av = unat ?av"
    using unat_eqD [of av ?av] by (auto simp only: word_le_nat_alt checked_add_eq_Some)
  also have "\<dots> \<longleftrightarrow> (requested = 0 \<or> unat consumed + unat requested \<le> unat limit)
      \<and> unat n = unat consumed + unat requested \<and> unat av = unat limit - unat consumed"
    unfolding window_available nat_le_diff unat_eq_zero by metis
  finally show ?thesis .
qed

lemma tryConsumeWindow_rejects:
  "tryConsumeWindow consumed requested limit = Some (False, n, av) \<longleftrightarrow>
    requested \<noteq> 0 \<and> unat limit < unat consumed + unat requested
    \<and> n = consumed \<and> unat av = unat limit - unat consumed"
proof -
  let ?av = "if limit \<le> consumed then 0 else limit - consumed"
  have "tryConsumeWindow consumed requested limit = Some (False, n, av) \<longleftrightarrow>
      ?av < requested \<and> n = consumed \<and> av = ?av"
    unfolding tryConsumeWindow_def Let_def by auto
  also have "\<dots> \<longleftrightarrow> unat ?av < unat requested \<and> n = consumed \<and> unat av = unat ?av"
    using unat_eqD [of av ?av] by (auto simp only: word_less_nat_alt)
  also have "\<dots> \<longleftrightarrow> requested \<noteq> 0 \<and> unat limit < unat consumed + unat requested
      \<and> n = consumed \<and> unat av = unat limit - unat consumed"
    unfolding window_available linorder_not_le [symmetric] nat_le_diff unat_eq_zero by metis
  finally show ?thesis .
qed

text \<open>The sum is never reached with an overflow.\<close>

lemma tryConsumeWindow_total: "tryConsumeWindow consumed requested limit \<noteq> None"
proof (cases "requested = 0 \<or> unat consumed + unat requested \<le> unat limit")
  case True
  then have "unat consumed + unat requested < 2 ^ LENGTH(256)"
    using unat_bound [of consumed] unat_bound [of limit] by (auto simp del: unsigned_less)
  then show ?thesis
    by (auto simp: tryConsumeWindow_def Let_def checked_add_def)
next
  case False
  then have "tryConsumeWindow consumed requested limit
      = Some (False, consumed, if limit \<le> consumed then 0 else limit - consumed)"
    unfolding tryConsumeWindow_rejects window_available by simp
  then show ?thesis
    by simp
qed

text \<open>What the contract asks of an authorized mint, over the natural numbers.\<close>

definition window_used :: "MintTransitionInput \<Rightarrow> nat" where
  "window_used inp =
    (if unat (mti_windowStartedAt inp) + unat (mti_windowDuration inp) \<le> unat (mti_timestamp inp) then 0
     else unat (mti_consumedInWindow inp))"

definition mint_allowed :: "MintTransitionInput \<Rightarrow> bool" where
  "mint_allowed inp =
    (\<not> mti_paused inp \<and> \<not> mti_processed inp
     \<and> unat (mti_timestamp inp) \<le> unat (mti_deadline inp)
     \<and> unat (mti_deadline inp) \<le> unat (mti_timestamp inp) + 900
     \<and> unat (mti_timestamp inp) + 900 < 2 ^ 256
     \<and> mti_authorizationEpoch inp = mti_currentEpoch inp
     \<and> mti_recipient inp \<notin> {0, mti_bridge inp, mti_token inp}
     \<and> unat (mti_grossAmount inp) < 2 ^ 128 \<and> unat (mti_maximumFee inp) < 2 ^ 128
     \<and> mti_chargedFee inp \<le> mti_maximumFee inp \<and> mti_chargedFee inp \<le> mti_protocolMaximumFee inp
     \<and> unat (mti_chargedFee inp) < unat (mti_grossAmount inp)
     \<and> unat (mti_grossAmount inp) - unat (mti_chargedFee inp) \<le> unat (mti_perDepositLimit inp)
     \<and> (unat (mti_windowStartedAt inp) + unat (mti_windowDuration inp) \<le> unat (mti_timestamp inp)
        \<longrightarrow> unat (mti_timestamp inp) < 2 ^ 64)
     \<and> window_used inp + (unat (mti_grossAmount inp) - unat (mti_chargedFee inp))
        \<le> unat (mti_windowLimit inp))"

definition mint_effects_of :: "MintTransitionInput \<Rightarrow> MintEffects" where
  "mint_effects_of inp =
    (let reset = (unat (mti_windowStartedAt inp) + unat (mti_windowDuration inp) \<le> unat (mti_timestamp inp));
         net = mti_grossAmount inp - mti_chargedFee inp
     in \<lparr> me_processedAfter = True, me_windowReset = reset,
       me_windowStartedAtAfter = (if reset then ucast (mti_timestamp inp) else mti_windowStartedAt inp),
       me_windowConsumedAfter = (if reset then 0 else mti_consumedInWindow inp) + net,
       me_mintAmount = net, me_supplyIncrease = net, me_eventGrossAmount = mti_grossAmount inp,
       me_eventServiceFee = mti_chargedFee inp, me_eventMintedAmount = net \<rparr>)"

lemma U128_MAX_nat: "U128_MAX < w \<longleftrightarrow> \<not> unat w < 2 ^ 128"
  by (simp add: U128_MAX_def word_less_nat_alt linorder_not_less) linarith

lemma U64_MAX_nat: "U64_MAX < w \<longleftrightarrow> \<not> unat w < 2 ^ 64"
  by (simp add: U64_MAX_def word_less_nat_alt linorder_not_less) linarith

lemma evaluateMint_sound:
  assumes "evaluateMint inp = Some (RR_None, eff, av)"
  shows "mint_allowed inp \<and> eff = mint_effects_of inp"
proof -
  let ?reset = "unat (mti_windowStartedAt inp) + unat (mti_windowDuration inp) \<le> unat (mti_timestamp inp)"
  let ?gross = "mti_grossAmount inp" and ?fee = "mti_chargedFee inp"
  let ?net = "?gross - ?fee"
  note guards = assms [unfolded evaluateMint_def Let_def mintAmountWithinLimit_def windowExpired_exact]
  have g: "\<not> mti_paused inp" "mti_timestamp inp \<le> mti_deadline inp" "\<not> mti_processed inp"
    "mti_authorizationEpoch inp = mti_currentEpoch inp"
    "mti_recipient inp \<notin> {0, mti_bridge inp, mti_token inp}"
    "unat ?gross < 2 ^ 128" "unat (mti_maximumFee inp) < 2 ^ 128"
    "?fee \<le> mti_maximumFee inp" "?fee \<le> mti_protocolMaximumFee inp" "?fee < ?gross"
    "?net \<le> mti_perDepositLimit inp" "?reset \<longrightarrow> unat (mti_timestamp inp) < 2 ^ 64"
    using guards
    by (simp_all add: bind_eq_Some_conv deadlineAccepts_def depositAvailable_def epochMatches_def
        feeWithinBounds_def U128_MAX_nat U64_MAX_nat split: if_splits prod.splits)
  obtain latest where "checked_add (mti_timestamp inp) (15 * 60) = Some latest" "\<not> latest < mti_deadline inp"
    using guards g by (auto simp: bind_eq_Some_conv deadlineAccepts_def split: if_splits)
  then have deadline: "unat (mti_deadline inp) \<le> unat (mti_timestamp inp) + 900"
    "unat (mti_timestamp inp) + 900 < 2 ^ 256"
    using unat_bound [of latest] by (simp_all add: checked_add_eq_Some word_less_nat_alt)
  have net: "unat ?net = unat ?gross - unat ?fee"
    using g by (simp add: unat_sub_exact)
  obtain n where n: "tryConsumeWindow (if ?reset then 0 else mti_consumedInWindow inp) ?net
      (mti_windowLimit inp) = Some (True, n, av)"
    and eff: "eff = \<lparr> me_processedAfter = True, me_windowReset = ?reset,
       me_windowStartedAtAfter = (if ?reset then ucast (mti_timestamp inp) else mti_windowStartedAt inp),
       me_windowConsumedAfter = n,
       me_mintAmount = ?net, me_supplyIncrease = ?net, me_eventGrossAmount = ?gross,
       me_eventServiceFee = ?fee, me_eventMintedAmount = ?net \<rparr>"
    using guards g
    by (auto simp: bind_eq_Some_conv deadlineAccepts_def depositAvailable_def epochMatches_def
        feeWithinBounds_def U128_MAX_nat U64_MAX_nat mintEffectAmounts_def checked_sub_def
        split: if_splits)
  have "?net \<noteq> 0"
    using g by auto
  then have used: "window_used inp + (unat ?gross - unat ?fee) \<le> unat (mti_windowLimit inp)"
    and "unat n = unat (if ?reset then 0 else mti_consumedInWindow inp) + unat ?net"
    using n net by (auto simp: tryConsumeWindow_accepts window_used_def)
  moreover have "unat n < 2 ^ LENGTH(256)"
    by (rule unat_bound)
  ultimately have "n = (if ?reset then 0 else mti_consumedInWindow inp) + ?net"
    by (metis unat_add_exact unat_eqD)
  then have "eff = mint_effects_of inp"
    by (simp add: eff mint_effects_of_def Let_def)
  then show ?thesis
    using g deadline used net by (simp add: mint_allowed_def word_le_nat_alt word_less_nat_alt)
qed

lemma evaluateMint_complete:
  assumes allowed: "mint_allowed inp"
  shows "\<exists>av. evaluateMint inp = Some (RR_None, mint_effects_of inp, av)"
proof -
  let ?reset = "unat (mti_windowStartedAt inp) + unat (mti_windowDuration inp) \<le> unat (mti_timestamp inp)"
  let ?gross = "mti_grossAmount inp" and ?fee = "mti_chargedFee inp"
  let ?net = "?gross - ?fee" and ?consumed = "if ?reset then 0 else mti_consumedInWindow inp"
  have lt: "?fee < ?gross" and net: "unat ?net = unat ?gross - unat ?fee" "?net \<noteq> 0"
    using allowed by (auto simp: mint_allowed_def word_less_nat_alt unat_sub_exact word_le_nat_alt)
  have small: "unat ?consumed + unat ?net \<le> unat (mti_windowLimit inp)"
    using allowed net by (auto simp: mint_allowed_def window_used_def)
  then have "unat ?consumed + unat ?net < 2 ^ LENGTH(256)"
    using unat_bound [of "mti_windowLimit inp"] by linarith
  then have "unat (?consumed + ?net) = unat ?consumed + unat ?net"
    by (rule unat_add_exact)
  then obtain av where consume: "tryConsumeWindow ?consumed ?net (mti_windowLimit inp)
      = Some (True, ?consumed + ?net, av)"
    using small window_available [of "mti_windowLimit inp" ?consumed]
    by (metis (no_types) tryConsumeWindow_accepts)
  obtain latest where "checked_add (mti_timestamp inp) (15 * 60) = Some latest" "\<not> latest < mti_deadline inp"
    using allowed by (auto simp: mint_allowed_def checked_add_def word_less_nat_alt unat_add_exact)
  moreover have "\<not> mti_paused inp" "deadlineAccepts (mti_timestamp inp) (mti_deadline inp)"
    "depositAvailable (mti_processed inp)"
    "epochMatches (mti_authorizationEpoch inp) (mti_currentEpoch inp)"
    "mti_recipient inp \<noteq> 0" "\<not> (mti_recipient inp = mti_bridge inp \<or> mti_recipient inp = mti_token inp)"
    "\<not> U128_MAX < ?gross" "\<not> U128_MAX < mti_maximumFee inp" "\<not> U128_MAX < ?fee"
    "feeWithinBounds ?fee (mti_maximumFee inp) (mti_protocolMaximumFee inp)" "\<not> ?gross \<le> ?fee"
    "?net \<le> mti_perDepositLimit inp" "\<not> (?reset \<and> U64_MAX < mti_timestamp inp)"
    using allowed lt net(1)
    by (auto simp: mint_allowed_def deadlineAccepts_def depositAvailable_def epochMatches_def
        feeWithinBounds_def U128_MAX_def U64_MAX_def word_le_nat_alt word_less_nat_alt)
  moreover have "mintEffectAmounts ?gross ?fee = Some (?net, ?net, ?gross, ?fee, ?net)"
    using lt by (simp add: mintEffectAmounts_def checked_sub_def)
  ultimately show ?thesis
    using consume unfolding evaluateMint_def Let_def mintAmountWithinLimit_def windowExpired_exact
      mint_effects_of_def by simp
qed

end
