(* ===== verification/Base_Token.thy ===== *)
theory Base_Token
  imports Mint_Policy
begin

text \<open>
  The bSNS token on Base (\<open>contracts/src/BSNS.sol\<close>): minting and burning by the bridge, and signed
  transfers that use up a nonce of their signer.

  The ERC-20 ledger under it and the signature recovery are library code of OpenZeppelin.  They are
  parameters: \<open>erc20\<close> is the ledger's operations on a state of any type, where None is a revert, and
  \<open>crypto\<close> the hash functions and the recovery of a signer.  \<open>erc20_laws\<close> states the documented
  behaviour of the ledger.  A call returns the emitted events and the new state, or the error it
  reverts with.
\<close>

section \<open>Definitions\<close>

record 't erc20 =
  erc_balanceOf :: "'t \<Rightarrow> address \<Rightarrow> u256"
  erc_totalSupply :: "'t \<Rightarrow> u256"
  erc_mint :: "'t \<Rightarrow> address \<Rightarrow> u256 \<Rightarrow> 't option"
  erc_burn :: "'t \<Rightarrow> address \<Rightarrow> u256 \<Rightarrow> 't option"
  erc_transfer :: "'t \<Rightarrow> address \<Rightarrow> address \<Rightarrow> u256 \<Rightarrow> 't option"
  erc_transferFrom :: "'t \<Rightarrow> address \<Rightarrow> address \<Rightarrow> address \<Rightarrow> u256 \<Rightarrow> (bool \<times> 't) option"
  erc_approve :: "'t \<Rightarrow> address \<Rightarrow> address \<Rightarrow> u256 \<Rightarrow> 't option"

record crypto =
  cr_keccak256 :: "bytes \<Rightarrow> bytes32"
  cr_hashTypedDataV4 :: "string \<Rightarrow> string \<Rightarrow> address \<Rightarrow> bytes32 \<Rightarrow> bytes32"
  cr_recover :: "bytes32 \<Rightarrow> u8 \<Rightarrow> bytes32 \<Rightarrow> bytes32 \<Rightarrow> address option"
  cr_tryRecover :: "bytes32 \<Rightarrow> bytes \<Rightarrow> address option"

record msg_context =
  mc_sender :: address
  mc_timestamp :: u256
  mc_number :: u256

text \<open>\<open>abi.encode\<close> of values of one word each.\<close>

definition abi_word :: "u256 \<Rightarrow> bytes" where
  "abi_word w = to_be 32 (unat w)"

definition abi_encode :: "u256 list \<Rightarrow> bytes" where
  "abi_encode ws = concat (map abi_word ws)"

datatype bsns_error =
    OnlyBridge address
  | CallerMustBeRecipient address address
  | AuthorizationNotYetValid u256 u256
  | AuthorizationExpired u256 u256
  | AuthorizationAlreadyUsed address bytes32
  | InvalidAuthorizationSigner address address
  | InvalidSignature
  | Erc20Reverted

datatype bsns_event =
    AuthorizationUsed address bytes32
  | AuthorizationCanceled address bytes32

record 't BSNS =
  bs_address :: address
  bs_name :: string
  bs_symbol :: string
  bs_bridge :: address
  bs_decimals :: u8
  bs_ledger :: 't
  bs_authorizationStates :: "address \<Rightarrow> bytes32 \<Rightarrow> bool"

type_synonym 't bsns_result = "bsns_error + bsns_event list \<times> 't BSNS"

definition TRANSFER_WITH_AUTHORIZATION_TYPEHASH :: bytes32 where
  "TRANSFER_WITH_AUTHORIZATION_TYPEHASH =
    0x7c7c6cdb67a18743f49ec6fa9b35f50d52ed05cbed4cc592e13b44501c1a2267"

definition RECEIVE_WITH_AUTHORIZATION_TYPEHASH :: bytes32 where
  "RECEIVE_WITH_AUTHORIZATION_TYPEHASH =
    0xd099cc98ef71107a616c4f0f941f04c322d8e254fe26b3c6668db87aae413de8"

definition CANCEL_AUTHORIZATION_TYPEHASH :: bytes32 where
  "CANCEL_AUTHORIZATION_TYPEHASH =
    0x158b0a9edf7a828aad02f63cd515c68ef2f50ba807396f6d12842833a1597429"

definition bsns_version :: string where
  "bsns_version = ''1''"

definition bsns_constructor :: "address \<Rightarrow> 't \<Rightarrow> string \<Rightarrow> string \<Rightarrow> u8 \<Rightarrow> address \<Rightarrow> 't BSNS" where
  "bsns_constructor this ledger tokenName tokenSymbol tokenDecimals bridgeAddress =
    \<lparr> bs_address = this, bs_name = tokenName, bs_symbol = tokenSymbol, bs_bridge = bridgeAddress,
      bs_decimals = tokenDecimals, bs_ledger = ledger, bs_authorizationStates = (\<lambda>_ _. False) \<rparr>"

definition with_ledger :: "'t BSNS \<Rightarrow> 't option \<Rightarrow> 't bsns_result" where
  "with_ledger s r = (case r of
      None \<Rightarrow> Inl Erc20Reverted
    | Some ledger \<Rightarrow> Inr ([], s \<lparr> bs_ledger := ledger \<rparr>))"

definition bridgeMint :: "'t erc20 \<Rightarrow> msg_context \<Rightarrow> 't BSNS \<Rightarrow> address \<Rightarrow> u256 \<Rightarrow> 't bsns_result" where
  "bridgeMint E m s recipient amount =
    (if mc_sender m \<noteq> bs_bridge s then Inl (OnlyBridge (mc_sender m))
     else with_ledger s (erc_mint E (bs_ledger s) recipient amount))"

definition bridgeBurn :: "'t erc20 \<Rightarrow> msg_context \<Rightarrow> 't BSNS \<Rightarrow> u256 \<Rightarrow> 't bsns_result" where
  "bridgeBurn E m s amount =
    (if mc_sender m \<noteq> bs_bridge s then Inl (OnlyBridge (mc_sender m))
     else with_ledger s (erc_burn E (bs_ledger s) (mc_sender m) amount))"

definition authorizationState :: "'t BSNS \<Rightarrow> address \<Rightarrow> bytes32 \<Rightarrow> bool" where
  "authorizationState s authorizer nonce = bs_authorizationStates s authorizer nonce"

definition requireUnusedAuthorization :: "'t BSNS \<Rightarrow> address \<Rightarrow> bytes32 \<Rightarrow> bsns_error + unit" where
  "requireUnusedAuthorization s authorizer nonce =
    (if bs_authorizationStates s authorizer nonce then Inl (AuthorizationAlreadyUsed authorizer nonce)
     else Inr ())"

definition use_nonce :: "'t BSNS \<Rightarrow> address \<Rightarrow> bytes32 \<Rightarrow> 't BSNS" where
  "use_nonce s authorizer nonce = s \<lparr> bs_authorizationStates := (bs_authorizationStates s)
    (authorizer := (bs_authorizationStates s authorizer)(nonce := True)) \<rparr>"

definition requireSigner ::
    "crypto \<Rightarrow> 't BSNS \<Rightarrow> u256 list \<Rightarrow> u8 \<Rightarrow> bytes32 \<Rightarrow> bytes32 \<Rightarrow> address \<Rightarrow> bsns_error + unit" where
  "requireSigner C s ws v r sg expected =
    (let structHash = cr_keccak256 C (abi_encode ws) in
      try_bind (ok_or InvalidSignature
        (cr_recover C (cr_hashTypedDataV4 C (bs_name s) bsns_version (bs_address s) structHash) v r sg)) (\<lambda>recoveredSigner.
      if recoveredSigner \<noteq> expected then Inl (InvalidAuthorizationSigner recoveredSigner expected)
      else Inr ()))"

definition transferWithAuthorization_internal ::
    "'t erc20 \<Rightarrow> crypto \<Rightarrow> msg_context \<Rightarrow> 't BSNS \<Rightarrow> bytes32 \<Rightarrow> address \<Rightarrow> address \<Rightarrow> u256 \<Rightarrow> u256 \<Rightarrow> u256
      \<Rightarrow> bytes32 \<Rightarrow> u8 \<Rightarrow> bytes32 \<Rightarrow> bytes32 \<Rightarrow> 't bsns_result" where
  "transferWithAuthorization_internal E C m s typeHash sender receiver value validAfter validBefore nonce
      v r sg =
    (if mc_timestamp m \<le> validAfter then Inl (AuthorizationNotYetValid (mc_timestamp m) validAfter)
     else if validBefore \<le> mc_timestamp m then Inl (AuthorizationExpired (mc_timestamp m) validBefore)
     else try_bind (requireUnusedAuthorization s sender nonce) (\<lambda>_.
       try_bind (requireSigner C s
         [typeHash, ucast sender, ucast receiver, value, validAfter, validBefore, nonce] v r sg sender) (\<lambda>_.
       map_result (\<lambda>(_, s'). ([AuthorizationUsed sender nonce], s'))
         (with_ledger (use_nonce s sender nonce) (erc_transfer E (bs_ledger s) sender receiver value)))))"

definition transferWithAuthorization ::
    "'t erc20 \<Rightarrow> crypto \<Rightarrow> msg_context \<Rightarrow> 't BSNS \<Rightarrow> address \<Rightarrow> address \<Rightarrow> u256 \<Rightarrow> u256 \<Rightarrow> u256
      \<Rightarrow> bytes32 \<Rightarrow> u8 \<Rightarrow> bytes32 \<Rightarrow> bytes32 \<Rightarrow> 't bsns_result" where
  "transferWithAuthorization E C m s sender receiver value validAfter validBefore nonce v r sg =
    transferWithAuthorization_internal E C m s TRANSFER_WITH_AUTHORIZATION_TYPEHASH sender receiver value
      validAfter validBefore nonce v r sg"

definition receiveWithAuthorization ::
    "'t erc20 \<Rightarrow> crypto \<Rightarrow> msg_context \<Rightarrow> 't BSNS \<Rightarrow> address \<Rightarrow> address \<Rightarrow> u256 \<Rightarrow> u256 \<Rightarrow> u256
      \<Rightarrow> bytes32 \<Rightarrow> u8 \<Rightarrow> bytes32 \<Rightarrow> bytes32 \<Rightarrow> 't bsns_result" where
  "receiveWithAuthorization E C m s sender receiver value validAfter validBefore nonce v r sg =
    (if mc_sender m \<noteq> receiver then Inl (CallerMustBeRecipient (mc_sender m) receiver)
     else transferWithAuthorization_internal E C m s RECEIVE_WITH_AUTHORIZATION_TYPEHASH sender receiver value
       validAfter validBefore nonce v r sg)"

definition cancelAuthorization ::
    "crypto \<Rightarrow> 't BSNS \<Rightarrow> address \<Rightarrow> bytes32 \<Rightarrow> u8 \<Rightarrow> bytes32 \<Rightarrow> bytes32 \<Rightarrow> 't bsns_result" where
  "cancelAuthorization C s authorizer nonce v r sg =
    try_bind (requireUnusedAuthorization s authorizer nonce) (\<lambda>_.
    try_bind (requireSigner C s [CANCEL_AUTHORIZATION_TYPEHASH, ucast authorizer, nonce] v r sg authorizer) (\<lambda>_.
    Inr ([AuthorizationCanceled authorizer nonce], use_nonce s authorizer nonce)))"

text \<open>The calls that anyone can make, with the public functions inherited from the ERC-20.\<close>

datatype bsns_call =
    BridgeMintCall address u256
  | BridgeBurnCall u256
  | TransferCall address u256
  | ApproveCall address u256
  | TransferFromCall address address u256
  | TransferWithAuthorizationCall address address u256 u256 u256 bytes32 u8 bytes32 bytes32
  | ReceiveWithAuthorizationCall address address u256 u256 u256 bytes32 u8 bytes32 bytes32
  | CancelAuthorizationCall address bytes32 u8 bytes32 bytes32

definition bsns_call_step ::
    "'t erc20 \<Rightarrow> crypto \<Rightarrow> 't BSNS \<Rightarrow> msg_context \<times> bsns_call \<Rightarrow> 't bsns_result" where
  "bsns_call_step E C s mc = (case mc of (m, call) \<Rightarrow> (case call of
      BridgeMintCall recipient amount \<Rightarrow> bridgeMint E m s recipient amount
    | BridgeBurnCall amount \<Rightarrow> bridgeBurn E m s amount
    | TransferCall receiver value \<Rightarrow> with_ledger s (erc_transfer E (bs_ledger s) (mc_sender m) receiver value)
    | ApproveCall spender value \<Rightarrow> with_ledger s (erc_approve E (bs_ledger s) (mc_sender m) spender value)
    | TransferFromCall sender receiver value \<Rightarrow> with_ledger s (map_option snd
        (erc_transferFrom E (bs_ledger s) (mc_sender m) sender receiver value))
    | TransferWithAuthorizationCall sender receiver value va vb nonce v r sg \<Rightarrow>
        transferWithAuthorization E C m s sender receiver value va vb nonce v r sg
    | ReceiveWithAuthorizationCall sender receiver value va vb nonce v r sg \<Rightarrow>
        receiveWithAuthorization E C m s sender receiver value va vb nonce v r sg
    | CancelAuthorizationCall authorizer nonce v r sg \<Rightarrow>
        cancelAuthorization C s authorizer nonce v r sg))"

section \<open>The documented behaviour of an ERC-20 ledger\<close>

text \<open>The effects that the ERC-20 standard and the library's documentation give for the calls that
  succeed: minting and burning change the supply and one balance by the amount, a transfer moves the
  amount, and an approval changes neither.\<close>

definition moves :: "'t erc20 \<Rightarrow> 't \<Rightarrow> address \<Rightarrow> address \<Rightarrow> u256 \<Rightarrow> 't \<Rightarrow> bool" where
  "moves E t a b v t' = (erc_totalSupply E t' = erc_totalSupply E t
    \<and> (\<forall>c. unat (erc_balanceOf E t' c) + (if c = a then unat v else 0)
        = unat (erc_balanceOf E t c) + (if c = b then unat v else 0)))"

definition creates :: "'t erc20 \<Rightarrow> 't \<Rightarrow> address \<Rightarrow> u256 \<Rightarrow> 't \<Rightarrow> bool" where
  "creates E t a v t' = (unat (erc_totalSupply E t') = unat (erc_totalSupply E t) + unat v
    \<and> (\<forall>c. unat (erc_balanceOf E t' c) = unat (erc_balanceOf E t c) + (if c = a then unat v else 0)))"

definition erc20_laws :: "'t erc20 \<Rightarrow> bool" where
  "erc20_laws E =
    ((\<forall>t a v t'. erc_mint E t a v = Some t' \<longrightarrow> creates E t a v t')
     \<and> (\<forall>t a v t'. erc_burn E t a v = Some t' \<longrightarrow> creates E t' a v t)
     \<and> (\<forall>t a b v t'. erc_transfer E t a b v = Some t' \<longrightarrow> moves E t a b v t')
     \<and> (\<forall>t m a b v ok t'. erc_transferFrom E t m a b v = Some (ok, t') \<longrightarrow> ok \<and> moves E t a b v t')
     \<and> (\<forall>t a b v t'. erc_approve E t a b v = Some t' \<longrightarrow>
        erc_totalSupply E t' = erc_totalSupply E t \<and> erc_balanceOf E t' = erc_balanceOf E t))"

lemma erc20_lawsD:
  assumes "erc20_laws E"
  shows "erc_mint E t a v = Some t' \<Longrightarrow> creates E t a v t'"
    and "erc_burn E t a v = Some t' \<Longrightarrow> creates E t' a v t"
    and "erc_transfer E t a b v = Some t' \<Longrightarrow> moves E t a b v t'"
    and "erc_transferFrom E t m a b v = Some (ok, t') \<Longrightarrow> ok \<and> moves E t a b v t'"
    and "erc_approve E t a b v = Some t' \<Longrightarrow> erc_totalSupply E t' = erc_totalSupply E t"
  using assms unfolding erc20_laws_def by (simp_all, blast+)

lemma erc20_supply:
  assumes "erc20_laws E"
  shows "erc_mint E t a v = Some t' \<Longrightarrow> unat (erc_totalSupply E t') = unat (erc_totalSupply E t) + unat v"
    and "erc_burn E t a v = Some t' \<Longrightarrow> unat (erc_totalSupply E t) = unat (erc_totalSupply E t') + unat v"
    and "erc_transfer E t a b v = Some t' \<Longrightarrow> erc_totalSupply E t' = erc_totalSupply E t"
    and "erc_transferFrom E t m a b v = Some (ok, t') \<Longrightarrow> erc_totalSupply E t' = erc_totalSupply E t"
    and "erc_approve E t a b v = Some t' \<Longrightarrow> erc_totalSupply E t' = erc_totalSupply E t"
  by (auto dest!: erc20_lawsD [OF assms] simp: creates_def moves_def)

section \<open>Nonces\<close>

definition nonce_events :: "address \<Rightarrow> bytes32 \<Rightarrow> bsns_event list \<Rightarrow> nat" where
  "nonce_events a n es =
    length (filter (\<lambda>e. e = AuthorizationUsed a n \<or> e = AuthorizationCanceled a n) es)"

lemma nonce_events_simps [simp]:
  "nonce_events a n [] = 0"
  "nonce_events a n (e # es) = of_bool (e = AuthorizationUsed a n \<or> e = AuthorizationCanceled a n)
    + nonce_events a n es"
  "nonce_events a n (es @ es') = nonce_events a n es + nonce_events a n es'"
  by (simp_all add: nonce_events_def)

lemma with_ledger_Inr:
  "with_ledger s r = Inr (es, s') \<longleftrightarrow> es = [] \<and> (\<exists>l. r = Some l \<and> s' = s \<lparr> bs_ledger := l \<rparr>)"
  by (auto simp: with_ledger_def split: option.splits)

lemma use_nonce_sel [simp]:
  "bs_bridge (use_nonce s a n) = bs_bridge s" "bs_address (use_nonce s a n) = bs_address s"
  "bs_ledger (use_nonce s a n) = bs_ledger s"
  "bs_authorizationStates (use_nonce s a n) b k \<longleftrightarrow> (b = a \<and> k = n) \<or> bs_authorizationStates s b k"
  by (auto simp: use_nonce_def)

lemma require_unused_Inr [simp]:
  "requireUnusedAuthorization s a n = Inr x \<longleftrightarrow> \<not> bs_authorizationStates s a n"
  by (simp add: requireUnusedAuthorization_def)

lemma signed_transfer_Inr:
  "transferWithAuthorization_internal E C m s th a b v va vb n w r sg = Inr (es, s') \<Longrightarrow>
    es = [AuthorizationUsed a n] \<and> \<not> bs_authorizationStates s a n \<and> va < mc_timestamp m \<and> mc_timestamp m < vb
    \<and> cr_recover C (cr_hashTypedDataV4 C (bs_name s) bsns_version (bs_address s) (cr_keccak256 C
        (abi_encode [th, ucast a, ucast b, v, va, vb, n]))) w r sg = Some a
    \<and> (\<exists>l. erc_transfer E (bs_ledger s) a b v = Some l \<and> s' = (use_nonce s a n) \<lparr> bs_ledger := l \<rparr>)"
  by (auto simp: transferWithAuthorization_internal_def result_simps with_ledger_Inr requireSigner_def Let_def
      linorder_not_le split: if_splits)

text \<open>What an accepted call does to the nonces and to the fixed parts of the token.\<close>

lemma bsns_step_nonces:
  assumes "bsns_call_step E C s mc = Inr (es, s')"
  shows "nonce_events a n es + of_bool (bs_authorizationStates s a n) = of_bool (bs_authorizationStates s' a n)
    \<and> bs_bridge s' = bs_bridge s \<and> bs_address s' = bs_address s"
proof -
  obtain m call where mc: "mc = (m, call)"
    by (cases mc)
  show ?thesis
  proof (cases call)
    case (TransferWithAuthorizationCall x1 x2 x3 x4 x5 x6 x7 x8 x9)
    then show ?thesis
      using assms mc
      by (auto simp: bsns_call_step_def transferWithAuthorization_def dest!: signed_transfer_Inr)
  next
    case (ReceiveWithAuthorizationCall x1 x2 x3 x4 x5 x6 x7 x8 x9)
    then show ?thesis
      using assms mc
      by (auto simp: bsns_call_step_def receiveWithAuthorization_def dest!: signed_transfer_Inr split: if_splits)
  next
    case (CancelAuthorizationCall x1 x2 x3 x4 x5)
    then show ?thesis
      using assms mc by (auto simp: bsns_call_step_def cancelAuthorization_def result_simps)
  qed (use assms mc in \<open>auto simp: bsns_call_step_def bridgeMint_def bridgeBurn_def with_ledger_Inr split: if_splits\<close>)
qed

text \<open>The supply changes only by the bridge, by exactly the amount it mints or burns.\<close>

definition supply_credit :: "msg_context \<times> bsns_call \<Rightarrow> int" where
  "supply_credit mc = (case snd mc of
      BridgeMintCall _ amount \<Rightarrow> int (unat amount) | BridgeBurnCall amount \<Rightarrow> - int (unat amount) | _ \<Rightarrow> 0)"

lemma bsns_step_supply:
  assumes laws: "erc20_laws E" and "bsns_call_step E C s mc = Inr (es, s')"
  shows "int (unat (erc_totalSupply E (bs_ledger s')))
      = int (unat (erc_totalSupply E (bs_ledger s))) + supply_credit mc
    \<and> (supply_credit mc \<noteq> 0 \<longrightarrow> mc_sender (fst mc) = bs_bridge s)"
proof -
  obtain m call where mc: "mc = (m, call)"
    by (cases mc)
  show ?thesis
  proof (cases call)
    case (TransferWithAuthorizationCall x1 x2 x3 x4 x5 x6 x7 x8 x9)
    then show ?thesis
      using assms mc by (auto simp: bsns_call_step_def transferWithAuthorization_def supply_credit_def
          erc20_supply [OF laws] dest!: signed_transfer_Inr)
  next
    case (ReceiveWithAuthorizationCall x1 x2 x3 x4 x5 x6 x7 x8 x9)
    then show ?thesis
      using assms mc by (auto simp: bsns_call_step_def receiveWithAuthorization_def supply_credit_def
          erc20_supply [OF laws] dest!: signed_transfer_Inr split: if_splits)
  next
    case (CancelAuthorizationCall x1 x2 x3 x4 x5)
    then show ?thesis
      using assms mc by (auto simp: bsns_call_step_def cancelAuthorization_def result_simps supply_credit_def)
  qed (use assms mc in \<open>auto simp: bsns_call_step_def bridgeMint_def bridgeBurn_def with_ledger_Inr supply_credit_def
      dest: erc20_supply(1,2) [OF laws, THEN uint_of_sum] erc20_supply(3-5) [OF laws] split: if_splits\<close>)
qed

end
