(* ===== verification/Bridge_Contract.thy ===== *)
theory Bridge_Contract
  imports Base_Token
begin

text \<open>
  The bridge contract on Base (\<open>contracts/src/Bridge.sol\<close>): authorized mints of deposits,
  withdrawals that burn, and the administration split between a runtime administrator and a
  timelock.

  The state is the contract's storage together with the token contract it owns and the transient
  flag of the running transaction.  A call returns the emitted events and the new state, or the
  error it reverts with; a revert leaves the state as it was.  Immutable variables are fields that
  no function changes.  The checked arithmetic of the compiler reverts with \<open>BE_Panic\<close>.
\<close>

section \<open>Definitions\<close>

datatype bridge_error =
    BE_ZeroAddress
  | BE_RoleAddressesMustDiffer
  | BE_InvalidAmount u256
  | BE_InvalidPrincipal bytes
  | BE_InvalidServiceFee u256 u256
  | BE_ValueExceedsU128 u256
  | BE_BlockTimestampExceedsU64 u256
  | BE_InvalidMintWindowDuration u64 u64 u64
  | BE_ServiceFeeExceedsUserMaximum u256 u256
  | BE_BridgeSignerRotationRequired
  | BE_BridgeSignerAlreadyRetired address
  | BE_MintAuthorizationDeadlineTooFar u256 u256
  | BE_DepositAlreadyProcessed bytes32
  | BE_DepositMintLimitExceeded u256 u256
  | BE_MintWindowLimitExceeded u256 u256
  | BE_DepositMintsArePaused
  | BE_MintAuthorizationExpired u256 u256
  | BE_MintAuthorizationEpochMismatch u256 u256
  | BE_InvalidMintAuthorizationSignature
  | BE_WithdrawalsArePaused
  | BE_MultipleWithdrawalsInTransaction
  | BE_InvalidMintRecipient address
  | BE_TokenTransferFailed
  | BE_UnauthorizedRuntimeAdministrator address
  | BE_UnauthorizedBaseAdmin address
  | BE_TimelockCandidateHasNoCode address
  | BE_TimelockCandidateCodeHashMismatch address bytes32 bytes32
  | BE_TimelockCandidateIntrospectionFailed address
  | BE_TimelockCandidateDelayTooShort address u256 u256
  | BE_TimelockCandidateDelayTooLong address u256 u256
  | BE_TimelockCandidateMissingSelfAdmin address
  | BE_TimelockCandidateInvalidRoleMember address bytes32 address
  | BE_TimelockCandidateHasPendingOperations address u256
  | BE_Token bsns_error
  | BE_Panic

datatype bridge_event =
    DepositMinted bytes32 address bytes32 u256 u256 u256
  | WithdrawalCommitted u256 address u256 u256 u256 u256 bytes bytes32
  | ServiceFeeChanged address u256 u256
  | DepositMintsPaused address
  | DepositMintsUnpaused address
  | WithdrawalsPaused address
  | WithdrawalsUnpaused address
  | BridgeSignerChanged address address
  | MintAuthorizationEpochChanged address u256 u256
  | RuntimeAdministratorChanged address address
  | TokenEvent bsns_event

record BaseMintAuthorization =
  bma_depositId :: bytes32
  bma_recipient :: address
  bma_grossAmount :: u256
  bma_maxServiceFee :: u256
  bma_chargedServiceFee :: u256
  bma_deadline :: u256
  bma_authorizationEpoch :: u256

datatype WithdrawalStatus = WithdrawalStatus_None | WithdrawalStatus_Committed

record BaseWithdrawal =
  bw_requester :: address
  bw_amount :: u256
  bw_maxServiceFee :: u256
  bw_chargedServiceFee :: u256
  bw_amountOut :: u256
  bw_owner :: bytes
  bw_subaccount :: bytes32
  bw_status :: WithdrawalStatus

record StoredWithdrawal =
  sw_requester :: address
  sw_exists :: bool
  sw_amount :: u128
  sw_maxServiceFee :: u128
  sw_chargedServiceFee :: u128
  sw_owner :: bytes
  sw_subaccount :: bytes32

text \<open>A mapping entry that was never written.\<close>

definition no_withdrawal :: StoredWithdrawal where
  "no_withdrawal = \<lparr> sw_requester = 0, sw_exists = False, sw_amount = 0, sw_maxServiceFee = 0,
    sw_chargedServiceFee = 0, sw_owner = [], sw_subaccount = 0 \<rparr>"

record 't Bridge =
  br_this :: address
  br_bsns :: "'t BSNS"
  br_approvedTimelockRuntimeCodeHash :: bytes32
  br_MIN_SERVICE_FEE :: u256
  br_MAX_SERVICE_FEE :: u256
  br_bridgeSigner :: address
  br_mintAuthorizationEpoch :: u256
  br_runtimeAdministrator :: address
  br_baseAdminTimelock :: address
  br_serviceFee :: u256
  br_perDepositLimit :: u256
  br_mintWindowLimit :: u256
  br_mintWindowDuration :: u64
  br_mintWindowStartedAt :: u64
  br_mintedInWindow :: u256
  br_depositMintsPaused :: bool
  br_withdrawalsPaused :: bool
  br_nextWithdrawalId :: u256
  br_processedDeposits :: "bytes32 \<Rightarrow> bool"
  br_withdrawals :: "u256 \<Rightarrow> StoredWithdrawal"
  br_retiredBridgeSigners :: "address \<Rightarrow> bool"
  br_bridgeSignerAtLastPause :: address
  br_withdrawalClaimed :: bool

type_synonym 't bridge_result = "bridge_error + bridge_event list \<times> 't Bridge"

subsection \<open>Modifiers\<close>

definition onlyRuntimeAdministrator ::
    "msg_context \<Rightarrow> 't Bridge \<Rightarrow> 't bridge_result \<Rightarrow> 't bridge_result" where
  "onlyRuntimeAdministrator m s body =
    (if mc_sender m \<noteq> br_runtimeAdministrator s
     then Inl (BE_UnauthorizedRuntimeAdministrator (mc_sender m)) else body)"

definition onlyBaseAdminTimelock ::
    "msg_context \<Rightarrow> 't Bridge \<Rightarrow> 't bridge_result \<Rightarrow> 't bridge_result" where
  "onlyBaseAdminTimelock m s body =
    (if mc_sender m \<noteq> br_baseAdminTimelock s then Inl (BE_UnauthorizedBaseAdmin (mc_sender m)) else body)"

definition whenWithdrawalsActive :: "'t Bridge \<Rightarrow> 't bridge_result \<Rightarrow> 't bridge_result" where
  "whenWithdrawalsActive s body =
    (if br_withdrawalsPaused s then Inl BE_WithdrawalsArePaused else body)"

subsection \<open>Deployment\<close>

datatype DeploymentPolicy = ProductionPolicy | StagingPolicy

definition MINIMUM_TIMELOCK_DELAY :: "DeploymentPolicy \<Rightarrow> u256" where
  "MINIMUM_TIMELOCK_DELAY policy =
    (case policy of ProductionPolicy \<Rightarrow> 24 * 60 * 60 | StagingPolicy \<Rightarrow> 5 * 60)"

definition MAXIMUM_TIMELOCK_DELAY :: u256 where
  "MAXIMUM_TIMELOCK_DELAY = 30 * 24 * 60 * 60"

definition MINIMUM_MINT_WINDOW_DURATION :: u64 where
  "MINIMUM_MINT_WINDOW_DURATION = 60 * 60"

definition MAXIMUM_MINT_WINDOW_DURATION :: u64 where
  "MAXIMUM_MINT_WINDOW_DURATION = 30 * 24 * 60 * 60"

text \<open>What the contract can see of a timelock candidate; None is a call that reverts.\<close>

record timelock_view =
  tv_code_length :: nat
  tv_codehash :: bytes32
  tv_getMinDelay :: "u256 option"
  tv_hasRole :: "bytes32 \<Rightarrow> address \<Rightarrow> bool option"
  tv_roleMember :: "bytes32 \<Rightarrow> address option"
  tv_pendingOperationCount :: "u256 option"

definition string_bytes :: "string \<Rightarrow> bytes" where
  "string_bytes = map (\<lambda>c. word_of_nat (of_char c))"

definition PROPOSER_ROLE :: "crypto \<Rightarrow> bytes32" where
  "PROPOSER_ROLE C = cr_keccak256 C (string_bytes ''PROPOSER_ROLE'')"

definition CANCELLER_ROLE :: "crypto \<Rightarrow> bytes32" where
  "CANCELLER_ROLE C = cr_keccak256 C (string_bytes ''CANCELLER_ROLE'')"

definition EXECUTOR_ROLE :: "crypto \<Rightarrow> bytes32" where
  "EXECUTOR_ROLE C = cr_keccak256 C (string_bytes ''EXECUTOR_ROLE'')"

definition validateTimelockRole ::
    "timelock_view \<Rightarrow> address \<Rightarrow> bytes32 \<Rightarrow> address \<Rightarrow> bridge_error + unit" where
  "validateTimelockRole T candidate role requiredMember =
    try_bind (ok_or (BE_TimelockCandidateIntrospectionFailed candidate) (tv_roleMember T role)) (\<lambda>member.
    try_bind (ok_or BE_Panic (tv_hasRole T role member)) (\<lambda>memberHasRole.
    try_bind (if role \<noteq> 0 then ok_or BE_Panic (tv_hasRole T role 0) else Inr False) (\<lambda>roleIsOpen.
    if \<not> timelockRoleIsClosed member requiredMember memberHasRole roleIsOpen
    then Inl (BE_TimelockCandidateInvalidRoleMember candidate role member) else Inr ())))"

definition validateTimelockCandidate ::
    "DeploymentPolicy \<Rightarrow> crypto \<Rightarrow> timelock_view \<Rightarrow> bytes32 \<Rightarrow> address \<Rightarrow> bridge_error + unit" where
  "validateTimelockCandidate policy C T expectedCodeHash candidate =
    (let failed = BE_TimelockCandidateIntrospectionFailed candidate in
      if tv_code_length T = 0 then Inl (BE_TimelockCandidateHasNoCode candidate)
      else if tv_codehash T \<noteq> expectedCodeHash
      then Inl (BE_TimelockCandidateCodeHashMismatch candidate (tv_codehash T) expectedCodeHash)
      else try_bind (ok_or failed (tv_getMinDelay T)) (\<lambda>delay.
      try_bind (ok_or failed (tv_hasRole T 0 candidate)) (\<lambda>selfAdmin.
      if delay < MINIMUM_TIMELOCK_DELAY policy
      then Inl (BE_TimelockCandidateDelayTooShort candidate delay (MINIMUM_TIMELOCK_DELAY policy))
      else if \<not> timelockDelayIsValid delay (MINIMUM_TIMELOCK_DELAY policy) MAXIMUM_TIMELOCK_DELAY
      then Inl (BE_TimelockCandidateDelayTooLong candidate delay MAXIMUM_TIMELOCK_DELAY)
      else if \<not> selfAdmin then Inl (BE_TimelockCandidateMissingSelfAdmin candidate)
      else try_bind (validateTimelockRole T candidate 0 candidate) (\<lambda>_.
      try_bind (validateTimelockRole T candidate (PROPOSER_ROLE C) 0) (\<lambda>_.
      try_bind (validateTimelockRole T candidate (CANCELLER_ROLE C) 0) (\<lambda>_.
      try_bind (validateTimelockRole T candidate (EXECUTOR_ROLE C) 0) (\<lambda>_.
      try_bind (ok_or failed (tv_pendingOperationCount T)) (\<lambda>pending.
      if \<not> timelockHasNoPendingOperations pending
      then Inl (BE_TimelockCandidateHasPendingOperations candidate pending) else Inr ()))))))))"

text \<open>The constructor: \<open>this\<close> and \<open>tokenAddress\<close> are the addresses of the two new contracts and
  \<open>ledger\<close> the empty ledger of the token.\<close>

definition TOKEN_NAME :: string where
  "TOKEN_NAME = ''KINIC''"

definition TOKEN_SYMBOL :: string where
  "TOKEN_SYMBOL = ''KINIC''"

definition TOKEN_DECIMALS :: u8 where
  "TOKEN_DECIMALS = 8"

definition bridge_constructor ::
    "DeploymentPolicy \<Rightarrow> crypto \<Rightarrow> timelock_view \<Rightarrow> msg_context \<Rightarrow> address \<Rightarrow> address \<Rightarrow> 't
      \<Rightarrow> address \<Rightarrow> address \<Rightarrow> address \<Rightarrow> bytes32 \<Rightarrow> u256 \<Rightarrow> u256 \<Rightarrow> u64 \<Rightarrow> u256 \<Rightarrow> u256 \<Rightarrow> u256
      \<Rightarrow> bridge_error + 't Bridge" where
  "bridge_constructor policy C T m this tokenAddress ledger signer administrator timelock codeHash
      depositLimit windowLimit windowDuration minFee maxFee fee =
    (if \<not> rolesAreNonzero signer administrator timelock then Inl BE_ZeroAddress
     else if \<not> rolesAreDistinct signer administrator timelock then Inl BE_RoleAddressesMustDiffer
     else if \<not> limitsAreNonzero depositLimit windowLimit windowDuration \<or> minFee = 0 \<or> maxFee < minFee
     then Inl (BE_InvalidAmount 0)
     else if \<not> valuesFitU128 depositLimit windowLimit maxFee
     then Inl (BE_ValueExceedsU128 (if U128_MAX < depositLimit then depositLimit
       else if U128_MAX < windowLimit then windowLimit else maxFee))
     else if windowDuration < MINIMUM_MINT_WINDOW_DURATION \<or> MAXIMUM_MINT_WINDOW_DURATION < windowDuration
     then Inl (BE_InvalidMintWindowDuration windowDuration MINIMUM_MINT_WINDOW_DURATION
       MAXIMUM_MINT_WINDOW_DURATION)
     else if \<not> serviceFeeIsValid fee minFee maxFee then Inl (BE_InvalidServiceFee fee maxFee)
     else try_bind (validateTimelockCandidate policy C T codeHash timelock) (\<lambda>_.
       Inr \<lparr> br_this = this, br_bsns = bsns_constructor tokenAddress ledger TOKEN_NAME TOKEN_SYMBOL TOKEN_DECIMALS this,
         br_approvedTimelockRuntimeCodeHash = codeHash, br_MIN_SERVICE_FEE = minFee,
         br_MAX_SERVICE_FEE = maxFee, br_bridgeSigner = signer, br_mintAuthorizationEpoch = 1,
         br_runtimeAdministrator = administrator, br_baseAdminTimelock = timelock,
         br_serviceFee = fee, br_perDepositLimit = depositLimit, br_mintWindowLimit = windowLimit,
         br_mintWindowDuration = windowDuration, br_mintWindowStartedAt = ucast (mc_timestamp m),
         br_mintedInWindow = 0, br_depositMintsPaused = True, br_withdrawalsPaused = True,
         br_nextWithdrawalId = 1, br_processedDeposits = (\<lambda>_. False),
         br_withdrawals = (\<lambda>_. no_withdrawal), br_retiredBridgeSigners = (\<lambda>_. False),
         br_bridgeSignerAtLastPause = 0, br_withdrawalClaimed = False \<rparr>))"

subsection \<open>Mints\<close>

definition MINT_AUTHORIZATION_TYPE :: string where
  "MINT_AUTHORIZATION_TYPE = ''MintAuthorization(bytes32 depositId,address recipient,uint256 grossAmount,uint256 maxServiceFee,uint256 chargedServiceFee,uint256 deadline,uint256 authorizationEpoch)''"

text \<open>The arguments of the base constructor \<open>EIP712\<close>.\<close>

definition EIP712_NAME :: string where
  "EIP712_NAME = ''KINIC Bridge''"

definition EIP712_VERSION :: string where
  "EIP712_VERSION = ''1''"

definition mintAuthorizationDigest :: "crypto \<Rightarrow> 't Bridge \<Rightarrow> BaseMintAuthorization \<Rightarrow> bytes32" where
  "mintAuthorizationDigest C s a =
    cr_hashTypedDataV4 C EIP712_NAME EIP712_VERSION (br_this s) (cr_keccak256 C (abi_encode
      [cr_keccak256 C (string_bytes MINT_AUTHORIZATION_TYPE), bma_depositId a, ucast (bma_recipient a),
       bma_grossAmount a, bma_maxServiceFee a, bma_chargedServiceFee a, bma_deadline a,
       bma_authorizationEpoch a]))"

definition revertRejectedMint ::
    "msg_context \<Rightarrow> 't Bridge \<Rightarrow> RejectReason \<Rightarrow> BaseMintAuthorization \<Rightarrow> u256 \<Rightarrow> bridge_error + unit" where
  "revertRejectedMint m s reason a windowAvailable = (case reason of
      RR_None \<Rightarrow> Inr ()
    | RR_Paused \<Rightarrow> Inl BE_DepositMintsArePaused
    | RR_DeadlineTooFar \<Rightarrow>
        Inl (case checked_add (mc_timestamp m) (15 * 60) of None \<Rightarrow> BE_Panic
          | Some latest \<Rightarrow> BE_MintAuthorizationDeadlineTooFar (bma_deadline a) latest)
    | RR_Expired \<Rightarrow> Inl (BE_MintAuthorizationExpired (mc_timestamp m) (bma_deadline a))
    | RR_EpochMismatch \<Rightarrow>
        Inl (BE_MintAuthorizationEpochMismatch (bma_authorizationEpoch a) (br_mintAuthorizationEpoch s))
    | RR_ZeroRecipient \<Rightarrow> Inl BE_ZeroAddress
    | RR_InvalidRecipient \<Rightarrow> Inl (BE_InvalidMintRecipient (bma_recipient a))
    | RR_GrossExceedsU128 \<Rightarrow> Inl (BE_ValueExceedsU128 (bma_grossAmount a))
    | RR_MaximumFeeExceedsU128 \<Rightarrow> Inl (BE_ValueExceedsU128 (bma_maxServiceFee a))
    | RR_ChargedFeeExceedsU128 \<Rightarrow> Inl (BE_ValueExceedsU128 (bma_chargedServiceFee a))
    | RR_Processed \<Rightarrow> Inl (BE_DepositAlreadyProcessed (bma_depositId a))
    | RR_ProtocolFeeExceeded \<Rightarrow> Inl (BE_InvalidServiceFee (bma_chargedServiceFee a) (br_MAX_SERVICE_FEE s))
    | RR_UserFeeExceeded \<Rightarrow>
        Inl (BE_ServiceFeeExceedsUserMaximum (bma_chargedServiceFee a) (bma_maxServiceFee a))
    | RR_InvalidAmount \<Rightarrow> Inl (BE_InvalidAmount (bma_grossAmount a))
    | RR_PerDepositLimitExceeded \<Rightarrow>
        Inl (case checked_sub (bma_grossAmount a) (bma_chargedServiceFee a) of None \<Rightarrow> BE_Panic
          | Some net \<Rightarrow> BE_DepositMintLimitExceeded net (br_perDepositLimit s))
    | RR_WindowLimitExceeded \<Rightarrow>
        Inl (case checked_sub (bma_grossAmount a) (bma_chargedServiceFee a) of None \<Rightarrow> BE_Panic
          | Some net \<Rightarrow> BE_MintWindowLimitExceeded net windowAvailable)
    | RR_TimestampExceedsU64 \<Rightarrow> Inl (BE_BlockTimestampExceedsU64 (mc_timestamp m)))"

definition as_bridge :: "'t Bridge \<Rightarrow> msg_context \<Rightarrow> msg_context" where
  "as_bridge s m = m \<lparr> mc_sender := br_this s \<rparr>"

definition token_call ::
    "'t Bridge \<Rightarrow> 't bsns_result \<Rightarrow> (bridge_event list \<Rightarrow> 't Bridge \<Rightarrow> 't bridge_result) \<Rightarrow> 't bridge_result" where
  "token_call s r k = (case r of
      Inl e \<Rightarrow> Inl (BE_Token e)
    | Inr (es, token) \<Rightarrow> k (map TokenEvent es) (s \<lparr> br_bsns := token \<rparr>))"

definition commitAuthorizedMint ::
    "'t erc20 \<Rightarrow> msg_context \<Rightarrow> 't Bridge \<Rightarrow> BaseMintAuthorization \<Rightarrow> bytes32 \<Rightarrow> MintEffects
      \<Rightarrow> 't bridge_result" where
  "commitAuthorizedMint E m s a digest effects =
    (let s1 = s \<lparr> br_processedDeposits := (br_processedDeposits s)
             (bma_depositId a := me_processedAfter effects),
           br_mintWindowStartedAt := me_windowStartedAtAfter effects,
           br_mintedInWindow := me_windowConsumedAfter effects \<rparr>
     in token_call s1
       (bridgeMint E (as_bridge s m) (br_bsns s1) (bma_recipient a) (me_supplyIncrease effects))
       (\<lambda>es s2. Inr (es @ [DepositMinted (bma_depositId a) (bma_recipient a) digest
         (me_eventGrossAmount effects) (me_eventServiceFee effects) (me_eventMintedAmount effects)], s2)))"

definition mint_input :: "msg_context \<Rightarrow> 't Bridge \<Rightarrow> BaseMintAuthorization \<Rightarrow> MintTransitionInput" where
  "mint_input m s a =
    \<lparr> mti_timestamp = mc_timestamp m, mti_deadline = bma_deadline a,
      mti_authorizationEpoch = bma_authorizationEpoch a, mti_currentEpoch = br_mintAuthorizationEpoch s,
      mti_recipient = bma_recipient a, mti_bridge = br_this s, mti_token = bs_address (br_bsns s),
      mti_grossAmount = bma_grossAmount a, mti_maximumFee = bma_maxServiceFee a,
      mti_chargedFee = bma_chargedServiceFee a, mti_protocolMaximumFee = br_MAX_SERVICE_FEE s,
      mti_perDepositLimit = br_perDepositLimit s, mti_consumedInWindow = br_mintedInWindow s,
      mti_windowLimit = br_mintWindowLimit s, mti_windowStartedAt = br_mintWindowStartedAt s,
      mti_windowDuration = br_mintWindowDuration s, mti_paused = br_depositMintsPaused s,
      mti_processed = br_processedDeposits s (bma_depositId a) \<rparr>"

definition mintDepositWithAuthorization ::
    "'t erc20 \<Rightarrow> crypto \<Rightarrow> msg_context \<Rightarrow> 't Bridge \<Rightarrow> BaseMintAuthorization \<Rightarrow> bytes \<Rightarrow> 't bridge_result" where
  "mintDepositWithAuthorization E C m s a signature =
    (let digest = mintAuthorizationDigest C s a in
      if cr_tryRecover C digest signature \<noteq> Some (br_bridgeSigner s)
      then Inl BE_InvalidMintAuthorizationSignature
      else try_bind (ok_or BE_Panic (evaluateMint (mint_input m s a))) (\<lambda>(reason, effects, windowAvailable).
        try_bind (revertRejectedMint m s reason a windowAvailable) (\<lambda>_.
        commitAuthorizedMint E m s a digest effects)))"

subsection \<open>Withdrawals\<close>

definition claimWithdrawalTransaction :: "'t Bridge \<Rightarrow> bridge_error + 't Bridge" where
  "claimWithdrawalTransaction s =
    (if \<not> withdrawalClaimAllowed (br_withdrawalClaimed s) then Inl BE_MultipleWithdrawalsInTransaction
     else Inr (s \<lparr> br_withdrawalClaimed := True \<rparr>))"

definition principal_invalid :: "bytes \<Rightarrow> bool" where
  "principal_invalid owner = (length owner = 0 \<or> 29 < length owner \<or> owner = [4])"

definition createWithdrawal ::
    "'t erc20 \<Rightarrow> msg_context \<Rightarrow> 't Bridge \<Rightarrow> u256 \<Rightarrow> u256 \<Rightarrow> bytes \<Rightarrow> bytes32 \<Rightarrow> 't bridge_result" where
  "createWithdrawal E m s amount maxServiceFee owner subaccount =
    whenWithdrawalsActive s
    (if \<not> valueFitsU128 amount then Inl (BE_ValueExceedsU128 amount)
     else if \<not> valueFitsU128 maxServiceFee then Inl (BE_ValueExceedsU128 maxServiceFee)
     else if amount = 0 then Inl (BE_InvalidAmount amount)
     else let chargedServiceFee = br_serviceFee s in
       if maxServiceFee < chargedServiceFee
       then Inl (BE_ServiceFeeExceedsUserMaximum chargedServiceFee maxServiceFee)
       else if amount \<le> chargedServiceFee then Inl (BE_InvalidAmount amount)
       else if principal_invalid owner then Inl (BE_InvalidPrincipal owner)
       else try_bind (claimWithdrawalTransaction s) (\<lambda>s1.
         let withdrawalId = br_nextWithdrawalId s1 in
         try_bind (ok_or BE_Panic (checked_add withdrawalId 1)) (\<lambda>next.
         let s2 = s1 \<lparr> br_nextWithdrawalId := next,
           br_withdrawals := (br_withdrawals s1)(withdrawalId :=
             \<lparr> sw_requester = mc_sender m, sw_exists = True, sw_amount = ucast amount,
               sw_maxServiceFee = ucast maxServiceFee, sw_chargedServiceFee = ucast chargedServiceFee,
               sw_owner = owner, sw_subaccount = subaccount \<rparr>) \<rparr>
         in case erc_transferFrom E (bs_ledger (br_bsns s2)) (br_this s2) (mc_sender m) (br_this s2) amount of
             None \<Rightarrow> Inl (BE_Token Erc20Reverted)
           | Some (moved, ledger) \<Rightarrow>
               if \<not> moved then Inl BE_TokenTransferFailed
               else token_call s2
                 (bridgeBurn E (as_bridge s2 m) ((br_bsns s2) \<lparr> bs_ledger := ledger \<rparr>) amount)
                 (\<lambda>es s3. try_bind (ok_or BE_Panic (checked_sub amount chargedServiceFee)) (\<lambda>amountOut.
                   Inr (es @ [WithdrawalCommitted withdrawalId (mc_sender m) amount maxServiceFee
                     chargedServiceFee amountOut owner subaccount], s3))))))"

definition getWithdrawal :: "'t Bridge \<Rightarrow> u256 \<Rightarrow> bridge_error + BaseWithdrawal" where
  "getWithdrawal s withdrawalId =
    (let stored = br_withdrawals s withdrawalId in
      if \<not> sw_exists stored
      then Inr \<lparr> bw_requester = 0, bw_amount = 0, bw_maxServiceFee = 0, bw_chargedServiceFee = 0,
        bw_amountOut = 0, bw_owner = [], bw_subaccount = 0, bw_status = WithdrawalStatus_None \<rparr>
      else let amount = ucast (sw_amount stored); chargedServiceFee = ucast (sw_chargedServiceFee stored) in
        try_bind (ok_or BE_Panic (checked_sub amount chargedServiceFee)) (\<lambda>amountOut.
        Inr \<lparr> bw_requester = sw_requester stored, bw_amount = amount,
          bw_maxServiceFee = ucast (sw_maxServiceFee stored), bw_chargedServiceFee = chargedServiceFee,
          bw_amountOut = amountOut, bw_owner = sw_owner stored, bw_subaccount = sw_subaccount stored,
          bw_status = WithdrawalStatus_Committed \<rparr>))"

definition isDepositProcessed :: "'t Bridge \<Rightarrow> bytes32 \<Rightarrow> bool" where
  "isDepositProcessed s depositId = br_processedDeposits s depositId"

subsection \<open>Administration\<close>

definition setMintAuthorizationEpoch ::
    "msg_context \<Rightarrow> 't Bridge \<Rightarrow> u256 \<Rightarrow> bridge_event \<times> 't Bridge" where
  "setMintAuthorizationEpoch m s new_epoch =
    (MintAuthorizationEpochChanged (mc_sender m) (br_mintAuthorizationEpoch s) new_epoch,
     s \<lparr> br_mintAuthorizationEpoch := new_epoch \<rparr>)"

definition validateRoleSet :: "address \<Rightarrow> address \<Rightarrow> address \<Rightarrow> bridge_error + unit" where
  "validateRoleSet signer administrator timelock =
    (if \<not> rolesAreNonzero signer administrator timelock then Inl BE_ZeroAddress
     else if \<not> rolesAreDistinct signer administrator timelock then Inl BE_RoleAddressesMustDiffer
     else Inr ())"

definition pauseDepositMints :: "msg_context \<Rightarrow> 't Bridge \<Rightarrow> 't bridge_result" where
  "pauseDepositMints m s = onlyRuntimeAdministrator m s
    (if br_depositMintsPaused s then Inr ([], s)
     else try_bind (ok_or BE_Panic (adminEpochTransition (br_mintAuthorizationEpoch s) True)) (\<lambda>(_, new_epoch).
       let (event, s1) = setMintAuthorizationEpoch m (s \<lparr> br_depositMintsPaused := True,
           br_bridgeSignerAtLastPause := br_bridgeSigner s \<rparr>) new_epoch
       in Inr ([event, DepositMintsPaused (mc_sender m)], s1)))"

definition pauseWithdrawals :: "msg_context \<Rightarrow> 't Bridge \<Rightarrow> 't bridge_result" where
  "pauseWithdrawals m s = onlyRuntimeAdministrator m s
    (if br_withdrawalsPaused s then Inr ([], s)
     else Inr ([WithdrawalsPaused (mc_sender m)], s \<lparr> br_withdrawalsPaused := True \<rparr>))"

definition unpauseDepositMints :: "msg_context \<Rightarrow> 't Bridge \<Rightarrow> 't bridge_result" where
  "unpauseDepositMints m s = onlyBaseAdminTimelock m s
    (if \<not> br_depositMintsPaused s then Inr ([], s)
     else if br_bridgeSignerAtLastPause s \<noteq> 0 \<and> br_bridgeSigner s = br_bridgeSignerAtLastPause s
     then Inl BE_BridgeSignerRotationRequired
     else try_bind (ok_or BE_Panic (adminEpochTransition (br_mintAuthorizationEpoch s) True)) (\<lambda>(_, new_epoch).
       let (event, s1) = setMintAuthorizationEpoch m (s \<lparr> br_depositMintsPaused := False \<rparr>) new_epoch
       in Inr ([event, DepositMintsUnpaused (mc_sender m)], s1)))"

definition unpauseWithdrawals :: "msg_context \<Rightarrow> 't Bridge \<Rightarrow> 't bridge_result" where
  "unpauseWithdrawals m s = onlyBaseAdminTimelock m s
    (if \<not> br_withdrawalsPaused s then Inr ([], s)
     else Inr ([WithdrawalsUnpaused (mc_sender m)], s \<lparr> br_withdrawalsPaused := False \<rparr>))"

definition setServiceFee :: "msg_context \<Rightarrow> 't Bridge \<Rightarrow> u256 \<Rightarrow> 't bridge_result" where
  "setServiceFee m s newServiceFee = onlyRuntimeAdministrator m s
    (if \<not> serviceFeeIsValid newServiceFee (br_MIN_SERVICE_FEE s) (br_MAX_SERVICE_FEE s)
     then Inl (BE_InvalidServiceFee newServiceFee (br_MAX_SERVICE_FEE s))
     else if newServiceFee = br_serviceFee s then Inr ([], s)
     else Inr ([ServiceFeeChanged (mc_sender m) (br_serviceFee s) newServiceFee],
       s \<lparr> br_serviceFee := newServiceFee \<rparr>))"

definition rotateBridgeSigner :: "msg_context \<Rightarrow> 't Bridge \<Rightarrow> address \<Rightarrow> 't bridge_result" where
  "rotateBridgeSigner m s newSigner = onlyBaseAdminTimelock m s
    (try_bind (ok_or BE_Panic (signerRotationEpoch (br_mintAuthorizationEpoch s) (br_bridgeSigner s) newSigner))
      (\<lambda>(changed, new_epoch).
      if \<not> changed then Inr ([], s)
      else if br_retiredBridgeSigners s newSigner then Inl (BE_BridgeSignerAlreadyRetired newSigner)
      else try_bind (validateRoleSet newSigner (br_runtimeAdministrator s) (br_baseAdminTimelock s)) (\<lambda>_.
        let (event, s1) = setMintAuthorizationEpoch m
          (s \<lparr> br_retiredBridgeSigners := (br_retiredBridgeSigners s)(br_bridgeSigner s := True),
             br_bridgeSigner := newSigner \<rparr>) new_epoch
        in Inr ([event, BridgeSignerChanged (br_bridgeSigner s) newSigner], s1))))"

definition rotateRuntimeAdministrator :: "msg_context \<Rightarrow> 't Bridge \<Rightarrow> address \<Rightarrow> 't bridge_result" where
  "rotateRuntimeAdministrator m s newAdministrator = onlyBaseAdminTimelock m s
    (if newAdministrator = br_runtimeAdministrator s then Inr ([], s)
     else try_bind (validateRoleSet (br_bridgeSigner s) newAdministrator (br_baseAdminTimelock s)) (\<lambda>_.
       Inr ([RuntimeAdministratorChanged (br_runtimeAdministrator s) newAdministrator],
         s \<lparr> br_runtimeAdministrator := newAdministrator \<rparr>)))"

record BridgeSnapshot =
  bsn_blockNumber :: u256
  bsn_blockTimestamp :: u256
  bsn_bridgeSigner :: address
  bsn_mintAuthorizationEpoch :: u256
  bsn_serviceFee :: u256
  bsn_maxServiceFee :: u256
  bsn_perDepositLimit :: u256
  bsn_mintWindowLimit :: u256
  bsn_mintWindowDuration :: u64
  bsn_mintWindowStartedAt :: u64
  bsn_mintedInWindow :: u256
  bsn_depositMintsPaused :: bool
  bsn_withdrawalsPaused :: bool

definition bridgeSnapshot :: "msg_context \<Rightarrow> 't Bridge \<Rightarrow> BridgeSnapshot" where
  "bridgeSnapshot m s =
    \<lparr> bsn_blockNumber = mc_number m, bsn_blockTimestamp = mc_timestamp m,
      bsn_bridgeSigner = br_bridgeSigner s, bsn_mintAuthorizationEpoch = br_mintAuthorizationEpoch s,
      bsn_serviceFee = br_serviceFee s, bsn_maxServiceFee = br_MAX_SERVICE_FEE s,
      bsn_perDepositLimit = br_perDepositLimit s, bsn_mintWindowLimit = br_mintWindowLimit s,
      bsn_mintWindowDuration = br_mintWindowDuration s,
      bsn_mintWindowStartedAt = br_mintWindowStartedAt s, bsn_mintedInWindow = br_mintedInWindow s,
      bsn_depositMintsPaused = br_depositMintsPaused s, bsn_withdrawalsPaused = br_withdrawalsPaused s \<rparr>"

end
