(* ===== verification/Bridge_Invariants.thy ===== *)
theory Bridge_Invariants
  imports Bridge_Contract Event_Machine
begin

text \<open>
  What the bridge contract promises over any sequence of calls by anyone: each deposit is minted at
  most once, the supply of the token is what was minted less what was burned, minting is limited in
  any span of time, a pause revokes every outstanding authorization and the signer of the time, and
  a committed withdrawal is permanent.

  \<open>base_step\<close> is one call from outside, to the bridge or to the token.  No outside account has the
  address of the bridge itself, so a call with that sender is not one of the possible calls
  (\<open>Inl None\<close>); \<open>Inl (Some e)\<close> is a revert.  \<open>NewTransaction\<close> is the boundary between two
  transactions, where the transient storage is cleared.
\<close>

datatype base_call =
    NewTransaction
  | MintCall BaseMintAuthorization bytes
  | WithdrawCall u256 u256 bytes bytes32
  | PauseMintsCall
  | PauseWithdrawalsCall
  | UnpauseMintsCall
  | UnpauseWithdrawalsCall
  | SetFeeCall u256
  | RotateSignerCall address
  | RotateAdministratorCall address
  | TokenCall bsns_call

definition base_call_result ::
    "'t erc20 \<Rightarrow> crypto \<Rightarrow> 't Bridge \<Rightarrow> msg_context \<Rightarrow> base_call \<Rightarrow> 't bridge_result" where
  "base_call_result E C s m call = (case call of
      NewTransaction \<Rightarrow> Inr ([], s \<lparr> br_withdrawalClaimed := False \<rparr>)
    | MintCall a signature \<Rightarrow> mintDepositWithAuthorization E C m s a signature
    | WithdrawCall amount maxServiceFee owner subaccount \<Rightarrow>
        createWithdrawal E m s amount maxServiceFee owner subaccount
    | PauseMintsCall \<Rightarrow> pauseDepositMints m s
    | PauseWithdrawalsCall \<Rightarrow> pauseWithdrawals m s
    | UnpauseMintsCall \<Rightarrow> unpauseDepositMints m s
    | UnpauseWithdrawalsCall \<Rightarrow> unpauseWithdrawals m s
    | SetFeeCall fee \<Rightarrow> setServiceFee m s fee
    | RotateSignerCall signer \<Rightarrow> rotateBridgeSigner m s signer
    | RotateAdministratorCall administrator \<Rightarrow> rotateRuntimeAdministrator m s administrator
    | TokenCall c \<Rightarrow>
        token_call s (bsns_call_step E C (br_bsns s) (m, c)) (\<lambda>es s'. Inr (es, s')))"

definition base_step ::
    "'t erc20 \<Rightarrow> crypto \<Rightarrow> ('t Bridge, msg_context \<times> base_call, bridge_error option, bridge_event list) machine" where
  "base_step E C s mc =
    (if mc_sender (fst mc) = br_this s then Inl None
     else case base_call_result E C s (fst mc) (snd mc) of Inl e \<Rightarrow> Inl (Some e) | Inr r \<Rightarrow> Inr r)"

section \<open>What each call does\<close>

lemma token_call_Inr:
  "token_call s r k = Inr x \<longleftrightarrow>
    (\<exists>es token. r = Inr (es, token) \<and> k (map TokenEvent es) (s \<lparr> br_bsns := token \<rparr>) = Inr x)"
  by (auto simp: token_call_def split: sum.splits)

lemma mint_input_sel [simp]:
  "mti_timestamp (mint_input m s a) = mc_timestamp m" "mti_deadline (mint_input m s a) = bma_deadline a"
  "mti_paused (mint_input m s a) = br_depositMintsPaused s"
  "mti_authorizationEpoch (mint_input m s a) = bma_authorizationEpoch a"
  "mti_currentEpoch (mint_input m s a) = br_mintAuthorizationEpoch s"
  "mti_processed (mint_input m s a) = br_processedDeposits s (bma_depositId a)"
  "mti_grossAmount (mint_input m s a) = bma_grossAmount a"
  "mti_chargedFee (mint_input m s a) = bma_chargedServiceFee a"
  "mti_windowLimit (mint_input m s a) = br_mintWindowLimit s"
  "mti_windowStartedAt (mint_input m s a) = br_mintWindowStartedAt s"
  "mti_windowDuration (mint_input m s a) = br_mintWindowDuration s"
  "mti_consumedInWindow (mint_input m s a) = br_mintedInWindow s"
  "mti_recipient (mint_input m s a) = bma_recipient a"
  "mti_perDepositLimit (mint_input m s a) = br_perDepositLimit s"
  by (simp_all add: mint_input_def)

definition window_over :: "msg_context \<Rightarrow> 't Bridge \<Rightarrow> bool" where
  "window_over m s \<longleftrightarrow>
    unat (br_mintWindowStartedAt s) + unat (br_mintWindowDuration s) \<le> unat (mc_timestamp m)"

text \<open>The state after an accepted mint.\<close>

definition minted_state ::
    "msg_context \<Rightarrow> 't Bridge \<Rightarrow> BaseMintAuthorization \<Rightarrow> 't \<Rightarrow> 't Bridge" where
  "minted_state m s a ledger =
    s \<lparr> br_processedDeposits := (br_processedDeposits s)(bma_depositId a := True),
        br_mintWindowStartedAt := (if window_over m s then ucast (mc_timestamp m) else br_mintWindowStartedAt s),
        br_mintedInWindow := (if window_over m s then 0 else br_mintedInWindow s)
          + (bma_grossAmount a - bma_chargedServiceFee a),
        br_bsns := (br_bsns s) \<lparr> bs_ledger := ledger \<rparr> \<rparr>"

lemma revertRejectedMint_Inr: "revertRejectedMint m s reason a av = Inr x \<longleftrightarrow> reason = RR_None"
  by (cases reason) (simp_all add: revertRejectedMint_def)

lemma mint_Inr:
  assumes "mintDepositWithAuthorization E C m s a signature = Inr (es, s')"
  obtains ledger where "mint_allowed (mint_input m s a)"
    "cr_tryRecover C (mintAuthorizationDigest C s a) signature = Some (br_bridgeSigner s)"
    "erc_mint E (bs_ledger (br_bsns s)) (bma_recipient a) (bma_grossAmount a - bma_chargedServiceFee a)
      = Some ledger"
    "es = [DepositMinted (bma_depositId a) (bma_recipient a) (mintAuthorizationDigest C s a)
      (bma_grossAmount a) (bma_chargedServiceFee a) (bma_grossAmount a - bma_chargedServiceFee a)]"
    "s' = minted_state m s a ledger"
proof -
  obtain eff av where ev: "evaluateMint (mint_input m s a) = Some (RR_None, eff, av)"
    and rec: "cr_tryRecover C (mintAuthorizationDigest C s a) signature = Some (br_bridgeSigner s)"
    and com: "commitAuthorizedMint E m s a (mintAuthorizationDigest C s a) eff = Inr (es, s')"
    using assms by (auto simp: mintDepositWithAuthorization_def Let_def result_simps
        revertRejectedMint_Inr split: if_splits)
  note allowed = evaluateMint_sound [OF ev]
  have eff: "eff = mint_effects_of (mint_input m s a)"
    using allowed by simp
  obtain ledger where "erc_mint E (bs_ledger (br_bsns s)) (bma_recipient a)
      (bma_grossAmount a - bma_chargedServiceFee a) = Some ledger"
    "es = [DepositMinted (bma_depositId a) (bma_recipient a) (mintAuthorizationDigest C s a)
      (bma_grossAmount a) (bma_chargedServiceFee a) (bma_grossAmount a - bma_chargedServiceFee a)]"
    "s' = minted_state m s a ledger"
    using com by (auto simp: commitAuthorizedMint_def Let_def token_call_Inr bridgeMint_def with_ledger_Inr
      eff mint_effects_of_def minted_state_def window_over_def split: if_splits)
  then show thesis
    using that allowed rec by blast
qed

text \<open>The state after an accepted withdrawal.\<close>

definition withdrawn_state ::
    "msg_context \<Rightarrow> 't Bridge \<Rightarrow> u256 \<Rightarrow> u256 \<Rightarrow> bytes \<Rightarrow> bytes32 \<Rightarrow> 't \<Rightarrow> 't Bridge" where
  "withdrawn_state m s amount maxFee owner subaccount ledger =
    s \<lparr> br_nextWithdrawalId := br_nextWithdrawalId s + 1,
        br_withdrawals := (br_withdrawals s)(br_nextWithdrawalId s :=
          \<lparr> sw_requester = mc_sender m, sw_exists = True, sw_amount = ucast amount,
            sw_maxServiceFee = ucast maxFee, sw_chargedServiceFee = ucast (br_serviceFee s),
            sw_owner = owner, sw_subaccount = subaccount \<rparr>),
        br_withdrawalClaimed := True,
        br_bsns := (br_bsns s) \<lparr> bs_ledger := ledger \<rparr> \<rparr>"

lemma withdraw_Inr:
  assumes "createWithdrawal E m s amount maxFee owner subaccount = Inr (es, s')"
  obtains l1 ledger where "\<not> br_withdrawalsPaused s" "\<not> br_withdrawalClaimed s"
    "valueFitsU128 amount" "valueFitsU128 maxFee" "br_serviceFee s \<le> maxFee" "br_serviceFee s < amount"
    "\<not> principal_invalid owner" "unat (br_nextWithdrawalId s + 1) = unat (br_nextWithdrawalId s) + 1"
    "erc_transferFrom E (bs_ledger (br_bsns s)) (br_this s) (mc_sender m) (br_this s) amount = Some (True, l1)"
    "erc_burn E l1 (br_this s) amount = Some ledger"
    "es = [WithdrawalCommitted (br_nextWithdrawalId s) (mc_sender m) amount maxFee (br_serviceFee s)
      (amount - br_serviceFee s) owner subaccount]"
    "s' = withdrawn_state m s amount maxFee owner subaccount ledger"
proof -
  have guards: "\<not> br_withdrawalsPaused s" "\<not> br_withdrawalClaimed s"
    "valueFitsU128 amount" "valueFitsU128 maxFee" "br_serviceFee s \<le> maxFee" "br_serviceFee s < amount"
    "\<not> principal_invalid owner"
    using assms by (auto simp: createWithdrawal_def whenWithdrawalsActive_def Let_def result_simps
        claimWithdrawalTransaction_def withdrawalClaimAllowed_def split: if_splits)
  obtain n where n: "checked_add (br_nextWithdrawalId s) 1 = Some n"
    using assms guards by (auto simp: createWithdrawal_def whenWithdrawalsActive_def Let_def result_simps
        claimWithdrawalTransaction_def withdrawalClaimAllowed_def split: if_splits)
  then have nx: "n = br_nextWithdrawalId s + 1" "unat (br_nextWithdrawalId s + 1) = unat (br_nextWithdrawalId s) + 1"
    by (auto simp: checked_add_def unat_add_exact split: if_splits)
  obtain l1 ledger where
    "erc_transferFrom E (bs_ledger (br_bsns s)) (br_this s) (mc_sender m) (br_this s) amount = Some (True, l1)"
    "erc_burn E l1 (br_this s) amount = Some ledger"
    "es = [WithdrawalCommitted (br_nextWithdrawalId s) (mc_sender m) amount maxFee (br_serviceFee s)
      (amount - br_serviceFee s) owner subaccount]"
    "s' = withdrawn_state m s amount maxFee owner subaccount ledger"
    using assms guards n
    by (auto simp: createWithdrawal_def whenWithdrawalsActive_def Let_def result_simps as_bridge_def
        claimWithdrawalTransaction_def withdrawalClaimAllowed_def token_call_Inr bridgeBurn_def with_ledger_Inr
        checked_sub_def withdrawn_state_def nx split: if_splits option.splits)
  then show thesis
    using that guards nx by blast
qed

section \<open>The transitions of the contract\<close>

text \<open>Every accepted call is one of these transitions, with the conditions that the invariants need.\<close>

inductive bridge_transition ::
    "'t erc20 \<Rightarrow> crypto \<Rightarrow> msg_context \<Rightarrow> 't Bridge \<Rightarrow> bridge_event list \<Rightarrow> 't Bridge \<Rightarrow> bool"
  for E C m s where
  unchanged: "bridge_transition E C m s [] s"
| cleared: "bridge_transition E C m s [] (s \<lparr> br_withdrawalClaimed := False \<rparr>)"
| minted: "mint_allowed (mint_input m s a) \<Longrightarrow>
    cr_tryRecover C (mintAuthorizationDigest C s a) signature = Some (br_bridgeSigner s) \<Longrightarrow>
    erc_mint E (bs_ledger (br_bsns s)) (bma_recipient a) (bma_grossAmount a - bma_chargedServiceFee a)
      = Some ledger \<Longrightarrow>
    bridge_transition E C m s
      [DepositMinted (bma_depositId a) (bma_recipient a) (mintAuthorizationDigest C s a)
        (bma_grossAmount a) (bma_chargedServiceFee a) (bma_grossAmount a - bma_chargedServiceFee a)]
      (minted_state m s a ledger)"
| withdrawn: "\<not> br_withdrawalsPaused s \<Longrightarrow> \<not> br_withdrawalClaimed s \<Longrightarrow> valueFitsU128 amount \<Longrightarrow>
    valueFitsU128 maxFee \<Longrightarrow> br_serviceFee s \<le> maxFee \<Longrightarrow> br_serviceFee s < amount \<Longrightarrow>
    \<not> principal_invalid owner \<Longrightarrow> unat (br_nextWithdrawalId s + 1) = unat (br_nextWithdrawalId s) + 1 \<Longrightarrow>
    erc_transferFrom E (bs_ledger (br_bsns s)) (br_this s) (mc_sender m) (br_this s) amount = Some (True, l1) \<Longrightarrow>
    erc_burn E l1 (br_this s) amount = Some ledger \<Longrightarrow>
    bridge_transition E C m s
      [WithdrawalCommitted (br_nextWithdrawalId s) (mc_sender m) amount maxFee (br_serviceFee s)
        (amount - br_serviceFee s) owner subaccount]
      (withdrawn_state m s amount maxFee owner subaccount ledger)"
| mints_paused: "mc_sender m = br_runtimeAdministrator s \<Longrightarrow> \<not> br_depositMintsPaused s \<Longrightarrow>
    unat e = unat (br_mintAuthorizationEpoch s) + 1 \<Longrightarrow>
    bridge_transition E C m s
      [MintAuthorizationEpochChanged (mc_sender m) (br_mintAuthorizationEpoch s) e, DepositMintsPaused (mc_sender m)]
      (s \<lparr> br_depositMintsPaused := True, br_bridgeSignerAtLastPause := br_bridgeSigner s,
         br_mintAuthorizationEpoch := e \<rparr>)"
| mints_unpaused: "mc_sender m = br_baseAdminTimelock s \<Longrightarrow> br_depositMintsPaused s \<Longrightarrow>
    \<not> (br_bridgeSignerAtLastPause s \<noteq> 0 \<and> br_bridgeSigner s = br_bridgeSignerAtLastPause s) \<Longrightarrow>
    unat e = unat (br_mintAuthorizationEpoch s) + 1 \<Longrightarrow>
    bridge_transition E C m s
      [MintAuthorizationEpochChanged (mc_sender m) (br_mintAuthorizationEpoch s) e, DepositMintsUnpaused (mc_sender m)]
      (s \<lparr> br_depositMintsPaused := False, br_mintAuthorizationEpoch := e \<rparr>)"
| withdrawals_paused: "mc_sender m = br_runtimeAdministrator s \<Longrightarrow>
    bridge_transition E C m s [WithdrawalsPaused (mc_sender m)] (s \<lparr> br_withdrawalsPaused := True \<rparr>)"
| withdrawals_unpaused: "mc_sender m = br_baseAdminTimelock s \<Longrightarrow>
    bridge_transition E C m s [WithdrawalsUnpaused (mc_sender m)] (s \<lparr> br_withdrawalsPaused := False \<rparr>)"
| fee_set: "mc_sender m = br_runtimeAdministrator s \<Longrightarrow>
    serviceFeeIsValid fee (br_MIN_SERVICE_FEE s) (br_MAX_SERVICE_FEE s) \<Longrightarrow>
    bridge_transition E C m s [ServiceFeeChanged (mc_sender m) (br_serviceFee s) fee] (s \<lparr> br_serviceFee := fee \<rparr>)"
| signer_rotated: "mc_sender m = br_baseAdminTimelock s \<Longrightarrow> br_bridgeSigner s \<noteq> signer \<Longrightarrow>
    \<not> br_retiredBridgeSigners s signer \<Longrightarrow>
    rolesAreNonzero signer (br_runtimeAdministrator s) (br_baseAdminTimelock s) \<Longrightarrow>
    rolesAreDistinct signer (br_runtimeAdministrator s) (br_baseAdminTimelock s) \<Longrightarrow>
    unat e = unat (br_mintAuthorizationEpoch s) + 1 \<Longrightarrow>
    bridge_transition E C m s
      [MintAuthorizationEpochChanged (mc_sender m) (br_mintAuthorizationEpoch s) e,
       BridgeSignerChanged (br_bridgeSigner s) signer]
      (s \<lparr> br_retiredBridgeSigners := (br_retiredBridgeSigners s)(br_bridgeSigner s := True),
         br_bridgeSigner := signer, br_mintAuthorizationEpoch := e \<rparr>)"
| administrator_rotated: "mc_sender m = br_baseAdminTimelock s \<Longrightarrow>
    rolesAreNonzero (br_bridgeSigner s) administrator (br_baseAdminTimelock s) \<Longrightarrow>
    rolesAreDistinct (br_bridgeSigner s) administrator (br_baseAdminTimelock s) \<Longrightarrow>
    bridge_transition E C m s [RuntimeAdministratorChanged (br_runtimeAdministrator s) administrator]
      (s \<lparr> br_runtimeAdministrator := administrator \<rparr>)"
| token: "mc_sender m \<noteq> br_this s \<Longrightarrow> bsns_call_step E C (br_bsns s) (m, c) = Inr (es, t) \<Longrightarrow>
    bridge_transition E C m s (map TokenEvent es) (s \<lparr> br_bsns := t \<rparr>)"

inductive_cases bridge_transitionE: "bridge_transition E C m s es s'"

lemma epoch_step:
  "adminEpochTransition e True = Some (b, e') \<longleftrightarrow> b \<and> unat e' = unat e + 1"
  "signerRotationEpoch e x y = Some (b, e') \<longleftrightarrow>
    (if x = y then \<not> b \<and> e' = e else b \<and> unat e' = unat e + 1)"
  by (auto simp: adminEpochTransition_def signerRotationEpoch_def nextEpoch_def checked_add_eq_Some)

lemma base_step_transition:
  assumes "base_step E C s (m, call) = Inr (es, s')"
  shows "bridge_transition E C m s es s'"
proof -
  have r: "base_call_result E C s m call = Inr (es, s')" and other: "mc_sender m \<noteq> br_this s"
    using assms by (auto simp: base_step_def split: if_splits sum.splits)
  show ?thesis
  proof (cases call)
    case (MintCall a signature)
    then have "mintDepositWithAuthorization E C m s a signature = Inr (es, s')"
      using r by (simp add: base_call_result_def)
    then show ?thesis
      by (rule mint_Inr) (use minted in metis)
  next
    case (WithdrawCall amount maxFee owner subaccount)
    then have "createWithdrawal E m s amount maxFee owner subaccount = Inr (es, s')"
      using r by (simp add: base_call_result_def)
    then show ?thesis
      by (rule withdraw_Inr) (use withdrawn in metis)
  next
    case (RotateSignerCall signer)
    then show ?thesis
      using r signer_rotated [where E = E and C = C and m = m and s = s and signer = signer]
      by (auto simp: base_call_result_def rotateBridgeSigner_def onlyBaseAdminTimelock_def
          setMintAuthorizationEpoch_def validateRoleSet_def result_simps epoch_step
          intro: unchanged split: if_splits)
  qed (use r other in \<open>auto simp: base_call_result_def pauseDepositMints_def pauseWithdrawals_def
      unpauseDepositMints_def unpauseWithdrawals_def setServiceFee_def
      rotateRuntimeAdministrator_def onlyRuntimeAdministrator_def onlyBaseAdminTimelock_def
      setMintAuthorizationEpoch_def validateRoleSet_def result_simps epoch_step token_call_Inr
      intro: bridge_transition.intros split: if_splits\<close>)
qed

section \<open>Invariant\<close>

definition stored_withdrawal_ok :: "StoredWithdrawal \<Rightarrow> bool" where
  "stored_withdrawal_ok w = (sw_exists w \<and> sw_chargedServiceFee w < sw_amount w
    \<and> sw_chargedServiceFee w \<le> sw_maxServiceFee w \<and> \<not> principal_invalid (sw_owner w))"

definition bridge_wf :: "'t Bridge \<Rightarrow> bool" where
  "bridge_wf s =
    (rolesAreNonzero (br_bridgeSigner s) (br_runtimeAdministrator s) (br_baseAdminTimelock s)
     \<and> rolesAreDistinct (br_bridgeSigner s) (br_runtimeAdministrator s) (br_baseAdminTimelock s)
     \<and> serviceFeeIsValid (br_serviceFee s) (br_MIN_SERVICE_FEE s) (br_MAX_SERVICE_FEE s)
     \<and> valueFitsU128 (br_MAX_SERVICE_FEE s)
     \<and> br_mintedInWindow s \<le> br_mintWindowLimit s
     \<and> \<not> br_retiredBridgeSigners s (br_bridgeSigner s)
     \<and> bs_bridge (br_bsns s) = br_this s
     \<and> 0 < unat (br_nextWithdrawalId s)
     \<and> (\<forall>i. if 0 < unat i \<and> unat i < unat (br_nextWithdrawalId s)
         then stored_withdrawal_ok (br_withdrawals s i) else br_withdrawals s i = no_withdrawal))"

lemma bridge_wfD:
  assumes "bridge_wf s"
  shows "rolesAreNonzero (br_bridgeSigner s) (br_runtimeAdministrator s) (br_baseAdminTimelock s)"
    and "rolesAreDistinct (br_bridgeSigner s) (br_runtimeAdministrator s) (br_baseAdminTimelock s)"
    and "br_serviceFee s \<le> br_MAX_SERVICE_FEE s" and "valueFitsU128 (br_MAX_SERVICE_FEE s)"
    and "br_mintedInWindow s \<le> br_mintWindowLimit s"
    and "\<not> br_retiredBridgeSigners s (br_bridgeSigner s)" and "bs_bridge (br_bsns s) = br_this s"
    and "0 < unat i \<Longrightarrow> unat i < unat (br_nextWithdrawalId s) \<Longrightarrow> stored_withdrawal_ok (br_withdrawals s i)"
    and "unat (br_nextWithdrawalId s) \<le> unat i \<Longrightarrow> br_withdrawals s i = no_withdrawal"
    and "0 < unat (br_nextWithdrawalId s)"
  using assms unfolding bridge_wf_def serviceFeeIsValid_def by (auto split: if_splits)

lemma mint_within_window:
  assumes "mint_allowed (mint_input m s a)"
  shows "unat (br_mintedInWindow (minted_state m s a ledger))
      = (if window_over m s then 0 else unat (br_mintedInWindow s))
        + unat (bma_grossAmount a - bma_chargedServiceFee a)"
    and "unat (br_mintedInWindow (minted_state m s a ledger)) \<le> unat (br_mintWindowLimit s)"
proof -
  let ?net = "bma_grossAmount a - bma_chargedServiceFee a"
  let ?used = "if window_over m s then 0 else br_mintedInWindow s"
  have net: "unat ?net = unat (bma_grossAmount a) - unat (bma_chargedServiceFee a)"
    using assms by (auto simp: mint_allowed_def unat_sub_exact word_le_nat_alt)
  have lim: "unat ?used + unat ?net \<le> unat (br_mintWindowLimit s)"
    using assms by (auto simp: mint_allowed_def window_used_def window_over_def net)
  then have "unat ?used + unat ?net < 2 ^ LENGTH(256)"
    using unat_bound [of "br_mintWindowLimit s"] by linarith
  then have sum: "unat (br_mintedInWindow (minted_state m s a ledger)) = unat ?used + unat ?net"
    unfolding minted_state_def by (simp add: unat_add_exact del: unsigned_less)
  then show "unat (br_mintedInWindow (minted_state m s a ledger))
      = (if window_over m s then 0 else unat (br_mintedInWindow s)) + unat ?net"
    by simp
  show "unat (br_mintedInWindow (minted_state m s a ledger)) \<le> unat (br_mintWindowLimit s)"
    using sum lim by simp
qed

lemma u128_cast:
  "valueFitsU128 w \<Longrightarrow> unat (ucast w :: u128) = unat w"
  "valueFitsU128 w \<Longrightarrow> ucast (ucast w :: u128) = w"
proof -
  assume "valueFitsU128 w"
  then have "unat w < 2 ^ LENGTH(128)"
    by (simp add: valueFitsU128_def U128_MAX_def word_le_nat_alt)
  then show u: "unat (ucast w :: u128) = unat w"
    by (simp add: unsigned_ucast_eq take_bit_nat_eq_self)
  show "ucast (ucast w :: u128) = w"
    by (rule unat_eqD) (simp add: unat_ucast_up u)
qed

lemma withdrawn_state_sel:
  "br_bridgeSigner (withdrawn_state m s v f p u l) = br_bridgeSigner s"
  "br_runtimeAdministrator (withdrawn_state m s v f p u l) = br_runtimeAdministrator s"
  "br_baseAdminTimelock (withdrawn_state m s v f p u l) = br_baseAdminTimelock s"
  "br_serviceFee (withdrawn_state m s v f p u l) = br_serviceFee s"
  "br_MIN_SERVICE_FEE (withdrawn_state m s v f p u l) = br_MIN_SERVICE_FEE s"
  "br_MAX_SERVICE_FEE (withdrawn_state m s v f p u l) = br_MAX_SERVICE_FEE s"
  "br_mintedInWindow (withdrawn_state m s v f p u l) = br_mintedInWindow s"
  "br_mintWindowLimit (withdrawn_state m s v f p u l) = br_mintWindowLimit s"
  "br_retiredBridgeSigners (withdrawn_state m s v f p u l) = br_retiredBridgeSigners s"
  "bs_bridge (br_bsns (withdrawn_state m s v f p u l)) = bs_bridge (br_bsns s)"
  "br_this (withdrawn_state m s v f p u l) = br_this s"
  "br_nextWithdrawalId (withdrawn_state m s v f p u l) = br_nextWithdrawalId s + 1"
  by (simp_all add: withdrawn_state_def)

lemma withdrawn_wf:
  assumes wf: "bridge_wf s" and "valueFitsU128 amount" "valueFitsU128 maxFee"
    and "br_serviceFee s \<le> maxFee" "br_serviceFee s < amount" "\<not> principal_invalid owner"
    and nx: "unat (br_nextWithdrawalId s + 1) = unat (br_nextWithdrawalId s) + 1"
  shows "bridge_wf (withdrawn_state m s amount maxFee owner subaccount ledger)"
proof -
  have "valueFitsU128 (br_serviceFee s)"
    using assms by (auto simp: valueFitsU128_def)
  then have ok: "stored_withdrawal_ok (br_withdrawals (withdrawn_state m s amount maxFee owner subaccount ledger)
      (br_nextWithdrawalId s))"
    using assms by (simp add: withdrawn_state_def stored_withdrawal_ok_def word_less_nat_alt word_le_nat_alt u128_cast)
  have "if 0 < unat i \<and> unat i < unat (br_nextWithdrawalId s) + 1
      then stored_withdrawal_ok (br_withdrawals (withdrawn_state m s amount maxFee owner subaccount ledger) i)
      else br_withdrawals (withdrawn_state m s amount maxFee owner subaccount ledger) i = no_withdrawal" for i
  proof (cases "i = br_nextWithdrawalId s")
    case True
    then show ?thesis
      using ok bridge_wfD(10) [OF wf] by simp
  next
    case False
    then have "unat i \<noteq> unat (br_nextWithdrawalId s)"
      using unat_eqD by blast
    then show ?thesis
      using False wf by (auto simp: bridge_wf_def withdrawn_state_def split: if_splits)
  qed
  then show ?thesis
    using wf unfolding bridge_wf_def withdrawn_state_sel nx by simp
qed

lemma transition_wf:
  assumes wf: "bridge_wf s" and "bridge_transition E C m s es s'"
  shows "bridge_wf s'"
  using assms(2)
proof (cases rule: bridge_transition.cases)
  case (minted a signature ledger)
  then show ?thesis
    using wf mint_within_window(2) [OF minted(3), of ledger]
    by (auto simp: bridge_wf_def minted_state_def word_le_nat_alt)
next
  case (withdrawn amount maxFee owner l1 ledger subaccount)
  then show ?thesis
    using withdrawn_wf [OF wf] by blast
next
  case (token c es t)
  then show ?thesis
    using wf bsns_step_nonces [OF token(4)] by (simp add: bridge_wf_def)
next
  case (signer_rotated signer e)
  then show ?thesis
    using wf by (simp add: bridge_wf_def)
qed (use wf in \<open>simp_all add: bridge_wf_def serviceFeeIsValid_def\<close>)

lemma base_step_wf: "bridge_wf s \<Longrightarrow> base_step E C s mc = Inr (es, s') \<Longrightarrow> bridge_wf s'"
  by (cases mc) (auto dest: base_step_transition transition_wf)

section \<open>Accounts of the event log\<close>

definition mint_of :: "bytes32 \<Rightarrow> bridge_event \<Rightarrow> bool" where
  "mint_of d e = (case e of DepositMinted d' _ _ _ _ _ \<Rightarrow> d' = d | _ \<Rightarrow> False)"

definition mint_count :: "bytes32 \<Rightarrow> bridge_event list \<Rightarrow> nat" where
  "mint_count d es = length (filter (mint_of d) es)"

definition minted_amount :: "bridge_event \<Rightarrow> nat" where
  "minted_amount e = (case e of DepositMinted _ _ _ _ _ n \<Rightarrow> unat n | _ \<Rightarrow> 0)"

definition burned_amount :: "bridge_event \<Rightarrow> nat" where
  "burned_amount e = (case e of WithdrawalCommitted _ _ n _ _ _ _ _ \<Rightarrow> unat n | _ \<Rightarrow> 0)"

definition minted_total :: "bridge_event list \<Rightarrow> nat" where
  "minted_total es = sum_list (map minted_amount es)"

definition burned_total :: "bridge_event list \<Rightarrow> nat" where
  "burned_total es = sum_list (map burned_amount es)"

lemma account_simps [simp]:
  "mint_count d [] = 0" "minted_total [] = 0" "burned_total [] = 0"
  "mint_count d (e # es) = of_bool (mint_of d e) + mint_count d es"
  "minted_total (e # es) = minted_amount e + minted_total es"
  "burned_total (e # es) = burned_amount e + burned_total es"
  "mint_count d (es @ fs) = mint_count d es + mint_count d fs"
  "minted_total (es @ fs) = minted_total es + minted_total fs"
  "burned_total (es @ fs) = burned_total es + burned_total fs"
  by (simp_all add: mint_count_def minted_total_def burned_total_def)

lemma event_amount_simps [simp]:
  "mint_of d (DepositMinted d' r h g f n) \<longleftrightarrow> d' = d"
  "minted_amount (DepositMinted d' r h g f n) = unat n"
  "burned_amount (WithdrawalCommitted i r v mf cf out p u) = unat v"
  by (simp_all add: mint_of_def minted_amount_def burned_amount_def)

lemma account_token_events [simp]:
  "mint_count d (map TokenEvent es) = 0" "minted_total (map TokenEvent es) = 0"
  "burned_total (map TokenEvent es) = 0"
  by (induction es) (simp_all add: mint_of_def minted_amount_def burned_amount_def)

lemma account_concat:
  "int (mint_count d (concat ess)) = sum_list (map (\<lambda>es. int (mint_count d es)) ess)"
  "int (minted_total (concat ess)) - int (burned_total (concat ess))
    = sum_list (map (\<lambda>es. int (minted_total es) - int (burned_total es)) ess)"
  by (induction ess) simp_all

lemmas admin_events = mint_of_def minted_amount_def burned_amount_def

lemma transition_mint_count:
  assumes "bridge_transition E C m s es s'"
  shows "mint_count d es + of_bool (br_processedDeposits s d) = of_bool (br_processedDeposits s' d)"
  using assms
proof (cases rule: bridge_transition.cases)
  case (minted a signature ledger)
  then show ?thesis
    by (auto simp: minted_state_def mint_allowed_def)
qed (auto simp: admin_events withdrawn_state_def)

lemma transition_supply:
  assumes laws: "erc20_laws E" and wf: "bridge_wf s" and "bridge_transition E C m s es s'"
  shows "int (unat (erc_totalSupply E (bs_ledger (br_bsns s'))))
    = int (unat (erc_totalSupply E (bs_ledger (br_bsns s)))) + (int (minted_total es) - int (burned_total es))"
  using assms(3)
proof (cases rule: bridge_transition.cases)
  case (minted a signature ledger)
  then show ?thesis
    using erc20_supply(1) [OF laws minted(5), THEN uint_of_sum] by (simp add: minted_state_def admin_events)
next
  case (withdrawn amount maxFee owner l1 ledger subaccount)
  have "unat (erc_totalSupply E (bs_ledger (br_bsns s))) = unat (erc_totalSupply E ledger) + unat amount"
    using erc20_supply(4) [OF laws withdrawn(11)] erc20_supply(2) [OF laws withdrawn(12)] by simp
  then show ?thesis
    using withdrawn by (simp add: withdrawn_state_def admin_events uint_of_sum)
next
  case (token c es t)
  have "supply_credit (m, c) = 0"
    using bsns_step_supply [OF laws token(4)] token(3) bridge_wfD(7) [OF wf] by auto
  then show ?thesis
    using token bsns_step_supply [OF laws token(4)] by simp
qed (simp_all add: admin_events)

interpretation deposit_mints: accounted_machine "base_step E C" bridge_wf
    "\<lambda>es. int (mint_count d es)" "\<lambda>s. int (of_bool (br_processedDeposits s d))" for E C d
proof unfold_locales
  fix s mc es s'
  assume s: "bridge_wf s" "base_step E C s mc = Inr (es, s')"
  then show "bridge_wf s'"
    by (rule base_step_wf)
  show "int (of_bool (br_processedDeposits s' d)) = int (of_bool (br_processedDeposits s d)) + int (mint_count d es)"
    using transition_mint_count [OF base_step_transition [of E C s "fst mc" "snd mc" es s'], of d] s(2)
    by (cases "br_processedDeposits s d"; cases "br_processedDeposits s' d") simp_all
qed

interpretation token_supply: accounted_machine "base_step E C" "\<lambda>s. erc20_laws E \<and> bridge_wf s"
    "\<lambda>es. int (minted_total es) - int (burned_total es)"
    "\<lambda>s. int (unat (erc_totalSupply E (bs_ledger (br_bsns s))))" for E C
proof unfold_locales
  fix s mc es s'
  assume s: "erc20_laws E \<and> bridge_wf s" "base_step E C s mc = Inr (es, s')"
  then show "erc20_laws E \<and> bridge_wf s'"
    using base_step_wf by blast
  show "int (unat (erc_totalSupply E (bs_ledger (br_bsns s'))))
    = int (unat (erc_totalSupply E (bs_ledger (br_bsns s)))) + (int (minted_total es) - int (burned_total es))"
    using transition_supply [OF _ _ base_step_transition [of E C s "fst mc" "snd mc" es s']] s by simp
qed

section \<open>The mint rate\<close>

lemma transition_constants:
  assumes "bridge_transition E C m s es s'"
  shows "br_mintWindowLimit s' = br_mintWindowLimit s \<and> br_mintWindowDuration s' = br_mintWindowDuration s
    \<and> br_this s' = br_this s \<and> unat (br_mintAuthorizationEpoch s) \<le> unat (br_mintAuthorizationEpoch s')
    \<and> (\<forall>x. br_retiredBridgeSigners s x \<longrightarrow> br_retiredBridgeSigners s' x)"
  using assms by (cases rule: bridge_transition.cases) (auto simp: minted_state_def withdrawn_state_def)

text \<open>A transition adds to the running window or starts a new one at its own time.\<close>

lemma transition_window:
  assumes "bridge_transition E C m s es s'"
  shows "(br_mintWindowStartedAt s' = br_mintWindowStartedAt s
      \<and> unat (br_mintedInWindow s') = unat (br_mintedInWindow s) + minted_total es)
    \<or> (window_over m s \<and> unat (br_mintWindowStartedAt s') = unat (mc_timestamp m)
      \<and> unat (br_mintedInWindow s') = minted_total es)"
  using assms
proof (cases rule: bridge_transition.cases)
  case (minted a signature ledger)
  have "unat (br_mintWindowStartedAt (minted_state m s a ledger)) = unat (mc_timestamp m)"
    if "window_over m s"
  proof -
    have "unat (mc_timestamp m) < 2 ^ LENGTH(64)"
      using minted(3) that by (simp add: mint_allowed_def window_over_def)
    then show ?thesis
      using that by (simp add: minted_state_def unsigned_ucast_eq take_bit_nat_eq_self)
  qed
  then show ?thesis
    using minted mint_within_window(1) [OF minted(3), of ledger]
    by (cases "window_over m s") (auto simp: minted_state_def)
qed (auto simp: admin_events withdrawn_state_def)

lemma window_within_limit: "bridge_wf s \<Longrightarrow> unat (br_mintedInWindow s) \<le> unat (br_mintWindowLimit s)"
  using bridge_wfD(5) [of s] by (simp add: word_le_nat_alt)

text \<open>From a window that started at \<open>t\<close> or later, calls before \<open>n + 1\<close> durations after \<open>t\<close> fill at most
  \<open>n + 1\<close> windows.\<close>

lemma run_window_fresh:
  assumes "bridge_wf s" and "t \<le> unat (br_mintWindowStartedAt s)"
    and "\<forall>mc \<in> set calls. unat (mc_timestamp (fst mc)) < t + Suc n * unat (br_mintWindowDuration s)"
  shows "unat (br_mintedInWindow s) + minted_total (concat (run_results (base_step E C) s calls))
    \<le> Suc n * unat (br_mintWindowLimit s)"
  using assms
proof (induction calls arbitrary: s t n)
  case Nil
  then show ?case
    using window_within_limit [of s] by (simp add: trans_le_add1)
next
  case (Cons mc calls)
  show ?case
  proof (cases "base_step E C s mc")
    case (Inl e)
    then show ?thesis
      using Cons by simp
  next
    case (Inr p)
    then obtain es s' where s': "base_step E C s mc = Inr (es, s')"
      by (cases p) auto
    have tr: "bridge_transition E C (fst mc) s es s'"
      using s' base_step_transition [of E C s "fst mc" "snd mc"] by simp
    note wf' = base_step_wf [OF Cons.prems(1) s'] and const = transition_constants [OF tr]
    from transition_window [OF tr] show ?thesis
    proof
      assume w: "br_mintWindowStartedAt s' = br_mintWindowStartedAt s
        \<and> unat (br_mintedInWindow s') = unat (br_mintedInWindow s) + minted_total es"
      show ?thesis
        using Cons.IH [OF wf', of t n] Cons.prems(2,3) w const by (simp add: s')
    next
      assume w: "window_over (fst mc) s \<and> unat (br_mintWindowStartedAt s') = unat (mc_timestamp (fst mc))
        \<and> unat (br_mintedInWindow s') = minted_total es"
      then obtain k where k: "n = Suc k"
        using Cons.prems(2,3) by (cases n) (auto simp: window_over_def)
      have "unat (br_mintedInWindow s') + minted_total (concat (run_results (base_step E C) s' calls))
          \<le> Suc k * unat (br_mintWindowLimit s')"
        by (rule Cons.IH [OF wf', of "t + unat (br_mintWindowDuration s)"])
          (use w Cons.prems(2,3) const k in \<open>auto simp: window_over_def algebra_simps\<close>)
      then show ?thesis
        using w const k window_within_limit [OF Cons.prems(1)] by (simp add: s')
    qed
  qed
qed

lemma run_window_any:
  assumes "bridge_wf s"
    and "\<forall>mc \<in> set calls. t \<le> unat (mc_timestamp (fst mc))
      \<and> unat (mc_timestamp (fst mc)) < t + k * unat (br_mintWindowDuration s)"
  shows "unat (br_mintedInWindow s) + minted_total (concat (run_results (base_step E C) s calls))
    \<le> (k + 1) * unat (br_mintWindowLimit s)"
  using assms
proof (induction calls arbitrary: s)
  case Nil
  then show ?case
    using window_within_limit [of s] by (simp add: trans_le_add1)
next
  case (Cons mc calls)
  show ?case
  proof (cases "base_step E C s mc")
    case (Inl e)
    then show ?thesis
      using Cons by simp
  next
    case (Inr p)
    then obtain es s' where s': "base_step E C s mc = Inr (es, s')"
      by (cases p) auto
    have tr: "bridge_transition E C (fst mc) s es s'"
      using s' base_step_transition [of E C s "fst mc" "snd mc"] by simp
    note wf' = base_step_wf [OF Cons.prems(1) s'] and const = transition_constants [OF tr]
    from transition_window [OF tr] show ?thesis
    proof
      assume w: "br_mintWindowStartedAt s' = br_mintWindowStartedAt s
        \<and> unat (br_mintedInWindow s') = unat (br_mintedInWindow s) + minted_total es"
      show ?thesis
        using Cons.IH [OF wf'] Cons.prems(2) w const by (simp add: s')
    next
      assume w: "window_over (fst mc) s \<and> unat (br_mintWindowStartedAt s') = unat (mc_timestamp (fst mc))
        \<and> unat (br_mintedInWindow s') = minted_total es"
      obtain n where k: "k = Suc n"
        using Cons.prems(2) by (cases k) auto
      have "unat (br_mintedInWindow s') + minted_total (concat (run_results (base_step E C) s' calls))
          \<le> Suc n * unat (br_mintWindowLimit s')"
        by (rule run_window_fresh [OF wf', of t]) (use w Cons.prems(2) const k in auto)
      then show ?thesis
        using w const k window_within_limit [OF Cons.prems(1)] by (simp add: s')
    qed
  qed
qed

section \<open>Revocation and permanence\<close>

text \<open>An authorization epoch that can never mint again, and a signer that can never sign again.\<close>

definition revoked_epoch :: "u256 \<Rightarrow> 't Bridge \<Rightarrow> bool" where
  "revoked_epoch e s = (unat e < unat (br_mintAuthorizationEpoch s)
    \<or> br_depositMintsPaused s \<and> e = br_mintAuthorizationEpoch s)"

definition revoked_signer :: "address \<Rightarrow> 't Bridge \<Rightarrow> bool" where
  "revoked_signer x s = (br_retiredBridgeSigners s x
    \<or> br_depositMintsPaused s \<and> x \<noteq> 0 \<and> br_bridgeSignerAtLastPause s = x \<and> br_bridgeSigner s = x)"

lemma transition_revoked:
  assumes "bridge_transition E C m s es s'"
  shows "revoked_epoch e s \<Longrightarrow> revoked_epoch e s'" and "revoked_signer x s \<Longrightarrow> revoked_signer x s'"
  using assms
  by (cases rule: bridge_transition.cases;
      auto simp: revoked_epoch_def revoked_signer_def minted_state_def withdrawn_state_def)+

interpretation revoked: record_machine "base_step E C"
    "\<lambda>s. bridge_wf s \<and> revoked_epoch e s \<and> revoked_signer x s" for E C e x
  by unfold_locales (metis base_step_transition base_step_wf prod.collapse transition_revoked)

lemma transition_withdrawal:
  assumes "bridge_transition E C m s es s'" and "unat i < unat (br_nextWithdrawalId s)"
  shows "br_withdrawals s' i = br_withdrawals s i \<and> unat i < unat (br_nextWithdrawalId s')"
  using assms
  by (cases rule: bridge_transition.cases) (auto simp: minted_state_def withdrawn_state_def)

interpretation committed: record_machine "base_step E C"
    "\<lambda>s. bridge_wf s \<and> br_withdrawals s i = w \<and> unat i < unat (br_nextWithdrawalId s)" for E C i w
  by unfold_locales (metis base_step_transition base_step_wf prod.collapse transition_withdrawal)

lemma constructor_wf:
  assumes "bridge_constructor policy C T m this tokenAddress ledger signer administrator timelock codeHash
      depositLimit windowLimit windowDuration minFee maxFee fee = Inr s"
  shows "bridge_wf s \<and> br_processedDeposits s d = False \<and> bs_ledger (br_bsns s) = ledger"
  using assms
  by (auto simp: bridge_constructor_def result_simps bridge_wf_def bsns_constructor_def valuesFitU128_def
      unat_gt_0 [symmetric] split: if_splits)

text \<open>Withdrawals of one transaction.\<close>

definition is_withdrawal :: "bridge_event \<Rightarrow> bool" where
  "is_withdrawal e = (case e of WithdrawalCommitted _ _ _ _ _ _ _ _ \<Rightarrow> True | _ \<Rightarrow> False)"

definition withdrawal_count :: "bridge_event list \<Rightarrow> nat" where
  "withdrawal_count es = length (filter is_withdrawal es)"

lemma step_claims:
  assumes "base_step E C s (m, call) = Inr (es, s')" and "call \<noteq> NewTransaction"
  shows "withdrawal_count es + of_bool (br_withdrawalClaimed s) \<le> of_bool (br_withdrawalClaimed s')"
proof -
  have r: "base_call_result E C s m call = Inr (es, s')"
    using assms(1) by (auto simp: base_step_def split: if_splits sum.splits)
  have none: "withdrawal_count (map TokenEvent fs) = 0" for fs
    by (induction fs) (simp_all add: withdrawal_count_def is_withdrawal_def)
  show ?thesis
  proof (cases call)
    case (MintCall a signature)
    then have "mintDepositWithAuthorization E C m s a signature = Inr (es, s')"
      using r by (simp add: base_call_result_def)
    then show ?thesis
      by (rule mint_Inr) (simp add: withdrawal_count_def is_withdrawal_def minted_state_def)
  next
    case (WithdrawCall amount maxFee owner subaccount)
    then have "createWithdrawal E m s amount maxFee owner subaccount = Inr (es, s')"
      using r by (simp add: base_call_result_def)
    then show ?thesis
      by (rule withdraw_Inr) (simp add: withdrawal_count_def is_withdrawal_def withdrawn_state_def)
  qed (use r assms(2) none in \<open>auto simp: base_call_result_def pauseDepositMints_def pauseWithdrawals_def
      unpauseDepositMints_def unpauseWithdrawals_def setServiceFee_def rotateBridgeSigner_def
      rotateRuntimeAdministrator_def onlyRuntimeAdministrator_def onlyBaseAdminTimelock_def
      setMintAuthorizationEpoch_def result_simps epoch_step token_call_Inr
      withdrawal_count_def is_withdrawal_def split: if_splits\<close>)
qed

lemma one_withdrawal:
  "NewTransaction \<notin> snd ` set calls \<Longrightarrow>
    withdrawal_count (concat (run_results (base_step E C) t calls)) + of_bool (br_withdrawalClaimed t) \<le> 1"
proof (induction calls arbitrary: t)
  case (Cons mc calls)
  show ?case
  proof (cases "base_step E C t mc")
    case (Inr p)
    then obtain fs t' where t': "base_step E C t mc = Inr (fs, t')"
      by (cases p) auto
    have "withdrawal_count (concat (run_results (base_step E C) t' calls)) + of_bool (br_withdrawalClaimed t') \<le> 1"
      using Cons by simp
    moreover have "withdrawal_count fs + of_bool (br_withdrawalClaimed t) \<le> of_bool (br_withdrawalClaimed t')"
      using t' Cons.prems step_claims [of E C t "fst mc" "snd mc" fs t'] by auto
    ultimately show ?thesis
      unfolding t' run_results.simps sum.case prod.case concat.simps withdrawal_count_def filter_append length_append
      by linarith
  qed (use Cons in simp)
qed (simp add: withdrawal_count_def)

section \<open>An example\<close>

text \<open>A ledger that keeps the supply and the balances, a signature scheme that accepts one signer, and
  a deployment with them.\<close>

type_synonym sample_ledger = "u256 \<times> (address \<Rightarrow> u256)"

definition sample_transfer :: "sample_ledger \<Rightarrow> address \<Rightarrow> address \<Rightarrow> u256 \<Rightarrow> sample_ledger option" where
  "sample_transfer t a b v =
    Option.bind (checked_sub (snd t a) v) (\<lambda>x.
    map_option (\<lambda>y. (fst t, (snd t)(a := x, b := y))) (checked_add (((snd t)(a := x)) b) v))"

definition sample_erc20 :: "sample_ledger erc20" where
  "sample_erc20 = \<lparr> erc_balanceOf = snd, erc_totalSupply = fst,
    erc_mint = (\<lambda>t a v. if a = 0 then None else Option.bind (checked_add (fst t) v) (\<lambda>supply.
      map_option (\<lambda>x. (supply, (snd t)(a := x))) (checked_add (snd t a) v))),
    erc_burn = (\<lambda>t a v. Option.bind (checked_sub (fst t) v) (\<lambda>supply.
      map_option (\<lambda>x. (supply, (snd t)(a := x))) (checked_sub (snd t a) v))),
    erc_transfer = sample_transfer,
    erc_transferFrom = (\<lambda>t m a b v. map_option (Pair True) (sample_transfer t a b v)),
    erc_approve = (\<lambda>t a b v. Some t) \<rparr>"

lemma sample_transfer_moves:
  "sample_transfer t a b v = Some t' \<Longrightarrow> moves sample_erc20 t a b v t'"
  by (auto simp: sample_transfer_def sample_erc20_def moves_def bind_eq_Some_conv checked_sub_eq_Some
      checked_add_eq_Some)

lemma sample_laws: "erc20_laws sample_erc20"
  unfolding erc20_laws_def
  by (intro conjI allI impI)
    (auto simp: creates_def bind_eq_Some_conv
      checked_sub_eq_Some checked_add_eq_Some sample_erc20_def split: if_splits intro: sample_transfer_moves
      [unfolded sample_erc20_def])

definition sample_crypto :: crypto where
  "sample_crypto = \<lparr> cr_keccak256 = (\<lambda>_. 7), cr_hashTypedDataV4 = (\<lambda>_ _ _ h. h),
    cr_recover = (\<lambda>_ _ _ _. None), cr_tryRecover = (\<lambda>_ _. Some 11) \<rparr>"

definition sample_timelock :: timelock_view where
  "sample_timelock = \<lparr> tv_code_length = 1, tv_codehash = 5, tv_getMinDelay = Some 86400,
    tv_hasRole = (\<lambda>role a. Some (if role = 0 then a = 33 else a = 44)),
    tv_roleMember = (\<lambda>role. Some (if role = 0 then 33 else 44)), tv_pendingOperationCount = Some 0 \<rparr>"

definition at_time :: "address \<Rightarrow> u256 \<Rightarrow> msg_context" where
  "at_time sender time = \<lparr> mc_sender = sender, mc_timestamp = time, mc_number = 0 \<rparr>"

definition sample_deployment :: "bridge_error + sample_ledger Bridge" where
  "sample_deployment = bridge_constructor ProductionPolicy sample_crypto sample_timelock (at_time 1 1000) 100 101
    (0, \<lambda>_. 0) 11 22 33 5 500 800 3600 1 10 2"

definition sample_authorization :: BaseMintAuthorization where
  "sample_authorization = \<lparr> bma_depositId = 9, bma_recipient = 77, bma_grossAmount = 102,
    bma_maxServiceFee = 5, bma_chargedServiceFee = 2, bma_deadline = 2000, bma_authorizationEpoch = 2 \<rparr>"

lemmas sample_defs = sample_deployment_def sample_crypto_def sample_timelock_def at_time_def
  sample_authorization_def sample_erc20_def

lemmas sample_constructor = bridge_constructor_def validateTimelockCandidate_def validateTimelockRole_def
  rolesAreNonzero_def rolesAreDistinct_def limitsAreNonzero_def valuesFitU128_def valueFitsU128_def
  serviceFeeIsValid_def timelockDelayIsValid_def timelockRoleIsClosed_def timelockHasNoPendingOperations_def
  U128_MAX_def MINIMUM_MINT_WINDOW_DURATION_def MAXIMUM_MINT_WINDOW_DURATION_def
  MINIMUM_TIMELOCK_DELAY_def MAXIMUM_TIMELOCK_DELAY_def PROPOSER_ROLE_def CANCELLER_ROLE_def
  EXECUTOR_ROLE_def

lemma sample_deployed: "\<exists>s. sample_deployment = Inr s"
  by (simp add: sample_defs sample_constructor Let_def)

lemmas sample_run = base_step_def base_call_result_def unpauseDepositMints_def unpauseWithdrawals_def
  pauseDepositMints_def onlyBaseAdminTimelock_def onlyRuntimeAdministrator_def adminEpochTransition_def
  nextEpoch_def setMintAuthorizationEpoch_def checked_add_def checked_sub_def bsns_constructor_def
  ok_or_def map_result_def try_bind_def deliver_def token_call_def with_ledger_def as_bridge_def

lemmas sample_mint = mintDepositWithAuthorization_def mint_input_def evaluateMint_def deadlineAccepts_def
  epochMatches_def depositAvailable_def feeWithinBounds_def mintAmountWithinLimit_def windowExpired_def
  tryConsumeWindow_def mintEffectAmounts_def revertRejectedMint_def commitAuthorizedMint_def bridgeMint_def
  U64_MAX_def U128_MAX_def

lemmas sample_withdraw = createWithdrawal_def whenWithdrawalsActive_def principal_invalid_def
  claimWithdrawalTransaction_def withdrawalClaimAllowed_def bridgeBurn_def sample_transfer_def

definition sample_calls :: "(msg_context \<times> base_call) list" where
  "sample_calls = [(at_time 33 1500, UnpauseMintsCall), (at_time 33 1500, UnpauseWithdrawalsCall),
    (at_time 5 1600, MintCall sample_authorization []), (at_time 5 1700, MintCall sample_authorization [])]"

definition sample_bridge :: "sample_ledger Bridge" where
  "sample_bridge = run_events (base_step sample_erc20 sample_crypto) (projr sample_deployment) sample_calls"

lemma sample_bridge_wf: "bridge_wf sample_bridge"
proof -
  obtain s where s: "sample_deployment = Inr s"
    using sample_deployed by blast
  have "bridge_wf s"
    using constructor_wf [OF s [unfolded sample_deployment_def]] by simp
  then show ?thesis
    unfolding sample_bridge_def s sum.sel by (rule deposit_mints.run_inv)
qed

lemma sample_bridge_eval:
  "\<not> br_depositMintsPaused sample_bridge" "\<not> br_withdrawalsPaused sample_bridge"
  "br_runtimeAdministrator sample_bridge = 22" "br_mintAuthorizationEpoch sample_bridge = 2"
  by (simp_all add: sample_bridge_def sample_calls_def sample_defs sample_constructor sample_run sample_mint Let_def)

section \<open>Properties\<close>

text \<open>
  C26.  From deployment on, whatever calls anyone makes: a deposit counts as processed exactly if it was
  minted, and then it was minted once; and the supply of the token is what the mints created less
  what the withdrawals burned.
\<close>

theorem mints_and_supply_accounted:
  assumes deployed: "bridge_constructor policy C T m this tokenAddress ledger signer administrator timelock
      codeHash depositLimit windowLimit windowDuration minFee maxFee fee = Inr s"
    and laws: "erc20_laws E" and empty: "erc_totalSupply E ledger = 0"
  shows "let log = concat (run_results (base_step E C) s calls); s' = run_events (base_step E C) s calls
    in mint_count d log = of_bool (isDepositProcessed s' d)
      \<and> unat (erc_totalSupply E (bs_ledger (br_bsns s'))) + burned_total log = minted_total log"
proof -
  let ?log = "concat (run_results (base_step E C) s calls)" and ?s' = "run_events (base_step E C) s calls"
  note start = constructor_wf [OF deployed]
  have "int (of_bool (br_processedDeposits ?s' d)) = int (mint_count d ?log)"
    using deposit_mints.run_level [where s = s and es = calls and E = E and C = C and d = d] start by (simp add: account_concat)
  then have "mint_count d ?log = of_bool (br_processedDeposits ?s' d)"
    by (simp only: of_nat_eq_iff)
  moreover have "int (unat (erc_totalSupply E (bs_ledger (br_bsns ?s'))))
      = int (minted_total ?log) - int (burned_total ?log)"
    using token_supply.run_level [where s = s and es = calls and E = E and C = C] start laws empty by (simp add: account_concat)
  then have "int (unat (erc_totalSupply E (bs_ledger (br_bsns ?s'))) + burned_total ?log) = int (minted_total ?log)"
    unfolding of_nat_add by linarith
  then have "unat (erc_totalSupply E (bs_ledger (br_bsns ?s'))) + burned_total ?log = minted_total ?log"
    by (simp only: of_nat_eq_iff)
  ultimately show ?thesis
    unfolding isDepositProcessed_def Let_def by blast
qed

theorem mints_and_supply_accounted_witness:
  "\<exists>s. sample_deployment = Inr s
    \<and> (let log = concat (run_results (base_step sample_erc20 sample_crypto) s sample_calls)
       in mint_count 9 log = 1 \<and> minted_total log = 100
        \<and> unat (erc_totalSupply sample_erc20 (bs_ledger (br_bsns
            (run_events (base_step sample_erc20 sample_crypto) s sample_calls)))) + burned_total log = 100)"
proof -
  obtain s where s: "sample_deployment = Inr s"
    using sample_deployed by blast
  have ev: "isDepositProcessed (run_events (base_step sample_erc20 sample_crypto) (projr sample_deployment) sample_calls) 9"
    "minted_total (concat (run_results (base_step sample_erc20 sample_crypto) (projr sample_deployment) sample_calls)) = 100"
    by (simp_all add: sample_calls_def sample_defs sample_constructor sample_run sample_mint Let_def
        isDepositProcessed_def minted_amount_def)
  have "erc_totalSupply sample_erc20 (0, \<lambda>_. 0) = 0"
    by (simp add: sample_erc20_def)
  then show ?thesis
    using ev [unfolded s sum.sel] mints_and_supply_accounted [OF s [unfolded sample_deployment_def] sample_laws, of sample_calls 9] s
    by (intro exI [of _ s]) (simp add: Let_def)
qed

text \<open>
  C27.  However the calls fall on the mint windows, in a span of k window durations no more than
  (k + 1) times the window limit is minted: at most twice the limit in a span of one duration, and in the long run
  at most the limit per duration.
\<close>

theorem mint_rate_bounded:
  assumes "bridge_wf s"
    and "\<forall>mc \<in> set calls. t \<le> unat (mc_timestamp (fst mc))
      \<and> unat (mc_timestamp (fst mc)) < t + k * unat (br_mintWindowDuration s)"
  shows "minted_total (concat (run_results (base_step E C) s calls)) \<le> (k + 1) * unat (br_mintWindowLimit s)"
  using run_window_any [OF assms, of E C] by linarith

theorem mint_rate_bounded_witness:
  "minted_total (concat (run_results (base_step sample_erc20 sample_crypto) sample_bridge
      [(at_time 5 1800, MintCall (sample_authorization \<lparr> bma_depositId := 10 \<rparr>) []),
       (at_time 5 8000, MintCall (sample_authorization \<lparr> bma_depositId := 12 \<rparr>) [])])) \<le> 2400"
proof -
  let ?calls = "[(at_time 5 1800, MintCall (sample_authorization \<lparr> bma_depositId := 10 \<rparr>) []),
    (at_time 5 8000, MintCall (sample_authorization \<lparr> bma_depositId := 12 \<rparr>) [])]"
  have "br_mintWindowLimit sample_bridge = 800" "br_mintWindowDuration sample_bridge = 3600"
    by (simp_all add: sample_bridge_def sample_calls_def sample_defs sample_constructor sample_run sample_mint Let_def)
  then show ?thesis
    using mint_rate_bounded [OF sample_bridge_wf, of ?calls 1800 2 sample_erc20 sample_crypto]
    by (simp add: at_time_def)
qed

text \<open>
  C28.  A pause by the runtime administrator revokes every outstanding authorization and the signer of the
  time, for good: whatever is called afterwards, a mint is accepted again only for an authorization
  of a later epoch, signed by a signer that was installed after the pause.
\<close>

theorem pause_revokes:
  assumes wf: "bridge_wf s" and active: "\<not> br_depositMintsPaused s"
    and paused: "base_step E C s (m, PauseMintsCall) = Inr (es, s1)"
    and minted: "mintDepositWithAuthorization E C m' (run_events (base_step E C) s1 calls) a signature
      = Inr (es', s')"
  shows "unat (br_mintAuthorizationEpoch s) < unat (bma_authorizationEpoch a)
    \<and> unat (br_mintAuthorizationEpoch s1) < unat (bma_authorizationEpoch a)
    \<and> (\<exists>newSigner. newSigner \<noteq> br_bridgeSigner s
      \<and> cr_tryRecover C (mintAuthorizationDigest C (run_events (base_step E C) s1 calls) a) signature
        = Some newSigner)"
proof -
  let ?s2 = "run_events (base_step E C) s1 calls" and ?x = "br_bridgeSigner s"
  have s1: "br_depositMintsPaused s1" "br_bridgeSignerAtLastPause s1 = ?x" "br_bridgeSigner s1 = ?x"
    "unat (br_mintAuthorizationEpoch s1) = unat (br_mintAuthorizationEpoch s) + 1"
    using paused active
    by (auto simp: base_step_def base_call_result_def pauseDepositMints_def onlyRuntimeAdministrator_def
        setMintAuthorizationEpoch_def result_simps epoch_step split: if_splits sum.splits)
  have nz: "?x \<noteq> 0"
    using bridge_wfD(1) [OF wf] by (simp add: rolesAreNonzero_def)
  have "bridge_wf s1 \<and> revoked_epoch (br_mintAuthorizationEpoch s1) s1 \<and> revoked_signer ?x s1"
    using s1 nz base_step_wf [OF wf paused] by (simp add: revoked_epoch_def revoked_signer_def)
  then have inv: "bridge_wf ?s2 \<and> revoked_epoch (br_mintAuthorizationEpoch s1) ?s2 \<and> revoked_signer ?x ?s2"
    by (rule revoked.run_inv)
  obtain ledger where "mint_allowed (mint_input m' ?s2 a)"
    and rec: "cr_tryRecover C (mintAuthorizationDigest C ?s2 a) signature = Some (br_bridgeSigner ?s2)"
    using minted by (rule mint_Inr)
  then have "\<not> br_depositMintsPaused ?s2" "bma_authorizationEpoch a = br_mintAuthorizationEpoch ?s2"
    by (simp_all add: mint_allowed_def)
  then show ?thesis
    using inv s1(4) rec bridge_wfD(6) [of ?s2] by (auto simp: revoked_epoch_def revoked_signer_def)
qed

text \<open>For the example the recovered signer depends on the signature, so that a new signer can sign.\<close>

definition rotating_crypto :: crypto where
  "rotating_crypto = sample_crypto \<lparr> cr_tryRecover := (\<lambda>_ signature. Some (ucast (hd signature))) \<rparr>"

theorem pause_revokes_witness:
  "\<exists>es s1 es' s'. base_step sample_erc20 rotating_crypto sample_bridge (at_time 22 1800, PauseMintsCall) = Inr (es, s1)
    \<and> mintDepositWithAuthorization sample_erc20 rotating_crypto (at_time 5 1900)
        (run_events (base_step sample_erc20 rotating_crypto) s1
          [(at_time 33 1850, RotateSignerCall 12), (at_time 33 1860, UnpauseMintsCall)])
        (sample_authorization \<lparr> bma_depositId := 10, bma_authorizationEpoch := 5 \<rparr>) [12] = Inr (es', s')
    \<and> unat (br_mintAuthorizationEpoch s1) < 5"
proof -
  let ?step = "base_step sample_erc20 rotating_crypto" and ?pause = "(at_time 22 1800, PauseMintsCall)"
  let ?s1 = "snd (projr (?step sample_bridge ?pause))"
  let ?calls = "[(at_time 33 1850, RotateSignerCall 12), (at_time 33 1860, UnpauseMintsCall)]"
  let ?a = "sample_authorization \<lparr> bma_depositId := 10, bma_authorizationEpoch := 5 \<rparr>"
  let ?mint = "mintDepositWithAuthorization sample_erc20 rotating_crypto (at_time 5 1900)
    (run_events ?step ?s1 ?calls) ?a [12]"
  have paused: "?step sample_bridge ?pause = Inr (fst (projr (?step sample_bridge ?pause)), ?s1)"
    by (simp add: sample_bridge_def sample_calls_def sample_defs sample_constructor sample_run sample_mint Let_def)
  have minted: "?mint = Inr (fst (projr ?mint), snd (projr ?mint))"
    by (simp add: sample_bridge_def sample_calls_def sample_defs sample_constructor sample_run sample_mint Let_def
        rotating_crypto_def rotateBridgeSigner_def signerRotationEpoch_def validateRoleSet_def)
  have "unat (br_mintAuthorizationEpoch ?s1) < 5"
    using pause_revokes [OF sample_bridge_wf sample_bridge_eval(1) paused minted] by simp
  then show ?thesis
    using paused minted by blast
qed

text \<open>
  C29.  A committed withdrawal is permanent: the identifier was unused before, and whatever is called
  afterwards, reading it gives the request as it was made, with the fee of the time and the rest as
  the amount to pay out; and one transaction commits at most one.
\<close>

theorem withdrawal_permanent:
  assumes wf: "bridge_wf s"
    and ok: "createWithdrawal E m s amount maxFee owner subaccount = Inr (es, s1)"
  shows "map_result bw_status (getWithdrawal s (br_nextWithdrawalId s)) = Inr WithdrawalStatus_None
    \<and> getWithdrawal (run_events (base_step E C) s1 calls) (br_nextWithdrawalId s)
      = Inr \<lparr> bw_requester = mc_sender m, bw_amount = amount, bw_maxServiceFee = maxFee,
        bw_chargedServiceFee = br_serviceFee s, bw_amountOut = amount - br_serviceFee s, bw_owner = owner,
        bw_subaccount = subaccount, bw_status = WithdrawalStatus_Committed \<rparr>
    \<and> (NewTransaction \<notin> snd ` set calls \<longrightarrow>
      withdrawal_count (concat (run_results (base_step E C) s1 calls)) = 0)"
proof -
  let ?i = "br_nextWithdrawalId s"
  obtain l1 ledger where g: "valueFitsU128 amount" "valueFitsU128 maxFee" "br_serviceFee s \<le> maxFee"
    "br_serviceFee s < amount" "\<not> principal_invalid owner" "unat (?i + 1) = unat ?i + 1"
    and s1: "s1 = withdrawn_state m s amount maxFee owner subaccount ledger"
    using ok by (rule withdraw_Inr)
  have fee: "valueFitsU128 (br_serviceFee s)"
    using g by (auto simp: valueFitsU128_def)
  have "bridge_wf s1"
    unfolding s1 by (rule withdrawn_wf [OF wf g])
  then have "bridge_wf s1 \<and> br_withdrawals s1 ?i = br_withdrawals s1 ?i \<and> unat ?i < unat (br_nextWithdrawalId s1)"
    using g by (simp add: s1 withdrawn_state_sel)
  then have "br_withdrawals (run_events (base_step E C) s1 calls) ?i = br_withdrawals s1 ?i"
    using committed.run_inv [where s = s1 and i = ?i and w = "br_withdrawals s1 ?i" and E = E and C = C and es = calls] by simp
  then have get: "getWithdrawal (run_events (base_step E C) s1 calls) ?i
      = Inr \<lparr> bw_requester = mc_sender m, bw_amount = amount, bw_maxServiceFee = maxFee,
        bw_chargedServiceFee = br_serviceFee s, bw_amountOut = amount - br_serviceFee s, bw_owner = owner,
        bw_subaccount = subaccount, bw_status = WithdrawalStatus_Committed \<rparr>"
    using g fee by (simp add: getWithdrawal_def s1 withdrawn_state_def u128_cast checked_sub_def Let_def)
  show ?thesis
    using get one_withdrawal [of calls E C s1] bridge_wfD(9) [OF wf, of ?i]
    by (auto simp: getWithdrawal_def no_withdrawal_def s1 withdrawn_state_def)
qed

theorem withdrawal_permanent_witness:
  "\<exists>es s1. createWithdrawal sample_erc20 (at_time 77 1800) sample_bridge 50 3 [1] 0 = Inr (es, s1)
    \<and> map_result bw_amountOut (getWithdrawal (run_events (base_step sample_erc20 sample_crypto) s1
        [(at_time 22 1900, SetFeeCall 9), (at_time 22 1900, PauseMintsCall)]) 1) = Inr 48"
proof -
  let ?r = "createWithdrawal sample_erc20 (at_time 77 1800) sample_bridge 50 3 [1] 0"
  have ok: "?r = Inr (fst (projr ?r), snd (projr ?r))"
    and state: "br_nextWithdrawalId sample_bridge = 1" "br_serviceFee sample_bridge = 2"
    by (simp_all add: sample_bridge_def sample_calls_def sample_defs sample_constructor sample_run sample_mint
        sample_withdraw Let_def)
  show ?thesis
    using withdrawal_permanent [OF sample_bridge_wf ok, of sample_crypto
        "[(at_time 22 1900, SetFeeCall 9), (at_time 22 1900, PauseMintsCall)]"] ok state
    by (intro exI [of _ "fst (projr ?r)"] exI [of _ "snd (projr ?r)"]) simp
qed

end
