(* ===== verification/Mint_Digest.thy ===== *)
theory Mint_Digest
  imports Bridge_Contract Authorization Storage_Keys
begin

text \<open>
  The digest that the canister signs for a mint authorization
  (\<open>bridge-canister/src/mint_authorization.rs\<close>), and its agreement with the digest that the bridge
  contract recovers the signer from.

  Keccak is a parameter on both sides.  The contract's typed-data hash is library code; that it is
  the hash of the EIP-712 envelope is the hypothesis \<open>eip712_envelope\<close>.
\<close>

section \<open>Definitions\<close>

definition DOMAIN_TYPE :: string where
  "DOMAIN_TYPE = ''EIP712Domain(string name,string version,uint256 chainId,address verifyingContract)''"

definition AUTHORIZATION_TYPE :: string where
  "AUTHORIZATION_TYPE = ''MintAuthorization(bytes32 depositId,address recipient,uint256 grossAmount,uint256 maxServiceFee,uint256 chargedServiceFee,uint256 deadline,uint256 authorizationEpoch)''"

definition concat_words :: "bytes list \<Rightarrow> bytes" where
  "concat_words ws = concat ws"

definition uint_word :: "u128 \<Rightarrow> bytes" where
  "uint_word value = replicate 16 0 @ u128_to_be_bytes value"

definition address_word :: "bytes \<Rightarrow> bytes" where
  "address_word addr = replicate 12 0 @ addr"

definition domain_separator :: "(bytes \<Rightarrow> bytes) \<Rightarrow> MintAuthorizationDomain \<Rightarrow> bytes" where
  "domain_separator keccak d = keccak (concat_words
    [keccak (string_bytes DOMAIN_TYPE), keccak (string_bytes (mad_name d)),
     keccak (string_bytes (mad_version d)), uint_word (ucast (mad_chain_id d)),
     address_word (mad_verifying_contract d)])"

definition struct_words :: "(bytes \<Rightarrow> bytes) \<Rightarrow> MintAuthorization \<Rightarrow> bytes" where
  "struct_words keccak a = concat_words
    [keccak (string_bytes AUTHORIZATION_TYPE), ma_deposit_id a, address_word (ma_recipient a),
     uint_word (ma_gross_amount a), uint_word (ma_max_service_fee a), uint_word (ma_charged_service_fee a),
     uint_word (ucast (ma_deadline a)), uint_word (ucast (ma_authorization_epoch a))]"

definition digest :: "(bytes \<Rightarrow> bytes) \<Rightarrow> MintAuthorizationDomain \<Rightarrow> MintAuthorization \<Rightarrow> bytes" where
  "digest keccak d a =
    keccak ([0x19, 0x01] @ domain_separator keccak d @ keccak (struct_words keccak a))"

section \<open>The authorization as the contract reads it\<close>

definition on_base :: "MintAuthorization \<Rightarrow> BaseMintAuthorization" where
  "on_base a = \<lparr> bma_depositId = word_of_nat (be_value (ma_deposit_id a)),
    bma_recipient = word_of_nat (be_value (ma_recipient a)), bma_grossAmount = ucast (ma_gross_amount a),
    bma_maxServiceFee = ucast (ma_max_service_fee a), bma_chargedServiceFee = ucast (ma_charged_service_fee a),
    bma_deadline = ucast (ma_deadline a), bma_authorizationEpoch = ucast (ma_authorization_epoch a) \<rparr>"

definition authorization_sized :: "MintAuthorization \<Rightarrow> bool" where
  "authorization_sized a = (length (ma_deposit_id a) = 32 \<and> length (ma_recipient a) = 20)"

text \<open>The documented behaviour of the library's \<open>_hashTypedDataV4\<close>, for every contract that inherits it: the
  EIP-712 envelope of the domain (the name and version given to the constructor, the chain and the address of the
  contract) and of the hash of a structure.\<close>

definition eip712_envelope :: "crypto \<Rightarrow> u256 \<Rightarrow> bool" where
  "eip712_envelope C chain_id =
    (\<forall>name version this h. cr_hashTypedDataV4 C name version this h = cr_keccak256 C ([0x19, 0x01]
      @ abi_word (cr_keccak256 C (abi_encode
          [cr_keccak256 C (string_bytes
             ''EIP712Domain(string name,string version,uint256 chainId,address verifyingContract)''),
           cr_keccak256 C (string_bytes name),
           cr_keccak256 C (string_bytes version), chain_id, ucast this]))
      @ abi_word h))"

section \<open>Lemmas\<close>

lemma to_be_pad: "v < 256 ^ n \<Longrightarrow> to_be (k + n) v = replicate k 0 @ to_be n v"
proof -
  assume v: "v < 256 ^ n"
  have "length (replicate k (0 :: u8) @ to_be n v) = k + n"
    by simp
  then have "to_be (k + n) (be_value (replicate k 0 @ to_be n v)) = replicate k 0 @ to_be n v"
    by (rule to_be_unique)
  then show ?thesis
    using v by (simp add: be_value_append be_value_replicate_zero be_value_to_be)
qed

lemma abi_word_length [simp]: "length (abi_word w) = 32"
  by (simp add: abi_word_def)

lemma abi_word_uint: "abi_word (ucast (v :: u128)) = uint_word v"
proof -
  have "unat v < 256 ^ 16"
    using unat_bound [of v] by simp
  then show ?thesis
    using to_be_pad [of "unat v" 16 16]
    by (simp add: abi_word_def uint_word_def u128_to_be_bytes_def unat_ucast_up)
qed

lemma abi_word_bytes32:
  assumes "length b = 32"
  shows "abi_word (word_of_nat (be_value b)) = b"
proof -
  have "be_value b < 2 ^ LENGTH(256)"
    using be_value_less [of b] assms by simp
  then have "unat (word_of_nat (be_value b) :: u256) = be_value b"
    by (rule unat_word_of_nat)
  then show ?thesis
    using assms by (simp add: abi_word_def to_be_unique)
qed

lemma abi_word_address:
  assumes "length b = 20"
  shows "abi_word (ucast (word_of_nat (be_value b) :: address)) = address_word b"
proof -
  have lt: "be_value b < 256 ^ 20"
    using be_value_less [of b] assms by simp
  then have "be_value b < 2 ^ LENGTH(160)"
    by simp
  then have "unat (word_of_nat (be_value b) :: address) = be_value b"
    by (rule unat_word_of_nat)
  then have "unat (ucast (word_of_nat (be_value b) :: address) :: u256) = be_value b"
    by (simp add: unat_ucast_up)
  then show ?thesis
    using to_be_pad [OF lt, of 12] assms by (simp add: abi_word_def address_word_def to_be_unique)
qed

lemma abi_word_u64: "abi_word (ucast (v :: u64)) = uint_word (ucast v)"
proof -
  have "(ucast v :: u256) = ucast (ucast v :: u128)"
    by (rule unat_eqD) (simp add: unat_ucast_up)
  then show ?thesis
    by (simp add: abi_word_uint)
qed

lemma address_word_inject: "address_word a = address_word b \<longleftrightarrow> a = b"
  by (simp add: address_word_def)

lemma uint_word_inject: "uint_word a = uint_word b \<longleftrightarrow> a = b"
  using u128_to_be_facts(2) unat_eqD unfolding uint_word_def same_append_eq by metis

lemma word_lengths [simp]:
  "length (uint_word v) = 32" "length b = 20 \<Longrightarrow> length (address_word b) = 32"
  by (simp_all add: uint_word_def address_word_def)

lemma ucast_u128_inject: "ucast (a :: u64) = (ucast b :: u128) \<longleftrightarrow> a = b"
proof
  assume "ucast a = (ucast b :: u128)"
  then have "unat (ucast a :: u128) = unat (ucast b :: u128)"
    by simp
  then show "a = b"
    by (simp add: unat_ucast_up unat_eqD)
qed simp

section \<open>Properties\<close>

text \<open>
  C30.  The canister and the contract agree on what is signed: the digest the canister signs for an
  authorization is, byte for byte, the digest from which the contract recovers the signer when the
  authorization is submitted to it, on the chain and at the address of the domain.  In particular the two
  sides have the same domain name and version, domain type and structure type, written out separately in
  the canister and in the contract.
\<close>

theorem digest_agrees_with_contract:
  assumes sized: "authorization_sized a" "length contract_address = 20"
    and keccak: "\<forall>b. keccak b = abi_word (cr_keccak256 C b)"
    and envelope: "eip712_envelope C (ucast chain_id)"
    and addr: "br_this s = word_of_nat (be_value contract_address)"
  shows "digest keccak (bridge_domain chain_id contract_address) a
    = abi_word (mintAuthorizationDigest C s (on_base a))"
proof -
  have "abi_encode [cr_keccak256 C (string_bytes MINT_AUTHORIZATION_TYPE), bma_depositId (on_base a),
      ucast (bma_recipient (on_base a)), bma_grossAmount (on_base a), bma_maxServiceFee (on_base a),
      bma_chargedServiceFee (on_base a), bma_deadline (on_base a), bma_authorizationEpoch (on_base a)]
    = struct_words keccak a"
    using sized
    by (simp add: abi_encode_def struct_words_def concat_words_def on_base_def keccak authorization_sized_def
        abi_word_bytes32 abi_word_address abi_word_uint abi_word_u64 AUTHORIZATION_TYPE_def
        MINT_AUTHORIZATION_TYPE_def)
  moreover have "abi_encode [cr_keccak256 C (string_bytes
        ''EIP712Domain(string name,string version,uint256 chainId,address verifyingContract)''),
      cr_keccak256 C (string_bytes EIP712_NAME), cr_keccak256 C (string_bytes EIP712_VERSION),
      ucast chain_id, ucast (br_this s)]
    = concat_words [keccak (string_bytes DOMAIN_TYPE), keccak (string_bytes MINT_AUTHORIZATION_DOMAIN_NAME),
      keccak (string_bytes MINT_AUTHORIZATION_DOMAIN_VERSION), uint_word (ucast chain_id),
      address_word contract_address]"
    using sized(2)
    by (simp add: abi_encode_def concat_words_def keccak addr abi_word_address abi_word_u64 DOMAIN_TYPE_def
        EIP712_NAME_def EIP712_VERSION_def MINT_AUTHORIZATION_DOMAIN_NAME_def
        MINT_AUTHORIZATION_DOMAIN_VERSION_def)
  ultimately show ?thesis
    using envelope
    by (simp add: digest_def domain_separator_def bridge_domain_def mintAuthorizationDigest_def
        eip712_envelope_def keccak)
qed

theorem digest_agrees_with_contract_witness:
  "let C = \<lparr> cr_keccak256 = (\<lambda>b. word_of_nat (be_value b)), cr_hashTypedDataV4 = (\<lambda>name version this h.
           word_of_nat (be_value ([0x19, 0x01] @ abi_word (word_of_nat (be_value (abi_encode
             [word_of_nat (be_value (string_bytes
                ''EIP712Domain(string name,string version,uint256 chainId,address verifyingContract)'')),
              word_of_nat (be_value (string_bytes name)), word_of_nat (be_value (string_bytes version)),
              ucast (8453 :: u64),
              ucast this]))) @ abi_word h))),
         cr_recover = (\<lambda>_ _ _ _. None), cr_tryRecover = (\<lambda>_ _. None) \<rparr>;
       a = \<lparr> ma_deposit_id = replicate 32 1, ma_recipient = replicate 20 2, ma_gross_amount = 100,
         ma_max_service_fee = 10, ma_charged_service_fee = 9, ma_deadline = 1800, ma_authorization_epoch = 1 \<rparr>
   in \<forall>s :: unit Bridge. digest (\<lambda>b. abi_word (word_of_nat (be_value b))) (bridge_domain 8453 (replicate 20 3)) a
    = abi_word (mintAuthorizationDigest C (s \<lparr> br_this := word_of_nat (be_value (replicate 20 3)) \<rparr>) (on_base a))"
  unfolding Let_def
  by (intro allI digest_agrees_with_contract) (simp_all add: authorization_sized_def eip712_envelope_def)

text \<open>
  C31.  The signed structure holds every field of the authorization: two authorizations have the same
  encoding only if they are the same.
\<close>

theorem authorization_encoding_injective:
  assumes "authorization_sized a" and "authorization_sized b" and "\<forall>x. length (keccak x) = 32"
  shows "struct_words keccak a = struct_words keccak b \<longleftrightarrow> a = b"
proof
  assume eq: "struct_words keccak a = struct_words keccak b"
  have "ma_deposit_id a = ma_deposit_id b \<and> ma_recipient a = ma_recipient b
      \<and> ma_gross_amount a = ma_gross_amount b \<and> ma_max_service_fee a = ma_max_service_fee b
      \<and> ma_charged_service_fee a = ma_charged_service_fee b \<and> ma_deadline a = ma_deadline b
      \<and> ma_authorization_epoch a = ma_authorization_epoch b"
    using eq assms
    by (simp add: struct_words_def concat_words_def authorization_sized_def uint_word_inject
        address_word_inject ucast_u128_inject)
  then show "a = b"
    by simp
qed simp

theorem authorization_encoding_injective_witness:
  "let a = \<lparr> ma_deposit_id = replicate 32 1, ma_recipient = replicate 20 2, ma_gross_amount = 100,
      ma_max_service_fee = 10, ma_charged_service_fee = 9, ma_deadline = 1800, ma_authorization_epoch = 1 \<rparr>
   in struct_words (\<lambda>_. replicate 32 0) a \<noteq> struct_words (\<lambda>_. replicate 32 0) (a \<lparr> ma_deadline := 1801 \<rparr>)"
  unfolding Let_def by (subst authorization_encoding_injective) (simp_all add: authorization_sized_def)

end
