(* ===== verification/Rlp_Signing.thy ===== *)
theory Rlp_Signing
  imports External Mint_Digest
begin

text \<open>
  The signer of the canister (\<open>bridge-canister/src/signer.rs\<close>): the RLP encoding of EIP-1559
  transactions, the Ethereum form of a threshold signature, and the derivation paths of the keys.

  Curve operations and Keccak are library code, the parameters \<open>ecdsa\<close> and \<open>keccak\<close>.  A public key
  and a signature are values of any type.  The calls to the management canister are not modelled;
  their results are arguments.
\<close>

section \<open>Definitions\<close>

subsection \<open>RLP\<close>

definition trim_integer :: "bytes \<Rightarrow> bytes" where
  "trim_integer bs = dropWhile (\<lambda>b. b = 0) bs"

definition length_prefix :: "nat \<Rightarrow> u8 \<Rightarrow> u8 \<Rightarrow> bytes" where
  "length_prefix len short_offset long_offset =
    (if len \<le> 55 then [short_offset + word_of_nat len]
     else let bs = trim_integer (to_be 8 len) in (long_offset + word_of_nat (length bs)) # bs)"

definition rlp_bytes :: "bytes \<Rightarrow> bytes" where
  "rlp_bytes value =
    (if length value = 1 \<and> hd value < 0x80 then value
     else length_prefix (length value) 0x80 0xb7 @ value)"

definition rlp_list :: "bytes list \<Rightarrow> bytes" where
  "rlp_list items = length_prefix (sum_list (map length items)) 0xc0 0xf7 @ concat items"

definition rlp_u64 :: "u64 \<Rightarrow> bytes" where
  "rlp_u64 value = rlp_bytes (trim_integer (u64_to_be_bytes value))"

definition rlp_u128 :: "u128 \<Rightarrow> bytes" where
  "rlp_u128 value = rlp_bytes (trim_integer (u128_to_be_bytes value))"

subsection \<open>Transactions\<close>

definition transaction_items :: "GovernanceTransactionEnvelope \<Rightarrow> bytes list" where
  "transaction_items e =
    [rlp_u64 (gte_chain_id e), rlp_u64 (gte_nonce e), rlp_u128 (gte_max_priority_fee_per_gas e),
     rlp_u128 (gte_max_fee_per_gas e), rlp_u128 (gte_gas_limit e), rlp_bytes (gte_contract e),
     rlp_bytes [], rlp_bytes (gte_calldata e), rlp_list []]"

definition unsigned_transaction :: "GovernanceTransactionEnvelope \<Rightarrow> bytes" where
  "unsigned_transaction e = 0x02 # rlp_list (transaction_items e)"

subsection \<open>Signatures\<close>

datatype SigningFailureClass =
    SF_InsufficientCycles
  | SF_CostUnavailable
  | SF_CallRejected
  | SF_CallFailed
  | SF_ResponseDecode
  | SF_InvalidPublicKey
  | SF_InvalidSignature
  | SF_RecoveryMismatch
  | SF_Storage

datatype SignerError =
    SE_ManagementCall string SigningFailureClass string
  | SE_InvalidPublicKey
  | SE_InvalidSignature
  | SE_RecoveryFailed

definition signer_error_class :: "SignerError \<Rightarrow> SigningFailureClass" where
  "signer_error_class e = (case e of
      SE_ManagementCall _ cl _ \<Rightarrow> cl
    | SE_InvalidPublicKey \<Rightarrow> SF_InvalidPublicKey
    | SE_InvalidSignature \<Rightarrow> SF_InvalidSignature
    | SE_RecoveryFailed \<Rightarrow> SF_RecoveryMismatch)"

record ('k, 'sig) ecdsa =
  ec_from_slice :: "bytes \<Rightarrow> 'sig option"
  ec_to_bytes :: "'sig \<Rightarrow> bytes"
  ec_normalize_s :: "'sig \<Rightarrow> 'sig option"
  ec_from_sec1_bytes :: "bytes \<Rightarrow> 'k option"
  ec_recover_from_prehash :: "bytes \<Rightarrow> 'sig \<Rightarrow> bool \<Rightarrow> 'k option"
  ec_uncompressed_point :: "'k \<Rightarrow> bytes"

definition ethereum_address_from_key :: "(bytes \<Rightarrow> bytes) \<Rightarrow> ('k, 'sig) ecdsa \<Rightarrow> 'k \<Rightarrow> bytes" where
  "ethereum_address_from_key keccak X key = drop 12 (keccak (drop 1 (ec_uncompressed_point X key)))"

definition recoverable_signature ::
    "('k, 'sig) ecdsa \<Rightarrow> bytes \<Rightarrow> 'k \<Rightarrow> bytes \<Rightarrow> SignerError + 'sig \<times> bool" where
  "recoverable_signature X signing_hash expected raw_signature =
    try_bind (ok_or SE_InvalidSignature (ec_from_slice X raw_signature)) (\<lambda>parsed.
    let signature = (case ec_normalize_s X parsed of Some normalized \<Rightarrow> normalized | None \<Rightarrow> parsed) in
      if ec_recover_from_prehash X signing_hash signature False = Some expected then Inr (signature, False)
      else if ec_recover_from_prehash X signing_hash signature True = Some expected then Inr (signature, True)
      else Inl SE_RecoveryFailed)"

definition canonical_ethereum_signature ::
    "('k, 'sig) ecdsa \<Rightarrow> bytes \<Rightarrow> bytes \<Rightarrow> bytes \<Rightarrow> SignerError + bytes" where
  "canonical_ethereum_signature X signing_hash public_key raw_signature =
    try_bind (ok_or SE_InvalidPublicKey (ec_from_sec1_bytes X public_key)) (\<lambda>expected.
    try_bind (recoverable_signature X signing_hash expected raw_signature) (\<lambda>(signature, odd).
    Inr (ec_to_bytes X signature @ [if odd then 28 else 27])))"

definition recover_ethereum_address ::
    "(bytes \<Rightarrow> bytes) \<Rightarrow> ('k, 'sig) ecdsa \<Rightarrow> bytes \<Rightarrow> bytes \<Rightarrow> SignerError + bytes" where
  "recover_ethereum_address keccak X signing_hash signature_bytes =
    (if length signature_bytes \<noteq> 65 then Inl SE_InvalidSignature
     else try_bind (ok_or SE_InvalidSignature (ec_from_slice X (take 64 signature_bytes))) (\<lambda>signature.
       if ec_normalize_s X signature \<noteq> None then Inl SE_InvalidSignature
       else let recovery_byte = signature_bytes ! 64 in
         if recovery_byte \<noteq> 27 \<and> recovery_byte \<noteq> 28 then Inl SE_InvalidSignature
         else try_bind (ok_or SE_RecoveryFailed
           (ec_recover_from_prehash X signing_hash signature (recovery_byte = 28))) (\<lambda>recovered.
         Inr (ethereum_address_from_key keccak X recovered))))"

definition assemble_signed ::
    "('k, 'sig) ecdsa \<Rightarrow> GovernanceTransactionEnvelope \<Rightarrow> bytes \<Rightarrow> bytes \<Rightarrow> bytes \<Rightarrow> SignerError + bytes" where
  "assemble_signed X e signing_hash public_key raw_signature =
    try_bind (ok_or SE_InvalidPublicKey (ec_from_sec1_bytes X public_key)) (\<lambda>expected.
    try_bind (recoverable_signature X signing_hash expected raw_signature) (\<lambda>(signature, parity).
    let bs = ec_to_bytes X signature in
      Inr (0x02 # rlp_list (transaction_items e
        @ [rlp_u64 (of_bool parity), rlp_bytes (trim_integer (take 32 bs)),
           rlp_bytes (trim_integer (drop 32 bs))]))))"

subsection \<open>Key derivation\<close>

datatype SignerRole = SR_Mint | SR_Governance | SR_RuntimeAdministrator | SR_Canceller

definition role_generation_derivation_path ::
    "bytes list \<Rightarrow> SignerRole \<Rightarrow> u32 \<Rightarrow> bytes list" where
  "role_generation_derivation_path path role generation =
    path
    @ (case role of
        SR_Mint \<Rightarrow> [] | SR_Governance \<Rightarrow> []
      | SR_RuntimeAdministrator \<Rightarrow> [string_bytes ''KINIC-RUNTIME-ADMINISTRATOR-V1'']
      | SR_Canceller \<Rightarrow> [string_bytes ''KINIC-INDEPENDENT-CANCELLER-V1''])
    @ (if generation \<noteq> 0
       then [string_bytes ''KINIC-CONTROL-PLANE-GENERATION-V1'', to_be 4 (unat generation)] else [])"

definition derivation_path :: "bytes list \<Rightarrow> bytes list \<Rightarrow> SignerRole \<Rightarrow> u32 \<Rightarrow> bytes list" where
  "derivation_path ecdsa_derivation_path governance_ecdsa_derivation_path role generation =
    role_generation_derivation_path
      (case role of SR_Mint \<Rightarrow> ecdsa_derivation_path | _ \<Rightarrow> governance_ecdsa_derivation_path) role generation"

section \<open>Reading RLP\<close>

text \<open>The rules of RLP for reading the first item of a byte string: whether it is a list, its payload
  and the rest; and the items of a payload one after the other.  The reader is strict, as a node of the
  chain is.  It refuses a byte below 128 behind a length prefix, the long form of a length of at most 55, and
  a leading zero in the bytes of a length or of an integer.\<close>

definition canonical_integer :: "bytes \<Rightarrow> bool" where
  "canonical_integer bs \<longleftrightarrow> bs = [] \<or> hd bs \<noteq> 0"

definition take_payload :: "bool \<Rightarrow> nat \<Rightarrow> bytes \<Rightarrow> (bool \<times> bytes \<times> bytes) option" where
  "take_payload is_list n bs = (if n \<le> length bs then Some (is_list, take n bs, drop n bs) else None)"

definition take_long :: "bool \<Rightarrow> nat \<Rightarrow> bytes \<Rightarrow> (bool \<times> bytes \<times> bytes) option" where
  "take_long is_list k bs =
    (if k \<le> length bs \<and> canonical_integer (take k bs) \<and> 55 < be_value (take k bs)
     then take_payload is_list (be_value (take k bs)) (drop k bs) else None)"

definition take_short_bytes :: "nat \<Rightarrow> bytes \<Rightarrow> (bool \<times> bytes \<times> bytes) option" where
  "take_short_bytes n bs =
    (if n = 1 \<and> bs \<noteq> [] \<and> unat (hd bs) < 128 then None else take_payload False n bs)"

fun rlp_split :: "bytes \<Rightarrow> (bool \<times> bytes \<times> bytes) option" where
  "rlp_split [] = None"
| "rlp_split (b # bs) =
    (if unat b < 128 then Some (False, [b], bs)
     else if unat b < 184 then take_short_bytes (unat b - 128) bs
     else if unat b < 192 then take_long False (unat b - 183) bs
     else if unat b < 248 then take_payload True (unat b - 192) bs
     else take_long True (unat b - 247) bs)"

lemma take_payload_shorter: "take_payload l n bs = Some (l', p, r) \<Longrightarrow> length r \<le> length bs"
  by (auto simp: take_payload_def split: if_splits)

lemma rlp_split_shorter: "rlp_split bs = Some (l, p, r) \<Longrightarrow> length r < length bs"
  by (cases bs) (auto simp: take_long_def take_short_bytes_def less_Suc_eq_le dest!: take_payload_shorter split: if_splits)

function rlp_items :: "bytes \<Rightarrow> (bool \<times> bytes) list option" where
  "rlp_items bs = (if bs = [] then Some [] else
    (case rlp_split bs of None \<Rightarrow> None
     | Some (l, p, r) \<Rightarrow> map_option (Cons (l, p)) (rlp_items r)))"
  by pat_completeness auto
termination by (relation "measure length") (auto dest: rlp_split_shorter)

declare rlp_items.simps [simp del]

lemma trim_integer_facts:
  "length (trim_integer bs) \<le> length bs" "be_value (trim_integer bs) = be_value bs"
  "trim_integer bs = [] \<longleftrightarrow> be_value bs = 0" "canonical_integer (trim_integer bs)"
proof -
  show "length (trim_integer bs) \<le> length bs"
    by (simp add: trim_integer_def length_dropWhile_le)
  show v: "be_value (trim_integer bs) = be_value bs"
    by (induction bs) (simp_all add: trim_integer_def)
  show "trim_integer bs = [] \<longleftrightarrow> be_value bs = 0"
    by (induction bs) (auto simp: trim_integer_def unat_eq_zero)
  show "canonical_integer (trim_integer bs)"
    using hd_dropWhile [of "\<lambda>b. b = 0" bs] by (auto simp: trim_integer_def canonical_integer_def)
qed

text \<open>The two forms of a length prefix.\<close>

lemma length_prefix_short: "n \<le> 55 \<Longrightarrow> length_prefix n a b = [a + word_of_nat n]"
  by (simp add: length_prefix_def)

lemma length_prefix_long:
  assumes "55 < n" and "n < 256 ^ 8"
  obtains k bs where "length_prefix n a b = (b + word_of_nat k) # bs" "length bs = k" "be_value bs = n"
    "0 < k" "k \<le> 8" "canonical_integer bs"
proof -
  let ?bs = "trim_integer (to_be 8 n)"
  have v: "be_value ?bs = n"
    using assms(2) by (simp add: trim_integer_facts be_value_to_be)
  then have "?bs \<noteq> []"
    using assms(1) by auto
  then show thesis
    using that [of "length ?bs" ?bs] assms v trim_integer_facts(1,4) [of "to_be 8 n"]
    by (simp add: length_prefix_def Let_def)
qed

lemma prefix_byte:
  assumes "unat c + n < 256"
  shows "unat (c + word_of_nat n :: u8) = unat c + n"
proof -
  have n: "unat (word_of_nat n :: u8) = n"
    using assms by (intro unat_word_of_nat) simp
  then have "unat c + unat (word_of_nat n :: u8) < 2 ^ LENGTH(8)"
    using assms by simp
  then have "unat (c + word_of_nat n :: u8) = unat c + unat (word_of_nat n :: u8)"
    by (rule unat_add_exact)
  then show ?thesis
    using n by simp
qed

lemma split_prefix_bytes:
  assumes "length p < 256 ^ 8" "\<not> (length p = 1 \<and> hd p < 0x80)"
  shows "rlp_split (length_prefix (length p) 0x80 0xb7 @ p @ r) = Some (False, p, r)"
proof (cases "length p \<le> 55")
  case True
  then show ?thesis
    using prefix_byte [of "0x80" "length p"] assms(2)
    by (auto simp: length_prefix_short take_short_bytes_def take_payload_def word_less_nat_alt hd_append)
next
  case False
  then have "55 < length p"
    by simp
  then obtain k bs where "length_prefix (length p) 0x80 0xb7 = (0xb7 + word_of_nat k) # bs" "length bs = k"
    "be_value bs = length p" "0 < k" "k \<le> 8" "canonical_integer bs"
    using assms(1) by (rule length_prefix_long)
  then show ?thesis
    using prefix_byte [of "0xb7" k] False by (simp add: take_long_def take_payload_def)
qed

lemma split_prefix_list:
  assumes "length p < 256 ^ 8"
  shows "rlp_split (length_prefix (length p) 0xc0 0xf7 @ p @ r) = Some (True, p, r)"
proof (cases "length p \<le> 55")
  case True
  then show ?thesis
    using prefix_byte [of "0xc0" "length p"] by (simp add: length_prefix_short take_payload_def)
next
  case False
  then have "55 < length p"
    by simp
  then obtain k bs where "length_prefix (length p) 0xc0 0xf7 = (0xf7 + word_of_nat k) # bs" "length bs = k"
    "be_value bs = length p" "0 < k" "k \<le> 8" "canonical_integer bs"
    using assms(1) by (rule length_prefix_long)
  then show ?thesis
    using prefix_byte [of "0xf7" k] False by (simp add: take_long_def take_payload_def)
qed

lemma split_rlp_bytes:
  assumes "length v < 256 ^ 8"
  shows "rlp_split (rlp_bytes v @ r) = Some (False, v, r)"
proof (cases "length v = 1 \<and> hd v < 0x80")
  case True
  then obtain b where "v = [b]" "b < 0x80"
    by (cases v) auto
  then show ?thesis
    by (simp add: rlp_bytes_def word_less_nat_alt)
next
  case False
  then show ?thesis
    using split_prefix_bytes [OF assms False, of r] by (auto simp: rlp_bytes_def)
qed

lemma split_rlp_list:
  assumes "sum_list (map length items) < 256 ^ 8"
  shows "rlp_split (rlp_list items @ r) = Some (True, concat items, r)"
  using split_prefix_list [of "concat items" r] assms by (simp add: rlp_list_def length_concat)

lemma rlp_items_Nil [simp]: "rlp_items [] = Some []"
  by (simp add: rlp_items.simps)

lemma rlp_items_step:
  assumes "rlp_split (x @ r) = Some (l, p, r)"
  shows "rlp_items (x @ r) = map_option (Cons (l, p)) (rlp_items r)"
  using assms by (subst rlp_items.simps) auto

text \<open>The items of a payload, in the order they were written.\<close>

lemma rlp_items_bytes:
  "length v < 256 ^ 8 \<Longrightarrow> rlp_items (rlp_bytes v @ r) = map_option (Cons (False, v)) (rlp_items r)"
  by (rule rlp_items_step) (rule split_rlp_bytes)

lemma rlp_items_list:
  "sum_list (map length items) < 256 ^ 8 \<Longrightarrow>
    rlp_items (rlp_list items @ r) = map_option (Cons (True, concat items)) (rlp_items r)"
  by (rule rlp_items_step) (rule split_rlp_list)

lemma rlp_items_u64: "rlp_items (rlp_u64 v @ r)
    = map_option (Cons (False, trim_integer (u64_to_be_bytes v))) (rlp_items r)"
  unfolding rlp_u64_def using trim_integer_facts(1) [of "u64_to_be_bytes v"]
  by (intro rlp_items_bytes) simp

lemma rlp_items_u128: "rlp_items (rlp_u128 v @ r)
    = map_option (Cons (False, trim_integer (u128_to_be_bytes v))) (rlp_items r)"
  unfolding rlp_u128_def using trim_integer_facts(1) [of "u128_to_be_bytes v"]
  by (intro rlp_items_bytes) simp

lemma length_rlp_bytes: "length (rlp_bytes v) \<le> length v + 9"
  using trim_integer_facts(1) [of "to_be 8 (length v)"] by (simp add: rlp_bytes_def length_prefix_def Let_def)

text \<open>Reading a type-2 transaction: its nine fields (the destination is a 20-byte address, the value is zero and
  the access list is empty), and the numbers that follow them.\<close>

type_synonym read_fields = "(nat \<times> nat \<times> nat \<times> nat \<times> nat \<times> bytes \<times> bytes) \<times> nat list"

definition read_transaction :: "bytes \<Rightarrow> read_fields option" where
  "read_transaction tx = (case tx of [] \<Rightarrow> None | b # bs \<Rightarrow>
    if b \<noteq> 2 then None else
    (case rlp_split bs of
      Some (True, payload, []) \<Rightarrow>
        (case rlp_items payload of
          Some ((False, chain_id) # (False, nonce) # (False, priority) # (False, max_fee) # (False, gas)
              # (False, contract) # (False, []) # (False, calldata) # (True, []) # tail) \<Rightarrow>
            if list_all canonical_integer [chain_id, nonce, priority, max_fee, gas] \<and> length contract = 20
              \<and> list_all (\<lambda>(is_list, bs). \<not> is_list \<and> canonical_integer bs) tail
            then Some ((be_value chain_id, be_value nonce, be_value priority, be_value max_fee, be_value gas,
              contract, calldata), map (be_value \<circ> snd) tail)
            else None
        | _ \<Rightarrow> None)
    | _ \<Rightarrow> None))"

abbreviation envelope_fields ::
    "GovernanceTransactionEnvelope \<Rightarrow> nat \<times> nat \<times> nat \<times> nat \<times> nat \<times> bytes \<times> bytes" where
  "envelope_fields e \<equiv> (unat (gte_chain_id e), unat (gte_nonce e), unat (gte_max_priority_fee_per_gas e),
    unat (gte_max_fee_per_gas e), unat (gte_gas_limit e), gte_contract e, gte_calldata e)"

lemma read_items:
  assumes "length (gte_contract e) = 20" "length (gte_calldata e) < 256 ^ 8"
    and "sum_list (map length (transaction_items e @ rest)) < 256 ^ 8"
    and "rlp_items (concat rest) = Some tail"
    and "list_all (\<lambda>(is_list, bs). \<not> is_list \<and> canonical_integer bs) tail"
  shows "read_transaction (0x02 # rlp_list (transaction_items e @ rest))
    = Some (envelope_fields e, map (be_value \<circ> snd) tail)"
proof -
  have "rlp_items (concat (transaction_items e @ rest))
      = Some ([(False, trim_integer (u64_to_be_bytes (gte_chain_id e))),
        (False, trim_integer (u64_to_be_bytes (gte_nonce e))),
        (False, trim_integer (u128_to_be_bytes (gte_max_priority_fee_per_gas e))),
        (False, trim_integer (u128_to_be_bytes (gte_max_fee_per_gas e))),
        (False, trim_integer (u128_to_be_bytes (gte_gas_limit e))),
        (False, gte_contract e), (False, []), (False, gte_calldata e), (True, [])] @ tail)"
    using assms rlp_items_list [of "[]" "concat rest"]
    by (simp add: transaction_items_def rlp_items_u64 rlp_items_u128 rlp_items_bytes)
  then show ?thesis
    using split_rlp_list [OF assms(3), of "[]"] assms(1,5)
    by (simp add: read_transaction_def trim_integer_facts)
qed

definition envelope_sized :: "GovernanceTransactionEnvelope \<Rightarrow> bool" where
  "envelope_sized e \<longleftrightarrow> length (gte_contract e) = 20 \<and> length (gte_calldata e) < 2 ^ 32"

lemma length_rlp_words:
  "length (rlp_u64 v) \<le> 17" "length (rlp_u128 w) \<le> 25"
  using length_rlp_bytes [of "trim_integer (u64_to_be_bytes v)"] trim_integer_facts(1) [of "u64_to_be_bytes v"]
    length_rlp_bytes [of "trim_integer (u128_to_be_bytes w)"] trim_integer_facts(1) [of "u128_to_be_bytes w"]
  by (simp_all add: rlp_u64_def rlp_u128_def)

lemma transaction_items_size:
  assumes "envelope_sized e" "sum_list (map length rest) < 1000"
  shows "sum_list (map length (transaction_items e @ rest)) < 256 ^ 8"
proof -
  have "length (rlp_list []) = 1"
    by (simp add: rlp_list_def length_prefix_def)
  then show ?thesis
    using assms length_rlp_words(1) [of "gte_chain_id e"] length_rlp_words(1) [of "gte_nonce e"]
      length_rlp_words(2) [of "gte_max_priority_fee_per_gas e"]
      length_rlp_words(2) [of "gte_max_fee_per_gas e"] length_rlp_words(2) [of "gte_gas_limit e"]
      length_rlp_bytes [of "gte_contract e"] length_rlp_bytes [of "[]"]
      length_rlp_bytes [of "gte_calldata e"]
    by (simp add: transaction_items_def envelope_sized_def)
qed

lemma read_sized:
  assumes "envelope_sized e" "sum_list (map length rest) < 1000" "rlp_items (concat rest) = Some tail"
    and "list_all (\<lambda>(is_list, bs). \<not> is_list \<and> canonical_integer bs) tail"
  shows "read_transaction (0x02 # rlp_list (transaction_items e @ rest))
    = Some (envelope_fields e, map (be_value \<circ> snd) tail)"
  using assms transaction_items_size [OF assms(1,2)] by (intro read_items) (auto simp: envelope_sized_def)

text \<open>A signature is 64 bytes, as the library's fixed-size encoding gives it.\<close>

definition signature_sized :: "('k, 'sig) ecdsa \<Rightarrow> bool" where
  "signature_sized X \<longleftrightarrow> (\<forall>s. length (ec_to_bytes X s) = 64)"

lemma read_with_signature:
  assumes e: "envelope_sized e" and l: "length r \<le> 32" "length s \<le> 32"
  shows "read_transaction (0x02 # rlp_list (transaction_items e
      @ [rlp_u64 v, rlp_bytes (trim_integer r), rlp_bytes (trim_integer s)]))
    = Some (envelope_fields e, [unat v, be_value r, be_value s])"
proof -
  have t: "length (trim_integer r) \<le> 32" "length (trim_integer s) \<le> 32"
    using l trim_integer_facts(1) [of r] trim_integer_facts(1) [of s] by simp_all
  have "sum_list (map length [rlp_u64 v, rlp_bytes (trim_integer r), rlp_bytes (trim_integer s)]) < 1000"
    using t length_rlp_words(1) [of v] length_rlp_bytes [of "trim_integer r"]
      length_rlp_bytes [of "trim_integer s"]
    by simp
  moreover have "rlp_items (concat [rlp_u64 v, rlp_bytes (trim_integer r), rlp_bytes (trim_integer s)])
      = Some [(False, trim_integer (u64_to_be_bytes v)), (False, trim_integer r), (False, trim_integer s)]"
    using t rlp_items_bytes [of "trim_integer s" "[]"] by (simp add: rlp_items_u64 rlp_items_bytes)
  ultimately show ?thesis
    using read_sized [OF e] by (simp add: trim_integer_facts)
qed

definition low_s :: "('k, 'sig) ecdsa \<Rightarrow> 'sig \<Rightarrow> 'sig" where
  "low_s X s = (case ec_normalize_s X s of Some t \<Rightarrow> t | None \<Rightarrow> s)"

lemma recoverable_signature_cases:
  "recoverable_signature X h key raw = (case ec_from_slice X raw of
      None \<Rightarrow> Inl SE_InvalidSignature
    | Some s \<Rightarrow>
        if ec_recover_from_prehash X h (low_s X s) False = Some key then Inr (low_s X s, False)
        else if ec_recover_from_prehash X h (low_s X s) True = Some key then Inr (low_s X s, True)
        else Inl SE_RecoveryFailed)"
  by (cases "ec_from_slice X raw") (simp_all add: recoverable_signature_def low_s_def result_simps Let_def)

lemma recoverable_signature_ok:
  assumes "recoverable_signature X h key raw = Inr (sg, parity)"
  shows "ec_recover_from_prehash X h sg parity = Some key \<and> (\<exists>s. ec_from_slice X raw = Some s \<and> sg = low_s X s)"
proof (cases "ec_from_slice X raw")
  case None
  then show ?thesis
    using assms by (simp add: recoverable_signature_cases)
next
  case (Some s)
  then show ?thesis
    using assms unfolding recoverable_signature_cases by (simp split: if_splits)
qed

lemma assemble_signed_ok:
  assumes "assemble_signed X e h public_key raw = Inr tx"
  obtains key sg parity where "ec_from_sec1_bytes X public_key = Some key"
    "recoverable_signature X h key raw = Inr (sg, parity)"
    "tx = 0x02 # rlp_list (transaction_items e
      @ [rlp_u64 (of_bool parity), rlp_bytes (trim_integer (take 32 (ec_to_bytes X sg))),
         rlp_bytes (trim_integer (drop 32 (ec_to_bytes X sg)))])"
  using assms by (auto simp: assemble_signed_def Let_def result_simps split: sum.splits option.splits)

section \<open>Transactions\<close>

lemma read_signed:
  assumes "envelope_sized e" "signature_sized X" and ok: "assemble_signed X e h public_key raw = Inr tx"
  shows "\<exists>key s parity. ec_from_sec1_bytes X public_key = Some key \<and> ec_from_slice X raw = Some s
    \<and> ec_recover_from_prehash X h (low_s X s) parity = Some key
    \<and> read_transaction tx = Some (envelope_fields e, of_bool parity # map be_value
        [take 32 (ec_to_bytes X (low_s X s)), drop 32 (ec_to_bytes X (low_s X s))])"
proof -
  obtain key sg parity where k: "ec_from_sec1_bytes X public_key = Some key"
    and r: "recoverable_signature X h key raw = Inr (sg, parity)"
    and tx: "tx = 0x02 # rlp_list (transaction_items e
      @ [rlp_u64 (of_bool parity), rlp_bytes (trim_integer (take 32 (ec_to_bytes X sg))),
         rlp_bytes (trim_integer (drop 32 (ec_to_bytes X sg)))])"
    using ok by (rule assemble_signed_ok)
  have l: "length (take 32 (ec_to_bytes X sg)) \<le> 32" "length (drop 32 (ec_to_bytes X sg)) \<le> 32"
    using assms(2) by (simp_all add: signature_sized_def)
  then have "read_transaction tx = Some (envelope_fields e, of_bool parity # map be_value
      [take 32 (ec_to_bytes X sg), drop 32 (ec_to_bytes X sg)])"
    using read_with_signature [OF assms(1) l, of "of_bool parity"] tx by (simp add: of_bool_def)
  with k recoverable_signature_ok [OF r] show ?thesis
    by blast
qed

text \<open>
  C32.  Read back by a strict reader of RLP (canonical lengths and integers only, as the chain requires),
  the bytes that are hashed for signing carry exactly the chain, nonce, fees, gas, contract and calldata
  of the envelope and nothing after them.  The signed transaction carries the same fields, followed by
  the parity and the two halves of a signature from which the expected key is recovered.
\<close>

theorem transaction_carries_envelope:
  assumes "envelope_sized e" and "signature_sized X"
  shows "read_transaction (unsigned_transaction e) = Some (envelope_fields e, [])
    \<and> (\<forall>h public_key raw tx. assemble_signed X e h public_key raw = Inr tx \<longrightarrow>
        (\<exists>key s parity. ec_from_sec1_bytes X public_key = Some key \<and> ec_from_slice X raw = Some s
          \<and> ec_recover_from_prehash X h (low_s X s) parity = Some key
          \<and> read_transaction tx = Some (envelope_fields e, of_bool parity # map be_value
              [take 32 (ec_to_bytes X (low_s X s)), drop 32 (ec_to_bytes X (low_s X s))])))"
  using read_sized [OF assms(1), of "[]" "[]"] read_signed [OF assms]
  by (auto simp: unsigned_transaction_def)

text \<open>A stand-in for the curve: a signature is one byte repeated, high bytes are the negated ones, and
  the message is the key.\<close>

definition sample_ecdsa :: "(bytes, u8) ecdsa" where
  "sample_ecdsa =
    \<lparr> ec_from_slice = (\<lambda>bs. if bs = replicate 64 (hd bs) then Some (hd bs) else None),
      ec_to_bytes = replicate 64,
      ec_normalize_s = (\<lambda>b. if b < 128 then None else Some (255 - b)),
      ec_from_sec1_bytes = (\<lambda>bs. if bs = [] then None else Some bs),
      ec_recover_from_prehash = (\<lambda>h s parity. if parity then Some h else None),
      ec_uncompressed_point = (\<lambda>k. 4 # k) \<rparr>"

definition sample_envelope :: GovernanceTransactionEnvelope where
  "sample_envelope =
    \<lparr> gte_operation_id = 1, gte_payload_hash = replicate 32 1, gte_nonce = 300, gte_chain_id = 8453,
      gte_contract = replicate 20 7, gte_calldata = replicate 68 9, gte_gas_limit = 100000,
      gte_max_fee_per_gas = 2000000000, gte_max_priority_fee_per_gas = 0, gte_signed_transactions = [] \<rparr>"

lemma sample_ecdsa_sel [simp]:
  "ec_from_slice sample_ecdsa (replicate 64 b) = Some b"
  "ec_to_bytes sample_ecdsa b = replicate 64 b"
  "low_s sample_ecdsa b = (if b < 128 then b else 255 - b)"
  "ec_from_sec1_bytes sample_ecdsa bs = (if bs = [] then None else Some bs)"
  "ec_recover_from_prehash sample_ecdsa h b parity = (if parity then Some h else None)"
  "ec_uncompressed_point sample_ecdsa k = 4 # k"
  by (simp_all add: sample_ecdsa_def low_s_def)

theorem transaction_carries_envelope_witness:
  "read_transaction (unsigned_transaction sample_envelope) = Some (envelope_fields sample_envelope, [])
    \<and> (\<exists>tx. assemble_signed sample_ecdsa sample_envelope [1, 2] [1, 2] (replicate 64 200) = Inr tx
     \<and> read_transaction tx = Some (envelope_fields sample_envelope,
         [1, be_value (replicate 32 55), be_value (replicate 32 55)]))"
proof -
  have "envelope_sized sample_envelope" "signature_sized sample_ecdsa"
    by (simp_all add: envelope_sized_def sample_envelope_def signature_sized_def)
  note carries = transaction_carries_envelope [OF this]
  obtain tx where tx: "assemble_signed sample_ecdsa sample_envelope [1, 2] [1, 2] (replicate 64 200) = Inr tx"
    by (simp add: assemble_signed_def recoverable_signature_cases Let_def result_simps)
  then have "read_transaction tx = Some (envelope_fields sample_envelope,
      [1, be_value (replicate 32 55), be_value (replicate 32 55)])"
    using carries [THEN conjunct2, rule_format, OF tx] by (auto split: if_splits)
  with tx carries show ?thesis
    by blast
qed

section \<open>Signatures\<close>

text \<open>The documented behaviour of the signature codec: decoding inverts encoding, and a normalised
  signature is not normalised again.\<close>

definition signature_codec :: "('k, 'sig) ecdsa \<Rightarrow> bool" where
  "signature_codec X \<longleftrightarrow> (\<forall>s. ec_from_slice X (ec_to_bytes X s) = Some s)
    \<and> (\<forall>s t. ec_normalize_s X s = Some t \<longrightarrow> ec_normalize_s X t = None)"

lemma normalize_low_s: "signature_codec X \<Longrightarrow> ec_normalize_s X (low_s X s) = None"
  by (cases "ec_normalize_s X s") (auto simp: low_s_def signature_codec_def)

lemma recover_encoded:
  assumes "signature_sized X" "signature_codec X" "ec_recover_from_prehash X h (low_s X s) parity = Some key"
  shows "recover_ethereum_address keccak X h (ec_to_bytes X (low_s X s) @ [if parity then 28 else 27])
    = Inr (ethereum_address_from_key keccak X key)"
  using assms normalize_low_s [OF assms(2), of s]
  by (cases parity)
    (simp_all add: recover_ethereum_address_def signature_sized_def signature_codec_def result_simps nth_append)

text \<open>
  C33.  The signature the canister publishes for a mint authorization recovers, by its own verifier,
  to the address of the key it was asked for: 65 bytes, low s.  It is refused only for a raw
  signature that does not parse, or when neither parity recovers the key.
\<close>

theorem signature_recovers_signer:
  assumes "signature_sized X" "signature_codec X" "ec_from_sec1_bytes X public_key = Some key"
  shows "case canonical_ethereum_signature X h public_key raw of
      Inr sg \<Rightarrow> length sg = 65
        \<and> recover_ethereum_address keccak X h sg = Inr (ethereum_address_from_key keccak X key)
    | Inl e \<Rightarrow> (e = SE_InvalidSignature \<and> ec_from_slice X raw = None)
        \<or> (e = SE_RecoveryFailed \<and> (\<exists>s. ec_from_slice X raw = Some s
          \<and> (\<forall>parity. ec_recover_from_prehash X h (low_s X s) parity \<noteq> Some key)))"
proof (cases "recoverable_signature X h key raw")
  case (Inr found)
  obtain sg parity where f: "found = (sg, parity)"
    by (cases found)
  obtain s where "ec_recover_from_prehash X h (low_s X s) parity = Some key" "sg = low_s X s"
    using recoverable_signature_ok [of X h key raw sg parity] Inr f by auto
  then show ?thesis
    using assms Inr f recover_encoded [OF assms(1,2)]
    by (simp add: canonical_ethereum_signature_def result_simps signature_sized_def)
next
  case (Inl e)
  then show ?thesis
    using assms(3)
    by (auto simp: canonical_ethereum_signature_def recoverable_signature_cases result_simps all_bool_eq
        split: option.splits if_splits)
qed

theorem signature_recovers_signer_witness:
  "\<exists>sg. canonical_ethereum_signature sample_ecdsa [1, 2] [1, 2] (replicate 64 200) = Inr sg
    \<and> recover_ethereum_address (\<lambda>bs. replicate 30 0 @ bs) sample_ecdsa [1, 2] sg = Inr (replicate 18 0 @ [1, 2])"
proof -
  have "255 - b < (128 :: u8)" if "\<not> b < 128" for b :: u8
  proof -
    have "b \<le> 255"
      using unat_bound [of b] by (simp add: word_le_nat_alt)
    then show ?thesis
      using that by (simp add: word_less_nat_alt unat_sub)
  qed
  then have laws: "signature_sized sample_ecdsa" "signature_codec sample_ecdsa"
    "ec_from_sec1_bytes sample_ecdsa [1, 2] = Some [1, 2]"
    by (auto simp: signature_sized_def signature_codec_def) (auto simp: sample_ecdsa_def split: if_splits)
  have "canonical_ethereum_signature sample_ecdsa [1, 2] [1, 2] (replicate 64 200) = Inr (replicate 64 55 @ [28])"
    by (simp add: canonical_ethereum_signature_def recoverable_signature_cases result_simps)
  then show ?thesis
    using signature_recovers_signer
      [OF laws, where h = "[1, 2]" and raw = "replicate 64 200" and keccak = "\<lambda>bs. replicate 30 0 @ bs"]
    by (simp add: ethereum_address_from_key_def)
qed

section \<open>Key derivation\<close>

text \<open>
  The paths keep the keys apart.  At one generation the four roles have four paths as long as the
  configured mint path is not the governance path, nor that path with a role label added (the
  configuration check refuses only the first).  The paths of the three control-plane roles differ
  between any two roles and any two generations.
\<close>

lemma derivation_paths_separate:
  assumes "mint \<noteq> governance" "mint \<noteq> governance @ [string_bytes ''KINIC-RUNTIME-ADMINISTRATOR-V1'']"
    and "mint \<noteq> governance @ [string_bytes ''KINIC-INDEPENDENT-CANCELLER-V1'']"
  shows "derivation_path mint governance r g = derivation_path mint governance r' g' \<longrightarrow>
    (g = g' \<or> (r \<noteq> SR_Mint \<and> r' \<noteq> SR_Mint)) \<longrightarrow> r = r' \<and> g = g'"
proof (intro impI)
  have u: "to_be 4 (unat g) = to_be 4 (unat g') \<longleftrightarrow> g = g'"
  proof
    assume "to_be 4 (unat g) = to_be 4 (unat g')"
    then have "be_value (to_be 4 (unat g)) = be_value (to_be 4 (unat g'))"
      by simp
    then show "g = g'"
      using unat_bound [of g] unat_bound [of g'] by (simp add: be_value_to_be word_unat_eq_iff)
  qed simp
  assume "derivation_path mint governance r g = derivation_path mint governance r' g'"
    and "g = g' \<or> (r \<noteq> SR_Mint \<and> r' \<noteq> SR_Mint)"
  then show "r = r' \<and> g = g'"
    using assms u
    by (cases r; cases r')
      (auto simp: derivation_path_def role_generation_derivation_path_def string_bytes_def split: if_splits)
qed

lemma derivation_paths_separate_witness:
  "derivation_path [] [[1]] SR_Mint 0 \<noteq> derivation_path [] [[1]] SR_Canceller 0
    \<and> derivation_path [] [[1]] SR_Governance 1 \<noteq> derivation_path [] [[1]] SR_Governance 2"
  using derivation_paths_separate [of "[]" "[[1]]" SR_Mint 0 SR_Canceller 0]
    derivation_paths_separate [of "[]" "[[1]]" SR_Governance 1 SR_Governance 2]
  by simp

end
