(* ===== verification/Governance_Store.thy ===== *)
theory Governance_Store
  imports Storage_Keys Kernel_Decisions External Event_Machine
begin

text \<open>
  The governance part of the stored admission control (\<open>bridge-canister/src/storage/mod.rs\<close>): the
  addresses and keys of the control plane, one nonce lane and at most one pending transaction per
  signing role, the pending timelock operation and rotation, and the queue of emergency actions.

  \<open>DepositAdmissionControl\<close> is one record in the source; its quota fields are in the theory
  \<open>Admission\<close>, its governance fields are the record here.  An operation reads the control and writes
  it back once, at its end, so an error leaves the stored control as it was.  The address fields of
  the two rotation kinds are the record \<open>ControlPlaneRotation\<close>.
\<close>

section \<open>Definitions\<close>

record ControlPlaneRotation =
  cpr_generation :: u32
  cpr_bridge_signer :: bytes
  cpr_governance_operator :: bytes
  cpr_runtime_administrator :: bytes
  cpr_independent_canceller :: bytes

record PendingTimelockOperation =
  pto_operation_id :: bytes
  pto_salt :: bytes

datatype GovernanceTransactionKind =
    GK_PauseDepositMints
  | GK_PauseWithdrawals
  | GK_SetServiceFee u128
  | GK_CancelTimelock bytes
  | GK_ScheduleActivation bytes bytes
  | GK_ExecuteActivation bytes bytes
  | GK_ScheduleControlPlaneRotation bytes bytes ControlPlaneRotation
  | GK_ExecuteControlPlaneRotation bytes bytes ControlPlaneRotation

datatype GovernanceNonceLane = Lane_Governance | Lane_RuntimeAdministrator | Lane_IndependentCanceller

definition nonce_lane :: "GovernanceTransactionKind \<Rightarrow> GovernanceNonceLane" where
  "nonce_lane kind = (case kind of
      GK_PauseDepositMints \<Rightarrow> Lane_RuntimeAdministrator
    | GK_PauseWithdrawals \<Rightarrow> Lane_RuntimeAdministrator
    | GK_SetServiceFee _ \<Rightarrow> Lane_RuntimeAdministrator
    | GK_CancelTimelock _ \<Rightarrow> Lane_IndependentCanceller
    | _ \<Rightarrow> Lane_Governance)"

datatype GovernanceTransactionState =
    GS_Prepared
  | GS_SignedAwaitingRelay bytes u8 u64
  | GS_Confirmed bytes u64
  | GS_Reverted bytes u64

record GovernanceTransaction =
  gt_id :: u64
  gt_kind :: GovernanceTransactionKind
  gt_envelope :: GovernanceTransactionEnvelope
  gt_state :: GovernanceTransactionState
  gt_activation_controller_authority :: "bytes option"

record ConfirmedActivationRecord =
  car_phase :: string
  car_governance_operation_id :: u64
  car_timelock_operation_id :: bytes
  car_transaction_hash :: bytes
  car_receipt_block_number :: u64
  car_generation :: u8
  car_signed_at_ns :: u64

record GovernanceControl =
  gc_signer_address :: "bytes option"
  gc_signer_public_key :: "bytes option"
  gc_governance_operator_address :: "bytes option"
  gc_governance_operator_public_key :: "bytes option"
  gc_runtime_administrator_address :: "bytes option"
  gc_independent_canceller_address :: "bytes option"
  gc_control_plane_key_generation :: u32
  gc_governance_nonce_initialized :: bool
  gc_next_governance_nonce :: u64
  gc_runtime_administrator_nonce_initialized :: bool
  gc_next_runtime_administrator_nonce :: u64
  gc_independent_canceller_nonce_initialized :: bool
  gc_next_independent_canceller_nonce :: u64
  gc_next_governance_operation_id :: u64
  gc_pending_governance_transaction :: "GovernanceTransaction option"
  gc_pending_runtime_administrator_transaction :: "GovernanceTransaction option"
  gc_pending_independent_canceller_transaction :: "GovernanceTransaction option"
  gc_last_completed_governance_transaction :: "GovernanceTransaction option"
  gc_last_completed_runtime_administrator_transaction :: "GovernanceTransaction option"
  gc_last_completed_independent_canceller_transaction :: "GovernanceTransaction option"
  gc_last_confirmed_activation :: "ConfirmedActivationRecord option"
  gc_pending_timelock_operation :: "PendingTimelockOperation option"
  gc_pending_control_plane_rotation :: "ControlPlaneRotation option"
  gc_emergency_pause_deposit_required :: bool
  gc_emergency_pause_withdrawal_required :: bool
  gc_emergency_cancel_required :: bool

subsection \<open>Lanes\<close>

definition nonce_state :: "GovernanceControl \<Rightarrow> GovernanceNonceLane \<Rightarrow> bool \<times> u64" where
  "nonce_state c lane = (case lane of
      Lane_Governance \<Rightarrow> (gc_governance_nonce_initialized c, gc_next_governance_nonce c)
    | Lane_RuntimeAdministrator \<Rightarrow>
        (gc_runtime_administrator_nonce_initialized c, gc_next_runtime_administrator_nonce c)
    | Lane_IndependentCanceller \<Rightarrow>
        (gc_independent_canceller_nonce_initialized c, gc_next_independent_canceller_nonce c))"

definition set_nonce_state ::
    "GovernanceNonceLane \<Rightarrow> bool \<Rightarrow> u64 \<Rightarrow> GovernanceControl \<Rightarrow> GovernanceControl" where
  "set_nonce_state lane initialized nonce c = (case lane of
      Lane_Governance \<Rightarrow>
        c \<lparr> gc_governance_nonce_initialized := initialized, gc_next_governance_nonce := nonce \<rparr>
    | Lane_RuntimeAdministrator \<Rightarrow>
        c \<lparr> gc_runtime_administrator_nonce_initialized := initialized,
            gc_next_runtime_administrator_nonce := nonce \<rparr>
    | Lane_IndependentCanceller \<Rightarrow>
        c \<lparr> gc_independent_canceller_nonce_initialized := initialized,
            gc_next_independent_canceller_nonce := nonce \<rparr>)"

definition pending_transaction :: "GovernanceControl \<Rightarrow> GovernanceNonceLane \<Rightarrow> GovernanceTransaction option" where
  "pending_transaction c lane = (case lane of
      Lane_Governance \<Rightarrow> gc_pending_governance_transaction c
    | Lane_RuntimeAdministrator \<Rightarrow> gc_pending_runtime_administrator_transaction c
    | Lane_IndependentCanceller \<Rightarrow> gc_pending_independent_canceller_transaction c)"

definition set_pending_transaction ::
    "GovernanceNonceLane \<Rightarrow> GovernanceTransaction option \<Rightarrow> GovernanceControl \<Rightarrow> GovernanceControl" where
  "set_pending_transaction lane t c = (case lane of
      Lane_Governance \<Rightarrow> c \<lparr> gc_pending_governance_transaction := t \<rparr>
    | Lane_RuntimeAdministrator \<Rightarrow> c \<lparr> gc_pending_runtime_administrator_transaction := t \<rparr>
    | Lane_IndependentCanceller \<Rightarrow> c \<lparr> gc_pending_independent_canceller_transaction := t \<rparr>)"

definition completed_transaction ::
    "GovernanceControl \<Rightarrow> GovernanceNonceLane \<Rightarrow> GovernanceTransaction option" where
  "completed_transaction c lane = (case lane of
      Lane_Governance \<Rightarrow> gc_last_completed_governance_transaction c
    | Lane_RuntimeAdministrator \<Rightarrow> gc_last_completed_runtime_administrator_transaction c
    | Lane_IndependentCanceller \<Rightarrow> gc_last_completed_independent_canceller_transaction c)"

definition set_completed_transaction ::
    "GovernanceNonceLane \<Rightarrow> GovernanceTransaction \<Rightarrow> GovernanceControl \<Rightarrow> GovernanceControl" where
  "set_completed_transaction lane t c = (case lane of
      Lane_Governance \<Rightarrow> c \<lparr> gc_last_completed_governance_transaction := Some t \<rparr>
    | Lane_RuntimeAdministrator \<Rightarrow> c \<lparr> gc_last_completed_runtime_administrator_transaction := Some t \<rparr>
    | Lane_IndependentCanceller \<Rightarrow> c \<lparr> gc_last_completed_independent_canceller_transaction := Some t \<rparr>)"

subsection \<open>Addresses and keys\<close>

definition addresses_are_distinct :: "bytes list \<Rightarrow> bool" where
  "addresses_are_distinct addresses = (list_all (\<lambda>a. a \<noteq> replicate 20 0) addresses \<and> distinct addresses)"

definition control_plane_addresses_are_distinct :: "ControlPlaneRotation \<Rightarrow> bool" where
  "control_plane_addresses_are_distinct r = addresses_are_distinct
    [cpr_bridge_signer r, cpr_governance_operator r, cpr_runtime_administrator r, cpr_independent_canceller r]"

definition control_plane_rotation :: "GovernanceTransactionKind \<Rightarrow> ControlPlaneRotation option" where
  "control_plane_rotation kind = (case kind of
      GK_ScheduleControlPlaneRotation _ _ r \<Rightarrow> Some r
    | GK_ExecuteControlPlaneRotation _ _ r \<Rightarrow> Some r
    | _ \<Rightarrow> None)"

definition address_conflicts :: "bytes option \<Rightarrow> bytes \<Rightarrow> bool" where
  "address_conflicts stored a = (case stored of None \<Rightarrow> False | Some b \<Rightarrow> b \<noteq> a)"

definition initialize_chain_key_addresses ::
    "GovernanceControl \<Rightarrow> bytes \<Rightarrow> bytes \<Rightarrow> bytes \<Rightarrow> bytes \<Rightarrow> GovernanceControl storage_result" where
  "initialize_chain_key_addresses c signer governance_operator runtime_administrator independent_canceller =
    (if address_conflicts (gc_signer_address c) signer
      \<or> address_conflicts (gc_governance_operator_address c) governance_operator
      \<or> address_conflicts (gc_runtime_administrator_address c) runtime_administrator
      \<or> address_conflicts (gc_independent_canceller_address c) independent_canceller
      \<or> \<not> addresses_are_distinct [signer, governance_operator, runtime_administrator, independent_canceller]
     then Inl (StorageCore ConflictingReplay)
     else Inr (c \<lparr> gc_signer_address := Some signer,
       gc_governance_operator_address := Some governance_operator,
       gc_runtime_administrator_address := Some runtime_administrator,
       gc_independent_canceller_address := Some independent_canceller \<rparr>))"

definition set_signer_public_key_if_absent :: "GovernanceControl \<Rightarrow> bytes \<Rightarrow> bytes \<times> GovernanceControl" where
  "set_signer_public_key_if_absent c public_key =
    (let selected = (case gc_signer_public_key c of Some k \<Rightarrow> k | None \<Rightarrow> public_key) in
      (selected, c \<lparr> gc_signer_public_key := Some selected \<rparr>))"

definition set_governance_operator_public_key_if_absent ::
    "GovernanceControl \<Rightarrow> bytes \<Rightarrow> bytes \<times> GovernanceControl" where
  "set_governance_operator_public_key_if_absent c public_key =
    (let selected = (case gc_governance_operator_public_key c of Some k \<Rightarrow> k | None \<Rightarrow> public_key) in
      (selected, c \<lparr> gc_governance_operator_public_key := Some selected \<rparr>))"

definition set_signer_address_if_absent :: "GovernanceControl \<Rightarrow> bytes \<Rightarrow> bytes \<times> GovernanceControl" where
  "set_signer_address_if_absent c a =
    (let selected = (case gc_signer_address c of Some b \<Rightarrow> b | None \<Rightarrow> a) in
      (selected, c \<lparr> gc_signer_address := Some selected \<rparr>))"

subsection \<open>Emergency actions\<close>

definition enqueue_emergency_base_actions :: "GovernanceControl \<Rightarrow> GovernanceControl" where
  "enqueue_emergency_base_actions c =
    c \<lparr> gc_emergency_pause_deposit_required := True, gc_emergency_pause_withdrawal_required := True,
        gc_emergency_cancel_required := (gc_pending_timelock_operation c \<noteq> None) \<rparr>"

definition next_emergency_base_action :: "GovernanceControl \<Rightarrow> GovernanceTransactionKind option storage_result" where
  "next_emergency_base_action c =
    (if gc_emergency_pause_deposit_required c then Inr (Some GK_PauseDepositMints)
     else if gc_emergency_pause_withdrawal_required c then Inr (Some GK_PauseWithdrawals)
     else if gc_emergency_cancel_required c
     then (case gc_pending_timelock_operation c of
         None \<Rightarrow> Inl DecodeFailed
       | Some pending \<Rightarrow> Inr (Some (GK_CancelTimelock (pto_operation_id pending))))
     else Inr None)"

definition emergency_base_actions_pending :: "GovernanceControl \<Rightarrow> bool" where
  "emergency_base_actions_pending c = (gc_emergency_pause_deposit_required c
    \<or> gc_emergency_pause_withdrawal_required c \<or> gc_emergency_cancel_required c)"

subsection \<open>Preparing and updating\<close>

definition initialize_governance_nonce_for ::
    "GovernanceControl \<Rightarrow> GovernanceNonceLane \<Rightarrow> u64 \<Rightarrow> GovernanceControl storage_result" where
  "initialize_governance_nonce_for c lane nonce =
    (let (initialized, stored_nonce) = nonce_state c lane in
      if \<not> initialized then Inr (set_nonce_state lane True nonce c)
      else if stored_nonce < nonce then Inl DecodeFailed
      else Inr c)"

definition prepare_kind :: "GovernanceControl \<Rightarrow> GovernanceTransactionKind \<Rightarrow> GovernanceControl storage_result" where
  "prepare_kind c kind = (case kind of
      GK_ScheduleActivation operation_id salt \<Rightarrow>
        if gc_pending_timelock_operation c \<noteq> None \<or> gc_pending_control_plane_rotation c \<noteq> None
        then Inl DecodeFailed
        else Inr (c \<lparr> gc_pending_timelock_operation :=
          Some \<lparr> pto_operation_id = operation_id, pto_salt = salt \<rparr> \<rparr>)
    | GK_ExecuteActivation operation_id salt \<Rightarrow>
        if gc_pending_timelock_operation c \<noteq> Some \<lparr> pto_operation_id = operation_id, pto_salt = salt \<rparr>
        then Inl DecodeFailed else Inr c
    | GK_ScheduleControlPlaneRotation operation_id salt rotation \<Rightarrow>
        if gc_pending_timelock_operation c \<noteq> None \<or> gc_pending_control_plane_rotation c \<noteq> None
          \<or> gc_pending_runtime_administrator_transaction c \<noteq> None
          \<or> gc_pending_independent_canceller_transaction c \<noteq> None
          \<or> cpr_generation rotation \<noteq> saturating_add (gc_control_plane_key_generation c) 1
          \<or> \<not> control_plane_addresses_are_distinct rotation
        then Inl DecodeFailed
        else Inr (c \<lparr> gc_pending_timelock_operation :=
            Some \<lparr> pto_operation_id = operation_id, pto_salt = salt \<rparr>,
          gc_pending_control_plane_rotation := Some rotation \<rparr>)
    | GK_ExecuteControlPlaneRotation operation_id salt rotation \<Rightarrow>
        if gc_pending_timelock_operation c \<noteq> Some \<lparr> pto_operation_id = operation_id, pto_salt = salt \<rparr>
          \<or> gc_pending_control_plane_rotation c \<noteq> Some rotation
          \<or> gc_pending_runtime_administrator_transaction c \<noteq> None
          \<or> gc_pending_independent_canceller_transaction c \<noteq> None
        then Inl DecodeFailed else Inr c
    | GK_CancelTimelock operation_id \<Rightarrow>
        (case gc_pending_timelock_operation c of
          None \<Rightarrow> Inl DecodeFailed
        | Some pending \<Rightarrow> if pto_operation_id pending \<noteq> operation_id then Inl DecodeFailed else Inr c)
    | _ \<Rightarrow> Inr c)"

definition prepare_governance_transaction ::
    "GovernanceControl \<Rightarrow> GovernanceTransaction \<Rightarrow> GovernanceControl storage_result" where
  "prepare_governance_transaction c t =
    (let lane = nonce_lane (gt_kind t); (initialized, next_nonce) = nonce_state c lane in
      if \<not> initialized \<or> pending_transaction c lane \<noteq> None
        \<or> gt_id t \<noteq> gc_next_governance_operation_id c \<or> gte_nonce (gt_envelope t) \<noteq> next_nonce
      then Inl DecodeFailed
      else try_bind (prepare_kind c (gt_kind t)) (\<lambda>c.
        try_bind (ok_or EncodeFailed (checked_add (gc_next_governance_operation_id c) 1)) (\<lambda>next_id.
        try_bind (ok_or EncodeFailed (checked_add next_nonce 1)) (\<lambda>following.
        Inr (set_pending_transaction lane (Some t)
          (set_nonce_state lane True following (c \<lparr> gc_next_governance_operation_id := next_id \<rparr>)))))))"

definition update_governance_transaction ::
    "GovernanceControl \<Rightarrow> GovernanceTransaction \<Rightarrow> GovernanceControl storage_result" where
  "update_governance_transaction c t =
    (let lane = nonce_lane (gt_kind t) in
      case pending_transaction c lane of
        None \<Rightarrow> Inl DecodeFailed
      | Some pending \<Rightarrow>
          if gt_id pending \<noteq> gt_id t \<or> gte_nonce (gt_envelope pending) \<noteq> gte_nonce (gt_envelope t)
          then Inl DecodeFailed
          else Inr (set_pending_transaction lane (Some t) c))"

definition dangerous_governance_kind :: "GovernanceTransactionKind \<Rightarrow> bool" where
  "dangerous_governance_kind kind = (case kind of
      GK_SetServiceFee _ \<Rightarrow> True | GK_ScheduleActivation _ _ \<Rightarrow> True | GK_ExecuteActivation _ _ \<Rightarrow> True
    | GK_ScheduleControlPlaneRotation _ _ _ \<Rightarrow> True | GK_ExecuteControlPlaneRotation _ _ _ \<Rightarrow> True
    | _ \<Rightarrow> False)"

definition abort_kind :: "GovernanceControl \<Rightarrow> GovernanceTransactionKind \<Rightarrow> GovernanceControl storage_result" where
  "abort_kind c kind = (case kind of
      GK_ScheduleActivation operation_id salt \<Rightarrow>
        if gc_pending_timelock_operation c \<noteq> Some \<lparr> pto_operation_id = operation_id, pto_salt = salt \<rparr>
        then Inl DecodeFailed
        else Inr (c \<lparr> gc_pending_timelock_operation := None, gc_emergency_cancel_required := False \<rparr>)
    | GK_ScheduleControlPlaneRotation _ _ rotation \<Rightarrow>
        if gc_pending_control_plane_rotation c \<noteq> control_plane_rotation kind
        then Inl DecodeFailed
        else Inr (c \<lparr> gc_pending_timelock_operation := None, gc_pending_control_plane_rotation := None,
          gc_emergency_cancel_required := False \<rparr>)
    | _ \<Rightarrow> Inr c)"

definition abort_prepared_governance_transaction_for_emergency ::
    "GovernanceControl \<Rightarrow> GovernanceTransaction \<Rightarrow> GovernanceControl storage_result" where
  "abort_prepared_governance_transaction_for_emergency c t =
    (let lane = nonce_lane (gt_kind t); nonce = gte_nonce (gt_envelope t) in
      if \<not> emergency_base_actions_pending c then Inl DecodeFailed
      else if pending_transaction c lane \<noteq> Some t \<or> gt_state t \<noteq> GS_Prepared
        \<or> \<not> dangerous_governance_kind (gt_kind t)
        \<or> Some (snd (nonce_state c lane)) \<noteq> checked_add nonce 1
      then Inl DecodeFailed
      else try_bind (abort_kind c (gt_kind t)) (\<lambda>c.
        Inr (set_pending_transaction lane None (set_completed_transaction lane t
          (set_nonce_state lane True nonce c)))))"

subsection \<open>Completion\<close>

record ActivationConfirmationView =
  acv_phase :: string
  acv_governance_operation_id :: u64
  acv_timelock_operation_id :: bytes
  acv_transaction_hash :: bytes
  acv_receipt_block_number :: u64
  acv_generation :: u8
  acv_signed_at_ns :: u64

definition activation_phase :: "GovernanceTransactionKind \<Rightarrow> (string \<times> bytes) option" where
  "activation_phase kind = (case kind of
      GK_ScheduleActivation operation_id _ \<Rightarrow> Some (''schedule'', operation_id)
    | GK_ExecuteActivation operation_id _ \<Rightarrow> Some (''execute'', operation_id)
    | _ \<Rightarrow> None)"

definition activation_confirmation_view :: "GovernanceTransaction \<Rightarrow> ActivationConfirmationView option" where
  "activation_confirmation_view t = (case (activation_phase (gt_kind t), gt_state t) of
      (Some (phase, timelock_operation_id), GS_Confirmed transaction_hash receipt_block_number) \<Rightarrow>
        (let matching_attempts = filter (\<lambda>signed. sgt_transaction_hash signed = transaction_hash)
              (gte_signed_transactions (gt_envelope t)) in
          if \<not> confirmed_activation_attempt_is_unique (matching_attempts \<noteq> []) (1 < length matching_attempts)
          then None
          else Some
            \<lparr> acv_phase = phase, acv_governance_operation_id = gt_id t,
              acv_timelock_operation_id = timelock_operation_id, acv_transaction_hash = transaction_hash,
              acv_receipt_block_number = receipt_block_number,
              acv_generation = sgt_generation (hd matching_attempts),
              acv_signed_at_ns = sgt_signed_at_ns (hd matching_attempts) \<rparr>)
    | _ \<Rightarrow> None)"

definition confirmed_activation_record ::
    "GovernanceTransaction \<Rightarrow> ConfirmedActivationRecord option storage_result" where
  "confirmed_activation_record t = (case activation_phase (gt_kind t) of
      None \<Rightarrow> Inr None
    | Some (phase, timelock_operation_id) \<Rightarrow>
        (case gt_state t of
          GS_Confirmed transaction_hash receipt_block_number \<Rightarrow>
            try_bind (ok_or DecodeFailed (activation_confirmation_view t)) (\<lambda>view.
              Inr (Some
                \<lparr> car_phase = phase, car_governance_operation_id = gt_id t,
                  car_timelock_operation_id = timelock_operation_id,
                  car_transaction_hash = transaction_hash, car_receipt_block_number = receipt_block_number,
                  car_generation = acv_generation view, car_signed_at_ns = acv_signed_at_ns view \<rparr>))
        | _ \<Rightarrow> Inr None))"

definition is_confirmed :: "GovernanceTransactionState \<Rightarrow> bool" where
  "is_confirmed state = (case state of GS_Confirmed _ _ \<Rightarrow> True | _ \<Rightarrow> False)"

definition is_reverted :: "GovernanceTransactionState \<Rightarrow> bool" where
  "is_reverted state = (case state of GS_Reverted _ _ \<Rightarrow> True | _ \<Rightarrow> False)"

definition completion_conflicts :: "GovernanceControl \<Rightarrow> GovernanceTransactionKind \<Rightarrow> bool \<Rightarrow> bool \<Rightarrow> bool" where
  "completion_conflicts c kind confirmed reverted = (case kind of
      GK_CancelTimelock operation_id \<Rightarrow> confirmed
        \<and> (case gc_pending_timelock_operation c of
            None \<Rightarrow> True | Some pending \<Rightarrow> pto_operation_id pending \<noteq> operation_id)
    | GK_ScheduleActivation operation_id salt \<Rightarrow> reverted
        \<and> gc_pending_timelock_operation c \<noteq> Some \<lparr> pto_operation_id = operation_id, pto_salt = salt \<rparr>
    | GK_ExecuteActivation operation_id salt \<Rightarrow> confirmed
        \<and> gc_pending_timelock_operation c \<noteq> Some \<lparr> pto_operation_id = operation_id, pto_salt = salt \<rparr>
    | GK_ScheduleControlPlaneRotation operation_id salt _ \<Rightarrow> reverted
        \<and> (gc_pending_timelock_operation c \<noteq> Some \<lparr> pto_operation_id = operation_id, pto_salt = salt \<rparr>
          \<or> gc_pending_control_plane_rotation c \<noteq> control_plane_rotation kind)
    | GK_ExecuteControlPlaneRotation operation_id salt _ \<Rightarrow> confirmed
        \<and> (gc_pending_timelock_operation c \<noteq> Some \<lparr> pto_operation_id = operation_id, pto_salt = salt \<rparr>
          \<or> gc_pending_control_plane_rotation c \<noteq> control_plane_rotation kind)
    | _ \<Rightarrow> False)"

definition install_rotation :: "ControlPlaneRotation \<Rightarrow> GovernanceControl \<Rightarrow> GovernanceControl" where
  "install_rotation r c =
    set_nonce_state Lane_IndependentCanceller False 0
    (set_nonce_state Lane_RuntimeAdministrator False 0
    (set_nonce_state Lane_Governance False 0
      (c \<lparr> gc_control_plane_key_generation := cpr_generation r,
        gc_signer_address := Some (cpr_bridge_signer r), gc_signer_public_key := None,
        gc_governance_operator_address := Some (cpr_governance_operator r),
        gc_governance_operator_public_key := None,
        gc_runtime_administrator_address := Some (cpr_runtime_administrator r),
        gc_independent_canceller_address := Some (cpr_independent_canceller r),
        gc_pending_timelock_operation := None, gc_pending_control_plane_rotation := None,
        gc_emergency_cancel_required := False \<rparr>)))"

definition completion_effect ::
    "GovernanceTransactionKind \<Rightarrow> bool \<Rightarrow> bool \<Rightarrow> GovernanceControl \<Rightarrow> GovernanceControl" where
  "completion_effect kind confirmed reverted c = (case kind of
      GK_PauseDepositMints \<Rightarrow> if confirmed then c \<lparr> gc_emergency_pause_deposit_required := False \<rparr> else c
    | GK_PauseWithdrawals \<Rightarrow> if confirmed then c \<lparr> gc_emergency_pause_withdrawal_required := False \<rparr> else c
    | GK_CancelTimelock operation_id \<Rightarrow>
        if confirmed \<and> (case gc_pending_timelock_operation c of
            None \<Rightarrow> False | Some pending \<Rightarrow> pto_operation_id pending = operation_id)
        then c \<lparr> gc_emergency_cancel_required := False, gc_pending_timelock_operation := None,
          gc_pending_control_plane_rotation := None \<rparr>
        else c
    | GK_ScheduleActivation operation_id salt \<Rightarrow>
        if reverted \<and> gc_pending_timelock_operation c
            = Some \<lparr> pto_operation_id = operation_id, pto_salt = salt \<rparr>
        then c \<lparr> gc_pending_timelock_operation := None, gc_emergency_cancel_required := False \<rparr> else c
    | GK_ExecuteActivation operation_id salt \<Rightarrow>
        if confirmed \<and> gc_pending_timelock_operation c
            = Some \<lparr> pto_operation_id = operation_id, pto_salt = salt \<rparr>
        then c \<lparr> gc_pending_timelock_operation := None, gc_emergency_cancel_required := False \<rparr> else c
    | GK_ScheduleControlPlaneRotation _ _ _ \<Rightarrow>
        if reverted
        then c \<lparr> gc_pending_timelock_operation := None, gc_pending_control_plane_rotation := None,
          gc_emergency_cancel_required := False \<rparr>
        else c
    | GK_ExecuteControlPlaneRotation _ _ rotation \<Rightarrow> if confirmed then install_rotation rotation c else c
    | GK_SetServiceFee _ \<Rightarrow> c)"

definition apply_governance_completion ::
    "GovernanceControl \<Rightarrow> GovernanceTransaction \<Rightarrow> GovernanceControl storage_result" where
  "apply_governance_completion c t =
    (let lane = nonce_lane (gt_kind t); confirmed = is_confirmed (gt_state t);
         reverted = is_reverted (gt_state t) in
      if (case pending_transaction c lane of
          None \<Rightarrow> True
        | Some pending \<Rightarrow> gt_id pending \<noteq> gt_id t \<or> gt_kind pending \<noteq> gt_kind t
            \<or> gt_envelope pending \<noteq> gt_envelope t)
      then Inl DecodeFailed
      else if \<not> confirmed \<and> \<not> reverted then Inl DecodeFailed
      else if completion_conflicts c (gt_kind t) confirmed reverted then Inl DecodeFailed
      else try_bind (confirmed_activation_record t) (\<lambda>confirmed_activation.
        let c1 = set_completed_transaction lane t c;
            c2 = (case confirmed_activation of
                None \<Rightarrow> c1 | Some r \<Rightarrow> c1 \<lparr> gc_last_confirmed_activation := Some r \<rparr>)
        in Inr (completion_effect (gt_kind t) confirmed reverted (set_pending_transaction lane None c2))))"

section \<open>Sequences of operations\<close>

text \<open>The operations as calls, and what an accepted call did with the nonce of its lane.\<close>

datatype governance_call =
    GC_InitializeAddresses bytes bytes bytes bytes
  | GC_CacheSignerKey bytes
  | GC_CacheOperatorKey bytes
  | GC_InitializeNonce GovernanceNonceLane u64
  | GC_Prepare GovernanceTransaction
  | GC_Update GovernanceTransaction
  | GC_Abort GovernanceTransaction
  | GC_Complete GovernanceTransaction
  | GC_Emergency

datatype governance_outcome =
    GO_Other
  | GO_Prepared GovernanceNonceLane u64 u64
  | GO_Signed GovernanceNonceLane u64
  | GO_Aborted GovernanceNonceLane u64
  | GO_Rotated

definition lane_of :: "GovernanceTransaction \<Rightarrow> GovernanceNonceLane" where
  "lane_of t = nonce_lane (gt_kind t)"

definition nonce_of :: "GovernanceTransaction \<Rightarrow> u64" where
  "nonce_of t = gte_nonce (gt_envelope t)"

definition rotates :: "GovernanceTransaction \<Rightarrow> bool" where
  "rotates t \<longleftrightarrow> is_confirmed (gt_state t)
    \<and> (case gt_kind t of GK_ExecuteControlPlaneRotation _ _ _ \<Rightarrow> True | _ \<Rightarrow> False)"

definition governance_step ::
    "(GovernanceControl, governance_call, StorageError, governance_outcome) machine" where
  "governance_step c call = (case call of
      GC_InitializeAddresses a b d e \<Rightarrow> map_result (Pair GO_Other) (initialize_chain_key_addresses c a b d e)
    | GC_CacheSignerKey k \<Rightarrow> Inr (GO_Other, snd (set_signer_public_key_if_absent c k))
    | GC_CacheOperatorKey k \<Rightarrow> Inr (GO_Other, snd (set_governance_operator_public_key_if_absent c k))
    | GC_InitializeNonce lane nonce \<Rightarrow> map_result (Pair GO_Other) (initialize_governance_nonce_for c lane nonce)
    | GC_Prepare t \<Rightarrow>
        map_result (Pair (GO_Prepared (lane_of t) (nonce_of t) (gt_id t))) (prepare_governance_transaction c t)
    | GC_Update t \<Rightarrow>
        map_result (Pair (GO_Signed (lane_of t) (nonce_of t))) (update_governance_transaction c t)
    | GC_Abort t \<Rightarrow> map_result (Pair (GO_Aborted (lane_of t) (nonce_of t)))
        (abort_prepared_governance_transaction_for_emergency c t)
    | GC_Complete t \<Rightarrow>
        map_result (Pair (if rotates t then GO_Rotated else GO_Other)) (apply_governance_completion c t)
    | GC_Emergency \<Rightarrow> Inr (GO_Other, enqueue_emergency_base_actions c))"

text \<open>The specification of nonces.  It keeps the nonces given out in each lane since the last rotation of the
  keys, minus those given back by an abort; those of them for which a signed transaction was stored; and the
  identifiers given out, for ever.  A preparation takes a nonce that is not given out and a new identifier.
  An abort may give back only a nonce for which nothing was signed.\<close>

type_synonym nonce_sets = "GovernanceNonceLane \<Rightarrow> u64 set"

fun outcome_ok :: "nonce_sets \<Rightarrow> nonce_sets \<Rightarrow> u64 set \<Rightarrow> governance_outcome \<Rightarrow> bool" where
  "outcome_ok used spent ids (GO_Prepared lane nonce oid) \<longleftrightarrow> nonce \<notin> used lane \<and> oid \<notin> ids"
| "outcome_ok used spent ids (GO_Aborted lane nonce) \<longleftrightarrow> nonce \<notin> spent lane"
| "outcome_ok used spent ids _ \<longleftrightarrow> True"

fun outcome_used :: "nonce_sets \<Rightarrow> governance_outcome \<Rightarrow> nonce_sets" where
  "outcome_used used (GO_Prepared lane nonce _) = used(lane := insert nonce (used lane))"
| "outcome_used used (GO_Aborted lane nonce) = used(lane := used lane - {nonce})"
| "outcome_used used GO_Rotated = (\<lambda>_. {})"
| "outcome_used used _ = used"

fun outcome_signed :: "nonce_sets \<Rightarrow> nonce_sets \<Rightarrow> governance_outcome \<Rightarrow> nonce_sets" where
  "outcome_signed used spent (GO_Signed lane nonce) =
    (if nonce \<in> used lane then spent(lane := insert nonce (spent lane)) else spent)"
| "outcome_signed used spent GO_Rotated = (\<lambda>_. {})"
| "outcome_signed used spent _ = spent"

fun outcome_ids :: "u64 set \<Rightarrow> governance_outcome \<Rightarrow> u64 set" where
  "outcome_ids ids (GO_Prepared _ _ oid) = insert oid ids"
| "outcome_ids ids _ = ids"

fun nonces_fresh :: "nonce_sets \<Rightarrow> nonce_sets \<Rightarrow> u64 set \<Rightarrow> governance_outcome list \<Rightarrow> bool" where
  "nonces_fresh used spent ids [] \<longleftrightarrow> True"
| "nonces_fresh used spent ids (out # outs) \<longleftrightarrow> outcome_ok used spent ids out
    \<and> nonces_fresh (outcome_used used out) (outcome_signed used spent out) (outcome_ids ids out) outs"

text \<open>The only caller of the update, \<open>persist\<close> of base_governance.rs, stores a transaction that has just
  been signed, so one that is no longer \<open>Prepared\<close>.\<close>

fun stores_signature :: "governance_call \<Rightarrow> bool" where
  "stores_signature (GC_Update t) \<longleftrightarrow> gt_state t \<noteq> GS_Prepared"
| "stores_signature _ \<longleftrightarrow> True"

definition signed_fresh :: "GovernanceControl \<Rightarrow> nonce_sets \<Rightarrow> nonce_sets \<Rightarrow> bool" where
  "signed_fresh c used spent \<longleftrightarrow> (\<forall>lane. spent lane \<subseteq> used lane
    \<and> (\<forall>t. pending_transaction c lane = Some t \<and> gt_state t = GS_Prepared \<longrightarrow> nonce_of t \<notin> spent lane))"

definition nonces_below :: "GovernanceControl \<Rightarrow> (GovernanceNonceLane \<Rightarrow> u64 set) \<Rightarrow> u64 set \<Rightarrow> bool" where
  "nonces_below c used ids \<longleftrightarrow>
    (\<forall>lane. if fst (nonce_state c lane) then \<forall>n \<in> used lane. n < snd (nonce_state c lane)
            else used lane = {})
    \<and> (\<forall>oid \<in> ids. oid < gc_next_governance_operation_id c)"

lemma lane_setters [simp]:
  "nonce_state (set_nonce_state l b n c) l' = (if l' = l then (b, n) else nonce_state c l')"
  "nonce_state (set_pending_transaction l t c) l' = nonce_state c l'"
  "nonce_state (set_completed_transaction l u c) l' = nonce_state c l'"
  "pending_transaction (set_nonce_state l b n c) l' = pending_transaction c l'"
  "pending_transaction (set_pending_transaction l t c) l' = (if l' = l then t else pending_transaction c l')"
  "pending_transaction (set_completed_transaction l u c) l' = pending_transaction c l'"
  by (cases l; cases l'; simp add: nonce_state_def set_nonce_state_def pending_transaction_def
      set_pending_transaction_def set_completed_transaction_def)+

text \<open>What the setters leave alone.\<close>

lemma lane_setters_frame [simp]:
  "gc_next_governance_operation_id (set_nonce_state l b n c) = gc_next_governance_operation_id c"
  "gc_next_governance_operation_id (set_pending_transaction l t c) = gc_next_governance_operation_id c"
  "gc_next_governance_operation_id (set_completed_transaction l u c) = gc_next_governance_operation_id c"
  "gc_pending_timelock_operation (set_nonce_state l b n c) = gc_pending_timelock_operation c"
  "gc_pending_timelock_operation (set_pending_transaction l t c) = gc_pending_timelock_operation c"
  "gc_pending_timelock_operation (set_completed_transaction l u c) = gc_pending_timelock_operation c"
  "gc_emergency_cancel_required (set_nonce_state l b n c) = gc_emergency_cancel_required c"
  "gc_emergency_cancel_required (set_pending_transaction l t c) = gc_emergency_cancel_required c"
  "gc_emergency_cancel_required (set_completed_transaction l u c) = gc_emergency_cancel_required c"
  "gc_emergency_pause_deposit_required (set_nonce_state l b n c) = gc_emergency_pause_deposit_required c"
  "gc_emergency_pause_deposit_required (set_pending_transaction l t c) = gc_emergency_pause_deposit_required c"
  "gc_emergency_pause_deposit_required (set_completed_transaction l u c) = gc_emergency_pause_deposit_required c"
  "gc_emergency_pause_withdrawal_required (set_nonce_state l b n c) = gc_emergency_pause_withdrawal_required c"
  "gc_emergency_pause_withdrawal_required (set_pending_transaction l t c) = gc_emergency_pause_withdrawal_required c"
  "gc_emergency_pause_withdrawal_required (set_completed_transaction l u c) = gc_emergency_pause_withdrawal_required c"
  by (cases l; simp add: set_nonce_state_def set_pending_transaction_def set_completed_transaction_def)+

text \<open>What the accepted operations do to the lanes.\<close>

lemma control_updates_frame [simp]:
  "nonce_state (c \<lparr> gc_pending_timelock_operation := x \<rparr>) l = nonce_state c l"
  "nonce_state (c \<lparr> gc_pending_control_plane_rotation := r \<rparr>) l = nonce_state c l"
  "nonce_state (c \<lparr> gc_emergency_cancel_required := b \<rparr>) l = nonce_state c l"
  "nonce_state (c \<lparr> gc_emergency_pause_deposit_required := b \<rparr>) l = nonce_state c l"
  "nonce_state (c \<lparr> gc_emergency_pause_withdrawal_required := b \<rparr>) l = nonce_state c l"
  "nonce_state (c \<lparr> gc_next_governance_operation_id := i \<rparr>) l = nonce_state c l"
  "nonce_state (c \<lparr> gc_last_confirmed_activation := v \<rparr>) l = nonce_state c l"
  "pending_transaction (c \<lparr> gc_pending_timelock_operation := x \<rparr>) l = pending_transaction c l"
  "pending_transaction (c \<lparr> gc_pending_control_plane_rotation := r \<rparr>) l = pending_transaction c l"
  "pending_transaction (c \<lparr> gc_emergency_cancel_required := b \<rparr>) l = pending_transaction c l"
  "pending_transaction (c \<lparr> gc_emergency_pause_deposit_required := b \<rparr>) l = pending_transaction c l"
  "pending_transaction (c \<lparr> gc_emergency_pause_withdrawal_required := b \<rparr>) l = pending_transaction c l"
  "pending_transaction (c \<lparr> gc_next_governance_operation_id := i \<rparr>) l = pending_transaction c l"
  "pending_transaction (c \<lparr> gc_last_confirmed_activation := v \<rparr>) l = pending_transaction c l"
  by (cases l; simp add: nonce_state_def pending_transaction_def)+

lemma prepare_kind_frame:
  assumes "prepare_kind c kind = Inr c'"
  shows "nonce_state c' l = nonce_state c l" "pending_transaction c' l = pending_transaction c l"
    "gc_next_governance_operation_id c' = gc_next_governance_operation_id c"
    "emergency_base_actions_pending c' = emergency_base_actions_pending c"
  using assms
  by (auto simp: prepare_kind_def emergency_base_actions_pending_def
      split: GovernanceTransactionKind.splits option.splits if_splits)

lemma abort_kind_frame:
  assumes "abort_kind c kind = Inr c'"
  shows "nonce_state c' l = nonce_state c l" "pending_transaction c' l = pending_transaction c l"
    "gc_next_governance_operation_id c' = gc_next_governance_operation_id c"
  using assms by (auto simp: abort_kind_def split: GovernanceTransactionKind.splits if_splits)

lemma prepare_ok:
  assumes "prepare_governance_transaction c t = Inr c'"
  shows "nonce_state c (lane_of t) = (True, nonce_of t)"
    "pending_transaction c (lane_of t) = None"
    "gt_id t = gc_next_governance_operation_id c"
    "nonce_state c' l = (if l = lane_of t then (True, nonce_of t + 1) else nonce_state c l)"
    "pending_transaction c' l = (if l = lane_of t then Some t else pending_transaction c l)"
    "gc_next_governance_operation_id c' = gt_id t + 1"
    "unat (nonce_of t) < 2 ^ 64 - 1" "unat (gt_id t) < 2 ^ 64 - 1"
proof -
  obtain k where k: "prepare_kind c (gt_kind t) = Inr k"
    and g: "nonce_state c (lane_of t) = (True, nonce_of t)" "pending_transaction c (lane_of t) = None"
      "gt_id t = gc_next_governance_operation_id c"
    and n: "checked_add (gc_next_governance_operation_id k) 1 \<noteq> None" "checked_add (nonce_of t) 1 \<noteq> None"
    and c': "c' = set_pending_transaction (lane_of t) (Some t) (set_nonce_state (lane_of t) True
      (the (checked_add (nonce_of t) 1))
      (k \<lparr> gc_next_governance_operation_id := the (checked_add (gc_next_governance_operation_id k) 1) \<rparr>))"
    using assms
    by (auto simp: prepare_governance_transaction_def Let_def lane_of_def nonce_of_def result_simps
        split: prod.splits if_splits sum.splits option.splits)
  note f = prepare_kind_frame [OF k]
  show "nonce_state c (lane_of t) = (True, nonce_of t)" "pending_transaction c (lane_of t) = None"
    "gt_id t = gc_next_governance_operation_id c"
    using g by simp_all
  show "unat (nonce_of t) < 2 ^ 64 - 1" "unat (gt_id t) < 2 ^ 64 - 1"
    using n f(3) g(3) by (auto simp: checked_add_def split: if_splits)
  show "nonce_state c' l = (if l = lane_of t then (True, nonce_of t + 1) else nonce_state c l)"
    "pending_transaction c' l = (if l = lane_of t then Some t else pending_transaction c l)"
    "gc_next_governance_operation_id c' = gt_id t + 1"
    using n f g by (auto simp: c' checked_add_def split: if_splits)
qed

lemma abort_ok:
  assumes "abort_prepared_governance_transaction_for_emergency c t = Inr c'"
  shows "pending_transaction c (lane_of t) = Some t" "gt_state t = GS_Prepared"
    "unat (snd (nonce_state c (lane_of t))) = unat (nonce_of t) + 1"
    "nonce_state c' l = (if l = lane_of t then (True, nonce_of t) else nonce_state c l)"
    "gc_next_governance_operation_id c' = gc_next_governance_operation_id c"
    "pending_transaction c' l = (if l = lane_of t then None else pending_transaction c l)"
proof -
  obtain k where k: "abort_kind c (gt_kind t) = Inr k"
    and g: "pending_transaction c (lane_of t) = Some t" "gt_state t = GS_Prepared"
      "checked_add (nonce_of t) 1 = Some (snd (nonce_state c (lane_of t)))"
    and c': "c' = set_pending_transaction (lane_of t) None (set_completed_transaction (lane_of t) t
      (set_nonce_state (lane_of t) True (nonce_of t) k))"
    using assms
    by (auto simp: abort_prepared_governance_transaction_for_emergency_def Let_def lane_of_def nonce_of_def
        result_simps split: if_splits sum.splits)
  note f = abort_kind_frame [OF k]
  show "pending_transaction c (lane_of t) = Some t" "gt_state t = GS_Prepared"
    "unat (snd (nonce_state c (lane_of t))) = unat (nonce_of t) + 1"
    using g by (simp_all add: checked_add_eq_Some)
  show "nonce_state c' l = (if l = lane_of t then (True, nonce_of t) else nonce_state c l)"
    "gc_next_governance_operation_id c' = gc_next_governance_operation_id c"
    "pending_transaction c' l = (if l = lane_of t then None else pending_transaction c l)"
    using f by (simp_all add: c')
qed

lemma install_rotation_sel [simp]:
  "nonce_state (install_rotation r c) l = (False, 0)"
  "pending_transaction (install_rotation r c) l = pending_transaction c l"
  "gc_next_governance_operation_id (install_rotation r c) = gc_next_governance_operation_id c"
  "gc_pending_timelock_operation (install_rotation r c) = None"
  "gc_emergency_cancel_required (install_rotation r c) = False"
  "gc_emergency_pause_deposit_required (install_rotation r c) = gc_emergency_pause_deposit_required c"
  "gc_emergency_pause_withdrawal_required (install_rotation r c) = gc_emergency_pause_withdrawal_required c"
  by (cases l; simp add: install_rotation_def pending_transaction_def set_nonce_state_def nonce_state_def)+

lemma completion_effect_frame:
  "nonce_state (completion_effect kind confirmed reverted c) l =
    (if confirmed \<and> (case kind of GK_ExecuteControlPlaneRotation _ _ _ \<Rightarrow> True | _ \<Rightarrow> False)
     then (False, 0) else nonce_state c l)"
  "pending_transaction (completion_effect kind confirmed reverted c) l = pending_transaction c l"
  "gc_next_governance_operation_id (completion_effect kind confirmed reverted c)
    = gc_next_governance_operation_id c"
  by (cases kind; simp add: completion_effect_def)+

lemma completion_ok:
  assumes "apply_governance_completion c t = Inr c'"
  shows "\<exists>pending. pending_transaction c (lane_of t) = Some pending \<and> gt_id pending = gt_id t
      \<and> gt_kind pending = gt_kind t \<and> gt_envelope pending = gt_envelope t"
    "is_confirmed (gt_state t) \<or> is_reverted (gt_state t)"
    "\<not> completion_conflicts c (gt_kind t) (is_confirmed (gt_state t)) (is_reverted (gt_state t))"
    "nonce_state c' l = (if rotates t then (False, 0) else nonce_state c l)"
    "pending_transaction c' l = (if l = lane_of t then None else pending_transaction c l)"
    "gc_next_governance_operation_id c' = gc_next_governance_operation_id c"
proof -
  obtain pending where p: "pending_transaction c (lane_of t) = Some pending" "gt_id pending = gt_id t"
      "gt_kind pending = gt_kind t" "gt_envelope pending = gt_envelope t"
    using assms
    by (cases "pending_transaction c (lane_of t)")
      (auto simp: apply_governance_completion_def Let_def lane_of_def split: if_splits)
  have g: "is_confirmed (gt_state t) \<or> is_reverted (gt_state t)"
      "\<not> completion_conflicts c (gt_kind t) (is_confirmed (gt_state t)) (is_reverted (gt_state t))"
    using assms by (auto simp: apply_governance_completion_def Let_def split: if_splits)
  obtain x where "confirmed_activation_record t = Inr x"
    using assms
    by (cases "confirmed_activation_record t")
      (auto simp: apply_governance_completion_def Let_def result_simps split: if_splits)
  then have c': "c' = completion_effect (gt_kind t) (is_confirmed (gt_state t)) (is_reverted (gt_state t))
      (set_pending_transaction (lane_of t) None (case x of
        None \<Rightarrow> set_completed_transaction (lane_of t) t c
      | Some r \<Rightarrow> set_completed_transaction (lane_of t) t c \<lparr> gc_last_confirmed_activation := Some r \<rparr>))"
    using assms p g
    by (cases x) (simp_all add: apply_governance_completion_def Let_def lane_of_def result_simps split: if_splits)
  show "\<exists>pending. pending_transaction c (lane_of t) = Some pending \<and> gt_id pending = gt_id t
      \<and> gt_kind pending = gt_kind t \<and> gt_envelope pending = gt_envelope t"
    "is_confirmed (gt_state t) \<or> is_reverted (gt_state t)"
    "\<not> completion_conflicts c (gt_kind t) (is_confirmed (gt_state t)) (is_reverted (gt_state t))"
    using p g by simp_all
  show "nonce_state c' l = (if rotates t then (False, 0) else nonce_state c l)"
    "pending_transaction c' l = (if l = lane_of t then None else pending_transaction c l)"
    "gc_next_governance_operation_id c' = gc_next_governance_operation_id c"
    by (simp_all add: c' completion_effect_frame rotates_def split: option.splits)
qed

lemma nonces_below_nonce:
  "nonces_below c used ids \<Longrightarrow> n \<in> used l \<Longrightarrow> fst (nonce_state c l) \<and> n < snd (nonce_state c l)"
  by (auto simp: nonces_below_def split: if_splits)

lemma nonces_belowI:
  assumes "\<And>l n. n \<in> used l \<Longrightarrow> fst (nonce_state c l) \<and> n < snd (nonce_state c l)"
    and "\<And>oid. oid \<in> ids \<Longrightarrow> oid < gc_next_governance_operation_id c"
  shows "nonces_below c used ids"
  using assms by (fastforce simp: nonces_below_def)

lemma less_successor:
  assumes "unat (w :: u64) < 2 ^ 64 - 1"
  shows "n < w + 1 \<longleftrightarrow> n \<le> w"
proof -
  have "unat (w + 1) = unat w + 1"
    using assms by (subst unat_add_exact) simp_all
  then show ?thesis
    by (simp add: word_less_nat_alt word_le_nat_alt less_Suc_eq_le)
qed

lemma prepare_nonces:
  assumes "nonces_below c used ids" "prepare_governance_transaction c t = Inr c'"
  shows "nonce_of t \<notin> used (lane_of t)" "gt_id t \<notin> ids"
    "nonces_below c' (used(lane_of t := insert (nonce_of t) (used (lane_of t)))) (insert (gt_id t) ids)"
proof -
  note p = prepare_ok [OF assms(2)]
  show "nonce_of t \<notin> used (lane_of t)" "gt_id t \<notin> ids"
    using nonces_below_nonce [OF assms(1), of "nonce_of t" "lane_of t"] p(1,3) assms(1)
    by (auto simp: nonces_below_def)
  show "nonces_below c' (used(lane_of t := insert (nonce_of t) (used (lane_of t)))) (insert (gt_id t) ids)"
  proof (rule nonces_belowI)
    fix l n
    assume "n \<in> (used(lane_of t := insert (nonce_of t) (used (lane_of t)))) l"
    then show "fst (nonce_state c' l) \<and> n < snd (nonce_state c' l)"
      using nonces_below_nonce [OF assms(1), of n l] p(1,4) less_successor [OF p(7)]
      by (auto split: if_splits)
  next
    fix oid
    assume "oid \<in> insert (gt_id t) ids"
    then show "oid < gc_next_governance_operation_id c'"
      using assms(1) p(3,6) less_successor [OF p(8)] by (auto simp: nonces_below_def)
  qed
qed

lemma abort_nonces:
  assumes "nonces_below c used ids" "abort_prepared_governance_transaction_for_emergency c t = Inr c'"
  shows "nonces_below c' (used(lane_of t := used (lane_of t) - {nonce_of t})) ids"
proof (rule nonces_belowI)
  note a = abort_ok [OF assms(2)]
  fix l n
  assume n: "n \<in> (used(lane_of t := used (lane_of t) - {nonce_of t})) l"
  show "fst (nonce_state c' l) \<and> n < snd (nonce_state c' l)"
  proof (cases "l = lane_of t")
    case True
    then have "n < snd (nonce_state c (lane_of t))" "n \<noteq> nonce_of t"
      using n nonces_below_nonce [OF assms(1), of n l] by auto
    then show ?thesis
      using a(3,4) True by (auto simp: word_less_nat_alt word_unat_eq_iff)
  next
    case False
    then show ?thesis
      using n nonces_below_nonce [OF assms(1), of n l] a(4) by auto
  qed
next
  fix oid
  assume "oid \<in> ids"
  then show "oid < gc_next_governance_operation_id c'"
    using assms(1) abort_ok(5) [OF assms(2)] by (simp add: nonces_below_def)
qed

lemma address_updates_frame [simp]:
  "nonce_state (c \<lparr> gc_signer_address := a, gc_governance_operator_address := b,
    gc_runtime_administrator_address := d, gc_independent_canceller_address := e \<rparr>) l = nonce_state c l"
  "nonce_state (c \<lparr> gc_signer_public_key := a \<rparr>) l = nonce_state c l"
  "nonce_state (c \<lparr> gc_governance_operator_public_key := a \<rparr>) l = nonce_state c l"
  by (cases l; simp add: nonce_state_def)+

lemma nonces_below_frame:
  assumes "nonces_below c used ids" "\<And>l. nonce_state c' l = nonce_state c l"
    and "gc_next_governance_operation_id c' = gc_next_governance_operation_id c"
  shows "nonces_below c' used ids"
  using assms by (simp add: nonces_below_def)

lemma initialize_nonces:
  assumes "nonces_below c used ids" "initialize_governance_nonce_for c lane nonce = Inr c'"
  shows "nonces_below c' used ids"
proof (cases "fst (nonce_state c lane)")
  case True
  then have "c' = c"
    using assms(2) by (simp add: initialize_governance_nonce_for_def case_prod_beta split: if_splits)
  then show ?thesis
    using assms(1) by simp
next
  case False
  then have "used lane = {}" "c' = set_nonce_state lane True nonce c"
    using assms by (auto simp: nonces_below_def initialize_governance_nonce_for_def case_prod_beta split: if_splits)
  then show ?thesis
    using assms(1) by (auto simp: nonces_below_def)
qed

lemma governance_step_nonces:
  assumes c: "nonces_below c used ids" and s: "governance_step c call = Inr (out, c')"
  shows "(case out of GO_Prepared lane nonce oid \<Rightarrow> nonce \<notin> used lane \<and> oid \<notin> ids | _ \<Rightarrow> True)
    \<and> nonces_below c' (outcome_used used out) (outcome_ids ids out)"
proof (cases call)
  case (GC_InitializeAddresses x1 x2 x3 x4)
  then show ?thesis
    using s nonces_below_frame [OF c]
    by (auto simp: governance_step_def initialize_chain_key_addresses_def result_simps split: if_splits)
next
  case (GC_CacheSignerKey k)
  then show ?thesis
    using s nonces_below_frame [OF c]
    by (auto simp: governance_step_def set_signer_public_key_if_absent_def Let_def)
next
  case (GC_CacheOperatorKey k)
  then show ?thesis
    using s nonces_below_frame [OF c]
    by (auto simp: governance_step_def set_governance_operator_public_key_if_absent_def Let_def)
next
  case (GC_InitializeNonce lane nonce)
  then show ?thesis
    using s initialize_nonces [OF c] by (auto simp: governance_step_def result_simps split: sum.splits)
next
  case (GC_Prepare t)
  then show ?thesis
    using s prepare_nonces [OF c] by (auto simp: governance_step_def result_simps split: sum.splits)
next
  case (GC_Update t)
  then show ?thesis
    using s nonces_below_frame [OF c]
    by (auto simp: governance_step_def update_governance_transaction_def Let_def result_simps
        split: sum.splits option.splits if_splits)
next
  case (GC_Abort t)
  then show ?thesis
    using s abort_nonces [OF c] by (auto simp: governance_step_def result_simps split: sum.splits)
next
  case (GC_Complete t)
  then have t: "apply_governance_completion c t = Inr c'" "out = (if rotates t then GO_Rotated else GO_Other)"
    using s by (auto simp: governance_step_def result_simps split: sum.splits)
  show ?thesis
    using c completion_ok(4,6) [OF t(1)] t(2) by (auto simp: nonces_below_def)
next
  case GC_Emergency
  then show ?thesis
    using s nonces_below_frame [OF c] by (auto simp: governance_step_def enqueue_emergency_base_actions_def)
qed

lemma pending_frame [simp]:
  "pending_transaction (c \<lparr> gc_signer_address := a, gc_governance_operator_address := b,
    gc_runtime_administrator_address := d, gc_independent_canceller_address := e \<rparr>) l = pending_transaction c l"
  "pending_transaction (c \<lparr> gc_signer_public_key := a \<rparr>) l = pending_transaction c l"
  "pending_transaction (c \<lparr> gc_governance_operator_public_key := a \<rparr>) l = pending_transaction c l"
  by (cases l; simp add: pending_transaction_def)+

lemma signed_fresh_frame:
  assumes "signed_fresh c used spent" "\<And>l. pending_transaction c' l = pending_transaction c l"
  shows "signed_fresh c' used spent"
  using assms by (simp add: signed_fresh_def)

lemma governance_step_signed:
  assumes b: "nonces_below c used ids" and f: "signed_fresh c used spent"
    and s: "governance_step c call = Inr (out, c')" and u: "stores_signature call"
  shows "(case out of GO_Aborted lane nonce \<Rightarrow> nonce \<notin> spent lane | _ \<Rightarrow> True)
    \<and> signed_fresh c' (outcome_used used out) (outcome_signed used spent out)"
proof (cases call)
  case (GC_InitializeAddresses x1 x2 x3 x4)
  then show ?thesis
    using s signed_fresh_frame [OF f]
    by (auto simp: governance_step_def initialize_chain_key_addresses_def result_simps split: if_splits)
next
  case (GC_CacheSignerKey k)
  then show ?thesis
    using s signed_fresh_frame [OF f]
    by (auto simp: governance_step_def set_signer_public_key_if_absent_def Let_def)
next
  case (GC_CacheOperatorKey k)
  then show ?thesis
    using s signed_fresh_frame [OF f]
    by (auto simp: governance_step_def set_governance_operator_public_key_if_absent_def Let_def)
next
  case (GC_InitializeNonce lane nonce)
  then show ?thesis
    using s signed_fresh_frame [OF f]
    by (auto simp: governance_step_def initialize_governance_nonce_for_def case_prod_beta result_simps
        split: sum.splits if_splits)
next
  case (GC_Prepare t)
  then have t: "prepare_governance_transaction c t = Inr c'" "out = GO_Prepared (lane_of t) (nonce_of t) (gt_id t)"
    using s by (auto simp: governance_step_def result_simps split: sum.splits)
  show ?thesis
    using f prepare_nonces(1) [OF b t(1)] prepare_ok(5) [OF t(1)] t(2) by (auto simp: signed_fresh_def)
next
  case (GC_Update t)
  then show ?thesis
    using s f u
    by (auto simp: governance_step_def update_governance_transaction_def Let_def result_simps lane_of_def
        signed_fresh_def split: sum.splits option.splits if_splits)
next
  case (GC_Abort t)
  then have t: "abort_prepared_governance_transaction_for_emergency c t = Inr c'"
      "out = GO_Aborted (lane_of t) (nonce_of t)"
    using s by (auto simp: governance_step_def result_simps split: sum.splits)
  have "nonce_of t \<notin> spent (lane_of t)"
    using f abort_ok(1,2) [OF t(1)] by (simp add: signed_fresh_def)
  then show ?thesis
    using f abort_ok(6) [OF t(1)] t(2) by (auto simp: signed_fresh_def)
next
  case (GC_Complete t)
  then have t: "apply_governance_completion c t = Inr c'" "out = (if rotates t then GO_Rotated else GO_Other)"
    using s by (auto simp: governance_step_def result_simps split: sum.splits)
  show ?thesis
    using f completion_ok(5) [OF t(1)] t(2) by (auto simp: signed_fresh_def)
next
  case GC_Emergency
  then show ?thesis
    using s signed_fresh_frame [OF f] by (auto simp: governance_step_def enqueue_emergency_base_actions_def)
qed

lemma run_nonces:
  "nonces_below c used ids \<Longrightarrow> signed_fresh c used spent \<Longrightarrow> list_all stores_signature calls
    \<Longrightarrow> nonces_fresh used spent ids (run_results governance_step c calls)"
proof (induction calls arbitrary: c used spent ids)
  case (Cons call calls)
  show ?case
  proof (cases "governance_step c call")
    case (Inr r)
    obtain out c' where r: "r = (out, c')"
      by (cases r)
    have s: "governance_step c call = Inr (out, c')"
      using Inr r by simp
    note b = governance_step_nonces [OF Cons.prems(1) s]
    have g: "(case out of GO_Aborted lane nonce \<Rightarrow> nonce \<notin> spent lane | _ \<Rightarrow> True)
        \<and> signed_fresh c' (outcome_used used out) (outcome_signed used spent out)"
      using governance_step_signed [OF Cons.prems(1,2) s] Cons.prems(3) by simp
    have "outcome_ok used spent ids out"
      using b g by (cases out) simp_all
    then show ?thesis
      using s b g Cons.IH Cons.prems(3) by simp
  qed (use Cons in simp)
qed simp

text \<open>
  C34.  Over every sequence of store calls, accepted or refused, from any stored control, in which the update
  stores signed transactions only (as its one caller does): an operation identifier is given to one
  transaction only, and between two rotations of the control-plane keys a nonce of a lane is given to a second
  transaction only if the first was aborted and no signed transaction for that nonce was ever stored.
\<close>

theorem governance_nonces_fresh:
  assumes "list_all stores_signature calls"
  shows "nonces_fresh (\<lambda>_. {}) (\<lambda>_. {}) {} (run_results governance_step c calls)"
  using assms by (intro run_nonces) (simp_all add: nonces_below_def signed_fresh_def)

section \<open>Emergency actions\<close>

definition emergency_inv :: "GovernanceControl \<Rightarrow> bool" where
  "emergency_inv c \<longleftrightarrow> (gc_emergency_cancel_required c \<longrightarrow> gc_pending_timelock_operation c \<noteq> None)"

definition emergency_count :: "GovernanceControl \<Rightarrow> nat" where
  "emergency_count c = of_bool (gc_emergency_pause_deposit_required c)
    + of_bool (gc_emergency_pause_withdrawal_required c) + of_bool (gc_emergency_cancel_required c)"

lemma prepare_kind_emergency: "emergency_inv c \<Longrightarrow> prepare_kind c kind = Inr c' \<Longrightarrow> emergency_inv c'"
  by (auto simp: prepare_kind_def emergency_inv_def
      split: GovernanceTransactionKind.splits option.splits if_splits)

lemma abort_kind_emergency: "emergency_inv c \<Longrightarrow> abort_kind c kind = Inr c' \<Longrightarrow> emergency_inv c'"
  by (auto simp: abort_kind_def emergency_inv_def split: GovernanceTransactionKind.splits if_splits)

lemma completion_effect_emergency:
  "emergency_inv c \<Longrightarrow> emergency_inv (completion_effect kind confirmed reverted c)"
  by (cases kind) (auto simp: completion_effect_def emergency_inv_def)

lemma setters_emergency [simp]:
  "emergency_inv (set_nonce_state l b n c) = emergency_inv c"
  "emergency_inv (set_pending_transaction l t c) = emergency_inv c"
  "emergency_inv (set_completed_transaction l u c) = emergency_inv c"
  "emergency_inv (c \<lparr> gc_next_governance_operation_id := i \<rparr>) = emergency_inv c"
  "emergency_inv (c \<lparr> gc_last_confirmed_activation := v \<rparr>) = emergency_inv c"
  by (simp_all add: emergency_inv_def)

lemma operations_emergency:
  assumes "emergency_inv c"
  shows "initialize_governance_nonce_for c lane n = Inr c1 \<Longrightarrow> emergency_inv c1"
    "prepare_governance_transaction c t = Inr c2 \<Longrightarrow> emergency_inv c2"
    "update_governance_transaction c t = Inr c3 \<Longrightarrow> emergency_inv c3"
    "abort_prepared_governance_transaction_for_emergency c t = Inr c4 \<Longrightarrow> emergency_inv c4"
    "apply_governance_completion c t = Inr c5 \<Longrightarrow> emergency_inv c5"
proof -
  show "initialize_governance_nonce_for c lane n = Inr c1 \<Longrightarrow> emergency_inv c1"
    using assms by (auto simp: initialize_governance_nonce_for_def case_prod_beta split: if_splits)
  show "prepare_governance_transaction c t = Inr c2 \<Longrightarrow> emergency_inv c2"
    using prepare_kind_emergency [OF assms]
    by (auto simp: prepare_governance_transaction_def Let_def case_prod_beta result_simps
        split: if_splits sum.splits option.splits)
  show "update_governance_transaction c t = Inr c3 \<Longrightarrow> emergency_inv c3"
    using assms by (auto simp: update_governance_transaction_def Let_def split: if_splits option.splits)
  show "abort_prepared_governance_transaction_for_emergency c t = Inr c4 \<Longrightarrow> emergency_inv c4"
    using abort_kind_emergency [OF assms]
    by (auto simp: abort_prepared_governance_transaction_for_emergency_def Let_def result_simps
        split: if_splits sum.splits)
  show "apply_governance_completion c t = Inr c5 \<Longrightarrow> emergency_inv c5"
    using assms
    by (cases "confirmed_activation_record t")
      (auto simp: apply_governance_completion_def Let_def result_simps completion_effect_emergency
        split: if_splits option.splits)
qed

interpretation emergency: record_machine governance_step emergency_inv
proof
  fix c call out c'
  assume c: "emergency_inv c" and s: "governance_step c call = Inr (out, c')"
  show "emergency_inv c'"
  proof (cases call)
    case (GC_InitializeAddresses x1 x2 x3 x4)
    then show ?thesis
      using c s
      by (auto simp: governance_step_def initialize_chain_key_addresses_def result_simps emergency_inv_def
          split: if_splits)
  qed (use c s operations_emergency [OF c] in \<open>auto simp: governance_step_def result_simps
      set_signer_public_key_if_absent_def set_governance_operator_public_key_if_absent_def Let_def
      enqueue_emergency_base_actions_def emergency_inv_def split: sum.splits\<close>)
qed

lemma emergency_kind:
  assumes "next_emergency_base_action c = Inr (Some kind)"
  shows "confirmed_activation_record (t \<lparr> gt_kind := kind \<rparr>) = Inr None"
    "prepare_kind c kind = Inr c" "\<not> completion_conflicts c kind True False"
    "emergency_count c = Suc (emergency_count (completion_effect kind True False c))"
  using assms
  by (auto simp: next_emergency_base_action_def confirmed_activation_record_def activation_phase_def
      prepare_kind_def completion_conflicts_def emergency_count_def completion_effect_def
      split: if_splits option.splits)

lemma setters_conflicts [simp]:
  "completion_conflicts (set_nonce_state l b n c) kind x y = completion_conflicts c kind x y"
  "completion_conflicts (set_pending_transaction l t c) kind x y = completion_conflicts c kind x y"
  "completion_conflicts (c \<lparr> gc_next_governance_operation_id := i \<rparr>) kind x y = completion_conflicts c kind x y"
proof -
  have "gc_pending_control_plane_rotation (set_nonce_state l b n c) = gc_pending_control_plane_rotation c"
    "gc_pending_control_plane_rotation (set_pending_transaction l t c) = gc_pending_control_plane_rotation c"
    by (cases l; simp add: set_nonce_state_def set_pending_transaction_def)+
  then show "completion_conflicts (set_nonce_state l b n c) kind x y = completion_conflicts c kind x y"
    "completion_conflicts (set_pending_transaction l t c) kind x y = completion_conflicts c kind x y"
    "completion_conflicts (c \<lparr> gc_next_governance_operation_id := i \<rparr>) kind x y = completion_conflicts c kind x y"
    by (cases kind; simp add: completion_conflicts_def)+
qed

lemma completion_effect_count:
  assumes "gc_emergency_pause_deposit_required c' = gc_emergency_pause_deposit_required c"
    "gc_emergency_pause_withdrawal_required c' = gc_emergency_pause_withdrawal_required c"
    "gc_emergency_cancel_required c' = gc_emergency_cancel_required c"
    "gc_pending_timelock_operation c' = gc_pending_timelock_operation c"
  shows "emergency_count (completion_effect kind x y c') = emergency_count (completion_effect kind x y c)"
  using assms by (cases kind) (simp_all add: completion_effect_def emergency_count_def)

lemma prepare_emergency:
  assumes "next_emergency_base_action c = Inr (Some kind)"
    and "pending_transaction c (nonce_lane kind) = None" "nonce_state c (nonce_lane kind) = (True, n)"
    and "unat n < 2 ^ 64 - 1" "unat (gc_next_governance_operation_id c) < 2 ^ 64 - 1"
    and t: "gt_kind t = kind" "gt_id t = gc_next_governance_operation_id c" "nonce_of t = n"
  shows "prepare_governance_transaction c t = Inr (set_pending_transaction (nonce_lane kind) (Some t)
    (set_nonce_state (nonce_lane kind) True (n + 1)
      (c \<lparr> gc_next_governance_operation_id := gc_next_governance_operation_id c + 1 \<rparr>)))"
  using assms emergency_kind(2) [OF assms(1)]
  by (simp add: prepare_governance_transaction_def Let_def nonce_of_def result_simps checked_add_def)

lemma completion_confirmed:
  assumes "pending_transaction c (nonce_lane (gt_kind u)) = Some p" "gt_id p = gt_id u"
    and "gt_kind p = gt_kind u" "gt_envelope p = gt_envelope u" "gt_state u = GS_Confirmed h b"
    and "\<not> completion_conflicts c (gt_kind u) True False" "confirmed_activation_record u = Inr None"
  shows "apply_governance_completion c u = Inr (completion_effect (gt_kind u) True False
    (set_pending_transaction (nonce_lane (gt_kind u)) None
      (set_completed_transaction (nonce_lane (gt_kind u)) u c)))"
  using assms
  by (simp add: apply_governance_completion_def Let_def is_confirmed_def is_reverted_def result_simps)

text \<open>
  C36.  The queue of emergency actions drains.  After any sequence of store calls from a control in
  which a queued cancellation has its timelock operation, the next emergency action is defined; with
  its lane free, its transaction is prepared, and when the receipt confirms it the completion is
  accepted and leaves one action less.
\<close>

theorem emergency_queue_drains:
  assumes "emergency_inv c0" and c: "c = run_events governance_step c0 calls"
  shows "next_emergency_base_action c \<noteq> Inl e
    \<and> (\<forall>kind n t h b. next_emergency_base_action c = Inr (Some kind)
        \<and> pending_transaction c (nonce_lane kind) = None \<and> nonce_state c (nonce_lane kind) = (True, n)
        \<and> unat n < 2 ^ 64 - 1 \<and> unat (gc_next_governance_operation_id c) < 2 ^ 64 - 1
        \<and> gt_kind t = kind \<and> gt_id t = gc_next_governance_operation_id c \<and> nonce_of t = n \<longrightarrow>
      (\<exists>c1 c2. prepare_governance_transaction c t = Inr c1
        \<and> apply_governance_completion c1 (t \<lparr> gt_state := GS_Confirmed h b \<rparr>) = Inr c2
        \<and> emergency_count c = Suc (emergency_count c2)))"
proof (intro conjI allI impI)
  show "next_emergency_base_action c \<noteq> Inl e"
    using emergency.run_inv [OF assms(1), of calls]
    by (auto simp: c next_emergency_base_action_def emergency_inv_def split: option.splits)
next
  fix kind n t h b
  assume a: "next_emergency_base_action c = Inr (Some kind)
    \<and> pending_transaction c (nonce_lane kind) = None \<and> nonce_state c (nonce_lane kind) = (True, n)
    \<and> unat n < 2 ^ 64 - 1 \<and> unat (gc_next_governance_operation_id c) < 2 ^ 64 - 1
    \<and> gt_kind t = kind \<and> gt_id t = gc_next_governance_operation_id c \<and> nonce_of t = n"
  let ?c1 = "set_pending_transaction (nonce_lane kind) (Some t) (set_nonce_state (nonce_lane kind) True (n + 1)
    (c \<lparr> gc_next_governance_operation_id := gc_next_governance_operation_id c + 1 \<rparr>))"
  let ?u = "t \<lparr> gt_state := GS_Confirmed h b \<rparr>"
  let ?c2 = "completion_effect kind True False (set_pending_transaction (nonce_lane kind) None
    (set_completed_transaction (nonce_lane kind) ?u ?c1))"
  have p: "prepare_governance_transaction c t = Inr ?c1"
    using a by (intro prepare_emergency) simp_all
  have "confirmed_activation_record ?u = Inr None"
    using a emergency_kind(1) [of c kind ?u] by (cases t) simp
  then have "apply_governance_completion ?c1 ?u = Inr ?c2"
    using completion_confirmed [of ?c1 ?u t h b] a emergency_kind(3) [of c kind] by simp
  moreover have "emergency_count c = Suc (emergency_count ?c2)"
    using a emergency_kind(4) [of c kind]
      completion_effect_count [of "set_pending_transaction (nonce_lane kind) None
        (set_completed_transaction (nonce_lane kind) ?u ?c1)" c kind True False]
    by simp
  ultimately show "\<exists>c1 c2. prepare_governance_transaction c t = Inr c1
      \<and> apply_governance_completion c1 ?u = Inr c2 \<and> emergency_count c = Suc (emergency_count c2)"
    using p by blast
qed

definition sample_control :: GovernanceControl where
  "sample_control =
    \<lparr> gc_signer_address = Some (replicate 20 1), gc_signer_public_key = None,
      gc_governance_operator_address = Some (replicate 20 2), gc_governance_operator_public_key = None,
      gc_runtime_administrator_address = Some (replicate 20 3),
      gc_independent_canceller_address = Some (replicate 20 4), gc_control_plane_key_generation = 0,
      gc_governance_nonce_initialized = True, gc_next_governance_nonce = 5,
      gc_runtime_administrator_nonce_initialized = True, gc_next_runtime_administrator_nonce = 7,
      gc_independent_canceller_nonce_initialized = False, gc_next_independent_canceller_nonce = 0,
      gc_next_governance_operation_id = 11, gc_pending_governance_transaction = None,
      gc_pending_runtime_administrator_transaction = None,
      gc_pending_independent_canceller_transaction = None,
      gc_last_completed_governance_transaction = None,
      gc_last_completed_runtime_administrator_transaction = None,
      gc_last_completed_independent_canceller_transaction = None,
      gc_last_confirmed_activation = None, gc_pending_timelock_operation = None,
      gc_pending_control_plane_rotation = None, gc_emergency_pause_deposit_required = False,
      gc_emergency_pause_withdrawal_required = False, gc_emergency_cancel_required = False \<rparr>"

definition sample_transaction :: "u64 \<Rightarrow> u64 \<Rightarrow> GovernanceTransactionKind \<Rightarrow> GovernanceTransaction" where
  "sample_transaction oid nonce kind =
    \<lparr> gt_id = oid, gt_kind = kind,
      gt_envelope = \<lparr> gte_operation_id = oid, gte_payload_hash = replicate 32 1,
        gte_nonce = nonce, gte_chain_id = 8453, gte_contract = replicate 20 7,
        gte_calldata = replicate 4 9, gte_gas_limit = 100000, gte_max_fee_per_gas = 2000000000,
        gte_max_priority_fee_per_gas = 1000, gte_signed_transactions = [] \<rparr>,
      gt_state = GS_Prepared, gt_activation_controller_authority = None \<rparr>"

theorem emergency_queue_drains_witness:
  "\<exists>c1 c2. prepare_governance_transaction (enqueue_emergency_base_actions sample_control)
        (sample_transaction 11 7 GK_PauseDepositMints) = Inr c1
    \<and> apply_governance_completion c1
        (sample_transaction 11 7 GK_PauseDepositMints \<lparr> gt_state := GS_Confirmed [1] 2 \<rparr>) = Inr c2
    \<and> emergency_count (enqueue_emergency_base_actions sample_control) = Suc (emergency_count c2)"
proof -
  let ?c = "enqueue_emergency_base_actions sample_control"
  have inv: "emergency_inv sample_control"
    by (simp add: emergency_inv_def sample_control_def)
  have c: "?c = run_events governance_step sample_control [GC_Emergency]"
    by (simp add: deliver_def governance_step_def)
  have "next_emergency_base_action ?c = Inr (Some GK_PauseDepositMints)"
    "pending_transaction ?c (nonce_lane GK_PauseDepositMints) = None"
    "nonce_state ?c (nonce_lane GK_PauseDepositMints) = (True, 7)"
    "gc_next_governance_operation_id ?c = 11"
    by (simp_all add: enqueue_emergency_base_actions_def sample_control_def next_emergency_base_action_def
        pending_transaction_def nonce_state_def nonce_lane_def)
  then show ?thesis
    by (intro emergency_queue_drains [OF inv c, THEN conjunct2, rule_format, of GK_PauseDepositMints 7])
      (simp_all add: sample_transaction_def nonce_of_def)
qed

section \<open>Rotations\<close>

lemma install_rotation_address [simp]:
  "gc_runtime_administrator_address (install_rotation r c) = Some (cpr_runtime_administrator r)"
  "gc_control_plane_key_generation (install_rotation r c) = cpr_generation r"
  by (simp_all add: install_rotation_def set_nonce_state_def)

lemma rotation_complete:
  assumes "pending_transaction c Lane_Governance = Some t"
    and k: "gt_kind t = GK_ExecuteControlPlaneRotation operation_id salt r"
    and "gc_pending_timelock_operation c = Some \<lparr> pto_operation_id = operation_id, pto_salt = salt \<rparr>"
    and "gc_pending_control_plane_rotation c = Some r"
  shows "apply_governance_completion c (t \<lparr> gt_state := GS_Confirmed h b \<rparr>) = Inr (install_rotation r
    (set_pending_transaction Lane_Governance None
      (set_completed_transaction Lane_Governance (t \<lparr> gt_state := GS_Confirmed h b \<rparr>) c)))"
proof -
  have "nonce_lane (gt_kind t) = Lane_Governance" "\<not> completion_conflicts c (gt_kind t) True False"
    "confirmed_activation_record (t \<lparr> gt_state := GS_Confirmed h b \<rparr>) = Inr None"
    using assms by (simp_all add: nonce_lane_def completion_conflicts_def control_plane_rotation_def
        confirmed_activation_record_def activation_phase_def)
  then show ?thesis
    using assms(1) k completion_confirmed [of c "t \<lparr> gt_state := GS_Confirmed h b \<rparr>" t h b]
    by (simp add: completion_effect_def)
qed

text \<open>
  C37.  A confirmed rotation of the control-plane keys resets the nonces of all lanes but leaves what
  is pending in the other two.  A transaction of the runtime administrator prepared after the
  rotation was prepared stays pending with a nonce of the retired key: the lane accepts no other
  transaction, emergency pauses included, and the transaction cannot be aborted.
\<close>

theorem rotation_strands_pending:
  assumes "pending_transaction c Lane_Governance = Some t"
    and "gt_kind t = GK_ExecuteControlPlaneRotation operation_id salt r"
    and "gc_pending_timelock_operation c = Some \<lparr> pto_operation_id = operation_id, pto_salt = salt \<rparr>"
    and "gc_pending_control_plane_rotation c = Some r"
    and q: "pending_transaction c Lane_RuntimeAdministrator = Some q"
  shows "\<exists>c'. apply_governance_completion c (t \<lparr> gt_state := GS_Confirmed h b \<rparr>) = Inr c'
    \<and> pending_transaction c' Lane_RuntimeAdministrator = Some q
    \<and> nonce_state c' Lane_RuntimeAdministrator = (False, 0)
    \<and> gc_runtime_administrator_address c' = Some (cpr_runtime_administrator r)
    \<and> (\<forall>u. lane_of u = Lane_RuntimeAdministrator \<longrightarrow> prepare_governance_transaction c' u = Inl DecodeFailed)
    \<and> (lane_of q = Lane_RuntimeAdministrator \<longrightarrow>
        abort_prepared_governance_transaction_for_emergency c' q = Inl DecodeFailed)"
proof -
  let ?c' = "install_rotation r (set_pending_transaction Lane_Governance None
    (set_completed_transaction Lane_Governance (t \<lparr> gt_state := GS_Confirmed h b \<rparr>) c))"
  have "apply_governance_completion c (t \<lparr> gt_state := GS_Confirmed h b \<rparr>) = Inr ?c'"
    using assms by (intro rotation_complete)
  moreover have "prepare_governance_transaction ?c' u = Inl DecodeFailed"
    if "lane_of u = Lane_RuntimeAdministrator" for u
    using that by (simp add: prepare_governance_transaction_def lane_of_def Let_def)
  moreover have "abort_prepared_governance_transaction_for_emergency ?c' q = Inl DecodeFailed"
    if "lane_of q = Lane_RuntimeAdministrator"
  proof -
    have "checked_add (nonce_of q) 1 \<noteq> Some 0"
      by (simp add: checked_add_eq_Some)
    then show ?thesis
      using that by (auto simp: abort_prepared_governance_transaction_for_emergency_def lane_of_def
          nonce_of_def Let_def)
  qed
  ultimately show ?thesis
    using q by auto
qed

definition sample_rotation :: ControlPlaneRotation where
  "sample_rotation = \<lparr> cpr_generation = 1, cpr_bridge_signer = replicate 20 11,
    cpr_governance_operator = replicate 20 12, cpr_runtime_administrator = replicate 20 13,
    cpr_independent_canceller = replicate 20 14 \<rparr>"

definition sample_schedule :: GovernanceTransaction where
  "sample_schedule = sample_transaction 11 5 (GK_ScheduleControlPlaneRotation [1] [2] sample_rotation)"

definition sample_execute :: GovernanceTransaction where
  "sample_execute = sample_transaction 12 6 (GK_ExecuteControlPlaneRotation [1] [2] sample_rotation)"

definition sample_pause :: GovernanceTransaction where
  "sample_pause = sample_transaction 13 7 GK_PauseDepositMints"

definition sample_rotating :: GovernanceControl where
  "sample_rotating = run_events governance_step sample_control
    [GC_Prepare sample_schedule, GC_Complete (sample_schedule \<lparr> gt_state := GS_Confirmed [3] 4 \<rparr>),
     GC_Prepare sample_execute, GC_Emergency, GC_Prepare sample_pause]"

lemmas sample_eval = deliver_def governance_step_def prepare_governance_transaction_def prepare_kind_def
  apply_governance_completion_def completion_conflicts_def confirmed_activation_record_def
  activation_phase_def completion_effect_def is_confirmed_def is_reverted_def nonce_lane_def nonce_state_def
  set_nonce_state_def pending_transaction_def set_pending_transaction_def set_completed_transaction_def
  enqueue_emergency_base_actions_def checked_add_def saturating_add_def control_plane_rotation_def
  control_plane_addresses_are_distinct_def addresses_are_distinct_def

lemma sample_rotating_facts:
  "pending_transaction sample_rotating Lane_Governance = Some sample_execute"
  "pending_transaction sample_rotating Lane_RuntimeAdministrator = Some sample_pause"
  "gc_pending_timelock_operation sample_rotating = Some \<lparr> pto_operation_id = [1], pto_salt = [2] \<rparr>"
  "gc_pending_control_plane_rotation sample_rotating = Some sample_rotation"
  "gc_emergency_pause_deposit_required sample_rotating"
  by (simp_all add: sample_rotating_def sample_eval sample_control_def sample_schedule_def sample_execute_def sample_pause_def sample_transaction_def
      sample_rotation_def result_simps Let_def)

theorem rotation_strands_pending_witness:
  "\<exists>c'. apply_governance_completion sample_rotating (sample_execute \<lparr> gt_state := GS_Confirmed [5] 6 \<rparr>) = Inr c'
    \<and> pending_transaction c' Lane_RuntimeAdministrator = Some sample_pause
    \<and> next_emergency_base_action c' = Inr (Some GK_PauseDepositMints)
    \<and> prepare_governance_transaction c' (sample_transaction 14 0 GK_PauseDepositMints) = Inl DecodeFailed"
proof -
  note facts = sample_rotating_facts
  have k: "gt_kind sample_execute = GK_ExecuteControlPlaneRotation [1] [2] sample_rotation"
    by (simp add: sample_execute_def sample_transaction_def)
  show ?thesis
    using rotation_strands_pending [OF facts(1) k facts(3,4,2), of "[5]" 6]
      rotation_complete [OF facts(1) k facts(3,4), of "[5]" 6] facts(5)
    by (auto simp: lane_of_def nonce_lane_def sample_transaction_def next_emergency_base_action_def)
qed

theorem governance_nonces_fresh_witness:
  "let t = sample_transaction 11 7 (GK_SetServiceFee 3); u = sample_transaction 12 7 GK_PauseDepositMints;
       signed_u = u \<lparr> gt_state := GS_SignedAwaitingRelay [3] 0 9 \<rparr>;
       calls = [GC_Prepare t, GC_Emergency, GC_Abort t, GC_Prepare u, GC_Update signed_u, GC_Abort signed_u,
         GC_Prepare (sample_transaction 13 7 GK_PauseWithdrawals)] in
    list_all stores_signature calls
    \<and> run_results governance_step sample_control calls
      = [GO_Prepared Lane_RuntimeAdministrator 7 11, GO_Other, GO_Aborted Lane_RuntimeAdministrator 7,
         GO_Prepared Lane_RuntimeAdministrator 7 12, GO_Signed Lane_RuntimeAdministrator 7]
    \<and> nonces_fresh (\<lambda>_. {}) (\<lambda>_. {}) {} (run_results governance_step sample_control calls)"
proof -
  let ?t = "sample_transaction 11 7 (GK_SetServiceFee 3)" and ?u = "sample_transaction 12 7 GK_PauseDepositMints"
  let ?s = "?u \<lparr> gt_state := GS_SignedAwaitingRelay [3] 0 9 \<rparr>"
  let ?calls = "[GC_Prepare ?t, GC_Emergency, GC_Abort ?t, GC_Prepare ?u, GC_Update ?s, GC_Abort ?s,
    GC_Prepare (sample_transaction 13 7 GK_PauseWithdrawals)]"
  have u: "list_all stores_signature ?calls"
    by (simp add: sample_transaction_def)
  have "run_results governance_step sample_control ?calls
      = [GO_Prepared Lane_RuntimeAdministrator 7 11, GO_Other, GO_Aborted Lane_RuntimeAdministrator 7,
         GO_Prepared Lane_RuntimeAdministrator 7 12, GO_Signed Lane_RuntimeAdministrator 7]"
    by (simp add: sample_eval sample_control_def sample_transaction_def update_governance_transaction_def
        abort_prepared_governance_transaction_for_emergency_def abort_kind_def emergency_base_actions_pending_def
        dangerous_governance_kind_def lane_of_def nonce_of_def result_simps)
  then show ?thesis
    using u governance_nonces_fresh [OF u, of sample_control] unfolding Let_def by blast
qed

end
