(* ===== verification/Governance_Flow.thy ===== *)
theory Governance_Flow
  imports Governance_Store Rlp_Signing
begin

text \<open>
  Governance transactions from preparation to receipt (\<open>bridge-canister/src/base_governance.rs\<close>): who
  signs what, initial and replacement fees, signing a prepared transaction, replacing a signed one
  and recording its receipt.

  An endpoint awaits the signer and the providers and then works on the stored control again; the
  part after the last await is one atomic step here, a function from the control to a result and the
  control.  What was awaited is an argument: the public key and the raw signature for a signature,
  and the outcome of the authorization checks that are repeated after the await.
\<close>

section \<open>Definitions\<close>

datatype GovernanceAction =
    GA_PauseDepositMints
  | GA_PauseWithdrawals
  | GA_SetServiceFee nat
  | GA_CancelPendingTimelock
  | GA_ScheduleActivation
  | GA_ExecuteActivation
  | GA_ScheduleControlPlaneRotation
  | GA_ExecuteControlPlaneRotation

datatype BaseGovernanceError =
    BG_Unauthorized
  | BG_InvalidArgument
  | BG_Busy u64
  | BG_StorageFailure
  | BG_ObservationUnavailable
  | BG_RateLimited
  | BG_InsufficientCycles
  | BG_InsufficientGovernanceBalance u128 u128
  | BG_SigningUnavailable SigningFailureClass
  | BG_TransactionNotFinalized u64
  | BG_TransactionReverted u64
  | BG_ReplacementLimitReached u64

type_synonym 'a governance_result = "BaseGovernanceError + 'a"

subsection \<open>Roles\<close>

definition is_emergency_kind :: "GovernanceTransactionKind \<Rightarrow> bool" where
  "is_emergency_kind kind = (case kind of
      GK_PauseDepositMints \<Rightarrow> True | GK_PauseWithdrawals \<Rightarrow> True | GK_CancelTimelock _ \<Rightarrow> True | _ \<Rightarrow> False)"

definition action_authorized :: "bool \<Rightarrow> bool \<Rightarrow> GovernanceAction \<Rightarrow> bool" where
  "action_authorized governance pause action = (governance \<or> (pause \<and> (case action of
      GA_PauseDepositMints \<Rightarrow> True | GA_PauseWithdrawals \<Rightarrow> True | GA_CancelPendingTimelock \<Rightarrow> True
    | _ \<Rightarrow> False)))"

definition transaction_authorized :: "bool \<Rightarrow> bool \<Rightarrow> GovernanceTransactionKind \<Rightarrow> bool" where
  "transaction_authorized governance pause kind = (governance \<or> (pause \<and> is_emergency_kind kind))"

definition transaction_signer_role :: "GovernanceTransactionKind \<Rightarrow> SignerRole" where
  "transaction_signer_role kind = (case kind of
      GK_PauseDepositMints \<Rightarrow> SR_RuntimeAdministrator
    | GK_PauseWithdrawals \<Rightarrow> SR_RuntimeAdministrator
    | GK_SetServiceFee _ \<Rightarrow> SR_RuntimeAdministrator
    | GK_CancelTimelock _ \<Rightarrow> SR_Canceller
    | _ \<Rightarrow> SR_Governance)"

definition action_signer_role :: "GovernanceAction \<Rightarrow> SignerRole" where
  "action_signer_role action = (case action of
      GA_PauseDepositMints \<Rightarrow> SR_RuntimeAdministrator
    | GA_PauseWithdrawals \<Rightarrow> SR_RuntimeAdministrator
    | GA_SetServiceFee _ \<Rightarrow> SR_RuntimeAdministrator
    | GA_CancelPendingTimelock \<Rightarrow> SR_Canceller
    | _ \<Rightarrow> SR_Governance)"

text \<open>The arm for the mint signer is unreachable in the source: no action has that role.\<close>

definition action_nonce_lane :: "GovernanceAction \<Rightarrow> GovernanceNonceLane option" where
  "action_nonce_lane action = (case action_signer_role action of
      SR_Governance \<Rightarrow> Some Lane_Governance
    | SR_RuntimeAdministrator \<Rightarrow> Some Lane_RuntimeAdministrator
    | SR_Canceller \<Rightarrow> Some Lane_IndependentCanceller
    | SR_Mint \<Rightarrow> None)"

definition operator_address_for_role :: "GovernanceControl \<Rightarrow> SignerRole \<Rightarrow> bytes governance_result" where
  "operator_address_for_role c role = ok_or BG_ObservationUnavailable (case role of
      SR_Mint \<Rightarrow> None
    | SR_Governance \<Rightarrow> gc_governance_operator_address c
    | SR_RuntimeAdministrator \<Rightarrow> gc_runtime_administrator_address c
    | SR_Canceller \<Rightarrow> gc_independent_canceller_address c)"

definition transaction_operator :: "GovernanceControl \<Rightarrow> GovernanceTransaction \<Rightarrow> bytes governance_result" where
  "transaction_operator c t = operator_address_for_role c (transaction_signer_role (gt_kind t))"

definition action_matches_pending :: "GovernanceAction \<Rightarrow> GovernanceTransactionKind \<Rightarrow> bool" where
  "action_matches_pending action kind = (case (action, kind) of
      (GA_PauseDepositMints, GK_PauseDepositMints) \<Rightarrow> True
    | (GA_PauseWithdrawals, GK_PauseWithdrawals) \<Rightarrow> True
    | (GA_CancelPendingTimelock, GK_CancelTimelock _) \<Rightarrow> True
    | (GA_ScheduleActivation, GK_ScheduleActivation _ _) \<Rightarrow> True
    | (GA_ExecuteActivation, GK_ExecuteActivation _ _) \<Rightarrow> True
    | (GA_ScheduleControlPlaneRotation, GK_ScheduleControlPlaneRotation _ _ _) \<Rightarrow> True
    | (GA_ExecuteControlPlaneRotation, GK_ExecuteControlPlaneRotation _ _ _) \<Rightarrow> True
    | (GA_SetServiceFee value, GK_SetServiceFee pending) \<Rightarrow> bounded_nat_u128 value = Some pending
    | _ \<Rightarrow> False)"

subsection \<open>Fees\<close>

definition minimum_fee_bump :: "u128 \<Rightarrow> u128 \<Rightarrow> u16 \<Rightarrow> bool" where
  "minimum_fee_bump current proposed bump_bps =
    (let minimum = saturating_add (saturating_mul current (10000 + ucast bump_bps)) 9999 div 10000 in
      max minimum (saturating_add current 1) \<le> proposed)"

fun initial_fee :: "u128 \<Rightarrow> u16 \<Rightarrow> nat \<Rightarrow> u128" where
  "initial_fee ceiling bump_bps 0 = ceiling"
| "initial_fee ceiling bump_bps (Suc generations) =
    max (saturating_mul (initial_fee ceiling bump_bps generations) 10000 div (10000 + ucast bump_bps)) 1"

record fee_policy =
  fp_max_replacements :: u8
  fp_fee_bump_bps :: u16
  fp_max_fee_per_gas_ceiling :: u128
  fp_max_priority_fee_per_gas_ceiling :: u128
  fp_gas_limit_ceiling :: u128

definition initial_envelope ::
    "fee_policy \<Rightarrow> u64 \<Rightarrow> bytes \<Rightarrow> u64 \<Rightarrow> u64 \<Rightarrow> bytes \<Rightarrow> bytes \<Rightarrow> GovernanceTransactionEnvelope" where
  "initial_envelope P oid payload_hash nonce chain_id target calldata =
    (let generations = unat (fp_max_replacements P);
         fee = initial_fee (fp_max_fee_per_gas_ceiling P) (fp_fee_bump_bps P) generations;
         priority = min (initial_fee (fp_max_priority_fee_per_gas_ceiling P) (fp_fee_bump_bps P) generations) fee
     in \<lparr> gte_operation_id = oid, gte_payload_hash = payload_hash, gte_nonce = nonce,
       gte_chain_id = chain_id, gte_contract = target, gte_calldata = calldata,
       gte_gas_limit = fp_gas_limit_ceiling P, gte_max_fee_per_gas = fee,
       gte_max_priority_fee_per_gas = priority, gte_signed_transactions = [] \<rparr>)"

subsection \<open>Signing\<close>

definition pending_governance_transactions :: "GovernanceControl \<Rightarrow> GovernanceTransaction list" where
  "pending_governance_transactions c = List.map_filter (pending_transaction c)
    [Lane_Governance, Lane_RuntimeAdministrator, Lane_IndependentCanceller]"

definition completed_governance_transactions :: "GovernanceControl \<Rightarrow> GovernanceTransaction list" where
  "completed_governance_transactions c = List.map_filter (completed_transaction c)
    [Lane_Governance, Lane_RuntimeAdministrator, Lane_IndependentCanceller]"

definition find_pending :: "GovernanceControl \<Rightarrow> u64 \<Rightarrow> GovernanceTransaction governance_result" where
  "find_pending c oid =
    ok_or BG_InvalidArgument (find (\<lambda>t. gt_id t = oid) (pending_governance_transactions c))"

datatype PendingSignatureAction = PS_Sign | PS_ReturnSigned

definition pending_signature_action :: "GovernanceTransaction \<Rightarrow> PendingSignatureAction governance_result" where
  "pending_signature_action t = (case gt_state t of
      GS_Prepared \<Rightarrow>
        if gte_signed_transactions (gt_envelope t) = [] then Inr PS_Sign else Inl BG_StorageFailure
    | GS_SignedAwaitingRelay transaction_hash generation signed_at_ns \<Rightarrow>
        (let signed = gte_signed_transactions (gt_envelope t) in
          if signed = [] then Inl BG_StorageFailure
          else let current = last signed in
            if sgt_transaction_hash current \<noteq> transaction_hash \<or> sgt_generation current \<noteq> generation
              \<or> sgt_signed_at_ns current \<noteq> signed_at_ns
            then Inl BG_StorageFailure else Inr PS_ReturnSigned)
    | GS_Confirmed _ _ \<Rightarrow> Inl BG_StorageFailure
    | GS_Reverted _ _ \<Rightarrow> Inl BG_StorageFailure)"

definition signing_failure :: "SignerError \<Rightarrow> BaseGovernanceError" where
  "signing_failure e = BG_SigningUnavailable (signer_error_class e)"

definition sign_envelope ::
    "(bytes \<Rightarrow> bytes) \<Rightarrow> ('k, 'sig) ecdsa \<Rightarrow> GovernanceTransactionEnvelope \<Rightarrow> SignerError + bytes \<times> bytes
      \<Rightarrow> bytes governance_result" where
  "sign_envelope keccak X e awaited = (case awaited of
      Inl failure \<Rightarrow> Inl (signing_failure failure)
    | Inr (public_key, raw_signature) \<Rightarrow>
        (case assemble_signed X e (keccak (unsigned_transaction e)) public_key raw_signature of
          Inl failure \<Rightarrow> Inl (signing_failure failure)
        | Inr raw \<Rightarrow> Inr raw))"

definition push_attempt :: "(bytes \<Rightarrow> bytes) \<Rightarrow> GovernanceTransaction \<Rightarrow> bytes \<Rightarrow> u8 \<Rightarrow> u64 \<Rightarrow> GovernanceTransaction" where
  "push_attempt keccak t raw generation signed_at_ns =
    (let e = gt_envelope t in
      t \<lparr> gt_envelope := e \<lparr> gte_signed_transactions := gte_signed_transactions e @
            [\<lparr> sgt_raw_transaction = raw, sgt_transaction_hash = keccak raw,
               sgt_max_fee_per_gas = gte_max_fee_per_gas e,
               sgt_max_priority_fee_per_gas = gte_max_priority_fee_per_gas e,
               sgt_generation = generation, sgt_signed_at_ns = signed_at_ns \<rparr>] \<rparr>,
          gt_state := GS_SignedAwaitingRelay (keccak raw) generation signed_at_ns \<rparr>)"

definition persist :: "GovernanceControl \<Rightarrow> GovernanceTransaction \<Rightarrow> GovernanceControl governance_result" where
  "persist c t = (case update_governance_transaction c t of Inl _ \<Rightarrow> Inl BG_StorageFailure | Inr c' \<Rightarrow> Inr c')"

definition sign_prepared ::
    "(bytes \<Rightarrow> bytes) \<Rightarrow> ('k, 'sig) ecdsa \<Rightarrow> GovernanceControl \<Rightarrow> GovernanceTransaction
      \<Rightarrow> SignerError + bytes \<times> bytes \<Rightarrow> unit governance_result \<Rightarrow> u64
      \<Rightarrow> GovernanceTransaction governance_result \<times> GovernanceControl" where
  "sign_prepared keccak X c t awaited authorization now =
    (if pending_signature_action t \<noteq> Inr PS_Sign then (Inl BG_StorageFailure, c)
     else case sign_envelope keccak X (gt_envelope t) awaited of
       Inl e \<Rightarrow> (Inl e, c)
     | Inr raw \<Rightarrow>
       (case authorization of
         Inl e \<Rightarrow> (Inl e, c)
       | Inr _ \<Rightarrow>
         (case find_pending c (gt_id t) of
           Inl e \<Rightarrow> (Inl e, c)
         | Inr current \<Rightarrow>
           if current \<noteq> t then (Inl BG_StorageFailure, c)
           else if dangerous_governance_kind (gt_kind t) \<and> emergency_base_actions_pending c
           then (case abort_prepared_governance_transaction_for_emergency c t of
               Inl _ \<Rightarrow> (Inl BG_StorageFailure, c)
             | Inr c' \<Rightarrow> (Inl (BG_Busy (gt_id t)), c'))
           else let t' = push_attempt keccak t raw 0 now in
             (case persist c t' of Inl e \<Rightarrow> (Inl e, c) | Inr c' \<Rightarrow> (Inr t', c')))))"

subsection \<open>Replacement\<close>

definition replacement_allowed ::
    "fee_policy \<Rightarrow> GovernanceTransaction \<Rightarrow> bytes \<Rightarrow> u128 \<Rightarrow> u128 \<Rightarrow> SignedGovernanceTransaction governance_result" where
  "replacement_allowed P t expected_hash max_fee max_priority =
    (let signed = gte_signed_transactions (gt_envelope t) in
      if signed = [] then Inl BG_StorageFailure
      else let current = last signed in
        if sgt_transaction_hash current \<noteq> expected_hash
          \<or> \<not> (case gt_state t of GS_SignedAwaitingRelay _ _ _ \<Rightarrow> True | _ \<Rightarrow> False)
        then Inl BG_InvalidArgument
        else if fp_max_replacements P \<le> sgt_generation current
        then Inl (BG_ReplacementLimitReached (gt_id t))
        else if fp_max_fee_per_gas_ceiling P < max_fee \<or> fp_max_priority_fee_per_gas_ceiling P < max_priority
          \<or> max_fee < max_priority
          \<or> \<not> minimum_fee_bump (sgt_max_fee_per_gas current) max_fee (fp_fee_bump_bps P)
          \<or> \<not> minimum_fee_bump (sgt_max_priority_fee_per_gas current) max_priority (fp_fee_bump_bps P)
        then Inl BG_InvalidArgument
        else Inr current)"

definition reprice :: "GovernanceTransaction \<Rightarrow> u128 \<Rightarrow> u128 \<Rightarrow> GovernanceTransaction" where
  "reprice t max_fee max_priority = t \<lparr> gt_envelope := gt_envelope t
    \<lparr> gte_max_fee_per_gas := max_fee, gte_max_priority_fee_per_gas := max_priority \<rparr> \<rparr>"

definition replacement_commit ::
    "(bytes \<Rightarrow> bytes) \<Rightarrow> GovernanceControl \<Rightarrow> GovernanceTransaction \<Rightarrow> SignedGovernanceTransaction
      \<Rightarrow> bytes \<Rightarrow> u64 \<Rightarrow> GovernanceTransaction governance_result \<times> GovernanceControl" where
  "replacement_commit keccak c t current raw now =
    (case find_pending c (gt_id t) of
      Inl e \<Rightarrow> (Inl e, c)
    | Inr pending \<Rightarrow>
      if gte_signed_transactions (gt_envelope pending) = []
        \<or> last (gte_signed_transactions (gt_envelope pending)) \<noteq> current
        \<or> \<not> (case gt_state pending of GS_SignedAwaitingRelay _ _ _ \<Rightarrow> True | _ \<Rightarrow> False)
      then (Inl BG_InvalidArgument, c)
      else if dangerous_governance_kind (gt_kind t) \<and> emergency_base_actions_pending c
      then (Inl (BG_Busy (gt_id t)), c)
      else (case checked_add (sgt_generation current) 1 of
          None \<Rightarrow> (Inl BG_StorageFailure, c)
        | Some generation \<Rightarrow>
          let t' = push_attempt keccak t raw generation now in
            (case persist c t' of Inl e \<Rightarrow> (Inl e, c) | Inr c' \<Rightarrow> (Inr t', c'))))"

definition prepare_replacement ::
    "(bytes \<Rightarrow> bytes) \<Rightarrow> ('k, 'sig) ecdsa \<Rightarrow> fee_policy \<Rightarrow> GovernanceControl \<Rightarrow> u64 \<Rightarrow> bytes \<Rightarrow> nat \<Rightarrow> nat
      \<Rightarrow> unit governance_result \<Rightarrow> unit governance_result \<Rightarrow> SignerError + bytes \<times> bytes
      \<Rightarrow> unit governance_result \<Rightarrow> u64 \<Rightarrow> GovernanceTransaction governance_result \<times> GovernanceControl" where
  "prepare_replacement keccak X P c oid expected_hash max_fee max_priority
      authorization affordable awaited reauthorization now =
    (case try_bind (if length expected_hash \<noteq> 32 then Inl BG_InvalidArgument else Inr ()) (\<lambda>_.
        try_bind (ok_or BG_InvalidArgument (bounded_nat_u128 max_fee)) (\<lambda>fee.
        try_bind (ok_or BG_InvalidArgument (bounded_nat_u128 max_priority)) (\<lambda>priority.
        try_bind (find_pending c oid) (\<lambda>t.
        try_bind (transaction_operator c t) (\<lambda>operator.
        try_bind authorization (\<lambda>_.
        try_bind (replacement_allowed P t expected_hash fee priority) (\<lambda>current.
        try_bind affordable (\<lambda>_.
        let t' = reprice t fee priority in
        try_bind (sign_envelope keccak X (gt_envelope t') awaited) (\<lambda>raw.
        try_bind reauthorization (\<lambda>_.
        Inr (t', current, raw))))))))))) of
      Inl e \<Rightarrow> (Inl e, c)
    | Inr (t', current, raw) \<Rightarrow> replacement_commit keccak c t' current raw now)"

subsection \<open>Receipts\<close>

text \<open>The transaction that is completed for a final receipt.  \<open>confirm_receipt\<close> is the completion of
  every kind but a confirmed activation, which also resumes deposits.\<close>

definition receipt_transaction ::
    "GovernanceTransaction \<Rightarrow> bytes \<Rightarrow> u64 \<Rightarrow> bool \<Rightarrow> GovernanceTransaction governance_result" where
  "receipt_transaction t transaction_hash receipt_block_number succeeded =
    (if \<not> list_ex (\<lambda>s. sgt_transaction_hash s = transaction_hash) (gte_signed_transactions (gt_envelope t))
     then Inl BG_InvalidArgument
     else Inr (t \<lparr> gt_state := if succeeded then GS_Confirmed transaction_hash receipt_block_number
       else GS_Reverted transaction_hash receipt_block_number \<rparr>))"

definition confirm_receipt ::
    "GovernanceControl \<Rightarrow> GovernanceTransaction \<Rightarrow> bytes \<Rightarrow> u64 \<Rightarrow> bool
      \<Rightarrow> GovernanceTransaction governance_result \<times> GovernanceControl" where
  "confirm_receipt c t transaction_hash receipt_block_number succeeded =
    (case receipt_transaction t transaction_hash receipt_block_number succeeded of
      Inl e \<Rightarrow> (Inl e, c)
    | Inr t' \<Rightarrow>
      (case apply_governance_completion c t' of
        Inl _ \<Rightarrow> (Inl BG_StorageFailure, c)
      | Inr c' \<Rightarrow> (if succeeded then Inr t' else Inl (BG_TransactionReverted (gt_id t)), c')))"

section \<open>Fees\<close>

lemma unat_saturating_mul:
  "unat (saturating_mul a b) = min (2 ^ LENGTH('a) - 1) (unat a * unat (b :: 'a::len word))"
proof (cases "unat a * unat b < 2 ^ LENGTH('a)")
  case True
  then show ?thesis
    by (simp add: saturating_mul_def unat_mult_lem [THEN iffD1])
next
  case False
  then have "2 ^ LENGTH('a) - 1 \<le> unat a * unat b"
    by linarith
  then show ?thesis
    using False by (simp only: saturating_mul_def if_False unat_max_word min_absorb1)
qed

abbreviation u128_top :: nat where
  "u128_top \<equiv> 2 ^ 128 - 1"

abbreviation bump_factor :: "u16 \<Rightarrow> nat" where
  "bump_factor b \<equiv> 10000 + unat b"

lemma unat_bump_factor: "unat (10000 + ucast b :: u128) = bump_factor (b :: u16)"
proof -
  have u: "unat (ucast b :: u128) = unat b"
    by (rule unat_ucast_up) simp
  have "unat (10000 :: u128) + unat (ucast b :: u128) < 2 ^ LENGTH(128)"
    using unat_bound [of b] u by simp
  from unat_add_exact [OF this] u show ?thesis
    by simp
qed

lemma unat_word_max: "unat (max a b) = max (unat a) (unat (b :: 'a::len word))"
  by (simp add: max_def word_le_nat_alt)

lemma minimum_fee_bump_nat:
  "minimum_fee_bump current proposed b \<longleftrightarrow>
    max (min u128_top (min u128_top (unat current * bump_factor b) + 9999) div 10000)
      (min u128_top (unat current + 1)) \<le> unat proposed"
  by (simp add: minimum_fee_bump_def word_le_nat_alt unat_word_max unat_div unat_saturating_add
      unat_saturating_mul unat_bump_factor)

lemma minimum_fee_bump_less:
  assumes "minimum_fee_bump current proposed b" "current \<noteq> - 1"
  shows "current < proposed"
proof -
  have "unat current < u128_top"
    using assms(2) unat_bound [of current] by (simp add: word_unat_eq_iff unat_max_word)
  then show ?thesis
    using assms(1) by (simp add: minimum_fee_bump_nat word_less_nat_alt)
qed

lemma initial_fee_nat:
  "unat (initial_fee C b (Suc n)) = max (min u128_top (unat (initial_fee C b n) * 10000) div bump_factor b) 1"
  by (simp add: unat_word_max unat_div unat_saturating_mul unat_bump_factor)

lemma initial_fee_decreases:
  assumes "1 < unat (initial_fee C b (Suc n))"
  shows "unat (initial_fee C b (Suc n)) * bump_factor b \<le> min u128_top (unat (initial_fee C b n) * 10000)"
proof -
  have "unat (initial_fee C b (Suc n)) = min u128_top (unat (initial_fee C b n) * 10000) div bump_factor b"
    using assms unfolding initial_fee_nat by simp
  then show ?thesis
    by (simp only:) (rule div_times_less_eq_dividend)
qed

lemma initial_fee_bump:
  assumes "1 < unat (initial_fee C b (Suc n))" "0 < b"
  shows "minimum_fee_bump (initial_fee C b (Suc n)) (initial_fee C b n) b"
proof -
  define f where "f = unat (initial_fee C b (Suc n))"
  define g where "g = unat (initial_fee C b n)"
  have le: "f * bump_factor b \<le> min u128_top (g * 10000)" and one: "1 < f"
    using initial_fee_decreases [OF assms(1)] assms(1) by (simp_all only: f_def g_def)
  have b: "0 < unat b"
    using assms(2) by (simp add: word_less_nat_alt)
  have "f * 10000 + f * unat b \<le> g * 10000"
    using le by (simp add: algebra_simps)
  moreover have "0 < f * unat b"
    using one b by simp
  ultimately have fg: "f + 1 \<le> g"
    by linarith
  have "min u128_top (min u128_top (f * bump_factor b) + 9999) \<le> g * 10000 + 9999"
    using le by linarith
  then have "min u128_top (min u128_top (f * bump_factor b) + 9999) div 10000 \<le> (g * 10000 + 9999) div 10000"
    by (rule div_le_mono)
  then show ?thesis
    using fg unfolding minimum_fee_bump_nat f_def [symmetric] g_def [symmetric] by simp
qed

lemma initial_fee_chain:
  "1 < unat (initial_fee C b n) \<Longrightarrow> k < n \<Longrightarrow> 1 < unat (initial_fee C b (Suc k))"
proof (induction n)
  case (Suc n)
  show ?case
  proof (cases "k = n")
    case True
    then show ?thesis
      using Suc.prems by simp
  next
    case False
    have "unat (initial_fee C b (Suc n)) * bump_factor b \<le> unat (initial_fee C b n) * 10000"
      using initial_fee_decreases [OF Suc.prems(1)] by simp
    then have "unat (initial_fee C b (Suc n)) * 10000 \<le> unat (initial_fee C b n) * 10000"
      by (simp add: algebra_simps)
    then have "1 < unat (initial_fee C b n)"
      using Suc.prems(1) by simp
    then show ?thesis
      using Suc.IH Suc.prems(2) False by simp
  qed
qed simp

lemma initial_fee_bound: "unat (initial_fee C b n) \<le> max (unat C) 1"
proof (induction n)
  case (Suc n)
  have "min u128_top (unat (initial_fee C b n) * 10000) div bump_factor b
      \<le> unat (initial_fee C b n) * bump_factor b div bump_factor b"
    by (rule div_le_mono) (simp add: min.coboundedI2)
  also have "\<dots> = unat (initial_fee C b n)"
    by simp
  finally show ?case
    using Suc unfolding initial_fee_nat by simp
qed simp

text \<open>
  The initial fee leaves room for every replacement: unless it has fallen to the smallest fee, a
  chain of as many replacements as the policy allows, each at least the required step above the one
  before, reaches exactly the ceiling.  The initial fee is at most the ceiling, or 1 for a ceiling of
  zero, which the initial fee then exceeds.
\<close>

lemma replacement_room:
  assumes "0 < b" "1 < initial_fee C b n"
  shows "\<exists>fees. length fees = Suc n \<and> hd fees = initial_fee C b n \<and> last fees = C
      \<and> (\<forall>i < n. minimum_fee_bump (fees ! i) (fees ! Suc i) b)
    \<and> unat (initial_fee C b n) \<le> max (unat C) 1 \<and> 0 < initial_fee 0 b (Suc n)"
proof -
  let ?fees = "map (\<lambda>i. initial_fee C b (n - i)) [0..<Suc n]"
  have one: "1 < unat (initial_fee C b n)"
    using assms(2) by (simp add: word_less_nat_alt)
  have "minimum_fee_bump (?fees ! i) (?fees ! Suc i) b" if "i < n" for i
  proof -
    have "?fees ! i = initial_fee C b (Suc (n - Suc i))" "?fees ! Suc i = initial_fee C b (n - Suc i)"
      using that by (simp_all add: Suc_diff_Suc del: upt_Suc initial_fee.simps)
    then show ?thesis
      using that initial_fee_bump [OF initial_fee_chain [OF one] assms(1), of "n - Suc i"] by simp
  qed
  moreover have "0 < initial_fee 0 b (Suc n)"
    by (simp add: less_max_iff_disj)
  ultimately show ?thesis
    using initial_fee_bound [of C b n] by (intro exI [of _ ?fees]) (simp add: hd_append hd_map)
qed

lemma replacement_room_witness:
  "\<exists>fees. length fees = 4 \<and> hd fees = initial_fee 200000000000 1250 3 \<and> last fees = 200000000000
      \<and> (\<forall>i < 3. minimum_fee_bump (fees ! i) (fees ! Suc i) 1250)"
proof -
  have "unat (initial_fee 200000000000 1250 (Suc (Suc (Suc 0)))) = 140466392317"
    by (simp only: initial_fee_nat initial_fee.simps(1)) simp
  then have "1 < initial_fee 200000000000 1250 3"
    by (simp add: word_less_nat_alt numeral_3_eq_3 del: initial_fee.simps)
  from replacement_room [OF _ this] show ?thesis
    by (auto simp del: initial_fee.simps)
qed

section \<open>Attempts of one operation\<close>

text \<open>The atomic parts as calls.  A transaction is prepared with the envelope that the endpoint builds
  under the next identifier.  A replacement reads the pending transaction when it begins and checks
  at its end that the last attempt is still the same; as every change of a signed transaction adds
  an attempt, it works on the transaction it has read, and is one call here.\<close>

datatype flow_call =
    FL_Initialize GovernanceNonceLane u64
  | FL_Prepare GovernanceTransactionKind "bytes option" bytes u64 u64 bytes bytes
  | FL_Sign GovernanceTransaction "SignerError + bytes \<times> bytes" "unit governance_result" u64
  | FL_Replace u64 bytes nat nat "unit governance_result" "unit governance_result"
      "SignerError + bytes \<times> bytes" "unit governance_result" u64
  | FL_Confirm GovernanceTransaction bytes u64 bool
  | FL_Abort GovernanceTransaction
  | FL_Emergency

definition keep_on_error :: "'e + 'a \<Rightarrow> 'a \<Rightarrow> 'a" where
  "keep_on_error r c = (case r of Inl _ \<Rightarrow> c | Inr c' \<Rightarrow> c')"

definition flow_transaction ::
    "fee_policy \<Rightarrow> GovernanceControl \<Rightarrow> GovernanceTransactionKind \<Rightarrow> bytes option \<Rightarrow> bytes \<Rightarrow> u64 \<Rightarrow> u64
      \<Rightarrow> bytes \<Rightarrow> bytes \<Rightarrow> GovernanceTransaction" where
  "flow_transaction P c kind authority payload_hash nonce chain_id target calldata =
    \<lparr> gt_id = gc_next_governance_operation_id c, gt_kind = kind,
      gt_envelope = initial_envelope P (gc_next_governance_operation_id c) payload_hash nonce chain_id
        target calldata,
      gt_state = GS_Prepared, gt_activation_controller_authority = authority \<rparr>"

definition flow_step ::
    "(bytes \<Rightarrow> bytes) \<Rightarrow> ('k, 'sig) ecdsa \<Rightarrow> fee_policy
      \<Rightarrow> (GovernanceControl, flow_call, unit, GovernanceTransaction option) machine" where
  "flow_step keccak X P c call = Inr (case call of
      FL_Initialize lane nonce \<Rightarrow> (None, keep_on_error (initialize_governance_nonce_for c lane nonce) c)
    | FL_Prepare kind authority payload_hash nonce chain_id target calldata \<Rightarrow>
        (None, keep_on_error (prepare_governance_transaction c
          (flow_transaction P c kind authority payload_hash nonce chain_id target calldata)) c)
    | FL_Sign t awaited authorization now \<Rightarrow>
        (case sign_prepared keccak X c t awaited authorization now of
          (Inl _, c') \<Rightarrow> (None, c') | (Inr t', c') \<Rightarrow> (Some t', c'))
    | FL_Replace oid h fee priority a1 a2 awaited a3 now \<Rightarrow>
        (case prepare_replacement keccak X P c oid h fee priority a1 a2 awaited a3 now of
          (Inl _, c') \<Rightarrow> (None, c') | (Inr t', c') \<Rightarrow> (Some t', c'))
    | FL_Confirm t h block succeeded \<Rightarrow> (None, snd (confirm_receipt c t h block succeeded))
    | FL_Abort t \<Rightarrow> (None, keep_on_error (abort_prepared_governance_transaction_for_emergency c t) c)
    | FL_Emergency \<Rightarrow> (None, enqueue_emergency_base_actions c))"

definition attempt_carries :: "GovernanceTransactionEnvelope \<Rightarrow> SignedGovernanceTransaction \<Rightarrow> bool" where
  "attempt_carries e s \<longleftrightarrow> (\<exists>signature. read_transaction (sgt_raw_transaction s) =
    Some ((unat (gte_chain_id e), unat (gte_nonce e), unat (sgt_max_priority_fee_per_gas s),
      unat (sgt_max_fee_per_gas s), unat (gte_gas_limit e), gte_contract e, gte_calldata e), signature))"

definition attempts_step :: "fee_policy \<Rightarrow> SignedGovernanceTransaction \<Rightarrow> SignedGovernanceTransaction \<Rightarrow> bool" where
  "attempts_step P s s' \<longleftrightarrow>
    minimum_fee_bump (sgt_max_fee_per_gas s) (sgt_max_fee_per_gas s') (fp_fee_bump_bps P)
    \<and> minimum_fee_bump (sgt_max_priority_fee_per_gas s) (sgt_max_priority_fee_per_gas s') (fp_fee_bump_bps P)
    \<and> sgt_max_fee_per_gas s' \<le> fp_max_fee_per_gas_ceiling P
    \<and> sgt_max_priority_fee_per_gas s' \<le> fp_max_priority_fee_per_gas_ceiling P"

definition attempts_ok :: "fee_policy \<Rightarrow> GovernanceTransaction \<Rightarrow> bool" where
  "attempts_ok P t \<longleftrightarrow>
    (let e = gt_envelope t; ss = gte_signed_transactions e in
      (gt_state t = GS_Prepared \<longrightarrow> ss = [])
      \<and> length ss \<le> Suc (unat (fp_max_replacements P))
      \<and> (\<forall>i < length ss. unat (sgt_generation (ss ! i)) = i)
      \<and> (\<forall>i. Suc i < length ss \<longrightarrow> attempts_step P (ss ! i) (ss ! Suc i))
      \<and> (envelope_sized e \<longrightarrow> (\<forall>s \<in> set ss. attempt_carries e s)))"

definition flow_inv :: "('k, 'sig) ecdsa \<Rightarrow> fee_policy \<Rightarrow> GovernanceControl \<Rightarrow> bool" where
  "flow_inv X P c \<longleftrightarrow> signature_sized X
    \<and> (\<forall>l t. pending_transaction c l = Some t \<longrightarrow> lane_of t = l \<and> attempts_ok P t)"

lemma find_pending_ok:
  assumes "find_pending c oid = Inr t"
  shows "gt_id t = oid \<and> (\<exists>l. pending_transaction c l = Some t)"
proof -
  have f: "find (\<lambda>t. gt_id t = oid) (pending_governance_transactions c) = Some t"
    using assms by (cases "find (\<lambda>t. gt_id t = oid) (pending_governance_transactions c)")
      (simp_all add: find_pending_def result_simps)
  then have "t \<in> set (pending_governance_transactions c)" "gt_id t = oid"
    by (auto simp: find_Some_iff)
  then show ?thesis
    by (auto simp: pending_governance_transactions_def List.map_filter_def split: if_splits)
qed

lemma persist_pending:
  assumes "persist c t = Inr c'"
  shows "pending_transaction c' l = (if l = lane_of t then Some t else pending_transaction c l)"
  using assms
  by (auto simp: persist_def update_governance_transaction_def Let_def lane_of_def
      split: sum.splits option.splits if_splits)

lemma flow_inv_persist:
  assumes "flow_inv X P c" "persist c t = Inr c'" "attempts_ok P t"
  shows "flow_inv X P c'"
  using assms persist_pending [OF assms(2)] by (auto simp: flow_inv_def)

lemma flow_inv_frame:
  assumes "flow_inv X P c" "\<And>l t. pending_transaction c' l = Some t \<Longrightarrow> pending_transaction c l = Some t"
  shows "flow_inv X P c'"
  using assms by (auto simp: flow_inv_def)

lemma attempts_push:
  assumes t: "attempts_ok P t" and e: "e = gt_envelope t" and ss: "ss = gte_signed_transactions e"
    and n: "n = \<lparr> sgt_raw_transaction = raw, sgt_transaction_hash = keccak raw,
      sgt_max_fee_per_gas = gte_max_fee_per_gas e, sgt_max_priority_fee_per_gas = gte_max_priority_fee_per_gas e,
      sgt_generation = g, sgt_signed_at_ns = now \<rparr>"
    and g: "unat g = length ss" "length ss \<le> unat (fp_max_replacements P)"
    and step: "ss \<noteq> [] \<Longrightarrow> attempts_step P (last ss) n"
    and carries: "envelope_sized e \<Longrightarrow> attempt_carries e n"
  shows "attempts_ok P (push_attempt keccak t raw g now)"
proof -
  have p: "push_attempt keccak t raw g now = t \<lparr> gt_envelope := e \<lparr> gte_signed_transactions := ss @ [n] \<rparr>,
      gt_state := GS_SignedAwaitingRelay (keccak raw) g now \<rparr>"
    by (simp add: push_attempt_def Let_def e ss n)
  have "attempts_step P ((ss @ [n]) ! i) ((ss @ [n]) ! Suc i)" if "Suc i < length (ss @ [n])" for i
  proof (cases "Suc i < length ss")
    case True
    then show ?thesis
      using t by (simp add: attempts_ok_def Let_def nth_append e ss)
  next
    case False
    then have "i = length ss - 1" "ss \<noteq> []"
      using that by auto
    then show ?thesis
      using step by (simp add: nth_append last_conv_nth)
  qed
  moreover have "attempt_carries (e \<lparr> gte_signed_transactions := xs \<rparr>) = attempt_carries e"
    "envelope_sized (e \<lparr> gte_signed_transactions := xs \<rparr>) = envelope_sized e" for xs
    by (simp_all add: attempt_carries_def [abs_def] envelope_sized_def)
  ultimately show ?thesis
    using t g carries by (auto simp: p attempts_ok_def Let_def nth_append n less_Suc_eq e ss)
qed

lemma sign_envelope_carries:
  assumes "signature_sized X" "sign_envelope keccak X e awaited = Inr raw" "envelope_sized e"
    and "sgt_raw_transaction n = raw" "sgt_max_fee_per_gas n = gte_max_fee_per_gas e"
    and "sgt_max_priority_fee_per_gas n = gte_max_priority_fee_per_gas e"
  shows "attempt_carries e n"
proof -
  obtain pk sg where "assemble_signed X e (keccak (unsigned_transaction e)) pk sg = Inr raw"
    using assms(2) by (auto simp: sign_envelope_def split: sum.splits prod.splits)
  then show ?thesis
    using read_signed [OF assms(3,1)] assms(4-6) by (fastforce simp: attempt_carries_def)
qed

lemma abort_pending:
  assumes "abort_prepared_governance_transaction_for_emergency c t = Inr c'"
  shows "pending_transaction c' l = (if l = lane_of t then None else pending_transaction c l)"
proof -
  obtain k where k: "abort_kind c (gt_kind t) = Inr k"
    and c': "c' = set_pending_transaction (lane_of t) None (set_completed_transaction (lane_of t) t
      (set_nonce_state (lane_of t) True (nonce_of t) k))"
    using assms
    by (auto simp: abort_prepared_governance_transaction_for_emergency_def Let_def lane_of_def nonce_of_def
        result_simps split: if_splits sum.splits)
  have "pending_transaction k l = pending_transaction c l"
    using k by (auto simp: abort_kind_def split: GovernanceTransactionKind.splits if_splits)
  then show ?thesis
    by (simp add: c')
qed

lemma sign_prepared_inv:
  assumes c: "flow_inv X P c" and s: "sign_prepared keccak X c t awaited authorization now = (r, c')"
  shows "flow_inv X P c'"
proof (cases "r")
  case (Inr t')
  then obtain raw where raw: "sign_envelope keccak X (gt_envelope t) awaited = Inr raw"
    and a: "pending_signature_action t = Inr PS_Sign" and p: "find_pending c (gt_id t) = Inr t"
    and t': "t' = push_attempt keccak t raw 0 now" "persist c t' = Inr c'"
    using s by (auto simp: sign_prepared_def Let_def split: if_splits sum.splits)
  have ok: "attempts_ok P t"
    using c find_pending_ok [OF p] by (auto simp: flow_inv_def)
  have "gte_signed_transactions (gt_envelope t) = []"
    using a by (auto simp: pending_signature_action_def Let_def split: GovernanceTransactionState.splits if_splits)
  then have "attempts_ok P t'"
    unfolding t'(1) using c sign_envelope_carries [OF _ raw]
    by (intro attempts_push [OF ok refl refl refl]) (auto simp: flow_inv_def)
  then show ?thesis
    by (rule flow_inv_persist [OF c t'(2)])
next
  case (Inl e)
  then consider "c' = c" | "abort_prepared_governance_transaction_for_emergency c t = Inr c'"
    using s by (auto simp: sign_prepared_def Let_def split: if_splits sum.splits)
  then show ?thesis
  proof cases
    case 2
    then show ?thesis
      using c abort_pending by (intro flow_inv_frame [OF c]) (auto split: if_splits)
  qed (use c in simp)
qed

lemma replacement_allowed_ok:
  assumes "replacement_allowed P t h fee priority = Inr current"
  shows "gte_signed_transactions (gt_envelope t) \<noteq> []" "current = last (gte_signed_transactions (gt_envelope t))"
    "sgt_generation current < fp_max_replacements P" "gt_state t \<noteq> GS_Prepared"
    "fee \<le> fp_max_fee_per_gas_ceiling P" "priority \<le> fp_max_priority_fee_per_gas_ceiling P"
    "minimum_fee_bump (sgt_max_fee_per_gas current) fee (fp_fee_bump_bps P)"
    "minimum_fee_bump (sgt_max_priority_fee_per_gas current) priority (fp_fee_bump_bps P)"
  using assms by (auto simp: replacement_allowed_def Let_def not_less not_le split: if_splits)

lemma reprice_sel [simp]:
  "gt_id (reprice t fee priority) = gt_id t" "gt_kind (reprice t fee priority) = gt_kind t"
  "gt_state (reprice t fee priority) = gt_state t"
  "gte_signed_transactions (gt_envelope (reprice t fee priority)) = gte_signed_transactions (gt_envelope t)"
  "gte_max_fee_per_gas (gt_envelope (reprice t fee priority)) = fee"
  "gte_max_priority_fee_per_gas (gt_envelope (reprice t fee priority)) = priority"
  "attempt_carries (gt_envelope (reprice t fee priority)) = attempt_carries (gt_envelope t)"
  "envelope_sized (gt_envelope (reprice t fee priority)) = envelope_sized (gt_envelope t)"
  by (simp_all add: reprice_def attempt_carries_def [abs_def] envelope_sized_def)

lemma attempts_reprice: "attempts_ok P (reprice t fee priority) = attempts_ok P t"
  by (simp add: attempts_ok_def Let_def)

lemma attempts_replace:
  assumes x: "signature_sized X" and t: "attempts_ok P t"
    and r: "replacement_allowed P t h fee priority = Inr current"
    and raw: "sign_envelope keccak X (gt_envelope (reprice t fee priority)) awaited = Inr raw"
    and g: "checked_add (sgt_generation current) 1 = Some g"
  shows "attempts_ok P (push_attempt keccak (reprice t fee priority) raw g now)"
proof (rule attempts_push [OF _ refl refl refl])
  note ok = replacement_allowed_ok [OF r]
  let ?ss = "gte_signed_transactions (gt_envelope t)"
  have l: "unat (sgt_generation current) = length ?ss - 1"
    using t ok(1,2) by (simp add: attempts_ok_def Let_def last_conv_nth)
  show "attempts_ok P (reprice t fee priority)"
    using t by (simp add: attempts_reprice)
  show "unat g = length (gte_signed_transactions (gt_envelope (reprice t fee priority)))"
    using g l ok(1) by (simp add: checked_add_eq_Some flip: length_greater_0_conv)
  show "length (gte_signed_transactions (gt_envelope (reprice t fee priority))) \<le> unat (fp_max_replacements P)"
    using ok(1,3) l by (simp add: word_less_nat_alt flip: length_greater_0_conv)
qed (use replacement_allowed_ok [OF r] sign_envelope_carries [OF x raw] in \<open>auto simp: attempts_step_def\<close>)

lemma replacement_inv:
  assumes c: "flow_inv X P c"
    and s: "prepare_replacement keccak X P c oid h fee priority a1 a2 awaited a3 now = (r, c')"
  shows "flow_inv X P c'"
proof (cases r)
  case (Inl e)
  then have "c' = c"
    using s by (auto simp: prepare_replacement_def replacement_commit_def Let_def
        split: sum.splits prod.splits if_splits option.splits)
  then show ?thesis
    using c by simp
next
  case (Inr t')
  then obtain f p t current raw where f: "find_pending c oid = Inr t"
    and a: "replacement_allowed P t h f p = Inr current"
    and raw: "sign_envelope keccak X (gt_envelope (reprice t f p)) awaited = Inr raw"
    and m: "replacement_commit keccak c (reprice t f p) current raw now = (Inr t', c')"
    using s by (auto simp: prepare_replacement_def Let_def try_bind_def split: sum.splits prod.splits if_splits)
  from m obtain g where "checked_add (sgt_generation current) 1 = Some g"
    "t' = push_attempt keccak (reprice t f p) raw g now" "persist c t' = Inr c'"
    by (auto simp: replacement_commit_def Let_def split: sum.splits if_splits option.splits)
  moreover have "attempts_ok P t" "signature_sized X"
    using c find_pending_ok [OF f] by (auto simp: flow_inv_def)
  ultimately show ?thesis
    using flow_inv_persist [OF c] attempts_replace [OF _ _ a raw] by blast
qed

lemma attempts_prepared: "attempts_ok P (flow_transaction P c kind au ph n ch tg cd)"
  by (simp add: attempts_ok_def flow_transaction_def initial_envelope_def Let_def)

lemma flow_step_inv:
  assumes c: "flow_inv X P c" and s: "flow_step keccak X P c call = Inr (r, c')"
  shows "flow_inv X P c'"
proof (cases call)
  case (FL_Initialize lane nonce)
  then show ?thesis
    using s by (intro flow_inv_frame [OF c])
      (auto simp: flow_step_def keep_on_error_def initialize_governance_nonce_for_def case_prod_beta
        split: sum.splits if_splits)
next
  case (FL_Prepare kind au ph n ch tg cd)
  show ?thesis
  proof (cases "prepare_governance_transaction c (flow_transaction P c kind au ph n ch tg cd)")
    case (Inr d)
    then have "c' = d"
      using s FL_Prepare by (simp add: flow_step_def keep_on_error_def)
    then show ?thesis
      using c prepare_ok(5) [OF Inr] attempts_prepared [of P c kind au ph n ch tg cd]
      by (auto simp: flow_inv_def split: if_splits)
  qed (use c s FL_Prepare in \<open>simp add: flow_step_def keep_on_error_def\<close>)
next
  case (FL_Sign t aw au now)
  then show ?thesis
    using s sign_prepared_inv [OF c] by (auto simp: flow_step_def split: prod.splits sum.splits)
next
  case (FL_Replace oid h f p a1 a2 aw a3 now)
  then show ?thesis
    using s replacement_inv [OF c] by (auto simp: flow_step_def split: prod.splits sum.splits)
next
  case (FL_Confirm t h block ok)
  then have "c' = c \<or> (\<exists>t'. apply_governance_completion c t' = Inr c')"
    using s by (auto simp: flow_step_def confirm_receipt_def split: sum.splits)
  then show ?thesis
    using c completion_ok(5) by (auto intro!: flow_inv_frame [OF c] split: if_splits)
next
  case (FL_Abort t)
  then show ?thesis
    using s c abort_pending by (intro flow_inv_frame [OF c])
      (auto simp: flow_step_def keep_on_error_def split: sum.splits if_splits)
next
  case FL_Emergency
  then show ?thesis
    using s by (intro flow_inv_frame [OF c]) (auto simp: flow_step_def enqueue_emergency_base_actions_def)
qed

interpretation flow: record_machine "flow_step keccak X P" "flow_inv X P"
  by unfold_locales (rule flow_step_inv)

text \<open>
  C35.  Over any run of the governance calls the attempts of a pending operation stay disciplined.  There are
  at most one more than the allowed replacements, none before signing, with generations 0, 1, 2 and so on;
  every attempt raises both fees of the one before by at least the required step and stays within the
  ceilings; and every attempt decodes to the operation's own chain, nonce, contract and calldata.
  The signature library's fixed-size encoding is 64 bytes.
\<close>

theorem attempts_disciplined:
  assumes x: "signature_sized X" and none: "\<forall>l. pending_transaction c l = None"
    and t: "pending_transaction (run_events (flow_step keccak X P) c calls) l = Some t"
  shows "let e = gt_envelope t; ss = gte_signed_transactions e in
    length ss \<le> Suc (unat (fp_max_replacements P)) \<and> (gt_state t = GS_Prepared \<longrightarrow> ss = [])
    \<and> map (unat \<circ> sgt_generation) ss = [0..<length ss]
    \<and> (\<forall>i. Suc i < length ss \<longrightarrow>
        minimum_fee_bump (sgt_max_fee_per_gas (ss ! i)) (sgt_max_fee_per_gas (ss ! Suc i)) (fp_fee_bump_bps P)
        \<and> minimum_fee_bump (sgt_max_priority_fee_per_gas (ss ! i)) (sgt_max_priority_fee_per_gas (ss ! Suc i)) (fp_fee_bump_bps P)
        \<and> sgt_max_fee_per_gas (ss ! Suc i) \<le> fp_max_fee_per_gas_ceiling P
        \<and> sgt_max_priority_fee_per_gas (ss ! Suc i) \<le> fp_max_priority_fee_per_gas_ceiling P)
    \<and> (envelope_sized e \<longrightarrow> (\<forall>s \<in> set ss. \<exists>signature. read_transaction (sgt_raw_transaction s) =
        Some ((unat (gte_chain_id e), unat (gte_nonce e), unat (sgt_max_priority_fee_per_gas s),
          unat (sgt_max_fee_per_gas s), unat (gte_gas_limit e), gte_contract e, gte_calldata e), signature)))"
proof -
  have "flow_inv X P c"
    using x none by (simp add: flow_inv_def)
  from flow.run_inv [OF this] t have ok: "attempts_ok P t"
    by (simp add: flow_inv_def)
  then have "map (unat \<circ> sgt_generation) (gte_signed_transactions (gt_envelope t))
      = [0..<length (gte_signed_transactions (gt_envelope t))]"
    by (intro nth_equalityI) (simp_all add: attempts_ok_def Let_def)
  with ok show ?thesis
    by (simp add: attempts_ok_def attempts_step_def attempt_carries_def Let_def)
qed

definition sample_policy :: fee_policy where
  "sample_policy = \<lparr> fp_max_replacements = 2, fp_fee_bump_bps = 1250, fp_max_fee_per_gas_ceiling = 2000,
    fp_max_priority_fee_per_gas_ceiling = 1000, fp_gas_limit_ceiling = 100000 \<rparr>"

definition sample_flow :: GovernanceTransaction where
  "sample_flow = flow_transaction sample_policy sample_control GK_PauseDepositMints None (replicate 32 1) 7
    8453 (replicate 20 7) (replicate 4 9)"

definition sample_signing :: "flow_call list" where
  "sample_signing = [FL_Prepare GK_PauseDepositMints None (replicate 32 1) 7 8453 (replicate 20 7) (replicate 4 9),
    FL_Sign sample_flow (Inr ([1, 2], replicate 64 200)) (Inr ()) 5]"

lemma sample_control_sel:
  "gc_next_governance_operation_id sample_control = 11" "gc_runtime_administrator_nonce_initialized sample_control"
  "gc_pending_runtime_administrator_transaction sample_control = None"
  "gc_pending_governance_transaction sample_control = None"
  "gc_pending_independent_canceller_transaction sample_control = None"
  "gc_next_runtime_administrator_nonce sample_control = 7"
  by (simp_all add: sample_control_def)

lemma sample_flow_sel:
  "gt_id sample_flow = 11" "gt_kind sample_flow = GK_PauseDepositMints" "gt_state sample_flow = GS_Prepared"
  "gte_signed_transactions (gt_envelope sample_flow) = []" "gte_operation_id (gt_envelope sample_flow) = 11"
  "gte_nonce (gt_envelope sample_flow) = 7" "envelope_sized (gt_envelope sample_flow)"
  by (simp_all add: sample_flow_def flow_transaction_def initial_envelope_def Let_def sample_control_sel envelope_sized_def)

lemma sample_signed:
  assumes "assemble_signed sample_ecdsa (gt_envelope sample_flow) [1, 2] [1, 2] (replicate 64 200) = Inr raw"
  shows "pending_transaction (run_events (flow_step (\<lambda>_. [1, 2]) sample_ecdsa sample_policy) sample_control sample_signing)
      Lane_RuntimeAdministrator = Some (push_attempt (\<lambda>_. [1, 2]) sample_flow raw 0 5)"
  using assms sample_flow_sel sample_control_sel
  by (simp add: sample_signing_def sample_flow_def [symmetric] flow_step_def sample_eval keep_on_error_def
      sign_prepared_def sign_envelope_def pending_signature_action_def find_pending_def result_simps
      pending_governance_transactions_def List.map_filter_def dangerous_governance_kind_def persist_def
      update_governance_transaction_def push_attempt_def Let_def)

theorem attempts_disciplined_witness:
  "\<exists>raw signature. pending_transaction
      (run_events (flow_step (\<lambda>_. [1, 2]) sample_ecdsa sample_policy) sample_control sample_signing)
      Lane_RuntimeAdministrator = Some (push_attempt (\<lambda>_. [1, 2]) sample_flow raw 0 5)
    \<and> read_transaction raw = Some (envelope_fields (gt_envelope sample_flow), signature)"
proof -
  obtain raw where "assemble_signed sample_ecdsa (gt_envelope sample_flow) [1, 2] [1, 2] (replicate 64 200) = Inr raw"
    by (simp add: assemble_signed_def recoverable_signature_cases Let_def result_simps)
  note run = sample_signed [OF this]
  have "signature_sized sample_ecdsa" "\<forall>l. pending_transaction sample_control l = None"
    by (simp_all add: signature_sized_def pending_transaction_def sample_control_sel split: GovernanceNonceLane.split)
  from attempts_disciplined [OF this run] run sample_flow_sel show ?thesis
    by (auto simp: Let_def push_attempt_def envelope_sized_def)
qed

end
