(* ===== verification/Governance_Calldata.thy ===== *)
theory Governance_Calldata
  imports Governance_Flow Bridge_Contract
begin

text \<open>
  The calldata of governance transactions (\<open>bridge-canister/src/base_governance.rs\<close>): the encoding of
  every action for the bridge and its timelock, with the salts and operation identifiers of timelock
  batches.

  The theory reads the encodings back by the rules of the contract ABI and shows that a pending
  transaction carries the call of its kind, and that the batch a transaction executes is the batch
  that was scheduled under the same operation identifier.  Keccak is a parameter whose values are 32
  bytes long; the addresses of the next key generation, which the endpoint awaits, are an argument.
\<close>

section \<open>Definitions\<close>

subsection \<open>Words and arrays\<close>

definition selector :: "(bytes \<Rightarrow> bytes) \<Rightarrow> string \<Rightarrow> bytes" where
  "selector keccak signature = take 4 (keccak (string_bytes signature))"

definition word_u128 :: "u128 \<Rightarrow> bytes" where
  "word_u128 value = replicate 16 0 @ u128_to_be_bytes value"

definition word_address :: "bytes \<Rightarrow> bytes" where
  "word_address value = replicate 12 0 @ value"

definition encode_address_array :: "bytes list \<Rightarrow> bytes" where
  "encode_address_array values = word_u128 (word_of_nat (length values))
    @ concat (map (\<lambda>value. replicate 12 0 @ value) values)"

definition encode_u128_array :: "u128 list \<Rightarrow> bytes" where
  "encode_u128_array values = word_u128 (word_of_nat (length values)) @ concat (map word_u128 values)"

definition next_multiple_of_32 :: "nat \<Rightarrow> nat" where
  "next_multiple_of_32 n = (n + 31) div 32 * 32"

definition encode_bytes :: "bytes \<Rightarrow> bytes" where
  "encode_bytes value =
    (let encoded = word_u128 (word_of_nat (length value)) @ value
     in encoded @ replicate (next_multiple_of_32 (length encoded) - length encoded) 0)"

fun offset_words :: "nat \<Rightarrow> bytes list \<Rightarrow> bytes" where
  "offset_words offset [] = []"
| "offset_words offset (value # values) = word_u128 (word_of_nat offset) @ offset_words (offset + length value) values"

definition encode_bytes_array :: "bytes list \<Rightarrow> bytes" where
  "encode_bytes_array values =
    (let encoded_values = map encode_bytes values; head_len = length values * 32
     in word_u128 (word_of_nat (length values)) @ offset_words head_len encoded_values @ concat encoded_values)"

subsection \<open>Timelock batches\<close>

definition ACTIVATION_TIMELOCK_DELAY_SECONDS :: u128 where
  "ACTIVATION_TIMELOCK_DELAY_SECONDS = 24 * 60 * 60"

definition timelock_batch_arguments :: "bytes \<Rightarrow> bytes \<Rightarrow> bytes \<Rightarrow> bytes \<Rightarrow> bool \<Rightarrow> bytes" where
  "timelock_batch_arguments targets values payloads salt include_delay =
    (let head_words = (if include_delay then 6 else 5) :: u128;
         target_len = word_of_nat (length targets); value_len = word_of_nat (length values)
     in word_u128 (head_words * 32) @ word_u128 (head_words * 32 + target_len)
      @ word_u128 (head_words * 32 + target_len + value_len) @ replicate 32 0 @ salt
      @ (if include_delay then word_u128 ACTIVATION_TIMELOCK_DELAY_SECONDS else [])
      @ targets @ values @ payloads)"

definition activation_payloads :: "(bytes \<Rightarrow> bytes) \<Rightarrow> bytes list" where
  "activation_payloads keccak = [selector keccak ''unpauseDepositMints()'', selector keccak ''unpauseWithdrawals()'']"

definition activation_salt :: "(bytes \<Rightarrow> bytes) \<Rightarrow> bytes \<Rightarrow> u64 \<Rightarrow> bytes" where
  "activation_salt keccak deployment_instance_id governance_operation_id =
    keccak (string_bytes ''KINIC_BRIDGE_ACTIVATION_V2'' @ deployment_instance_id
      @ u64_to_be_bytes governance_operation_id)"

definition activation_arguments :: "(bytes \<Rightarrow> bytes) \<Rightarrow> bytes \<Rightarrow> bytes \<Rightarrow> bool \<Rightarrow> bytes" where
  "activation_arguments keccak bridge salt include_delay =
    timelock_batch_arguments (encode_address_array [bridge, bridge]) (encode_u128_array [0, 0])
      (encode_bytes_array (activation_payloads keccak)) salt include_delay"

definition activation_operation_id :: "(bytes \<Rightarrow> bytes) \<Rightarrow> bytes \<Rightarrow> bytes \<Rightarrow> bytes" where
  "activation_operation_id keccak bridge salt = keccak (activation_arguments keccak bridge salt False)"

definition SCHEDULE_BATCH :: string where
  "SCHEDULE_BATCH = ''scheduleBatch(address[],uint256[],bytes[],bytes32,bytes32,uint256)''"

definition EXECUTE_BATCH :: string where
  "EXECUTE_BATCH = ''executeBatch(address[],uint256[],bytes[],bytes32,bytes32)''"

definition schedule_activation_calldata :: "(bytes \<Rightarrow> bytes) \<Rightarrow> bytes \<Rightarrow> bytes \<Rightarrow> bytes" where
  "schedule_activation_calldata keccak bridge salt =
    selector keccak SCHEDULE_BATCH @ activation_arguments keccak bridge salt True"

definition execute_activation_calldata :: "(bytes \<Rightarrow> bytes) \<Rightarrow> bytes \<Rightarrow> bytes \<Rightarrow> bytes" where
  "execute_activation_calldata keccak bridge salt =
    selector keccak EXECUTE_BATCH @ activation_arguments keccak bridge salt False"

definition control_plane_rotation_salt :: "(bytes \<Rightarrow> bytes) \<Rightarrow> bytes \<Rightarrow> u32 \<Rightarrow> bytes" where
  "control_plane_rotation_salt keccak deployment_instance_id generation =
    keccak (string_bytes ''KINIC_CONTROL_PLANE_ROTATION_V1'' @ deployment_instance_id
      @ to_be 4 (unat generation))"

definition rotation_payloads :: "(bytes \<Rightarrow> bytes) \<Rightarrow> ControlPlaneRotation \<Rightarrow> bytes list" where
  "rotation_payloads keccak addresses =
    [selector keccak ''rotateBridgeSigner(address)'' @ word_address (cpr_bridge_signer addresses),
     selector keccak ''rotateRuntimeAdministrator(address)'' @ word_address (cpr_runtime_administrator addresses),
     selector keccak ''rotateOperationalMembers(address,address)''
       @ word_address (cpr_governance_operator addresses) @ word_address (cpr_independent_canceller addresses)]"

definition control_plane_rotation_arguments ::
    "(bytes \<Rightarrow> bytes) \<Rightarrow> bytes \<Rightarrow> bytes \<Rightarrow> bytes \<Rightarrow> ControlPlaneRotation \<Rightarrow> bool \<Rightarrow> bytes" where
  "control_plane_rotation_arguments keccak bridge timelock salt addresses include_delay =
    timelock_batch_arguments (encode_address_array [bridge, bridge, timelock]) (encode_u128_array [0, 0, 0])
      (encode_bytes_array (rotation_payloads keccak addresses)) salt include_delay"

subsection \<open>Actions\<close>

record deployment_config =
  dc_bridge_contract :: bytes
  dc_timelock_contract :: bytes
  dc_deployment_instance_id :: bytes

definition hash32 :: "bytes \<Rightarrow> bytes governance_result" where
  "hash32 value = (if length value = 32 then Inr value else Inl BG_InvalidArgument)"

text \<open>The answer for the addresses of the next generation is \<open>awaited\<close>; a rotation carries the
  generation that the action computed.\<close>

definition encode_action ::
    "(bytes \<Rightarrow> bytes) \<Rightarrow> deployment_config \<Rightarrow> GovernanceControl \<Rightarrow> GovernanceAction \<Rightarrow> u64
      \<Rightarrow> SignerError + ControlPlaneRotation
      \<Rightarrow> (GovernanceTransactionKind \<times> bytes \<times> bytes) governance_result" where
  "encode_action keccak D c action governance_operation_id awaited =
    try_bind (hash32 (dc_deployment_instance_id D)) (\<lambda>deployment_instance_id.
    let bridge = dc_bridge_contract D; timelock = dc_timelock_contract D in
    (case action of
      GA_PauseDepositMints \<Rightarrow> Inr (GK_PauseDepositMints, bridge, selector keccak ''pauseDepositMints()'')
    | GA_PauseWithdrawals \<Rightarrow> Inr (GK_PauseWithdrawals, bridge, selector keccak ''pauseWithdrawals()'')
    | GA_SetServiceFee amount \<Rightarrow>
        try_bind (ok_or BG_InvalidArgument (bounded_nat_u128 amount)) (\<lambda>value.
        Inr (GK_SetServiceFee value, bridge, selector keccak ''setServiceFee(uint256)'' @ word_u128 value))
    | GA_CancelPendingTimelock \<Rightarrow>
        try_bind (ok_or BG_InvalidArgument (gc_pending_timelock_operation c)) (\<lambda>pending.
        Inr (GK_CancelTimelock (pto_operation_id pending), timelock,
          selector keccak ''cancel(bytes32)'' @ pto_operation_id pending))
    | GA_ScheduleActivation \<Rightarrow>
        (let salt = activation_salt keccak deployment_instance_id governance_operation_id
         in Inr (GK_ScheduleActivation (activation_operation_id keccak bridge salt) salt, timelock,
              schedule_activation_calldata keccak bridge salt))
    | GA_ExecuteActivation \<Rightarrow>
        if gc_pending_control_plane_rotation c \<noteq> None then Inl BG_InvalidArgument
        else try_bind (ok_or BG_InvalidArgument (gc_pending_timelock_operation c)) (\<lambda>pending.
          Inr (GK_ExecuteActivation (pto_operation_id pending) (pto_salt pending), timelock,
            execute_activation_calldata keccak bridge (pto_salt pending)))
    | GA_ScheduleControlPlaneRotation \<Rightarrow>
        try_bind (ok_or BG_InvalidArgument (checked_add (gc_control_plane_key_generation c) 1)) (\<lambda>generation.
        (case awaited of
          Inl _ \<Rightarrow> Inl BG_ObservationUnavailable
        | Inr addresses \<Rightarrow>
          (let salt = control_plane_rotation_salt keccak deployment_instance_id generation;
               operation_id = keccak (control_plane_rotation_arguments keccak bridge timelock salt addresses False)
           in Inr (GK_ScheduleControlPlaneRotation operation_id salt (addresses \<lparr> cpr_generation := generation \<rparr>),
                timelock, selector keccak SCHEDULE_BATCH
                  @ control_plane_rotation_arguments keccak bridge timelock salt addresses True))))
    | GA_ExecuteControlPlaneRotation \<Rightarrow>
        try_bind (ok_or BG_InvalidArgument (gc_pending_control_plane_rotation c)) (\<lambda>pending.
        try_bind (ok_or BG_InvalidArgument (gc_pending_timelock_operation c)) (\<lambda>timelock_pending.
        Inr (GK_ExecuteControlPlaneRotation (pto_operation_id timelock_pending) (pto_salt timelock_pending) pending,
          timelock, selector keccak EXECUTE_BATCH
            @ control_plane_rotation_arguments keccak bridge timelock (pto_salt timelock_pending) pending False)))))"

section \<open>The contract ABI\<close>

text \<open>Reading arguments as the ABI of the contracts lays them out: a word is 32 bytes, a dynamic
  argument is an offset from the start of its tuple, an array its length and elements.\<close>

definition read_word :: "bytes \<Rightarrow> nat \<Rightarrow> bytes option" where
  "read_word bs off = (if off + 32 \<le> length bs then Some (take 32 (drop off bs)) else None)"

definition read_uint :: "bytes \<Rightarrow> nat \<Rightarrow> nat option" where
  "read_uint bs off = map_option be_value (read_word bs off)"

fun read_words :: "bytes \<Rightarrow> nat \<Rightarrow> nat \<Rightarrow> bytes list option" where
  "read_words bs off 0 = Some []"
| "read_words bs off (Suc n) = Option.bind (read_word bs off) (\<lambda>w.
    Option.bind (read_words bs (off + 32) n) (\<lambda>ws. Some (w # ws)))"

definition read_word_array :: "bytes \<Rightarrow> nat \<Rightarrow> bytes list option" where
  "read_word_array bs off = Option.bind (read_uint bs off) (read_words bs (off + 32))"

definition read_addresses :: "bytes \<Rightarrow> nat \<Rightarrow> bytes list option" where
  "read_addresses bs off = Option.bind (read_word_array bs off) (\<lambda>ws.
    if list_all (\<lambda>w. take 12 w = replicate 12 0) ws then Some (map (drop 12) ws) else None)"

definition read_bytes :: "bytes \<Rightarrow> nat \<Rightarrow> bytes option" where
  "read_bytes bs off = Option.bind (read_uint bs off) (\<lambda>n.
    if off + 32 + n \<le> length bs then Some (take n (drop (off + 32) bs)) else None)"

definition read_bytes_array :: "bytes \<Rightarrow> nat \<Rightarrow> bytes list option" where
  "read_bytes_array bs off = Option.bind (read_word_array bs off) (\<lambda>ws.
    those (map (\<lambda>w. read_bytes bs (off + 32 + be_value w)) ws))"

record timelock_batch =
  tb_targets :: "bytes list"
  tb_values :: "nat list"
  tb_payloads :: "bytes list"
  tb_predecessor :: bytes
  tb_salt :: bytes

definition read_batch :: "bytes \<Rightarrow> timelock_batch option" where
  "read_batch bs =
    Option.bind (read_uint bs 0) (\<lambda>target_off. Option.bind (read_uint bs 32) (\<lambda>value_off.
    Option.bind (read_uint bs 64) (\<lambda>payload_off. Option.bind (read_word bs 96) (\<lambda>predecessor.
    Option.bind (read_word bs 128) (\<lambda>salt. Option.bind (read_addresses bs target_off) (\<lambda>targets.
    Option.bind (read_word_array bs value_off) (\<lambda>values.
    Option.bind (read_bytes_array bs payload_off) (\<lambda>payloads.
    Some \<lparr> tb_targets = targets, tb_values = map be_value values, tb_payloads = payloads,
      tb_predecessor = predecessor, tb_salt = salt \<rparr>))))))))"

lemma word_u128_facts [simp]: "length (word_u128 v) = 32" "be_value (word_u128 v) = unat v"
  by (simp_all add: word_u128_def be_value_append be_value_replicate_zero)

lemma word_address_length [simp]: "length a = 20 \<Longrightarrow> length (word_address a) = 32"
  by (simp add: word_address_def)

lemma read_word_at [simp]:
  "length w = 32 \<Longrightarrow> read_word (pre @ w @ post) (length pre) = Some w"
  by (simp add: read_word_def)

lemma read_word_offset:
  "length w = 32 \<Longrightarrow> off = length pre \<Longrightarrow> read_word (pre @ w @ post) off = Some w"
  by simp

lemma read_uint_offset:
  "off = length pre \<Longrightarrow> read_uint (pre @ word_u128 v @ post) off = Some (unat v)"
  by (simp add: read_uint_def)

lemma read_words_at:
  "list_all (\<lambda>w. length w = 32) ws \<Longrightarrow> off = length pre
    \<Longrightarrow> read_words (pre @ concat ws @ post) off (length ws) = Some ws"
proof (induction ws arbitrary: pre off)
  case (Cons w ws)
  then have "read_words ((pre @ w) @ concat ws @ post) (off + 32) (length ws) = Some ws"
    by (intro Cons.IH) simp_all
  then show ?case
    using Cons.prems by simp
qed simp

lemma read_word_array_at:
  assumes "list_all (\<lambda>w. length w = 32) ws" "length ws < 2 ^ 128" "off = length pre"
  shows "read_word_array (pre @ word_u128 (word_of_nat (length ws)) @ concat ws @ post) off = Some ws"
proof -
  let ?w = "word_u128 (word_of_nat (length ws))"
  have n: "unat (word_of_nat (length ws) :: u128) = length ws"
    using assms(2) by (intro unat_word_of_nat) simp
  have "read_words ((pre @ ?w) @ concat ws @ post) (off + 32) (length ws) = Some ws"
    using assms by (intro read_words_at) simp_all
  then show ?thesis
    using assms n by (simp add: read_word_array_def read_uint_offset)
qed

lemma read_addresses_at:
  assumes "list_all (\<lambda>a. length a = 20) as" "length as < 2 ^ 128" "off = length pre"
  shows "read_addresses (pre @ encode_address_array as @ post) off = Some as"
proof -
  have "read_word_array (pre @ encode_address_array as @ post) off = Some (map (\<lambda>a. replicate 12 0 @ a) as)"
    using assms read_word_array_at [of "map (\<lambda>a. replicate 12 0 @ a) as" off pre post]
    by (simp add: encode_address_array_def list_all_iff)
  then show ?thesis
    by (simp add: read_addresses_def list_all_iff map_idI)
qed

lemma read_uints_at:
  assumes "length vs < 2 ^ 128" "off = length pre"
  shows "read_word_array (pre @ encode_u128_array vs @ post) off = Some (map word_u128 vs)"
  using assms read_word_array_at [of "map word_u128 vs" off pre post]
  by (simp add: encode_u128_array_def list_all_iff)

lemma encode_bytes_cases:
  obtains pad where "encode_bytes v = word_u128 (word_of_nat (length v)) @ v @ pad"
  by (simp add: encode_bytes_def Let_def)

lemma read_bytes_at:
  assumes "length v < 2 ^ 128" "off = length pre"
  shows "read_bytes (pre @ encode_bytes v @ post) off = Some v"
proof -
  obtain pad where e: "encode_bytes v = word_u128 (word_of_nat (length v)) @ v @ pad"
    by (rule encode_bytes_cases)
  have "unat (word_of_nat (length v) :: u128) = length v"
    using assms(1) by (intro unat_word_of_nat) simp
  then show ?thesis
    using assms(2) by (simp add: e read_bytes_def read_uint_offset)
qed

fun offsets :: "nat \<Rightarrow> bytes list \<Rightarrow> nat list" where
  "offsets off [] = []"
| "offsets off (v # vs) = off # offsets (off + length v) vs"

lemma offset_words_concat: "offset_words off vs = concat (map (\<lambda>k. word_u128 (word_of_nat k)) (offsets off vs))"
  by (induction vs arbitrary: off) simp_all

lemma length_offsets [simp]: "length (offsets off vs) = length vs"
  by (induction vs arbitrary: off) simp_all

lemma offsets_bound: "o' \<in> set (offsets off vs) \<Longrightarrow> o' \<le> off + length (concat vs)"
  by (induction vs arbitrary: off) (auto, fastforce)

lemma read_each_bytes:
  assumes "list_all (\<lambda>v. length v < 2 ^ 128) vs" "base + off = length pre"
  shows "those (map (\<lambda>k. read_bytes (pre @ concat (map encode_bytes vs) @ post) (base + k))
      (offsets off (map encode_bytes vs))) = Some vs"
  using assms
proof (induction vs arbitrary: off pre)
  case (Cons v vs)
  then have "those (map (\<lambda>k. read_bytes ((pre @ encode_bytes v) @ concat (map encode_bytes vs) @ post) (base + k))
      (offsets (off + length (encode_bytes v)) (map encode_bytes vs))) = Some vs"
    by (intro Cons.IH) simp_all
  then show ?case
    using Cons.prems read_bytes_at [of v "base + off" pre "concat (map encode_bytes vs) @ post"] by simp
qed simp

lemma read_bytes_array_at:
  assumes small: "length (concat (map encode_bytes vs)) + 32 * length vs < 2 ^ 128" and off: "off = length pre"
  shows "read_bytes_array (pre @ encode_bytes_array vs @ post) off = Some vs"
proof -
  let ?ev = "map encode_bytes vs"
  let ?os = "offsets (length vs * 32) ?ev"
  let ?ws = "map (\<lambda>k. word_u128 (word_of_nat k)) ?os"
  let ?bs = "pre @ word_u128 (word_of_nat (length vs)) @ concat ?ws @ concat ?ev @ post"
  have bs: "pre @ encode_bytes_array vs @ post = ?bs"
    by (simp add: encode_bytes_array_def offset_words_concat Let_def)
  have "read_word_array ?bs off = Some ?ws"
    using off small read_word_array_at [of ?ws off pre "concat ?ev @ post"] by (simp add: list_all_iff)
  moreover have "be_value (word_u128 (word_of_nat o')) = o'" if "o' \<in> set ?os" for o'
    using offsets_bound [OF that] small by (simp add: unat_word_of_nat)
  then have "map (\<lambda>w. read_bytes ?bs (off + 32 + be_value w)) ?ws = map (\<lambda>k. read_bytes ?bs (off + 32 + k)) ?os"
    by (simp add: comp_def del: word_u128_facts(2))
  moreover have "length v \<le> length (concat ?ev)" if "v \<in> set vs" for v
  proof -
    have "length (encode_bytes v) \<le> length (concat ?ev)"
      using that by (simp add: length_concat member_le_sum_list)
    then show ?thesis
      using encode_bytes_cases [of v] by (metis length_append le_add2 le_add1 le_trans)
  qed
  then have "list_all (\<lambda>v. length v < 2 ^ 128) vs"
    using small by (fastforce simp: list_all_iff)
  then have "those (map (\<lambda>k. read_bytes ((pre @ word_u128 (word_of_nat (length vs)) @ concat ?ws) @ concat ?ev @ post)
      (off + 32 + k)) ?os) = Some vs"
    using off by (intro read_each_bytes) (simp_all add: length_concat comp_def sum_list_triv)
  ultimately show ?thesis
    by (simp only: bs read_bytes_array_def bind.bind_lunit append_assoc)
qed

section \<open>Batches\<close>

definition batch_arguments :: "bytes list \<Rightarrow> u128 list \<Rightarrow> bytes list \<Rightarrow> bytes \<Rightarrow> bool \<Rightarrow> bytes" where
  "batch_arguments targets values payloads salt include_delay =
    timelock_batch_arguments (encode_address_array targets) (encode_u128_array values)
      (encode_bytes_array payloads) salt include_delay"

definition batch_of :: "bytes list \<Rightarrow> u128 list \<Rightarrow> bytes list \<Rightarrow> bytes \<Rightarrow> timelock_batch" where
  "batch_of targets values payloads salt =
    \<lparr> tb_targets = targets, tb_values = map unat values, tb_payloads = payloads,
      tb_predecessor = replicate 32 0, tb_salt = salt \<rparr>"

definition batch_sized :: "bytes list \<Rightarrow> u128 list \<Rightarrow> bytes list \<Rightarrow> bytes \<Rightarrow> bool" where
  "batch_sized targets values payloads salt \<longleftrightarrow>
    list_all (\<lambda>a. length a = 20) targets \<and> length salt = 32
    \<and> length (encode_address_array targets) + length (encode_u128_array values)
      + length (concat (map encode_bytes payloads)) + 32 * length payloads + 192 < 2 ^ 128"

lemma length_encode_address_array:
  "list_all (\<lambda>a. length a = 20) as \<Longrightarrow> length (encode_address_array as) = 32 + 32 * length as"
  by (induction as) (simp_all add: encode_address_array_def)

lemma length_encode_u128_array [simp]: "length (encode_u128_array vs) = 32 + 32 * length vs"
  by (induction vs) (simp_all add: encode_u128_array_def)

lemma read_batch_delay:
  assumes "batch_sized targets values payloads salt"
  shows "read_uint (batch_arguments targets values payloads salt True) 160
    = Some (unat ACTIVATION_TIMELOCK_DELAY_SECONDS)"
  using assms by (simp add: read_uint_def batch_sized_def batch_arguments_def timelock_batch_arguments_def
      Let_def read_word_def)

lemma read_batch_arguments:
  assumes "batch_sized targets values payloads salt"
  shows "read_batch (batch_arguments targets values payloads salt include_delay)
      = Some (batch_of targets values payloads salt)"
proof -
  let ?T = "encode_address_array targets" and ?V = "encode_u128_array values"
  let ?P = "encode_bytes_array payloads"
  define head where "head = (if include_delay then 6 else 5 :: nat)"
  define delay where "delay = (if include_delay then word_u128 ACTIVATION_TIMELOCK_DELAY_SECONDS else [])"
  define w1 w2 w3 :: u128 where "w1 = word_of_nat (head * 32)" and "w2 = word_of_nat (head * 32 + length ?T)"
    and "w3 = word_of_nat (head * 32 + length ?T + length ?V)"
  note words = w1_def w2_def w3_def
  have sized: "length salt = 32" "list_all (\<lambda>a. length a = 20) targets"
      "length (concat (map encode_bytes payloads)) + 32 * length payloads < 2 ^ 128"
      "length ?T + length ?V + 192 < 2 ^ 128"
    using assms by (simp_all add: batch_sized_def)
  have few: "length targets < 2 ^ 128" "length values < 2 ^ 128"
    using sized(4) length_encode_address_array [OF sized(2)] by simp_all
  have h: "head \<le> 6" "length delay = (head - 5) * 32"
    by (simp_all add: head_def delay_def)
  have w: "unat w1 = head * 32" "unat w2 = head * 32 + length ?T" "unat w3 = head * 32 + length ?T + length ?V"
    unfolding words by (rule unat_word_of_nat, use sized(4) h(1) in simp)+
  have bs: "batch_arguments targets values payloads salt include_delay
      = word_u128 w1 @ word_u128 w2 @ word_u128 w3 @ replicate 32 0 @ salt @ delay @ ?T @ ?V @ ?P"
    by (simp add: batch_arguments_def timelock_batch_arguments_def Let_def words head_def delay_def)
  let ?bs = "word_u128 w1 @ word_u128 w2 @ word_u128 w3 @ replicate 32 0 @ salt @ delay @ ?T @ ?V @ ?P"
  have d: "length delay + 160 = head * 32"
    by (simp add: head_def delay_def)
  have "read_uint ?bs 0 = Some (unat w1)"
    using read_uint_offset [of 0 "[]" w1] by simp
  moreover have "read_uint ?bs 32 = Some (unat w2)"
    using read_uint_offset [of 32 "word_u128 w1" w2] by simp
  moreover have "read_uint ?bs 64 = Some (unat w3)"
    using read_uint_offset [of 64 "word_u128 w1 @ word_u128 w2" w3] by simp
  moreover have "read_word ?bs 96 = Some (replicate 32 0)"
    using read_word_offset [of "replicate 32 0" 96 "word_u128 w1 @ word_u128 w2 @ word_u128 w3"] by simp
  moreover have "read_word ?bs 128 = Some salt"
    using sized(1) read_word_offset [of salt 128 "word_u128 w1 @ word_u128 w2 @ word_u128 w3 @ replicate 32 0"] by simp
  moreover have "read_addresses ?bs (unat w1) = Some targets"
    using read_addresses_at [OF sized(2) few(1), of "unat w1"
      "word_u128 w1 @ word_u128 w2 @ word_u128 w3 @ replicate 32 0 @ salt @ delay" "?V @ ?P"] w(1) d sized(1) by simp
  moreover have "read_word_array ?bs (unat w2) = Some (map word_u128 values)"
    using read_uints_at [OF few(2), of "unat w2"
      "word_u128 w1 @ word_u128 w2 @ word_u128 w3 @ replicate 32 0 @ salt @ delay @ ?T" ?P] w(2) d sized(1) by simp
  moreover have "read_bytes_array ?bs (unat w3) = Some payloads"
    using read_bytes_array_at [OF sized(3), of "unat w3"
      "word_u128 w1 @ word_u128 w2 @ word_u128 w3 @ replicate 32 0 @ salt @ delay @ ?T @ ?V" "[]"] w(3) d sized(1) by simp
  ultimately show ?thesis
    by (simp add: bs read_batch_def batch_of_def comp_def)
qed

section \<open>Encoded actions in the store\<close>

text \<open>The controls that governance can reach from one without pending work: actions are encoded for
  the control of the moment, and a transaction is prepared, at any later time, for an action that was
  encoded.\<close>

definition encoded_call ::
    "(GovernanceTransactionKind \<times> bytes \<times> bytes) set \<Rightarrow> flow_call \<Rightarrow> bool" where
  "encoded_call E call = (case call of
      FL_Prepare kind _ _ _ _ target calldata \<Rightarrow> (kind, target, calldata) \<in> E | _ \<Rightarrow> True)"

inductive governed for keccak :: "bytes \<Rightarrow> bytes" and X :: "('k, 'sig) ecdsa" and P :: fee_policy
    and D :: deployment_config where
  governed_start: "\<forall>l. pending_transaction c l = None \<Longrightarrow> gc_pending_timelock_operation c = None
    \<Longrightarrow> governed keccak X P D c {}"
| governed_encode: "governed keccak X P D c E \<Longrightarrow> encode_action keccak D c action oid awaited = Inr e
    \<Longrightarrow> governed keccak X P D c (insert e E)"
| governed_call: "governed keccak X P D c E \<Longrightarrow> encoded_call E call
    \<Longrightarrow> flow_step keccak X P c call = Inr (r, c') \<Longrightarrow> governed keccak X P D c' E"

definition same_call :: "GovernanceTransaction \<Rightarrow> GovernanceTransaction \<Rightarrow> bool" where
  "same_call t t' \<longleftrightarrow> gt_kind t' = gt_kind t
    \<and> gte_contract (gt_envelope t') = gte_contract (gt_envelope t)
    \<and> gte_calldata (gt_envelope t') = gte_calldata (gt_envelope t)"

text \<open>What a call can do to the control.\<close>

definition flow_effect :: "fee_policy \<Rightarrow> flow_call \<Rightarrow> GovernanceControl \<Rightarrow> GovernanceControl \<Rightarrow> bool" where
  "flow_effect P call c c' \<longleftrightarrow> c' = c \<or> c' = enqueue_emergency_base_actions c
    \<or> (\<exists>lane n. initialize_governance_nonce_for c lane n = Inr c')
    \<or> (\<exists>kind au ph n ch tg cd. call = FL_Prepare kind au ph n ch tg cd
        \<and> prepare_governance_transaction c (flow_transaction P c kind au ph n ch tg cd) = Inr c')
    \<or> (\<exists>l t t'. pending_transaction c l = Some t \<and> same_call t t' \<and> persist c t' = Inr c')
    \<or> (\<exists>t. abort_prepared_governance_transaction_for_emergency c t = Inr c')
    \<or> (\<exists>t. apply_governance_completion c t = Inr c')"

lemma same_call_push [simp]:
  "same_call t (push_attempt keccak t raw g now)" "same_call t (push_attempt keccak (reprice t f p) raw g now)"
  by (simp_all add: same_call_def push_attempt_def reprice_def Let_def)

lemma flow_effect_persist:
  assumes "find_pending c oid = Inr t" "same_call t t'" "persist c t' = Inr c'"
  shows "flow_effect P call c c'"
proof -
  obtain l where "pending_transaction c l = Some t"
    using find_pending_ok [OF assms(1)] by auto
  then have "\<exists>l t t'. pending_transaction c l = Some t \<and> same_call t t' \<and> persist c t' = Inr c'"
    using assms(2,3) by (intro exI conjI)
  then show ?thesis
    unfolding flow_effect_def by (simp only: simp_thms)
qed

lemma sign_prepared_effect:
  assumes s: "sign_prepared keccak X c t awaited authorization now = (r, c')"
  shows "flow_effect P call c c'"
proof (cases r)
  case (Inr t')
  then obtain raw where "find_pending c (gt_id t) = Inr t" "persist c (push_attempt keccak t raw 0 now) = Inr c'"
    using s by (auto simp: sign_prepared_def Let_def split: if_splits sum.splits)
  then show ?thesis
    by (intro flow_effect_persist [OF _ same_call_push(1)])
next
  case (Inl e)
  then show ?thesis
    using s by (auto simp: flow_effect_def sign_prepared_def Let_def split: if_splits sum.splits)
qed

lemma replacement_effect:
  assumes s: "prepare_replacement keccak X P c oid h fee priority a1 a2 awaited a3 now = (r, c')"
  shows "flow_effect P call c c'"
proof (cases r)
  case (Inl e)
  then have "c' = c"
    using s by (auto simp: prepare_replacement_def replacement_commit_def Let_def
        split: sum.splits prod.splits if_splits option.splits)
  then show ?thesis
    by (simp add: flow_effect_def)
next
  case (Inr t')
  then obtain t f p raw g where "find_pending c oid = Inr t"
    "persist c (push_attempt keccak (reprice t f p) raw g now) = Inr c'"
    using s by (auto simp: prepare_replacement_def replacement_commit_def Let_def try_bind_def
        split: sum.splits prod.splits if_splits option.splits)
  then show ?thesis
    by (intro flow_effect_persist [OF _ same_call_push(2)])
qed

lemma flow_step_effect:
  assumes s: "flow_step keccak X P c call = Inr (r, c')"
  shows "flow_effect P call c c'"
proof (cases call)
  case (FL_Sign t aw au now)
  then show ?thesis
    using s sign_prepared_effect by (auto simp: flow_step_def split: prod.splits sum.splits)
next
  case (FL_Replace oid h f p a1 a2 aw a3 now)
  then show ?thesis
    using s replacement_effect by (auto simp: flow_step_def split: prod.splits sum.splits)
qed (use s in \<open>auto simp: flow_effect_def flow_step_def keep_on_error_def confirm_receipt_def split: sum.splits\<close>)

section \<open>Bound transactions\<close>

definition keccak_sized :: "(bytes \<Rightarrow> bytes) \<Rightarrow> bool" where
  "keccak_sized keccak \<longleftrightarrow> (\<forall>bs. length (keccak bs) = 32)"

definition rotation_call :: "(bytes \<Rightarrow> bytes) \<Rightarrow> deployment_config \<Rightarrow> bytes \<Rightarrow> ControlPlaneRotation \<Rightarrow> bool \<Rightarrow> bytes" where
  "rotation_call keccak D salt r include_delay =
    control_plane_rotation_arguments keccak (dc_bridge_contract D) (dc_timelock_contract D) salt r include_delay"

definition kind_bound ::
    "(bytes \<Rightarrow> bytes) \<Rightarrow> deployment_config \<Rightarrow> GovernanceTransactionKind \<Rightarrow> bytes \<Rightarrow> bytes \<Rightarrow> bool" where
  "kind_bound keccak D kind target calldata = (case kind of
      GK_PauseDepositMints \<Rightarrow> target = dc_bridge_contract D \<and> calldata = selector keccak ''pauseDepositMints()''
    | GK_PauseWithdrawals \<Rightarrow> target = dc_bridge_contract D \<and> calldata = selector keccak ''pauseWithdrawals()''
    | GK_SetServiceFee value \<Rightarrow> target = dc_bridge_contract D
        \<and> calldata = selector keccak ''setServiceFee(uint256)'' @ word_u128 value
    | GK_CancelTimelock operation_id \<Rightarrow> target = dc_timelock_contract D
        \<and> calldata = selector keccak ''cancel(bytes32)'' @ operation_id
    | GK_ScheduleActivation operation_id salt \<Rightarrow> target = dc_timelock_contract D \<and> length salt = 32
        \<and> operation_id = activation_operation_id keccak (dc_bridge_contract D) salt
        \<and> calldata = schedule_activation_calldata keccak (dc_bridge_contract D) salt
    | GK_ExecuteActivation operation_id salt \<Rightarrow> target = dc_timelock_contract D \<and> length salt = 32
        \<and> operation_id = activation_operation_id keccak (dc_bridge_contract D) salt
        \<and> calldata = execute_activation_calldata keccak (dc_bridge_contract D) salt
    | GK_ScheduleControlPlaneRotation operation_id salt r \<Rightarrow> target = dc_timelock_contract D \<and> length salt = 32
        \<and> operation_id = keccak (rotation_call keccak D salt r False)
        \<and> calldata = selector keccak SCHEDULE_BATCH @ rotation_call keccak D salt r True
    | GK_ExecuteControlPlaneRotation operation_id salt r \<Rightarrow> target = dc_timelock_contract D \<and> length salt = 32
        \<and> operation_id = keccak (rotation_call keccak D salt r False)
        \<and> calldata = selector keccak EXECUTE_BATCH @ rotation_call keccak D salt r False)"

definition timelock_bound :: "(bytes \<Rightarrow> bytes) \<Rightarrow> deployment_config \<Rightarrow> GovernanceControl \<Rightarrow> bool" where
  "timelock_bound keccak D c = (case gc_pending_timelock_operation c of
      None \<Rightarrow> True
    | Some p \<Rightarrow> length (pto_salt p) = 32 \<and> (case gc_pending_control_plane_rotation c of
        None \<Rightarrow> pto_operation_id p = activation_operation_id keccak (dc_bridge_contract D) (pto_salt p)
      | Some r \<Rightarrow> pto_operation_id p = keccak (rotation_call keccak D (pto_salt p) r False)))"

definition pending_bound :: "(bytes \<Rightarrow> bytes) \<Rightarrow> deployment_config \<Rightarrow> GovernanceControl \<Rightarrow> bool" where
  "pending_bound keccak D c \<longleftrightarrow> (\<forall>l t. pending_transaction c l = Some t \<longrightarrow>
    kind_bound keccak D (gt_kind t) (gte_contract (gt_envelope t)) (gte_calldata (gt_envelope t)))"

lemma rotation_call_generation [simp]:
  "rotation_call keccak D salt (r \<lparr> cpr_generation := g \<rparr>) d = rotation_call keccak D salt r d"
  by (simp add: rotation_call_def control_plane_rotation_arguments_def rotation_payloads_def)

lemma encode_action_bound:
  assumes k: "keccak_sized keccak" and t: "timelock_bound keccak D c"
    and e: "encode_action keccak D c action oid awaited = Inr (kind, target, calldata)"
  shows "kind_bound keccak D kind target calldata"
proof -
  have salts: "length (activation_salt keccak d n) = 32" "length (control_plane_rotation_salt keccak d g) = 32" for d n g
    using k by (simp_all add: activation_salt_def control_plane_rotation_salt_def keccak_sized_def)
  show ?thesis
    using t e by (cases action)
      (auto simp: encode_action_def result_simps Let_def kind_bound_def timelock_bound_def salts
        rotation_call_def [symmetric] split: if_splits option.splits sum.splits)
qed

lemma timelock_bound_frame:
  assumes "timelock_bound keccak D c" "gc_pending_timelock_operation c' = gc_pending_timelock_operation c"
    "gc_pending_control_plane_rotation c' = gc_pending_control_plane_rotation c"
  shows "timelock_bound keccak D c'"
  using assms by (simp add: timelock_bound_def cong: option.case_cong)

lemma rotation_setters [simp]:
  "gc_pending_control_plane_rotation (set_nonce_state l b n c) = gc_pending_control_plane_rotation c"
  "gc_pending_control_plane_rotation (set_pending_transaction l t c) = gc_pending_control_plane_rotation c"
  "gc_pending_control_plane_rotation (set_completed_transaction l u c) = gc_pending_control_plane_rotation c"
  by (cases l; simp add: set_nonce_state_def set_pending_transaction_def set_completed_transaction_def)+

lemma timelock_bound_setters [simp]:
  "timelock_bound keccak D (set_nonce_state l b n c) = timelock_bound keccak D c"
  "timelock_bound keccak D (set_pending_transaction l t c) = timelock_bound keccak D c"
  "timelock_bound keccak D (set_completed_transaction l u c) = timelock_bound keccak D c"
  "timelock_bound keccak D (c \<lparr> gc_next_governance_operation_id := n' \<rparr>) = timelock_bound keccak D c"
  "timelock_bound keccak D (c \<lparr> gc_last_confirmed_activation := r \<rparr>) = timelock_bound keccak D c"
  by (simp_all add: timelock_bound_def cong: option.case_cong)

lemma prepare_kind_bound:
  assumes "timelock_bound keccak D c" "kind_bound keccak D kind target calldata" "prepare_kind c kind = Inr c'"
  shows "timelock_bound keccak D c'"
  using assms by (auto simp: prepare_kind_def kind_bound_def timelock_bound_def rotation_call_def
      split: GovernanceTransactionKind.splits if_splits option.splits)

lemma abort_kind_bound:
  assumes "timelock_bound keccak D c" "abort_kind c kind = Inr c'"
  shows "timelock_bound keccak D c'"
  using assms by (auto simp: abort_kind_def timelock_bound_def split: GovernanceTransactionKind.splits if_splits)

lemma completion_effect_bound:
  assumes "timelock_bound keccak D c"
  shows "timelock_bound keccak D (completion_effect kind confirmed reverted c)"
  using assms by (cases kind)
    (auto simp: completion_effect_def timelock_bound_def install_rotation_def cong: option.case_cong)

lemma operations_bound:
  assumes c: "timelock_bound keccak D c"
  shows "initialize_governance_nonce_for c lane n = Inr c1 \<Longrightarrow> timelock_bound keccak D c1"
    "kind_bound keccak D (gt_kind t) tg cd \<Longrightarrow> prepare_governance_transaction c t = Inr c2 \<Longrightarrow> timelock_bound keccak D c2"
    "persist c t = Inr c3 \<Longrightarrow> timelock_bound keccak D c3"
    "abort_prepared_governance_transaction_for_emergency c t = Inr c4 \<Longrightarrow> timelock_bound keccak D c4"
    "apply_governance_completion c t = Inr c5 \<Longrightarrow> timelock_bound keccak D c5"
proof -
  show "initialize_governance_nonce_for c lane n = Inr c1 \<Longrightarrow> timelock_bound keccak D c1"
    using c by (auto simp: initialize_governance_nonce_for_def case_prod_beta split: if_splits)
  show "kind_bound keccak D (gt_kind t) tg cd \<Longrightarrow> prepare_governance_transaction c t = Inr c2 \<Longrightarrow> timelock_bound keccak D c2"
    using prepare_kind_bound [OF c]
    by (auto simp: prepare_governance_transaction_def Let_def case_prod_beta result_simps
        split: if_splits sum.splits option.splits)
  show "persist c t = Inr c3 \<Longrightarrow> timelock_bound keccak D c3"
    using c by (auto simp: persist_def update_governance_transaction_def Let_def split: sum.splits if_splits option.splits)
  show "abort_prepared_governance_transaction_for_emergency c t = Inr c4 \<Longrightarrow> timelock_bound keccak D c4"
    using abort_kind_bound [OF c]
    by (auto simp: abort_prepared_governance_transaction_for_emergency_def Let_def result_simps
        split: if_splits sum.splits)
  show "apply_governance_completion c t = Inr c5 \<Longrightarrow> timelock_bound keccak D c5"
    using c by (cases "confirmed_activation_record t")
      (auto simp: apply_governance_completion_def Let_def result_simps
        intro!: completion_effect_bound split: if_splits option.splits)
qed

lemma pending_bound_frame:
  assumes "pending_bound keccak D c" "\<And>l t. pending_transaction c' l = Some t \<Longrightarrow> pending_transaction c l = Some t"
  shows "pending_bound keccak D c'"
  using assms by (auto simp: pending_bound_def)

lemma flow_effect_bound:
  assumes t: "timelock_bound keccak D c" and p: "pending_bound keccak D c"
    and e: "encoded_call E call" "\<forall>(k, tg, cd) \<in> E. kind_bound keccak D k tg cd"
    and s: "flow_effect P call c c'"
  shows "timelock_bound keccak D c' \<and> pending_bound keccak D c'"
  using s unfolding flow_effect_def
proof (elim disjE exE conjE)
  fix kind au ph n ch tg cd
  assume call: "call = FL_Prepare kind au ph n ch tg cd"
    and r: "prepare_governance_transaction c (flow_transaction P c kind au ph n ch tg cd) = Inr c'"
  let ?t = "flow_transaction P c kind au ph n ch tg cd"
  have k: "kind_bound keccak D (gt_kind ?t) tg cd" "gte_contract (gt_envelope ?t) = tg"
      "gte_calldata (gt_envelope ?t) = cd"
    using e by (auto simp: call encoded_call_def flow_transaction_def initial_envelope_def Let_def)
  then show ?thesis
    using operations_bound(2) [OF t k(1) r] prepare_ok(5) [OF r] p by (auto simp: pending_bound_def)
next
  fix l u u'
  assume u: "pending_transaction c l = Some u" "same_call u u'" and r: "persist c u' = Inr c'"
  then show ?thesis
    using operations_bound(3) [OF t r] persist_pending [OF r] p by (auto simp: pending_bound_def same_call_def)
next
  fix u
  assume "abort_prepared_governance_transaction_for_emergency c u = Inr c'"
  then show ?thesis
    using operations_bound(4) [OF t] abort_pending p by (auto intro: pending_bound_frame split: if_splits)
next
  fix u
  assume "apply_governance_completion c u = Inr c'"
  then show ?thesis
    using operations_bound(5) [OF t] completion_ok(5) p by (auto intro: pending_bound_frame split: if_splits)
next
  fix lane n
  assume i: "initialize_governance_nonce_for c lane n = Inr c'"
  then have "pending_transaction c' l = pending_transaction c l" for l
    by (auto simp: initialize_governance_nonce_for_def case_prod_beta split: if_splits)
  then show ?thesis
    using operations_bound(1) [OF t i] p by (simp add: pending_bound_def)
qed (use t p in \<open>simp_all add: timelock_bound_def pending_bound_def enqueue_emergency_base_actions_def cong: option.case_cong\<close>)

lemma governed_bound:
  assumes k: "keccak_sized keccak" and g: "governed keccak X P D c E"
  shows "timelock_bound keccak D c \<and> pending_bound keccak D c \<and> (\<forall>(k, tg, cd) \<in> E. kind_bound keccak D k tg cd)"
  using g
proof (induction rule: governed.induct)
  case (governed_encode c E action oid awaited e)
  then show ?case
    using encode_action_bound [OF k, of D c action oid awaited] by (cases e) auto
next
  case (governed_call c E call r c')
  then show ?case
    using flow_effect_bound flow_step_effect by blast
qed (simp add: timelock_bound_def pending_bound_def)

section \<open>The calls of pending transactions\<close>

definition deployment_sized :: "deployment_config \<Rightarrow> bool" where
  "deployment_sized D \<longleftrightarrow> length (dc_bridge_contract D) = 20 \<and> length (dc_timelock_contract D) = 20"

definition rotation_sized :: "ControlPlaneRotation \<Rightarrow> bool" where
  "rotation_sized r \<longleftrightarrow> length (cpr_bridge_signer r) = 20 \<and> length (cpr_governance_operator r) = 20
    \<and> length (cpr_runtime_administrator r) = 20 \<and> length (cpr_independent_canceller r) = 20"

text \<open>A batch unpauses deposits and withdrawals of the bridge, or gives the bridge its next signer and
  runtime administrator and the timelock its next members.\<close>

definition activation_batch :: "(bytes \<Rightarrow> bytes) \<Rightarrow> deployment_config \<Rightarrow> bytes \<Rightarrow> timelock_batch" where
  "activation_batch keccak D salt =
    \<lparr> tb_targets = [dc_bridge_contract D, dc_bridge_contract D], tb_values = [0, 0],
      tb_payloads = [selector keccak ''unpauseDepositMints()'', selector keccak ''unpauseWithdrawals()''],
      tb_predecessor = replicate 32 0, tb_salt = salt \<rparr>"

definition rotation_batch ::
    "(bytes \<Rightarrow> bytes) \<Rightarrow> deployment_config \<Rightarrow> bytes \<Rightarrow> ControlPlaneRotation \<Rightarrow> timelock_batch" where
  "rotation_batch keccak D salt r =
    \<lparr> tb_targets = [dc_bridge_contract D, dc_bridge_contract D, dc_timelock_contract D], tb_values = [0, 0, 0],
      tb_payloads =
        [selector keccak ''rotateBridgeSigner(address)'' @ replicate 12 0 @ cpr_bridge_signer r,
         selector keccak ''rotateRuntimeAdministrator(address)'' @ replicate 12 0 @ cpr_runtime_administrator r,
         selector keccak ''rotateOperationalMembers(address,address)'' @ replicate 12 0 @ cpr_governance_operator r
           @ replicate 12 0 @ cpr_independent_canceller r],
      tb_predecessor = replicate 32 0, tb_salt = salt \<rparr>"

lemma selector_length: "keccak_sized keccak \<Longrightarrow> length (selector keccak s) = 4"
  by (simp add: selector_def keccak_sized_def)

lemma length_encode_bytes: "length (encode_bytes v) = next_multiple_of_32 (32 + length v)"
  by (simp add: encode_bytes_def Let_def next_multiple_of_32_def)

lemma read_activation_arguments:
  assumes "keccak_sized keccak" "deployment_sized D" "length salt = 32"
  shows "read_batch (activation_arguments keccak (dc_bridge_contract D) salt d) = Some (activation_batch keccak D salt)"
    "read_uint (activation_arguments keccak (dc_bridge_contract D) salt True) 160 = Some 86400"
proof -
  let ?b = "dc_bridge_contract D"
  have "batch_sized [?b, ?b] [0, 0] (activation_payloads keccak) salt"
    using assms by (simp add: batch_sized_def deployment_sized_def length_encode_address_array
        activation_payloads_def length_encode_bytes next_multiple_of_32_def selector_length)
  from read_batch_arguments [OF this] read_batch_delay [OF this] show
    "read_batch (activation_arguments keccak ?b salt d) = Some (activation_batch keccak D salt)"
    "read_uint (activation_arguments keccak ?b salt True) 160 = Some 86400"
    by (simp_all add: activation_arguments_def batch_arguments_def batch_of_def activation_batch_def
        activation_payloads_def ACTIVATION_TIMELOCK_DELAY_SECONDS_def)
qed

lemma read_rotation_arguments:
  assumes "keccak_sized keccak" "deployment_sized D" "length salt = 32" "rotation_sized r"
  shows "read_batch (rotation_call keccak D salt r d) = Some (rotation_batch keccak D salt r)"
    "read_uint (rotation_call keccak D salt r True) 160 = Some 86400"
proof -
  let ?b = "dc_bridge_contract D" and ?t = "dc_timelock_contract D"
  have "batch_sized [?b, ?b, ?t] [0, 0, 0] (rotation_payloads keccak r) salt"
    using assms by (simp add: batch_sized_def deployment_sized_def rotation_sized_def length_encode_address_array
        rotation_payloads_def length_encode_bytes next_multiple_of_32_def selector_length)
  from read_batch_arguments [OF this] read_batch_delay [OF this] show
    "read_batch (rotation_call keccak D salt r d) = Some (rotation_batch keccak D salt r)"
    "read_uint (rotation_call keccak D salt r True) 160 = Some 86400"
    by (simp_all add: rotation_call_def control_plane_rotation_arguments_def batch_arguments_def batch_of_def
        rotation_batch_def rotation_payloads_def word_address_def ACTIVATION_TIMELOCK_DELAY_SECONDS_def)
qed

text \<open>
  C39.  A pending governance transaction carries the call of its kind.  However encodings, preparations and
  the other calls interleave, its calldata reads back, by the rules of the contract ABI, as the call
  on the configured contract that its kind names.  A scheduled batch has a delay of one day and is
  recorded under the hash of its arguments; an execution carries arguments with exactly the recorded
  hash, so it executes the batch that was scheduled.  Hashes are 32 bytes and addresses 20.
\<close>

theorem pending_calls_bound:
  assumes k: "keccak_sized keccak" and D: "deployment_sized D" and g: "governed keccak X P D c E"
    and t: "pending_transaction c l = Some t"
  shows "let target = gte_contract (gt_envelope t); name = take 4 (gte_calldata (gt_envelope t));
      args = drop 4 (gte_calldata (gt_envelope t)) in
    case gt_kind t of
      GK_PauseDepositMints \<Rightarrow> target = dc_bridge_contract D \<and> name = selector keccak ''pauseDepositMints()'' \<and> args = []
    | GK_PauseWithdrawals \<Rightarrow> target = dc_bridge_contract D \<and> name = selector keccak ''pauseWithdrawals()'' \<and> args = []
    | GK_SetServiceFee value \<Rightarrow> target = dc_bridge_contract D \<and> name = selector keccak ''setServiceFee(uint256)''
        \<and> length args = 32 \<and> be_value args = unat value
    | GK_CancelTimelock operation_id \<Rightarrow> target = dc_timelock_contract D
        \<and> name = selector keccak ''cancel(bytes32)'' \<and> args = operation_id
    | GK_ScheduleActivation operation_id salt \<Rightarrow> target = dc_timelock_contract D
        \<and> name = selector keccak SCHEDULE_BATCH \<and> read_batch args = Some (activation_batch keccak D salt)
        \<and> read_uint args 160 = Some 86400
        \<and> operation_id = keccak (activation_arguments keccak (dc_bridge_contract D) salt False)
    | GK_ExecuteActivation operation_id salt \<Rightarrow> target = dc_timelock_contract D
        \<and> name = selector keccak EXECUTE_BATCH \<and> read_batch args = Some (activation_batch keccak D salt)
        \<and> operation_id = keccak args
    | GK_ScheduleControlPlaneRotation operation_id salt r \<Rightarrow> target = dc_timelock_contract D
        \<and> name = selector keccak SCHEDULE_BATCH
        \<and> (rotation_sized r \<longrightarrow> read_batch args = Some (rotation_batch keccak D salt r)
            \<and> read_uint args 160 = Some 86400)
        \<and> operation_id = keccak (control_plane_rotation_arguments keccak (dc_bridge_contract D)
            (dc_timelock_contract D) salt r False)
    | GK_ExecuteControlPlaneRotation operation_id salt r \<Rightarrow> target = dc_timelock_contract D
        \<and> name = selector keccak EXECUTE_BATCH
        \<and> (rotation_sized r \<longrightarrow> read_batch args = Some (rotation_batch keccak D salt r))
        \<and> operation_id = keccak args"
proof -
  have b: "kind_bound keccak D (gt_kind t) (gte_contract (gt_envelope t)) (gte_calldata (gt_envelope t))"
    using governed_bound [OF k g] t by (simp add: pending_bound_def)
  then show ?thesis
    using read_activation_arguments [OF k D] read_rotation_arguments [OF k D]
    by (cases "gt_kind t") (simp_all add: Let_def kind_bound_def selector_length [OF k]
        schedule_activation_calldata_def execute_activation_calldata_def activation_operation_id_def
        rotation_call_def)
qed

definition sample_config :: deployment_config where
  "sample_config = \<lparr> dc_bridge_contract = replicate 20 7, dc_timelock_contract = replicate 20 8,
    dc_deployment_instance_id = replicate 32 9 \<rparr>"

definition sample_hash :: "bytes \<Rightarrow> bytes" where
  "sample_hash bs = replicate 32 (word_of_nat (length bs))"

definition sample_activation :: "GovernanceTransactionKind \<times> bytes \<times> bytes" where
  "sample_activation = (let salt = activation_salt sample_hash (replicate 32 9) 11 in
    (GK_ScheduleActivation (activation_operation_id sample_hash (replicate 20 7) salt) salt, replicate 20 8,
     schedule_activation_calldata sample_hash (replicate 20 7) salt))"

definition sample_scheduled :: GovernanceTransaction where
  "sample_scheduled = flow_transaction sample_policy sample_control (fst sample_activation) None (replicate 32 1) 5
    8453 (fst (snd sample_activation)) (snd (snd sample_activation))"

lemma sample_governed:
  "\<exists>c. governed sample_hash sample_ecdsa sample_policy sample_config c {sample_activation}
    \<and> pending_transaction c Lane_Governance = Some sample_scheduled"
proof -
  obtain op salt tg cd where e: "sample_activation = (GK_ScheduleActivation op salt, tg, cd)"
    by (simp add: sample_activation_def Let_def)
  have fields: "gc_pending_timelock_operation sample_control = None"
    "gc_pending_control_plane_rotation sample_control = None" "\<forall>l. pending_transaction sample_control l = None"
    "nonce_state sample_control Lane_Governance = (True, 5)" "gc_next_governance_operation_id sample_control = 11"
    by (simp_all add: sample_control_def pending_transaction_def nonce_state_def split: GovernanceNonceLane.split)
  have "encode_action sample_hash sample_config sample_control GA_ScheduleActivation 11 (Inl SE_RecoveryFailed)
      = Inr sample_activation"
    by (simp add: encode_action_def sample_config_def hash32_def result_simps Let_def sample_activation_def)
  from governed_encode [OF governed_start [OF fields(3,1)] this]
  have start: "governed sample_hash sample_ecdsa sample_policy sample_config sample_control {sample_activation}" .
  let ?call = "FL_Prepare (GK_ScheduleActivation op salt) None (replicate 32 1) 5 8453 tg cd"
  have t: "sample_scheduled = flow_transaction sample_policy sample_control (GK_ScheduleActivation op salt) None
      (replicate 32 1) 5 8453 tg cd"
    by (simp add: sample_scheduled_def e)
  have sel: "gt_id sample_scheduled = 11" "gt_kind sample_scheduled = GK_ScheduleActivation op salt"
    "gte_nonce (gt_envelope sample_scheduled) = 5"
    using fields(5) by (simp_all add: t flow_transaction_def initial_envelope_def Let_def)
  obtain c where c: "prepare_governance_transaction sample_control sample_scheduled = Inr c"
    using fields sel by (simp add: prepare_governance_transaction_def prepare_kind_def nonce_lane_def Let_def
        result_simps checked_add_def)
  have "flow_step sample_hash sample_ecdsa sample_policy sample_control ?call = Inr (None, c)"
    using c by (simp add: flow_step_def keep_on_error_def t)
  then have "governed sample_hash sample_ecdsa sample_policy sample_config c {sample_activation}"
    by (intro governed_call [OF start]) (simp_all add: encoded_call_def e)
  moreover have "pending_transaction c Lane_Governance = Some sample_scheduled"
    using prepare_ok(5) [OF c] sel by (simp add: lane_of_def nonce_lane_def)
  ultimately show ?thesis
    by blast
qed

theorem pending_calls_bound_witness:
  "\<exists>c salt. governed sample_hash sample_ecdsa sample_policy sample_config c {sample_activation}
    \<and> pending_transaction c Lane_Governance = Some sample_scheduled
    \<and> read_batch (drop 4 (gte_calldata (gt_envelope sample_scheduled)))
      = Some (activation_batch sample_hash sample_config salt)"
proof -
  obtain c where c: "governed sample_hash sample_ecdsa sample_policy sample_config c {sample_activation}"
    "pending_transaction c Lane_Governance = Some sample_scheduled"
    using sample_governed by blast
  have "keccak_sized sample_hash" "deployment_sized sample_config"
    by (simp_all add: keccak_sized_def sample_hash_def deployment_sized_def sample_config_def)
  from pending_calls_bound [OF this c] c show ?thesis
    by (auto simp: sample_scheduled_def sample_activation_def flow_transaction_def Let_def)
qed

end
