(* ===== verification/Administration.thy ===== *)
theory Administration
  imports Audit_Log Settlement_Jobs External
begin

text \<open>
  Administration and fee payouts (\<open>bridge-canister/src/admin.rs\<close> with the store operations it calls
  from \<open>bridge-canister/src/storage/mod.rs\<close>): pausing deposits, rotating the pause principal and the
  fee recipient, requesting a payout from the fee reserve, and completing or holding one.

  The store is the columns and tables these operations touch.  A store operation reads what it needs,
  prepares the new values and writes them in one transaction; an error leaves the old store.  Values
  are encoded before they are written: an encoding over the blob limit is an error, for the records
  whose encoding has no fixed bound.  The encodings and SHA-256 are library code, the fields of
  \<open>wire\<close>.  An audit failure after the state was written traps, which undoes the call; that is the
  result None.
\<close>

section \<open>Definitions\<close>

record wire =
  w_sha256 :: "bytes \<Rightarrow> bytes"
  w_event :: "AuditEvent \<Rightarrow> bytes"
  w_payout :: "FeePayoutRecord \<Rightarrow> bytes"
  w_scan :: "ReconciliationScanProgress \<Rightarrow> bytes"

record WithdrawalFeeGuard =
  wfg_ledger_fee :: u128
  wfg_charged_service_fee :: u128
  wfg_tripped_at_ns :: u64

record AdminState =
  ad_deposits_paused :: bool
  ad_withdrawal_fee_guard :: "WithdrawalFeeGuard option"
  ad_pause_principal :: bytes
  ad_governance_principal :: bytes
  ad_fee_recipient :: FeeRecipientConfig

datatype AdminError =
    AE_Busy
  | AE_Unauthorized
  | AE_InvalidArgument string
  | AE_StorageFailure
  | AE_InsufficientFeeReserve

type_synonym 'a admin_result = "AdminError + 'a"

record admin_store =
  sto_counters :: CounterState
  sto_accounting :: AccountingState
  sto_admin :: AdminState
  sto_audit :: audit_log
  sto_jobs :: settlement_table
  sto_payouts :: "(u64, FeePayoutRecord) table"
  sto_scans :: "(bytes, ReconciliationScanProgress) table"

datatype FeePayoutTransition = PT_Hold | PT_Failed | PT_Succeeded u128

definition encode_value :: "('a \<Rightarrow> bytes) \<Rightarrow> 'a \<Rightarrow> 'a storage_result" where
  "encode_value enc v = map_result (\<lambda>_. v) (stable_blob_new (enc v))"

definition prepare_store_audit ::
    "wire \<Rightarrow> 'x admin_store_scheme \<Rightarrow> CounterState \<Rightarrow> bytes \<Rightarrow> u64 \<Rightarrow> AuditEventKind list
      \<Rightarrow> (CounterState \<times> PreparedAuditBatch) storage_result" where
  "prepare_store_audit W s counters caller timestamp_ns kinds =
    prepare_audit_batch (w_sha256 W) (w_event W) (sto_audit s) counters caller timestamp_ns kinds"

subsection \<open>Fee payouts in the store\<close>

definition commit_fee_payout_request ::
    "wire \<Rightarrow> 'x admin_store_scheme \<Rightarrow> FeePayoutRecord \<Rightarrow> bytes \<Rightarrow> u64 \<Rightarrow> 'x admin_store_scheme storage_result" where
  "commit_fee_payout_request W s value caller timestamp_ns =
    (let previous_counters = sto_counters s in
     if fpr_state value \<noteq> FP_Pending then Inl (StorageCore ConflictingReplay)
     else if fpr_id value \<noteq> cs_next_fee_payout_id previous_counters
       \<or> tt_rows (sto_payouts s) (fpr_id value) \<noteq> None
     then Inl (StorageCore ConflictingReplay)
     else
       try_bind (ok_or CounterOverflow (checked_add (fpr_id value) 1)) (\<lambda>next_id.
       try_bind (adjust_pending_fee_payout_debit (cs_pending_fee_payout_debit previous_counters) None value)
         (\<lambda>debit.
       try_bind (prepare_store_audit W s
           (previous_counters \<lparr> cs_next_fee_payout_id := next_id, cs_pending_fee_payout_debit := debit \<rparr>)
           caller timestamp_ns [AK_FeePayoutRequested (fpr_amount value)]) (\<lambda>(counters, audit).
       try_bind (encode_value (w_payout W) value) (\<lambda>value_blob.
       from_db (
         try_bind (expect_blob (Some (sto_counters s)) previous_counters ''stale fee payout candidate'') (\<lambda>_.
         try_bind (insert_tracked_entry (sto_payouts s) (fpr_id value) value_blob) (\<lambda>payouts.
         try_bind (enqueue_settlement_job (sto_jobs s) SJ_FeePayout (fee_payout_job_id (fpr_id value)) timestamp_ns)
           (\<lambda>jobs.
         try_bind (commit_audit_batch (sto_audit s) audit) (\<lambda>log.
         Inr (s \<lparr> sto_payouts := payouts, sto_jobs := jobs, sto_audit := log, sto_counters := counters \<rparr>)))))))))))"

definition fee_payout :: "'x admin_store_scheme \<Rightarrow> u64 \<Rightarrow> FeePayoutRecord option" where
  "fee_payout s i = tt_rows (sto_payouts s) i"

definition pending_fee_payout_amount :: "'x admin_store_scheme \<Rightarrow> u128" where
  "pending_fee_payout_amount s = cs_pending_fee_payout_debit (sto_counters s)"

definition reconciliation_scan ::
    "wire \<Rightarrow> 'x admin_store_scheme \<Rightarrow> ReconciliationTarget \<Rightarrow> ReconciliationScanProgress option" where
  "reconciliation_scan W s target = tt_rows (sto_scans s) (reconciliation_scan_key (w_sha256 W) target)"

definition terminal_replay :: "FeePayoutTransition \<Rightarrow> FeePayoutState \<Rightarrow> bool" where
  "terminal_replay transition state = (case (transition, state) of
      (PT_Succeeded block_index, FP_Succeeded previous) \<Rightarrow> block_index = previous
    | (PT_Failed, FP_Failed) \<Rightarrow> True
    | (PT_Hold, FP_ReconciliationHold) \<Rightarrow> True
    | _ \<Rightarrow> False)"

definition next_payout_state :: "FeePayoutTransition \<Rightarrow> FeePayoutState \<Rightarrow> FeePayoutState storage_result" where
  "next_payout_state transition state = (case (transition, state) of
      (PT_Succeeded block_index, FP_Pending) \<Rightarrow> Inr (FP_Succeeded block_index)
    | (PT_Succeeded block_index, FP_ReconciliationHold) \<Rightarrow> Inr (FP_Succeeded block_index)
    | (PT_Failed, FP_Pending) \<Rightarrow> Inr FP_Failed
    | (PT_Failed, FP_ReconciliationHold) \<Rightarrow> Inr FP_Failed
    | (PT_Hold, FP_Pending) \<Rightarrow> Inr FP_ReconciliationHold
    | _ \<Rightarrow> Inl (StorageCore ConflictingReplay))"

definition delete_expected_scan ::
    "(bytes, ReconciliationScanProgress) table \<Rightarrow> bytes \<Rightarrow> ReconciliationScanProgress
      \<Rightarrow> (bytes, ReconciliationScanProgress) table db_result" where
  "delete_expected_scan t key expected =
    try_bind (expect_blob (tt_rows t key) expected ''stale fee payout reconciliation scan'') (\<lambda>_.
    decrement_table_count (t \<lparr> tt_rows := (tt_rows t)(key := None) \<rparr>))"

definition transition_fee_payout ::
    "wire \<Rightarrow> 'x admin_store_scheme \<Rightarrow> u64 \<Rightarrow> FeePayoutTransition \<Rightarrow> ReconciliationTarget option
      \<Rightarrow> 'x admin_store_scheme storage_result" where
  "transition_fee_payout W s i transition scan_target =
    (if (case scan_target of None \<Rightarrow> False | Some target \<Rightarrow> target \<noteq> RT_FeePayout i)
     then Inl (StorageCore ConflictingReplay)
     else
       try_bind (ok_or RecordNotFound (fee_payout s i)) (\<lambda>previous.
       let replay = terminal_replay transition (fpr_state previous) in
       try_bind (if replay then Inr (fpr_state previous)
         else next_payout_state transition (fpr_state previous)) (\<lambda>state.
       let next_record = previous \<lparr> fpr_state := state \<rparr>; previous_counters = sto_counters s;
           previous_accounting = sto_accounting s in
       try_bind (adjust_pending_fee_payout_debit (cs_pending_fee_payout_debit previous_counters)
           (Some previous) next_record) (\<lambda>debit.
       let counters = previous_counters \<lparr> cs_pending_fee_payout_debit := debit \<rparr> in
       try_bind (if \<not> replay \<and> (case transition of PT_Succeeded _ \<Rightarrow> True | _ \<Rightarrow> False)
         then try_bind (fee_payout_debit previous) (\<lambda>d. from_core (spend_fee_reserve previous_accounting d))
         else Inr previous_accounting) (\<lambda>accounting.
       let scan = Option.bind scan_target (reconciliation_scan W s) in
       if scan_target \<noteq> None \<and> scan = None \<and> \<not> replay then Inl RecordNotFound
       else if replay \<and> scan = None then Inr s
       else
         try_bind (encode_value (w_payout W) previous) (\<lambda>previous_blob.
         try_bind (encode_value (w_payout W) next_record) (\<lambda>next_blob.
         from_db (
           try_bind (replace_expected_entry (sto_payouts s) i previous_blob next_blob ''stale fee payout transition'')
             (\<lambda>payouts.
           try_bind (expect_blob (Some (sto_counters s)) previous_counters ''stale fee payout transition'') (\<lambda>_.
           try_bind (expect_blob (Some (sto_accounting s)) previous_accounting ''stale fee payout transition'') (\<lambda>_.
           try_bind (case scan of None \<Rightarrow> Inr (sto_scans s)
             | Some expected \<Rightarrow> delete_expected_scan (sto_scans s)
                 (reconciliation_scan_key (w_sha256 W) (RT_FeePayout i)) expected) (\<lambda>scans.
           Inr (s \<lparr> sto_payouts := payouts, sto_scans := scans, sto_counters := counters,
             sto_accounting := accounting \<rparr>)))))))))))))"

definition complete_fee_payout_success ::
    "wire \<Rightarrow> 'x admin_store_scheme \<Rightarrow> u64 \<Rightarrow> u128 \<Rightarrow> 'x admin_store_scheme storage_result" where
  "complete_fee_payout_success W s i block_index = transition_fee_payout W s i (PT_Succeeded block_index) None"

definition complete_fee_payout_success_and_scan ::
    "wire \<Rightarrow> 'x admin_store_scheme \<Rightarrow> u64 \<Rightarrow> u128 \<Rightarrow> ReconciliationTarget \<Rightarrow> 'x admin_store_scheme storage_result" where
  "complete_fee_payout_success_and_scan W s i block_index scan_target =
    transition_fee_payout W s i (PT_Succeeded block_index) (Some scan_target)"

definition hold_fee_payout ::
    "wire \<Rightarrow> 'x admin_store_scheme \<Rightarrow> u64 \<Rightarrow> 'x admin_store_scheme storage_result" where
  "hold_fee_payout W s i = transition_fee_payout W s i PT_Hold None"

definition complete_fee_payout_failure ::
    "wire \<Rightarrow> 'x admin_store_scheme \<Rightarrow> u64 \<Rightarrow> 'x admin_store_scheme storage_result" where
  "complete_fee_payout_failure W s i = transition_fee_payout W s i PT_Failed None"

definition complete_fee_payout_failure_and_scan ::
    "wire \<Rightarrow> 'x admin_store_scheme \<Rightarrow> u64 \<Rightarrow> ReconciliationTarget \<Rightarrow> 'x admin_store_scheme storage_result" where
  "complete_fee_payout_failure_and_scan W s i scan_target = transition_fee_payout W s i PT_Failed (Some scan_target)"

definition commit_fee_payout_scan ::
    "wire \<Rightarrow> 'x admin_store_scheme \<Rightarrow> ReconciliationScanProgress \<Rightarrow> 'x admin_store_scheme storage_result" where
  "commit_fee_payout_scan W s progress = (case rsp_target progress of
      RT_FeePayout i \<Rightarrow>
        try_bind (ok_or RecordNotFound (fee_payout s i)) (\<lambda>payout.
        if fpr_state payout \<noteq> FP_ReconciliationHold \<or> fpr_transfer payout \<noteq> rsp_transfer progress
        then Inl (StorageCore ConflictingReplay)
        else (case reconciliation_scan W s (rsp_target progress) of
            Some previous \<Rightarrow> if previous = progress then Inr s else Inl (StorageCore ConflictingReplay)
          | None \<Rightarrow>
            try_bind (encode_value (w_payout W) payout) (\<lambda>payout_blob.
            try_bind (encode_value (w_scan W) progress) (\<lambda>progress_blob.
            from_db (
              try_bind (expect_blob (tt_rows (sto_payouts s) i) payout_blob ''stale fee payout scan'') (\<lambda>_.
              try_bind (insert_tracked_entry (sto_scans s)
                (reconciliation_scan_key (w_sha256 W) (rsp_target progress)) progress_blob) (\<lambda>scans.
              Inr (s \<lparr> sto_scans := scans \<rparr>))))))))
    | _ \<Rightarrow> Inl (StorageCore ConflictingReplay))"

definition update_fee_payout_scan ::
    "wire \<Rightarrow> 'x admin_store_scheme \<Rightarrow> ReconciliationScanProgress \<Rightarrow> ReconciliationScanProgress
      \<Rightarrow> 'x admin_store_scheme storage_result" where
  "update_fee_payout_scan W s previous progress =
    (if rsp_target previous \<noteq> rsp_target progress \<or> rsp_transfer previous \<noteq> rsp_transfer progress
     then Inl (StorageCore ConflictingReplay)
     else (case rsp_target previous of
        RT_FeePayout i \<Rightarrow>
          try_bind (ok_or RecordNotFound (fee_payout s i)) (\<lambda>payout.
          if fpr_state payout \<noteq> FP_ReconciliationHold \<or> fpr_transfer payout \<noteq> rsp_transfer previous
            \<or> reconciliation_scan W s (rsp_target previous) \<noteq> Some previous
          then Inl (StorageCore ConflictingReplay)
          else
            try_bind (encode_value (w_payout W) payout) (\<lambda>payout_blob.
            try_bind (encode_value (w_scan W) previous) (\<lambda>previous_blob.
            try_bind (encode_value (w_scan W) progress) (\<lambda>next_blob.
            let key = reconciliation_scan_key (w_sha256 W) (rsp_target previous) in
            from_db (
              try_bind (expect_blob (tt_rows (sto_payouts s) i) payout_blob ''stale fee payout scan progress'') (\<lambda>_.
              try_bind (expect_blob (tt_rows (sto_scans s) key) previous_blob ''stale fee payout scan progress'') (\<lambda>_.
              Inr (s \<lparr> sto_scans := (sto_scans s) \<lparr> tt_rows := (tt_rows (sto_scans s))(key \<mapsto> next_blob) \<rparr> \<rparr>))))))))
      | _ \<Rightarrow> Inl (StorageCore ConflictingReplay)))"

subsection \<open>Administration\<close>

definition anonymous :: bytes where
  "anonymous = [4]"

definition ACTION_PAUSE :: u8 where
  "ACTION_PAUSE = 0"

definition ACTION_RESUME :: u8 where
  "ACTION_RESUME = 1"

definition ACTION_PAYOUT :: u8 where
  "ACTION_PAYOUT = 2"

definition ACTION_ROTATE :: u8 where
  "ACTION_ROTATE = 3"

definition authorized :: "AdminState \<Rightarrow> bytes \<Rightarrow> u8 \<Rightarrow> bool" where
  "authorized state caller action =
    administrator_authorized action (ad_pause_principal state = caller) (ad_governance_principal state = caller)"

definition is_governance :: "'x admin_store_scheme \<Rightarrow> bytes \<Rightarrow> bool" where
  "is_governance s caller = (caller \<noteq> anonymous \<and> ad_governance_principal (sto_admin s) = caller)"

definition mutate ::
    "wire \<Rightarrow> 'x admin_store_scheme \<Rightarrow> bytes \<Rightarrow> u64
      \<Rightarrow> (AdminState \<Rightarrow> (AuditEventKind \<times> AdminState) admin_result)
      \<Rightarrow> (AuditEvent \<times> 'x admin_store_scheme) admin_result option" where
  "mutate W s caller now action = (case action (sto_admin s) of
      Inl e \<Rightarrow> Some (Inl e)
    | Inr (event, state) \<Rightarrow>
        (case append_audit_event_at (w_sha256 W) (w_event W) (sto_audit s) (sto_counters s) caller event now of
          Inl _ \<Rightarrow> None
        | Inr (audit, log, counters) \<Rightarrow>
            Some (Inr (audit, s \<lparr> sto_admin := state, sto_audit := log, sto_counters := counters \<rparr>))))"

definition pause_with_audit ::
    "wire \<Rightarrow> 'x admin_store_scheme \<Rightarrow> bytes \<Rightarrow> u64 \<Rightarrow> (AuditEvent \<times> 'x admin_store_scheme) admin_result option" where
  "pause_with_audit W s caller now = mutate W s caller now (\<lambda>state.
    if \<not> authorized state caller ACTION_PAUSE then Inl AE_Unauthorized
    else if ad_deposits_paused state then Inr (AK_DepositsPauseRepeated, state)
    else Inr (AK_DepositsPaused, state \<lparr> ad_deposits_paused := True \<rparr>))"

definition confirmed_activation_resume_authorized :: "AdminState \<Rightarrow> bytes \<Rightarrow> bool" where
  "confirmed_activation_resume_authorized state caller = authorized state caller ACTION_RESUME"

definition rotate_pause_principal ::
    "wire \<Rightarrow> bytes \<Rightarrow> 'x admin_store_scheme \<Rightarrow> bytes \<Rightarrow> bytes \<Rightarrow> u64
      \<Rightarrow> (AuditEvent \<times> 'x admin_store_scheme) admin_result option" where
  "rotate_pause_principal W confirmation_relayer s caller pause_principal now =
    (if pause_principal = anonymous then Some (Inl (AE_InvalidArgument ''invalid pause principal''))
     else mutate W s caller now (\<lambda>state.
       if \<not> authorized state caller ACTION_ROTATE then Inl AE_Unauthorized
       else if pause_principal = ad_governance_principal state
         \<or> pause_principal = frc_owner (ad_fee_recipient state) \<or> pause_principal = confirmation_relayer
       then Inl (AE_InvalidArgument ''pause principal must not overlap governance, fee recipient, or confirmation relayer'')
       else Inr (AK_PausePrincipalRotated, state \<lparr> ad_pause_principal := pause_principal \<rparr>)))"

definition fee_recipient_digest :: "(bytes \<Rightarrow> bytes) \<Rightarrow> FeeRecipientConfig \<Rightarrow> bytes" where
  "fee_recipient_digest sha256 value =
    sha256 (map of_char ''KINIC-FEE-RECIPIENT'' @ frc_owner value
      @ u64_to_be_bytes (word_of_nat (length (frc_subaccount value))) @ frc_subaccount value)"

definition rotate_fee_recipient_with_audit ::
    "wire \<Rightarrow> 'x admin_store_scheme \<Rightarrow> FeeRecipientConfig \<Rightarrow> bytes \<Rightarrow> u64 \<Rightarrow> bytes \<Rightarrow> bytes
      \<Rightarrow> 'x admin_store_scheme storage_result" where
  "rotate_fee_recipient_with_audit W s next_recipient caller timestamp_ns previous_sha256 current_sha256 =
    try_bind (prepare_store_audit W s (sto_counters s) caller timestamp_ns
        [AK_FeeRecipientRotated previous_sha256 current_sha256]) (\<lambda>(counters, audit).
    from_db (
      try_bind (expect_blob (Some (sto_admin s)) (sto_admin s) ''stale fee recipient rotation'') (\<lambda>_.
      try_bind (expect_blob (Some (sto_counters s)) (sto_counters s) ''stale fee recipient rotation'') (\<lambda>_.
      try_bind (commit_audit_batch (sto_audit s) audit) (\<lambda>log.
      Inr (s \<lparr> sto_admin := (sto_admin s) \<lparr> ad_fee_recipient := next_recipient \<rparr>, sto_audit := log,
        sto_counters := counters \<rparr>))))))"

definition rotate_fee_recipient ::
    "wire \<Rightarrow> bytes \<Rightarrow> 'x admin_store_scheme \<Rightarrow> bytes \<Rightarrow> FeeRecipientConfig \<Rightarrow> u64
      \<Rightarrow> 'x admin_store_scheme admin_result" where
  "rotate_fee_recipient W confirmation_relayer s caller next_recipient now =
    (if frc_owner next_recipient = anonymous
       \<or> \<not> (length (frc_subaccount next_recipient) = 0 \<or> length (frc_subaccount next_recipient) = 32)
     then Inl (AE_InvalidArgument ''invalid fee recipient'')
     else let state = sto_admin s in
       (case fee_recipient_rotation_decision (authorized state caller ACTION_ROTATE)
           (frc_owner next_recipient = anonymous)
           (frc_owner next_recipient = ad_governance_principal state
             \<or> frc_owner next_recipient = ad_pause_principal state
             \<or> frc_owner next_recipient = confirmation_relayer)
           (word_of_nat (length (frc_subaccount next_recipient))) (pending_fee_payout_amount s) of
         FRR_Unauthorized \<Rightarrow> Inl AE_Unauthorized
       | FRR_InvalidInput \<Rightarrow> Inl (AE_InvalidArgument
           ''fee recipient must not overlap governance, pause principal, or confirmation relayer'')
       | FRR_Busy \<Rightarrow> Inl AE_Busy
       | FRR_Allow \<Rightarrow>
           if next_recipient = ad_fee_recipient state then Inr s
           else (case rotate_fee_recipient_with_audit W s next_recipient caller now
                 (fee_recipient_digest (w_sha256 W) (ad_fee_recipient state))
                 (fee_recipient_digest (w_sha256 W) next_recipient) of
               Inl _ \<Rightarrow> Inl AE_StorageFailure | Inr s' \<Rightarrow> Inr s')))"

subsection \<open>Requesting a payout\<close>

definition KINIC_LEDGER_FEE :: Amount where
  "KINIC_LEDGER_FEE = 100000"

definition fee_payout_transfer ::
    "wire \<Rightarrow> bytes \<Rightarrow> u64 \<Rightarrow> FeeRecipientConfig \<Rightarrow> u128 \<Rightarrow> u64 \<Rightarrow> LedgerTransferIdentity admin_result" where
  "fee_payout_transfer W canister i recipient amount created_at_time_ns =
    try_bind (if frc_subaccount recipient = [] then Inr (replicate 32 0)
      else if length (frc_subaccount recipient) = 32 then Inr (frc_subaccount recipient)
      else Inl (AE_InvalidArgument ''invalid subaccount'')) (\<lambda>subaccount.
    try_bind (case account_new canister (replicate 32 0) of
        Inl _ \<Rightarrow> Inl AE_StorageFailure | Inr a \<Rightarrow> Inr a) (\<lambda>source.
    try_bind (case account_new (frc_owner recipient) subaccount of
        Inl _ \<Rightarrow> Inl (AE_InvalidArgument ''invalid recipient'') | Inr a \<Rightarrow> Inr a) (\<lambda>target.
    Inr \<lparr> lt_operation = FeePayout, lt_created_at_time_ns = created_at_time_ns,
      lt_memo = w_sha256 W (map of_char ''KINIC-FEE-PAYOUT'' @ u64_to_be_bytes i),
      lt_amount = amount, lt_fee = KINIC_LEDGER_FEE, lt_from = source, lt_to = target, lt_spender = None \<rparr>)))"

definition request_fee_payout ::
    "wire \<Rightarrow> bytes \<Rightarrow> 'x admin_store_scheme \<Rightarrow> bytes \<Rightarrow> nat \<Rightarrow> u64
      \<Rightarrow> (FeePayoutRecord \<times> 'x admin_store_scheme) admin_result" where
  "request_fee_payout W canister s caller requested now =
    (let admin = sto_admin s in
     if \<not> authorized admin caller ACTION_PAYOUT then Inl AE_Unauthorized
     else
       try_bind (ok_or (AE_InvalidArgument ''amount exceeds u128'') (bounded_nat_u128 requested)) (\<lambda>amount.
       if amount = 0 then Inl (AE_InvalidArgument ''amount must be nonzero'')
       else
         try_bind (ok_or AE_InsufficientFeeReserve (payout_decision (as_fee_reserve (sto_accounting s))
           (pending_fee_payout_amount s) amount KINIC_LEDGER_FEE True)) (\<lambda>payout.
         try_bind (ok_or AE_InsufficientFeeReserve (checked_sub (pd_debit payout) KINIC_LEDGER_FEE)) (\<lambda>payout_amount.
         let i = cs_next_fee_payout_id (sto_counters s) in
         try_bind (fee_payout_transfer W canister i (ad_fee_recipient admin) payout_amount now) (\<lambda>transfer.
         let record = \<lparr> fpr_id = i, fpr_amount = payout_amount, fpr_recipient = ad_fee_recipient admin,
           fpr_transfer = transfer, fpr_state = FP_Pending \<rparr> in
         (case commit_fee_payout_request W s record caller now of
           Inl _ \<Rightarrow> Inl AE_StorageFailure
         | Inr s' \<Rightarrow> Inr (record, s')))))))"

subsection \<open>Status and proposals\<close>

record FeeStatus =
  fs_fee_reserve :: u128
  fs_pending_payout_debit :: u128
  fs_ledger_fee :: u128
  fs_max_payout_amount :: u128
  fs_fee_recipient :: FeeRecipientConfig
  fs_next_fee_payout_id :: u64

record FeePayoutView =
  fpv_id :: u64
  fpv_amount :: u128
  fpv_recipient :: FeeRecipientConfig
  fpv_ledger_fee :: u128
  fpv_state :: FeePayoutState

record SnsFeePayoutProposal =
  sfp_payout_id :: u64
  sfp_amount :: nat
  sfp_recipient :: FeeRecipientConfig

definition fee_status :: "'x admin_store_scheme \<Rightarrow> FeeStatus admin_result" where
  "fee_status s =
    (let reserve = as_fee_reserve (sto_accounting s); pending = pending_fee_payout_amount s in
     if reserve < pending then Inl AE_StorageFailure
     else Inr \<lparr> fs_fee_reserve = reserve, fs_pending_payout_debit = pending, fs_ledger_fee = KINIC_LEDGER_FEE,
       fs_max_payout_amount = fee_payout_capacity reserve pending KINIC_LEDGER_FEE,
       fs_fee_recipient = ad_fee_recipient (sto_admin s),
       fs_next_fee_payout_id = cs_next_fee_payout_id (sto_counters s) \<rparr>)"

definition fee_payout_view :: "'x admin_store_scheme \<Rightarrow> u64 \<Rightarrow> FeePayoutView option" where
  "fee_payout_view s i = map_option (\<lambda>r. \<lparr> fpv_id = fpr_id r, fpv_amount = fpr_amount r,
    fpv_recipient = fpr_recipient r, fpv_ledger_fee = lt_fee (fpr_transfer r), fpv_state = fpr_state r \<rparr>)
    (fee_payout s i)"

definition check_sns_fee_identity ::
    "'x admin_store_scheme \<Rightarrow> SnsFeePayoutProposal \<Rightarrow> bool \<Rightarrow> bool \<Rightarrow> bool \<Rightarrow> FeePayoutView option admin_result" where
  "check_sns_fee_identity s proposal governance operational continuation =
    try_bind (ok_or (AE_InvalidArgument ''amount exceeds u128'') (bounded_nat_u128 (sfp_amount proposal))) (\<lambda>amount.
    let existing = fee_payout_view s (sfp_payout_id proposal) in
    try_bind (fee_status s) (\<lambda>status.
    let recipient_matches = (case existing of
          None \<Rightarrow> fs_fee_recipient status = sfp_recipient proposal
        | Some r \<Rightarrow> fpv_recipient r = sfp_recipient proposal);
        identity_matches = (case existing of
          None \<Rightarrow> \<not> continuation \<and> sfp_payout_id proposal = fs_next_fee_payout_id status
        | Some r \<Rightarrow> unat (fpv_amount r) = sfp_amount proposal) in
    if \<not> sns_fee_payout_authorized governance operational (0 < amount) recipient_matches identity_matches
    then Inl (if \<not> governance then AE_Unauthorized
      else AE_InvalidArgument ''proposal does not match current payout identity or lifecycle'')
    else if existing = None \<and> unat (fs_max_payout_amount status) < sfp_amount proposal
    then Inl AE_InsufficientFeeReserve
    else if continuation \<and> map_option fpv_state existing = Some FP_Failed
    then Inl (AE_InvalidArgument ''payout has permanently failed'')
    else Inr existing))"

section \<open>Payouts and the fee reserve\<close>

definition paid_debit :: "FeePayoutRecord \<Rightarrow> nat" where
  "paid_debit p = (case fpr_state p of
      FP_Succeeded _ \<Rightarrow> unat (fpr_amount p) + unat (lt_fee (fpr_transfer p)) | _ \<Rightarrow> 0)"

text \<open>The counter is the total of the pending payouts, the reserve covers it, and what was paid out is
  what the confirmed fees exceed the reserve by.  A pending payout goes to the current recipient.\<close>

definition payouts_wf :: "'x admin_store_scheme \<Rightarrow> bool" where
  "payouts_wf s \<longleftrightarrow>
    (let rows = tt_rows (sto_payouts s); a = sto_accounting s in
      tracked_wf (sto_payouts s)
      \<and> unat (pending_fee_payout_amount s) = rows_sum pending_debit rows
      \<and> rows_sum pending_debit rows \<le> unat (as_fee_reserve a)
      \<and> unat (as_fee_reserve a) + rows_sum paid_debit rows
        = unat (as_confirmed_deposit_fees a) + unat (as_confirmed_withdrawal_fees a)
      \<and> (\<forall>i p. rows i = Some p \<longrightarrow> fpr_id p = i \<and> 0 < fpr_amount p
          \<and> (is_pending_fee_payout p \<longrightarrow> fpr_recipient p = ad_fee_recipient (sto_admin s))))"

lemma payouts_wfD:
  assumes "payouts_wf s"
  shows "tracked_wf (sto_payouts s)" "finite (dom (tt_rows (sto_payouts s)))"
    "unat (pending_fee_payout_amount s) = rows_sum pending_debit (tt_rows (sto_payouts s))"
    "rows_sum pending_debit (tt_rows (sto_payouts s)) \<le> unat (as_fee_reserve (sto_accounting s))"
    "unat (as_fee_reserve (sto_accounting s)) + rows_sum paid_debit (tt_rows (sto_payouts s))
      = unat (as_confirmed_deposit_fees (sto_accounting s)) + unat (as_confirmed_withdrawal_fees (sto_accounting s))"
    "fee_payout s i = Some p \<Longrightarrow> fpr_id p = i \<and> 0 < fpr_amount p"
    "fee_payout s i = Some p \<Longrightarrow> is_pending_fee_payout p \<Longrightarrow> fpr_recipient p = ad_fee_recipient (sto_admin s)"
  using assms by (auto simp: payouts_wf_def Let_def tracked_wf_def fee_payout_def)

lemma prepare_store_audit_counters:
  assumes "prepare_store_audit W s c caller ts kinds = Inr (c', audit)"
  shows "cs_next_fee_payout_id c' = cs_next_fee_payout_id c"
    "cs_pending_fee_payout_debit c' = cs_pending_fee_payout_debit c"
  using assms by (auto simp: prepare_store_audit_def prepare_audit_batch_def Let_def result_simps
      split: if_splits sum.splits prod.splits)

lemma append_event_counters:
  assumes "append_audit_event_at sha enc log c caller kind ts = Inr (e, log', c')"
  shows "cs_next_fee_payout_id c' = cs_next_fee_payout_id c"
    "cs_pending_fee_payout_debit c' = cs_pending_fee_payout_debit c"
  using assms by (auto simp: append_audit_event_at_def Let_def result_simps split: if_splits sum.splits prod.splits)

lemma expect_same [simp]: "expect_blob (Some v) v e = Inr ()"
  by (simp add: expect_blob_def)

lemma encode_value_Inr [result_simps]:
  "encode_value enc v = Inr v' \<longleftrightarrow> v' = v \<and> length (enc v) \<le> MAX_STABLE_VALUE_BYTES"
  by (auto simp: encode_value_def stable_blob_new_def map_result_def)

lemma commit_request_ok:
  assumes "commit_fee_payout_request W s v caller ts = Inr s'"
  obtains payouts debit where "fpr_state v = FP_Pending" "fpr_id v = cs_next_fee_payout_id (sto_counters s)"
    "adjust_pending_fee_payout_debit (pending_fee_payout_amount s) None v = Inr debit"
    "insert_tracked_entry (sto_payouts s) (fpr_id v) v = Inr payouts" "sto_payouts s' = payouts"
    "pending_fee_payout_amount s' = debit" "sto_accounting s' = sto_accounting s" "sto_admin s' = sto_admin s"
    "sto_scans s' = sto_scans s"
proof -
  obtain n debit counters audit payouts jobs log where v: "fpr_state v = FP_Pending"
      "fpr_id v = cs_next_fee_payout_id (sto_counters s)"
      "adjust_pending_fee_payout_debit (pending_fee_payout_amount s) None v = Inr debit"
      "insert_tracked_entry (sto_payouts s) (fpr_id v) v = Inr payouts"
    and a: "prepare_store_audit W s (sto_counters s \<lparr> cs_next_fee_payout_id := n, cs_pending_fee_payout_debit := debit \<rparr>)
        caller ts [AK_FeePayoutRequested (fpr_amount v)] = Inr (counters, audit)"
    and s': "s' = s \<lparr> sto_payouts := payouts, sto_jobs := jobs, sto_audit := log, sto_counters := counters \<rparr>"
    using assms by (auto simp: commit_fee_payout_request_def Let_def result_simps from_db_eq_Inr
        pending_fee_payout_amount_def split: if_splits)
  show thesis
    using that [OF v] prepare_store_audit_counters(2) [OF a] by (simp add: s' pending_fee_payout_amount_def)
qed

lemma pending_positive: "is_pending_fee_payout p \<Longrightarrow> 0 < fpr_amount p \<Longrightarrow> 0 < pending_debit p"
  by (simp add: pending_debit_def word_less_nat_alt)

lemma map_err_eq_Inr [result_simps]:
  "(case r of Inl _ \<Rightarrow> Inl e | Inr x \<Rightarrow> Inr (f x)) = Inr y \<longleftrightarrow> (\<exists>x. r = Inr x \<and> y = f x)"
  by (cases r) auto

lemma payout_transfer_ok:
  assumes "fee_payout_transfer W canister i recipient amount now = Inr t"
  shows "lt_fee t = KINIC_LEDGER_FEE" "lt_amount t = amount"
  using assms by (auto simp: fee_payout_transfer_def result_simps)

lemma request_ok:
  assumes "request_fee_payout W canister s caller requested now = Inr (v, s')"
  shows "authorized (sto_admin s) caller ACTION_PAYOUT" "unat (fpr_amount v) = requested" "0 < requested"
    "lt_fee (fpr_transfer v) = KINIC_LEDGER_FEE" "lt_amount (fpr_transfer v) = fpr_amount v"
    "fpr_recipient v = ad_fee_recipient (sto_admin s)"
    "unat (pending_fee_payout_amount s) + requested + unat KINIC_LEDGER_FEE \<le> unat (as_fee_reserve (sto_accounting s))"
    "commit_fee_payout_request W s v caller now = Inr s'"
proof -
  obtain amount payout where a: "bounded_nat_u128 requested = Some amount" "amount \<noteq> 0"
    and pd: "payout_decision (as_fee_reserve (sto_accounting s)) (pending_fee_payout_amount s) amount
      KINIC_LEDGER_FEE True = Some payout"
    and sub: "checked_sub (pd_debit payout) KINIC_LEDGER_FEE = Some (fpr_amount v)"
    and rest: "authorized (sto_admin s) caller ACTION_PAYOUT" "fpr_recipient v = ad_fee_recipient (sto_admin s)"
      "commit_fee_payout_request W s v caller now = Inr s'"
      "lt_fee (fpr_transfer v) = KINIC_LEDGER_FEE" "lt_amount (fpr_transfer v) = fpr_amount v"
    using assms payout_transfer_ok
    by (auto simp: request_fee_payout_def Let_def result_simps split: if_splits)
  have allowed: "payout_allowed (as_fee_reserve (sto_accounting s)) (pending_fee_payout_amount s) amount KINIC_LEDGER_FEE"
    and debit: "payout_debit True amount KINIC_LEDGER_FEE = Some (pd_debit payout)"
    using pd by (auto simp: payout_decision_exact PayoutDecision.make_def split: if_splits)
  have n: "unat amount = requested" "0 < requested"
    using a by (auto simp: bounded_nat_u128_def unat_word_of_nat intro: gr0I split: if_splits)
  have "unat (pd_debit payout) = unat amount + unat KINIC_LEDGER_FEE"
    using debit unat_add_exact [of amount KINIC_LEDGER_FEE]
    by (auto simp: payout_debit_def max_minus_less split: if_splits)
  then have "unat (fpr_amount v) = requested"
    using sub n by (simp add: checked_sub_eq_Some)
  then show "authorized (sto_admin s) caller ACTION_PAYOUT" "unat (fpr_amount v) = requested" "0 < requested"
    "lt_fee (fpr_transfer v) = KINIC_LEDGER_FEE" "lt_amount (fpr_transfer v) = fpr_amount v"
    "fpr_recipient v = ad_fee_recipient (sto_admin s)"
    "unat (pending_fee_payout_amount s) + requested + unat KINIC_LEDGER_FEE \<le> unat (as_fee_reserve (sto_accounting s))"
    "commit_fee_payout_request W s v caller now = Inr s'"
    using rest n allowed by (simp_all add: payout_allowed_exact)
qed

lemma next_payout_state_cases:
  assumes "next_payout_state tr st = Inr st'"
  shows "st = FP_Pending \<or> st = FP_ReconciliationHold"
    "st' = (case tr of PT_Hold \<Rightarrow> FP_ReconciliationHold | PT_Failed \<Rightarrow> FP_Failed | PT_Succeeded b \<Rightarrow> FP_Succeeded b)"
  using assms by (auto simp: next_payout_state_def split: FeePayoutTransition.splits FeePayoutState.splits)

text \<open>An accepted transition leaves the payouts as they are, or moves a pending one on and spends its
  debit if it succeeded.\<close>

lemma transition_ok:
  assumes "transition_fee_payout W s i tr scan = Inr s'"
  obtains p where "fee_payout s i = Some p" "terminal_replay tr (fpr_state p)"
      "tt_rows (sto_payouts s') = tt_rows (sto_payouts s)" "tracked_wf (sto_payouts s) \<longrightarrow> tracked_wf (sto_payouts s')"
      "adjust_pending_fee_payout_debit (pending_fee_payout_amount s) (Some p) p = Inr (pending_fee_payout_amount s')
        \<or> pending_fee_payout_amount s' = pending_fee_payout_amount s"
      "sto_accounting s' = sto_accounting s" "sto_admin s' = sto_admin s"
  | p st where "fee_payout s i = Some p" "next_payout_state tr (fpr_state p) = Inr st"
      "\<not> terminal_replay tr (fpr_state p)"
      "tt_rows (sto_payouts s') = (tt_rows (sto_payouts s))(i \<mapsto> p \<lparr> fpr_state := st \<rparr>)"
      "tracked_wf (sto_payouts s) \<longrightarrow> tracked_wf (sto_payouts s')"
      "adjust_pending_fee_payout_debit (pending_fee_payout_amount s) (Some p) (p \<lparr> fpr_state := st \<rparr>)
        = Inr (pending_fee_payout_amount s')"
      "if (case tr of PT_Succeeded _ \<Rightarrow> True | _ \<Rightarrow> False)
       then \<exists>d. fee_payout_debit p = Inr d \<and> spend_fee_reserve (sto_accounting s) d = Inr (sto_accounting s')
       else sto_accounting s' = sto_accounting s" "sto_admin s' = sto_admin s"
proof -
  have wf: "tracked_wf (sto_payouts s) \<longrightarrow> tracked_wf t" if "replace_expected_entry (sto_payouts s) i a b e = Inr t" for a b e t
    using that by (auto simp: replace_expected_entry_def tracked_wf_def result_simps expect_blob_def domIff
        insert_absorb split: option.splits if_splits)
  have rows: "tt_rows t = (tt_rows (sto_payouts s))(i \<mapsto> b)"
    if "replace_expected_entry (sto_payouts s) i a b e = Inr t" for a b e t
    using that by (auto simp: replace_expected_entry_def result_simps)
  obtain p where p: "fee_payout s i = Some p"
    using assms by (auto simp: transition_fee_payout_def result_simps split: if_splits)
  show thesis
  proof (cases "terminal_replay tr (fpr_state p)")
    case True
    have "(tt_rows (sto_payouts s))(i \<mapsto> p) = tt_rows (sto_payouts s)"
      using p by (auto simp: fee_payout_def)
    then show thesis
      using assms True p wf rows
      by (intro that(1)) (auto simp: transition_fee_payout_def Let_def result_simps from_db_eq_Inr
          pending_fee_payout_amount_def split: if_splits)
  next
    case False
    then show thesis
      using assms p wf rows
      by (auto simp: transition_fee_payout_def Let_def result_simps from_db_eq_Inr from_core_eq_Inr
          pending_fee_payout_amount_def intro!: that(2) split: if_splits)
  qed
qed

section \<open>Sequences of calls\<close>

text \<open>The calls that touch payouts, the reserve or the roles.  Fees are confirmed by the settlements; a
  failed call, or one that traps, leaves the store as it was.\<close>

datatype admin_call =
    AC_Request bytes nat u64
  | AC_Transition u64 FeePayoutTransition "ReconciliationTarget option"
  | AC_CommitScan ReconciliationScanProgress
  | AC_UpdateScan ReconciliationScanProgress ReconciliationScanProgress
  | AC_ConfirmFee FeeKind Amount
  | AC_RotateRecipient bytes FeeRecipientConfig u64
  | AC_RotatePause bytes bytes u64
  | AC_Pause bytes u64

definition committed :: "'e + 's \<Rightarrow> unit + unit \<times> 's" where
  "committed r = (case r of Inl _ \<Rightarrow> Inl () | Inr s \<Rightarrow> Inr ((), s))"

definition admin_step ::
    "wire \<Rightarrow> bytes \<Rightarrow> bytes \<Rightarrow> ('x admin_store_scheme, admin_call, unit, unit) machine" where
  "admin_step W canister relayer s call = committed (case call of
      AC_Request caller amount now \<Rightarrow> map_result snd (request_fee_payout W canister s caller amount now)
    | AC_Transition i tr scan \<Rightarrow> (case transition_fee_payout W s i tr scan of
        Inl _ \<Rightarrow> Inl AE_StorageFailure | Inr s' \<Rightarrow> Inr s')
    | AC_CommitScan p \<Rightarrow> (case commit_fee_payout_scan W s p of Inl _ \<Rightarrow> Inl AE_StorageFailure | Inr s' \<Rightarrow> Inr s')
    | AC_UpdateScan p q \<Rightarrow> (case update_fee_payout_scan W s p q of Inl _ \<Rightarrow> Inl AE_StorageFailure | Inr s' \<Rightarrow> Inr s')
    | AC_ConfirmFee kind amount \<Rightarrow> (case confirm_fee (sto_accounting s) kind amount of
        Inl _ \<Rightarrow> Inl AE_StorageFailure | Inr a \<Rightarrow> Inr (s \<lparr> sto_accounting := a \<rparr>))
    | AC_RotateRecipient caller recipient now \<Rightarrow> rotate_fee_recipient W relayer s caller recipient now
    | AC_RotatePause caller pause now \<Rightarrow>
        (case rotate_pause_principal W relayer s caller pause now of
          None \<Rightarrow> Inl AE_StorageFailure | Some r \<Rightarrow> map_result snd r)
    | AC_Pause caller now \<Rightarrow>
        (case pause_with_audit W s caller now of None \<Rightarrow> Inl AE_StorageFailure | Some r \<Rightarrow> map_result snd r))"

lemma committed_Inr [simp]: "committed r = Inr (u, s') \<longleftrightarrow> r = Inr s'"
  by (cases r) (simp_all add: committed_def)

definition roles_separate :: "bytes \<Rightarrow> AdminState \<Rightarrow> bool" where
  "roles_separate relayer a \<longleftrightarrow> distinct [ad_pause_principal a, ad_governance_principal a,
    frc_owner (ad_fee_recipient a), relayer]"

definition admin_inv :: "bytes \<Rightarrow> 'x admin_store_scheme \<Rightarrow> bool" where
  "admin_inv relayer s \<longleftrightarrow> payouts_wf s \<and> roles_separate relayer (sto_admin s)"

lemma payouts_wf_frame:
  assumes "payouts_wf s" "sto_payouts s' = sto_payouts s" "sto_accounting s' = sto_accounting s"
    "pending_fee_payout_amount s' = pending_fee_payout_amount s"
    "ad_fee_recipient (sto_admin s') = ad_fee_recipient (sto_admin s)"
  shows "payouts_wf s'"
  using assms by (simp add: payouts_wf_def)

lemma request_wf:
  assumes wf: "payouts_wf s" and r: "request_fee_payout W canister s caller amount now = Inr (v, s')"
  shows "payouts_wf s' \<and> sto_admin s' = sto_admin s"
proof -
  note ok = request_ok [OF r] and wfd = payouts_wfD [OF wf]
  obtain payouts debit where c: "fpr_state v = FP_Pending"
    "adjust_pending_fee_payout_debit (pending_fee_payout_amount s) None v = Inr debit"
    "insert_tracked_entry (sto_payouts s) (fpr_id v) v = Inr payouts" "sto_payouts s' = payouts"
    "pending_fee_payout_amount s' = debit" "sto_accounting s' = sto_accounting s" "sto_admin s' = sto_admin s"
    using ok(8) by (elim commit_request_ok) auto
  have rows: "tt_rows (sto_payouts s) (fpr_id v) = None" "tracked_wf (sto_payouts s')"
      "tt_rows (sto_payouts s') = (tt_rows (sto_payouts s))(fpr_id v \<mapsto> v)"
    using c(3,4) by (simp_all add: insert_tracked_exact [OF wfd(1)])
  have sums: "rows_sum f (tt_rows (sto_payouts s')) = rows_sum f (tt_rows (sto_payouts s)) + f v" for f
    using rows_sum_update [OF wfd(2), of f "fpr_id v" v] rows by simp
  have v: "pending_debit v = amount + unat KINIC_LEDGER_FEE" "paid_debit v = 0"
    using ok(2,4) c(1) by (simp_all add: pending_debit_def is_pending_fee_payout_def paid_debit_def)
  have "unat debit = unat (pending_fee_payout_amount s) + pending_debit v"
    using pending_debits.adjust_exact [OF c(2)] by simp
  then show ?thesis
    using wfd rows sums v c ok by (auto simp: payouts_wf_def Let_def fee_payout_def word_less_nat_alt)
qed

lemma payout_transition_wf:
  assumes wf: "payouts_wf s" and r: "transition_fee_payout W s i tr scan = Inr s'"
  shows "payouts_wf s' \<and> sto_admin s' = sto_admin s"
  using r
proof (cases rule: transition_ok)
  case (1 p)
  have "unat (pending_fee_payout_amount s') = unat (pending_fee_payout_amount s)"
    using 1(5) pending_debits.adjust_exact [of "pending_fee_payout_amount s" "Some p" p] by auto
  then show ?thesis
    using wf 1 by (simp add: payouts_wf_def Let_def)
next
  case (2 p st)
  note wfd = payouts_wfD [OF wf]
  let ?q = "p \<lparr> fpr_state := st \<rparr>"
  have row: "tt_rows (sto_payouts s) i = Some p"
    using 2(1) by (simp add: fee_payout_def)
  have sums: "rows_sum f (tt_rows (sto_payouts s')) + f p = rows_sum f (tt_rows (sto_payouts s)) + f ?q" for f
    using rows_sum_update [OF wfd(2), of f i ?q] 2(4) row by simp
  note st = next_payout_state_cases [OF 2(2)]
  have pending: "is_pending_fee_payout p"
    using st(1) by (auto simp: is_pending_fee_payout_def)
  have debit: "unat (pending_fee_payout_amount s') + pending_debit p
      = unat (pending_fee_payout_amount s) + pending_debit ?q"
    using pending_debits.adjust_exact [OF 2(6)] by simp
  have paid: "paid_debit p = 0" "pending_debit p \<le> rows_sum pending_debit (tt_rows (sto_payouts s))"
    using st(1) rows_sum_ge [OF wfd(2) row] by (auto simp: paid_debit_def)
  have acc: "as_confirmed_deposit_fees (sto_accounting s') = as_confirmed_deposit_fees (sto_accounting s)
      \<and> as_confirmed_withdrawal_fees (sto_accounting s') = as_confirmed_withdrawal_fees (sto_accounting s)
      \<and> unat (as_fee_reserve (sto_accounting s)) = unat (as_fee_reserve (sto_accounting s')) + paid_debit ?q
      \<and> paid_debit ?q + pending_debit ?q \<le> pending_debit p"
    using 2(7) st pending by (cases tr) (auto simp: spend_fee_reserve_eq_Inr fee_debit_exact paid_debit_def
        pending_debit_def is_pending_fee_payout_def)
  have each: "fpr_id x = j \<and> 0 < fpr_amount x
      \<and> (is_pending_fee_payout x \<longrightarrow> fpr_recipient x = ad_fee_recipient (sto_admin s))"
    if "tt_rows (sto_payouts s') j = Some x" for j x
    using that 2(4) row wf pending by (auto simp: payouts_wf_def Let_def split: if_splits)
  show ?thesis
    using wfd(1,3-5) 2(5,8) sums [of pending_debit] sums [of paid_debit] debit paid acc each
    unfolding payouts_wf_def Let_def by auto
qed

lemma scans_frame:
  assumes "commit_fee_payout_scan W s p = Inr s' \<or> update_fee_payout_scan W s p q = Inr s'"
  shows "sto_payouts s' = sto_payouts s \<and> sto_accounting s' = sto_accounting s
    \<and> sto_counters s' = sto_counters s \<and> sto_admin s' = sto_admin s"
  using assms
proof
  assume "commit_fee_payout_scan W s p = Inr s'"
  then show ?thesis
    by (cases "reconciliation_scan W s (rsp_target p)")
      (auto simp: commit_fee_payout_scan_def result_simps from_db_eq_Inr split: ReconciliationTarget.splits if_splits)
next
  assume "update_fee_payout_scan W s p q = Inr s'"
  then show ?thesis
    by (auto simp: update_fee_payout_scan_def Let_def result_simps from_db_eq_Inr
        split: ReconciliationTarget.splits if_splits)
qed

lemma mutate_ok:
  assumes "mutate W s caller now action = Some (Inr (e, s'))"
  obtains k where "action (sto_admin s) = Inr (k, sto_admin s')" "sto_payouts s' = sto_payouts s"
    "sto_accounting s' = sto_accounting s" "pending_fee_payout_amount s' = pending_fee_payout_amount s"
  using assms append_event_counters(2)
  by (auto simp: mutate_def pending_fee_payout_amount_def split: sum.splits prod.splits)

lemma rotate_pause_ok:
  assumes "rotate_pause_principal W relayer s caller q now = Some (Inr (e, s'))"
  shows "sto_admin s' = (sto_admin s) \<lparr> ad_pause_principal := q \<rparr>" "q \<noteq> ad_governance_principal (sto_admin s)"
    "q \<noteq> frc_owner (ad_fee_recipient (sto_admin s))" "q \<noteq> relayer" "sto_payouts s' = sto_payouts s"
    "sto_accounting s' = sto_accounting s" "pending_fee_payout_amount s' = pending_fee_payout_amount s"
  using assms by (auto simp: rotate_pause_principal_def elim!: mutate_ok split: if_splits)

lemma pause_ok:
  assumes "pause_with_audit W s caller now = Some (Inr (e, s'))"
  shows "authorized (sto_admin s) caller ACTION_PAUSE"
    "sto_admin s' = (sto_admin s) \<lparr> ad_deposits_paused := True \<rparr>" "sto_payouts s' = sto_payouts s"
    "sto_accounting s' = sto_accounting s" "pending_fee_payout_amount s' = pending_fee_payout_amount s"
  using assms by (auto simp: pause_with_audit_def elim!: mutate_ok split: if_splits)

lemma rotate_recipient_ok:
  assumes "rotate_fee_recipient W relayer s caller r now = Inr s'"
  shows "s' = s \<or> (pending_fee_payout_amount s = 0 \<and> sto_admin s' = (sto_admin s) \<lparr> ad_fee_recipient := r \<rparr>
      \<and> frc_owner r \<noteq> ad_governance_principal (sto_admin s) \<and> frc_owner r \<noteq> ad_pause_principal (sto_admin s)
      \<and> frc_owner r \<noteq> relayer \<and> sto_payouts s' = sto_payouts s \<and> sto_accounting s' = sto_accounting s
      \<and> pending_fee_payout_amount s' = pending_fee_payout_amount s)"
proof (cases "s' = s")
  case False
  let ?a = "sto_admin s"
  have d: "fee_recipient_rotation_decision (authorized ?a caller ACTION_ROTATE) (frc_owner r = anonymous)
      (frc_owner r = ad_governance_principal ?a \<or> frc_owner r = ad_pause_principal ?a \<or> frc_owner r = relayer)
      (word_of_nat (length (frc_subaccount r))) (pending_fee_payout_amount s) = FRR_Allow"
    and "\<exists>x y. rotate_fee_recipient_with_audit W s r caller now x y = Inr s'"
    using assms False by (auto simp: rotate_fee_recipient_def Let_def
        split: if_splits FeeRecipientRotationDecision.splits sum.splits)
  then obtain x y counters audit log where
    a: "prepare_store_audit W s (sto_counters s) caller now [AK_FeeRecipientRotated x y] = Inr (counters, audit)"
    and s': "s' = s \<lparr> sto_admin := ?a \<lparr> ad_fee_recipient := r \<rparr>, sto_audit := log, sto_counters := counters \<rparr>"
    by (auto simp: rotate_fee_recipient_with_audit_def result_simps from_db_eq_Inr)
  show ?thesis
    using d s' prepare_store_audit_counters(2) [OF a]
    by (auto simp: fee_recipient_rotation_decision_def fee_recipient_rotation_decision_body_def
        pending_fee_payout_amount_def split: if_splits)
qed simp

lemma none_pending:
  assumes wf: "payouts_wf s" and z: "pending_fee_payout_amount s = 0" and p: "fee_payout s i = Some p"
  shows "\<not> is_pending_fee_payout p"
proof
  assume "is_pending_fee_payout p"
  then have "0 < pending_debit p"
    using payouts_wfD(6) [OF wf p] by (intro pending_positive) simp_all
  then show False
    using rows_sum_ge [OF payouts_wfD(2) [OF wf], of i p pending_debit] payouts_wfD(3) [OF wf] z p
    by (simp add: fee_payout_def)
qed

lemma rotate_recipient_wf:
  assumes "payouts_wf s" "rotate_fee_recipient W relayer s caller r now = Inr s'" "roles_separate relayer (sto_admin s)"
  shows "payouts_wf s' \<and> roles_separate relayer (sto_admin s')"
  using rotate_recipient_ok [OF assms(2)] assms(1,3) none_pending [OF assms(1)]
  by (auto simp: payouts_wf_def roles_separate_def Let_def fee_payout_def)

lemma admin_step_inv:
  assumes i: "admin_inv relayer s" and st: "admin_step W canister relayer s call = Inr (u, s')"
  shows "admin_inv relayer s'"
proof -
  have wf: "payouts_wf s" and sep: "roles_separate relayer (sto_admin s)"
    using i by (simp_all add: admin_inv_def)
  show ?thesis
  proof (cases call)
    case (AC_Request caller amount now)
    then show ?thesis
      using st request_wf [OF wf] sep by (auto simp: admin_step_def admin_inv_def map_result_eq_Inr)
  next
    case (AC_Transition j tr scan)
    then show ?thesis
      using st payout_transition_wf [OF wf] sep by (auto simp: admin_step_def admin_inv_def result_simps)
  next
    case (AC_CommitScan p)
    then show ?thesis
      using st sep payouts_wf_frame [OF wf, of s'] scans_frame [of W s p s']
      by (auto simp: admin_step_def admin_inv_def result_simps pending_fee_payout_amount_def)
  next
    case (AC_UpdateScan p q)
    then show ?thesis
      using st sep payouts_wf_frame [OF wf, of s'] scans_frame [of W s p s' q]
      by (auto simp: admin_step_def admin_inv_def result_simps pending_fee_payout_amount_def)
  next
    case (AC_ConfirmFee kind amount)
    then show ?thesis
      using st wf sep by (cases kind) (auto simp: admin_step_def admin_inv_def result_simps confirm_fee_eq_Inr
          payouts_wf_def Let_def pending_fee_payout_amount_def)
  next
    case (AC_RotateRecipient caller r now)
    then show ?thesis
      using st rotate_recipient_wf [OF wf _ sep] by (auto simp: admin_step_def admin_inv_def)
  next
    case (AC_RotatePause caller q now)
    then obtain e where "rotate_pause_principal W relayer s caller q now = Some (Inr (e, s'))"
      using st by (auto simp: admin_step_def map_result_eq_Inr split: option.splits)
    from rotate_pause_ok [OF this] show ?thesis
      using sep payouts_wf_frame [OF wf, of s'] by (simp add: admin_inv_def roles_separate_def)
  next
    case (AC_Pause caller now)
    then obtain e where "pause_with_audit W s caller now = Some (Inr (e, s'))"
      using st by (auto simp: admin_step_def map_result_eq_Inr split: option.splits)
    from pause_ok [OF this] show ?thesis
      using sep payouts_wf_frame [OF wf, of s'] by (simp add: admin_inv_def roles_separate_def)
  qed
qed

interpretation administration: record_machine "admin_step W canister relayer" "admin_inv relayer"
  by unfold_locales (rule admin_step_inv)

text \<open>
  C12.  The fee reserve covers the pending payouts.  Over every sequence of calls from a store without
  payouts, accepted or refused: the counter of pending debits is the total, amount and ledger fee, of
  the payouts that are pending or held; it never exceeds the reserve; the reserve and what was paid out
  together are the fees confirmed; a pending payout goes to the current fee recipient; the status query
  succeeds; and the pause principal, the governance principal, the owner of the fee recipient and the
  confirmation relayer stay four different principals.
\<close>

theorem fee_reserve_covers_payouts:
  assumes "sto_payouts s0 = empty_table name" "pending_fee_payout_amount s0 = 0"
    and "sto_accounting s0 = accounting_default" and "roles_separate relayer (sto_admin s0)"
    and s: "s = run_events (admin_step W canister relayer) s0 calls"
  shows "unat (pending_fee_payout_amount s) = rows_sum pending_debit (tt_rows (sto_payouts s))
    \<and> pending_fee_payout_amount s \<le> as_fee_reserve (sto_accounting s)
    \<and> unat (as_fee_reserve (sto_accounting s)) + rows_sum paid_debit (tt_rows (sto_payouts s))
      = unat (as_confirmed_deposit_fees (sto_accounting s)) + unat (as_confirmed_withdrawal_fees (sto_accounting s))
    \<and> (\<forall>i p. fee_payout s i = Some p \<and> is_pending_fee_payout p \<longrightarrow> fpr_recipient p = ad_fee_recipient (sto_admin s))
    \<and> (\<exists>status. fee_status s = Inr status) \<and> roles_separate relayer (sto_admin s)"
proof -
  have "admin_inv relayer s0"
    using assms(1-4) by (simp add: admin_inv_def payouts_wf_def accounting_default_def empty_table_def tracked_wf_def)
  from administration.run_inv [OF this] have "payouts_wf s" and sep: "roles_separate relayer (sto_admin s)"
    by (simp_all add: s admin_inv_def)
  note wf = payouts_wfD [OF this(1)]
  have "pending_fee_payout_amount s \<le> as_fee_reserve (sto_accounting s)"
    using wf(3,4) by (simp add: word_le_nat_alt)
  then show ?thesis
    using wf(3,5,7) sep by (auto simp: fee_status_def Let_def not_less)
qed

lemma pending_success:
  assumes wf: "payouts_wf s" and p: "fee_payout s i = Some p" "is_pending_fee_payout p"
    and fits: "\<forall>st. length (w_payout W (p \<lparr> fpr_state := st \<rparr>)) \<le> MAX_STABLE_VALUE_BYTES"
  shows "\<exists>s'. complete_fee_payout_success W s i b = Inr s'
    \<and> unat (as_fee_reserve (sto_accounting s))
      = unat (as_fee_reserve (sto_accounting s')) + unat (fpr_amount p) + unat (lt_fee (fpr_transfer p))
    \<and> fee_payout s' i = Some (p \<lparr> fpr_state := FP_Succeeded b \<rparr>)"
proof -
  let ?q = "p \<lparr> fpr_state := FP_Succeeded b \<rparr>"
  note wfd = payouts_wfD [OF wf]
  have row: "tt_rows (sto_payouts s) i = Some p"
    using p(1) by (simp add: fee_payout_def)
  have le: "pending_debit p \<le> unat (pending_fee_payout_amount s)" "pending_debit p \<le> unat (as_fee_reserve (sto_accounting s))"
    using rows_sum_ge [OF wfd(2) row, of pending_debit] wfd(3,4) by simp_all
  have pd: "pending_debit p = unat (fpr_amount p) + unat (lt_fee (fpr_transfer p))" "pending_debit ?q = 0"
    using p(2) by (simp_all add: pending_debit_def is_pending_fee_payout_def)
  have small: "unat (fpr_amount p) + unat (lt_fee (fpr_transfer p)) < 2 ^ LENGTH(128)"
    using le(1) pd(1) unat_bound [of "pending_fee_payout_amount s"] by simp
  obtain c where c: "adjust_pending_fee_payout_debit (pending_fee_payout_amount s) (Some p) ?q = Inr c"
    using pending_debits.adjust_total [of ?q "Some p" "pending_fee_payout_amount s"] small le(1) pd(2)
      unat_bound [of "pending_fee_payout_amount s"] by (auto simp: less_imp_diff_less)
  obtain d where d: "fee_payout_debit p = Inr d" "unat d = pending_debit p"
    using fee_debit_total [OF small] pd(1) by (auto simp: fee_debit_exact)
  define a where "a = (sto_accounting s) \<lparr> as_fee_reserve := as_fee_reserve (sto_accounting s) - d \<rparr>"
  have a: "spend_fee_reserve (sto_accounting s) d = Inr a"
    "unat (as_fee_reserve (sto_accounting s)) = unat (as_fee_reserve a) + pending_debit p"
    using le(2) d(2) unat_sub_exact [of d "as_fee_reserve (sto_accounting s)"]
    by (simp_all add: spend_fee_reserve_eq_Inr a_def word_le_nat_alt)
  have e: "encode_value (w_payout W) p = Inr p" "encode_value (w_payout W) ?q = Inr ?q"
    using fits [rule_format, of "fpr_state p"] fits [rule_format, of "FP_Succeeded b"] by (simp_all add: result_simps)
  have st: "fpr_state p = FP_Pending \<or> fpr_state p = FP_ReconciliationHold"
    using p(2) by (auto simp: is_pending_fee_payout_def split: FeePayoutState.splits)
  then have n: "\<not> terminal_replay (PT_Succeeded b) (fpr_state p)"
    "next_payout_state (PT_Succeeded b) (fpr_state p) = Inr (FP_Succeeded b)"
    by (auto simp: terminal_replay_def next_payout_state_def)
  show ?thesis
    using p(1) row n c d(1) a e pd(1)
    by (simp add: complete_fee_payout_success_def transition_fee_payout_def Let_def try_bind_def ok_or_def
        pending_fee_payout_amount_def replace_expected_entry_def from_db_def from_core_def fee_payout_def)
qed

text \<open>
  C13.  A pending payout is settled exactly once.  After any sequence of calls from a store without
  payouts, recording the success of a payout that is pending or held is accepted and takes its amount
  and ledger fee from the reserve; recording the same success again changes nothing, and every other
  transition is refused from then on.  The encoding of the payout fits a stable value.
\<close>

theorem payout_settled_once:
  assumes "sto_payouts s0 = empty_table name" "pending_fee_payout_amount s0 = 0"
    and "sto_accounting s0 = accounting_default" and "roles_separate relayer (sto_admin s0)"
    and s: "s = run_events (admin_step W canister relayer) s0 calls"
    and p: "fee_payout s i = Some p" "is_pending_fee_payout p"
    and fits: "\<forall>st. length (w_payout W (p \<lparr> fpr_state := st \<rparr>)) \<le> MAX_STABLE_VALUE_BYTES"
  shows "\<exists>s'. complete_fee_payout_success W s i b = Inr s'
    \<and> unat (as_fee_reserve (sto_accounting s))
      = unat (as_fee_reserve (sto_accounting s')) + unat (fpr_amount p) + unat (lt_fee (fpr_transfer p))
    \<and> complete_fee_payout_success W s' i b = Inr s'
    \<and> (\<forall>tr. tr \<noteq> PT_Succeeded b \<longrightarrow> transition_fee_payout W s' i tr None = Inl (StorageCore ConflictingReplay))"
proof -
  have "admin_inv relayer s0"
    using assms(1-4) by (simp add: admin_inv_def payouts_wf_def accounting_default_def empty_table_def tracked_wf_def)
  from administration.run_inv [OF this] have wf: "payouts_wf s"
    by (simp add: s admin_inv_def)
  obtain s' where s': "complete_fee_payout_success W s i b = Inr s'"
    "unat (as_fee_reserve (sto_accounting s))
      = unat (as_fee_reserve (sto_accounting s')) + unat (fpr_amount p) + unat (lt_fee (fpr_transfer p))"
    "fee_payout s' i = Some (p \<lparr> fpr_state := FP_Succeeded b \<rparr>)"
    using pending_success [OF wf p fits] by blast
  have "complete_fee_payout_success W s' i b = Inr s'"
    using s'(3) by (simp add: complete_fee_payout_success_def transition_fee_payout_def Let_def try_bind_def ok_or_def
        terminal_replay_def adjust_pending_fee_payout_debit_def is_pending_fee_payout_def)
  moreover have "transition_fee_payout W s' i tr None = Inl (StorageCore ConflictingReplay)" if "tr \<noteq> PT_Succeeded b" for tr
    using s'(3) that by (cases tr) (auto simp: transition_fee_payout_def Let_def try_bind_def ok_or_def
        terminal_replay_def next_payout_state_def)
  ultimately show ?thesis
    using s'(1,2) by blast
qed

section \<open>An example\<close>

definition sample_wire :: wire where
  "sample_wire = \<lparr> w_sha256 = (\<lambda>_. replicate 32 0), w_event = (\<lambda>_. []), w_payout = (\<lambda>_. []), w_scan = (\<lambda>_. []) \<rparr>"

definition sample_recipient :: FeeRecipientConfig where
  "sample_recipient = \<lparr> frc_owner = [12], frc_subaccount = [] \<rparr>"

definition sample_admin_store :: admin_store where
  "sample_admin_store =
    \<lparr> sto_counters = counter_state_default, sto_accounting = accounting_default,
      sto_admin = \<lparr> ad_deposits_paused = True, ad_withdrawal_fee_guard = None, ad_pause_principal = [10],
        ad_governance_principal = [11], ad_fee_recipient = sample_recipient \<rparr>,
      sto_audit = empty_audit_log,
      sto_jobs = \<lparr> st_jobs = Map.empty, st_status_counts = (\<lambda>_. 0), st_kind_counts = (\<lambda>_. 0) \<rparr>,
      sto_payouts = empty_table ''fee_payouts'', sto_scans = empty_table ''reconciliation_scans'' \<rparr>"

definition sample_payout :: FeePayoutRecord where
  "sample_payout = \<lparr> fpr_id = 0, fpr_amount = 500000, fpr_recipient = sample_recipient,
    fpr_transfer = \<lparr> lt_operation = FeePayout, lt_created_at_time_ns = 5, lt_memo = replicate 32 0,
      lt_amount = 500000, lt_fee = 100000, lt_from = \<lparr> acct_owner = [9], acct_subaccount = replicate 32 0 \<rparr>,
      lt_to = \<lparr> acct_owner = [12], acct_subaccount = replicate 32 0 \<rparr>, lt_spender = None \<rparr>,
    fpr_state = FP_Pending \<rparr>"

abbreviation sample_admin_run :: admin_store where
  "sample_admin_run \<equiv> run_events (admin_step sample_wire [9] [13]) sample_admin_store
    [AC_ConfirmFee FeeDeposit 1000000, AC_Request [11] 500000 5]"

lemma sample_admin_start:
  "sto_payouts sample_admin_store = empty_table ''fee_payouts''" "pending_fee_payout_amount sample_admin_store = 0"
  "sto_accounting sample_admin_store = accounting_default" "roles_separate [13] (sto_admin sample_admin_store)"
  by (simp_all add: sample_admin_store_def pending_fee_payout_amount_def counter_state_default_def roles_separate_def
      sample_recipient_def)

lemma sample_payout_pending: "fee_payout sample_admin_run 0 = Some sample_payout"
  by (simp add: deliver_def admin_step_def committed_def confirm_fee_def sample_admin_store_def accounting_default_def
      amount_checked_add_def checked_add_def ok_or_def try_bind_def map_result_def
      request_fee_payout_def authorized_def administrator_authorized_def authorized_body_def ACTION_PAYOUT_def
      bounded_nat_u128_def payout_decision_def KINIC_LEDGER_FEE_def checked_sub_def pending_fee_payout_amount_def
      counter_state_default_def Let_def fee_payout_transfer_def sample_recipient_def account_new_def
      commit_fee_payout_request_def adjust_pending_fee_payout_debit_def is_pending_fee_payout_def
      fee_payout_debit_def payout_debit_def prepare_store_audit_def prepare_audit_batch_def MAX_AUDIT_BATCH_def
      audit_next_def next_attempt_body_def encode_event_def sample_wire_def stable_blob_new_def encode_value_def
      empty_audit_log_def empty_table_def range_limited_def MAX_AUDIT_EVENTS_def insert_tracked_entry_def
      increment_table_count_def enqueue_settlement_job_def insert_job_def commit_audit_batch_def from_db_def
      fee_payout_def sample_payout_def)

theorem fee_reserve_covers_payouts_witness:
  "fee_payout sample_admin_run 0 = Some sample_payout
    \<and> rows_sum pending_debit (tt_rows (sto_payouts sample_admin_run)) = unat (pending_fee_payout_amount sample_admin_run)
    \<and> pending_fee_payout_amount sample_admin_run \<le> as_fee_reserve (sto_accounting sample_admin_run)"
  using fee_reserve_covers_payouts [OF sample_admin_start refl, of sample_wire "[9]"
      "[AC_ConfirmFee FeeDeposit 1000000, AC_Request [11] 500000 5]"] sample_payout_pending
  by (simp del: run_events_simps)

theorem payout_settled_once_witness:
  "\<exists>s'. complete_fee_payout_success sample_wire sample_admin_run 0 77 = Inr s'
    \<and> unat (as_fee_reserve (sto_accounting sample_admin_run)) = unat (as_fee_reserve (sto_accounting s')) + 600000
    \<and> transition_fee_payout sample_wire s' 0 PT_Failed None = Inl (StorageCore ConflictingReplay)"
proof -
  have "is_pending_fee_payout sample_payout"
    "\<forall>st. length (w_payout sample_wire (sample_payout \<lparr> fpr_state := st \<rparr>)) \<le> MAX_STABLE_VALUE_BYTES"
    by (simp_all add: is_pending_fee_payout_def sample_payout_def sample_wire_def)
  from payout_settled_once [OF sample_admin_start refl sample_payout_pending this, of 77] show ?thesis
    by (auto simp: sample_payout_def)
qed

end
