(* ===== verification/Configuration.thy ===== *)
theory Configuration
  imports Administration Governance_Calldata Admission Notifications
begin

text \<open>
  The configuration of the canister (\<open>bridge-canister/src/config.rs\<close>): install arguments, the part of
  them that is stored unchanged, the operational part that is sealed once, and their validation.
  A build has the feature \<open>test-deployment\<close> or not, which is the argument \<open>test\<close> of the validation.
  The principals that the texts of the fixed canister identifiers denote are the argument \<open>ids\<close>, as
  their decoder belongs to the IC library.  Strings are their UTF-8 bytes as characters.

  The lemmas show what the other components take from a validated configuration.
\<close>

section \<open>Data\<close>

record GovernanceReplacementPolicy =
  grp_max_replacements :: u8
  grp_fee_bump_bps :: u16

record EvmFeePolicy =
  efp_gas_limit_ceiling :: u128
  efp_max_fee_per_gas_ceiling :: u128
  efp_max_priority_fee_per_gas_ceiling :: u128
  efp_l1_fee_per_transaction_ceiling_wei :: u128
  efp_quote_validity_seconds :: u64
  efp_gas_limit_multiplier_bps :: u32
  efp_base_fee_multiplier_bps :: u32
  efp_l1_fee_multiplier_bps :: u32

record OperationalConfigArgs =
  oca_governance_evm_fee :: EvmFeePolicy
  oca_cycles_floor :: u128
  oca_settlement_cycle_ceiling :: u128

record ActivationAttestation =
  att_chain_id :: u64
  att_finalized_block_number :: u64
  att_finalized_block_hash :: bytes
  att_observed_at_ns :: u64
  att_bridge_signer :: bytes
  att_bridge_runtime_sha256 :: bytes
  att_deposits_paused :: bool
  att_withdrawals_paused :: bool
  att_bridge_timelock :: bytes
  att_runtime_administrator :: bytes
  att_timelock_admin :: bytes
  att_timelock_proposer :: bytes
  att_timelock_canceller :: bytes
  att_timelock_executor :: bytes
  att_timelock_runtime_code_hash :: bytes
  att_bridge_approved_timelock_runtime_code_hash :: bytes
  att_timelock_minimum_delay_seconds :: u64
  att_bsns_address :: bytes
  att_bsns_runtime_sha256 :: bytes
  att_bsns_name :: string
  att_bsns_symbol :: string
  att_bsns_decimals :: u8
  att_bsns_bridge :: bytes
  att_base_service_fee :: u128

text \<open>\<open>BridgeInitArgs\<close> and \<open>ImmutableBridgeConfig\<close> have the fields of \<open>bridge_settings\<close> in common.\<close>

record bridge_settings =
  bs_ledger_canister_id :: bytes
  bs_index_canister_id :: bytes
  bs_evm_rpc_canister_id :: bytes
  bs_custom_evm_rpc_urls :: "string list"
  bs_base_chain_id :: u64
  bs_bridge_contract :: bytes
  bs_expected_bridge_runtime_sha256 :: bytes
  bs_timelock_contract :: bytes
  bs_expected_timelock_minimum_delay_seconds :: u64
  bs_expected_bsns_runtime_sha256 :: bytes
  bs_expected_bsns_decimals :: u8
  bs_expected_minimum_service_fee :: u128
  bs_deployment_instance_id :: bytes
  bs_minimum_withdrawal_id :: bytes
  bs_ecdsa_key_name :: string
  bs_ecdsa_derivation_path :: "bytes list"
  bs_governance_ecdsa_derivation_path :: "bytes list"
  bs_deposit_rate_limit_window_seconds :: u64
  bs_deposit_rate_limit_global :: u16
  bs_deposit_rate_limit_per_principal :: u16
  bs_notification_rate_limit_window_seconds :: u64
  bs_notification_rate_limit_global :: u16
  bs_notification_ingestion_rate_limit_global :: u16
  bs_settlement_rate_limit_window_seconds :: u64
  bs_settlement_rate_limit_global :: u16
  bs_settlement_rate_limit_per_principal :: u16
  bs_settlement_rate_limit_per_record :: u16
  bs_settlement_retry_interval_seconds :: u64
  bs_governance_evm_fee :: EvmFeePolicy
  bs_governance_replacement :: GovernanceReplacementPolicy
  bs_cycles_floor :: u128
  bs_settlement_cycle_ceiling :: u128
  bs_confirmation_relayer_principal :: bytes

record BridgeInitArgs = bridge_settings +
  bia_governance_principal :: bytes
  bia_pause_principal :: bytes
  bia_fee_recipient :: FeeRecipientConfig

record ImmutableBridgeConfig = bridge_settings +
  ibc_activation_attestation :: "ActivationAttestation option"

record fixed_canisters =
  fc_kinic_ledger :: bytes
  fc_kinic_index :: bytes
  fc_official_evm_rpc :: bytes

type_synonym 'a config_result = "string + 'a"

definition BASE_MAINNET_CHAIN_ID :: u64 where
  "BASE_MAINNET_CHAIN_ID = 8453"

definition PRODUCTION_BOOTSTRAP_EVM_FEE :: EvmFeePolicy where
  "PRODUCTION_BOOTSTRAP_EVM_FEE =
    \<lparr> efp_gas_limit_ceiling = 1, efp_max_fee_per_gas_ceiling = 1,
      efp_max_priority_fee_per_gas_ceiling = 0, efp_l1_fee_per_transaction_ceiling_wei = 1,
      efp_quote_validity_seconds = 30, efp_gas_limit_multiplier_bps = 10000,
      efp_base_fee_multiplier_bps = 10000, efp_l1_fee_multiplier_bps = 10000 \<rparr>"

definition PRODUCTION_BOOTSTRAP_CYCLES_FLOOR :: u128 where
  "PRODUCTION_BOOTSTRAP_CYCLES_FLOOR = 1"

definition PRODUCTION_BOOTSTRAP_SETTLEMENT_CYCLE_CEILING :: u128 where
  "PRODUCTION_BOOTSTRAP_SETTLEMENT_CYCLE_CEILING = - 1"

definition default_replacement_policy :: GovernanceReplacementPolicy where
  "default_replacement_policy = \<lparr> grp_max_replacements = 3, grp_fee_bump_bps = 1250 \<rparr>"

section \<open>The operational part\<close>

definition validate_operational :: "OperationalConfigArgs \<Rightarrow> unit config_result" where
  "validate_operational c =
    (let fee = oca_governance_evm_fee c in
      if efp_gas_limit_ceiling fee = 0
        \<or> efp_max_fee_per_gas_ceiling fee = 0
        \<or> efp_max_fee_per_gas_ceiling fee < efp_max_priority_fee_per_gas_ceiling fee
        \<or> efp_l1_fee_per_transaction_ceiling_wei fee = 0
        \<or> \<not> (30 \<le> efp_quote_validity_seconds fee \<and> efp_quote_validity_seconds fee \<le> 300)
        \<or> \<not> (10000 \<le> efp_gas_limit_multiplier_bps fee \<and> efp_gas_limit_multiplier_bps fee \<le> 20000)
        \<or> \<not> (10000 \<le> efp_base_fee_multiplier_bps fee \<and> efp_base_fee_multiplier_bps fee \<le> 100000)
        \<or> \<not> (10000 \<le> efp_l1_fee_multiplier_bps fee \<and> efp_l1_fee_multiplier_bps fee \<le> 30000)
      then Inl ''EVM fee policy is outside the supported safety bounds''
      else if oca_cycles_floor c = 0 \<or> oca_settlement_cycle_ceiling c = 0
      then Inl ''cycles limits must be non-zero''
      else Inr ())"

definition validate_seal_candidate :: "OperationalConfigArgs \<Rightarrow> unit config_result" where
  "validate_seal_candidate c =
    try_bind (validate_operational c) (\<lambda>_.
      if oca_governance_evm_fee c = PRODUCTION_BOOTSTRAP_EVM_FEE
        \<and> oca_cycles_floor c = PRODUCTION_BOOTSTRAP_CYCLES_FLOOR
        \<and> oca_settlement_cycle_ceiling c = PRODUCTION_BOOTSTRAP_SETTLEMENT_CYCLE_CEILING
      then Inl ''production bootstrap operational config cannot be sealed''
      else Inr ())"

definition validate_production_bootstrap_operational_config ::
    "'x bridge_settings_scheme \<Rightarrow> unit config_result" where
  "validate_production_bootstrap_operational_config v =
    (if bs_governance_evm_fee v \<noteq> PRODUCTION_BOOTSTRAP_EVM_FEE
       \<or> bs_cycles_floor v \<noteq> PRODUCTION_BOOTSTRAP_CYCLES_FLOOR
       \<or> bs_settlement_cycle_ceiling v \<noteq> PRODUCTION_BOOTSTRAP_SETTLEMENT_CYCLE_CEILING
     then Inl ''production install must use the fixed bootstrap operational config''
     else Inr ())"

definition with_operational_config ::
    "'x bridge_settings_scheme \<Rightarrow> OperationalConfigArgs \<Rightarrow> 'x bridge_settings_scheme" where
  "with_operational_config v c =
    v \<lparr> bs_governance_evm_fee := oca_governance_evm_fee c, bs_cycles_floor := oca_cycles_floor c,
      bs_settlement_cycle_ceiling := oca_settlement_cycle_ceiling c \<rparr>"

section \<open>The stored part\<close>

definition from_init :: "BridgeInitArgs \<Rightarrow> ImmutableBridgeConfig" where
  "from_init v = bridge_settings.extend (bridge_settings.truncate v)
    (ImmutableBridgeConfig.fields None)"

definition with_activation_attestation ::
    "ImmutableBridgeConfig \<Rightarrow> ActivationAttestation \<Rightarrow> ImmutableBridgeConfig" where
  "with_activation_attestation c a = c \<lparr> ibc_activation_attestation := Some a \<rparr>"

definition with_admin ::
    "ImmutableBridgeConfig \<Rightarrow> bytes \<Rightarrow> bytes \<Rightarrow> FeeRecipientConfig \<Rightarrow> BridgeInitArgs" where
  "with_admin c governance_principal pause_principal fee_recipient =
    bridge_settings.extend (bridge_settings.truncate c)
      (BridgeInitArgs.fields governance_principal pause_principal fee_recipient)"

section \<open>Provider addresses\<close>

fun split_on :: "char \<Rightarrow> string \<Rightarrow> string list" where
  "split_on c [] = [[]]"
| "split_on c (x # xs) =
    (if x = c then [] # split_on c xs
     else (case split_on c xs of [] \<Rightarrow> [[x]] | p # ps \<Rightarrow> (x # p) # ps))"

definition split_once :: "char \<Rightarrow> string \<Rightarrow> (string \<times> string) option" where
  "split_once c s =
    (if c \<in> set s then Some (takeWhile (\<lambda>x. x \<noteq> c) s, tl (dropWhile (\<lambda>x. x \<noteq> c) s)) else None)"

definition rsplit_once :: "char \<Rightarrow> string \<Rightarrow> (string \<times> string) option" where
  "rsplit_once c s = map_option (\<lambda>(a, b). (rev b, rev a)) (split_once c (rev s))"

definition is_ascii_alphabetic :: "char \<Rightarrow> bool" where
  "is_ascii_alphabetic c \<longleftrightarrow>
    (97 \<le> (of_char c :: nat) \<and> (of_char c :: nat) \<le> 122) \<or> (65 \<le> (of_char c :: nat) \<and> (of_char c :: nat) \<le> 90)"

definition is_ascii_digit :: "char \<Rightarrow> bool" where
  "is_ascii_digit c \<longleftrightarrow> 48 \<le> (of_char c :: nat) \<and> (of_char c :: nat) \<le> 57"

definition ascii_space_or_control :: "char \<Rightarrow> bool" where
  "ascii_space_or_control c \<longleftrightarrow> (of_char c :: nat) \<le> 32 \<or> (of_char c :: nat) = 127"

definition to_ascii_lowercase :: "string \<Rightarrow> string" where
  "to_ascii_lowercase = map (\<lambda>c. if 65 \<le> (of_char c :: nat) \<and> (of_char c :: nat) \<le> 90
    then char_of ((of_char c :: nat) + 32) else c)"

definition parse_u16 :: "string \<Rightarrow> nat option" where
  "parse_u16 s =
    (let ds = (case s of [] \<Rightarrow> [] | c # r \<Rightarrow> if c = CHR ''+'' then r else s) in
      if ds = [] \<or> \<not> list_all is_ascii_digit ds then None
      else let v = foldl (\<lambda>n c. 10 * n + (of_char c - 48)) 0 ds in
        if v < 2 ^ 16 then Some v else None)"

definition PUBLIC_PATH_SEGMENTS :: "string list" where
  "PUBLIC_PATH_SEGMENTS = [''rpc'', ''v1'', ''v2'', ''public'', ''ethereum'', ''base'',
    ''base-mainnet'', ''base-sepolia'']"

definition host_acceptable :: "string \<Rightarrow> bool" where
  "host_acceptable host \<longleftrightarrow>
    host \<noteq> [] \<and> CHR ''.'' \<in> set host \<and> list_ex is_ascii_alphabetic host
    \<and> list_all (\<lambda>c. is_ascii_alphabetic c \<or> is_ascii_digit c \<or> c = CHR ''.'' \<or> c = CHR ''-'') host
    \<and> \<not> list_ex (\<lambda>label. label = [] \<or> hd label = CHR ''-'' \<or> last label = CHR ''-'') (split_on CHR ''.'' host)"

definition credential_free_https :: "string \<Rightarrow> bool" where
  "credential_free_https url =
    (if \<not> list_all (\<lambda>c. (of_char c :: nat) < 128) url
       \<or> list_ex ascii_space_or_control url
       \<or> take 8 url \<noteq> ''https://''
       \<or> list_ex (\<lambda>c. c = CHR ''@'' \<or> c = CHR ''?'' \<or> c = CHR ''#'' \<or> c = CHR 0x5C) url
     then False
     else
       let rest = drop 8 url;
           (authority, path) = (case split_once CHR ''/'' rest of None \<Rightarrow> (rest, []) | Some p \<Rightarrow> p)
       in if authority = [] \<or> hd authority = CHR ''.'' \<or> last authority = CHR ''.'' then False
       else
         let (host, port) = (case rsplit_once CHR '':'' authority of None \<Rightarrow> (authority, []) | Some p \<Rightarrow> p)
         in if \<not> host_acceptable host
             \<or> (CHR '':'' \<in> set authority \<and> (port = [] \<or> parse_u16 port = None \<or> parse_u16 port = Some 0))
           then False
           else
             let path = rev (dropWhile (\<lambda>c. c = CHR ''/'') (rev path)) in
             path = [] \<or> list_all (\<lambda>segment. List.member PUBLIC_PATH_SEGMENTS (to_ascii_lowercase segment))
               (split_on CHR ''/'' path))"

definition rpc_host :: "string \<Rightarrow> string option" where
  "rpc_host url =
    (if credential_free_https url
     then let authority = hd (split_on CHR ''/'' (drop 8 url)) in
       Some (to_ascii_lowercase (case rsplit_once CHR '':'' authority of
         None \<Rightarrow> authority | Some (host, _) \<Rightarrow> host))
     else None)"

section \<open>Validation\<close>

definition all_zero :: "bytes \<Rightarrow> bool" where
  "all_zero = list_all (\<lambda>b. b = 0)"

definition validate_contracts :: "'x bridge_settings_scheme \<Rightarrow> unit config_result" where
  "validate_contracts v =
    (if length (bs_bridge_contract v) \<noteq> 20 \<or> length (bs_expected_bridge_runtime_sha256 v) \<noteq> 32
       \<or> length (bs_expected_bsns_runtime_sha256 v) \<noteq> 32 \<or> length (bs_timelock_contract v) \<noteq> 20
       \<or> length (bs_deployment_instance_id v) \<noteq> 32 \<or> length (bs_minimum_withdrawal_id v) \<noteq> 32
     then Inl ''bridge and Timelock contracts must be 20 bytes; deployment instance ID and minimum withdrawal ID must be 32 bytes''
     else if all_zero (bs_bridge_contract v) \<or> all_zero (bs_timelock_contract v)
       \<or> all_zero (bs_deployment_instance_id v) \<or> all_zero (bs_minimum_withdrawal_id v)
       \<or> all_zero (bs_expected_bridge_runtime_sha256 v) \<or> all_zero (bs_expected_bsns_runtime_sha256 v)
       \<or> bs_expected_timelock_minimum_delay_seconds v = 0 \<or> bs_expected_minimum_service_fee v = 0
       \<or> bs_bridge_contract v = bs_timelock_contract v
     then Inl ''bridge, Timelock, deployment instance ID, minimum withdrawal ID, and runtime hash must be nonzero, with distinct contracts''
     else if bs_base_chain_id v = 0 \<or> bs_ecdsa_key_name v = []
       \<or> bs_governance_ecdsa_derivation_path v = []
       \<or> bs_ecdsa_derivation_path v = bs_governance_ecdsa_derivation_path v
     then Inl ''chain id and ECDSA key name must be configured''
     else Inr ())"

definition validate_network :: "bool \<Rightarrow> fixed_canisters \<Rightarrow> 'x bridge_settings_scheme \<Rightarrow> unit config_result" where
  "validate_network test ids v =
    (if \<not> test \<and> (bs_base_chain_id v \<noteq> BASE_MAINNET_CHAIN_ID
        \<or> bs_ledger_canister_id v \<noteq> fc_kinic_ledger ids \<or> bs_index_canister_id v \<noteq> fc_kinic_index ids
        \<or> bs_evm_rpc_canister_id v \<noteq> fc_official_evm_rpc ids)
     then Inl ''production builds require Base mainnet and the fixed KINIC and EVM RPC canisters''
     else if \<not> test \<and> bs_custom_evm_rpc_urls v \<noteq> []
     then Inl ''production builds use the built-in Base mainnet EVM RPC providers''
     else if test \<and> ((bs_custom_evm_rpc_urls v = [] \<and> bs_base_chain_id v \<noteq> BASE_MAINNET_CHAIN_ID)
        \<or> (bs_custom_evm_rpc_urls v \<noteq> [] \<and> length (bs_custom_evm_rpc_urls v) \<noteq> 3))
     then Inl ''test deployments require built-in Base mainnet or exactly three custom providers''
     else
       let rpc_hosts = remdups (List.map_filter rpc_host (bs_custom_evm_rpc_urls v)) in
       if length rpc_hosts \<noteq> length (bs_custom_evm_rpc_urls v)
         \<or> list_ex (\<lambda>url. \<not> credential_free_https url) (bs_custom_evm_rpc_urls v)
       then Inl ''custom EVM RPC providers must use distinct credential-free HTTPS hosts''
       else Inr ())"

definition validate_limits :: "'x bridge_settings_scheme \<Rightarrow> unit config_result" where
  "validate_limits v =
    (if \<not> (60 \<le> bs_deposit_rate_limit_window_seconds v \<and> bs_deposit_rate_limit_window_seconds v \<le> 300)
       \<or> bs_deposit_rate_limit_per_principal v = 0
       \<or> bs_deposit_rate_limit_global v < bs_deposit_rate_limit_per_principal v
       \<or> 100 < bs_deposit_rate_limit_global v
     then Inl ''deposit rate limit must satisfy 60 <= window <= 300 and 1 <= per-principal <= global <= 100''
     else if \<not> (60 \<le> bs_notification_rate_limit_window_seconds v
         \<and> bs_notification_rate_limit_window_seconds v \<le> 3600)
       \<or> \<not> (1 \<le> bs_notification_rate_limit_global v \<and> bs_notification_rate_limit_global v \<le> 100)
       \<or> \<not> (1 \<le> bs_notification_ingestion_rate_limit_global v
         \<and> bs_notification_ingestion_rate_limit_global v \<le> 100)
     then Inl ''notification rate limit must satisfy 60 <= window <= 3600 and 1 <= global <= 100''
     else if \<not> (60 \<le> bs_settlement_rate_limit_window_seconds v
         \<and> bs_settlement_rate_limit_window_seconds v \<le> 3600)
       \<or> bs_settlement_rate_limit_per_record v = 0
       \<or> bs_settlement_rate_limit_per_principal v < bs_settlement_rate_limit_per_record v
       \<or> bs_settlement_rate_limit_global v < bs_settlement_rate_limit_per_principal v
       \<or> 100 < bs_settlement_rate_limit_global v
       \<or> \<not> (1 \<le> bs_settlement_retry_interval_seconds v \<and> bs_settlement_retry_interval_seconds v \<le> 900)
     then Inl ''settlement policy must satisfy 60 <= rate window <= 3600, 1 <= per-record <= per-principal <= global <= 100, and 1 <= retry interval <= 900''
     else Inr ())"

definition validate_roles :: "bool \<Rightarrow> BridgeInitArgs \<Rightarrow> unit config_result" where
  "validate_roles test v =
    (let relayer = bs_confirmation_relayer_principal v; governance = bia_governance_principal v;
         pause = bia_pause_principal v; owner = frc_owner (bia_fee_recipient v)
     in if governance = anonymous \<or> pause = anonymous \<or> relayer = anonymous
       \<or> \<not> confirmation_roles_distinct (relayer = governance) (relayer = pause) (governance = pause) test
       \<or> owner = anonymous \<or> owner = pause \<or> owner = governance \<or> owner = relayer
       \<or> \<not> (length (frc_subaccount (bia_fee_recipient v)) = 0
         \<or> length (frc_subaccount (bia_fee_recipient v)) = 32)
     then Inl ''administrator principals and fee recipient must be valid''
     else Inr ())"

definition validate :: "bool \<Rightarrow> fixed_canisters \<Rightarrow> BridgeInitArgs \<Rightarrow> unit config_result" where
  "validate test ids v =
    try_bind (validate_contracts v) (\<lambda>_.
    try_bind (validate_network test ids v) (\<lambda>_.
    try_bind (validate_limits v) (\<lambda>_.
    try_bind (validate_operational
      \<lparr> oca_governance_evm_fee = bs_governance_evm_fee v, oca_cycles_floor = bs_cycles_floor v,
        oca_settlement_cycle_ceiling = bs_settlement_cycle_ceiling v \<rparr>) (\<lambda>_.
    let policy = bs_governance_replacement v in
    if \<not> (1 \<le> grp_max_replacements policy \<and> grp_max_replacements policy \<le> 8)
      \<or> \<not> (1000 \<le> grp_fee_bump_bps policy \<and> grp_fee_bump_bps policy \<le> 5000)
    then Inl ''governance replacement policy is outside the supported safety bounds''
    else validate_roles test v))))"

definition reserve_policy :: "'x bridge_settings_scheme \<Rightarrow> ReservePolicy" where
  "reserve_policy v = \<lparr> rp_cycles_floor = bs_cycles_floor v,
    rp_settlement_cycle_ceiling = bs_settlement_cycle_ceiling v \<rparr>"


text \<open>What the other components are given of the configuration.\<close>

definition funding_quota :: "'x bridge_settings_scheme \<Rightarrow> u64 \<Rightarrow> DepositQuotaAdmission" where
  "funding_quota v now_ns =
    \<lparr> dqa_now_ns = now_ns, dqa_window_seconds = bs_deposit_rate_limit_window_seconds v,
      dqa_global_limit = bs_deposit_rate_limit_global v,
      dqa_per_principal_limit = bs_deposit_rate_limit_per_principal v \<rparr>"

definition settlement_quota_limits :: "'x bridge_settings_scheme \<Rightarrow> SettlementQuotaLimits" where
  "settlement_quota_limits v =
    \<lparr> sql_window_seconds = bs_settlement_rate_limit_window_seconds v,
      sql_global = bs_settlement_rate_limit_global v,
      sql_per_principal = bs_settlement_rate_limit_per_principal v,
      sql_per_record = bs_settlement_rate_limit_per_record v \<rparr>"

definition governance_policy :: "'x bridge_settings_scheme \<Rightarrow> fee_policy" where
  "governance_policy v =
    \<lparr> fp_max_replacements = grp_max_replacements (bs_governance_replacement v),
      fp_fee_bump_bps = grp_fee_bump_bps (bs_governance_replacement v),
      fp_max_fee_per_gas_ceiling = efp_max_fee_per_gas_ceiling (bs_governance_evm_fee v),
      fp_max_priority_fee_per_gas_ceiling = efp_max_priority_fee_per_gas_ceiling (bs_governance_evm_fee v),
      fp_gas_limit_ceiling = efp_gas_limit_ceiling (bs_governance_evm_fee v) \<rparr>"

definition deployment_of :: "'x bridge_settings_scheme \<Rightarrow> deployment_config" where
  "deployment_of v =
    \<lparr> dc_bridge_contract = bs_bridge_contract v, dc_timelock_contract = bs_timelock_contract v,
      dc_deployment_instance_id = bs_deployment_instance_id v \<rparr>"

definition initial_admin :: "BridgeInitArgs \<Rightarrow> AdminState" where
  "initial_admin v =
    \<lparr> ad_deposits_paused = True, ad_withdrawal_fee_guard = None,
      ad_pause_principal = bia_pause_principal v, ad_governance_principal = bia_governance_principal v,
      ad_fee_recipient = bia_fee_recipient v \<rparr>"

section \<open>Storing and sealing\<close>

lemma with_admin_from_init:
  "with_admin (from_init v) (bia_governance_principal v) (bia_pause_principal v) (bia_fee_recipient v) = v"
  by (cases v) (simp add: with_admin_def from_init_def bridge_settings.defs ImmutableBridgeConfig.defs
      BridgeInitArgs.defs)

lemma from_init_with_admin:
  "from_init (with_admin c g p f) = c \<lparr> ibc_activation_attestation := None \<rparr>"
  by (cases c) (simp add: with_admin_def from_init_def bridge_settings.defs ImmutableBridgeConfig.defs
      BridgeInitArgs.defs)

lemma with_admin_attested:
  "with_admin (with_activation_attestation c a) g p f = with_admin c g p f"
  by (cases c) (simp add: with_admin_def with_activation_attestation_def bridge_settings.defs
      BridgeInitArgs.defs)

lemma operational_keeps:
  "bs_ledger_canister_id (with_operational_config v c) = bs_ledger_canister_id v"
  "bs_index_canister_id (with_operational_config v c) = bs_index_canister_id v"
  "bs_evm_rpc_canister_id (with_operational_config v c) = bs_evm_rpc_canister_id v"
  "bs_custom_evm_rpc_urls (with_operational_config v c) = bs_custom_evm_rpc_urls v"
  "bs_base_chain_id (with_operational_config v c) = bs_base_chain_id v"
  "bs_bridge_contract (with_operational_config v c) = bs_bridge_contract v"
  "bs_expected_bridge_runtime_sha256 (with_operational_config v c) = bs_expected_bridge_runtime_sha256 v"
  "bs_timelock_contract (with_operational_config v c) = bs_timelock_contract v"
  "bs_expected_timelock_minimum_delay_seconds (with_operational_config v c) = bs_expected_timelock_minimum_delay_seconds v"
  "bs_expected_bsns_runtime_sha256 (with_operational_config v c) = bs_expected_bsns_runtime_sha256 v"
  "bs_expected_bsns_decimals (with_operational_config v c) = bs_expected_bsns_decimals v"
  "bs_expected_minimum_service_fee (with_operational_config v c) = bs_expected_minimum_service_fee v"
  "bs_deployment_instance_id (with_operational_config v c) = bs_deployment_instance_id v"
  "bs_minimum_withdrawal_id (with_operational_config v c) = bs_minimum_withdrawal_id v"
  "bs_ecdsa_key_name (with_operational_config v c) = bs_ecdsa_key_name v"
  "bs_ecdsa_derivation_path (with_operational_config v c) = bs_ecdsa_derivation_path v"
  "bs_governance_ecdsa_derivation_path (with_operational_config v c) = bs_governance_ecdsa_derivation_path v"
  "bs_deposit_rate_limit_window_seconds (with_operational_config v c) = bs_deposit_rate_limit_window_seconds v"
  "bs_deposit_rate_limit_global (with_operational_config v c) = bs_deposit_rate_limit_global v"
  "bs_deposit_rate_limit_per_principal (with_operational_config v c) = bs_deposit_rate_limit_per_principal v"
  "bs_notification_rate_limit_window_seconds (with_operational_config v c) = bs_notification_rate_limit_window_seconds v"
  "bs_notification_rate_limit_global (with_operational_config v c) = bs_notification_rate_limit_global v"
  "bs_notification_ingestion_rate_limit_global (with_operational_config v c) = bs_notification_ingestion_rate_limit_global v"
  "bs_settlement_rate_limit_window_seconds (with_operational_config v c) = bs_settlement_rate_limit_window_seconds v"
  "bs_settlement_rate_limit_global (with_operational_config v c) = bs_settlement_rate_limit_global v"
  "bs_settlement_rate_limit_per_principal (with_operational_config v c) = bs_settlement_rate_limit_per_principal v"
  "bs_settlement_rate_limit_per_record (with_operational_config v c) = bs_settlement_rate_limit_per_record v"
  "bs_settlement_retry_interval_seconds (with_operational_config v c) = bs_settlement_retry_interval_seconds v"
  "bs_governance_replacement (with_operational_config v c) = bs_governance_replacement v"
  "bs_confirmation_relayer_principal (with_operational_config v c) = bs_confirmation_relayer_principal v"
  "bia_governance_principal (with_operational_config w c) = bia_governance_principal w"
  "bia_pause_principal (with_operational_config w c) = bia_pause_principal w"
  "bia_fee_recipient (with_operational_config w c) = bia_fee_recipient w"
  by (simp_all add: with_operational_config_def)

lemma validate_with_operational [simp]:
  "validate_contracts (with_operational_config v c) = validate_contracts v"
  "validate_network test ids (with_operational_config v c) = validate_network test ids v"
  "validate_limits (with_operational_config v c) = validate_limits v"
  "validate_roles test (with_operational_config w c) = validate_roles test w"
  by (simp_all only: operational_keeps validate_contracts_def validate_network_def
      validate_limits_def validate_roles_def)

lemma operational_of_sealed:
  "\<lparr> oca_governance_evm_fee = bs_governance_evm_fee (with_operational_config v c),
    oca_cycles_floor = bs_cycles_floor (with_operational_config v c),
    oca_settlement_cycle_ceiling = bs_settlement_cycle_ceiling (with_operational_config v c) \<rparr> = c"
  by (simp add: with_operational_config_def)

lemma validate_eq_Inr:
  "validate test ids v = Inr () \<longleftrightarrow>
    validate_contracts v = Inr () \<and> validate_network test ids v = Inr () \<and> validate_limits v = Inr ()
    \<and> validate_operational
      \<lparr> oca_governance_evm_fee = bs_governance_evm_fee v, oca_cycles_floor = bs_cycles_floor v,
        oca_settlement_cycle_ceiling = bs_settlement_cycle_ceiling v \<rparr> = Inr ()
    \<and> (let policy = bs_governance_replacement v in
      1 \<le> grp_max_replacements policy \<and> grp_max_replacements policy \<le> 8
      \<and> 1000 \<le> grp_fee_bump_bps policy \<and> grp_fee_bump_bps policy \<le> 5000)
    \<and> validate_roles test v = Inr ()"
  by (auto simp: validate_def try_bind_eq_Inr Let_def)

lemma sealed_validates:
  assumes "validate test ids v = Inr ()" "validate_operational c = Inr ()"
  shows "validate test ids (with_operational_config v c) = Inr ()"
  using assms by (simp add: validate_eq_Inr operational_of_sealed operational_keeps)

section \<open>What a validated configuration gives\<close>

lemma valid_contracts:
  assumes "validate_contracts v = Inr ()"
  shows "length (bs_bridge_contract v) = 20" "length (bs_timelock_contract v) = 20"
    "length (bs_deployment_instance_id v) = 32"
    "bs_ecdsa_derivation_path v \<noteq> bs_governance_ecdsa_derivation_path v"
  using assms by (auto simp: validate_contracts_def split: if_splits)

lemma distinct_of_remdups:
  assumes "length (remdups (List.map_filter f xs)) = length xs"
  shows "distinct (map f xs) \<and> None \<notin> set (map f xs)"
proof -
  have le: "length (List.map_filter f xs) \<le> length xs" for xs
    by (induction xs) (auto simp: List.map_filter_simps split: option.splits)
  have full: "map f xs = map Some (List.map_filter f xs)" if "length (List.map_filter f xs) = length xs" for xs
    using that
  proof (induction xs)
    case (Cons x xs)
    then show ?case
      using le [of xs] by (auto simp: List.map_filter_simps split: option.splits)
  qed simp
  have "length (remdups (List.map_filter f xs)) \<le> length (List.map_filter f xs)"
    by (rule length_remdups_leq)
  with assms le [of xs] have "length (List.map_filter f xs) = length xs"
    "length (remdups (List.map_filter f xs)) = length (List.map_filter f xs)"
    by linarith+
  moreover from this(2) have "distinct (List.map_filter f xs)"
    by (metis distinct_remdups length_remdups_eq)
  ultimately show ?thesis
    using full [of xs] by (auto simp: distinct_map inj_on_def)
qed

lemma valid_network:
  assumes "validate_network test ids v = Inr ()"
  shows "distinct (map rpc_host (bs_custom_evm_rpc_urls v)) \<and> None \<notin> set (map rpc_host (bs_custom_evm_rpc_urls v))"
  using assms by (intro distinct_of_remdups) (simp add: validate_network_def Let_def split: if_splits)

lemma valid_limits:
  assumes "validate_limits v = Inr ()"
  shows "60 \<le> bs_deposit_rate_limit_window_seconds v" "60 \<le> bs_notification_rate_limit_window_seconds v"
    "60 \<le> bs_settlement_rate_limit_window_seconds v" "bs_notification_rate_limit_global v \<noteq> 0"
    "bs_notification_ingestion_rate_limit_global v \<noteq> 0"
  using assms by (auto simp: validate_limits_def split: if_splits)

lemma window_positive:
  assumes "60 \<le> (w :: u64)"
  shows "saturating_mul w 1000000000 \<noteq> 0"
proof -
  have "60 \<le> unat w"
    using assms by (simp add: word_le_nat_alt)
  then have "0 < unat (saturating_mul w 1000000000)"
    by (subst unat_saturating_mul) simp
  then show ?thesis
    by (metis unat_0 less_irrefl)
qed

lemma valid_roles:
  assumes "validate_roles test v = Inr ()"
  shows "\<not> test \<Longrightarrow> roles_separate (bs_confirmation_relayer_principal v) (initial_admin v)"
    and "bia_governance_principal v \<noteq> anonymous" "bia_pause_principal v \<noteq> anonymous"
  using assms
  by (auto simp: validate_roles_def Let_def confirmation_roles_distinct_def roles_separate_def
      initial_admin_def split: if_splits)

lemma valid_operational:
  assumes "validate_operational c = Inr ()"
  shows "0 < efp_max_fee_per_gas_ceiling (oca_governance_evm_fee c)"
    "0 < oca_cycles_floor c" "0 < oca_settlement_cycle_ceiling c"
  using assms by (auto simp: validate_operational_def Let_def word_neq_0_conv split: if_splits)

lemma quota_calls_usable:
  assumes "validate_limits v = Inr ()"
  shows "consume_deposit_quota_and_reserve_funding adm owner i amount (funding_quota v now) \<noteq> None"
    and "charge_settlement_quota settle key owner now (settlement_quota_limits v) \<noteq> None"
    and "limit \<noteq> 0 \<Longrightarrow> consume_notification_verification_quota enc notes now
      (bs_notification_rate_limit_window_seconds v) (bs_notification_rate_limit_global v)
      used limit protected_lane \<noteq> Inl DecodeFailed"
    and "prepare_notification_ingestion_quota enc notes now
      (bs_notification_rate_limit_window_seconds v) (bs_notification_ingestion_rate_limit_global v)
      \<noteq> Inl DecodeFailed"
  using valid_limits [OF assms]
  by (simp_all add: consume_deposit_quota_and_reserve_funding_def consume_deposit_quota_def
      funding_quota_def charge_settlement_quota_def settlement_quota_limits_def window_positive Let_def
      consume_notification_verification_quota_def prepare_notification_ingestion_quota_def
      window_length_ns_def encode_record_def stable_blob_new_def try_bind_def map_result_def ok_or_def
      split: option.splits sum.splits)

lemma initial_fee_positive: "0 < C \<Longrightarrow> 0 < initial_fee C b n"
  by (cases n) (auto simp: less_max_iff_disj)

lemma first_fee_in_policy:
  assumes "validate_operational
      \<lparr> oca_governance_evm_fee = bs_governance_evm_fee v, oca_cycles_floor = bs_cycles_floor v,
        oca_settlement_cycle_ceiling = bs_settlement_cycle_ceiling v \<rparr> = Inr ()"
  shows "let e = initial_envelope (governance_policy v) oid payload nonce (bs_base_chain_id v) target calldata in
    0 < gte_max_fee_per_gas e
    \<and> gte_max_fee_per_gas e \<le> efp_max_fee_per_gas_ceiling (bs_governance_evm_fee v)
    \<and> gte_max_priority_fee_per_gas e \<le> gte_max_fee_per_gas e"
proof -
  let ?C = "efp_max_fee_per_gas_ceiling (bs_governance_evm_fee v)"
  have "0 < ?C"
    using valid_operational(1) [OF assms] by simp
  moreover from this have "initial_fee ?C b n \<le> ?C" for b n
    using initial_fee_bound [of ?C b n] by (simp add: word_le_nat_alt word_less_nat_alt)
  ultimately show ?thesis
    by (simp add: initial_envelope_def governance_policy_def Let_def initial_fee_positive)
qed

text \<open>
  C40.  A validated configuration gives the other components what they rely on.  No deposit, settlement or
  notification quota divides by an empty window or has an unusable limit: the quota calls do not
  trap and do not report an unreadable control.  Contracts and deployment are sized for the
  calldata, a new governance transaction has a positive fee within the ceiling, the roles of a
  production install are separate, and the provider addresses name different hosts.
\<close>

theorem validated_config_usable:
  assumes "validate test ids v = Inr ()"
  shows "consume_deposit_quota_and_reserve_funding adm owner i amount (funding_quota v now) \<noteq> None
    \<and> charge_settlement_quota settle key owner now (settlement_quota_limits v) \<noteq> None
    \<and> (limit \<noteq> 0 \<longrightarrow> consume_notification_verification_quota enc notes now
        (bs_notification_rate_limit_window_seconds v) (bs_notification_rate_limit_global v)
        used limit protected_lane \<noteq> Inl DecodeFailed)
    \<and> prepare_notification_ingestion_quota enc notes now
        (bs_notification_rate_limit_window_seconds v) (bs_notification_ingestion_rate_limit_global v)
        \<noteq> Inl DecodeFailed
    \<and> deployment_sized (deployment_of v) \<and> hash32 (bs_deployment_instance_id v) = Inr (bs_deployment_instance_id v)
    \<and> (let e = initial_envelope (governance_policy v) oid payload nonce (bs_base_chain_id v) target calldata in
        0 < gte_max_fee_per_gas e
        \<and> gte_max_fee_per_gas e \<le> efp_max_fee_per_gas_ceiling (bs_governance_evm_fee v)
        \<and> gte_max_priority_fee_per_gas e \<le> gte_max_fee_per_gas e)
    \<and> (\<not> test \<longrightarrow> roles_separate (bs_confirmation_relayer_principal v) (initial_admin v))
    \<and> distinct (map rpc_host (bs_custom_evm_rpc_urls v)) \<and> None \<notin> set (map rpc_host (bs_custom_evm_rpc_urls v))"
proof -
  note valid = assms [unfolded validate_eq_Inr]
  from valid have contracts: "validate_contracts v = Inr ()" and network: "validate_network test ids v = Inr ()"
    and limits: "validate_limits v = Inr ()" and roles: "validate_roles test v = Inr ()"
    and operational: "validate_operational \<lparr> oca_governance_evm_fee = bs_governance_evm_fee v,
      oca_cycles_floor = bs_cycles_floor v, oca_settlement_cycle_ceiling = bs_settlement_cycle_ceiling v \<rparr> = Inr ()"
    by blast+
  have "deployment_sized (deployment_of v)"
    "hash32 (bs_deployment_instance_id v) = Inr (bs_deployment_instance_id v)"
    using valid_contracts [OF contracts] by (simp_all add: deployment_sized_def deployment_of_def hash32_def)
  then show ?thesis
    using valid_network [OF network]
    by (intro conjI impI quota_calls_usable [OF limits] first_fee_in_policy [OF operational]
        valid_roles(1) [OF roles]) simp_all
qed

definition sample_ids :: fixed_canisters where
  "sample_ids = \<lparr> fc_kinic_ledger = [1], fc_kinic_index = [2], fc_official_evm_rpc = [3] \<rparr>"

definition sample_init :: BridgeInitArgs where
  "sample_init =
    \<lparr> bs_ledger_canister_id = [1], bs_index_canister_id = [2], bs_evm_rpc_canister_id = [3],
      bs_custom_evm_rpc_urls = [], bs_base_chain_id = 8453,
      bs_bridge_contract = replicate 20 1, bs_expected_bridge_runtime_sha256 = replicate 32 7,
      bs_timelock_contract = replicate 20 2, bs_expected_timelock_minimum_delay_seconds = 86400,
      bs_expected_bsns_runtime_sha256 = replicate 32 8, bs_expected_bsns_decimals = 8,
      bs_expected_minimum_service_fee = 100000, bs_deployment_instance_id = replicate 32 9,
      bs_minimum_withdrawal_id = replicate 32 1, bs_ecdsa_key_name = ''key_1'',
      bs_ecdsa_derivation_path = [[1]], bs_governance_ecdsa_derivation_path = [[2]],
      bs_deposit_rate_limit_window_seconds = 60, bs_deposit_rate_limit_global = 20,
      bs_deposit_rate_limit_per_principal = 3, bs_notification_rate_limit_window_seconds = 600,
      bs_notification_rate_limit_global = 60, bs_notification_ingestion_rate_limit_global = 60,
      bs_settlement_rate_limit_window_seconds = 600, bs_settlement_rate_limit_global = 60,
      bs_settlement_rate_limit_per_principal = 6, bs_settlement_rate_limit_per_record = 3,
      bs_settlement_retry_interval_seconds = 60, bs_governance_evm_fee = PRODUCTION_BOOTSTRAP_EVM_FEE,
      bs_governance_replacement = default_replacement_policy,
      bs_cycles_floor = PRODUCTION_BOOTSTRAP_CYCLES_FLOOR,
      bs_settlement_cycle_ceiling = PRODUCTION_BOOTSTRAP_SETTLEMENT_CYCLE_CEILING,
      bs_confirmation_relayer_principal = [12],
      bia_governance_principal = [10], bia_pause_principal = [11],
      bia_fee_recipient = \<lparr> frc_owner = [13], frc_subaccount = [] \<rparr> \<rparr>"

lemma sample_init_valid: "validate False sample_ids sample_init = Inr ()"
  by (simp add: validate_eq_Inr validate_contracts_def validate_network_def validate_limits_def
      validate_operational_def validate_roles_def sample_init_def sample_ids_def all_zero_def
      PRODUCTION_BOOTSTRAP_EVM_FEE_def PRODUCTION_BOOTSTRAP_CYCLES_FLOOR_def
      PRODUCTION_BOOTSTRAP_SETTLEMENT_CYCLE_CEILING_def default_replacement_policy_def
      BASE_MAINNET_CHAIN_ID_def anonymous_def confirmation_roles_distinct_def
      List.map_filter_simps list_all_iff word_le_nat_alt word_less_nat_alt)

theorem validated_config_usable_witness:
  "charge_settlement_quota (SettlementAdmissionControl.make 0 0 [] []) [7] [8] 0
      (settlement_quota_limits sample_init) \<noteq> None
    \<and> roles_separate [12] (initial_admin sample_init)"
  using validated_config_usable [OF sample_init_valid] by (simp add: sample_init_def)

end
