(* ===== verification/Store_Programs.thy ===== *)
theory Store_Programs
  imports Bridge_Prelude
begin

text \<open>
  Endpoints as programs over a store.  A program runs in a store and gives an error or a result, and
  the store it leaves; an error stops it, and what was written before it stays.  An endpoint that
  awaits the answer of another canister has a point where other messages run: a step of the store
  in the program.

  A triple \<open>valid I P m R\<close> says of a program that it keeps the invariant \<open>I\<close> on every path, errors
  included, and gives \<open>R\<close> for its result when it starts with \<open>P\<close>.
\<close>

section \<open>Programs\<close>

type_synonym ('s, 'e, 'a) prog = "'s \<Rightarrow> ('e + 'a) \<times> 's"

definition give :: "'a \<Rightarrow> ('s, 'e, 'a) prog" where
  "give x s = (Inr x, s)"

definition fail :: "'e \<Rightarrow> ('s, 'e, 'a) prog" where
  "fail e s = (Inl e, s)"

definition query :: "('s \<Rightarrow> 'e + 'a) \<Rightarrow> ('s, 'e, 'a) prog" where
  "query f s = (f s, s)"

definition andThen :: "('s, 'e, 'a) prog \<Rightarrow> ('a \<Rightarrow> ('s, 'e, 'b) prog) \<Rightarrow> ('s, 'e, 'b) prog" where
  "andThen m f s = (case m s of (Inl e, s') \<Rightarrow> (Inl e, s') | (Inr x, s') \<Rightarrow> f x s')"

definition interleave :: "('s \<Rightarrow> 's) \<Rightarrow> ('s, 'e, unit) prog" where
  "interleave f s = (Inr (), f s)"

text \<open>A write that fails leaves the store as it was; its error is mapped as the endpoint does.\<close>

definition commit :: "('d \<Rightarrow> 'e) \<Rightarrow> ('s \<Rightarrow> 'd + 'a \<times> 's) \<Rightarrow> ('s, 'e, 'a) prog" where
  "commit err f s = (case f s of Inl d \<Rightarrow> (Inl (err d), s) | Inr (x, s') \<Rightarrow> (Inr x, s'))"

lemma prog_simps [simp]:
  "give x s = (Inr x, s)"
  "fail e s = (Inl e, s)"
  "query f s = (f s, s)"
  "interleave g s = (Inr (), g s)"
  by (simp_all add: give_def fail_def query_def interleave_def)

lemma andThen_Inr [simp]:
  "andThen m f s = (Inr y, s') \<longleftrightarrow> (\<exists>x s1. m s = (Inr x, s1) \<and> f x s1 = (Inr y, s'))"
  by (auto simp: andThen_def split: prod.splits sum.splits)

lemma commit_Inr [simp]:
  "commit err f s = (Inr x, s') \<longleftrightarrow> f s = Inr (x, s')"
  by (auto simp: commit_def split: sum.splits)

section \<open>Triples\<close>

named_theorems valid_rules

definition valid :: "('s \<Rightarrow> bool) \<Rightarrow> ('s \<Rightarrow> bool) \<Rightarrow> ('s, 'e, 'a) prog \<Rightarrow> ('a \<Rightarrow> 's \<Rightarrow> bool) \<Rightarrow> bool" where
  "valid I P m R \<longleftrightarrow>
    (\<forall>s. I s \<and> P s \<longrightarrow> I (snd (m s)) \<and> (\<forall>x. fst (m s) = Inr x \<longrightarrow> R x (snd (m s))))"

lemma valid_run:
  assumes "valid I P m R" "I s" "P s"
  shows "I (snd (m s))" and "m s = (Inr x, s') \<Longrightarrow> R x s'"
  using assms by (auto simp: valid_def)

lemma valid_andThen:
  assumes "valid I P m R" "\<And>x. valid I (R x) (f x) Q"
  shows "valid I P (andThen m f) Q"
proof -
  have "I (snd (andThen m f s)) \<and> (\<forall>y. fst (andThen m f s) = Inr y \<longrightarrow> Q y (snd (andThen m f s)))"
    if "I s" "P s" for s
  proof (cases "m s")
    case (Pair r s')
    have s': "I s'" "\<And>x. r = Inr x \<Longrightarrow> R x s'"
      using assms(1) that Pair by (auto simp: valid_def)
    then show ?thesis
      using assms(2) Pair by (cases r) (auto simp: andThen_def valid_def)
  qed
  then show ?thesis
    by (simp add: valid_def)
qed

lemma valid_weaken:
  assumes "valid I P m R" "\<And>s. I s \<Longrightarrow> P' s \<Longrightarrow> P s" "\<And>x s. I s \<Longrightarrow> R x s \<Longrightarrow> R' x s"
  shows "valid I P' m R'"
  using assms by (auto simp: valid_def)

lemma valid_pure:
  assumes "b \<Longrightarrow> valid I P m R"
  shows "valid I (\<lambda>s. P s \<and> b) m R"
  using assms by (auto simp: valid_def)

lemma valid_give [valid_rules]: "valid I (R x) (give x) R"
  by (simp add: valid_def)

lemma valid_fail [valid_rules]: "valid I P (fail e) R"
  by (simp add: valid_def)

lemma valid_query: "valid I P (query f) (\<lambda>x s. P s \<and> f s = Inr x)"
  by (simp add: valid_def)

lemma valid_interleave:
  assumes "\<And>s. I s \<Longrightarrow> P s \<Longrightarrow> I (f s) \<and> R () (f s)"
  shows "valid I P (interleave f) R"
  using assms by (simp add: valid_def)

lemma valid_commit:
  assumes "\<And>s x s'. I s \<Longrightarrow> P s \<Longrightarrow> f s = Inr (x, s') \<Longrightarrow> I s' \<and> R x s'"
  shows "valid I P (commit err f) R"
  using assms by (auto simp: valid_def commit_def split: sum.splits prod.splits)

lemma valid_if [valid_rules]:
  assumes "b \<Longrightarrow> valid I P m R" "\<not> b \<Longrightarrow> valid I P m' R"
  shows "valid I P (if b then m else m') R"
  using assms by simp

lemma valid_option:
  assumes "x = None \<Longrightarrow> valid I P m R" "\<And>y. x = Some y \<Longrightarrow> valid I P (f y) R"
  shows "valid I P (case x of None \<Rightarrow> m | Some y \<Rightarrow> f y) R"
  using assms by (cases x) simp_all

text \<open>A program \<open>keeps\<close> an invariant and a fact that is not about its result.\<close>

abbreviation keeps :: "('s \<Rightarrow> bool) \<Rightarrow> ('s \<Rightarrow> bool) \<Rightarrow> ('s, 'e, 'a) prog \<Rightarrow> bool" where
  "keeps I P m \<equiv> valid I P m (\<lambda>_. P)"

lemma keeps_query [valid_rules]: "keeps I P (query f)"
  by (simp add: valid_def)

lemma keeps_give [valid_rules]: "keeps I P (give x)"
  by (simp add: valid_def)

lemma keeps_andThen [valid_rules]:
  assumes "keeps I P m" "\<And>x. keeps I P (f x)"
  shows "keeps I P (andThen m f)"
  using assms by (rule valid_andThen)

lemmas keeps_rules = keeps_andThen keeps_query keeps_give valid_fail valid_if valid_option

end
