(* ===== verification/Activation.thy ===== *)
theory Activation
  imports Configuration Store_Programs
begin

text \<open>
  Sealing of the operational configuration, activation of the bridge and the governance endpoints
  (\<open>bridge-canister/src/base_governance.rs\<close>, with the store operations of \<open>storage/mod.rs\<close> that they
  call).  The endpoints are programs over the store.

  The endpoints share one in-flight guard, so only other messages run at their awaits: the calls of
  administrators, emergency pauses, cached keys and observations of Base, which are the
  \<open>outside_call\<close>s.  An await has a number in its endpoint; the environment gives for each number the
  outside calls that run there, the answer of the management canister about the controllers and
  the controllers the system reports from then on.  Answers of Base and of the signer are arguments
  of the endpoints, as both are other canisters.  The fields of an observation that the endpoints
  do not use are left out.
\<close>

section \<open>State\<close>

record bridge_store = admin_store +
  sto_control :: GovernanceControl
  sto_sealed :: bool
  sto_bootstrap_controller :: "bytes option"
  sto_config :: ImmutableBridgeConfig
  sto_progress :: ExternalProgress

definition store_config :: "bridge_store \<Rightarrow> BridgeInitArgs" where
  "store_config s = with_admin (sto_config s) (ad_governance_principal (sto_admin s))
    (ad_pause_principal (sto_admin s)) (ad_fee_recipient (sto_admin s))"

datatype ProductionLifecycle = PL_Bootstrap | PL_OperationalConfigSealed | PL_Activated

subsection \<open>Observations of Base\<close>

record FinalizedObservation =
  fob_block_number :: u64
  fob_block_hash :: bytes
  fob_observed_at_ns :: u64

record ObservedBridgeIdentity =
  obi_signer :: bytes
  obi_runtime_sha256 :: bytes

record ObservedSnapshot =
  osn_mint :: BaseMintSnapshot
  osn_bridge_signer :: bytes
  osn_mint_authorization_epoch :: u64
  osn_deposits_paused :: bool
  osn_withdrawals_paused :: bool

record CompletedFinalizedObservation =
  cfo_finalized :: FinalizedObservation
  cfo_snapshot :: ObservedSnapshot
  cfo_bridge_identity :: ObservedBridgeIdentity

record DeploymentPostconditionsObservation =
  dpo_bridge_timelock :: bytes
  dpo_runtime_administrator :: bytes
  dpo_timelock_admin :: bytes
  dpo_timelock_proposer :: bytes
  dpo_timelock_canceller :: bytes
  dpo_timelock_executor :: bytes
  dpo_timelock_runtime_code_hash :: bytes
  dpo_bridge_approved_timelock_runtime_code_hash :: bytes
  dpo_timelock_minimum_delay_seconds :: u64
  dpo_bsns_address :: bytes
  dpo_bsns_runtime_sha256 :: bytes
  dpo_bsns_name :: string
  dpo_bsns_symbol :: string
  dpo_bsns_decimals :: u8
  dpo_bsns_bridge :: bytes
  dpo_minimum_service_fee :: u128

datatype ConfirmedReceiptOutcome =
    RO_Missing
  | RO_Pending u64
  | RO_Succeeded u64 FinalizedObservation
  | RO_Reverted u64 FinalizedObservation

definition stable_observation_parts ::
    "FinalizedObservation \<Rightarrow> ObservedBridgeIdentity \<Rightarrow> u64 \<Rightarrow> FinalizedObservationRecord" where
  "stable_observation_parts finalized identity configured_chain_id =
    \<lparr> fo_chain_id = configured_chain_id, fo_block_number = fob_block_number finalized,
      fo_block_hash = fob_block_hash finalized, fo_observed_at_ns = fob_observed_at_ns finalized,
      fo_bridge_signer = obi_signer identity, fo_runtime_sha256 = obi_runtime_sha256 identity \<rparr>"

definition stable_observation :: "CompletedFinalizedObservation \<Rightarrow> u64 \<Rightarrow> FinalizedObservationRecord" where
  "stable_observation observation configured_chain_id =
    stable_observation_parts (cfo_finalized observation) (cfo_bridge_identity observation) configured_chain_id"

definition runtime_attested :: "bridge_store \<Rightarrow> BridgeInitArgs \<Rightarrow> bool option" where
  "runtime_attested s config =
    (if length (bs_expected_bridge_runtime_sha256 config) \<noteq> 32 then None
     else let observation = ep_finalized_observation (sto_progress s) in
       Some (runtime_attestation_matches (observation \<noteq> None)
         (case observation of None \<Rightarrow> False | Some v \<Rightarrow> fo_chain_id v = bs_base_chain_id config)
         (case observation of None \<Rightarrow> False
           | Some v \<Rightarrow> fo_runtime_sha256 v = bs_expected_bridge_runtime_sha256 config)))"

definition cache_runtime_attestation ::
    "BridgeInitArgs \<Rightarrow> CompletedFinalizedObservation \<Rightarrow> bridge_store \<Rightarrow> CoreError + unit \<times> bridge_store" where
  "cache_runtime_attestation config observation s =
    try_bind (observe_finalized (sto_progress s) (stable_observation observation (bs_base_chain_id config)))
      (\<lambda>progress. Inr ((), s \<lparr> sto_progress := progress \<rparr>))"

section \<open>Store operations\<close>

definition activation_attestation_matches_finalized ::
    "ActivationAttestation \<Rightarrow> FinalizedObservationRecord \<Rightarrow> bool" where
  "activation_attestation_matches_finalized a observation \<longleftrightarrow>
    att_chain_id a = fo_chain_id observation
    \<and> att_finalized_block_number a = fo_block_number observation
    \<and> att_finalized_block_hash a = fo_block_hash observation
    \<and> att_observed_at_ns a = fo_observed_at_ns observation
    \<and> att_bridge_signer a = fo_bridge_signer observation
    \<and> att_bridge_runtime_sha256 a = fo_runtime_sha256 observation"

definition store_seal_operational_config ::
    "BridgeInitArgs \<Rightarrow> u64 \<Rightarrow> bytes \<Rightarrow> ActivationAttestation \<Rightarrow> FinalizedObservationRecord
      \<Rightarrow> bridge_store \<Rightarrow> bridge_store storage_result" where
  "store_seal_operational_config v expected_governance_operation_id controller attestation observation s =
    (if \<not> activation_attestation_matches_finalized attestation observation
     then Inl (StorageCore ConflictingReplay)
     else if expected_governance_operation_id = - 1
       \<or> gc_next_governance_operation_id (sto_control s) \<noteq> expected_governance_operation_id
     then Inl (StorageCore ConflictingReplay)
     else if operational_config_seal_decision (sto_sealed s)
         (validate_seal_candidate
           \<lparr> oca_governance_evm_fee = bs_governance_evm_fee v, oca_cycles_floor = bs_cycles_floor v,
             oca_settlement_cycle_ceiling = bs_settlement_cycle_ceiling v \<rparr> = Inr ()) \<noteq> OCS_Seal
     then Inl (StorageCore ConflictingReplay)
     else case observe_finalized (sto_progress s) observation of
       Inl e \<Rightarrow> Inl (StorageCore e)
     | Inr progress \<Rightarrow> Inr (s \<lparr> sto_sealed := True, sto_bootstrap_controller := Some controller,
         sto_config := with_activation_attestation (from_init v) attestation, sto_progress := progress \<rparr>))"

definition store_refresh_activation_attestation ::
    "ActivationAttestation \<Rightarrow> FinalizedObservationRecord \<Rightarrow> bridge_store \<Rightarrow> bridge_store storage_result" where
  "store_refresh_activation_attestation attestation observation s =
    (if \<not> activation_attestation_matches_finalized attestation observation \<or> \<not> sto_sealed s
     then Inl (StorageCore ConflictingReplay)
     else let expected_paused = (sto_bootstrap_controller s \<noteq> None) in
       if ad_deposits_paused (sto_admin s) \<noteq> expected_paused
         \<or> \<not> activation_base_preflight_matches True (att_deposits_paused attestation)
           (att_withdrawals_paused attestation) expected_paused
       then Inl (StorageCore ConflictingReplay)
       else case observe_finalized (sto_progress s) observation of
         Inl e \<Rightarrow> Inl (StorageCore e)
       | Inr progress \<Rightarrow> Inr (s \<lparr> sto_config := with_activation_attestation (sto_config s) attestation,
           sto_progress := progress \<rparr>))"

definition complete_confirmed_activation_and_resume_if_clear ::
    "wire \<Rightarrow> GovernanceTransaction \<Rightarrow> bytes \<Rightarrow> u64 \<Rightarrow> bridge_store \<Rightarrow> (bool \<times> bridge_store) storage_result" where
  "complete_confirmed_activation_and_resume_if_clear W t caller timestamp_ns s =
    (if \<not> (case gt_kind t of GK_ExecuteActivation _ _ \<Rightarrow> True | _ \<Rightarrow> False) \<or> \<not> is_confirmed (gt_state t)
     then Inl DecodeFailed
     else try_bind (apply_governance_completion (sto_control s) t) (\<lambda>control.
       let bootstrap = (if \<not> bootstrap_activation_authority_after_transition (sto_bootstrap_controller s \<noteq> None) True
           then None else sto_bootstrap_controller s);
           admin = sto_admin s
       in if \<not> ad_deposits_paused admin \<or> \<not> confirmed_activation_resume_authorized admin caller
       then Inl DecodeFailed
       else let resume = (\<not> gc_emergency_pause_deposit_required control
             \<and> \<not> gc_emergency_pause_withdrawal_required control \<and> \<not> gc_emergency_cancel_required control);
           s' = s \<lparr> sto_control := control, sto_bootstrap_controller := bootstrap,
             sto_admin := admin \<lparr> ad_deposits_paused := \<not> resume \<rparr> \<rparr>
         in if \<not> resume then Inr (False, s')
         else try_bind (prepare_store_audit W s (sto_counters s) caller timestamp_ns [AK_DepositsResumed])
           (\<lambda>(counters, audit). from_db (try_bind (commit_audit_batch (sto_audit s) audit) (\<lambda>log.
             Inr (True, s' \<lparr> sto_audit := log, sto_counters := counters \<rparr>))))))"

section \<open>Awaits\<close>

datatype outside_call =
    OC_Admin admin_call
  | OC_EmergencyPause bytes u64
  | OC_CacheSignerKey bytes
  | OC_CacheOperatorKey bytes
  | OC_CacheSignerAddress bytes
  | OC_Observe FinalizedObservationRecord

text \<open>\<open>emergency_pause\<close> pauses locally, then queues the actions on Base.  A trap in the audit rolls
  back, which \<open>pause_with_audit\<close> reports as None.\<close>

definition emergency_pause ::
    "wire \<Rightarrow> bytes \<Rightarrow> u64 \<Rightarrow> bridge_store \<Rightarrow> ((bool \<times> AuditEvent) \<times> bridge_store) governance_result option" where
  "emergency_pause W caller now s = (case pause_with_audit W s caller now of
      None \<Rightarrow> None
    | Some (Inl e) \<Rightarrow> Some (Inl (if e = AE_Unauthorized then BG_Unauthorized else BG_StorageFailure))
    | Some (Inr (audit, s')) \<Rightarrow>
        (let control = enqueue_emergency_base_actions (sto_control s') in
          Some (Inr ((gc_pending_timelock_operation control \<noteq> None, audit), s' \<lparr> sto_control := control \<rparr>))))"

definition outside_step :: "wire \<Rightarrow> bytes \<Rightarrow> (bridge_store, outside_call, unit, unit) machine" where
  "outside_step W canister s call = (case call of
      OC_Admin c \<Rightarrow> admin_step W canister (bs_confirmation_relayer_principal (sto_config s)) s c
    | OC_EmergencyPause caller now \<Rightarrow> (case emergency_pause W caller now s of
        Some (Inr (_, s')) \<Rightarrow> Inr ((), s') | _ \<Rightarrow> Inl ())
    | OC_CacheSignerKey k \<Rightarrow>
        Inr ((), s \<lparr> sto_control := snd (set_signer_public_key_if_absent (sto_control s) k) \<rparr>)
    | OC_CacheOperatorKey k \<Rightarrow>
        Inr ((), s \<lparr> sto_control := snd (set_governance_operator_public_key_if_absent (sto_control s) k) \<rparr>)
    | OC_CacheSignerAddress a \<Rightarrow>
        Inr ((), s \<lparr> sto_control := snd (set_signer_address_if_absent (sto_control s) a) \<rparr>)
    | OC_Observe observation \<Rightarrow> (case observe_finalized (sto_progress s) observation of
        Inl _ \<Rightarrow> Inl () | Inr progress \<Rightarrow> Inr ((), s \<lparr> sto_progress := progress \<rparr>)))"

record environment =
  env_wire :: wire
  env_canister :: bytes
  env_test :: bool
  env_ids :: fixed_canisters
  env_between :: "nat \<Rightarrow> outside_call list"
  env_controllers :: "nat \<Rightarrow> bytes list option"
  env_is_controller :: "nat \<Rightarrow> bytes \<Rightarrow> bool"

type_synonym 'a endpoint = "(bridge_store, BaseGovernanceError, 'a) prog"

definition await :: "environment \<Rightarrow> nat \<Rightarrow> unit endpoint" where
  "await E n = interleave (\<lambda>s. run_events (outside_step (env_wire E) (env_canister E)) s (env_between E n))"

definition answer :: "environment \<Rightarrow> nat \<Rightarrow> 'a option \<Rightarrow> 'a endpoint" where
  "answer E n observed = andThen (await E n) (\<lambda>_. query (\<lambda>_. ok_or BG_ObservationUnavailable observed))"

section \<open>Lifecycle and authorization\<close>

definition production_lifecycle :: "bridge_store \<Rightarrow> ProductionLifecycle" where
  "production_lifecycle s =
    (if \<not> sto_sealed s then PL_Bootstrap
     else if sto_bootstrap_controller s \<noteq> None then PL_OperationalConfigSealed
     else PL_Activated)"

definition activation_admission_open :: "bridge_store \<Rightarrow> bool" where
  "activation_admission_open s \<longleftrightarrow> sto_sealed s \<and> ad_deposits_paused (sto_admin s)"

definition attestation_refresh_expected_paused :: "bridge_store \<Rightarrow> bool governance_result" where
  "attestation_refresh_expected_paused s =
    (if \<not> sto_sealed s then Inl BG_InvalidArgument
     else let expected_paused = (sto_bootstrap_controller s \<noteq> None);
         deposits_paused = ad_deposits_paused (sto_admin s)
       in if \<not> activation_base_preflight_matches True deposits_paused deposits_paused expected_paused
       then Inl BG_InvalidArgument else Inr expected_paused)"

definition require_next_governance_operation_id :: "u64 \<Rightarrow> bridge_store \<Rightarrow> unit governance_result" where
  "require_next_governance_operation_id expected s =
    (if expected = - 1 \<or> gc_next_governance_operation_id (sto_control s) \<noteq> expected
     then Inl BG_InvalidArgument else Inr ())"

definition caller_roles :: "bytes \<Rightarrow> bridge_store \<Rightarrow> bool \<times> bool" where
  "caller_roles caller s =
    (if caller = anonymous then (False, False)
     else (ad_governance_principal (sto_admin s) = caller, ad_pause_principal (sto_admin s) = caller))"

definition attestation_refresh_authorized :: "BridgeInitArgs \<Rightarrow> bytes \<Rightarrow> bool" where
  "attestation_refresh_authorized config caller \<longleftrightarrow> caller \<noteq> anonymous
    \<and> (caller = bia_governance_principal config \<or> caller = bs_confirmation_relayer_principal config)"

definition require_governance_or_pause :: "bytes \<Rightarrow> bridge_store \<Rightarrow> unit governance_result" where
  "require_governance_or_pause caller s =
    (let (governance, pause) = caller_roles caller s in
      if governance \<or> pause then Inr () else Inl BG_Unauthorized)"

definition require_operational_config_sealed :: "bridge_store \<Rightarrow> unit governance_result" where
  "require_operational_config_sealed s = (case asset_operation_lifecycle_decision (sto_sealed s) of
      AOL_Allow \<Rightarrow> Inr () | AOL_OperationalConfigNotSealed \<Rightarrow> Inl BG_InvalidArgument)"

definition require_operational_config_unsealed :: "bridge_store \<Rightarrow> unit governance_result" where
  "require_operational_config_unsealed s =
    (if operational_config_seal_decision (sto_sealed s) True = OCS_Seal then Inr () else Inl BG_InvalidArgument)"

definition require_operational_config_seal_caller ::
    "(bytes \<Rightarrow> bool) \<Rightarrow> bytes \<Rightarrow> bridge_store \<Rightarrow> unit governance_result" where
  "require_operational_config_seal_caller is_controller caller s =
    (if operational_config_seal_caller_authorized (caller \<noteq> anonymous \<and> is_controller caller)
        (production_lifecycle s = PL_Bootstrap)
     then Inr () else Inl BG_Unauthorized)"

definition require_confirmation_caller :: "bytes \<Rightarrow> bridge_store \<Rightarrow> unit governance_result" where
  "require_confirmation_caller caller s =
    (if confirmation_caller_authorized (caller \<noteq> anonymous)
        (caller = bs_confirmation_relayer_principal (sto_config s))
        (caller = ad_governance_principal (sto_admin s)) (caller = ad_pause_principal (sto_admin s))
     then Inr () else Inl BG_Unauthorized)"

subsection \<open>The sole controller during bootstrap\<close>

text \<open>A snapshot of the authority is the controller that was observed to be the only one.\<close>

definition current_controller_authority :: "environment \<Rightarrow> nat \<Rightarrow> bytes \<Rightarrow> bytes endpoint" where
  "current_controller_authority E n expected =
    andThen (answer E n (env_controllers E n)) (\<lambda>controllers.
      query (\<lambda>_. if controllers = [expected] then Inr expected else Inl BG_Unauthorized))"

definition INITIAL_ACTIVATION_PHASE_SCHEDULE :: u8 where
  "INITIAL_ACTIVATION_PHASE_SCHEDULE = 0"

definition INITIAL_ACTIVATION_PHASE_EXECUTE :: u8 where
  "INITIAL_ACTIVATION_PHASE_EXECUTE = 1"

definition activation_action_phase :: "GovernanceAction \<Rightarrow> u8 option" where
  "activation_action_phase action = (case action of
      GA_ScheduleActivation \<Rightarrow> Some INITIAL_ACTIVATION_PHASE_SCHEDULE
    | GA_ExecuteActivation \<Rightarrow> Some INITIAL_ACTIVATION_PHASE_EXECUTE
    | _ \<Rightarrow> None)"

definition activation_transaction_phase :: "GovernanceTransactionKind \<Rightarrow> u8 option" where
  "activation_transaction_phase kind = (case kind of
      GK_ScheduleActivation _ _ \<Rightarrow> Some INITIAL_ACTIVATION_PHASE_SCHEDULE
    | GK_ExecuteActivation _ _ \<Rightarrow> Some INITIAL_ACTIVATION_PHASE_EXECUTE
    | _ \<Rightarrow> None)"

definition capture_action_controller_authority ::
    "environment \<Rightarrow> nat \<Rightarrow> GovernanceAction \<Rightarrow> bytes option \<Rightarrow> bytes option endpoint" where
  "capture_action_controller_authority E n action authority = (case authority of
      Some controller \<Rightarrow> andThen (current_controller_authority E n controller) (\<lambda>c. give (Some c))
    | None \<Rightarrow> query (\<lambda>s. if activation_action_phase action \<noteq> None \<and> sto_bootstrap_controller s \<noteq> None
        then Inl BG_Unauthorized else Inr None))"

definition capture_transaction_controller_authority ::
    "environment \<Rightarrow> nat \<Rightarrow> GovernanceTransaction \<Rightarrow> bytes option endpoint" where
  "capture_transaction_controller_authority E n t =
    (if activation_transaction_phase (gt_kind t) = None
     then query (\<lambda>_. if gt_activation_controller_authority t = None then Inr None else Inl BG_Unauthorized)
     else andThen (query (\<lambda>s. if activation_admission_open s then Inr (sto_bootstrap_controller s)
         else Inl BG_Unauthorized)) (\<lambda>bootstrap.
       case gt_activation_controller_authority t of
         Some controller \<Rightarrow>
           if bootstrap = Some controller
           then andThen (current_controller_authority E n controller) (\<lambda>c. give (Some c))
           else fail BG_Unauthorized
       | None \<Rightarrow> if bootstrap = None then give None else fail BG_Unauthorized))"

definition require_unchanged_controller_authority :: "environment \<Rightarrow> nat \<Rightarrow> bytes \<Rightarrow> unit endpoint" where
  "require_unchanged_controller_authority E n expected =
    andThen (current_controller_authority E n expected) (\<lambda>_. give ())"

definition activation_caller_authorized :: "(bytes \<Rightarrow> bool) \<Rightarrow> bytes \<Rightarrow> bool \<Rightarrow> u8 \<Rightarrow> bridge_store \<Rightarrow> bool" where
  "activation_caller_authorized is_controller caller governance phase s =
    (let bootstrap = sto_bootstrap_controller s;
         current = (case bootstrap of None \<Rightarrow> False | Some p \<Rightarrow> is_controller p)
     in activation_prepare_authorized (bootstrap = Some caller \<and> current) governance
          (activation_admission_open s) (bootstrap \<noteq> None) phase)"

definition require_action_authorization ::
    "(bytes \<Rightarrow> bool) \<Rightarrow> bytes \<Rightarrow> GovernanceAction \<Rightarrow> bridge_store \<Rightarrow> bytes option governance_result" where
  "require_action_authorization is_controller caller action s =
    (let (governance, pause) = caller_roles caller s;
         authorized = (case activation_action_phase action of
             Some phase \<Rightarrow> activation_caller_authorized is_controller caller governance phase s
           | None \<Rightarrow> action_authorized governance pause action)
     in if \<not> authorized then Inl BG_Unauthorized
        else Inr (if activation_action_phase action \<noteq> None \<and> sto_bootstrap_controller s = Some caller
            \<and> is_controller caller then Some caller else None))"

definition revalidate_action_authorization ::
    "environment \<Rightarrow> nat \<Rightarrow> bytes \<Rightarrow> GovernanceAction \<Rightarrow> bytes option \<Rightarrow> bytes option \<Rightarrow> unit endpoint" where
  "revalidate_action_authorization E n caller action expected snapshot =
    andThen (query (require_action_authorization (env_is_controller E n) caller action)) (\<lambda>current.
    if current \<noteq> expected then fail BG_Unauthorized
    else (case (expected, snapshot) of
        (Some authority, Some controller) \<Rightarrow>
          if authority = controller then require_unchanged_controller_authority E (Suc n) controller
          else fail BG_Unauthorized
      | (None, None) \<Rightarrow> give ()
      | _ \<Rightarrow> fail BG_Unauthorized))"

definition require_transaction_authorization ::
    "(bytes \<Rightarrow> bool) \<Rightarrow> bytes \<Rightarrow> GovernanceTransaction \<Rightarrow> bridge_store \<Rightarrow> unit governance_result" where
  "require_transaction_authorization is_controller caller t s =
    (let (governance, pause) = caller_roles caller s in
      if (case activation_transaction_phase (gt_kind t) of
          Some phase \<Rightarrow> activation_caller_authorized is_controller caller governance phase s
            \<and> (case gt_activation_controller_authority t of
                Some controller \<Rightarrow> controller = caller | None \<Rightarrow> governance)
        | None \<Rightarrow> gt_activation_controller_authority t = None
            \<and> transaction_authorized governance pause (gt_kind t))
      then Inr () else Inl BG_Unauthorized)"

definition require_transaction_controller_authority ::
    "environment \<Rightarrow> nat \<Rightarrow> GovernanceTransaction \<Rightarrow> bytes option \<Rightarrow> unit endpoint" where
  "require_transaction_controller_authority E n t snapshot =
    (if activation_transaction_phase (gt_kind t) = None
     then query (\<lambda>_. if gt_activation_controller_authority t = None \<and> snapshot = None
       then Inr () else Inl BG_Unauthorized)
     else andThen (query (\<lambda>s. if activation_admission_open s then Inr (sto_bootstrap_controller s)
         else Inl BG_Unauthorized)) (\<lambda>bootstrap.
       case gt_activation_controller_authority t of
         Some controller \<Rightarrow>
           if bootstrap = Some controller \<and> snapshot = Some controller
           then require_unchanged_controller_authority E n controller
           else fail BG_Unauthorized
       | None \<Rightarrow> if bootstrap = None \<and> snapshot = None then give () else fail BG_Unauthorized))"

section \<open>Preflight and balances\<close>

record preflight_answers =
  pre_bridge_signer :: "bytes option"
  pre_governance_operator :: "bytes option"
  pre_runtime_administrator :: "bytes option"
  pre_independent_canceller :: "bytes option"
  pre_snapshot :: "CompletedFinalizedObservation option"
  pre_deployment :: "DeploymentPostconditionsObservation option"

record ActivationPreflightEvidence =
  ape_attestation :: ActivationAttestation
  ape_finalized_observation :: FinalizedObservationRecord

definition deployment_bound ::
    "BridgeInitArgs \<Rightarrow> CompletedFinalizedObservation \<Rightarrow> DeploymentPostconditionsObservation
      \<Rightarrow> bytes \<Rightarrow> bytes \<Rightarrow> bytes \<Rightarrow> bool" where
  "deployment_bound config observed deployment governance_operator runtime_administrator independent_canceller \<longleftrightarrow>
    dpo_bridge_timelock deployment = bs_timelock_contract config
    \<and> dpo_runtime_administrator deployment = runtime_administrator
    \<and> dpo_timelock_admin deployment = bs_timelock_contract config
    \<and> dpo_timelock_proposer deployment = governance_operator
    \<and> dpo_timelock_canceller deployment = independent_canceller
    \<and> dpo_timelock_executor deployment = governance_operator
    \<and> runtime_administrator \<noteq> governance_operator
    \<and> runtime_administrator \<noteq> independent_canceller
    \<and> governance_operator \<noteq> independent_canceller
    \<and> dpo_timelock_runtime_code_hash deployment = dpo_bridge_approved_timelock_runtime_code_hash deployment
    \<and> dpo_timelock_minimum_delay_seconds deployment = bs_expected_timelock_minimum_delay_seconds config
    \<and> dpo_bsns_bridge deployment = bs_bridge_contract config
    \<and> dpo_bsns_runtime_sha256 deployment = bs_expected_bsns_runtime_sha256 config
    \<and> dpo_bsns_decimals deployment = bs_expected_bsns_decimals config
    \<and> dpo_minimum_service_fee deployment = bs_expected_minimum_service_fee config
    \<and> bs_expected_minimum_service_fee config \<le> bms_service_fee (osn_mint (cfo_snapshot observed))
    \<and> dpo_bsns_name deployment = ''KINIC''
    \<and> dpo_bsns_symbol deployment = ''KINIC''"

definition preflight_attestation ::
    "BridgeInitArgs \<Rightarrow> CompletedFinalizedObservation \<Rightarrow> DeploymentPostconditionsObservation
      \<Rightarrow> ActivationAttestation" where
  "preflight_attestation config observed deployment =
    \<lparr> att_chain_id = bs_base_chain_id config,
      att_finalized_block_number = fob_block_number (cfo_finalized observed),
      att_finalized_block_hash = fob_block_hash (cfo_finalized observed),
      att_observed_at_ns = fob_observed_at_ns (cfo_finalized observed),
      att_bridge_signer = osn_bridge_signer (cfo_snapshot observed),
      att_bridge_runtime_sha256 = obi_runtime_sha256 (cfo_bridge_identity observed),
      att_deposits_paused = osn_deposits_paused (cfo_snapshot observed),
      att_withdrawals_paused = osn_withdrawals_paused (cfo_snapshot observed),
      att_bridge_timelock = dpo_bridge_timelock deployment,
      att_runtime_administrator = dpo_runtime_administrator deployment,
      att_timelock_admin = dpo_timelock_admin deployment,
      att_timelock_proposer = dpo_timelock_proposer deployment,
      att_timelock_canceller = dpo_timelock_canceller deployment,
      att_timelock_executor = dpo_timelock_executor deployment,
      att_timelock_runtime_code_hash = dpo_timelock_runtime_code_hash deployment,
      att_bridge_approved_timelock_runtime_code_hash =
        dpo_bridge_approved_timelock_runtime_code_hash deployment,
      att_timelock_minimum_delay_seconds = dpo_timelock_minimum_delay_seconds deployment,
      att_bsns_address = dpo_bsns_address deployment,
      att_bsns_runtime_sha256 = dpo_bsns_runtime_sha256 deployment,
      att_bsns_name = dpo_bsns_name deployment, att_bsns_symbol = dpo_bsns_symbol deployment,
      att_bsns_decimals = dpo_bsns_decimals deployment, att_bsns_bridge = dpo_bsns_bridge deployment,
      att_base_service_fee = bms_service_fee (osn_mint (cfo_snapshot observed)) \<rparr>"

text \<open>Six awaits: four addresses, the snapshot and the deployment.\<close>

definition activation_preflight ::
    "environment \<Rightarrow> nat \<Rightarrow> BridgeInitArgs \<Rightarrow> bool \<Rightarrow> preflight_answers \<Rightarrow> ActivationPreflightEvidence endpoint" where
  "activation_preflight E n config expected_paused A =
    andThen (answer E n (pre_bridge_signer A)) (\<lambda>expected_bridge_signer.
    andThen (answer E (n + 1) (pre_governance_operator A)) (\<lambda>governance_operator.
    andThen (answer E (n + 2) (pre_runtime_administrator A)) (\<lambda>runtime_administrator.
    andThen (answer E (n + 3) (pre_independent_canceller A)) (\<lambda>independent_canceller.
    andThen (query (\<lambda>s. ok_or BG_StorageFailure (runtime_attested s config))) (\<lambda>_.
    andThen (answer E (n + 4) (pre_snapshot A)) (\<lambda>observed.
    if \<not> activation_base_preflight_matches (osn_bridge_signer (cfo_snapshot observed) = expected_bridge_signer)
        (osn_deposits_paused (cfo_snapshot observed)) (osn_withdrawals_paused (cfo_snapshot observed))
        expected_paused
    then fail BG_ObservationUnavailable
    else andThen (answer E (n + 5) (pre_deployment A)) (\<lambda>deployment.
    if length (bs_timelock_contract config) \<noteq> 20 then fail BG_InvalidArgument
    else if \<not> deployment_bound config observed deployment governance_operator runtime_administrator
        independent_canceller
    then fail BG_ObservationUnavailable
    else andThen (query (\<lambda>s. if ad_deposits_paused (sto_admin s) \<noteq> expected_paused
        then Inl BG_ObservationUnavailable else Inr ())) (\<lambda>_.
    give \<lparr> ape_attestation = preflight_attestation config observed deployment,
      ape_finalized_observation = stable_observation observed (bs_base_chain_id config) \<rparr>))))))))"

record balance_answers =
  bal_finalized_block :: "unit option"
  bal_finalized :: "u128 option"
  bal_safe :: "u128 option"

definition affordability_error :: "u128 \<Rightarrow> u128 \<Rightarrow> u128 \<Rightarrow> BaseGovernanceError option" where
  "affordability_error finalized_wei safe_wei required_wei =
    (let (observed_wei, affordable) = governance_affordability_decision finalized_wei safe_wei required_wei in
      if affordable then None else Some (BG_InsufficientGovernanceBalance observed_wei required_wei))"

definition require_affordable ::
    "environment \<Rightarrow> nat \<Rightarrow> BridgeInitArgs \<Rightarrow> GovernanceTransactionEnvelope \<Rightarrow> balance_answers \<Rightarrow> unit endpoint" where
  "require_affordable E n config envelope A =
    andThen (query (\<lambda>_. ok_or BG_StorageFailure (transaction_liability_wei (gte_gas_limit envelope)
      (gte_max_fee_per_gas envelope)
      (efp_l1_fee_per_transaction_ceiling_wei (bs_governance_evm_fee config)) 0))) (\<lambda>required_wei.
    andThen (answer E n (bal_finalized_block A)) (\<lambda>_.
    andThen (await E (n + 1)) (\<lambda>_.
    query (\<lambda>_. try_bind (ok_or BG_ObservationUnavailable (bal_finalized A)) (\<lambda>finalized_balance.
      try_bind (ok_or BG_ObservationUnavailable (bal_safe A)) (\<lambda>safe_balance.
      case affordability_error finalized_balance safe_balance required_wei of
        Some e \<Rightarrow> Inl e | None \<Rightarrow> Inr ()))))))"

section \<open>Endpoints\<close>

subsection \<open>Sealing and attestation\<close>

record OperationalConfigSealReceipt =
  osr_lifecycle :: ProductionLifecycle
  osr_activation_attestation :: ActivationAttestation

definition seal_operational_config ::
    "environment \<Rightarrow> bytes \<Rightarrow> OperationalConfigArgs \<Rightarrow> preflight_answers \<Rightarrow> OperationalConfigSealReceipt endpoint" where
  "seal_operational_config E caller value A =
    andThen (query (require_operational_config_seal_caller (env_is_controller E 0) caller)) (\<lambda>_.
    andThen (query require_operational_config_unsealed) (\<lambda>_.
    andThen (query (require_next_governance_operation_id 0)) (\<lambda>_.
    if validate_seal_candidate value \<noteq> Inr () then fail BG_InvalidArgument
    else andThen (query (\<lambda>s. Inr (with_operational_config (store_config s) value))) (\<lambda>config.
    if validate (env_test E) (env_ids E) config \<noteq> Inr () then fail BG_InvalidArgument
    else andThen (current_controller_authority E 1 caller) (\<lambda>snapshot.
    andThen (activation_preflight E 2 config True A) (\<lambda>evidence.
    andThen (query (require_operational_config_seal_caller (env_is_controller E 7) caller)) (\<lambda>_.
    andThen (require_unchanged_controller_authority E 8 snapshot) (\<lambda>_.
    andThen (query require_operational_config_unsealed) (\<lambda>_.
    andThen (query (require_next_governance_operation_id 0)) (\<lambda>_.
    andThen (commit (\<lambda>_. BG_InvalidArgument) (\<lambda>s. map_result (Pair ())
      (store_seal_operational_config config 0 caller (ape_attestation evidence)
        (ape_finalized_observation evidence) s))) (\<lambda>_.
    query (\<lambda>s. Inr \<lparr> osr_lifecycle = production_lifecycle s,
      osr_activation_attestation = ape_attestation evidence \<rparr>))))))))))))"

definition refresh_activation_attestation ::
    "environment \<Rightarrow> bytes \<Rightarrow> preflight_answers \<Rightarrow> ActivationAttestation endpoint" where
  "refresh_activation_attestation E caller A =
    andThen (query require_operational_config_sealed) (\<lambda>_.
    andThen (query (\<lambda>s. Inr (store_config s))) (\<lambda>before.
    if \<not> attestation_refresh_authorized before caller then fail BG_Unauthorized
    else andThen (query attestation_refresh_expected_paused) (\<lambda>expected_paused.
    andThen (activation_preflight E 0 before expected_paused A) (\<lambda>evidence.
    andThen (query (\<lambda>s. if store_config s \<noteq> before \<or> \<not> attestation_refresh_authorized before caller
      then Inl BG_Unauthorized else Inr ())) (\<lambda>_.
    andThen (query attestation_refresh_expected_paused) (\<lambda>now_expected.
    if now_expected \<noteq> expected_paused then fail BG_InvalidArgument
    else andThen (commit (\<lambda>_. BG_StorageFailure) (\<lambda>s. map_result (Pair ())
      (store_refresh_activation_attestation (ape_attestation evidence) (ape_finalized_observation evidence) s)))
      (\<lambda>_. give (ape_attestation evidence))))))))"

subsection \<open>Preparing and signing\<close>

text \<open>The part of an endpoint that works on the control alone.\<close>

definition on_control ::
    "(GovernanceControl \<Rightarrow> 'a governance_result \<times> GovernanceControl) \<Rightarrow> 'a endpoint" where
  "on_control f s = (case f (sto_control s) of (r, control) \<Rightarrow> (r, s \<lparr> sto_control := control \<rparr>))"

definition write_control :: "(GovernanceControl \<Rightarrow> GovernanceControl storage_result) \<Rightarrow> unit endpoint" where
  "write_control f = commit (\<lambda>_. BG_StorageFailure) (\<lambda>s. map_result (\<lambda>control. ((), s \<lparr> sto_control := control \<rparr>))
    (f (sto_control s)))"

definition sign_prepared_transaction ::
    "(bytes \<Rightarrow> bytes) \<Rightarrow> ('k, 'sig) ecdsa \<Rightarrow> environment \<Rightarrow> nat \<Rightarrow> bytes \<Rightarrow> GovernanceTransaction \<Rightarrow> bytes option
      \<Rightarrow> SignerError + bytes \<times> bytes \<Rightarrow> u64 \<Rightarrow> GovernanceTransaction endpoint" where
  "sign_prepared_transaction keccak X E n caller t snapshot signature now =
    (if pending_signature_action t \<noteq> Inr PS_Sign then fail BG_StorageFailure
     else andThen (await E n) (\<lambda>_.
     andThen (query (\<lambda>_. sign_envelope keccak X (gt_envelope t) signature)) (\<lambda>_.
     andThen (query (require_transaction_authorization (env_is_controller E n) caller t)) (\<lambda>_.
     andThen (require_transaction_controller_authority E (Suc n) t snapshot) (\<lambda>_.
     on_control (\<lambda>control. sign_prepared keccak X control t signature (Inr ()) now))))))"

definition resume_pending ::
    "(bytes \<Rightarrow> bytes) \<Rightarrow> ('k, 'sig) ecdsa \<Rightarrow> environment \<Rightarrow> nat \<Rightarrow> bytes \<Rightarrow> BridgeInitArgs \<Rightarrow> GovernanceTransaction
      \<Rightarrow> bytes option \<Rightarrow> balance_answers \<Rightarrow> SignerError + bytes \<times> bytes \<Rightarrow> u64 \<Rightarrow> GovernanceTransaction endpoint" where
  "resume_pending keccak X E n caller config t snapshot balances signature now =
    andThen (query (require_transaction_authorization (env_is_controller E n) caller t)) (\<lambda>_.
    andThen (query (\<lambda>_. pending_signature_action t)) (\<lambda>action.
    case action of
      PS_Sign \<Rightarrow>
        andThen (require_affordable E (n + 1) config (gt_envelope t) balances) (\<lambda>_.
        andThen (query (require_transaction_authorization (env_is_controller E (n + 2)) caller t)) (\<lambda>_.
        andThen (require_transaction_controller_authority E (n + 3) t snapshot) (\<lambda>_.
        sign_prepared_transaction keccak X E (n + 4) caller t snapshot signature now)))
    | PS_ReturnSigned \<Rightarrow> give t))"

record prepare_answers =
  pa_fee_snapshot :: "CompletedFinalizedObservation option"
  pa_transaction_count :: "u64 option"
  pa_preflight :: preflight_answers
  pa_rotation :: "SignerError + ControlPlaneRotation"
  pa_balances :: balance_answers
  pa_signature :: "SignerError + bytes \<times> bytes"
  pa_now :: u64

definition timelocked_action :: "GovernanceAction \<Rightarrow> bool" where
  "timelocked_action action \<longleftrightarrow> action = GA_ScheduleActivation \<or> action = GA_ExecuteActivation
    \<or> action = GA_ScheduleControlPlaneRotation \<or> action = GA_ExecuteControlPlaneRotation"

definition check_service_fee ::
    "environment \<Rightarrow> bytes \<Rightarrow> GovernanceAction \<Rightarrow> bytes option \<Rightarrow> bytes option \<Rightarrow> BridgeInitArgs
      \<Rightarrow> CompletedFinalizedObservation option \<Rightarrow> unit endpoint" where
  "check_service_fee E caller action authority snapshot config fee_snapshot = (case action of
      GA_SetServiceFee amount \<Rightarrow>
        andThen (query (\<lambda>_. ok_or BG_InvalidArgument (bounded_nat_u128 amount))) (\<lambda>value.
        andThen (query (\<lambda>s. ok_or BG_StorageFailure (runtime_attested s config))) (\<lambda>_.
        andThen (answer E 1 fee_snapshot) (\<lambda>observed.
        andThen (commit (\<lambda>_. BG_StorageFailure) (cache_runtime_attestation config observed)) (\<lambda>_.
        andThen (revalidate_action_authorization E 1 caller action authority snapshot) (\<lambda>_.
        query (\<lambda>_. if service_fee_change_allowed value (bs_expected_minimum_service_fee config)
            (bms_max_service_fee (osn_mint (cfo_snapshot observed)))
          then Inr () else Inl BG_InvalidArgument))))))
    | _ \<Rightarrow> give ())"

text \<open>The last part: encode the action under the identifier that was read, check the balance, store
  the transaction and sign it.\<close>

definition prepare_fresh ::
    "(bytes \<Rightarrow> bytes) \<Rightarrow> (bytes \<Rightarrow> bytes) \<Rightarrow> ('k, 'sig) ecdsa \<Rightarrow> environment \<Rightarrow> bytes \<Rightarrow> GovernanceAction
      \<Rightarrow> bytes option \<Rightarrow> bytes option \<Rightarrow> BridgeInitArgs \<Rightarrow> GovernanceNonceLane \<Rightarrow> bool \<Rightarrow> u64 \<Rightarrow> u64
      \<Rightarrow> prepare_answers \<Rightarrow> GovernanceTransaction endpoint" where
  "prepare_fresh keccak sha256 X E caller action authority snapshot config lane initialized nonce oid A =
    andThen (if timelocked_action action
      then andThen (activation_preflight E 7 config True (pa_preflight A)) (\<lambda>_.
        revalidate_action_authorization E 12 caller action authority snapshot)
      else give ()) (\<lambda>_.
    andThen (query (\<lambda>s. Inr (sto_control s))) (\<lambda>control.
    andThen (if action = GA_ScheduleControlPlaneRotation then await E 14 else give ()) (\<lambda>_.
    andThen (query (\<lambda>_. encode_action keccak (deployment_of config) control action oid (pa_rotation A)))
      (\<lambda>(kind, target, calldata).
    let t = \<lparr> gt_id = oid, gt_kind = kind,
        gt_envelope = initial_envelope (governance_policy config) oid (sha256 calldata) nonce
          (bs_base_chain_id config) target calldata,
        gt_state = GS_Prepared, gt_activation_controller_authority = authority \<rparr>
    in
    andThen (require_affordable E 15 config (gt_envelope t) (pa_balances A)) (\<lambda>_.
    andThen (query (require_transaction_authorization (env_is_controller E 16) caller t)) (\<lambda>_.
    andThen (require_transaction_controller_authority E 17 t snapshot) (\<lambda>_.
    andThen (if initialized then give ()
      else write_control (\<lambda>control. initialize_governance_nonce_for control lane nonce)) (\<lambda>_.
    andThen (write_control (\<lambda>control. prepare_governance_transaction control t)) (\<lambda>_.
    sign_prepared_transaction keccak X E 18 caller t snapshot (pa_signature A) (pa_now A))))))))))"

definition prepare_action ::
    "(bytes \<Rightarrow> bytes) \<Rightarrow> (bytes \<Rightarrow> bytes) \<Rightarrow> ('k, 'sig) ecdsa \<Rightarrow> environment \<Rightarrow> bytes \<Rightarrow> GovernanceAction
      \<Rightarrow> prepare_answers \<Rightarrow> GovernanceTransaction endpoint" where
  "prepare_action keccak sha256 X E caller action A =
    andThen (query require_operational_config_sealed) (\<lambda>_.
    andThen (query (require_action_authorization (env_is_controller E 0) caller action)) (\<lambda>authority.
    andThen (capture_action_controller_authority E 0 action authority) (\<lambda>snapshot.
    andThen (query (\<lambda>s. Inr (store_config s))) (\<lambda>config.
    andThen (check_service_fee E caller action authority snapshot config (pa_fee_snapshot A)) (\<lambda>_.
    andThen (query (\<lambda>s. operator_address_for_role (sto_control s) (action_signer_role action))) (\<lambda>_.
    andThen (revalidate_action_authorization E 3 caller action authority snapshot) (\<lambda>_.
    case action_nonce_lane action of
      None \<Rightarrow> fail BG_StorageFailure
    | Some lane \<Rightarrow>
      andThen (query (\<lambda>s. Inr (fst (nonce_state (sto_control s) lane), pending_transaction (sto_control s) lane)))
        (\<lambda>(initialized, pending).
      case pending of
        Some t \<Rightarrow>
          andThen (query (require_transaction_authorization (env_is_controller E 4) caller t)) (\<lambda>_.
          if \<not> action_matches_pending action (gt_kind t) then fail (BG_Busy (gt_id t))
          else resume_pending keccak X E 20 caller config t snapshot (pa_balances A) (pa_signature A) (pa_now A))
      | None \<Rightarrow>
          andThen (if initialized then give None
            else andThen (answer E 5 (pa_transaction_count A)) (\<lambda>count. give (Some count))) (\<lambda>observed_nonce.
          andThen (revalidate_action_authorization E 5 caller action authority snapshot) (\<lambda>_.
          andThen (query (\<lambda>s. Inr (nonce_state (sto_control s) lane, gc_next_governance_operation_id (sto_control s),
            pending_transaction (sto_control s) lane))) (\<lambda>((initialized, stored_nonce), oid, pending).
          case pending of
            Some t \<Rightarrow>
              andThen (query (require_transaction_authorization (env_is_controller E 6) caller t)) (\<lambda>_.
              fail (BG_Busy (gt_id t)))
          | None \<Rightarrow>
              andThen (query (\<lambda>_. if initialized then Inr stored_nonce
                else ok_or BG_StorageFailure observed_nonce)) (\<lambda>nonce.
              prepare_fresh keccak sha256 X E caller action authority snapshot config lane initialized
                nonce oid A))))))))))))"

definition emergency_action :: "GovernanceTransactionKind option \<Rightarrow> GovernanceAction option" where
  "emergency_action kind = (case kind of
      Some GK_PauseDepositMints \<Rightarrow> Some GA_PauseDepositMints
    | Some GK_PauseWithdrawals \<Rightarrow> Some GA_PauseWithdrawals
    | Some (GK_CancelTimelock _) \<Rightarrow> Some GA_CancelPendingTimelock
    | _ \<Rightarrow> None)"

definition prepare_next_emergency ::
    "(bytes \<Rightarrow> bytes) \<Rightarrow> (bytes \<Rightarrow> bytes) \<Rightarrow> ('k, 'sig) ecdsa \<Rightarrow> environment \<Rightarrow> bytes
      \<Rightarrow> prepare_answers \<Rightarrow> GovernanceTransaction endpoint" where
  "prepare_next_emergency keccak sha256 X E caller A =
    andThen (query require_operational_config_sealed) (\<lambda>_.
    andThen (query (require_governance_or_pause caller)) (\<lambda>_.
    andThen (query (\<lambda>s. case next_emergency_base_action (sto_control s) of
        Inl _ \<Rightarrow> Inl BG_StorageFailure | Inr k \<Rightarrow> Inr k)) (\<lambda>next_kind.
    andThen (query (\<lambda>s. Inr (Option.bind next_kind (\<lambda>k. pending_transaction (sto_control s) (nonce_lane k)))))
      (\<lambda>pending.
    let prepare_next = (case emergency_action next_kind of
        Some action \<Rightarrow> prepare_action keccak sha256 X E caller action A
      | None \<Rightarrow> fail BG_InvalidArgument)
    in case pending of
        None \<Rightarrow> prepare_next
      | Some t \<Rightarrow>
          if \<not> is_emergency_kind (gt_kind t)
          then if dangerous_governance_kind (gt_kind t) \<and> gt_state t = GS_Prepared
            then andThen (write_control (\<lambda>control. abort_prepared_governance_transaction_for_emergency control t))
              (\<lambda>_. prepare_next)
            else fail (BG_Busy (gt_id t))
          else
            andThen (query (require_transaction_authorization (env_is_controller E 0) caller t)) (\<lambda>_.
            andThen (query (\<lambda>s. Inr (store_config s))) (\<lambda>config.
            andThen (query (\<lambda>s. transaction_operator (sto_control s) t)) (\<lambda>_.
            resume_pending keccak X E 20 caller config t None (pa_balances A) (pa_signature A) (pa_now A))))))))"

subsection \<open>Replacing\<close>

definition replace_transaction ::
    "(bytes \<Rightarrow> bytes) \<Rightarrow> ('k, 'sig) ecdsa \<Rightarrow> environment \<Rightarrow> bytes \<Rightarrow> u64 \<Rightarrow> bytes \<Rightarrow> nat \<Rightarrow> nat
      \<Rightarrow> balance_answers \<Rightarrow> SignerError + bytes \<times> bytes \<Rightarrow> u64 \<Rightarrow> GovernanceTransaction endpoint" where
  "replace_transaction keccak X E caller oid expected_hash max_fee max_priority balances signature now =
    andThen (query require_operational_config_sealed) (\<lambda>_.
    andThen (query (\<lambda>_. hash32 expected_hash)) (\<lambda>expected.
    andThen (query (\<lambda>_. ok_or BG_InvalidArgument (bounded_nat_u128 max_fee))) (\<lambda>fee.
    andThen (query (\<lambda>_. ok_or BG_InvalidArgument (bounded_nat_u128 max_priority))) (\<lambda>priority.
    andThen (query (\<lambda>s. Inr (store_config s))) (\<lambda>config.
    andThen (query (\<lambda>s. find_pending (sto_control s) oid)) (\<lambda>t.
    andThen (query (\<lambda>s. transaction_operator (sto_control s) t)) (\<lambda>_.
    andThen (query (require_transaction_authorization (env_is_controller E 0) caller t)) (\<lambda>_.
    andThen (capture_transaction_controller_authority E 0 t) (\<lambda>snapshot.
    andThen (query (\<lambda>_. replacement_allowed (governance_policy config) t expected fee priority)) (\<lambda>current.
    let t' = reprice t fee priority in
    andThen (require_affordable E 1 config (gt_envelope t') balances) (\<lambda>_.
    andThen (query (require_transaction_authorization (env_is_controller E 2) caller t')) (\<lambda>_.
    andThen (require_transaction_controller_authority E 3 t' snapshot) (\<lambda>_.
    andThen (await E 4) (\<lambda>_.
    andThen (query (\<lambda>_. sign_envelope keccak X (gt_envelope t') signature)) (\<lambda>raw.
    andThen (query (require_transaction_authorization (env_is_controller E 4) caller t')) (\<lambda>_.
    andThen (require_transaction_controller_authority E 5 t' snapshot) (\<lambda>_.
    on_control (\<lambda>control. replacement_commit keccak control t' current raw now))))))))))))))))))"

subsection \<open>Confirming\<close>

record BaseGovernanceConfirmation =
  bgc_operation_id :: u64
  bgc_transaction_hash :: bytes
  bgc_receipt_block_number :: u64
  bgc_succeeded :: bool

definition completed_confirmation ::
    "u64 \<Rightarrow> bytes \<Rightarrow> GovernanceControl \<Rightarrow> BaseGovernanceConfirmation governance_result" where
  "completed_confirmation oid transaction_hash c =
    (case find (\<lambda>t. gt_id t = oid) (completed_governance_transactions c) of
      None \<Rightarrow> Inl BG_InvalidArgument
    | Some completed \<Rightarrow>
        (case gt_state completed of
          GS_Confirmed completed_hash block \<Rightarrow>
            if completed_hash = transaction_hash
            then Inr \<lparr> bgc_operation_id = gt_id completed, bgc_transaction_hash = completed_hash,
              bgc_receipt_block_number = block, bgc_succeeded = True \<rparr>
            else Inl BG_InvalidArgument
        | GS_Reverted completed_hash block \<Rightarrow>
            if completed_hash = transaction_hash
            then Inr \<lparr> bgc_operation_id = gt_id completed, bgc_transaction_hash = completed_hash,
              bgc_receipt_block_number = block, bgc_succeeded = False \<rparr>
            else Inl BG_InvalidArgument
        | _ \<Rightarrow> Inl BG_InvalidArgument))"

record confirm_answers =
  cf_receipt :: "ConfirmedReceiptOutcome option"
  cf_snapshot :: "CompletedFinalizedObservation option"
  cf_deployment :: "DeploymentPostconditionsObservation option"
  cf_now :: u64

definition control_plane_rotation_postcondition_matches ::
    "ObservedSnapshot \<Rightarrow> DeploymentPostconditionsObservation \<Rightarrow> ControlPlaneRotation \<Rightarrow> bool" where
  "control_plane_rotation_postcondition_matches observed deployment expected \<longleftrightarrow>
    osn_deposits_paused observed
    \<and> osn_bridge_signer observed = cpr_bridge_signer expected
    \<and> dpo_runtime_administrator deployment = cpr_runtime_administrator expected
    \<and> dpo_timelock_proposer deployment = cpr_governance_operator expected
    \<and> dpo_timelock_executor deployment = cpr_governance_operator expected
    \<and> dpo_timelock_canceller deployment = cpr_independent_canceller expected"

text \<open>What a final receipt is worth: its block and success.\<close>

definition final_receipt :: "u64 \<Rightarrow> ConfirmedReceiptOutcome \<Rightarrow> (u64 \<times> bool) governance_result" where
  "final_receipt oid outcome = (case outcome of
      RO_Missing \<Rightarrow> Inl (BG_TransactionNotFinalized oid)
    | RO_Pending _ \<Rightarrow> Inl (BG_TransactionNotFinalized oid)
    | RO_Succeeded block _ \<Rightarrow> Inr (block, True)
    | RO_Reverted block _ \<Rightarrow> Inr (block, False))"

definition is_activation :: "GovernanceTransactionKind \<Rightarrow> bool" where
  "is_activation kind = (case kind of GK_ExecuteActivation _ _ \<Rightarrow> True | _ \<Rightarrow> False)"

text \<open>The postconditions of an activation and of a rotation on Base, at the finalized head of the
  receipt's observation.\<close>

definition confirm_postcondition ::
    "environment \<Rightarrow> bytes \<Rightarrow> GovernanceTransaction \<Rightarrow> bytes option \<Rightarrow> BridgeInitArgs \<Rightarrow> confirm_answers
      \<Rightarrow> CompletedFinalizedObservation option endpoint" where
  "confirm_postcondition E caller t snapshot config A = (case gt_kind t of
      GK_ExecuteActivation _ _ \<Rightarrow>
        andThen (query (\<lambda>s. ok_or BG_StorageFailure (runtime_attested s config))) (\<lambda>_.
        andThen (answer E 4 (cf_snapshot A)) (\<lambda>observed.
        andThen (query (require_confirmation_caller caller)) (\<lambda>_.
        andThen (require_transaction_controller_authority E 5 t snapshot) (\<lambda>_.
        if \<not> activation_postcondition_matches (osn_deposits_paused (cfo_snapshot observed))
            (osn_withdrawals_paused (cfo_snapshot observed))
        then fail BG_ObservationUnavailable else give (Some observed)))))
    | GK_ExecuteControlPlaneRotation _ _ rotation \<Rightarrow>
        andThen (query (\<lambda>s. ok_or BG_StorageFailure (runtime_attested s config))) (\<lambda>_.
        andThen (answer E 4 (cf_snapshot A)) (\<lambda>observed.
        andThen (answer E 5 (cf_deployment A)) (\<lambda>deployment.
        andThen (query (require_confirmation_caller caller)) (\<lambda>_.
        andThen (require_transaction_controller_authority E 6 t snapshot) (\<lambda>_.
        if \<not> control_plane_rotation_postcondition_matches (cfo_snapshot observed) deployment rotation
        then fail BG_ObservationUnavailable else give (Some observed))))))
    | _ \<Rightarrow> give None)"

text \<open>An activation that succeeded resumes deposits; every other final transaction is completed.\<close>

definition complete_final :: "wire \<Rightarrow> GovernanceTransaction \<Rightarrow> u64 \<Rightarrow> unit endpoint" where
  "complete_final W t now =
    (if is_confirmed (gt_state t) \<and> is_activation (gt_kind t)
     then commit (\<lambda>_. BG_StorageFailure) (\<lambda>s. map_result (\<lambda>(_, s'). ((), s'))
       (complete_confirmed_activation_and_resume_if_clear W t (ad_governance_principal (sto_admin s)) now s))
     else write_control (\<lambda>control. apply_governance_completion control t))"

definition confirm_pending ::
    "environment \<Rightarrow> bytes \<Rightarrow> bytes \<Rightarrow> GovernanceTransaction \<Rightarrow> confirm_answers \<Rightarrow> BaseGovernanceConfirmation endpoint" where
  "confirm_pending E caller transaction_hash t A =
    andThen (capture_transaction_controller_authority E 0 t) (\<lambda>snapshot.
    if \<not> list_ex (\<lambda>signed. sgt_transaction_hash signed = transaction_hash)
        (gte_signed_transactions (gt_envelope t))
    then fail BG_InvalidArgument
    else andThen (require_transaction_controller_authority E 1 t snapshot) (\<lambda>_.
    andThen (query (\<lambda>s. Inr (store_config s))) (\<lambda>config.
    andThen (answer E 2 (cf_receipt A)) (\<lambda>outcome.
    andThen (query (require_confirmation_caller caller)) (\<lambda>_.
    andThen (require_transaction_controller_authority E 3 t snapshot) (\<lambda>_.
    andThen (query (\<lambda>_. final_receipt (gt_id t) outcome)) (\<lambda>(block, succeeded).
    andThen (if succeeded then confirm_postcondition E caller t snapshot config A else give None) (\<lambda>observed.
    let t' = t \<lparr> gt_state := (if succeeded then GS_Confirmed transaction_hash block
        else GS_Reverted transaction_hash block) \<rparr>
    in
    andThen (require_transaction_controller_authority E 7 t' snapshot) (\<lambda>_.
    andThen (case observed of
        Some o1 \<Rightarrow> commit (\<lambda>_. BG_StorageFailure) (cache_runtime_attestation config o1)
      | None \<Rightarrow> give ()) (\<lambda>_.
    andThen (complete_final (env_wire E) t' (cf_now A)) (\<lambda>_.
    if succeeded
    then give \<lparr> bgc_operation_id = gt_id t, bgc_transaction_hash = transaction_hash,
      bgc_receipt_block_number = block, bgc_succeeded = True \<rparr>
    else fail (BG_TransactionReverted (gt_id t)))))))))))))"

definition confirm ::
    "environment \<Rightarrow> bytes \<Rightarrow> u64 \<Rightarrow> bytes \<Rightarrow> confirm_answers \<Rightarrow> BaseGovernanceConfirmation endpoint" where
  "confirm E caller oid hash A =
    andThen (query require_operational_config_sealed) (\<lambda>_.
    andThen (query (require_confirmation_caller caller)) (\<lambda>_.
    andThen (query (\<lambda>_. hash32 hash)) (\<lambda>transaction_hash.
    andThen (query (\<lambda>s. Inr (find_pending (sto_control s) oid))) (\<lambda>pending.
    case pending of
      Inl _ \<Rightarrow> query (\<lambda>s. completed_confirmation oid transaction_hash (sto_control s))
    | Inr t \<Rightarrow> confirm_pending E caller transaction_hash t A))))"

subsection \<open>Proposals of the DAO\<close>

record ActivationStatus =
  ast_deposits_paused :: bool
  ast_pending_timelock_operation :: "PendingTimelockOperation option"
  ast_last_confirmed_activation :: "ConfirmedActivationRecord option"

definition activation_status :: "bridge_store \<Rightarrow> ActivationStatus" where
  "activation_status s =
    \<lparr> ast_deposits_paused = ad_deposits_paused (sto_admin s),
      ast_pending_timelock_operation =
        (if gc_pending_control_plane_rotation (sto_control s) \<noteq> None then None
         else gc_pending_timelock_operation (sto_control s)),
      ast_last_confirmed_activation = gc_last_confirmed_activation (sto_control s) \<rparr>"

definition validate_sns_activation_state ::
    "u64 \<Rightarrow> bool \<Rightarrow> ProductionLifecycle \<Rightarrow> ActivationStatus \<Rightarrow> string + unit" where
  "validate_sns_activation_state previous_governance_operation_id schedule lifecycle status =
    (case ast_last_confirmed_activation status of
      None \<Rightarrow> Inl ''Initial activation must be completed before DAO reactivation''
    | Some previous \<Rightarrow>
        if \<not> sns_activation_proposal_allowed (lifecycle = PL_Activated) (ast_deposits_paused status)
            (previous_governance_operation_id = car_governance_operation_id previous) schedule
            (ast_pending_timelock_operation status \<noteq> None) (car_phase previous = ''schedule'')
        then Inl ''Proposal does not match the current paused activation state''
        else Inr ())"

definition validate_sns_activation :: "bridge_store \<Rightarrow> u64 \<Rightarrow> bool \<Rightarrow> string + unit" where
  "validate_sns_activation s previous_governance_operation_id schedule =
    validate_sns_activation_state previous_governance_operation_id schedule (production_lifecycle s)
      (activation_status s)"

end
