(* ===== verification/Activation_Safety.thy ===== *)
theory Activation_Safety
  imports Activation
begin

text \<open>
  Safety of the lifecycle over every sequence of governance calls and outside calls.  The locale
  \<open>store_writes\<close> has the single writes of the endpoints as its contract: an invariant that each of
  them keeps is kept by the endpoints, whatever runs at their awaits.  \<open>store_invariant\<close> adds the
  completion of a transaction.
\<close>

section \<open>What the outside calls change\<close>

lemma store_frame:
  assumes "admin_store.more s' = admin_store.more s"
  shows "sto_control s' = sto_control s" "sto_sealed s' = sto_sealed s"
    "sto_bootstrap_controller s' = sto_bootstrap_controller s" "sto_config s' = sto_config s"
    "sto_progress s' = sto_progress s"
  using assms by (cases s; cases s'; simp)+

lemma mutate_frame:
  assumes "mutate W s caller now action = Some (Inr (e, s'))"
  shows "admin_store.more s' = admin_store.more s"
  using assms by (auto simp: mutate_def split: sum.splits prod.splits)

lemma request_frame:
  assumes "request_fee_payout W canister s caller amount now = Inr (v, s')"
  shows "admin_store.more s' = admin_store.more s \<and> sto_admin s' = sto_admin s"
proof -
  have "\<exists>x. commit_fee_payout_request W s v caller now = Inr s'"
    using request_ok(8) [OF assms] by blast
  then show ?thesis
    by (auto simp: commit_fee_payout_request_def Let_def result_simps from_db_eq_Inr split: if_splits prod.splits)
qed

lemma transition_frame:
  assumes "transition_fee_payout W s i tr scan = Inr s'"
  shows "admin_store.more s' = admin_store.more s \<and> sto_admin s' = sto_admin s"
  using assms
  by (auto simp: transition_fee_payout_def Let_def result_simps from_db_eq_Inr split: if_splits prod.splits option.splits)

lemma scan_frame:
  assumes "commit_fee_payout_scan W s p = Inr s' \<or> update_fee_payout_scan W s p q = Inr s'"
  shows "admin_store.more s' = admin_store.more s"
  using assms
proof
  assume "commit_fee_payout_scan W s p = Inr s'"
  then show ?thesis
    by (cases "reconciliation_scan W s (rsp_target p)")
      (auto simp: commit_fee_payout_scan_def result_simps from_db_eq_Inr split: ReconciliationTarget.splits if_splits)
next
  assume "update_fee_payout_scan W s p q = Inr s'"
  then show ?thesis
    by (auto simp: update_fee_payout_scan_def Let_def result_simps from_db_eq_Inr
        split: ReconciliationTarget.splits if_splits)
qed

lemma recipient_frame:
  assumes "rotate_fee_recipient W relayer s caller r now = Inr s'"
  shows "admin_store.more s' = admin_store.more s"
  using assms
  by (auto simp: rotate_fee_recipient_def rotate_fee_recipient_with_audit_def Let_def result_simps from_db_eq_Inr
      split: if_splits prod.splits FeeRecipientRotationDecision.splits)

lemma admin_step_frame:
  assumes "admin_step W canister relayer s call = Inr (u, s')"
  shows "admin_store.more s' = admin_store.more s
    \<and> (ad_deposits_paused (sto_admin s) \<longrightarrow> ad_deposits_paused (sto_admin s'))
    \<and> ad_governance_principal (sto_admin s') = ad_governance_principal (sto_admin s)"
proof (cases call)
  case (AC_Request caller amount now)
  then show ?thesis
    using assms by (auto simp: admin_step_def result_simps dest: request_frame)
next
  case (AC_Transition i tr scan)
  then have "transition_fee_payout W s i tr scan = Inr s'"
    using assms by (simp add: admin_step_def split: sum.splits)
  then show ?thesis
    by (simp add: transition_frame)
next
  case (AC_CommitScan p)
  then have "commit_fee_payout_scan W s p = Inr s'"
    using assms by (simp add: admin_step_def split: sum.splits)
  from scans_frame [OF disjI1, OF this] scan_frame [OF disjI1, OF this] show ?thesis
    by simp
next
  case (AC_UpdateScan p q)
  then have "update_fee_payout_scan W s p q = Inr s'"
    using assms by (simp add: admin_step_def split: sum.splits)
  from scans_frame [OF disjI2, OF this] scan_frame [OF disjI2, OF this] show ?thesis
    by simp
next
  case (AC_ConfirmFee kind amount)
  then show ?thesis
    using assms by (auto simp: admin_step_def split: sum.splits)
next
  case (AC_RotateRecipient caller r now)
  then show ?thesis
    using assms rotate_recipient_ok [of W relayer s caller r now s'] recipient_frame [of W relayer s caller r now s']
    by (auto simp: admin_step_def)
next
  case (AC_RotatePause caller pause now)
  then obtain e where "rotate_pause_principal W relayer s caller pause now = Some (Inr (e, s'))"
    using assms by (auto simp: admin_step_def result_simps split: option.splits)
  moreover from this have "admin_store.more s' = admin_store.more s"
    by (auto simp: rotate_pause_principal_def dest: mutate_frame split: if_splits)
  ultimately show ?thesis
    using rotate_pause_ok(1) by fastforce
next
  case (AC_Pause caller now)
  then obtain e where "pause_with_audit W s caller now = Some (Inr (e, s'))"
    using assms by (auto simp: admin_step_def result_simps split: option.splits)
  moreover from this have "admin_store.more s' = admin_store.more s"
    by (auto simp: pause_with_audit_def dest: mutate_frame)
  ultimately show ?thesis
    using pause_ok(2) by fastforce
qed

text \<open>What a control keeps when keys are cached or emergency actions are queued.\<close>

definition same_plan :: "GovernanceControl \<Rightarrow> GovernanceControl \<Rightarrow> bool" where
  "same_plan c c' \<longleftrightarrow> pending_transaction c' = pending_transaction c \<and> nonce_state c' = nonce_state c
    \<and> gc_next_governance_operation_id c' = gc_next_governance_operation_id c"

lemma same_plan_refl [simp]: "same_plan c c"
  by (simp add: same_plan_def)

lemma cached_same_plan [simp]:
  "same_plan c (snd (set_signer_public_key_if_absent c k))"
  "same_plan c (snd (set_governance_operator_public_key_if_absent c k))"
  "same_plan c (snd (set_signer_address_if_absent c a))"
  "same_plan c (enqueue_emergency_base_actions c)"
  by (auto simp: same_plan_def set_signer_public_key_if_absent_def Let_def
      set_governance_operator_public_key_if_absent_def set_signer_address_if_absent_def
      enqueue_emergency_base_actions_def fun_eq_iff pending_transaction_def nonce_state_def
      split: GovernanceNonceLane.splits)

lemma cached_emergency [simp]:
  "emergency_base_actions_pending (snd (set_signer_public_key_if_absent c k)) = emergency_base_actions_pending c"
  "emergency_base_actions_pending (snd (set_governance_operator_public_key_if_absent c k)) =
    emergency_base_actions_pending c"
  "emergency_base_actions_pending (snd (set_signer_address_if_absent c a)) = emergency_base_actions_pending c"
  by (simp_all add: emergency_base_actions_pending_def set_signer_public_key_if_absent_def Let_def
      set_governance_operator_public_key_if_absent_def set_signer_address_if_absent_def)

definition outside_change :: "bridge_store \<Rightarrow> bridge_store \<Rightarrow> bool" where
  "outside_change s s' \<longleftrightarrow> sto_sealed s' = sto_sealed s
    \<and> sto_bootstrap_controller s' = sto_bootstrap_controller s \<and> sto_config s' = sto_config s
    \<and> (ad_deposits_paused (sto_admin s) \<longrightarrow> ad_deposits_paused (sto_admin s'))
    \<and> ad_governance_principal (sto_admin s') = ad_governance_principal (sto_admin s)
    \<and> same_plan (sto_control s) (sto_control s')
    \<and> (emergency_base_actions_pending (sto_control s') \<longrightarrow>
        emergency_base_actions_pending (sto_control s) \<or> ad_deposits_paused (sto_admin s'))"

lemma emergency_pause_ok:
  assumes "emergency_pause W caller now s = Some (Inr (r, s'))"
  shows "outside_change s s' \<and> ad_deposits_paused (sto_admin s')
    \<and> sto_control s' = enqueue_emergency_base_actions (sto_control s)"
proof -
  obtain e s1 where p: "pause_with_audit W s caller now = Some (Inr (e, s1))"
    and s': "s' = s1 \<lparr> sto_control := enqueue_emergency_base_actions (sto_control s1) \<rparr>"
    using assms by (auto simp: emergency_pause_def Let_def split: option.splits sum.splits)
  have "admin_store.more s1 = admin_store.more s"
    using p by (auto simp: pause_with_audit_def dest: mutate_frame)
  from store_frame [OF this] show ?thesis
    using pause_ok(2) [OF p] s' by (simp add: outside_change_def)
qed

lemma outside_step_change:
  assumes "outside_step W canister s call = Inr (u, s')"
  shows "outside_change s s'"
proof (cases call)
  case (OC_Admin c)
  then have f: "admin_store.more s' = admin_store.more s
    \<and> (ad_deposits_paused (sto_admin s) \<longrightarrow> ad_deposits_paused (sto_admin s'))
    \<and> ad_governance_principal (sto_admin s') = ad_governance_principal (sto_admin s)"
    using assms admin_step_frame by (simp add: outside_step_def)
  from store_frame [OF f [THEN conjunct1]] f show ?thesis
    by (simp add: outside_change_def)
next
  case (OC_EmergencyPause caller now)
  then show ?thesis
    using assms by (auto simp: outside_step_def dest!: emergency_pause_ok split: option.splits sum.splits)
next
  case (OC_Observe o1)
  then show ?thesis
    using assms by (auto simp: outside_step_def outside_change_def split: sum.splits)
qed (use assms in \<open>auto simp: outside_step_def outside_change_def\<close>)

section \<open>Calls\<close>

text \<open>The endpoints and the outside calls as one machine.  An endpoint that fails keeps what it wrote
  before, so every call is a step.\<close>

datatype governance_request =
    RQ_Seal bytes OperationalConfigArgs preflight_answers
  | RQ_Refresh bytes preflight_answers
  | RQ_Prepare bytes GovernanceAction prepare_answers
  | RQ_NextEmergency bytes prepare_answers
  | RQ_Replace bytes u64 bytes nat nat balance_answers "SignerError + bytes \<times> bytes" u64
  | RQ_Confirm bytes u64 bytes confirm_answers
  | RQ_Outside outside_call

definition serve ::
    "(bytes \<Rightarrow> bytes) \<Rightarrow> (bytes \<Rightarrow> bytes) \<Rightarrow> ('k, 'sig) ecdsa \<Rightarrow> environment \<Rightarrow> governance_request \<Rightarrow> unit endpoint" where
  "serve keccak sha256 X E rq = (case rq of
      RQ_Seal caller value A \<Rightarrow> andThen (seal_operational_config E caller value A) (\<lambda>_. give ())
    | RQ_Refresh caller A \<Rightarrow> andThen (refresh_activation_attestation E caller A) (\<lambda>_. give ())
    | RQ_Prepare caller action A \<Rightarrow> andThen (prepare_action keccak sha256 X E caller action A) (\<lambda>_. give ())
    | RQ_NextEmergency caller A \<Rightarrow> andThen (prepare_next_emergency keccak sha256 X E caller A) (\<lambda>_. give ())
    | RQ_Replace caller oid h fee priority balances signature now \<Rightarrow>
        andThen (replace_transaction keccak X E caller oid h fee priority balances signature now) (\<lambda>_. give ())
    | RQ_Confirm caller oid h A \<Rightarrow> andThen (confirm E caller oid h A) (\<lambda>_. give ())
    | RQ_Outside call \<Rightarrow> interleave (\<lambda>s. deliver (outside_step (env_wire E) (env_canister E)) s call))"

definition bridge_call_step ::
    "(bytes \<Rightarrow> bytes) \<Rightarrow> (bytes \<Rightarrow> bytes) \<Rightarrow> ('k, 'sig) ecdsa
      \<Rightarrow> (bridge_store, environment \<times> governance_request, unit, unit governance_result) machine" where
  "bridge_call_step keccak sha256 X s call = (case call of (E, rq) \<Rightarrow> Inr (serve keccak sha256 X E rq s))"

lemma complete_confirmed_ok:
  assumes "complete_confirmed_activation_and_resume_if_clear W t caller now s = Inr (b, s')"
  obtains control where "is_activation (gt_kind t)" "is_confirmed (gt_state t)"
    "apply_governance_completion (sto_control s) t = Inr control" "ad_deposits_paused (sto_admin s)"
    "sto_control s' = control" "sto_sealed s' = sto_sealed s" "sto_bootstrap_controller s' = None"
    "sto_config s' = sto_config s" "b \<longleftrightarrow> \<not> emergency_base_actions_pending control"
    "sto_admin s' = (sto_admin s) \<lparr> ad_deposits_paused := \<not> b \<rparr>"
  using assms
  by (auto simp: complete_confirmed_activation_and_resume_if_clear_def Let_def result_simps from_db_eq_Inr
      bootstrap_activation_authority_after_transition_def emergency_base_actions_pending_def
      is_activation_def split: if_splits prod.splits)

lemma complete_confirmed_sealed:
  "complete_confirmed_activation_and_resume_if_clear W t caller now s = Inr (b, s') \<Longrightarrow> sto_sealed s' = sto_sealed s"
  by (elim complete_confirmed_ok) simp

lemma store_seal_ok:
  assumes "store_seal_operational_config v oid controller a o1 s = Inr s'"
  obtains progress where "\<not> sto_sealed s"
    "s' = s \<lparr> sto_sealed := True, sto_bootstrap_controller := Some controller,
      sto_config := with_activation_attestation (from_init v) a, sto_progress := progress \<rparr>"
proof -
  have "\<not> sto_sealed s"
    using assms by (auto simp: store_seal_operational_config_def operational_config_seal_decision_def
        operational_config_seal_allowed_def split: if_splits)
  moreover obtain progress where "observe_finalized (sto_progress s) o1 = Inr progress"
    using assms by (cases "observe_finalized (sto_progress s) o1")
      (simp_all add: store_seal_operational_config_def split: if_splits)
  ultimately show thesis
    using assms by (intro that [of progress]) (simp_all add: store_seal_operational_config_def split: if_splits)
qed

lemma store_refresh_ok:
  assumes "store_refresh_activation_attestation a o1 s = Inr s'"
  obtains progress where
    "s' = s \<lparr> sto_config := with_activation_attestation (sto_config s) a, sto_progress := progress \<rparr>"
proof -
  obtain progress where "observe_finalized (sto_progress s) o1 = Inr progress"
    using assms by (cases "observe_finalized (sto_progress s) o1")
      (simp_all add: store_refresh_activation_attestation_def Let_def split: if_splits)
  then show thesis
    using assms by (intro that [of progress])
      (simp add: store_refresh_activation_attestation_def Let_def split: if_splits)
qed

lemma sealed_guard:
  assumes "keeps I sto_sealed (andThen (query require_operational_config_sealed) f)"
  shows "valid I (\<lambda>_. True) (andThen (query require_operational_config_sealed) f) (\<lambda>_. sto_sealed)"
proof -
  have "andThen (query require_operational_config_sealed) f s = (Inl BG_InvalidArgument, s)" if "\<not> sto_sealed s" for s
    using that by (simp add: andThen_def require_operational_config_sealed_def
        asset_operation_lifecycle_decision_def asset_operations_allowed_def)
  then show ?thesis
    using assms by (auto simp: valid_def) (metis fst_conv snd_conv sum.distinct(1))+
qed

lemma andThen_unit: "valid I P m R \<Longrightarrow> valid I P (andThen m (\<lambda>_. give ())) (\<lambda>_ _. True)"
  by (erule valid_andThen) (simp add: valid_def)

section \<open>The contract of the writes\<close>

text \<open>The answers of a confirmation that show the activation on Base: a succeeded receipt, and neither
  deposits nor withdrawals paused at the finalized head.\<close>

definition activation_observed :: "confirm_answers \<Rightarrow> bool" where
  "activation_observed A \<longleftrightarrow> (\<exists>o1. cf_snapshot A = Some o1
    \<and> \<not> osn_deposits_paused (cfo_snapshot o1) \<and> \<not> osn_withdrawals_paused (cfo_snapshot o1))"

definition stable :: "(bridge_store \<Rightarrow> bool) \<Rightarrow> bool" where
  "stable P \<longleftrightarrow> (\<forall>s s'. outside_change s s' \<longrightarrow> P s \<longrightarrow> P s')"

definition authority_bound :: "GovernanceTransaction \<Rightarrow> bridge_store \<Rightarrow> bool" where
  "authority_bound t s \<longleftrightarrow> (activation_transaction_phase (gt_kind t) \<noteq> None \<longrightarrow>
    gt_activation_controller_authority t = sto_bootstrap_controller s)"

definition bound_and_sealed :: "GovernanceTransaction \<Rightarrow> bridge_store \<Rightarrow> bool" where
  "bound_and_sealed t s \<longleftrightarrow> sto_sealed s \<and> authority_bound t s"

lemma stable_facts [simp, intro]: "stable sto_sealed" "stable (bound_and_sealed t)" "stable (\<lambda>_. True)"
  by (simp_all add: stable_def outside_change_def bound_and_sealed_def authority_bound_def)

lemma stable_bound:
  assumes "stable P"
  shows "stable (\<lambda>s. P s \<and> authority_bound t s)"
  unfolding stable_def
proof (intro allI impI)
  fix s s'
  assume change: "outside_change s s'" and P: "P s \<and> authority_bound t s"
  from assms change P have "P s'"
    unfolding stable_def by blast
  with change P show "P s' \<and> authority_bound t s'"
    by (simp add: outside_change_def authority_bound_def)
qed

lemma find_pending_same_plan: "same_plan c c' \<Longrightarrow> find_pending c' oid = find_pending c oid"
  by (simp only: same_plan_def find_pending_def pending_governance_transactions_def)

lemma stable_found: "stable (\<lambda>s. sto_sealed s \<and> find_pending (sto_control s) oid = Inr t)"
  unfolding stable_def outside_change_def by (auto simp: find_pending_same_plan)

lemma keep_then: "keeps I P m \<Longrightarrow> (\<And>x. valid I P (f x) R) \<Longrightarrow> valid I P (andThen m f) R"
  by (rule valid_andThen)

lemmas query_then = keep_then [OF keeps_query]

locale store_writes =
  fixes keccak :: "bytes \<Rightarrow> bytes" and X :: "('k, 'sig) ecdsa" and I :: "bridge_store \<Rightarrow> bool"
  assumes outside: "I s \<Longrightarrow> outside_step W canister s call = Inr (u, s') \<Longrightarrow> I s'"
    and sealing: "I s \<Longrightarrow> store_seal_operational_config v oid controller a o1 s = Inr s' \<Longrightarrow> I s'"
    and refreshing: "I s \<Longrightarrow> store_refresh_activation_attestation a o1 s = Inr s' \<Longrightarrow> I s'"
    and observing: "I s \<Longrightarrow> I (s \<lparr> sto_progress := p \<rparr>)"
    and initializing: "I s \<Longrightarrow> sto_sealed s \<Longrightarrow>
      initialize_governance_nonce_for (sto_control s) lane nonce = Inr c \<Longrightarrow> I (s \<lparr> sto_control := c \<rparr>)"
    and preparing: "I s \<Longrightarrow> bound_and_sealed t s \<Longrightarrow>
      prepare_governance_transaction (sto_control s) t = Inr c \<Longrightarrow> I (s \<lparr> sto_control := c \<rparr>)"
    and signing: "I s \<Longrightarrow> bound_and_sealed t s \<Longrightarrow>
      sign_prepared keccak X (sto_control s) t signature (Inr ()) now = (r, c) \<Longrightarrow> I (s \<lparr> sto_control := c \<rparr>)"
    and replacing: "I s \<Longrightarrow> bound_and_sealed (reprice t fee priority) s \<Longrightarrow>
      find_pending (sto_control s) (gt_id t) = Inr t \<Longrightarrow>
      replacement_commit keccak (sto_control s) (reprice t fee priority) current raw now = (r, c) \<Longrightarrow> I (s \<lparr> sto_control := c \<rparr>)"
    and aborting: "I s \<Longrightarrow> sto_sealed s \<Longrightarrow>
      abort_prepared_governance_transaction_for_emergency (sto_control s) t = Inr c \<Longrightarrow>
      I (s \<lparr> sto_control := c \<rparr>)"
begin

lemma outside_run:
  "stable P \<Longrightarrow> I s \<Longrightarrow> P s \<Longrightarrow>
    I (run_events (outside_step W canister) s calls) \<and> P (run_events (outside_step W canister) s calls)"
proof (induction calls arbitrary: s)
  case (Cons c calls)
  have "P s'" if "outside_step W canister s c = Inr (u, s')" for u s'
    using Cons.prems outside_step_change [OF that] unfolding stable_def by blast
  then have "I (deliver (outside_step W canister) s c) \<and> P (deliver (outside_step W canister) s c)"
    using Cons.prems outside by (auto simp: deliver_def split: sum.splits)
  then show ?case
    using Cons.IH Cons.prems(1) by simp
qed simp

lemma await_keeps: "stable P \<Longrightarrow> keeps I P (await E n)"
  unfolding await_def by (rule valid_interleave) (rule outside_run)

lemma answer_keeps: "stable P \<Longrightarrow> keeps I P (answer E n a)"
  unfolding answer_def by (intro keeps_rules await_keeps)

lemma current_controller_authority_keeps: "stable P \<Longrightarrow> keeps I P (current_controller_authority E n p)"
  unfolding current_controller_authority_def by (intro keeps_rules answer_keeps)

lemma require_unchanged_keeps: "stable P \<Longrightarrow> keeps I P (require_unchanged_controller_authority E n p)"
  unfolding require_unchanged_controller_authority_def by (intro keeps_rules current_controller_authority_keeps)

lemma capture_action_keeps: "stable P \<Longrightarrow> keeps I P (capture_action_controller_authority E n action a)"
  unfolding capture_action_controller_authority_def
  by (intro keeps_rules current_controller_authority_keeps)

lemma capture_transaction_keeps: "stable P \<Longrightarrow> keeps I P (capture_transaction_controller_authority E n t)"
  unfolding capture_transaction_controller_authority_def
  by (intro keeps_rules current_controller_authority_keeps)

lemma revalidate_keeps: "stable P \<Longrightarrow> keeps I P (revalidate_action_authorization E n caller action a b)"
  unfolding revalidate_action_authorization_def
  by (cases a; cases b) (auto intro!: keeps_rules require_unchanged_keeps)

lemma require_transaction_authority_keeps:
  "stable P \<Longrightarrow> keeps I P (require_transaction_controller_authority E n t a)"
  unfolding require_transaction_controller_authority_def
  by (intro keeps_rules require_unchanged_keeps)

lemma activation_preflight_keeps: "stable P \<Longrightarrow> keeps I P (activation_preflight E n config paused A)"
  unfolding activation_preflight_def by (intro keeps_rules answer_keeps)

lemma require_affordable_keeps: "stable P \<Longrightarrow> keeps I P (require_affordable E n config envelope A)"
  unfolding require_affordable_def by (intro keeps_rules answer_keeps await_keeps)

lemmas endpoint_rules = keeps_rules await_keeps answer_keeps current_controller_authority_keeps
  require_unchanged_keeps capture_action_keeps capture_transaction_keeps revalidate_keeps
  require_transaction_authority_keeps activation_preflight_keeps require_affordable_keeps stable_facts

lemma write_control_keeps:
  assumes "\<And>s c. I s \<Longrightarrow> P s \<Longrightarrow> f (sto_control s) = Inr c \<Longrightarrow> I (s \<lparr> sto_control := c \<rparr>)"
    "\<And>s c. P (s \<lparr> sto_control := c \<rparr>) = P s"
  shows "keeps I P (write_control f)"
  unfolding write_control_def using assms by (intro valid_commit) (auto simp: result_simps)

lemma cache_keeps: "keeps I sto_sealed (commit err (cache_runtime_attestation config o1))"
  by (intro valid_commit) (auto simp: cache_runtime_attestation_def result_simps observing)

lemma authority_checked:
  assumes P: "stable P"
  shows "valid I P (require_transaction_controller_authority E n t a) (\<lambda>_ s. P s \<and> authority_bound t s)"
proof (cases "activation_transaction_phase (gt_kind t) = None")
  case True
  then show ?thesis
    by (auto simp: require_transaction_controller_authority_def valid_def authority_bound_def)
next
  case False
  let ?branch = "\<lambda>bootstrap. case gt_activation_controller_authority t of
         Some controller \<Rightarrow>
           if bootstrap = Some controller \<and> a = Some controller
           then require_unchanged_controller_authority E n controller
           else fail BG_Unauthorized
       | None \<Rightarrow> if bootstrap = None \<and> a = None then give () else fail BG_Unauthorized"
  have branch: "valid I (\<lambda>s. P s \<and> (if activation_admission_open s then Inr (sto_bootstrap_controller s)
        else Inl BG_Unauthorized) = Inr bootstrap) (?branch bootstrap) (\<lambda>_ s. P s \<and> authority_bound t s)" for bootstrap
  proof (cases "gt_activation_controller_authority t = bootstrap")
    case True
    have "keeps I (\<lambda>s. P s \<and> authority_bound t s) (?branch bootstrap)"
      by (intro endpoint_rules stable_bound P)
    then show ?thesis
      by (rule valid_weaken) (use True in \<open>auto simp: authority_bound_def split: if_splits\<close>)
  next
    case False
    then show ?thesis
      by (auto intro!: valid_option valid_if valid_fail)
  qed
  show ?thesis
    unfolding require_transaction_controller_authority_def if_not_P [OF False]
    by (rule valid_andThen [OF valid_query branch])
qed

lemma on_control_checked:
  assumes "stable P" "\<And>s. P s \<Longrightarrow> sto_sealed s"
    "\<And>s r c. I s \<Longrightarrow> P s \<Longrightarrow> bound_and_sealed t s \<Longrightarrow> f (sto_control s) = (r, c) \<Longrightarrow> I (s \<lparr> sto_control := c \<rparr>)"
  shows "valid I P (andThen (require_transaction_controller_authority E n t a) (\<lambda>_. on_control f)) (\<lambda>_. sto_sealed)"
  by (rule valid_andThen [OF authority_checked [OF assms(1)]])
    (use assms(2,3) in \<open>auto simp: valid_def on_control_def bound_and_sealed_def split: prod.splits\<close>)

lemma sign_keeps: "keeps I sto_sealed (sign_prepared_transaction keccak X E n caller t a signature now)"
  unfolding sign_prepared_transaction_def
  by (intro valid_if valid_fail; intro on_control_checked endpoint_rules signing) assumption+

lemma resume_keeps:
  "keeps I sto_sealed (resume_pending keccak X E n caller config t a balances signature now)"
  unfolding resume_pending_def
  by (intro endpoint_rules) (auto split: PendingSignatureAction.split intro!: endpoint_rules sign_keeps)

lemma store_transaction_keeps:
  "valid I (bound_and_sealed t)
    (andThen (if initialized then give ()
      else write_control (\<lambda>control. initialize_governance_nonce_for control lane nonce)) (\<lambda>_.
    andThen (write_control (\<lambda>control. prepare_governance_transaction control t)) (\<lambda>_.
    sign_prepared_transaction keccak X E n caller t a signature now))) (\<lambda>_. sto_sealed)"
proof (rule valid_andThen)
  show "keeps I (bound_and_sealed t) (if initialized then give ()
      else write_control (\<lambda>control. initialize_governance_nonce_for control lane nonce))"
    by (intro endpoint_rules write_control_keeps)
      (auto simp: bound_and_sealed_def authority_bound_def intro: initializing)
  have "keeps I (bound_and_sealed t) (write_control (\<lambda>control. prepare_governance_transaction control t))"
    by (intro write_control_keeps preparing) (auto simp: bound_and_sealed_def authority_bound_def)
  then have "valid I (bound_and_sealed t) (write_control (\<lambda>control. prepare_governance_transaction control t))
      (\<lambda>_. sto_sealed)"
    by (rule valid_weaken) (auto simp: bound_and_sealed_def)
  then show "valid I (bound_and_sealed t)
      (andThen (write_control (\<lambda>control. prepare_governance_transaction control t)) (\<lambda>_.
      sign_prepared_transaction keccak X E n caller t a signature now)) (\<lambda>_. sto_sealed)"
    by (rule valid_andThen) (rule sign_keeps)
qed

lemma prepare_fresh_keeps:
  "keeps I sto_sealed (prepare_fresh keccak sha256 X E caller action authority snapshot config lane
    initialized nonce oid A)"
  unfolding prepare_fresh_def Let_def split_def
  by (intro endpoint_rules valid_andThen [OF authority_checked [OF stable_facts(1), folded bound_and_sealed_def]
      store_transaction_keeps])

lemma check_service_fee_keeps:
  "keeps I sto_sealed (check_service_fee E caller action authority snapshot config fee)"
  unfolding check_service_fee_def
  by (cases action) (auto intro!: endpoint_rules cache_keeps)

lemma prepare_action_body_keeps: "keeps I sto_sealed (prepare_action keccak sha256 X E caller action A)"
  unfolding prepare_action_def split_def
  by (intro endpoint_rules check_service_fee_keeps resume_keeps prepare_fresh_keeps)

lemma prepare_next_emergency_body_keeps: "keeps I sto_sealed (prepare_next_emergency keccak sha256 X E caller A)"
  unfolding prepare_next_emergency_def Let_def
  by (intro endpoint_rules prepare_action_body_keeps resume_keeps write_control_keeps aborting)
    (auto intro: aborting)

lemma replace_body_keeps:
  "keeps I sto_sealed (replace_transaction keccak X E caller oid h fee priority balances signature now)"
  unfolding replace_transaction_def Let_def
  by (rule query_then, rule query_then, rule query_then, rule query_then, rule query_then,
      rule valid_andThen [OF valid_query], intro on_control_checked keep_then endpoint_rules stable_found)
    (auto dest: find_pending_ok intro: replacing)

lemma seal_keeps: "valid I (\<lambda>_. True) (seal_operational_config E caller value A) (\<lambda>_ _. True)"
proof -
  have "keeps I (\<lambda>_. True) (commit err (\<lambda>s. map_result (Pair ())
      (store_seal_operational_config config 0 caller (ape_attestation evidence) (ape_finalized_observation evidence) s)))"
    for err :: "StorageError \<Rightarrow> BaseGovernanceError" and config evidence
    by (intro valid_commit) (auto simp: result_simps intro: sealing)
  then show ?thesis
    unfolding seal_operational_config_def by (intro endpoint_rules)
qed

lemma refresh_keeps: "valid I (\<lambda>_. True) (refresh_activation_attestation E caller A) (\<lambda>_ _. True)"
proof -
  have "keeps I (\<lambda>_. True) (commit err (\<lambda>s. map_result (Pair ())
      (store_refresh_activation_attestation (ape_attestation evidence) (ape_finalized_observation evidence) s)))"
    for err :: "StorageError \<Rightarrow> BaseGovernanceError" and evidence
    by (intro valid_commit) (auto simp: result_simps intro: refreshing)
  then show ?thesis
    unfolding refresh_activation_attestation_def by (intro endpoint_rules)
qed

lemma answer_known:
  assumes "stable P" "\<And>x. a = Some x \<Longrightarrow> valid I P (f x) R"
  shows "valid I P (andThen (answer E n a) f) R"
proof (rule valid_andThen)
  show "valid I P (answer E n a) (\<lambda>x s. P s \<and> a = Some x)"
    unfolding answer_def
    by (rule valid_andThen [OF await_keeps [OF assms(1)]]) (simp add: valid_def ok_or_def split: option.splits)
  show "valid I (\<lambda>s. P s \<and> a = Some x) (f x) R" for x
    using assms(2) [of x] by (auto simp: valid_def)
qed

lemma query_known:
  assumes "\<And>x. c = Inr x \<Longrightarrow> valid I P (f x) R"
  shows "valid I P (andThen (query (\<lambda>_. c)) f) R"
  using assms by (auto simp: valid_def andThen_def split: sum.splits)

lemma confirm_postcondition_known:
  "valid I sto_sealed (confirm_postcondition E caller t a config A) (\<lambda>_ s. sto_sealed s
    \<and> (is_activation (gt_kind t) \<longrightarrow> activation_observed A))"
proof (cases "gt_kind t")
  case (GK_ExecuteActivation x y)
  show ?thesis
    unfolding confirm_postcondition_def GK_ExecuteActivation GovernanceTransactionKind.case
    apply (rule valid_andThen [OF keeps_query])
    apply (rule answer_known, rule stable_facts)
    apply (rule valid_andThen [OF keeps_query], rule valid_andThen [OF require_transaction_authority_keeps], rule stable_facts)
    by (rule valid_if) (auto simp: valid_def activation_observed_def activation_postcondition_matches_def)
next
  case (GK_ExecuteControlPlaneRotation x y z)
  have "keeps I sto_sealed (confirm_postcondition E caller t a config A)"
    unfolding confirm_postcondition_def GK_ExecuteControlPlaneRotation GovernanceTransactionKind.case
    by (intro endpoint_rules)
  then show ?thesis
    by (rule valid_weaken) (simp_all add: is_activation_def GK_ExecuteControlPlaneRotation)
qed (auto simp: confirm_postcondition_def valid_def is_activation_def)

text \<open>What reaches the completion: a final receipt for the transaction, and for an activation that
  succeeded the observation of it.\<close>

lemma confirm_via:
  assumes complete: "\<And>t st outcome block succeeded. gt_id t = oid \<Longrightarrow>
    cf_receipt A = Some outcome \<Longrightarrow> final_receipt (gt_id t) outcome = Inr (block, succeeded) \<Longrightarrow>
    is_confirmed st = succeeded \<Longrightarrow> is_reverted st \<noteq> succeeded \<Longrightarrow>
    (succeeded \<Longrightarrow> is_activation (gt_kind t) \<Longrightarrow> activation_observed A) \<Longrightarrow>
    keeps I sto_sealed (complete_final (env_wire E) (t \<lparr> gt_state := st \<rparr>) (cf_now A))"
  shows "valid I (\<lambda>_. True) (confirm E caller oid h A) (\<lambda>_ _. True)"
proof -
  have observed: "valid I sto_sealed
      (if succeeded then confirm_postcondition E caller t a config A else give None)
      (\<lambda>_ s. sto_sealed s \<and> (succeeded \<longrightarrow> is_activation (gt_kind t) \<longrightarrow> activation_observed A))"
    for succeeded t a config
    using confirm_postcondition_known [of E caller t a config A] by (cases succeeded) (auto simp: valid_def)
  have finish: "keeps I sto_sealed
      (andThen (if succeeded then confirm_postcondition E caller t a config A else give None) (\<lambda>observed.
      andThen (require_transaction_controller_authority E 7 (t \<lparr> gt_state := st \<rparr>) a) (\<lambda>_.
      andThen (case observed of
          None \<Rightarrow> give ()
        | Some o1 \<Rightarrow> commit (\<lambda>_. BG_StorageFailure) (cache_runtime_attestation config o1)) (\<lambda>_.
      andThen (complete_final (env_wire E) (t \<lparr> gt_state := st \<rparr>) (cf_now A)) (\<lambda>_.
      if succeeded then give r else fail e)))))"
    if "gt_id t = oid" "cf_receipt A = Some outcome" "final_receipt (gt_id t) outcome = Inr (block, succeeded)"
      "is_confirmed st = succeeded" "is_reverted st \<noteq> succeeded"
    for outcome block succeeded t st a config and r :: BaseGovernanceConfirmation and e
    by (rule valid_andThen [OF observed], rule valid_pure)
      (intro endpoint_rules cache_keeps complete [OF that]; blast)
  have body: "keeps I sto_sealed (confirm_pending E caller hash t A)" if "gt_id t = oid" for hash t
  proof -
    have receipt: "keeps I sto_sealed (andThen (answer E 2 (cf_receipt A)) (\<lambda>outcome.
      andThen (query (require_confirmation_caller caller)) (\<lambda>_.
      andThen (require_transaction_controller_authority E 3 t a) (\<lambda>_.
      andThen (query (\<lambda>_. final_receipt (gt_id t) outcome)) (\<lambda>x. case x of (block, succeeded) \<Rightarrow> m block succeeded)))))"
      if "\<And>outcome block succeeded. cf_receipt A = Some outcome \<Longrightarrow>
        final_receipt (gt_id t) outcome = Inr (block, succeeded) \<Longrightarrow> keeps I sto_sealed (m block succeeded)"
      for a and m :: "u64 \<Rightarrow> bool \<Rightarrow> BaseGovernanceConfirmation endpoint"
      by (rule answer_known [OF stable_facts(1)], intro keeps_andThen endpoint_rules query_known)
        (use that in \<open>auto split: prod.split\<close>)
    show ?thesis
      unfolding confirm_pending_def Let_def
      by (rule keeps_andThen [OF capture_transaction_keeps [OF stable_facts(1)]], rule valid_if, rule valid_fail,
          rule keeps_andThen [OF require_transaction_authority_keeps [OF stable_facts(1)]],
          rule keeps_andThen [OF keeps_query], rule receipt, rule finish [OF that])
        (auto simp: is_confirmed_def is_reverted_def)
  qed
  have found: "valid I (\<lambda>s. sto_sealed s \<and> Inr (find_pending (sto_control s) oid) = Inr pending)
      (case pending of
        Inl _ \<Rightarrow> query (\<lambda>s. completed_confirmation oid hash (sto_control s))
      | Inr t \<Rightarrow> confirm_pending E caller hash t A) (\<lambda>_. sto_sealed)" for pending hash
  proof (cases pending)
    case (Inr t)
    show ?thesis
    proof (cases "gt_id t = oid")
      case True
      from body [OF True] show ?thesis
        unfolding Inr sum.case by (rule valid_weaken) auto
    qed (use find_pending_ok in \<open>auto simp: Inr valid_def\<close>)
  qed (simp add: valid_def)
  have "keeps I sto_sealed (confirm E caller oid h A)"
    unfolding confirm_def
    by (rule query_then, rule query_then, rule query_then, rule valid_andThen [OF valid_query found])
  from sealed_guard [OF this [unfolded confirm_def]] show ?thesis
    unfolding confirm_def by (rule valid_weaken) simp_all
qed

lemma serve_keeps:
  assumes "\<And>caller oid h A. rq = RQ_Confirm caller oid h A \<Longrightarrow>
    valid I (\<lambda>_. True) (confirm E caller oid h A) (\<lambda>_ _. True)"
  shows "valid I (\<lambda>_. True) (serve keccak sha256 X E rq) (\<lambda>_ _. True)"
proof (cases rq)
  case (RQ_Seal caller v A)
  then show ?thesis
    using andThen_unit [OF seal_keeps] by (simp add: serve_def)
next
  case (RQ_Refresh caller A)
  then show ?thesis
    using andThen_unit [OF refresh_keeps] by (simp add: serve_def)
next
  case (RQ_Prepare caller action A)
  then show ?thesis
    using andThen_unit [OF sealed_guard [OF prepare_action_body_keeps [unfolded prepare_action_def]]]
    by (simp add: serve_def prepare_action_def)
next
  case (RQ_NextEmergency caller A)
  then show ?thesis
    using andThen_unit [OF sealed_guard [OF prepare_next_emergency_body_keeps [unfolded prepare_next_emergency_def]]]
    by (simp add: serve_def prepare_next_emergency_def)
next
  case (RQ_Replace caller oid h fee priority balances signature now)
  then show ?thesis
    using andThen_unit [OF sealed_guard [OF replace_body_keeps [unfolded replace_transaction_def]]]
    by (simp add: serve_def replace_transaction_def)
next
  case (RQ_Confirm caller oid h A)
  then show ?thesis
    using andThen_unit [OF assms] by (simp add: serve_def)
next
  case (RQ_Outside call)
  then show ?thesis
    using outside_run [of "\<lambda>_. True" _ _ _ "[call]"] by (simp add: serve_def valid_def)
qed

end

locale store_invariant = store_writes keccak X I
  for keccak :: "bytes \<Rightarrow> bytes" and X :: "('k, 'sig) ecdsa" and I :: "bridge_store \<Rightarrow> bool" +
  assumes completing: "I s \<Longrightarrow> sto_sealed s \<Longrightarrow> \<not> (is_activation (gt_kind t) \<and> is_confirmed (gt_state t)) \<Longrightarrow>
      apply_governance_completion (sto_control s) t = Inr c \<Longrightarrow> I (s \<lparr> sto_control := c \<rparr>)"
    and activating: "I s \<Longrightarrow> sto_sealed s \<Longrightarrow>
      complete_confirmed_activation_and_resume_if_clear W t caller now s = Inr (b, s') \<Longrightarrow> I s'"
begin

lemma confirm_keeps: "valid I (\<lambda>_. True) (confirm E caller oid h A) (\<lambda>_ _. True)"
proof (rule confirm_via)
  show "keeps I sto_sealed (complete_final W t now)" for W t now
  proof (cases "is_confirmed (gt_state t) \<and> is_activation (gt_kind t)")
    case True
    then show ?thesis
      unfolding complete_final_def
      by simp (intro valid_commit, auto simp: result_simps complete_confirmed_sealed intro: activating)
  next
    case False
    then show ?thesis
      unfolding complete_final_def using completing
      by (subst if_not_P, blast, intro write_control_keeps) auto
  qed
qed

lemma call_keeps: "I s \<Longrightarrow> bridge_call_step keccak sha256 X s call = Inr (r, s') \<Longrightarrow> I s'"
proof (cases call)
  case (Pair E rq)
  assume "I s" "bridge_call_step keccak sha256 X s call = Inr (r, s')"
  then show ?thesis
    using valid_run(1) [OF serve_keeps [OF confirm_keeps], of s sha256 E rq]
    by (simp add: Pair bridge_call_step_def)
qed

lemma run_keeps: "I s \<Longrightarrow> I (run_events (bridge_call_step keccak sha256 X) s calls)"
  by (induction calls arbitrary: s) (auto simp: deliver_def intro: call_keeps split: sum.splits)

end

section \<open>The writes of the control\<close>

text \<open>A write drops pending transactions, or puts one in its lane with the kind and authority of the
  transaction at hand; it never adds emergency actions.\<close>

definition narrows :: "GovernanceControl \<Rightarrow> GovernanceControl \<Rightarrow> bool" where
  "narrows c c' \<longleftrightarrow>
    (emergency_base_actions_pending c' \<longrightarrow> emergency_base_actions_pending c)
    \<and> (\<forall>l u. pending_transaction c' l = Some u \<longrightarrow> pending_transaction c l = Some u)"

definition plan_write :: "GovernanceTransaction \<Rightarrow> GovernanceControl \<Rightarrow> GovernanceControl \<Rightarrow> bool" where
  "plan_write t c c' \<longleftrightarrow>
    (emergency_base_actions_pending c' \<longrightarrow> emergency_base_actions_pending c)
    \<and> (\<forall>l u. pending_transaction c' l = Some u \<longrightarrow> pending_transaction c l = Some u
        \<or> (l = lane_of u \<and> gt_kind u = gt_kind t
          \<and> gt_activation_controller_authority u = gt_activation_controller_authority t))"

lemma plan_write_refl [simp]: "plan_write t c c"
  by (simp add: plan_write_def)

lemma narrows_plan: "narrows c c' \<Longrightarrow> plan_write t c c'"
  by (simp add: narrows_def plan_write_def)

lemma initialize_plan:
  "initialize_governance_nonce_for c lane nonce = Inr c' \<Longrightarrow> narrows c c'"
  by (auto simp: initialize_governance_nonce_for_def narrows_def emergency_base_actions_pending_def
      split: prod.splits if_splits)

lemma prepare_plan:
  assumes "prepare_governance_transaction c t = Inr c'"
  shows "plan_write t c c'"
proof -
  have "emergency_base_actions_pending c' = emergency_base_actions_pending c"
    using assms prepare_kind_frame(4) [of c "gt_kind t"]
    by (auto simp: prepare_governance_transaction_def Let_def result_simps emergency_base_actions_pending_def
        split: prod.splits if_splits)
  then show ?thesis
    using prepare_ok(5) [OF assms] by (simp add: plan_write_def split: if_splits)
qed

lemma abort_plan:
  assumes "abort_prepared_governance_transaction_for_emergency c t = Inr c'"
  shows "narrows c c'"
  using abort_pending [OF assms] assms
  by (auto simp: narrows_def abort_prepared_governance_transaction_for_emergency_def Let_def split: if_splits)

lemma persist_plan:
  assumes "persist c t' = Inr c'" "gt_kind t' = gt_kind t"
    "gt_activation_controller_authority t' = gt_activation_controller_authority t"
  shows "plan_write t c c'"
proof -
  have "emergency_base_actions_pending c' = emergency_base_actions_pending c"
    using assms(1) by (auto simp: persist_def update_governance_transaction_def Let_def
        emergency_base_actions_pending_def split: option.splits if_splits sum.splits)
  then show ?thesis
    using persist_pending [OF assms(1)] assms(2,3) by (auto simp: plan_write_def)
qed

lemma push_attempt_sel [simp]:
  "gt_id (push_attempt keccak t raw g now) = gt_id t" "gt_kind (push_attempt keccak t raw g now) = gt_kind t"
  "gt_activation_controller_authority (push_attempt keccak t raw g now) = gt_activation_controller_authority t"
  by (simp_all add: push_attempt_def Let_def)

lemma sign_cases:
  assumes "sign_prepared keccak X c t signature a now = (r, c')"
  obtains "c' = c" | "abort_prepared_governance_transaction_for_emergency c t = Inr c'"
  | raw where "find_pending c (gt_id t) = Inr t" "persist c (push_attempt keccak t raw 0 now) = Inr c'"
      "gt_state t = GS_Prepared"
  using assms
  by (auto simp: sign_prepared_def Let_def pending_signature_action_def
      split: if_splits sum.splits GovernanceTransactionState.splits)

lemma sign_plan: "sign_prepared keccak X c t signature a now = (r, c') \<Longrightarrow> plan_write t c c'"
  by (erule sign_cases) (auto intro: narrows_plan abort_plan persist_plan)

lemma replace_cases:
  assumes "replacement_commit keccak c t current raw now = (r, c')"
  obtains "c' = c" | g where "persist c (push_attempt keccak t raw g now) = Inr c'"
  using assms by (auto simp: replacement_commit_def Let_def split: if_splits sum.splits option.splits)

lemma replace_plan: "replacement_commit keccak c t current raw now = (r, c') \<Longrightarrow> plan_write t c c'"
  by (erule replace_cases) (auto intro: persist_plan)

lemma completion_plan:
  assumes "apply_governance_completion c t = Inr c'"
  shows "narrows c c'"
proof -
  obtain x where "confirmed_activation_record t = Inr x"
    using assms by (auto simp: apply_governance_completion_def Let_def result_simps split: if_splits)
  then have "emergency_base_actions_pending c' \<longrightarrow> emergency_base_actions_pending c"
    using assms
    by (cases "gt_kind t"; cases x)
      (auto simp: apply_governance_completion_def Let_def result_simps completion_effect_def
        emergency_base_actions_pending_def split: if_splits)
  then show ?thesis
    using completion_ok(5) [OF assms] by (auto simp: narrows_def split: if_splits)
qed

section \<open>Deposits open only after the activation\<close>

definition activation_inv :: "bridge_store \<Rightarrow> bool" where
  "activation_inv s \<longleftrightarrow>
    (\<not> ad_deposits_paused (sto_admin s) \<longrightarrow> sto_sealed s \<and> sto_bootstrap_controller s = None
      \<and> \<not> emergency_base_actions_pending (sto_control s))
    \<and> (\<forall>l t. pending_transaction (sto_control s) l = Some t \<longrightarrow>
        sto_sealed s \<and> lane_of t = l \<and> authority_bound t s)"

lemma activation_inv_outside: "activation_inv s \<Longrightarrow> outside_change s s' \<Longrightarrow> activation_inv s'"
  by (auto simp: activation_inv_def outside_change_def same_plan_def authority_bound_def)

lemma activation_inv_write:
  assumes inv: "activation_inv s" and t: "bound_and_sealed t s" "plan_write t (sto_control s) c"
  shows "activation_inv (s \<lparr> sto_control := c \<rparr>)"
proof -
  have "lane_of u = l \<and> authority_bound u s" if p: "pending_transaction c l = Some u" for l u
  proof -
    consider "pending_transaction (sto_control s) l = Some u"
      | "l = lane_of u" "gt_kind u = gt_kind t"
        "gt_activation_controller_authority u = gt_activation_controller_authority t"
      using t(2) p unfolding plan_write_def by blast
    then show ?thesis
      using inv t(1) by cases (auto simp: activation_inv_def bound_and_sealed_def authority_bound_def)
  qed
  then show ?thesis
    using inv t by (auto simp: activation_inv_def plan_write_def bound_and_sealed_def authority_bound_def)
qed

lemma activation_inv_narrow:
  assumes "activation_inv s" "narrows (sto_control s) c"
  shows "activation_inv (s \<lparr> sto_control := c \<rparr>)"
  using assms by (fastforce simp: activation_inv_def narrows_def authority_bound_def)

lemma activation_inv_sealed:
  assumes "activation_inv s" "store_seal_operational_config v oid controller a o1 s = Inr s'"
  shows "activation_inv s'"
  using assms(2,1) by (elim store_seal_ok) (auto simp: activation_inv_def)

lemma activation_inv_activated:
  assumes inv: "activation_inv s" and "sto_sealed s"
    and c: "complete_confirmed_activation_and_resume_if_clear W t caller now s = Inr (b, s')"
  shows "activation_inv s'"
  using c
proof (rule complete_confirmed_ok)
  fix control
  assume a: "is_activation (gt_kind t)" "apply_governance_completion (sto_control s) t = Inr control"
    "sto_control s' = control" "sto_sealed s' = sto_sealed s" "sto_bootstrap_controller s' = None"
    "b \<longleftrightarrow> \<not> emergency_base_actions_pending control"
    "sto_admin s' = (sto_admin s) \<lparr> ad_deposits_paused := \<not> b \<rparr>"
  have lane: "lane_of t = Lane_Governance"
    using a(1) by (auto simp: is_activation_def lane_of_def nonce_lane_def split: GovernanceTransactionKind.splits)
  have "lane_of u = l \<and> activation_transaction_phase (gt_kind u) = None" if "pending_transaction control l = Some u" for l u
  proof -
    have u: "pending_transaction (sto_control s) l = Some u" "l \<noteq> Lane_Governance"
      using that completion_ok(5) [OF a(2)] lane by (auto split: if_splits)
    then have "lane_of u = l"
      using inv by (simp add: activation_inv_def)
    then show ?thesis
      using u(2) by (auto simp: lane_of_def nonce_lane_def activation_transaction_phase_def
          split: GovernanceTransactionKind.splits)
  qed
  then show ?thesis
    using a(3-7) assms(2) by (auto simp: activation_inv_def authority_bound_def)
qed

interpretation activation: store_invariant keccak X activation_inv
  for keccak :: "bytes \<Rightarrow> bytes" and X :: "('k, 'sig) ecdsa"
proof
  show "activation_inv s \<Longrightarrow> outside_step W canister s call = Inr (u, s') \<Longrightarrow> activation_inv s'"
    for s W canister call u s'
    using activation_inv_outside outside_step_change by blast
  show "activation_inv s \<Longrightarrow> store_refresh_activation_attestation a o1 s = Inr s' \<Longrightarrow> activation_inv s'" for s a o1 s'
    by (erule store_refresh_ok) (simp add: activation_inv_def authority_bound_def)
  show "activation_inv s \<Longrightarrow> activation_inv (s \<lparr> sto_progress := p \<rparr>)" for s p
    by (simp add: activation_inv_def authority_bound_def)
qed (auto intro: activation_inv_sealed activation_inv_activated activation_inv_write activation_inv_narrow
    initialize_plan abort_plan completion_plan prepare_plan sign_plan replace_plan)

text \<open>A call opens deposits only as a confirmation that sees the activation: its receipt succeeded and
  Base reports neither direction paused.\<close>

definition opens :: "environment \<times> governance_request \<Rightarrow> bool" where
  "opens call = (case snd call of
      RQ_Confirm _ _ _ A \<Rightarrow> (case cf_receipt A of Some (RO_Succeeded _ _) \<Rightarrow> activation_observed A | _ \<Rightarrow> False)
    | _ \<Rightarrow> False)"

lemma complete_other:
  "\<not> (is_confirmed (gt_state t) \<and> is_activation (gt_kind t)) \<Longrightarrow>
    complete_final W t now = write_control (\<lambda>control. apply_governance_completion control t)"
  by (simp only: complete_final_def if_False)

lemma final_receipt_succeeded:
  "final_receipt oid outcome = Inr (block, True) \<longleftrightarrow> (\<exists>o1. outcome = RO_Succeeded block o1)"
  by (simp add: final_receipt_def split: ConfirmedReceiptOutcome.splits)

lemma final_receipt_reverted:
  "final_receipt oid outcome = Inr (block, False) \<longleftrightarrow> (\<exists>o1. outcome = RO_Reverted block o1)"
  by (simp add: final_receipt_def split: ConfirmedReceiptOutcome.splits)

lemmas final_receipt_iff = final_receipt_succeeded final_receipt_reverted

interpretation paused: store_writes keccak X "\<lambda>s. ad_deposits_paused (sto_admin s)"
  for keccak :: "bytes \<Rightarrow> bytes" and X :: "('k, 'sig) ecdsa"
proof
  show "ad_deposits_paused (sto_admin s) \<Longrightarrow> outside_step W canister s call = Inr (u, s') \<Longrightarrow>
      ad_deposits_paused (sto_admin s')" for s W canister call u s'
    using outside_step_change unfolding outside_change_def by blast
qed (auto elim: store_seal_ok store_refresh_ok)

lemma paused_call:
  assumes "ad_deposits_paused (sto_admin s)" "\<not> opens call"
  shows "ad_deposits_paused (sto_admin (deliver (bridge_call_step keccak sha256 X) s call))"
proof -
  obtain E rq where call: "call = (E, rq)"
    by (cases call)
  have confirm: "valid (\<lambda>s. ad_deposits_paused (sto_admin s)) (\<lambda>_. True) (confirm E caller oid h A) (\<lambda>_ _. True)"
    if rq: "rq = RQ_Confirm caller oid h A" for caller oid h A
  proof (rule paused.confirm_via)
    fix t :: GovernanceTransaction and st outcome block succeeded
    assume "cf_receipt A = Some outcome" "final_receipt (gt_id t) outcome = Inr (block, succeeded)"
      "is_confirmed st = succeeded" "succeeded \<Longrightarrow> is_activation (gt_kind t) \<Longrightarrow> activation_observed A"
    then have "\<not> (is_confirmed (gt_state (t \<lparr> gt_state := st \<rparr>)) \<and> is_activation (gt_kind (t \<lparr> gt_state := st \<rparr>)))"
      using assms(2) by (auto simp: call rq opens_def final_receipt_iff)
    then show "keeps (\<lambda>s. ad_deposits_paused (sto_admin s)) sto_sealed
        (complete_final (env_wire E) (t \<lparr> gt_state := st \<rparr>) (cf_now A))"
      by (subst complete_other, assumption, intro paused.write_control_keeps) simp_all
  qed
  have "ad_deposits_paused (sto_admin (snd (serve keccak sha256 X E rq s)))"
    by (rule valid_run(1) [OF paused.serve_keeps [OF confirm] assms(1)]) simp_all
  then show ?thesis
    by (simp add: call deliver_def bridge_call_step_def case_prod_unfold)
qed

lemma paused_run:
  "ad_deposits_paused (sto_admin s) \<Longrightarrow> \<not> list_ex opens calls \<Longrightarrow>
    ad_deposits_paused (sto_admin (run_events (bridge_call_step keccak sha256 X) s calls))"
  by (induction calls arbitrary: s) (simp_all add: paused_call)

text \<open>
  C14.  From a store with deposits paused, such as a new one, over every sequence of governance and
  outside calls with every interleaving at the awaits: deposits are still paused, or the lifecycle is
  activated with no emergency action outstanding and one of the calls was a confirmation with a
  succeeded receipt at which Base reported neither deposits nor withdrawals paused.
\<close>

theorem deposits_open_only_after_activation:
  assumes "activation_inv s" "ad_deposits_paused (sto_admin s)"
  shows "let s' = run_events (bridge_call_step keccak sha256 X) s calls in
    ad_deposits_paused (sto_admin s')
    \<or> production_lifecycle s' = PL_Activated \<and> \<not> emergency_base_actions_pending (sto_control s')
      \<and> list_ex opens calls"
  using activation.run_keeps [OF assms(1), of keccak sha256 X calls] paused_run [OF assms(2), of calls keccak sha256 X]
  unfolding Let_def activation_inv_def production_lifecycle_def by auto

section \<open>The lifecycle moves forward\<close>

text \<open>What a sealed store keeps: the seal, the settings that were sealed, and the end of the
  controller's authority.\<close>

definition sealed_after :: "bridge_store \<Rightarrow> bridge_store \<Rightarrow> bool" where
  "sealed_after s0 s \<longleftrightarrow> (sto_sealed s0 \<longrightarrow> sto_sealed s
    \<and> sto_bootstrap_controller s \<in> {sto_bootstrap_controller s0, None}
    \<and> bridge_settings.truncate (sto_config s) = bridge_settings.truncate (sto_config s0))"

interpretation sealed: store_invariant keccak X "sealed_after s0"
  for keccak :: "bytes \<Rightarrow> bytes" and X :: "('k, 'sig) ecdsa" and s0
proof
  show "sealed_after s0 s \<Longrightarrow> outside_step W canister s call = Inr (u, s') \<Longrightarrow> sealed_after s0 s'"
    for s W canister call u s'
    using outside_step_change [of W canister s call u s'] by (simp add: sealed_after_def outside_change_def)
  show "sealed_after s0 s \<Longrightarrow> store_seal_operational_config v oid controller a o1 s = Inr s' \<Longrightarrow> sealed_after s0 s'"
    for s v oid controller a o1 s'
    by (erule store_seal_ok) (simp add: sealed_after_def)
  show "sealed_after s0 s \<Longrightarrow> store_refresh_activation_attestation a o1 s = Inr s' \<Longrightarrow> sealed_after s0 s'" for s a o1 s'
    by (erule store_refresh_ok)
      (simp add: sealed_after_def with_activation_attestation_def bridge_settings.truncate_def)
  show "sealed_after s0 s \<Longrightarrow> sto_sealed s \<Longrightarrow>
      complete_confirmed_activation_and_resume_if_clear W t caller now s = Inr (b, s') \<Longrightarrow> sealed_after s0 s'"
    for s W t caller now b s'
    by (erule complete_confirmed_ok) (simp add: sealed_after_def)
qed (simp_all add: sealed_after_def)

text \<open>
  C15.  Once the operational configuration is sealed, over every sequence of calls: it stays sealed
  with the settings it was sealed with, whatever attestations are refreshed; the lifecycle does not
  go back; and the authority of the bootstrap controller is the one recorded at the seal or is gone
  for good.
\<close>

theorem seal_is_final:
  assumes "sto_sealed s"
  shows "let s' = run_events (bridge_call_step keccak sha256 X) s calls in
    sto_sealed s' \<and> production_lifecycle s' \<in> {production_lifecycle s, PL_Activated}
    \<and> sto_bootstrap_controller s' \<in> {sto_bootstrap_controller s, None}
    \<and> bridge_settings.truncate (sto_config s') = bridge_settings.truncate (sto_config s)"
  using sealed.run_keeps [of s s keccak sha256 X calls] assms
  unfolding Let_def sealed_after_def production_lifecycle_def by auto

section \<open>An activation that Base takes back\<close>

text \<open>A signed activation that has to be confirmed, in the lane of governance.\<close>

definition awaits_confirmation :: "u64 \<Rightarrow> bridge_store \<Rightarrow> bool" where
  "awaits_confirmation oid s \<longleftrightarrow> ad_deposits_paused (sto_admin s)
    \<and> (case pending_transaction (sto_control s) Lane_Governance of
        Some t \<Rightarrow> gt_id t = oid \<and> is_activation (gt_kind t) \<and> gt_state t \<noteq> GS_Prepared
      | None \<Rightarrow> False)"

text \<open>Calls that do not see it settled: no confirmation observes an active Base, and none of its own
  has a reverted receipt.  Succeeded receipts are allowed.\<close>

definition unsettled :: "u64 \<Rightarrow> environment \<times> governance_request \<Rightarrow> bool" where
  "unsettled oid call = (case snd call of
      RQ_Confirm _ i _ A \<Rightarrow> \<not> activation_observed A
        \<and> (i = oid \<longrightarrow> (case cf_receipt A of Some (RO_Reverted _ _) \<Rightarrow> False | _ \<Rightarrow> True))
    | _ \<Rightarrow> True)"

lemma awaits_write:
  assumes "awaits_confirmation oid s"
    and "\<And>u. pending_transaction (sto_control s) Lane_Governance = Some u \<Longrightarrow> gt_id u = oid \<Longrightarrow>
      is_activation (gt_kind u) \<Longrightarrow> gt_state u \<noteq> GS_Prepared \<Longrightarrow>
      \<exists>u'. pending_transaction c Lane_Governance = Some u' \<and> gt_id u' = oid \<and> gt_kind u' = gt_kind u
        \<and> gt_state u' \<noteq> GS_Prepared"
  shows "awaits_confirmation oid (s \<lparr> sto_control := c \<rparr>)"
  using assms by (fastforce simp: awaits_confirmation_def split: option.splits)

lemma lane_governance_found:
  assumes "pending_transaction c Lane_Governance = Some u"
  shows "find_pending c (gt_id u) = Inr u"
  using assms by (simp add: find_pending_def pending_governance_transactions_def List.map_filter_simps result_simps)

lemma persist_same:
  assumes "persist c t = Inr c'" "pending_transaction c (lane_of t) = Some u"
  shows "gt_id u = gt_id t"
  using assms by (auto simp: persist_def update_governance_transaction_def Let_def lane_of_def
      split: sum.splits if_splits)

lemma lane_of_sel [simp]:
  "lane_of (push_attempt keccak t raw g now) = lane_of t" "lane_of (reprice t fee priority) = lane_of t"
  by (simp_all add: lane_of_def reprice_def)

lemma push_attempt_state [simp]: "gt_state (push_attempt keccak t raw g now) \<noteq> GS_Prepared"
  by (simp add: push_attempt_def Let_def)

lemma awaits_persist:
  assumes s: "awaits_confirmation oid s" and t: "find_pending (sto_control s) (gt_id t) = Inr t"
    and t': "persist (sto_control s) t' = Inr c" "gt_id t' = gt_id t" "gt_kind t' = gt_kind t" "gt_state t' \<noteq> GS_Prepared"
  shows "awaits_confirmation oid (s \<lparr> sto_control := c \<rparr>)"
proof (rule awaits_write [OF s])
  fix u
  assume u: "pending_transaction (sto_control s) Lane_Governance = Some u" "gt_id u = oid"
    "gt_state u \<noteq> GS_Prepared"
  show "\<exists>u'. pending_transaction c Lane_Governance = Some u' \<and> gt_id u' = oid \<and> gt_kind u' = gt_kind u
      \<and> gt_state u' \<noteq> GS_Prepared"
  proof (cases "lane_of t' = Lane_Governance")
    case True
    have "gt_id u = gt_id t"
      using persist_same [OF t'(1), unfolded True, OF u(1)] t'(2) by (rule trans)
    then have "u = t"
      using lane_governance_found [OF u(1)] t by (metis sum.inject(2))
    moreover have "pending_transaction c Lane_Governance = Some t'"
      using persist_pending [OF t'(1), of Lane_Governance] True by simp
    ultimately show ?thesis
      using u(2) t'(2-4) by (intro exI [of _ t'] conjI) simp_all
  next
    case False
    then have "pending_transaction c Lane_Governance = Some u"
      using persist_pending [OF t'(1), of Lane_Governance] u(1) by (simp add: eq_commute)
    then show ?thesis
      using u(2,3) by (intro exI [of _ u] conjI) simp_all
  qed
qed

lemma awaits_frame:
  assumes "awaits_confirmation oid s"
    "pending_transaction c Lane_Governance = pending_transaction (sto_control s) Lane_Governance"
  shows "awaits_confirmation oid (s \<lparr> sto_control := c \<rparr>)"
  using assms by (simp add: awaits_confirmation_def)

lemma awaits_abort:
  assumes s: "awaits_confirmation oid s" and a: "abort_prepared_governance_transaction_for_emergency (sto_control s) t = Inr c"
  shows "awaits_confirmation oid (s \<lparr> sto_control := c \<rparr>)"
proof (rule awaits_frame [OF s])
  have "pending_transaction (sto_control s) (lane_of t) = Some t" "gt_state t = GS_Prepared"
    using a by (auto simp: abort_prepared_governance_transaction_for_emergency_def Let_def lane_of_def split: if_splits)
  then have "lane_of t \<noteq> Lane_Governance"
    using s by (auto simp: awaits_confirmation_def)
  then show "pending_transaction c Lane_Governance = pending_transaction (sto_control s) Lane_Governance"
    using abort_pending [OF a, of Lane_Governance] by auto
qed

lemma awaits_complete:
  assumes s: "awaits_confirmation oid s" and c: "apply_governance_completion (sto_control s) t = Inr c"
    and t: "gt_id t = oid \<Longrightarrow> \<not> is_activation (gt_kind t)"
  shows "awaits_confirmation oid (s \<lparr> sto_control := c \<rparr>)"
proof (rule awaits_frame [OF s])
  have "lane_of t \<noteq> Lane_Governance"
    using completion_ok(1) [OF c] s t by (auto simp: awaits_confirmation_def)
  then show "pending_transaction c Lane_Governance = pending_transaction (sto_control s) Lane_Governance"
    using completion_ok(5) [OF c, of Lane_Governance] by auto
qed

lemma awaits_prepare:
  assumes s: "awaits_confirmation oid s" and c: "prepare_governance_transaction (sto_control s) t = Inr c"
  shows "awaits_confirmation oid (s \<lparr> sto_control := c \<rparr>)"
proof (rule awaits_frame [OF s])
  have "lane_of t \<noteq> Lane_Governance"
    using prepare_ok(2) [OF c] s by (auto simp: awaits_confirmation_def)
  then show "pending_transaction c Lane_Governance = pending_transaction (sto_control s) Lane_Governance"
    using prepare_ok(5) [OF c, of Lane_Governance] by auto
qed

lemma awaits_sign:
  assumes s: "awaits_confirmation oid s" and c: "sign_prepared keccak X (sto_control s) t signature a now = (r, c)"
  shows "awaits_confirmation oid (s \<lparr> sto_control := c \<rparr>)"
  using c by (cases rule: sign_cases) (auto intro: awaits_frame s awaits_abort awaits_persist)

lemma awaits_replace:
  assumes s: "awaits_confirmation oid s" and t: "find_pending (sto_control s) (gt_id t) = Inr t"
    and c: "replacement_commit keccak (sto_control s) (reprice t fee priority) current raw now = (r, c)"
  shows "awaits_confirmation oid (s \<lparr> sto_control := c \<rparr>)"
  using c by (cases rule: replace_cases) (auto intro: awaits_frame s awaits_persist [OF s t] simp: reprice_def)

interpretation awaiting: store_writes keccak X "awaits_confirmation oid"
  for keccak :: "bytes \<Rightarrow> bytes" and X :: "('k, 'sig) ecdsa" and oid
proof
  show "awaits_confirmation oid s \<Longrightarrow> outside_step W canister s call = Inr (u, s') \<Longrightarrow> awaits_confirmation oid s'"
    for s W canister call u s'
    using outside_step_change [of W canister s call u s']
    by (simp add: awaits_confirmation_def outside_change_def same_plan_def)
  show "awaits_confirmation oid s \<Longrightarrow> initialize_governance_nonce_for (sto_control s) lane nonce = Inr c \<Longrightarrow>
      awaits_confirmation oid (s \<lparr> sto_control := c \<rparr>)" for s lane nonce c
    by (erule awaits_frame) (auto simp: initialize_governance_nonce_for_def split: prod.splits if_splits)
  show "awaits_confirmation oid s \<Longrightarrow> store_seal_operational_config v i controller a o1 s = Inr s' \<Longrightarrow>
      awaits_confirmation oid s'" for s v i controller a o1 s'
    by (erule store_seal_ok) (simp add: awaits_confirmation_def)
  show "awaits_confirmation oid s \<Longrightarrow> store_refresh_activation_attestation a o1 s = Inr s' \<Longrightarrow>
      awaits_confirmation oid s'" for s a o1 s'
    by (erule store_refresh_ok) (simp add: awaits_confirmation_def)
  show "awaits_confirmation oid s \<Longrightarrow> awaits_confirmation oid (s \<lparr> sto_progress := p \<rparr>)" for s p
    by (simp add: awaits_confirmation_def)
qed (auto intro: awaits_abort awaits_prepare awaits_sign awaits_replace)

lemma awaiting_call:
  assumes "awaits_confirmation oid s" "unsettled oid call"
  shows "awaits_confirmation oid (deliver (bridge_call_step keccak sha256 X) s call)"
proof -
  obtain E rq where call: "call = (E, rq)"
    by (cases call)
  have confirm: "valid (awaits_confirmation oid) (\<lambda>_. True) (confirm E caller i h A) (\<lambda>_ _. True)"
    if rq: "rq = RQ_Confirm caller i h A" for caller i h A
  proof (rule awaiting.confirm_via)
    fix t :: GovernanceTransaction and st outcome block succeeded
    assume t: "gt_id t = i" "cf_receipt A = Some outcome" "final_receipt (gt_id t) outcome = Inr (block, succeeded)"
      "is_confirmed st = succeeded" "succeeded \<Longrightarrow> is_activation (gt_kind t) \<Longrightarrow> activation_observed A"
    then have other: "\<not> (is_confirmed (gt_state (t \<lparr> gt_state := st \<rparr>)) \<and> is_activation (gt_kind (t \<lparr> gt_state := st \<rparr>)))"
      using assms(2) by (auto simp: call rq unsettled_def)
    have "\<not> is_activation (gt_kind t)" if "i = oid"
      using t that assms(2) by (cases succeeded) (auto simp: call rq unsettled_def final_receipt_iff)
    then show "keeps (awaits_confirmation oid) sto_sealed
        (complete_final (env_wire E) (t \<lparr> gt_state := st \<rparr>) (cf_now A))"
      by (subst complete_other [OF other], intro awaiting.write_control_keeps)
        (auto intro: awaits_complete simp: t(1))
  qed
  have "awaits_confirmation oid (snd (serve keccak sha256 X E rq s))"
    by (rule valid_run(1) [OF awaiting.serve_keeps [OF confirm] assms(1)]) simp_all
  then show ?thesis
    by (simp add: call deliver_def bridge_call_step_def case_prod_unfold)
qed

lemma awaiting_run:
  "awaits_confirmation oid s \<Longrightarrow> list_all (unsettled oid) calls \<Longrightarrow>
    awaits_confirmation oid (run_events (bridge_call_step keccak sha256 X) s calls)"
  by (induction calls arbitrary: s) (simp_all add: awaiting_call)

text \<open>
  C38.  If Base is paused again before a signed activation is confirmed, the bridge cannot be
  reopened: a succeeded receipt is not enough, and as long as no confirmation finds Base active, over
  every sequence of calls, the activation stays the pending transaction of the governance lane,
  deposits stay paused, and no further transaction of that lane, such as a new activation, is
  accepted.
\<close>

theorem activation_retaken_blocks_governance:
  assumes "awaits_confirmation oid s" "list_all (unsettled oid) calls"
  shows "let s' = run_events (bridge_call_step keccak sha256 X) s calls in
    ad_deposits_paused (sto_admin s')
    \<and> (\<exists>t. pending_transaction (sto_control s') Lane_Governance = Some t \<and> gt_id t = oid \<and> is_activation (gt_kind t))
    \<and> (\<forall>t. nonce_lane (gt_kind t) = Lane_Governance \<longrightarrow>
        (\<exists>e. prepare_governance_transaction (sto_control s') t = Inl e))"
proof -
  let ?s' = "run_events (bridge_call_step keccak sha256 X) s calls"
  have s': "awaits_confirmation oid ?s'"
    by (rule awaiting_run [OF assms])
  have "\<exists>e. prepare_governance_transaction (sto_control ?s') t = Inl e"
    if "nonce_lane (gt_kind t) = Lane_Governance" for t
  proof (cases "prepare_governance_transaction (sto_control ?s') t")
    case (Inr c)
    from prepare_ok(2) [OF this] that s' show ?thesis
      by (simp add: lane_of_def awaits_confirmation_def)
  qed simp
  with s' show ?thesis
    by (auto simp: Let_def awaits_confirmation_def split: option.splits)
qed

section \<open>An example\<close>

text \<open>A sealed store with a signed activation, and confirmations of it that find Base active or paused.\<close>

definition sample_activation :: GovernanceTransaction where
  "sample_activation =
    (let t = sample_transaction 10 4 (GK_ExecuteActivation (replicate 32 6) (replicate 32 8)) in
     t \<lparr> gt_state := GS_SignedAwaitingRelay (replicate 32 5) 0 1,
       gt_activation_controller_authority := Some [20],
       gt_envelope := (gt_envelope t) \<lparr> gte_signed_transactions :=
         [\<lparr> sgt_raw_transaction = [2], sgt_transaction_hash = replicate 32 5, sgt_max_fee_per_gas = 100,
            sgt_max_priority_fee_per_gas = 1, sgt_generation = 0, sgt_signed_at_ns = 1 \<rparr>] \<rparr> \<rparr>)"

definition sample_bridge_store :: bridge_store where
  "sample_bridge_store = admin_store.extend sample_admin_store
    (bridge_store.fields
      (sample_control \<lparr> gc_pending_governance_transaction := Some sample_activation,
        gc_pending_timelock_operation := Some \<lparr> pto_operation_id = replicate 32 6, pto_salt = replicate 32 8 \<rparr> \<rparr>)
      True (Some [20]) (from_init sample_init) external_progress_default)"

definition sample_environment :: environment where
  "sample_environment =
    \<lparr> env_wire = sample_wire, env_canister = [9], env_test = False, env_ids = sample_ids,
      env_between = (\<lambda>_. []), env_controllers = (\<lambda>_. Some [[20]]), env_is_controller = (\<lambda>_ p. p = [20]) \<rparr>"

definition sample_confirm :: "bool \<Rightarrow> environment \<times> governance_request" where
  "sample_confirm base_paused =
    (let head = \<lparr> fob_block_number = 100, fob_block_hash = replicate 32 1, fob_observed_at_ns = 7 \<rparr> in
     (sample_environment, RQ_Confirm [12] 10 (replicate 32 5)
       \<lparr> cf_receipt = Some (RO_Succeeded 90 head),
         cf_snapshot = Some
           \<lparr> cfo_finalized = head,
             cfo_snapshot = \<lparr> osn_mint = \<lparr> bms_finalized_head_block_number = 100, bms_confirmed_block_timestamp = 6,
                 bms_service_fee = 1, bms_max_service_fee = 2, bms_per_deposit_limit = 3, bms_mint_window_limit = 4,
                 bms_mint_window_started_at = 0, bms_mint_window_duration = 5, bms_minted_in_window = 0 \<rparr>,
               osn_bridge_signer = replicate 20 1, osn_mint_authorization_epoch = 0,
               osn_deposits_paused = base_paused, osn_withdrawals_paused = base_paused \<rparr>,
             cfo_bridge_identity = \<lparr> obi_signer = replicate 20 1, obi_runtime_sha256 = replicate 32 7 \<rparr> \<rparr>,
         cf_deployment = None, cf_now = 8 \<rparr>))"

lemmas sample_defs = sample_bridge_store_def sample_admin_store_def sample_control_def sample_activation_def
  sample_transaction_def sample_environment_def admin_store.defs bridge_store.defs

lemma sample_store_facts:
  "activation_inv sample_bridge_store" "ad_deposits_paused (sto_admin sample_bridge_store)"
  "awaits_confirmation 10 sample_bridge_store" "sto_sealed sample_bridge_store"
  "unsettled 10 (sample_confirm True)"
  by (auto simp: activation_inv_def sample_defs pending_transaction_def lane_of_def nonce_lane_def authority_bound_def
      awaits_confirmation_def is_activation_def unsettled_def sample_confirm_def activation_observed_def Let_def
      split: GovernanceNonceLane.splits)

lemma sample_opened:
  "\<not> ad_deposits_paused (sto_admin (run_events (bridge_call_step keccak sha256 X) sample_bridge_store [sample_confirm False]))"
  by (simp add: deliver_def bridge_call_step_def serve_def sample_confirm_def confirm_def confirm_pending_def andThen_def
      require_operational_config_sealed_def asset_operation_lifecycle_decision_def asset_operations_allowed_def
      require_confirmation_caller_def confirmation_caller_authorized_def anonymous_def hash32_def
      find_pending_def pending_governance_transactions_def List.map_filter_simps pending_transaction_def
      capture_transaction_controller_authority_def activation_transaction_phase_def activation_admission_open_def
      current_controller_authority_def answer_def await_def require_transaction_controller_authority_def
      require_unchanged_controller_authority_def final_receipt_def confirm_postcondition_def runtime_attested_def
      runtime_attestation_matches_def external_progress_default_def activation_postcondition_matches_def
      store_config_def with_admin_def from_init_def sample_init_def
      cache_runtime_attestation_def observe_finalized_def stable_observation_def stable_observation_parts_def
      complete_final_def commit_def is_confirmed_def is_activation_def
      complete_confirmed_activation_and_resume_if_clear_def apply_governance_completion_def nonce_lane_def
      is_reverted_def completion_conflicts_def confirmed_activation_record_def activation_phase_def
      activation_confirmation_view_def confirmed_activation_attempt_is_unique_def completion_effect_def
      set_completed_transaction_def set_pending_transaction_def bootstrap_activation_authority_after_transition_def
      confirmed_activation_resume_authorized_def authorized_def administrator_authorized_def authorized_body_def
      ACTION_RESUME_def prepare_store_audit_def prepare_audit_batch_def MAX_AUDIT_BATCH_def
      audit_next_def next_attempt_body_def encode_event_def sample_wire_def stable_blob_new_def
      empty_audit_log_def empty_table_def range_limited_def MAX_AUDIT_EVENTS_def commit_audit_batch_def from_db_def
      insert_tracked_entry_def increment_table_count_def counter_state_default_def
      checked_add_def ok_or_def try_bind_def map_result_def Let_def sample_defs bridge_settings.defs BridgeInitArgs.defs
      ImmutableBridgeConfig.defs)

theorem deposits_open_only_after_activation_witness:
  "let s' = run_events (bridge_call_step (\<lambda>_. []) (\<lambda>_. []) sample_ecdsa) sample_bridge_store [sample_confirm False] in
    \<not> ad_deposits_paused (sto_admin s') \<and> production_lifecycle s' = PL_Activated \<and> opens (sample_confirm False)"
  using deposits_open_only_after_activation [OF sample_store_facts(1,2), of "\<lambda>_. []" "\<lambda>_. []" sample_ecdsa
      "[sample_confirm False]"] sample_opened [of "\<lambda>_. []" "\<lambda>_. []" sample_ecdsa]
  unfolding Let_def by simp

theorem seal_is_final_witness:
  "let s' = run_events (bridge_call_step (\<lambda>_. []) (\<lambda>_. []) sample_ecdsa) sample_bridge_store [sample_confirm False] in
    sto_sealed s' \<and> bridge_settings.truncate (sto_config s') = bridge_settings.truncate (sto_config sample_bridge_store)"
  using seal_is_final [OF sample_store_facts(4), of "\<lambda>_. []" "\<lambda>_. []" sample_ecdsa "[sample_confirm False]"]
  unfolding Let_def by simp

theorem activation_retaken_blocks_governance_witness:
  "let s' = run_events (bridge_call_step (\<lambda>_. []) (\<lambda>_. []) sample_ecdsa) sample_bridge_store
      [sample_confirm True, sample_confirm True] in
    ad_deposits_paused (sto_admin s')
    \<and> (\<exists>e. prepare_governance_transaction (sto_control s')
        (sample_transaction 11 5 (GK_ScheduleActivation (replicate 32 1) (replicate 32 2))) = Inl e)"
  using activation_retaken_blocks_governance [OF sample_store_facts(3), of "[sample_confirm True, sample_confirm True]"
      "\<lambda>_. []" "\<lambda>_. []" sample_ecdsa] sample_store_facts(5)
  by (simp add: Let_def sample_transaction_def nonce_lane_def)

end
