(* ===== verification/Spec2Isabelle.thy ===== *)
theory Spec2Isabelle
  imports Kernel_Decisions Finality Accounting External Deposit_Accounting Reconciliation
    Withdrawal_Tables Audit_Log Notifications Settlement_Jobs
    Bridge_Invariants Rlp_Signing Governance_Calldata Administration Activation_Safety
begin

text \<open>
  A verification library for the KINIC bridge: an Internet Computer canister that moves an ICRC
  ledger token to an ERC-20 on Base and back.

  \<^bold>\<open>The program.\<close>  A deposit pulls an amount from the ledger and commits and signs a mint
  authorization, which anyone can take to the bridge contract on Base before its deadline; an
  authorization that expired unused is refunded on the ledger.  A withdrawal burns tokens on Base; the
  canister observes the burn at a finalized block and releases the amount on the ledger.  A ledger
  call with an ambiguous answer leads to a reconciliation hold, which a scan of the ledger resolves.
  Jobs with leases drive deposits and withdrawals.  Fees are collected in a reserve that governance
  pays out.  Governance transactions for Base are encoded, signed with threshold keys, replaced with
  higher fees and confirmed; the first of them activate the bridge.  Every change of administration
  is in an audit log.

  \<^bold>\<open>Shared vocabulary.\<close>
  \<^item> \<open>Bridge_Prelude\<close>: machine integers as words with their checked and saturating operations,
    \<open>Result\<close> as a sum type, and the collections \<open>result_simps\<close> and \<open>word_exact\<close>.
  \<^item> \<open>Event_Machine\<close>: a step function with errors, its run over a sequence of events, and the locales
    \<open>record_machine\<close>, \<open>event_machine\<close>, \<open>progressing_machine\<close> and \<open>accounted_machine\<close>.  Every statement
    over any sequence of calls is an interpretation of one of them.
  \<^item> \<open>Tracked_Table\<close> and \<open>Store_Counters\<close>: tables with a stored row count, indexes and stored totals,
    with the locales \<open>tracked_index\<close> and \<open>tracked_total\<close>.
  \<^item> \<open>Store_Programs\<close>: endpoints with awaits as programs over a store, and triples for them.

  \<^bold>\<open>The core crate\<close>, \<open>src/canister/bridge-core\<close>.
  \<^item> \<open>kernel.rs\<close> is \<open>Kernel_Arithmetic\<close>, \<open>Kernel_Decisions\<close>, \<open>Kernel_Deposit\<close>, \<open>Kernel_Withdrawal\<close> and
    \<open>Finality\<close>.  A macro is a polymorphic definition and an executable function is the macro at its
    machine type.  The lemmas give each decision exactly, over the natural numbers.
  \<^item> \<open>types.rs\<close> is \<open>Core_Types\<close>, \<open>accounting.rs\<close> and \<open>reserve.rs\<close> are \<open>Accounting\<close>, \<open>authorization.rs\<close> is
    \<open>Authorization\<close>, and \<open>external.rs\<close> is \<open>External\<close>.
  \<^item> \<open>deposit.rs\<close> is \<open>Deposit\<close>.  \<open>Deposit_Machine\<close> proves that \<open>deposit_apply\<close> accepts exactly the replays
    and the transitions of an inductive relation.  \<open>Deposit_Accounting\<close> adds up its effects over a life.
    \<open>Deposit_Examples\<close> has the values of the witnesses.
  \<^item> \<open>withdrawal.rs\<close> is \<open>Withdrawal\<close>, with \<open>Transfers\<close>: complete behaviour, refinement of the kernel's
    phase machine, and one release per withdrawal.
  \<^item> \<open>reconciliation.rs\<close> is \<open>Reconciliation\<close>: both resolutions accept exactly what a relation says, and
    at most one takes effect.

  \<^bold>\<open>The canister\<close>, \<open>src/canister/bridge-canister/src\<close>.
  \<^item> \<open>storage\<close> is \<open>Storage_Keys\<close> (keys and their order), \<open>Admission\<close> (deposit quotas), \<open>Notifications\<close>
    (notification and consent quotas), \<open>Withdrawal_Tables\<close>, \<open>Audit_Log\<close> (a refinement of the list of all
    events), \<open>Settlement_Jobs\<close> (jobs, leases and their fencing) and \<open>Governance_Store\<close> (lanes, nonces,
    emergency actions and rotations).
  \<^item> \<open>mint_authorization.rs\<close> is \<open>Mint_Digest\<close>: the signed digest is the one the contract checks.
    \<open>signer.rs\<close> is \<open>Rlp_Signing\<close>: transactions read back as what was to be signed.
  \<^item> \<open>base_governance.rs\<close> is \<open>Governance_Flow\<close> (fees, signatures and replacements), \<open>Governance_Calldata\<close>
    (encodings and timelock batches) and \<open>Activation\<close> (the endpoints, with the store operations they
    call and all their authority checks).  \<open>Activation_Safety\<close> proves what holds over every sequence of
    calls and every interleaving at the awaits: deposits open only after an observed activation, a
    seal is final, and a case in which governance cannot go on.
  \<^item> \<open>admin.rs\<close> is \<open>Administration\<close>: roles, pausing and payouts, which the reserve always covers.
    \<open>config.rs\<close> is \<open>Configuration\<close>: what the other components rely on follows from validation.

  \<^bold>\<open>The contracts\<close>, \<open>src/contracts/src\<close>.  \<open>Mint_Policy\<close> has the libraries, \<open>Base_Token\<close> the token,
  \<open>Bridge_Contract\<close> the bridge, and \<open>Bridge_Invariants\<close> the properties over all calls by anyone: one mint
  per deposit, the supply, the mint rate, revocation by a pause, and permanence of withdrawals.

  \<^bold>\<open>State and errors.\<close>  A method on \<open>&mut self\<close> and a store transaction return the new record; an error
  leaves the caller with the old one, as the transaction rolls back.  A trap is the result None.  An
  endpoint that fails after an await keeps what it wrote before.  An await lets any other calls of the
  canister run, except those that the shared in-flight guard of the endpoint keeps out.

  \<^bold>\<open>Parameters.\<close>  Library code is an argument of the definitions that use it, with its documented
  behaviour as hypotheses: hash functions, the wire encodings of records, curve operations, the
  ERC-20 ledger and the signature recovery of OpenZeppelin.  Answers of the ledger, of Base, of the
  signer and of the management canister are arguments without hypotheses.  There is no fuel: every
  loop is a structural recursion or has a termination proof.

  \<^bold>\<open>Not modelled.\<close>
  \<^item> The parts of \<open>storage/mod.rs\<close> that are SQL text, schema, upgrade hooks and row encodings, and the
    transactions that tie a deposit to its indexes: they run in SQLite, which is not part of the sources.
  \<^item> \<open>api.rs\<close>, \<open>lib.rs\<close>, \<open>tasks.rs\<close>, \<open>scheduler.rs\<close> and \<open>cycles_top_up.rs\<close> apart from single functions: they
    order asynchronous calls to other canisters and timers of the system around the operations above.
  \<^item> \<open>ledger.rs\<close> and \<open>evm_rpc.rs\<close>: candid and JSON interfaces of other canisters.
  \<^item> \<open>consent.rs\<close>: text for wallets.
  \<^item> \<open>BridgeTimelockController.sol\<close>: it restricts roles of a contract of OpenZeppelin, which does the
    scheduling and is not part of the sources.
  \<^item> Threshold key generation and signing by the management canister, and gas and re-entrancy through
    foreign contracts, as the bridge calls only its own token.
  \<^item> The user interface, the recovery worker, the relayer and proposal tools, the profile tool, the
    mock services and the scripts: they hold no assets, and the canister and the contracts check
    every call.
\<close>

end
